(* ===== verification/Prelude.thy ===== *)
theory Prelude
  imports Main "HOL-Library.AList" "HOL-Library.Sublist" "HOL-Library.List_Lexorder"
    "HOL-Library.Char_ord"
begin

text \<open>
  Shared vocabulary of the development: the part of the Rust language and standard library
  that the gateway's code is written in.

  \<^item> \<open>outcome\<close>: the result of code that may panic (an \<open>unwrap\<close> on a poisoned mutex, an
    overflowing date addition, a slice out of range).
  \<^item> Fixed-width integers as \<open>int\<close> with the range check written out: \<open>i64::try_from\<close>,
    \<open>saturating_add\<close>, the checked \<open>i128\<close> operations, and \<open>str::parse\<close> for the integer types.
  \<^item> A Rust \<open>str\<close> is its sequence of UTF-8 bytes, a \<open>string\<close>: \<open>trim\<close>, \<open>to_ascii_lowercase\<close>,
    \<open>contains\<close>, \<open>strip_prefix\<close>, \<open>strip_suffix\<close>, \<open>split\<close>, \<open>split_once\<close>, \<open>find\<close>, \<open>rfind\<close>, \<open>replace\<close>.
  \<^item> A \<open>HashMap\<close> or \<open>BTreeMap\<close> is an association list with distinct keys, read with
    \<open>map_of\<close> and changed with \<open>AList.update\<close> and \<open>AList.delete\<close>; where the source iterates in
    key order the entries are sorted first.
\<close>

named_theorems rust_std \<open>unfolding of the small standard-library operations\<close>
named_theorems map_lookup \<open>lookup after an update or a deletion of a hash map\<close>

section \<open>Panics\<close>

datatype 'a outcome = Panic | Done 'a

primrec outcome_bind :: "'a outcome \<Rightarrow> ('a \<Rightarrow> 'b outcome) \<Rightarrow> 'b outcome" where
  "outcome_bind Panic f = Panic"
| "outcome_bind (Done x) f = f x"

definition unwrap :: "'a option \<Rightarrow> 'a outcome" where
  "unwrap v = (case v of None \<Rightarrow> Panic | Some x \<Rightarrow> Done x)"

lemma outcome_bind_Done_iff:
  "outcome_bind r f = Done y \<longleftrightarrow> (\<exists>x. r = Done x \<and> f x = Done y)"
  by (cases r) auto

lemma outcome_bind_Panic_iff:
  "outcome_bind r f = Panic \<longleftrightarrow> r = Panic \<or> (\<exists>x. r = Done x \<and> f x = Panic)"
  by (cases r) auto

lemma unwrap_simps [simp]: "unwrap None = Panic" "unwrap (Some x) = Done x"
  by (simp_all add: unwrap_def)

section \<open>Fixed-width integers\<close>

definition i32_range :: "int \<Rightarrow> bool" where
  "i32_range x \<longleftrightarrow> - (2 ^ 31) \<le> x \<and> x < 2 ^ 31"

definition i64_range :: "int \<Rightarrow> bool" where
  "i64_range x \<longleftrightarrow> - (2 ^ 63) \<le> x \<and> x < 2 ^ 63"

definition i128_range :: "int \<Rightarrow> bool" where
  "i128_range x \<longleftrightarrow> - (2 ^ 127) \<le> x \<and> x < 2 ^ 127"

definition i32_checked :: "int \<Rightarrow> int option" where
  "i32_checked x = (if i32_range x then Some x else None)"

definition i64_checked :: "int \<Rightarrow> int option" where
  "i64_checked x = (if i64_range x then Some x else None)"

definition i128_checked :: "int \<Rightarrow> int option" where
  "i128_checked x = (if i128_range x then Some x else None)"

text \<open>The value an overflowing \<open>i64\<close> operation wraps to in a release build.\<close>

definition i64_wrap :: "int \<Rightarrow> int" where
  "i64_wrap x = (x + 2 ^ 63) mod 2 ^ 64 - 2 ^ 63"

text \<open>\<open>i64::saturating_add\<close>.\<close>

definition i64_saturating_add :: "int \<Rightarrow> int \<Rightarrow> int" where
  "i64_saturating_add a b = max (- (2 ^ 63)) (min (2 ^ 63 - 1) (a + b))"

text \<open>Integer division of Rust, which truncates towards zero; the callers exclude a zero divisor.\<close>

definition rust_div :: "int \<Rightarrow> int \<Rightarrow> int" where
  "rust_div a b = sgn a * sgn b * (\<bar>a\<bar> div \<bar>b\<bar>)"

lemma rust_div_nonneg [simp]: "0 \<le> a \<Longrightarrow> 0 < b \<Longrightarrow> rust_div a b = a div b"
  by (cases "a = 0") (auto simp: rust_div_def)

lemma i64_checked_Some_iff [simp]: "i64_checked x = Some y \<longleftrightarrow> i64_range x \<and> y = x"
  by (auto simp: i64_checked_def)

lemma i32_checked_Some_iff [simp]: "i32_checked x = Some y \<longleftrightarrow> i32_range x \<and> y = x"
  by (auto simp: i32_checked_def)

lemma i128_checked_Some_iff [simp]: "i128_checked x = Some y \<longleftrightarrow> i128_range x \<and> y = x"
  by (auto simp: i128_checked_def)

lemma i64_wrap_id: "i64_range x \<Longrightarrow> i64_wrap x = x"
  by (simp add: i64_wrap_def i64_range_def)

lemma i64_saturating_add_range: "i64_range (i64_saturating_add a b)"
  by (auto simp: i64_saturating_add_def i64_range_def)

lemma i64_saturating_add_exact: "i64_range (a + b) \<Longrightarrow> i64_saturating_add a b = a + b"
  by (auto simp: i64_saturating_add_def i64_range_def)

section \<open>Characters and strings\<close>

definition is_ascii_digit :: "char \<Rightarrow> bool" where
  "is_ascii_digit c \<longleftrightarrow> 48 \<le> (of_char c :: nat) \<and> (of_char c :: nat) \<le> 57"

definition is_ascii_upper :: "char \<Rightarrow> bool" where
  "is_ascii_upper c \<longleftrightarrow> 65 \<le> (of_char c :: nat) \<and> (of_char c :: nat) \<le> 90"

definition is_ascii_lower :: "char \<Rightarrow> bool" where
  "is_ascii_lower c \<longleftrightarrow> 97 \<le> (of_char c :: nat) \<and> (of_char c :: nat) \<le> 122"

definition is_ascii_alphanumeric :: "char \<Rightarrow> bool" where
  "is_ascii_alphanumeric c \<longleftrightarrow> is_ascii_digit c \<or> is_ascii_upper c \<or> is_ascii_lower c"

definition digit_val :: "char \<Rightarrow> nat" where
  "digit_val c = of_char c - 48"

definition char_to_ascii_lowercase :: "char \<Rightarrow> char" where
  "char_to_ascii_lowercase c = (if is_ascii_upper c then char_of ((of_char c :: nat) + 32) else c)"

definition to_ascii_lowercase :: "string \<Rightarrow> string" where
  "to_ascii_lowercase s = map char_to_ascii_lowercase s"

definition eq_ignore_ascii_case :: "string \<Rightarrow> string \<Rightarrow> bool" where
  "eq_ignore_ascii_case a b \<longleftrightarrow> to_ascii_lowercase a = to_ascii_lowercase b"

text \<open>
  The UTF-8 encodings of the code points with the Unicode property White_Space, the ones
  \<open>str::trim\<close> removes.
\<close>

definition white_space_seqs :: "string list" where
  "white_space_seqs =
     [[CHR 0x09], [CHR 0x0A], [CHR 0x0B], [CHR 0x0C], [CHR 0x0D], [CHR 0x20],
      [CHR 0xC2, CHR 0x85], [CHR 0xC2, CHR 0xA0], [CHR 0xE1, CHR 0x9A, CHR 0x80],
      [CHR 0xE2, CHR 0x80, CHR 0x80], [CHR 0xE2, CHR 0x80, CHR 0x81], [CHR 0xE2, CHR 0x80, CHR 0x82],
      [CHR 0xE2, CHR 0x80, CHR 0x83], [CHR 0xE2, CHR 0x80, CHR 0x84], [CHR 0xE2, CHR 0x80, CHR 0x85],
      [CHR 0xE2, CHR 0x80, CHR 0x86], [CHR 0xE2, CHR 0x80, CHR 0x87], [CHR 0xE2, CHR 0x80, CHR 0x88],
      [CHR 0xE2, CHR 0x80, CHR 0x89], [CHR 0xE2, CHR 0x80, CHR 0x8A], [CHR 0xE2, CHR 0x80, CHR 0xA8],
      [CHR 0xE2, CHR 0x80, CHR 0xA9], [CHR 0xE2, CHR 0x80, CHR 0xAF], [CHR 0xE2, CHR 0x81, CHR 0x9F],
      [CHR 0xE3, CHR 0x80, CHR 0x80]]"

definition leading_seq :: "string list \<Rightarrow> string \<Rightarrow> nat" where
  "leading_seq seqs s = (case find (\<lambda>w. prefix w s) seqs of None \<Rightarrow> 0 | Some w \<Rightarrow> length w)"

function trim_leading :: "string list \<Rightarrow> string \<Rightarrow> string" where
  "trim_leading seqs s =
     (if leading_seq seqs s = 0 \<or> s = [] then s else trim_leading seqs (drop (leading_seq seqs s) s))"
  by pat_completeness auto
termination
  by (relation "measure (\<lambda>(seqs, s). length s)") auto

declare trim_leading.simps [simp del]

definition trim_start :: "string \<Rightarrow> string" where
  "trim_start s = trim_leading white_space_seqs s"

definition trim_end :: "string \<Rightarrow> string" where
  "trim_end s = rev (trim_leading (map rev white_space_seqs) (rev s))"

definition trim :: "string \<Rightarrow> string" where
  "trim s = trim_end (trim_start s)"

fun str_contains :: "string \<Rightarrow> string \<Rightarrow> bool" where
  "str_contains pat [] = (pat = [])"
| "str_contains pat (c # s) = (prefix pat (c # s) \<or> str_contains pat s)"

definition strip_prefix :: "string \<Rightarrow> string \<Rightarrow> string option" where
  "strip_prefix pat s = (if prefix pat s then Some (drop (length pat) s) else None)"

definition strip_suffix :: "string \<Rightarrow> string \<Rightarrow> string option" where
  "strip_suffix pat s = (if suffix pat s then Some (take (length s - length pat) s) else None)"

text \<open>\<open>str::split\<close> on characters: \<open>n\<close> separators give \<open>n + 1\<close> pieces.\<close>

fun split_by :: "(char \<Rightarrow> bool) \<Rightarrow> string \<Rightarrow> string list" where
  "split_by p [] = [[]]"
| "split_by p (c # s) =
     (if p c then [] # split_by p s
      else (case split_by p s of [] \<Rightarrow> [[c]] | w # ws \<Rightarrow> (c # w) # ws))"

text \<open>\<open>str::split_once\<close> on a character, \<open>str::find\<close> and \<open>str::rfind\<close> on a string.\<close>

fun split_once_char :: "char \<Rightarrow> string \<Rightarrow> (string \<times> string) option" where
  "split_once_char c [] = None"
| "split_once_char c (d # s) =
     (if d = c then Some ([], s)
      else map_option (\<lambda>(a, b). (d # a, b)) (split_once_char c s))"

fun find_str :: "string \<Rightarrow> string \<Rightarrow> nat option" where
  "find_str pat [] = (if pat = [] then Some 0 else None)"
| "find_str pat (c # s) = (if prefix pat (c # s) then Some 0 else map_option Suc (find_str pat s))"

fun rfind_str :: "string \<Rightarrow> string \<Rightarrow> nat option" where
  "rfind_str pat [] = (if pat = [] then Some 0 else None)"
| "rfind_str pat (c # s) =
     (case rfind_str pat s of
        Some i \<Rightarrow> Some (Suc i)
      | None \<Rightarrow> if prefix pat (c # s) then Some 0 else None)"

definition replace_char :: "char \<Rightarrow> char \<Rightarrow> string \<Rightarrow> string" where
  "replace_char a b s = map (\<lambda>c. if c = a then b else c) s"

fun join_strings :: "string \<Rightarrow> string list \<Rightarrow> string" where
  "join_strings sep [] = []"
| "join_strings sep [x] = x"
| "join_strings sep (x # y # ys) = x @ sep @ join_strings sep (y # ys)"

section \<open>Parsing integers\<close>

definition digits_value :: "string \<Rightarrow> nat" where
  "digits_value s = foldl (\<lambda>a c. a * 10 + digit_val c) 0 s"

definition parse_digits :: "string \<Rightarrow> nat option" where
  "parse_digits s = (if s \<noteq> [] \<and> list_all is_ascii_digit s then Some (digits_value s) else None)"

text \<open>
  \<open>str::parse\<close> for a signed type with the given checked conversion: one optional sign, at
  least one ASCII digit, and an error outside the range of the type.
\<close>

definition parse_signed :: "(int \<Rightarrow> int option) \<Rightarrow> string \<Rightarrow> int option" where
  "parse_signed chk s =
     (case s of
        [] \<Rightarrow> None
      | c # r \<Rightarrow>
          (if c = CHR ''-'' then Option.bind (parse_digits r) (\<lambda>n. chk (- int n))
           else if c = CHR ''+'' then Option.bind (parse_digits r) (\<lambda>n. chk (int n))
           else Option.bind (parse_digits s) (\<lambda>n. chk (int n))))"

definition parse_i64 :: "string \<Rightarrow> int option" where
  "parse_i64 s = parse_signed i64_checked s"

definition parse_i32 :: "string \<Rightarrow> int option" where
  "parse_i32 s = parse_signed i32_checked s"

definition parse_i128 :: "string \<Rightarrow> int option" where
  "parse_i128 s = parse_signed i128_checked s"

text \<open>\<open>str::parse::<u64>\<close>: a plus sign is accepted, a minus sign is not.\<close>

definition parse_u64 :: "string \<Rightarrow> nat option" where
  "parse_u64 s =
     (let r = (case s of c # t \<Rightarrow> if c = CHR ''+'' then t else s | [] \<Rightarrow> s)
      in Option.bind (parse_digits r) (\<lambda>n. if n < 2 ^ 64 then Some n else None))"

lemma parse_i64_range: "parse_i64 s = Some x \<Longrightarrow> i64_range x"
  by (auto simp: parse_i64_def parse_signed_def Option.bind_eq_Some_conv
      split: list.splits if_splits)

lemma foldl_digits:
  "foldl (\<lambda>a c. a * 10 + digit_val c) n b = n * 10 ^ length b + digits_value b"
  unfolding digits_value_def
proof (induction b arbitrary: n rule: rev_induct)
  case Nil
  then show ?case by simp
next
  case (snoc x xs)
  show ?case
    by (simp add: snoc [of n] distrib_right)
qed

lemma digits_value_append:
  "digits_value (a @ b) = digits_value a * 10 ^ length b + digits_value b"
proof -
  have "digits_value (a @ b) = foldl (\<lambda>a c. a * 10 + digit_val c) (digits_value a) b"
    by (simp add: digits_value_def)
  then show ?thesis
    by (simp only: foldl_digits)
qed

section \<open>Printing integers\<close>

fun nat_to_string :: "nat \<Rightarrow> string" where
  "nat_to_string n =
     (if n < 10 then [char_of (48 + n)] else nat_to_string (n div 10) @ [char_of (48 + n mod 10)])"

declare nat_to_string.simps [simp del]

definition int_to_string :: "int \<Rightarrow> string" where
  "int_to_string i =
     (if i < 0 then CHR ''-'' # nat_to_string (nat (- i)) else nat_to_string (nat i))"

lemma of_char_digit: "n < 10 \<Longrightarrow> (of_char (char_of (48 + n) :: char) :: nat) = 48 + n"
  by simp

lemma nat_to_string_digits: "list_all is_ascii_digit (nat_to_string n) \<and> nat_to_string n \<noteq> []"
proof (induction n rule: nat_to_string.induct)
  case (1 n)
  have digit: "is_ascii_digit (char_of (48 + m))" if "m < 10" for m :: nat
    using that of_char_digit [of m] by (simp add: is_ascii_digit_def)
  show ?case
    using 1 by (cases "n < 10") (simp_all add: nat_to_string.simps [of n] digit)
qed

lemma digits_value_nat_to_string: "digits_value (nat_to_string n) = n"
proof (induction n rule: nat_to_string.induct)
  case (1 n)
  have dv: "digit_val (char_of (48 + m)) = m" if "m < 10" for m
    using that of_char_digit [of m] by (simp add: digit_val_def)
  show ?case
  proof (cases "n < 10")
    case True
    then show ?thesis
      by (subst nat_to_string.simps) (simp add: digits_value_def dv)
  next
    case False
    then have "digits_value (nat_to_string n) = n div 10 * 10 + n mod 10"
      using 1 by (subst nat_to_string.simps)
        (simp add: digits_value_append, simp add: digits_value_def dv)
    then show ?thesis by simp
  qed
qed

lemma nat_to_string_inj: "nat_to_string a = nat_to_string b \<Longrightarrow> a = b"
  by (metis digits_value_nat_to_string)

lemma nat_to_string_no_minus: "nat_to_string n \<noteq> CHR ''-'' # s"
proof
  assume "nat_to_string n = CHR ''-'' # s"
  then have "is_ascii_digit (CHR ''-'')"
    using nat_to_string_digits [of n] by simp
  then show False by (simp add: is_ascii_digit_def)
qed

lemma int_to_string_inj [simp]: "int_to_string a = int_to_string b \<longleftrightarrow> a = b"
proof
  assume "int_to_string a = int_to_string b"
  then show "a = b"
    by (auto simp: int_to_string_def nat_to_string_no_minus nat_to_string_no_minus [symmetric]
        dest!: nat_to_string_inj split: if_splits)
qed simp

section \<open>Splitting\<close>

lemma split_by_nonempty [simp]: "split_by p s \<noteq> []"
  by (induction s) (auto split: list.splits)

lemma split_by_append:
  "p c \<Longrightarrow> split_by p (a @ c # b) = split_by p a @ split_by p b"
  by (induction a) (auto split: list.splits)

lemma map_filter_append [simp]: "List.map_filter f (xs @ ys) = List.map_filter f xs @ List.map_filter f ys"
  by (simp add: List.map_filter_def)

lemma trim_Nil [simp]: "trim [] = []"
  by (simp add: trim_def trim_end_def trim_start_def trim_leading.simps)

lemma parse_i64_Nil [simp]: "parse_i64 [] = None"
  by (simp add: parse_i64_def parse_signed_def)

section \<open>Lists\<close>

lemma sort_key_map_commute:
  assumes "\<And>x. k (g x) = k x"
  shows "sort_key k (map g xs) = map g (sort_key k xs)"
proof -
  have ins: "insort_key k (g x) (map g ys) = map g (insort_key k x ys)" for x ys
    by (induction ys) (simp_all add: assms)
  show ?thesis
    by (induction xs) (simp_all add: ins)
qed

lemma filter_map_commute: "(\<And>x. p (g x) = p x) \<Longrightarrow> filter p (map g xs) = map g (filter p xs)"
  by (induction xs) auto

lemma find_append:
  "find P (xs @ ys) = (case find P xs of None \<Rightarrow> find P ys | Some x \<Rightarrow> Some x)"
  by (induction xs) auto

lemma concat_slices:
  "concat (map (\<lambda>p. take n (drop (p * n) xs)) [0..<k]) = take (k * n) xs"
proof (induction k)
  case (Suc k)
  then show ?case
    by (simp add: take_add [symmetric] add.commute)
qed simp

lemma alist_update_same: "map_of m k = Some v \<Longrightarrow> AList.update k v m = m"
  by (induction m) (auto split: if_splits)

section \<open>Hash maps\<close>

type_synonym ('k, 'v) hash_map = "('k \<times> 'v) list"

definition hm_wf :: "('k, 'v) hash_map \<Rightarrow> bool" where
  "hm_wf m \<longleftrightarrow> distinct (map fst m)"

text \<open>\<open>entry(k).or_insert(v)\<close>.\<close>

definition hm_or_insert :: "'k \<Rightarrow> 'v \<Rightarrow> ('k, 'v) hash_map \<Rightarrow> ('k, 'v) hash_map" where
  "hm_or_insert k v m = (case map_of m k of None \<Rightarrow> AList.update k v m | Some _ \<Rightarrow> m)"

text \<open>\<open>*entry(k).or_default() += 1\<close> on a map of counters.\<close>

definition hm_incr :: "'k \<Rightarrow> ('k, nat) hash_map \<Rightarrow> ('k, nat) hash_map" where
  "hm_incr k m = AList.update k (Suc (case map_of m k of None \<Rightarrow> 0 | Some n \<Rightarrow> n)) m"

lemma hm_get_update [map_lookup]:
  "map_of (AList.update k v m) k' = (if k' = k then Some v else map_of m k')"
  by (simp add: update_conv')

lemma hm_get_delete [map_lookup]:
  "map_of (AList.delete k m) k' = (if k' = k then None else map_of m k')"
  by (simp add: delete_conv')

lemma hm_get_or_insert [map_lookup]:
  "map_of (hm_or_insert k v m) k' =
     (if k' = k \<and> map_of m k = None then Some v else map_of m k')"
  by (simp add: hm_or_insert_def map_lookup split: option.split)

lemma hm_get_incr [map_lookup]:
  "map_of (hm_incr k m) k' =
     (if k' = k then Some (Suc (case map_of m k of None \<Rightarrow> 0 | Some n \<Rightarrow> n)) else map_of m k')"
  by (simp add: hm_incr_def map_lookup)

lemma hm_wf_Nil [simp, intro]: "hm_wf []"
  by (simp add: hm_wf_def)

lemma hm_wf_update [intro]: "hm_wf m \<Longrightarrow> hm_wf (AList.update k v m)"
  by (simp add: hm_wf_def distinct_update)

lemma hm_wf_delete [intro]: "hm_wf m \<Longrightarrow> hm_wf (AList.delete k m)"
  by (simp add: hm_wf_def distinct_delete)

lemma hm_mem_iff: "hm_wf m \<Longrightarrow> (k, v) \<in> set m \<longleftrightarrow> map_of m k = Some v"
  by (simp add: hm_wf_def)

end
