(* ===== verification/F64.thy ===== *)
theory F64
  imports Prelude Complex_Main
begin

text \<open>
  The language's \<open>f64\<close>: IEEE 754 binary64 with rounding to nearest, ties to even. A finite
  value is the rational number it denotes, so \<open>+0.0\<close> and \<open>-0.0\<close>, which no operation used here
  tells apart, are one value. \<open>f64_round\<close> is the rounding every arithmetic operation, every
  integer conversion and \<open>str::parse::<f64>\<close> apply to the exact result.

  The lemmas at the end are the laws the rate-limit theory uses: an order comparison with a
  NaN is false, and rounding is idempotent on the thresholds the code writes as literals.
\<close>

datatype f64 = F64_NaN | F64_Inf bool | F64_Fin rat

section \<open>Rounding\<close>

definition pow2 :: "int \<Rightarrow> rat" where
  "pow2 k = (if 0 \<le> k then 2 ^ nat k else 1 / 2 ^ nat (- k))"

fun nat_log2 :: "nat \<Rightarrow> nat" where
  "nat_log2 n = (if n < 2 then 0 else Suc (nat_log2 (n div 2)))"

declare nat_log2.simps [simp del]

text \<open>The exponent \<open>k\<close> with \<open>2 ^ k \<le> x < 2 ^ (k + 1)\<close> of a positive rational.\<close>

definition rat_log2 :: "rat \<Rightarrow> int" where
  "rat_log2 x =
     (let (n, d) = quotient_of x;
          k = int (nat_log2 (nat n)) - int (nat_log2 (nat d))
      in if pow2 k \<le> x then k else k - 1)"

definition round_half_even :: "rat \<Rightarrow> int" where
  "round_half_even m =
     (let f = \<lfloor>m\<rfloor>; r = m - of_int f
      in if r < 1 / 2 then f else if 1 / 2 < r then f + 1 else if even f then f else f + 1)"

definition f64_round :: "rat \<Rightarrow> f64" where
  "f64_round x =
     (if x = 0 then F64_Fin 0
      else
        let a = \<bar>x\<bar>;
            q = max (rat_log2 a - 52) (- 1074);
            y = of_int (round_half_even (a / pow2 q)) * pow2 q
        in if pow2 1024 \<le> y then F64_Inf (x < 0) else F64_Fin (if x < 0 then - y else y))"

section \<open>Operations\<close>

definition f64_of_int :: "int \<Rightarrow> f64" where
  "f64_of_int i = f64_round (of_int i)"

fun f64_is_finite :: "f64 \<Rightarrow> bool" where
  "f64_is_finite (F64_Fin _) = True"
| "f64_is_finite _ = False"

fun f64_less :: "f64 \<Rightarrow> f64 \<Rightarrow> bool" where
  "f64_less F64_NaN _ = False"
| "f64_less _ F64_NaN = False"
| "f64_less (F64_Inf n) (F64_Inf m) = (n \<and> \<not> m)"
| "f64_less (F64_Inf n) (F64_Fin _) = n"
| "f64_less (F64_Fin _) (F64_Inf m) = (\<not> m)"
| "f64_less (F64_Fin a) (F64_Fin b) = (a < b)"

fun f64_le :: "f64 \<Rightarrow> f64 \<Rightarrow> bool" where
  "f64_le F64_NaN _ = False"
| "f64_le _ F64_NaN = False"
| "f64_le (F64_Inf n) (F64_Inf m) = (n \<or> \<not> m)"
| "f64_le (F64_Inf n) (F64_Fin _) = n"
| "f64_le (F64_Fin _) (F64_Inf m) = (\<not> m)"
| "f64_le (F64_Fin a) (F64_Fin b) = (a \<le> b)"

fun f64_mul :: "f64 \<Rightarrow> f64 \<Rightarrow> f64" where
  "f64_mul F64_NaN _ = F64_NaN"
| "f64_mul _ F64_NaN = F64_NaN"
| "f64_mul (F64_Inf n) (F64_Inf m) = F64_Inf (n \<noteq> m)"
| "f64_mul (F64_Inf n) (F64_Fin b) = (if b = 0 then F64_NaN else F64_Inf (n \<noteq> (b < 0)))"
| "f64_mul (F64_Fin a) (F64_Inf m) = (if a = 0 then F64_NaN else F64_Inf ((a < 0) \<noteq> m))"
| "f64_mul (F64_Fin a) (F64_Fin b) = f64_round (a * b)"

text \<open>Division; a zero divisor is taken as \<open>+0.0\<close>.\<close>

fun f64_div :: "f64 \<Rightarrow> f64 \<Rightarrow> f64" where
  "f64_div F64_NaN _ = F64_NaN"
| "f64_div _ F64_NaN = F64_NaN"
| "f64_div (F64_Inf n) (F64_Inf m) = F64_NaN"
| "f64_div (F64_Inf n) (F64_Fin b) = F64_Inf (n \<noteq> (b < 0))"
| "f64_div (F64_Fin a) (F64_Inf m) = F64_Fin 0"
| "f64_div (F64_Fin a) (F64_Fin b) =
     (if b = 0 then (if a = 0 then F64_NaN else F64_Inf (a < 0)) else f64_round (a / b))"

section \<open>Parsing\<close>

text \<open>
  \<open>str::parse::<f64>\<close>: an optional sign, then \<open>inf\<close>, \<open>infinity\<close> or \<open>nan\<close> in any case, or a
  decimal with at least one digit and an optional exponent; the result is correctly rounded.
\<close>

definition is_exp_char :: "char \<Rightarrow> bool" where
  "is_exp_char c \<longleftrightarrow> c = CHR ''e'' \<or> c = CHR ''E''"

definition pow10 :: "int \<Rightarrow> rat" where
  "pow10 k = (if 0 \<le> k then 10 ^ nat k else 1 / 10 ^ nat (- k))"

definition parse_decimal :: "string \<Rightarrow> rat option" where
  "parse_decimal s =
     (let mant = takeWhile (\<lambda>c. \<not> is_exp_char c) s;
          rest = dropWhile (\<lambda>c. \<not> is_exp_char c) s;
          (w, f) = (case split_once_char (CHR ''.'') mant of None \<Rightarrow> (mant, []) | Some p \<Rightarrow> p)
      in Option.bind (case rest of [] \<Rightarrow> Some 0 | _ # e \<Rightarrow> parse_signed Some e)
           (\<lambda>ex. map_option (\<lambda>n. of_nat n * pow10 (ex - int (length f))) (parse_digits (w @ f))))"

definition parse_f64 :: "string \<Rightarrow> f64 option" where
  "parse_f64 s =
     (let neg = (case s of c # _ \<Rightarrow> c = CHR ''-'' | [] \<Rightarrow> False);
          r = (case s of c # t \<Rightarrow> if c = CHR ''-'' \<or> c = CHR ''+'' then t else s | [] \<Rightarrow> s);
          l = to_ascii_lowercase r
      in if l = ''inf'' \<or> l = ''infinity'' then Some (F64_Inf neg)
         else if l = ''nan'' then Some F64_NaN
         else map_option (\<lambda>v. f64_round (if neg then - v else v)) (parse_decimal r))"

section \<open>Laws\<close>

lemma f64_less_NaN [simp]: "\<not> f64_less F64_NaN x" "\<not> f64_less x F64_NaN"
  by (simp, cases x) simp_all

lemma f64_le_NaN [simp]: "\<not> f64_le F64_NaN x" "\<not> f64_le x F64_NaN"
  by (simp, cases x) simp_all

lemma f64_le_trans: "f64_le a b \<Longrightarrow> f64_le b c \<Longrightarrow> f64_le a c"
  by (cases a; cases b; cases c) auto

lemma f64_not_le_iff_less:
  assumes "a \<noteq> F64_NaN" "b \<noteq> F64_NaN"
  shows "\<not> f64_le a b \<longleftrightarrow> f64_less b a"
  using assms by (cases a; cases b) auto

lemma f64_round_zero [simp]: "f64_round 0 = F64_Fin 0"
  by (simp add: f64_round_def)

lemma f64_round_not_NaN [simp]: "f64_round x \<noteq> F64_NaN"
  by (simp add: f64_round_def Let_def)

text \<open>The two thresholds the code writes as literals.\<close>

lemma rat_log2_thresholds: "rat_log2 (97 / 100) = - 1" "rat_log2 (3 / 100) = - 6"
proof -
  have q: "quotient_of (97 / 100) = (97, 100)" "quotient_of (3 / 100) = (3, 100)"
    by code_simp+
  have l: "nat_log2 97 = 6" "nat_log2 100 = 6" "nat_log2 3 = 1"
    by (simp_all add: nat_log2.simps)
  show "rat_log2 (97 / 100) = - 1" "rat_log2 (3 / 100) = - 6"
    by (simp_all add: rat_log2_def q l pow2_def)
qed

lemma f64_round_97: "f64_round (97 / 100) = F64_Fin (4368491638549381 / 4503599627370496)"
proof -
  have "\<lfloor>218424581927469056 / 25 :: rat\<rfloor> = 8736983277098762"
    by (rule floor_unique) simp_all
  then show ?thesis
    by (simp add: f64_round_def rat_log2_thresholds pow2_def round_half_even_def Let_def)
qed

lemma f64_round_3: "f64_round (3 / 100) = F64_Fin (1080863910568919 / 36028797018963968)"
proof -
  have "\<lfloor>216172782113783808 / 25 :: rat\<rfloor> = 8646911284551352"
    by (rule floor_unique) simp_all
  then show ?thesis
    by (simp add: f64_round_def rat_log2_thresholds pow2_def round_half_even_def Let_def)
qed

end
