(* ===== verification/Json.thy ===== *)
theory Json
  imports F64
begin

text \<open>
  JSON documents as the code handles them: \<open>serde_json::Value\<close> with the accessors the sources
  call (\<open>get\<close>, \<open>as_str\<close>, \<open>as_bool\<close>, \<open>as_f64\<close>, \<open>as_i64\<close>, \<open>as_array\<close>, \<open>as_object\<close>, \<open>insert\<close>, \<open>remove\<close>).
  An accessor on a value of another kind returns \<open>None\<close>. An object is an association list
  with distinct keys. The text form (\<open>from_str\<close>, \<open>to_string\<close>) belongs to the library and is a
  parameter wherever the code uses it.
\<close>

datatype jnum = PosInt nat | NegInt int | Float f64

datatype json = JNull | JBool bool | JNum jnum | JStr string | JArr "json list"
  | JObj "(string \<times> json) list"

fun jget :: "json \<Rightarrow> string \<Rightarrow> json option" where
  "jget (JObj m) k = map_of m k"
| "jget _ k = None"

fun as_str :: "json \<Rightarrow> string option" where
  "as_str (JStr s) = Some s"
| "as_str _ = None"

fun as_bool :: "json \<Rightarrow> bool option" where
  "as_bool (JBool b) = Some b"
| "as_bool _ = None"

fun as_array :: "json \<Rightarrow> json list option" where
  "as_array (JArr xs) = Some xs"
| "as_array _ = None"

fun as_object :: "json \<Rightarrow> (string \<times> json) list option" where
  "as_object (JObj m) = Some m"
| "as_object _ = None"

fun as_f64 :: "json \<Rightarrow> f64 option" where
  "as_f64 (JNum (PosInt n)) = Some (f64_of_int (int n))"
| "as_f64 (JNum (NegInt i)) = Some (f64_of_int i)"
| "as_f64 (JNum (Float f)) = Some f"
| "as_f64 _ = None"

fun as_i64 :: "json \<Rightarrow> int option" where
  "as_i64 (JNum (PosInt n)) = i64_checked (int n)"
| "as_i64 (JNum (NegInt i)) = Some i"
| "as_i64 _ = None"

text \<open>\<open>Value::from\<close> for the numeric types: a NaN or an infinity becomes \<open>null\<close>.\<close>

definition json_of_f64 :: "f64 \<Rightarrow> json" where
  "json_of_f64 f = (if f64_is_finite f then JNum (Float f) else JNull)"

definition json_of_i64 :: "int \<Rightarrow> json" where
  "json_of_i64 i = (if 0 \<le> i then JNum (PosInt (nat i)) else JNum (NegInt i))"

text \<open>\<open>as_object_mut\<close> followed by \<open>insert\<close> or \<open>remove\<close>: other kinds of value are left alone.\<close>

fun jinsert :: "string \<Rightarrow> json \<Rightarrow> json \<Rightarrow> json" where
  "jinsert k v (JObj m) = JObj (AList.update k v m)"
| "jinsert k v j = j"

fun jremove :: "string \<Rightarrow> json \<Rightarrow> json" where
  "jremove k (JObj m) = JObj (AList.delete k m)"
| "jremove k j = j"

text \<open>
  The text form, \<open>serde_json::to_string\<close> and \<open>from_str\<close>, as a parameter. What the code relies on
  of it is that a document it wrote is read back as the same document.
\<close>

record serde_lib =
  sj_to_string :: "json \<Rightarrow> string"
  sj_from_str :: "string \<Rightarrow> json option"

definition serde_ok :: "serde_lib \<Rightarrow> json \<Rightarrow> bool" where
  "serde_ok S j \<longleftrightarrow> sj_from_str S (sj_to_string S j) = Some j"

lemma jget_jinsert:
  "jget (jinsert k v j) k' = (if k' = k \<and> as_object j \<noteq> None then Some v else jget j k')"
  by (cases j) (simp_all add: map_lookup)

lemma jget_jremove: "jget (jremove k j) k' = (if k' = k then None else jget j k')"
  by (cases j) (simp_all add: map_lookup)

lemma as_f64_json_of_f64: "as_f64 (json_of_f64 f) = (if f64_is_finite f then Some f else None)"
  by (simp add: json_of_f64_def)

lemma as_object_Some_iff: "as_object j = Some m \<longleftrightarrow> j = JObj m"
  by (cases j) auto

lemma as_str_Some_iff: "as_str j = Some s \<longleftrightarrow> j = JStr s"
  by (cases j) auto

lemma as_array_Some_iff: "as_array j = Some xs \<longleftrightarrow> j = JArr xs"
  by (cases j) auto

end
