(* ===== verification/Limit.thy ===== *)
theory Limit
  imports Json
begin

text \<open>
  Rate-limit state of the accounts (\<open>src/service/limit.rs\<close>): the response-header and usage-JSON
  parsers, the state update \<open>compute_new_state\<close>, the flush decision \<open>flush_reason\<close>, the selector's
  query \<open>judge_availability\<close>, the snapshot written to the database \<open>build_usage_json\<close>, and the
  store of states behind a mutex.

  A \<open>DateTime<Utc>\<close> is its number of nanoseconds since the epoch and an \<open>Instant\<close> the same on
  the monotonic clock; the functions that read a clock take the reading as an argument
  (\<open>now\<close>, \<open>inst\<close>). What the \<open>chrono\<close> library computes is the parameter \<open>L\<close>. A header map is the
  partial function from a lower-case name to the text value \<open>header_str\<close> returns. The reason
  text of an \<open>Unavailable\<close> verdict is kept as the arguments it is formatted from.
\<close>

section \<open>Library functions the component calls\<close>

text \<open>
  \<open>lib_checked_add\<close> is the addition of a date and a duration: \<open>None\<close> is the overflow on which
  the operator \<open>+\<close> panics. \<open>lib_duration_from_std\<close> converts seconds to nanoseconds and fails
  on a value the library cannot represent. \<open>lib_uppercase_first\<close> maps the first scalar value of
  a string to upper case.
\<close>

record lib =
  lib_from_timestamp :: "int \<Rightarrow> int option"
  lib_parse_rfc3339 :: "string \<Rightarrow> int option"
  lib_to_rfc3339 :: "int \<Rightarrow> string"
  lib_duration_from_std :: "nat \<Rightarrow> int option"
  lib_checked_add :: "int \<Rightarrow> int \<Rightarrow> int option"
  lib_uppercase_first :: "string \<Rightarrow> string"

type_synonym header_map = "string \<Rightarrow> string option"

section \<open>Constants and data\<close>

definition DB_FLUSH_TTL :: int where "DB_FLUSH_TTL = 5 * 60 * 10 ^ 9"
definition HIT_THRESHOLD :: f64 where "HIT_THRESHOLD = f64_round (97 / 100)"
definition DEFAULT_429_BAN :: nat where "DEFAULT_429_BAN = 60"
definition PREEMPT_RATIO :: f64 where "PREEMPT_RATIO = f64_round (3 / 100)"

datatype model_class = Opus | Sonnet | Fable

definition from_model_id :: "string \<Rightarrow> model_class" where
  "from_model_id model_id =
     (let lower = to_ascii_lowercase model_id
      in if str_contains ''sonnet'' lower then Sonnet
         else if str_contains ''fable'' lower then Fable
         else Opus)"

fun model_class_as_str :: "model_class \<Rightarrow> string" where
  "model_class_as_str Opus = ''opus''"
| "model_class_as_str Sonnet = ''sonnet''"
| "model_class_as_str Fable = ''fable''"

fun scoped_group :: "model_class \<Rightarrow> string option" where
  "scoped_group Sonnet = Some ''sonnet''"
| "scoped_group Fable = Some ''fable''"
| "scoped_group Opus = None"

datatype unified_status = US_Allowed | US_AllowedWarning | US_Rejected

definition unified_status_parse :: "string \<Rightarrow> unified_status option" where
  "unified_status_parse s =
     (if s = ''allowed'' then Some US_Allowed
      else if s = ''allowed_warning'' then Some US_AllowedWarning
      else if s = ''rejected'' then Some US_Rejected
      else None)"

fun unified_status_as_str :: "unified_status \<Rightarrow> string" where
  "unified_status_as_str US_Allowed = ''allowed''"
| "unified_status_as_str US_AllowedWarning = ''allowed_warning''"
| "unified_status_as_str US_Rejected = ''rejected''"

datatype overage_status = OS_Allowed | OS_AllowedWarning | OS_Rejected

definition overage_status_parse :: "string \<Rightarrow> overage_status option" where
  "overage_status_parse s =
     (if s = ''allowed'' then Some OS_Allowed
      else if s = ''allowed_warning'' then Some OS_AllowedWarning
      else if s = ''rejected'' then Some OS_Rejected
      else None)"

fun overage_status_as_str :: "overage_status \<Rightarrow> string" where
  "overage_status_as_str OS_Allowed = ''allowed''"
| "overage_status_as_str OS_AllowedWarning = ''allowed_warning''"
| "overage_status_as_str OS_Rejected = ''rejected''"

record window_snapshot =
  ws_utilization :: f64
  ws_resets_at :: int
  ws_status :: unified_status
  ws_surpassed :: "f64 option"

record scoped_limit =
  sl_model_group :: string
  sl_display_name :: string
  sl_window :: window_snapshot

record rpm_tpm_counter =
  rc_limit :: int
  rc_remaining :: int
  rc_reset_at :: int

record rpm_tpm_snapshot =
  rt_requests :: "rpm_tpm_counter option"
  rt_tokens :: "rpm_tpm_counter option"
  rt_input_tokens :: "rpm_tpm_counter option"
  rt_output_tokens :: "rpm_tpm_counter option"

record limit_state =
  ls_five_hour :: "window_snapshot option"
  ls_seven_day :: "window_snapshot option"
  ls_status :: "unified_status option"
  ls_representative_claim :: "string option"
  ls_reset_at :: "int option"
  ls_fallback_percentage :: "f64 option"
  ls_overage_status :: "overage_status option"
  ls_overage_disabled_reason :: "string option"
  ls_overage_reset_at :: "int option"
  ls_rate_limited_until :: "int option"
  ls_rpm_tpm :: "rpm_tpm_snapshot option"
  ls_scoped_weekly :: "(string, scoped_limit) hash_map"
  ls_scoped_rate_limited_until :: "(string, int) hash_map"
  ls_sonnet_seven_day :: "window_snapshot option"
  ls_sonnet_rate_limited_until :: "int option"
  ls_updated_at :: "int option"
  ls_last_db_flush_at :: "int option"

definition default_rpm_tpm :: rpm_tpm_snapshot where
  "default_rpm_tpm =
     \<lparr>rt_requests = None, rt_tokens = None, rt_input_tokens = None, rt_output_tokens = None\<rparr>"

definition default_limit_state :: limit_state where
  "default_limit_state =
     \<lparr>ls_five_hour = None, ls_seven_day = None, ls_status = None, ls_representative_claim = None,
      ls_reset_at = None, ls_fallback_percentage = None, ls_overage_status = None,
      ls_overage_disabled_reason = None, ls_overage_reset_at = None, ls_rate_limited_until = None,
      ls_rpm_tpm = None, ls_scoped_weekly = [], ls_scoped_rate_limited_until = [],
      ls_sonnet_seven_day = None, ls_sonnet_rate_limited_until = None, ls_updated_at = None,
      ls_last_db_flush_at = None\<rparr>"

datatype limit_reason =
    UpstreamRejected
  | ShortBan
  | CounterLow string
  | FiveHourUsed f64
  | SevenDayUsed f64
  | ScopedShortBan string
  | ScopedSevenDayUsed string f64

datatype availability = Available | Unavailable limit_reason "int option"

fun is_available :: "availability \<Rightarrow> bool" where
  "is_available Available = True"
| "is_available (Unavailable _ _) = False"

section \<open>RPM/TPM counters\<close>

definition counter_preempted :: "rpm_tpm_counter \<Rightarrow> int \<Rightarrow> bool" where
  "counter_preempted c now \<longleftrightarrow>
     0 < rc_limit c
     \<and> f64_less (f64_div (f64_of_int (rc_remaining c)) (f64_of_int (rc_limit c))) PREEMPT_RATIO
     \<and> now < rc_reset_at c"

definition named_counters :: "rpm_tpm_snapshot \<Rightarrow> (string \<times> rpm_tpm_counter option) list" where
  "named_counters s =
     [(''requests'', rt_requests s), (''tokens'', rt_tokens s),
      (''input_tokens'', rt_input_tokens s), (''output_tokens'', rt_output_tokens s)]"

fun first_preempted_in ::
  "(string \<times> rpm_tpm_counter option) list \<Rightarrow> int \<Rightarrow> (string \<times> int) option" where
  "first_preempted_in [] now = None"
| "first_preempted_in ((name, None) # cs) now = first_preempted_in cs now"
| "first_preempted_in ((name, Some c) # cs) now =
     (if counter_preempted c now then Some (name, rc_reset_at c) else first_preempted_in cs now)"

definition first_preempted :: "rpm_tpm_snapshot \<Rightarrow> int \<Rightarrow> (string \<times> int) option" where
  "first_preempted s now = first_preempted_in (named_counters s) now"

definition all_counters :: "rpm_tpm_snapshot \<Rightarrow> rpm_tpm_counter list" where
  "all_counters s = List.map_filter snd (named_counters s)"

definition merge_rpm_tpm ::
  "rpm_tpm_snapshot option \<Rightarrow> rpm_tpm_snapshot \<Rightarrow> rpm_tpm_snapshot" where
  "merge_rpm_tpm prev new =
     (let out = (case prev of None \<Rightarrow> default_rpm_tpm | Some p \<Rightarrow> p);
          out = (if rt_requests new \<noteq> None then out\<lparr>rt_requests := rt_requests new\<rparr> else out);
          out = (if rt_tokens new \<noteq> None then out\<lparr>rt_tokens := rt_tokens new\<rparr> else out);
          out = (if rt_input_tokens new \<noteq> None
                 then out\<lparr>rt_input_tokens := rt_input_tokens new\<rparr> else out);
          out = (if rt_output_tokens new \<noteq> None
                 then out\<lparr>rt_output_tokens := rt_output_tokens new\<rparr> else out)
      in out)"

section \<open>Header parsing\<close>

definition header_str :: "header_map \<Rightarrow> string \<Rightarrow> string option" where
  "header_str headers name = headers name"

definition scoped_claim_group :: "string option \<Rightarrow> string option" where
  "scoped_claim_group claim =
     (if claim = Some ''seven_day_sonnet'' then Some ''sonnet''
      else if claim = Some ''seven_day_overage_included'' then Some ''fable''
      else None)"

definition scoped_rejection_group :: "header_map \<Rightarrow> string option" where
  "scoped_rejection_group headers =
     scoped_claim_group (header_str headers ''anthropic-ratelimit-unified-representative-claim'')"

definition is_sonnet_rejection :: "header_map \<Rightarrow> bool" where
  "is_sonnet_rejection headers \<longleftrightarrow> scoped_rejection_group headers = Some ''sonnet''"

definition unified_header :: "string \<Rightarrow> string \<Rightarrow> string" where
  "unified_header abbrev field = ''anthropic-ratelimit-unified-'' @ abbrev @ ''-'' @ field"

definition parse_window_from_headers :: "lib \<Rightarrow> header_map \<Rightarrow> string \<Rightarrow> window_snapshot option" where
  "parse_window_from_headers L headers abbrev =
     Option.bind (Option.bind (header_str headers (unified_header abbrev ''utilization'')) parse_f64)
       (\<lambda>util.
     Option.bind (Option.bind (header_str headers (unified_header abbrev ''reset'')) parse_i64)
       (\<lambda>reset_secs.
     Option.bind (lib_from_timestamp L reset_secs)
       (\<lambda>resets_at.
     Some \<lparr>ws_utilization = util,
           ws_resets_at = resets_at,
           ws_status = (case Option.bind (header_str headers (unified_header abbrev ''status''))
                              unified_status_parse of
                          None \<Rightarrow> US_Allowed | Some st \<Rightarrow> st),
           ws_surpassed = Option.bind
              (header_str headers (unified_header abbrev ''surpassed-threshold'')) parse_f64\<rparr>)))"

record parsed_headers =
  ph_five_hour :: "window_snapshot option"
  ph_seven_day :: "window_snapshot option"
  ph_scoped_weekly :: "scoped_limit list"
  ph_status :: "unified_status option"
  ph_representative_claim :: "string option"
  ph_reset_at :: "int option"
  ph_fallback_percentage :: "f64 option"
  ph_overage_status :: "overage_status option"
  ph_overage_disabled_reason :: "string option"
  ph_overage_reset_at :: "int option"

definition any_present :: "parsed_headers \<Rightarrow> bool" where
  "any_present p \<longleftrightarrow>
     ph_five_hour p \<noteq> None \<or> ph_seven_day p \<noteq> None \<or> ph_scoped_weekly p \<noteq> []
     \<or> ph_status p \<noteq> None \<or> ph_representative_claim p \<noteq> None \<or> ph_reset_at p \<noteq> None
     \<or> ph_overage_status p \<noteq> None \<or> ph_overage_reset_at p \<noteq> None"

definition header_timestamp :: "lib \<Rightarrow> header_map \<Rightarrow> string \<Rightarrow> int option" where
  "header_timestamp L headers name =
     Option.bind (Option.bind (header_str headers name) parse_i64) (lib_from_timestamp L)"

definition scoped_header_window :: "lib \<Rightarrow> header_map \<Rightarrow> string \<Rightarrow> string \<Rightarrow> string \<Rightarrow> scoped_limit list" where
  "scoped_header_window L headers abbrev grp display =
     (case parse_window_from_headers L headers abbrev of
        None \<Rightarrow> []
      | Some w \<Rightarrow> [\<lparr>sl_model_group = grp, sl_display_name = display, sl_window = w\<rparr>])"

definition parse_unified_headers :: "lib \<Rightarrow> header_map \<Rightarrow> parsed_headers option" where
  "parse_unified_headers L headers =
     (let parsed =
        \<lparr>ph_five_hour = parse_window_from_headers L headers ''5h'',
         ph_seven_day = parse_window_from_headers L headers ''7d'',
         ph_scoped_weekly = scoped_header_window L headers ''7d_sonnet'' ''sonnet'' ''Sonnet''
                          @ scoped_header_window L headers ''7d_oi'' ''fable'' ''Fable'',
         ph_status = Option.bind (header_str headers ''anthropic-ratelimit-unified-status'')
                       unified_status_parse,
         ph_representative_claim =
           header_str headers ''anthropic-ratelimit-unified-representative-claim'',
         ph_reset_at = header_timestamp L headers ''anthropic-ratelimit-unified-reset'',
         ph_fallback_percentage =
           Option.bind (header_str headers ''anthropic-ratelimit-unified-fallback-percentage'')
             parse_f64,
         ph_overage_status =
           Option.bind (header_str headers ''anthropic-ratelimit-unified-overage-status'')
             overage_status_parse,
         ph_overage_disabled_reason =
           header_str headers ''anthropic-ratelimit-unified-overage-disabled-reason'',
         ph_overage_reset_at =
           header_timestamp L headers ''anthropic-ratelimit-unified-overage-reset''\<rparr>
      in if any_present parsed then Some parsed else None)"

definition parse_retry_after :: "header_map \<Rightarrow> nat option" where
  "parse_retry_after headers =
     Option.bind (header_str headers ''retry-after'') (\<lambda>s. parse_u64 (trim s))"

definition rate_header :: "string \<Rightarrow> string \<Rightarrow> string" where
  "rate_header kind field = ''anthropic-ratelimit-'' @ kind @ ''-'' @ field"

definition parse_rpm_tpm_counter :: "lib \<Rightarrow> header_map \<Rightarrow> string \<Rightarrow> rpm_tpm_counter option" where
  "parse_rpm_tpm_counter L headers kind =
     Option.bind (Option.bind (header_str headers (rate_header kind ''limit'')) parse_i64) (\<lambda>limit.
     Option.bind (Option.bind (header_str headers (rate_header kind ''remaining'')) parse_i64)
       (\<lambda>remaining.
     Option.bind (header_str headers (rate_header kind ''reset'')) (\<lambda>reset_str.
     Option.bind (lib_parse_rfc3339 L reset_str) (\<lambda>reset_at.
     Some \<lparr>rc_limit = limit, rc_remaining = remaining, rc_reset_at = reset_at\<rparr>))))"

definition parse_rpm_tpm_headers :: "lib \<Rightarrow> header_map \<Rightarrow> rpm_tpm_snapshot option" where
  "parse_rpm_tpm_headers L headers =
     (let s = \<lparr>rt_requests = parse_rpm_tpm_counter L headers ''requests'',
               rt_tokens = parse_rpm_tpm_counter L headers ''tokens'',
               rt_input_tokens = parse_rpm_tpm_counter L headers ''input-tokens'',
               rt_output_tokens = parse_rpm_tpm_counter L headers ''output-tokens''\<rparr>
      in if rt_requests s = None \<and> rt_tokens s = None \<and> rt_input_tokens s = None
            \<and> rt_output_tokens s = None
         then None else Some s)"

section \<open>State update from a response\<close>

definition default_scoped_display_name :: "lib \<Rightarrow> string \<Rightarrow> string" where
  "default_scoped_display_name L model_group =
     (if model_group = ''sonnet'' then ''Sonnet''
      else if model_group = ''fable'' then ''Fable''
      else join_strings '' ''
             (map (lib_uppercase_first L)
                (filter (\<lambda>part. part \<noteq> [])
                   (split_by (\<lambda>c. c = CHR ''_'' \<or> c = CHR ''-'') model_group))))"

definition set_scoped_window :: "limit_state \<Rightarrow> scoped_limit \<Rightarrow> limit_state" where
  "set_scoped_window st item =
     (let st = (if sl_model_group item = ''sonnet''
                then st\<lparr>ls_sonnet_seven_day := Some (sl_window item)\<rparr> else st)
      in st\<lparr>ls_scoped_weekly := AList.update (sl_model_group item) item (ls_scoped_weekly st)\<rparr>)"

definition set_scoped_ban :: "limit_state \<Rightarrow> string \<Rightarrow> int \<Rightarrow> limit_state" where
  "set_scoped_ban st model_group until =
     (let st = st\<lparr>ls_scoped_rate_limited_until :=
                    AList.update model_group until (ls_scoped_rate_limited_until st)\<rparr>
      in if model_group = ''sonnet'' then st\<lparr>ls_sonnet_rate_limited_until := Some until\<rparr> else st)"

definition or_keep :: "'a option \<Rightarrow> 'a option \<Rightarrow> 'a option" where
  "or_keep new old = (case new of None \<Rightarrow> old | Some x \<Rightarrow> Some x)"

definition apply_parsed :: "lib \<Rightarrow> limit_state \<Rightarrow> parsed_headers \<Rightarrow> limit_state" where
  "apply_parsed L st p =
     (let st = st\<lparr>ls_five_hour := or_keep (ph_five_hour p) (ls_five_hour st),
                  ls_representative_claim :=
                    or_keep (ph_representative_claim p) (ls_representative_claim st),
                  ls_reset_at := or_keep (ph_reset_at p) (ls_reset_at st),
                  ls_fallback_percentage :=
                    or_keep (ph_fallback_percentage p) (ls_fallback_percentage st),
                  ls_overage_status := or_keep (ph_overage_status p) (ls_overage_status st),
                  ls_overage_disabled_reason :=
                    or_keep (ph_overage_disabled_reason p) (ls_overage_disabled_reason st),
                  ls_overage_reset_at :=
                    or_keep (ph_overage_reset_at p) (ls_overage_reset_at st)\<rparr>;
          claim_group = scoped_claim_group (ph_representative_claim p);
          explicit_groups = map sl_model_group (ph_scoped_weekly p);
          st = foldl set_scoped_window st (ph_scoped_weekly p);
          st = (case ph_seven_day p of
                  None \<Rightarrow> st
                | Some w \<Rightarrow>
                    (case claim_group of
                       Some grp \<Rightarrow>
                         if grp \<notin> set explicit_groups then
                           (let w = (case ph_status p of
                                       None \<Rightarrow> w | Some status \<Rightarrow> w\<lparr>ws_status := status\<rparr>)
                            in set_scoped_window st
                                 \<lparr>sl_model_group = grp,
                                  sl_display_name = default_scoped_display_name L grp,
                                  sl_window = w\<rparr>)
                         else st\<lparr>ls_seven_day := Some w\<rparr>
                     | None \<Rightarrow> st\<lparr>ls_seven_day := Some w\<rparr>))
      in if claim_group = None then st\<lparr>ls_status := or_keep (ph_status p) (ls_status st)\<rparr> else st)"

text \<open>\<open>Utc::now() + Duration::from_std(d).unwrap_or_default()\<close>; the addition may panic.\<close>

definition now_plus :: "lib \<Rightarrow> int \<Rightarrow> nat \<Rightarrow> int outcome" where
  "now_plus L now secs =
     unwrap (lib_checked_add L now
       (case lib_duration_from_std L secs of None \<Rightarrow> 0 | Some d \<Rightarrow> d))"

definition apply_429 ::
  "lib \<Rightarrow> int \<Rightarrow> string option \<Rightarrow> int option \<Rightarrow> nat option \<Rightarrow> limit_state \<Rightarrow> limit_state outcome" where
  "apply_429 L now claim_group current_reset_at retry_after s =
     (case claim_group of
        Some grp \<Rightarrow>
          (case current_reset_at of
             Some until \<Rightarrow> Done (set_scoped_ban s grp until)
           | None \<Rightarrow>
               (case retry_after of
                  None \<Rightarrow> Done s
                | Some d \<Rightarrow> outcome_bind (now_plus L now d)
                              (\<lambda>until. Done (set_scoped_ban s grp until))))
      | None \<Rightarrow>
          (case current_reset_at of
             Some _ \<Rightarrow> Done s
           | None \<Rightarrow>
               (case retry_after of
                  None \<Rightarrow> Done s
                | Some d \<Rightarrow> outcome_bind (now_plus L now d)
                              (\<lambda>until. Done (s\<lparr>ls_rate_limited_until := Some until\<rparr>)))))"

definition compute_new_state ::
  "lib \<Rightarrow> int \<Rightarrow> limit_state \<Rightarrow> model_class \<Rightarrow> nat \<Rightarrow> header_map \<Rightarrow> limit_state option outcome" where
  "compute_new_state L now prev mc status headers =
     (let parsed_unified = parse_unified_headers L headers;
          parsed_rpm_tpm = parse_rpm_tpm_headers L headers;
          retry_after = parse_retry_after headers
      in if parsed_unified \<noteq> None \<or> parsed_rpm_tpm \<noteq> None then
           (let claim_group = Option.bind parsed_unified
                                (\<lambda>p. scoped_claim_group (ph_representative_claim p));
                current_reset_at = Option.bind parsed_unified ph_reset_at;
                s = (case parsed_unified of None \<Rightarrow> prev | Some u \<Rightarrow> apply_parsed L prev u);
                s = (case parsed_rpm_tpm of
                       None \<Rightarrow> s
                     | Some r \<Rightarrow> s\<lparr>ls_rpm_tpm := Some (merge_rpm_tpm (ls_rpm_tpm s) r)\<rparr>)
            in if status = 429
               then outcome_bind (apply_429 L now claim_group current_reset_at retry_after s)
                      (\<lambda>s. Done (Some s))
               else Done (Some s))
         else if status = 429 then
           (let ban = (case retry_after of None \<Rightarrow> DEFAULT_429_BAN | Some d \<Rightarrow> d)
            in outcome_bind (now_plus L now ban) (\<lambda>ban_until.
                 Done (Some (case scoped_group mc of
                               Some grp \<Rightarrow> set_scoped_ban prev grp ban_until
                             | None \<Rightarrow> prev\<lparr>ls_rate_limited_until := Some ban_until\<rparr>))))
         else Done None)"

section \<open>State update from the usage query\<close>

definition json_window :: "lib \<Rightarrow> json \<Rightarrow> window_snapshot option" where
  "json_window L window =
     Option.bind (Option.bind (jget window ''utilization'') as_f64) (\<lambda>util_0_100.
     Option.bind (Option.bind (jget window ''resets_at'') as_str) (\<lambda>resets_at_str.
     Option.bind (lib_parse_rfc3339 L resets_at_str) (\<lambda>resets_at.
     Some \<lparr>ws_utilization = f64_div util_0_100 (F64_Fin 100), ws_resets_at = resets_at,
           ws_status = US_Allowed, ws_surpassed = None\<rparr>)))"

definition parse_usage_json_window :: "lib \<Rightarrow> json \<Rightarrow> string \<Rightarrow> window_snapshot option" where
  "parse_usage_json_window L usage key = Option.bind (jget usage key) (json_window L)"

definition usage_json_scoped_limit :: "lib \<Rightarrow> json \<Rightarrow> scoped_limit option" where
  "usage_json_scoped_limit L item =
     (if Option.bind (jget item ''type'') as_str \<noteq> Some ''weekly_scoped'' then None
      else
        Option.bind (Option.bind (jget item ''scope'') (\<lambda>sc. jget sc ''model'')) (\<lambda>model.
        Option.bind (Option.bind (jget model ''model_group'') as_str) (\<lambda>raw_group.
        let model_group = to_ascii_lowercase (trim raw_group)
        in if model_group = [] then None
           else
             Option.bind (Option.bind (jget item ''utilization'') as_f64) (\<lambda>utilization.
             if \<not> f64_is_finite utilization \<or> f64_less utilization (F64_Fin 0) then None
             else
               Option.bind (Option.bind (jget item ''resets_at'') as_str) (\<lambda>resets_at_str.
               Option.bind (lib_parse_rfc3339 L resets_at_str) (\<lambda>resets_at.
               let display_name =
                     (case Option.bind (jget model ''display_name'') as_str of
                        None \<Rightarrow> default_scoped_display_name L model_group
                      | Some v \<Rightarrow>
                          (if trim v \<noteq> [] then trim v
                           else default_scoped_display_name L model_group))
               in Some \<lparr>sl_model_group = model_group, sl_display_name = display_name,
                        sl_window = \<lparr>ws_utilization = f64_div utilization (F64_Fin 100),
                                     ws_resets_at = resets_at, ws_status = US_Allowed,
                                     ws_surpassed = None\<rparr>\<rparr>))))))"

definition parse_usage_json_scoped_limits :: "lib \<Rightarrow> json \<Rightarrow> scoped_limit list" where
  "parse_usage_json_scoped_limits L usage =
     (case Option.bind (jget usage ''limits'') as_array of
        None \<Rightarrow> []
      | Some items \<Rightarrow> List.map_filter (usage_json_scoped_limit L) items)"

definition apply_usage_json :: "lib \<Rightarrow> limit_state \<Rightarrow> json \<Rightarrow> limit_state" where
  "apply_usage_json L st usage =
     (let st = st\<lparr>ls_five_hour :=
                    or_keep (parse_usage_json_window L usage ''five_hour'') (ls_five_hour st)\<rparr>;
          st = st\<lparr>ls_seven_day :=
                    or_keep (parse_usage_json_window L usage ''seven_day'') (ls_seven_day st)\<rparr>;
          st = st\<lparr>ls_seven_day :=
                    or_keep (parse_usage_json_window L usage ''seven_day_opus'') (ls_seven_day st)\<rparr>;
          st = (if jget usage ''limits'' \<noteq> None
                then st\<lparr>ls_scoped_weekly := [], ls_sonnet_seven_day := None\<rparr> else st);
          scoped = parse_usage_json_scoped_limits L usage;
          has_dynamic_sonnet = list_ex (\<lambda>item. sl_model_group item = ''sonnet'') scoped;
          st = foldl set_scoped_window st scoped
      in if \<not> has_dynamic_sonnet then
           (case parse_usage_json_window L usage ''seven_day_sonnet'' of
              None \<Rightarrow> st
            | Some w \<Rightarrow> set_scoped_window st
                          \<lparr>sl_model_group = ''sonnet'', sl_display_name = ''Sonnet'',
                           sl_window = w\<rparr>)
         else st)"

section \<open>When to flush\<close>

definition win_util :: "window_snapshot option \<Rightarrow> f64" where
  "win_util w = (case w of None \<Rightarrow> F64_Fin 0 | Some w \<Rightarrow> ws_utilization w)"

definition crossed_threshold ::
  "window_snapshot option \<Rightarrow> window_snapshot option \<Rightarrow> f64 \<Rightarrow> bool" where
  "crossed_threshold prev new threshold \<longleftrightarrow>
     f64_le threshold (win_util new) \<and> f64_less (win_util prev) threshold"

definition newly_surpassed :: "window_snapshot option \<Rightarrow> window_snapshot option \<Rightarrow> bool" where
  "newly_surpassed prev new \<longleftrightarrow>
     Option.bind new ws_surpassed \<noteq> None \<and> Option.bind prev ws_surpassed = None"

definition scoped_window :: "limit_state \<Rightarrow> string \<Rightarrow> window_snapshot option" where
  "scoped_window st grp = map_option sl_window (map_of (ls_scoped_weekly st) grp)"

definition scoped_status_tightened :: "limit_state \<Rightarrow> limit_state \<Rightarrow> bool" where
  "scoped_status_tightened prev new \<longleftrightarrow>
     list_ex (\<lambda>(grp, item).
         (case scoped_window prev grp of None \<Rightarrow> US_Allowed | Some w \<Rightarrow> ws_status w) = US_Allowed
         \<and> ws_status (sl_window item) \<noteq> US_Allowed)
       (ls_scoped_weekly new)"

definition scoped_crossed_threshold :: "limit_state \<Rightarrow> limit_state \<Rightarrow> bool" where
  "scoped_crossed_threshold prev new \<longleftrightarrow>
     list_ex (\<lambda>(grp, item).
         f64_le HIT_THRESHOLD (ws_utilization (sl_window item))
         \<and> f64_less (win_util (scoped_window prev grp)) HIT_THRESHOLD)
       (ls_scoped_weekly new)"

definition scoped_newly_surpassed :: "limit_state \<Rightarrow> limit_state \<Rightarrow> bool" where
  "scoped_newly_surpassed prev new \<longleftrightarrow>
     list_ex (\<lambda>(grp, item).
         ws_surpassed (sl_window item) \<noteq> None
         \<and> Option.bind (scoped_window prev grp) ws_surpassed = None)
       (ls_scoped_weekly new)"

definition rpm_preempted :: "rpm_tpm_snapshot option \<Rightarrow> int \<Rightarrow> bool" where
  "rpm_preempted r now \<longleftrightarrow> (case r of None \<Rightarrow> False | Some s \<Rightarrow> first_preempted s now \<noteq> None)"

definition rpm_tpm_newly_preempted ::
  "int \<Rightarrow> rpm_tpm_snapshot option \<Rightarrow> rpm_tpm_snapshot option \<Rightarrow> bool" where
  "rpm_tpm_newly_preempted now prev new \<longleftrightarrow> rpm_preempted new now \<and> \<not> rpm_preempted prev now"

definition flush_reason :: "int \<Rightarrow> int \<Rightarrow> limit_state \<Rightarrow> limit_state \<Rightarrow> string option" where
  "flush_reason inst now prev new =
     (case ls_last_db_flush_at prev of
        None \<Rightarrow> Some ''first-fill''
      | Some flushed \<Rightarrow>
          if DB_FLUSH_TTL \<le> max 0 (inst - flushed) then Some ''ttl-expired''
          else if (case ls_status prev of None \<Rightarrow> US_Allowed | Some st \<Rightarrow> st) = US_Allowed
                \<and> (case ls_status new of None \<Rightarrow> US_Allowed | Some st \<Rightarrow> st) \<noteq> US_Allowed
          then Some ''status-changed''
          else if list_ex (\<lambda>(grp, _). map_of (ls_scoped_weekly prev) grp = None)
                    (ls_scoped_weekly new)
          then Some ''scoped-window-added''
          else if scoped_status_tightened prev new then Some ''scoped-status-changed''
          else if crossed_threshold (ls_five_hour prev) (ls_five_hour new) HIT_THRESHOLD
                \<or> crossed_threshold (ls_seven_day prev) (ls_seven_day new) HIT_THRESHOLD
                \<or> scoped_crossed_threshold prev new
          then Some ''threshold-crossed-97pct''
          else if newly_surpassed (ls_five_hour prev) (ls_five_hour new)
                \<or> newly_surpassed (ls_seven_day prev) (ls_seven_day new)
                \<or> scoped_newly_surpassed prev new
          then Some ''surpassed-threshold''
          else if ls_rate_limited_until prev = None \<and> ls_rate_limited_until new \<noteq> None
          then Some ''429-short-ban''
          else if list_ex (\<lambda>(grp, until).
                      case map_of (ls_scoped_rate_limited_until prev) grp of
                        None \<Rightarrow> True | Some previous \<Rightarrow> previous < until)
                    (ls_scoped_rate_limited_until new)
          then Some ''429-short-ban-scoped''
          else if rpm_tpm_newly_preempted now (ls_rpm_tpm prev) (ls_rpm_tpm new)
          then Some ''rpm-tpm-preempted''
          else None)"

section \<open>What the selector and the database see\<close>

definition window_hit :: "window_snapshot \<Rightarrow> int \<Rightarrow> bool" where
  "window_hit w now \<longleftrightarrow> f64_le HIT_THRESHOLD (ws_utilization w) \<and> now < ws_resets_at w"

definition bottleneck_limit_until :: "int \<Rightarrow> limit_state \<Rightarrow> int option" where
  "bottleneck_limit_until now st =
     (let windows = List.map_filter (\<lambda>x. x) [ls_five_hour st, ls_seven_day st];
          picks = map ws_resets_at (filter (\<lambda>w. window_hit w now) windows)
                @ (case ls_rpm_tpm st of
                     None \<Rightarrow> []
                   | Some rt \<Rightarrow> map rc_reset_at
                                  (filter (\<lambda>c. counter_preempted c now) (all_counters rt)))
      in case picks of [] \<Rightarrow> None | p # ps \<Rightarrow> Some (fold max ps p))"

definition percent :: "f64 \<Rightarrow> f64" where
  "percent u = f64_mul u (F64_Fin 100)"

definition judge_scoped :: "lib \<Rightarrow> int \<Rightarrow> limit_state \<Rightarrow> string \<Rightarrow> availability" where
  "judge_scoped L now st grp =
     (let legacy_ban = (if grp = ''sonnet'' then ls_sonnet_rate_limited_until st else None);
          ban = or_keep (map_of (ls_scoped_rate_limited_until st) grp) legacy_ban;
          legacy_window = (if grp = ''sonnet'' then ls_sonnet_seven_day st else None);
          window = or_keep (scoped_window st grp) legacy_window
      in if (case ban of None \<Rightarrow> False | Some until \<Rightarrow> now < until)
         then Unavailable (ScopedShortBan (default_scoped_display_name L grp)) ban
         else
           (case window of
              None \<Rightarrow> Available
            | Some w \<Rightarrow>
                if ws_status w = US_Rejected \<or> window_hit w now
                then Unavailable
                       (ScopedSevenDayUsed (default_scoped_display_name L grp)
                          (percent (ws_utilization w)))
                       (Some (ws_resets_at w))
                else Available))"

definition judge_availability :: "lib \<Rightarrow> int \<Rightarrow> limit_state \<Rightarrow> model_class \<Rightarrow> availability" where
  "judge_availability L now st mc =
     (if ls_status st = Some US_Rejected then Unavailable UpstreamRejected (ls_reset_at st)
      else if (case ls_rate_limited_until st of None \<Rightarrow> False | Some until \<Rightarrow> now < until)
      then Unavailable ShortBan (ls_rate_limited_until st)
      else
        (case Option.bind (ls_rpm_tpm st) (\<lambda>rt. first_preempted rt now) of
           Some (name, until) \<Rightarrow> Unavailable (CounterLow name) (Some until)
         | None \<Rightarrow>
             if (case ls_five_hour st of None \<Rightarrow> False | Some w \<Rightarrow> window_hit w now)
             then Unavailable (FiveHourUsed (percent (win_util (ls_five_hour st))))
                    (map_option ws_resets_at (ls_five_hour st))
             else if (case ls_seven_day st of None \<Rightarrow> False | Some w \<Rightarrow> window_hit w now)
             then Unavailable (SevenDayUsed (percent (win_util (ls_seven_day st))))
                    (map_option ws_resets_at (ls_seven_day st))
             else
               (case scoped_group mc of
                  None \<Rightarrow> Available
                | Some grp \<Rightarrow> judge_scoped L now st grp)))"

section \<open>The snapshot written to the database\<close>

definition put_opt ::
  "string \<Rightarrow> ('a \<Rightarrow> json) \<Rightarrow> 'a option \<Rightarrow> (string \<times> json) list \<Rightarrow> (string \<times> json) list" where
  "put_opt key f v m = (case v of None \<Rightarrow> m | Some x \<Rightarrow> AList.update key (f x) m)"

definition window_to_json :: "lib \<Rightarrow> window_snapshot \<Rightarrow> json" where
  "window_to_json L w =
     (let m = AList.update ''utilization'' (json_of_f64 (percent (ws_utilization w))) [];
          m = AList.update ''resets_at'' (JStr (lib_to_rfc3339 L (ws_resets_at w))) m;
          m = AList.update ''status'' (JStr (unified_status_as_str (ws_status w))) m
      in JObj (put_opt ''surpassed_threshold'' json_of_f64 (ws_surpassed w) m))"

definition scoped_limit_to_json :: "lib \<Rightarrow> scoped_limit \<Rightarrow> json" where
  "scoped_limit_to_json L item =
     JObj [(''type'', JStr ''weekly_scoped''),
           (''scope'', JObj [(''model'', JObj [(''model_group'', JStr (sl_model_group item)),
                                               (''display_name'', JStr (sl_display_name item))])]),
           (''utilization'', json_of_f64 (percent (ws_utilization (sl_window item)))),
           (''resets_at'', JStr (lib_to_rfc3339 L (ws_resets_at (sl_window item)))),
           (''status'', JStr (unified_status_as_str (ws_status (sl_window item))))]"

definition rpm_counter_to_json :: "lib \<Rightarrow> rpm_tpm_counter \<Rightarrow> json" where
  "rpm_counter_to_json L c =
     JObj (AList.update ''reset_at'' (JStr (lib_to_rfc3339 L (rc_reset_at c)))
       (AList.update ''remaining'' (json_of_i64 (rc_remaining c))
         (AList.update ''limit'' (json_of_i64 (rc_limit c)) [])))"

definition rpm_tpm_to_json :: "lib \<Rightarrow> rpm_tpm_snapshot \<Rightarrow> json" where
  "rpm_tpm_to_json L rt =
     (let put = (\<lambda>key c m. put_opt key (rpm_counter_to_json L) c m);
          m = put ''requests'' (rt_requests rt) [];
          m = put ''tokens'' (rt_tokens rt) m;
          m = put ''input_tokens'' (rt_input_tokens rt) m
      in JObj (put ''output_tokens'' (rt_output_tokens rt) m))"

definition build_usage_json :: "lib \<Rightarrow> limit_state \<Rightarrow> json" where
  "build_usage_json L st =
     (let time = (\<lambda>t. JStr (lib_to_rfc3339 L t));
          m = put_opt ''five_hour'' (window_to_json L) (ls_five_hour st) [];
          m = put_opt ''seven_day'' (window_to_json L) (ls_seven_day st) m;
          m = put_opt ''seven_day_opus'' (window_to_json L) (ls_seven_day st) m;
          m = put_opt ''seven_day_sonnet'' (window_to_json L) (ls_sonnet_seven_day st) m;
          m = put_opt ''seven_day_fable'' (\<lambda>item. window_to_json L (sl_window item))
                (map_of (ls_scoped_weekly st) ''fable'') m;
          m = (if ls_scoped_weekly st \<noteq> []
               then AList.update ''limits''
                      (JArr (map (scoped_limit_to_json L)
                               (sort_key sl_model_group (map snd (ls_scoped_weekly st))))) m
               else m);
          m = put_opt ''status'' (\<lambda>s. JStr (unified_status_as_str s)) (ls_status st) m;
          m = put_opt ''representative_claim'' JStr (ls_representative_claim st) m;
          m = put_opt ''resets_at'' time (ls_reset_at st) m;
          m = put_opt ''fallback_percentage'' json_of_f64 (ls_fallback_percentage st) m;
          m = put_opt ''overage_status'' (\<lambda>s. JStr (overage_status_as_str s))
                (ls_overage_status st) m;
          m = put_opt ''overage_disabled_reason'' JStr (ls_overage_disabled_reason st) m;
          m = put_opt ''overage_reset_at'' time (ls_overage_reset_at st) m;
          m = put_opt ''rate_limited_until'' time (ls_rate_limited_until st) m;
          m = put_opt ''sonnet_rate_limited_until'' time (ls_sonnet_rate_limited_until st) m;
          m = (if ls_scoped_rate_limited_until st \<noteq> []
               then AList.update ''scoped_rate_limited_until''
                      (JObj (fold (\<lambda>(grp, until) bans. AList.update grp (time until) bans)
                               (sort_key fst (ls_scoped_rate_limited_until st)) [])) m
               else m);
          m = put_opt ''rpm_tpm'' (rpm_tpm_to_json L) (ls_rpm_tpm st) m
      in JObj (AList.update ''source'' (JStr ''headers'') m))"

section \<open>The store\<close>

text \<open>
  \<open>states\<close> is behind a mutex: a panic while the guard is held poisons it, and every later
  \<open>lock().unwrap()\<close> panics.
\<close>

record limit_store =
  lst_states :: "(int, limit_state) hash_map"
  lst_poisoned :: bool

definition limit_store_new :: limit_store where
  "limit_store_new = \<lparr>lst_states = [], lst_poisoned = False\<rparr>"

definition state_of :: "limit_store \<Rightarrow> int \<Rightarrow> limit_state" where
  "state_of ls account_id =
     (case map_of (lst_states ls) account_id of None \<Rightarrow> default_limit_state | Some s \<Rightarrow> s)"

definition absorb_headers ::
  "lib \<Rightarrow> int \<Rightarrow> int \<Rightarrow> limit_store \<Rightarrow> int \<Rightarrow> model_class \<Rightarrow> nat \<Rightarrow> header_map
     \<Rightarrow> bool outcome \<times> limit_store" where
  "absorb_headers L now inst ls account_id mc status headers =
     (if lst_poisoned ls then (Panic, ls)
      else
        let prev = state_of ls account_id
        in case compute_new_state L now prev mc status headers of
             Panic \<Rightarrow> (Panic, ls\<lparr>lst_poisoned := True\<rparr>)
           | Done None \<Rightarrow> (Done False, ls)
           | Done (Some s) \<Rightarrow>
               (let new_state = s\<lparr>ls_updated_at := Some inst\<rparr>;
                    flush_r = flush_reason inst now prev new_state;
                    new_state = (if flush_r \<noteq> None
                                 then new_state\<lparr>ls_last_db_flush_at := Some inst\<rparr> else new_state)
                in (Done (flush_r \<noteq> None),
                    ls\<lparr>lst_states := AList.update account_id new_state (lst_states ls)\<rparr>)))"

definition account_availability :: "lib \<Rightarrow> int \<Rightarrow> limit_store \<Rightarrow> int \<Rightarrow> model_class \<Rightarrow> availability outcome" where
  "account_availability L now ls account_id mc =
     (if lst_poisoned ls then Panic
      else Done (case map_of (lst_states ls) account_id of
                   Some st \<Rightarrow> judge_availability L now st mc
                 | None \<Rightarrow> Available))"

definition ingest_usage_json ::
  "lib \<Rightarrow> int \<Rightarrow> limit_store \<Rightarrow> int \<Rightarrow> json \<Rightarrow> unit outcome \<times> limit_store" where
  "ingest_usage_json L inst ls account_id usage =
     (if lst_poisoned ls then (Panic, ls)
      else
        let st = (apply_usage_json L (state_of ls account_id) usage)\<lparr>ls_updated_at := Some inst\<rparr>
        in (Done (), ls\<lparr>lst_states := AList.update account_id st (lst_states ls)\<rparr>))"

end
