(* ===== verification/Limit_Facts.thy ===== *)
theory Limit_Facts
  imports Limit
begin

text \<open>
  What the rate-limit component guarantees. \<open>account_blocked\<close> and \<open>scoped_blocked\<close> are the abstract
  specification of the selector's query; \<open>mirror_inv\<close> is the state invariant, kept by the header
  update, the usage refresh and so by every reachable store (\<open>limit_reachable\<close>, the runs of
  \<open>limit_exec\<close> over absorbed responses and ingested usage documents). The theorems are about the
  isolation of model-level quotas, the 429 bans, the panics, the database columns and the
  round trip through the stored snapshot. \<open>example_lib\<close> instantiates the date library for the
  witnesses, with its documented ranges.
\<close>

section \<open>Specification and runs\<close>

definition account_blocked :: "int \<Rightarrow> limit_state \<Rightarrow> bool" where
  "account_blocked now st \<longleftrightarrow>
     ls_status st = Some US_Rejected
     \<or> (\<exists>until. ls_rate_limited_until st = Some until \<and> now < until)
     \<or> (\<exists>rt. ls_rpm_tpm st = Some rt \<and> (\<exists>c \<in> set (all_counters rt). counter_preempted c now))
     \<or> (\<exists>w. ls_five_hour st = Some w \<and> window_hit w now)
     \<or> (\<exists>w. ls_seven_day st = Some w \<and> window_hit w now)"

definition scoped_blocked :: "int \<Rightarrow> limit_state \<Rightarrow> string \<Rightarrow> bool" where
  "scoped_blocked now st grp \<longleftrightarrow>
     (\<exists>until. map_of (ls_scoped_rate_limited_until st) grp = Some until \<and> now < until)
     \<or> (\<exists>w. scoped_window st grp = Some w \<and> (ws_status w = US_Rejected \<or> window_hit w now))"

definition mirror_inv :: "limit_state \<Rightarrow> bool" where
  "mirror_inv st \<longleftrightarrow>
     ls_sonnet_seven_day st = scoped_window st ''sonnet''
     \<and> ls_sonnet_rate_limited_until st = map_of (ls_scoped_rate_limited_until st) ''sonnet''
     \<and> hm_wf (ls_scoped_weekly st) \<and> hm_wf (ls_scoped_rate_limited_until st)
     \<and> (\<forall>(grp, item) \<in> set (ls_scoped_weekly st). sl_model_group item = grp)"

datatype limit_event =
    Absorb int int int model_class nat header_map
  | Ingest int int json

fun limit_exec :: "lib \<Rightarrow> limit_store \<Rightarrow> limit_event \<Rightarrow> limit_store" where
  "limit_exec L ls (Absorb now inst account_id mc status headers) =
     snd (absorb_headers L now inst ls account_id mc status headers)"
| "limit_exec L ls (Ingest inst account_id usage) = snd (ingest_usage_json L inst ls account_id usage)"

inductive limit_reachable :: "lib \<Rightarrow> limit_store \<Rightarrow> bool" for L where
  start: "limit_reachable L limit_store_new"
| step: "limit_reachable L ls \<Longrightarrow> limit_reachable L (limit_exec L ls ev)"

definition store_inv :: "limit_store \<Rightarrow> bool" where
  "store_inv ls \<longleftrightarrow> (\<forall>account_id. mirror_inv (state_of ls account_id))"

definition account_level :: "limit_state \<Rightarrow> limit_state \<Rightarrow> bool" where
  "account_level st st' \<longleftrightarrow>
     ls_status st' = ls_status st \<and> ls_rate_limited_until st' = ls_rate_limited_until st
     \<and> ls_rpm_tpm st' = ls_rpm_tpm st \<and> ls_five_hour st' = ls_five_hour st
     \<and> ls_seven_day st' = ls_seven_day st"

fun keeps_status :: "int \<Rightarrow> limit_event \<Rightarrow> bool" where
  "keeps_status a (Absorb now inst k mc status headers) =
     (k = a \<longrightarrow> header_str headers ''anthropic-ratelimit-unified-status'' = None)"
| "keeps_status a (Ingest inst k usage) = True"

definition blocking_resets :: "int \<Rightarrow> limit_state \<Rightarrow> int set" where
  "blocking_resets now st =
     {ws_resets_at w | w. (ls_five_hour st = Some w \<or> ls_seven_day st = Some w) \<and> window_hit w now}
     \<union> {rc_reset_at c | c rt. ls_rpm_tpm st = Some rt \<and> c \<in> set (all_counters rt) \<and> counter_preempted c now}"

definition reread :: "window_snapshot \<Rightarrow> window_snapshot" where
  "reread w = \<lparr>ws_utilization = f64_div (percent (ws_utilization w)) (F64_Fin 100),
     ws_resets_at = ws_resets_at w, ws_status = US_Allowed, ws_surpassed = None\<rparr>"

definition storable_window :: "window_snapshot \<Rightarrow> bool" where
  "storable_window w \<longleftrightarrow> f64_is_finite (percent (ws_utilization w))"

definition storable_scoped :: "scoped_limit \<Rightarrow> bool" where
  "storable_scoped i \<longleftrightarrow>
     storable_window (sl_window i) \<and> \<not> f64_less (percent (ws_utilization (sl_window i))) (F64_Fin 0)
     \<and> to_ascii_lowercase (trim (sl_model_group i)) = sl_model_group i \<and> sl_model_group i \<noteq> []"

definition storable :: "limit_state \<Rightarrow> bool" where
  "storable st \<longleftrightarrow>
     (\<forall>w. ls_five_hour st = Some w \<or> ls_seven_day st = Some w \<longrightarrow> storable_window w)
     \<and> (\<forall>(g, i) \<in> set (ls_scoped_weekly st). storable_scoped i)"

definition rfc3339_exact :: "lib \<Rightarrow> bool" where
  "rfc3339_exact L \<longleftrightarrow> (\<forall>t. lib_parse_rfc3339 L (lib_to_rfc3339 L t) = Some t)"

definition scoped_assoc :: "scoped_limit list \<Rightarrow> (string \<times> window_snapshot) list" where
  "scoped_assoc items = map (\<lambda>i. (sl_model_group i, sl_window i)) items"

definition example_lib :: lib where
  "example_lib =
     \<lparr>lib_from_timestamp = (\<lambda>secs. if \<bar>secs\<bar> \<le> 8210266876799 then Some (secs * 10 ^ 9) else None),
      lib_parse_rfc3339 = (\<lambda>s. case s of
          c # r \<Rightarrow> if c = CHR ''-'' then Some (- int (length r)) else Some (int (length s))
        | [] \<Rightarrow> Some 0),
      lib_to_rfc3339 = (\<lambda>t. (if t < 0 then ''-'' else '''') @ replicate (nat \<bar>t\<bar>) (CHR ''1'')),
      lib_duration_from_std =
        (\<lambda>secs. if int secs * 1000 < 2 ^ 63 then Some (int secs * 10 ^ 9) else None),
      lib_checked_add =
        (\<lambda>t d. if \<bar>t + d\<bar> \<le> 8210266876799 * 10 ^ 9 then Some (t + d) else None),
      lib_uppercase_first = (\<lambda>s. s)\<rparr>"

definition sonnet_429_headers :: header_map where
  "sonnet_429_headers =
     [''anthropic-ratelimit-unified-representative-claim'' \<mapsto> ''seven_day_sonnet'',
      ''retry-after'' \<mapsto> ''30'']"

definition huge_retry_headers :: header_map where
  "huge_retry_headers = [''retry-after'' \<mapsto> ''9000000000000'']"

definition half_window :: window_snapshot where
  "half_window = \<lparr>ws_utilization = F64_Fin 1, ws_resets_at = 7, ws_status = US_AllowedWarning, ws_surpassed = None\<rparr>"

section \<open>Lemmas\<close>

lemma first_preempted_in_None_iff:
  "first_preempted_in cs now = None \<longleftrightarrow>
     (\<forall>c \<in> set (List.map_filter snd cs). \<not> counter_preempted c now)"
  by (induction cs now rule: first_preempted_in.induct) (auto simp: List.map_filter_simps)

lemma first_preempted_None_iff:
  "first_preempted s now = None \<longleftrightarrow> (\<forall>c \<in> set (all_counters s). \<not> counter_preempted c now)"
  by (simp add: first_preempted_def all_counters_def first_preempted_in_None_iff)

lemma or_keep_simps [simp]: "or_keep None x = x" "or_keep (Some y) x = Some y"
  by (simp_all add: or_keep_def)

lemma or_keep_mirror: "a = m k \<Longrightarrow> or_keep (m grp) (if grp = k then a else None) = m grp"
  by (cases "m grp") auto

lemma mirror_invD:
  assumes "mirror_inv st"
  shows "ls_sonnet_seven_day st = scoped_window st ''sonnet''"
    and "ls_sonnet_rate_limited_until st = map_of (ls_scoped_rate_limited_until st) ''sonnet''"
  using assms unfolding mirror_inv_def by blast+

lemma judge_scoped_iff:
  assumes "mirror_inv st"
  shows "is_available (judge_scoped L now st grp) \<longleftrightarrow> \<not> scoped_blocked now st grp"
proof -
  have ban: "or_keep (map_of (ls_scoped_rate_limited_until st) grp)
      (if grp = ''sonnet'' then ls_sonnet_rate_limited_until st else None)
      = map_of (ls_scoped_rate_limited_until st) grp"
    using mirror_invD(2) [OF assms] by (rule or_keep_mirror)
  have win: "or_keep (scoped_window st grp)
      (if grp = ''sonnet'' then ls_sonnet_seven_day st else None) = scoped_window st grp"
    using mirror_invD(1) [OF assms] by (rule or_keep_mirror)
  show ?thesis
    unfolding judge_scoped_def Let_def ban win
    by (auto simp: scoped_blocked_def split: option.split)
qed

lemma judge_availability_spec:
  assumes "mirror_inv st"
  shows "is_available (judge_availability L now st mc) \<longleftrightarrow>
    \<not> account_blocked now st \<and> (\<forall>grp. scoped_group mc = Some grp \<longrightarrow> \<not> scoped_blocked now st grp)"
proof -
  have pre: "(\<exists>rt. ls_rpm_tpm st = Some rt \<and> (\<exists>c \<in> set (all_counters rt). counter_preempted c now))
    \<longleftrightarrow> Option.bind (ls_rpm_tpm st) (\<lambda>rt. first_preempted rt now) \<noteq> None"
    using first_preempted_None_iff by (cases "ls_rpm_tpm st") auto
  show ?thesis
    unfolding judge_availability_def account_blocked_def pre
    using judge_scoped_iff [OF assms]
    by (auto split: option.split)
qed

lemma mirror_inv_frame [simp]:
  "mirror_inv (st\<lparr>ls_five_hour := a\<rparr>) = mirror_inv st"
  "mirror_inv (st\<lparr>ls_seven_day := a\<rparr>) = mirror_inv st"
  "mirror_inv (st\<lparr>ls_status := b\<rparr>) = mirror_inv st"
  "mirror_inv (st\<lparr>ls_representative_claim := c\<rparr>) = mirror_inv st"
  "mirror_inv (st\<lparr>ls_reset_at := d\<rparr>) = mirror_inv st"
  "mirror_inv (st\<lparr>ls_fallback_percentage := e\<rparr>) = mirror_inv st"
  "mirror_inv (st\<lparr>ls_overage_status := f\<rparr>) = mirror_inv st"
  "mirror_inv (st\<lparr>ls_overage_disabled_reason := c\<rparr>) = mirror_inv st"
  "mirror_inv (st\<lparr>ls_overage_reset_at := d\<rparr>) = mirror_inv st"
  "mirror_inv (st\<lparr>ls_rate_limited_until := d\<rparr>) = mirror_inv st"
  "mirror_inv (st\<lparr>ls_rpm_tpm := g\<rparr>) = mirror_inv st"
  "mirror_inv (st\<lparr>ls_updated_at := d\<rparr>) = mirror_inv st"
  "mirror_inv (st\<lparr>ls_last_db_flush_at := d\<rparr>) = mirror_inv st"
  by (simp_all add: mirror_inv_def scoped_window_def)

lemma mirror_inv_default [simp]: "mirror_inv default_limit_state"
  by (simp add: mirror_inv_def default_limit_state_def scoped_window_def)

lemma mirror_inv_cleared:
  "mirror_inv st \<Longrightarrow> mirror_inv (st\<lparr>ls_scoped_weekly := [], ls_sonnet_seven_day := None\<rparr>)"
  by (simp add: mirror_inv_def scoped_window_def)

lemma scoped_window_set:
  "scoped_window (set_scoped_window st item) grp =
     (if grp = sl_model_group item then Some (sl_window item) else scoped_window st grp)"
  by (simp add: set_scoped_window_def scoped_window_def Let_def map_lookup)

lemma set_AList_update_subset: "set (AList.update k v m) \<subseteq> insert (k, v) (set m)"
  by (induction m) auto

lemma mirror_inv_set_scoped_window:
  assumes "mirror_inv st" shows "mirror_inv (set_scoped_window st item)"
proof -
  have keys: "\<forall>(grp, i) \<in> set (ls_scoped_weekly (set_scoped_window st item)). sl_model_group i = grp"
    using assms set_AList_update_subset [of "sl_model_group item" item "ls_scoped_weekly st"]
    unfolding mirror_inv_def by (auto simp: set_scoped_window_def Let_def)
  have wf: "hm_wf (ls_scoped_weekly (set_scoped_window st item))"
    using assms by (auto simp: mirror_inv_def set_scoped_window_def Let_def)
  have rest: "ls_scoped_rate_limited_until (set_scoped_window st item) = ls_scoped_rate_limited_until st"
    "ls_sonnet_rate_limited_until (set_scoped_window st item) = ls_sonnet_rate_limited_until st"
    "ls_sonnet_seven_day (set_scoped_window st item) =
      (if sl_model_group item = ''sonnet'' then Some (sl_window item) else ls_sonnet_seven_day st)"
    by (simp_all add: set_scoped_window_def Let_def)
  show ?thesis
    using assms keys wf unfolding mirror_inv_def rest scoped_window_set by simp
qed

lemma mirror_inv_set_scoped_windows:
  "mirror_inv st \<Longrightarrow> mirror_inv (foldl set_scoped_window st items)"
  by (induction items arbitrary: st) (auto intro: mirror_inv_set_scoped_window)

lemma set_scoped_ban_simps [simp]:
  "ls_scoped_rate_limited_until (set_scoped_ban st g u) =
     AList.update g u (ls_scoped_rate_limited_until st)"
  "ls_sonnet_rate_limited_until (set_scoped_ban st g u) =
     (if g = ''sonnet'' then Some u else ls_sonnet_rate_limited_until st)"
  "ls_scoped_weekly (set_scoped_ban st g u) = ls_scoped_weekly st"
  "ls_sonnet_seven_day (set_scoped_ban st g u) = ls_sonnet_seven_day st"
  "ls_five_hour (set_scoped_ban st g u) = ls_five_hour st"
  "ls_seven_day (set_scoped_ban st g u) = ls_seven_day st"
  "ls_status (set_scoped_ban st g u) = ls_status st"
  "ls_rate_limited_until (set_scoped_ban st g u) = ls_rate_limited_until st"
  "ls_rpm_tpm (set_scoped_ban st g u) = ls_rpm_tpm st"
  "scoped_window (set_scoped_ban st g u) = scoped_window st"
  by (simp_all add: set_scoped_ban_def Let_def scoped_window_def fun_eq_iff)

lemma mirror_inv_set_scoped_ban: "mirror_inv st \<Longrightarrow> mirror_inv (set_scoped_ban st g u)"
  unfolding mirror_inv_def by (auto simp: map_lookup)

lemma mirror_inv_apply_parsed:
  assumes "mirror_inv st" shows "mirror_inv (apply_parsed L st p)"
  using assms
  by (simp add: apply_parsed_def Let_def mirror_inv_set_scoped_windows mirror_inv_set_scoped_window
      split: option.split)

lemma mirror_inv_apply_429:
  assumes "mirror_inv s" and "apply_429 L now g r ra s = Done s'"
  shows "mirror_inv s'"
  using assms
  by (auto simp: apply_429_def outcome_bind_Done_iff mirror_inv_set_scoped_ban split: option.splits)

lemma mirror_inv_compute:
  assumes "mirror_inv prev" and "compute_new_state L now prev mc status headers = Done (Some s)"
  shows "mirror_inv s"
proof -
  have app: "mirror_inv (apply_parsed L prev u)" for u
    using assms(1) by (rule mirror_inv_apply_parsed)
  show ?thesis
    using assms unfolding compute_new_state_def Let_def
    by (auto simp: outcome_bind_Done_iff app mirror_inv_set_scoped_ban
        elim!: mirror_inv_apply_429 [rotated] split: if_splits option.splits)
qed

lemma mirror_inv_apply_usage_json:
  assumes "mirror_inv st" shows "mirror_inv (apply_usage_json L st usage)"
  using assms
  by (simp add: apply_usage_json_def Let_def mirror_inv_set_scoped_windows
      mirror_inv_set_scoped_window mirror_inv_cleared split: option.split)

lemma state_of_update:
  "state_of (ls\<lparr>lst_states := AList.update k st m\<rparr>) a =
     (if a = k then st else state_of (ls\<lparr>lst_states := m\<rparr>) a)"
  by (simp add: state_of_def map_lookup)

lemma state_of_poisoned [simp]: "state_of (ls\<lparr>lst_poisoned := b\<rparr>) a = state_of ls a"
  by (simp add: state_of_def)

lemma absorb_state_of:
  assumes "absorb_headers L now inst ls k mc status headers = (r, ls')"
  shows "state_of ls' a = state_of ls a \<or>
    (a = k \<and> (\<exists>s. compute_new_state L now (state_of ls k) mc status headers = Done (Some s)
       \<and> (state_of ls' k = s\<lparr>ls_updated_at := Some inst\<rparr>
          \<or> state_of ls' k = s\<lparr>ls_updated_at := Some inst, ls_last_db_flush_at := Some inst\<rparr>)))"
  using assms
  by (auto simp: absorb_headers_def Let_def state_of_update
      split: outcome.splits option.splits if_splits)

lemma limit_exec_inv:
  assumes "store_inv ls" shows "store_inv (limit_exec L ls ev)"
  unfolding store_inv_def
proof
  fix a
  show "mirror_inv (state_of (limit_exec L ls ev) a)"
  proof (cases ev)
    case (Absorb now inst k mc status headers)
    obtain r ls' where eq: "absorb_headers L now inst ls k mc status headers = (r, ls')"
      by (cases "absorb_headers L now inst ls k mc status headers")
    show ?thesis
      using assms absorb_state_of [OF eq, of a] mirror_inv_compute
      unfolding store_inv_def Absorb limit_exec.simps eq by fastforce
  next
    case (Ingest inst k usage)
    then show ?thesis
      using assms
      by (simp add: store_inv_def ingest_usage_json_def Let_def state_of_update
          mirror_inv_apply_usage_json)
  qed
qed

lemma limit_reachable_inv: "limit_reachable L ls \<Longrightarrow> store_inv ls"
proof (induction rule: limit_reachable.induct)
  case start
  then show ?case by (simp add: store_inv_def limit_store_new_def state_of_def)
next
  case (step ls ev)
  then show ?case by (blast intro: limit_exec_inv)
qed

lemma account_blocked_cong: "account_level st st' \<Longrightarrow> account_blocked t st' = account_blocked t st"
  by (simp add: account_level_def account_blocked_def)

lemma set_scoped_window_simps [simp]:
  "ls_scoped_rate_limited_until (set_scoped_window st item) = ls_scoped_rate_limited_until st"
  "ls_sonnet_rate_limited_until (set_scoped_window st item) = ls_sonnet_rate_limited_until st"
  "ls_five_hour (set_scoped_window st item) = ls_five_hour st"
  "ls_seven_day (set_scoped_window st item) = ls_seven_day st"
  "ls_status (set_scoped_window st item) = ls_status st"
  "ls_rate_limited_until (set_scoped_window st item) = ls_rate_limited_until st"
  "ls_rpm_tpm (set_scoped_window st item) = ls_rpm_tpm st"
  "ls_last_db_flush_at (set_scoped_window st item) = ls_last_db_flush_at st"
  by (simp_all add: set_scoped_window_def Let_def)

lemma set_scoped_windows_simps [simp]:
  "ls_scoped_rate_limited_until (foldl set_scoped_window st items) = ls_scoped_rate_limited_until st"
  "ls_five_hour (foldl set_scoped_window st items) = ls_five_hour st"
  "ls_seven_day (foldl set_scoped_window st items) = ls_seven_day st"
  "ls_status (foldl set_scoped_window st items) = ls_status st"
  "ls_rate_limited_until (foldl set_scoped_window st items) = ls_rate_limited_until st"
  "ls_rpm_tpm (foldl set_scoped_window st items) = ls_rpm_tpm st"
  by (induction items arbitrary: st) simp_all

lemma scoped_window_frame [simp]:
  "scoped_window (st\<lparr>ls_five_hour := a\<rparr>) = scoped_window st"
  "scoped_window (st\<lparr>ls_seven_day := a\<rparr>) = scoped_window st"
  "scoped_window (st\<lparr>ls_status := b\<rparr>) = scoped_window st"
  "scoped_window (st\<lparr>ls_representative_claim := c\<rparr>) = scoped_window st"
  "scoped_window (st\<lparr>ls_reset_at := d\<rparr>) = scoped_window st"
  "scoped_window (st\<lparr>ls_fallback_percentage := e\<rparr>) = scoped_window st"
  "scoped_window (st\<lparr>ls_overage_status := f\<rparr>) = scoped_window st"
  "scoped_window (st\<lparr>ls_overage_disabled_reason := c\<rparr>) = scoped_window st"
  "scoped_window (st\<lparr>ls_overage_reset_at := d\<rparr>) = scoped_window st"
  "scoped_window (st\<lparr>ls_rate_limited_until := d\<rparr>) = scoped_window st"
  "scoped_window (st\<lparr>ls_rpm_tpm := g\<rparr>) = scoped_window st"
  by (simp_all add: scoped_window_def fun_eq_iff)

text \<open>
  What a response measures besides the quota of the group it rejects: the 5h window, the model-level
  windows it names, the counters, and the 7d window if the rejected group has a window of its own.
\<close>

definition named_windows :: "lib \<Rightarrow> header_map \<Rightarrow> scoped_limit list" where
  "named_windows L headers =
     scoped_header_window L headers ''7d_sonnet'' ''sonnet'' ''Sonnet'' @ scoped_header_window L headers ''7d_oi'' ''fable'' ''Fable''"

definition measured :: "lib \<Rightarrow> header_map \<Rightarrow> string \<Rightarrow> limit_state \<Rightarrow> limit_state" where
  "measured L headers g st =
     (let st = foldl set_scoped_window st (named_windows L headers);
          st = st\<lparr>ls_five_hour := or_keep (parse_window_from_headers L headers ''5h'') (ls_five_hour st)\<rparr>;
          st = (if g \<in> set (map sl_model_group (named_windows L headers))
                then st\<lparr>ls_seven_day := or_keep (parse_window_from_headers L headers ''7d'') (ls_seven_day st)\<rparr> else st)
      in case parse_rpm_tpm_headers L headers of
           None \<Rightarrow> st | Some r \<Rightarrow> st\<lparr>ls_rpm_tpm := Some (merge_rpm_tpm (ls_rpm_tpm st) r)\<rparr>)"

definition same_for :: "string \<Rightarrow> limit_state \<Rightarrow> limit_state \<Rightarrow> bool" where
  "same_for g st st' \<longleftrightarrow> account_level st st' \<and>
     (\<forall>grp. grp \<noteq> g \<longrightarrow> scoped_window st' grp = scoped_window st grp \<and>
        map_of (ls_scoped_rate_limited_until st') grp = map_of (ls_scoped_rate_limited_until st) grp)"

lemma same_for_refl [simp, intro]: "same_for g st st"
  by (simp add: same_for_def account_level_def)

lemma same_for_trans: "same_for g a b \<Longrightarrow> same_for g b c \<Longrightarrow> same_for g a c"
  by (auto simp: same_for_def account_level_def)

lemma scoped_windows_cong:
  "scoped_window st = scoped_window st' \<Longrightarrow> scoped_window (foldl set_scoped_window st items) = scoped_window (foldl set_scoped_window st' items)"
  by (induction items arbitrary: st st') (simp_all add: scoped_window_set fun_eq_iff)

lemma mirror_inv_measured: "mirror_inv st \<Longrightarrow> mirror_inv (measured L headers g st)"
  by (simp add: measured_def Let_def mirror_inv_set_scoped_windows split: option.split)

lemma apply_429_scoped:
  assumes "apply_429 L now (Some g) r ra s = Done s'" shows "same_for g s s'"
  using assms
  by (auto simp: apply_429_def same_for_def account_level_def outcome_bind_Done_iff map_lookup split: option.splits)

lemma parse_unified_claim:
  assumes "scoped_rejection_group headers = Some g"
  obtains p where "parse_unified_headers L headers = Some p"
    "scoped_claim_group (ph_representative_claim p) = Some g"
    "ph_five_hour p = parse_window_from_headers L headers ''5h''"
    "ph_seven_day p = parse_window_from_headers L headers ''7d''"
    "ph_scoped_weekly p = named_windows L headers"
proof -
  have "header_str headers ''anthropic-ratelimit-unified-representative-claim'' \<noteq> None"
    using assms by (auto simp: scoped_rejection_group_def scoped_claim_group_def split: if_splits)
  then show thesis
    using assms that
    by (force simp: parse_unified_headers_def any_present_def Let_def scoped_rejection_group_def named_windows_def)
qed

lemma apply_parsed_measured:
  assumes "scoped_claim_group (ph_representative_claim p) = Some g"
    and "ph_five_hour p = parse_window_from_headers L headers ''5h''" "ph_seven_day p = parse_window_from_headers L headers ''7d''"
    and "ph_scoped_weekly p = named_windows L headers"
  shows "same_for g (measured L headers g prev)
    (case parse_rpm_tpm_headers L headers of
       None \<Rightarrow> apply_parsed L prev p
     | Some r \<Rightarrow> (apply_parsed L prev p)\<lparr>ls_rpm_tpm := Some (merge_rpm_tpm (ls_rpm_tpm (apply_parsed L prev p)) r)\<rparr>)"
proof -
  have windows: "scoped_window (foldl set_scoped_window (prev\<lparr>ls_five_hour := a, ls_representative_claim := b, ls_reset_at := c,
      ls_fallback_percentage := d, ls_overage_status := e, ls_overage_disabled_reason := f, ls_overage_reset_at := h\<rparr>) items) =
      scoped_window (foldl set_scoped_window prev items)" for a b c d e f h items
    by (rule scoped_windows_cong) simp
  show ?thesis
    using assms
    by (auto simp: apply_parsed_def measured_def same_for_def account_level_def Let_def scoped_window_set windows split: option.splits)
qed

text \<open>A response with a model-level claim does to the other classes what it measures, and no more.\<close>

lemma compute_scoped_claim:
  assumes claim: "scoped_rejection_group headers = Some g"
    and res: "compute_new_state L now prev mc status headers = Done (Some s)"
  shows "same_for g (measured L headers g prev) s"
proof -
  obtain p where p: "parse_unified_headers L headers = Some p"
    "scoped_claim_group (ph_representative_claim p) = Some g"
    "ph_five_hour p = parse_window_from_headers L headers ''5h''"
    "ph_seven_day p = parse_window_from_headers L headers ''7d''" "ph_scoped_weekly p = named_windows L headers"
    using claim by (rule parse_unified_claim)
  let ?s = "case parse_rpm_tpm_headers L headers of
       None \<Rightarrow> apply_parsed L prev p
     | Some r \<Rightarrow> (apply_parsed L prev p)\<lparr>ls_rpm_tpm := Some (merge_rpm_tpm (ls_rpm_tpm (apply_parsed L prev p)) r)\<rparr>"
  have "s = ?s \<or> apply_429 L now (Some g) (ph_reset_at p) (parse_retry_after headers) ?s = Done s"
    using res p(1,2) by (auto simp: compute_new_state_def Let_def outcome_bind_Done_iff split: if_splits)
  then show ?thesis
  proof (elim disjE)
    assume "s = ?s"
    then show ?thesis
      using apply_parsed_measured [OF p(2-5), of prev] by simp
  next
    assume "apply_429 L now (Some g) (ph_reset_at p) (parse_retry_after headers) ?s = Done s"
    from same_for_trans [OF apply_parsed_measured [OF p(2-5), of prev] apply_429_scoped [OF this]]
    show ?thesis .
  qed
qed

lemma same_for_available:
  assumes "same_for g st st'" "mirror_inv st" "mirror_inv st'" "scoped_group mc \<noteq> Some g"
  shows "is_available (judge_availability L t st' mc) = is_available (judge_availability L t st mc)"
proof -
  have "account_blocked t st' = account_blocked t st"
    using assms(1) by (simp add: same_for_def account_blocked_cong)
  moreover have "scoped_blocked t st' grp = scoped_blocked t st grp" if "grp \<noteq> g" for grp
    using assms(1) that by (simp add: same_for_def scoped_blocked_def)
  ultimately show ?thesis
    using judge_availability_spec [OF assms(2)] judge_availability_spec [OF assms(3)] assms(4) by auto
qed

lemma account_blocked_ban:
  "account_blocked t (st\<lparr>ls_rate_limited_until := Some u\<rparr>) \<longleftrightarrow>
     t < u \<or> account_blocked t (st\<lparr>ls_rate_limited_until := None\<rparr>)"
  by (auto simp: account_blocked_def)

lemma account_blocked_unban:
  "account_blocked t (st\<lparr>ls_rate_limited_until := None\<rparr>) \<Longrightarrow> account_blocked t st"
  by (auto simp: account_blocked_def)

lemma account_level_ban: "account_level st (set_scoped_ban st g u)"
  by (simp add: account_level_def)

lemma scoped_blocked_frame [simp]:
  "scoped_blocked t (st\<lparr>ls_rate_limited_until := d\<rparr>) grp = scoped_blocked t st grp"
  by (simp add: scoped_blocked_def)

lemma scoped_group_inj: "scoped_group a = Some g \<Longrightarrow> scoped_group b = Some g \<Longrightarrow> a = b"
  by (cases a; cases b) auto

lemma ls_status_apply_parsed:
  "ls_status (apply_parsed L st p) =
     (if scoped_claim_group (ph_representative_claim p) = None
      then or_keep (ph_status p) (ls_status st) else ls_status st)"
  by (simp add: apply_parsed_def Let_def split: option.split)

lemma ls_status_apply_429: "apply_429 L now g r ra s = Done s' \<Longrightarrow> ls_status s' = ls_status s"
  by (auto simp: apply_429_def outcome_bind_Done_iff split: option.splits)

lemma ls_status_compute:
  assumes "compute_new_state L now prev mc status headers = Done (Some s)"
    and "header_str headers ''anthropic-ratelimit-unified-status'' = None"
  shows "ls_status s = ls_status prev"
proof -
  have ph: "ph_status p = None" if "parse_unified_headers L headers = Some p" for p
    using that assms(2) by (auto simp: parse_unified_headers_def Let_def split: if_splits)
  show ?thesis
    using assms(1) unfolding compute_new_state_def Let_def
    by (auto simp: outcome_bind_Done_iff ls_status_apply_parsed ph
        dest!: ls_status_apply_429 split: if_splits option.splits)
qed

lemma ls_status_apply_usage_json: "ls_status (apply_usage_json L st usage) = ls_status st"
  by (simp add: apply_usage_json_def Let_def split: option.split)

lemma limit_exec_status:
  assumes "keeps_status a ev" shows "ls_status (state_of (limit_exec L ls ev) a) = ls_status (state_of ls a)"
proof (cases ev)
  case (Absorb now inst k mc status headers)
  obtain r ls' where eq: "absorb_headers L now inst ls k mc status headers = (r, ls')"
    by (cases "absorb_headers L now inst ls k mc status headers")
  show ?thesis
    using assms absorb_state_of [OF eq, of a] ls_status_compute
    unfolding Absorb limit_exec.simps eq by fastforce
next
  case (Ingest inst k usage)
  then show ?thesis
    by (simp add: ingest_usage_json_def Let_def state_of_update ls_status_apply_usage_json)
qed

lemma fold_max_Max: "fold max ps (p :: int) = Max (set (p # ps))"
  by (simp only: Max.set_eq_fold)

lemma put_opt_get [map_lookup]:
  "map_of (put_opt k f v m) k' = (if k' = k \<and> v \<noteq> None then map_option f v else map_of m k')"
  by (simp add: put_opt_def map_lookup split: option.split)

lemma build_usage_json_get:
  "jget (build_usage_json L st) ''five_hour'' = map_option (window_to_json L) (ls_five_hour st)"
  "jget (build_usage_json L st) ''seven_day'' = map_option (window_to_json L) (ls_seven_day st)"
  "jget (build_usage_json L st) ''seven_day_opus'' = map_option (window_to_json L) (ls_seven_day st)"
  "jget (build_usage_json L st) ''seven_day_sonnet'' =
     map_option (window_to_json L) (ls_sonnet_seven_day st)"
  "jget (build_usage_json L st) ''limits'' =
     (if ls_scoped_weekly st = [] then None
      else Some (JArr (map (scoped_limit_to_json L)
                   (sort_key sl_model_group (map snd (ls_scoped_weekly st))))))"
  by (simp_all add: build_usage_json_def Let_def map_lookup)

lemma json_window_to_json:
  "rfc3339_exact L \<Longrightarrow> storable_window w \<Longrightarrow> json_window L (window_to_json L w) = Some (reread w)"
  by (simp add: json_window_def window_to_json_def Let_def map_lookup as_f64_json_of_f64
      storable_window_def reread_def rfc3339_exact_def)

lemma scoped_limit_to_json_reread:
  "rfc3339_exact L \<Longrightarrow> storable_scoped i \<Longrightarrow>
     \<exists>i'. usage_json_scoped_limit L (scoped_limit_to_json L i) = Some i'
       \<and> sl_model_group i' = sl_model_group i \<and> sl_window i' = reread (sl_window i)"
  by (simp add: usage_json_scoped_limit_def scoped_limit_to_json_def Let_def as_f64_json_of_f64
      storable_scoped_def storable_window_def reread_def rfc3339_exact_def)

lemma scoped_window_foldl:
  assumes "distinct (map sl_model_group items)"
  shows "scoped_window (foldl set_scoped_window st items) g =
    or_keep (map_of (scoped_assoc items) g) (scoped_window st g)"
  using assms
proof (induction items arbitrary: st)
  case Nil
  then show ?case by (simp add: scoped_assoc_def)
next
  case (Cons i items)
  then have "map_of (scoped_assoc items) (sl_model_group i) = None"
    by (auto simp: scoped_assoc_def map_of_eq_None_iff)
  with Cons show ?case
    by (auto simp: scoped_assoc_def scoped_window_set)
qed

lemma scoped_limits_reread:
  assumes "rfc3339_exact L" and "\<forall>i \<in> set items. storable_scoped i"
  shows "scoped_assoc (List.map_filter (usage_json_scoped_limit L) (map (scoped_limit_to_json L) items))
    = map (\<lambda>(g, w). (g, reread w)) (scoped_assoc items)"
  using assms(2)
proof (induction items)
  case Nil
  then show ?case by (simp add: scoped_assoc_def List.map_filter_simps)
next
  case (Cons i items)
  obtain i' where "usage_json_scoped_limit L (scoped_limit_to_json L i) = Some i'"
    "sl_model_group i' = sl_model_group i" "sl_window i' = reread (sl_window i)"
    using scoped_limit_to_json_reread [OF assms(1)] Cons.prems by force
  with Cons show ?case by (simp add: scoped_assoc_def List.map_filter_simps)
qed

lemma scoped_assoc_sorted:
  assumes "mirror_inv st"
  defines "items \<equiv> sort_key sl_model_group (map snd (ls_scoped_weekly st))"
  shows "distinct (map sl_model_group items)"
    and "map_of (scoped_assoc items) = scoped_window st"
proof -
  let ?m = "ls_scoped_weekly st"
  have kv: "\<forall>(g, i) \<in> set ?m. sl_model_group i = g"
    using assms(1) by (simp add: mirror_inv_def)
  then have keys: "map sl_model_group (map snd ?m) = map fst ?m"
    by auto
  have d: "distinct (map fst ?m)"
    using assms(1) by (simp add: mirror_inv_def hm_wf_def)
  then have "distinct (map sl_model_group (map snd ?m))"
    by (simp only: keys)
  then show dist: "distinct (map sl_model_group items)"
    by (simp only: items_def distinct_map [of sl_model_group] distinct_sort set_sort)
  have "set (scoped_assoc items) = set (map (\<lambda>(g, i). (g, sl_window i)) ?m)"
    unfolding scoped_assoc_def items_def set_map set_sort image_image
    by (rule image_cong [OF refl]) (use kv in auto)
  moreover have "distinct (map fst (scoped_assoc items))"
    using dist by (simp add: scoped_assoc_def comp_def)
  moreover have "distinct (map fst (map (\<lambda>(g, i). (g, sl_window i)) ?m))"
    using d by (simp add: comp_def case_prod_beta)
  ultimately have "map_of (scoped_assoc items) = map_of (map (\<lambda>(g, i). (g, sl_window i)) ?m)"
    by (simp only: map_of_inject_set)
  then show "map_of (scoped_assoc items) = scoped_window st"
    by (simp add: fun_eq_iff scoped_window_def map_of_map)
qed

lemma map_of_reread: "map_of (map (\<lambda>(g, w). (g, reread w)) xs) g = map_option reread (map_of xs g)"
  by (induction xs) auto

lemma example_rfc3339: "rfc3339_exact example_lib"
  unfolding rfc3339_exact_def
proof
  fix t :: int
  show "lib_parse_rfc3339 example_lib (lib_to_rfc3339 example_lib t) = Some t"
    by (cases "t < 0"; cases "nat \<bar>t\<bar>") (auto simp: example_lib_def)
qed

lemmas digits_eval = parse_digits_def is_ascii_digit_def digits_value_def digit_val_def

lemma example_retry_after: "parse_retry_after sonnet_429_headers = Some 30"
proof -
  have "trim ''30'' = ''30''" by code_simp
  then show ?thesis
    by (simp add: parse_retry_after_def header_str_def sonnet_429_headers_def parse_u64_def digits_eval)
qed

lemma example_now_plus: "now_plus example_lib 0 30 = Done 30000000000" "now_plus example_lib 0 60 = Done 60000000000"
  by (simp_all add: now_plus_def example_lib_def)

lemma example_parse: "parse_window_from_headers L sonnet_429_headers ''5h'' = None"
  "parse_window_from_headers L sonnet_429_headers ''7d_sonnet'' = None"
  "parse_window_from_headers L sonnet_429_headers ''7d_oi'' = None"
  "parse_window_from_headers L sonnet_429_headers ''7d'' = None"
  "parse_rpm_tpm_headers L sonnet_429_headers = None"
  "scoped_rejection_group sonnet_429_headers = Some ''sonnet''"
  by (simp_all add: parse_window_from_headers_def unified_header_def header_str_def
      sonnet_429_headers_def parse_rpm_tpm_headers_def parse_rpm_tpm_counter_def rate_header_def
      scoped_rejection_group_def scoped_claim_group_def)

lemma example_header_str:
  "header_str sonnet_429_headers ''anthropic-ratelimit-unified-representative-claim'' = Some ''seven_day_sonnet''"
  "header_str sonnet_429_headers ''anthropic-ratelimit-unified-status'' = None"
  "header_str sonnet_429_headers ''anthropic-ratelimit-unified-reset'' = None"
  "header_str sonnet_429_headers ''anthropic-ratelimit-unified-fallback-percentage'' = None"
  "header_str sonnet_429_headers ''anthropic-ratelimit-unified-overage-status'' = None"
  "header_str sonnet_429_headers ''anthropic-ratelimit-unified-overage-disabled-reason'' = None"
  "header_str sonnet_429_headers ''anthropic-ratelimit-unified-overage-reset'' = None"
  by (simp_all add: header_str_def sonnet_429_headers_def)

lemma example_compute:
  "compute_new_state example_lib 0 default_limit_state Sonnet 429 sonnet_429_headers =
     Done (Some (set_scoped_ban
       (default_limit_state\<lparr>ls_representative_claim := Some ''seven_day_sonnet''\<rparr>)
       ''sonnet'' 30000000000))"
  by (simp add: compute_new_state_def parse_unified_headers_def example_parse example_retry_after
      apply_429_def apply_parsed_def any_present_def scoped_header_window_def header_timestamp_def
      example_header_str scoped_claim_group_def example_now_plus default_limit_state_def)

lemma empty_headers: "parse_unified_headers L Map.empty = None" "parse_rpm_tpm_headers L Map.empty = None"
  "parse_retry_after Map.empty = None"
  by (simp_all add: parse_unified_headers_def any_present_def parse_window_from_headers_def header_str_def
     scoped_header_window_def header_timestamp_def parse_rpm_tpm_headers_def parse_rpm_tpm_counter_def parse_retry_after_def)

lemma q100: "quotient_of 100 = (100,1)" by code_simp

lemma round_100: "f64_round 100 = F64_Fin 100"
proof -
  have l: "nat_log2 (Suc 0) = 0" "nat_log2 100 = 6" by (simp_all add: nat_log2.simps)
  have "rat_log2 100 = 6" by (simp add: rat_log2_def q100 l pow2_def)
  then show ?thesis by (simp add: f64_round_def pow2_def round_half_even_def)
qed

lemma plain_429_effect:
  assumes "mirror_inv prev"
    and "parse_unified_headers L headers = None" and "parse_rpm_tpm_headers L headers = None"
    and "now_plus L now (case parse_retry_after headers of None \<Rightarrow> DEFAULT_429_BAN | Some d \<Rightarrow> d) = Done until"
  shows "\<exists>s. compute_new_state L now prev mc 429 headers = Done (Some s)
    \<and> (\<forall>t < until. \<not> is_available (judge_availability L t s mc))
    \<and> (\<forall>t \<ge> until. is_available (judge_availability L t prev mc) \<longrightarrow> is_available (judge_availability L t s mc))
    \<and> (\<forall>t mc'. mc \<noteq> Opus \<and> mc' \<noteq> mc \<longrightarrow>
         is_available (judge_availability L t s mc') = is_available (judge_availability L t prev mc'))"
proof (cases "scoped_group mc")
  case None
  then have mc: "mc = Opus" by (cases mc) auto
  let ?s = "prev\<lparr>ls_rate_limited_until := Some until\<rparr>"
  have "compute_new_state L now prev mc 429 headers = Done (Some ?s)"
    using assms None by (simp add: compute_new_state_def)
  moreover have "mirror_inv ?s" using assms(1) by simp
  ultimately show ?thesis
    using assms(1) mc judge_availability_spec account_blocked_ban account_blocked_unban
    by (intro exI [of _ ?s]) fastforce
next
  case (Some g)
  then have mc: "mc \<noteq> Opus" by (cases mc) auto
  let ?s = "set_scoped_ban prev g until"
  have "compute_new_state L now prev mc 429 headers = Done (Some ?s)"
    using assms Some by (simp add: compute_new_state_def)
  moreover have inv: "mirror_inv ?s" using assms(1) by (rule mirror_inv_set_scoped_ban)
  moreover have "account_blocked t ?s = account_blocked t prev" for t
    by (rule account_blocked_cong [OF account_level_ban])
  moreover have "scoped_group mc' \<noteq> Some g" if "mc' \<noteq> mc" for mc'
    using scoped_group_inj Some that by blast
  ultimately show ?thesis
    using Some judge_availability_spec [OF assms(1)] judge_availability_spec [OF inv]
    by (intro exI [of _ ?s]) (auto simp: scoped_blocked_def map_lookup)
qed

section \<open>Properties\<close>

text \<open>
  C6. The selector schedules a request of a model class on an account exactly when the account is not blocked as a whole (upstream rejection, running 429 ban, pre-empted counter, 5h or 7d window at the threshold) and the quota of the request's own model group is not blocked.
\<close>

theorem judge_availability_iff:
  assumes "mirror_inv st"
  shows "is_available (judge_availability L now st mc) \<longleftrightarrow>
    \<not> account_blocked now st \<and> (\<forall>grp. scoped_group mc = Some grp \<longrightarrow> \<not> scoped_blocked now st grp)"
  using assms by (rule judge_availability_spec)

theorem judge_availability_iff_witness:
  "is_available (judge_availability example_lib 50 (set_scoped_ban default_limit_state ''sonnet'' 100) Opus)
  \<and> \<not> is_available (judge_availability example_lib 50 (set_scoped_ban default_limit_state ''sonnet'' 100) Sonnet)"
proof -
  have inv: "mirror_inv (set_scoped_ban default_limit_state ''sonnet'' 100)"
    by (rule mirror_inv_set_scoped_ban) simp
  show ?thesis
    using judge_availability_iff [OF inv, of example_lib 50]
    by (auto simp: account_blocked_def scoped_blocked_def default_limit_state_def map_lookup)
qed

text \<open>
  In every reachable limit store the two legacy Sonnet fields of an account agree with the entry \<open>sonnet\<close> of the model-level maps, so reading either gives the same verdict.
\<close>

theorem sonnet_mirror_invariant:
  assumes "limit_reachable L ls" and "map_of (lst_states ls) account_id = Some st"
  shows "ls_sonnet_seven_day st = scoped_window st ''sonnet''
    \<and> ls_sonnet_rate_limited_until st = map_of (ls_scoped_rate_limited_until st) ''sonnet''"
proof -
  from limit_reachable_inv [OF assms(1)] have "mirror_inv (state_of ls account_id)"
    by (simp add: store_inv_def)
  then show ?thesis
    using assms(2) mirror_invD [of st] by (simp add: state_of_def)
qed

theorem sonnet_mirror_invariant_witness:
  "\<exists>st. map_of (lst_states (limit_exec example_lib limit_store_new (Absorb 0 0 1 Sonnet 429 sonnet_429_headers))) 1 = Some st
   \<and> ls_sonnet_rate_limited_until st = Some 30000000000
   \<and> map_of (ls_scoped_rate_limited_until st) ''sonnet'' = Some 30000000000"
proof -
  let ?ls = "limit_exec example_lib limit_store_new (Absorb 0 0 1 Sonnet 429 sonnet_429_headers)"
  have r: "limit_reachable example_lib ?ls"
    by (intro limit_reachable.intros)
  obtain st where st: "map_of (lst_states ?ls) 1 = Some st" "ls_sonnet_rate_limited_until st = Some 30000000000"
    by (simp add: absorb_headers_def limit_store_new_def state_of_def example_compute Let_def)
  then show ?thesis using sonnet_mirror_invariant [OF r st(1)] by simp
qed

text \<open>
  C10. A response whose representative claim names a model-level quota (Sonnet or Fable) does nothing to the
  other model classes but record what it measures: its 5h window, its counters, the windows of the model groups it
  names, and its 7d window when the claimed group has a window of its own. Its status, its reset time,
  \<open>retry-after\<close>, the 429 itself and a 7d window that stands for the claimed quota never block them. A
  response with none of these measurements leaves the availability of the other classes as it was.
\<close>

theorem scoped_rejection_isolated:
  assumes "mirror_inv prev"
    and "scoped_rejection_group headers = Some g"
    and "compute_new_state L now prev mc status headers = Done (Some s)"
    and "scoped_group mc' \<noteq> Some g"
  shows "is_available (judge_availability L t s mc') = is_available (judge_availability L t (measured L headers g prev) mc') \<and>
    (parse_window_from_headers L headers ''5h'' = None \<and> parse_rpm_tpm_headers L headers = None \<and> named_windows L headers = [] \<longrightarrow>
       is_available (judge_availability L t s mc') = is_available (judge_availability L t prev mc'))"
proof -
  have "is_available (judge_availability L t s mc') = is_available (judge_availability L t (measured L headers g prev) mc')"
    using same_for_available [OF compute_scoped_claim [OF assms(2,3)]] mirror_inv_measured mirror_inv_compute assms(1,3,4) by blast
  moreover have "measured L headers g prev = prev"
    if "parse_window_from_headers L headers ''5h'' = None" "parse_rpm_tpm_headers L headers = None" "named_windows L headers = []"
    using that by (simp add: measured_def)
  ultimately show ?thesis
    by simp
qed

theorem scoped_rejection_isolated_witness:
  "is_available (judge_availability example_lib 7
    (set_scoped_ban (default_limit_state\<lparr>ls_representative_claim := Some ''seven_day_sonnet''\<rparr>) ''sonnet'' 30000000000) Opus)"
  using scoped_rejection_isolated [OF mirror_inv_default example_parse(6) example_compute, of Opus 7]
  by (simp add: named_windows_def scoped_header_window_def example_parse judge_availability_def default_limit_state_def)

text \<open>
  A 429 without quota headers blocks the requested model class (the whole account for Opus-class requests) until \<open>retry-after\<close>, or 60 seconds, have passed; then the ban no longer blocks, and for Sonnet and Fable requests the other classes are never affected.
\<close>

theorem plain_429_bans_then_lifts:
  assumes "mirror_inv prev"
    and "parse_unified_headers L headers = None" and "parse_rpm_tpm_headers L headers = None"
    and "now_plus L now (case parse_retry_after headers of None \<Rightarrow> DEFAULT_429_BAN | Some d \<Rightarrow> d) = Done until"
  shows "\<exists>s. compute_new_state L now prev mc 429 headers = Done (Some s)
    \<and> (\<forall>t < until. \<not> is_available (judge_availability L t s mc))
    \<and> (\<forall>t \<ge> until. is_available (judge_availability L t prev mc) \<longrightarrow> is_available (judge_availability L t s mc))
    \<and> (\<forall>t mc'. mc \<noteq> Opus \<and> mc' \<noteq> mc \<longrightarrow>
         is_available (judge_availability L t s mc') = is_available (judge_availability L t prev mc'))"
  using assms by (rule plain_429_effect)

theorem plain_429_bans_then_lifts_witness:
  "\<exists>s. compute_new_state example_lib 0 default_limit_state Fable 429 Map.empty = Done (Some s)
   \<and> \<not> is_available (judge_availability example_lib 59999999999 s Fable)
   \<and> is_available (judge_availability example_lib 60000000000 s Fable)
   \<and> is_available (judge_availability example_lib 1 s Opus)"
proof -
  have np: "now_plus example_lib 0 (case parse_retry_after Map.empty of None \<Rightarrow> DEFAULT_429_BAN | Some d \<Rightarrow> d) = Done 60000000000"
    by (simp add: empty_headers DEFAULT_429_BAN_def example_now_plus)
  have "is_available (judge_availability example_lib t default_limit_state mc)" for t mc
    by (cases mc) (simp_all add: judge_availability_def judge_scoped_def default_limit_state_def scoped_window_def)
  then show ?thesis
    using plain_429_bans_then_lifts [OF mirror_inv_default empty_headers(1,2) np, of Fable] by force
qed

text \<open>
  C35. Once the upstream status of an account is \<open>rejected\<close>, the account stays unavailable at every later time, the announced reset included: no usage refresh and no response without a status header lifts it.
\<close>

theorem rejected_never_expires:
  assumes "ls_status (state_of ls a) = Some US_Rejected"
    and "\<forall>ev \<in> set evs. keeps_status a ev"
  shows "account_availability L t (foldl (limit_exec L) ls evs) a mc \<noteq> Done Available"
proof -
  have "ls_status (state_of (foldl (limit_exec L) ls evs) a) = Some US_Rejected"
    using assms by (induction evs arbitrary: ls) (simp_all add: limit_exec_status)
  then show ?thesis
    by (auto simp: account_availability_def state_of_def judge_availability_def default_limit_state_def
        split: option.splits)
qed

theorem rejected_never_expires_witness:
  "account_availability example_lib 1000 (foldl (limit_exec example_lib)
     \<lparr>lst_states = [(1, default_limit_state\<lparr>ls_status := Some US_Rejected, ls_reset_at := Some 100\<rparr>)], lst_poisoned = False\<rparr>
     [Ingest 5 1 (JObj [])]) 1 Opus \<noteq> Done Available"
  by (rule rejected_never_expires) (simp_all add: state_of_def)

text \<open>
  A 429 whose \<open>retry-after\<close> makes the date addition overflow panics while the mutex is held; the store is poisoned and every later availability query panics, for every account and model.
\<close>

theorem overflowing_retry_after_poisons:
  assumes "\<not> lst_poisoned ls"
    and "parse_unified_headers L headers = None" and "parse_rpm_tpm_headers L headers = None"
    and "parse_retry_after headers = Some secs"
    and "lib_duration_from_std L secs = Some d" and "lib_checked_add L now d = None"
    and "absorb_headers L now inst ls a mc 429 headers = (r, ls')"
  shows "r = Panic \<and> (\<forall>evs t a' mc'. account_availability L t (foldl (limit_exec L) ls' evs) a' mc' = Panic)"
proof -
  have "compute_new_state L now (state_of ls a) mc 429 headers = Panic"
    using assms by (simp add: compute_new_state_def now_plus_def)
  then have r: "r = Panic" "lst_poisoned ls'"
    using assms by (auto simp: absorb_headers_def)
  have "lst_poisoned (limit_exec L x ev)" if "lst_poisoned x" for x ev
    using that by (cases ev) (simp_all add: absorb_headers_def ingest_usage_json_def)
  then have "lst_poisoned (foldl (limit_exec L) ls' evs)" for evs
    using r(2) by (induction evs arbitrary: ls') auto
  then show ?thesis using r(1) by (simp add: account_availability_def)
qed

theorem overflowing_retry_after_poisons_witness:
  "account_availability example_lib 1 (snd (absorb_headers example_lib 0 0 limit_store_new 1 Opus 429 huge_retry_headers)) 2 Fable = Panic"
proof -
  have "trim ''9000000000000'' = ''9000000000000''" by code_simp
  then have ra: "parse_retry_after huge_retry_headers = Some 9000000000000"
    by (simp add: parse_retry_after_def header_str_def huge_retry_headers_def parse_u64_def digits_eval)
  have p: "parse_unified_headers example_lib huge_retry_headers = None" "parse_rpm_tpm_headers example_lib huge_retry_headers = None"
    by (simp_all add: huge_retry_headers_def parse_unified_headers_def any_present_def parse_window_from_headers_def header_str_def
     scoped_header_window_def header_timestamp_def parse_rpm_tpm_headers_def parse_rpm_tpm_counter_def unified_header_def rate_header_def)
  have d: "lib_duration_from_std example_lib 9000000000000 = Some (9000000000000 * 10 ^ 9)"
     "lib_checked_add example_lib 0 (9000000000000 * 10 ^ 9) = None"
    by (simp_all add: example_lib_def)
  obtain r ls' where eq: "absorb_headers example_lib 0 0 limit_store_new 1 Opus 429 huge_retry_headers = (r, ls')"
    by (cases "absorb_headers example_lib 0 0 limit_store_new 1 Opus 429 huge_retry_headers")
  have "\<not> lst_poisoned limit_store_new" by (simp add: limit_store_new_def)
  from overflowing_retry_after_poisons [OF this p ra d eq]
  have "account_availability example_lib 1 (foldl (limit_exec example_lib) ls' []) 2 Fable = Panic" by blast
  then show ?thesis by (simp add: eq)
qed

text \<open>
  As long as the date addition does not overflow, absorbing a response neither panics nor poisons the store.
\<close>

theorem absorb_no_panic:
  assumes "\<not> lst_poisoned ls"
    and "\<And>secs. secs = DEFAULT_429_BAN \<or> parse_retry_after headers = Some secs \<Longrightarrow> now_plus L now secs \<noteq> Panic"
    and "absorb_headers L now inst ls a mc status headers = (r, ls')"
  shows "r \<noteq> Panic \<and> \<not> lst_poisoned ls'"
proof -
  have "compute_new_state L now (state_of ls a) mc status headers \<noteq> Panic"
    using assms(2) unfolding compute_new_state_def Let_def
    by (auto simp: outcome_bind_Panic_iff apply_429_def split: option.splits)
  then show ?thesis
    using assms(1,3)
    by (auto simp: absorb_headers_def Let_def split: outcome.splits option.splits)
qed

theorem absorb_no_panic_witness:
  "fst (absorb_headers example_lib 0 0 limit_store_new 1 Sonnet 429 sonnet_429_headers) \<noteq> Panic"
proof -
  obtain r ls' where eq: "absorb_headers example_lib 0 0 limit_store_new 1 Sonnet 429 sonnet_429_headers = (r, ls')"
    by (cases "absorb_headers example_lib 0 0 limit_store_new 1 Sonnet 429 sonnet_429_headers")
  have "r \<noteq> Panic \<and> \<not> lst_poisoned ls'"
    by (rule absorb_no_panic [OF _ _ eq])
      (auto simp: limit_store_new_def example_retry_after example_now_plus DEFAULT_429_BAN_def)
  then show ?thesis by (simp add: eq)
qed

text \<open>
  The reset time written to the database is the latest reset among the account-level windows at the threshold and the pre-empted counters, and absent exactly when nothing blocks.
\<close>

theorem bottleneck_is_latest_reset:
  "bottleneck_limit_until now st =
     (if blocking_resets now st = {} then None else Some (Max (blocking_resets now st)))"
proof -
  define picks where "picks = map ws_resets_at (filter (\<lambda>w. window_hit w now)
        (List.map_filter (\<lambda>x. x) [ls_five_hour st, ls_seven_day st]))
      @ (case ls_rpm_tpm st of None \<Rightarrow> []
         | Some rt \<Rightarrow> map rc_reset_at (filter (\<lambda>c. counter_preempted c now) (all_counters rt)))"
  have "set picks = blocking_resets now st"
    by (cases "ls_rpm_tpm st") (auto simp: picks_def blocking_resets_def List.map_filter_simps split: option.splits)
  moreover have "bottleneck_limit_until now st = (case picks of [] \<Rightarrow> None | p # ps \<Rightarrow> Some (Max (set picks)))"
    by (simp add: bottleneck_limit_until_def picks_def fold_max_Max split: list.split)
  ultimately show ?thesis
    by (auto split: list.split)
qed

text \<open>
  Reading back the snapshot written to \<open>usage_data\<close> restores the 5h, the 7d and every model-level window, with the utilization taken through percent and back and the status reset to allowed.
\<close>

theorem usage_snapshot_roundtrip:
  assumes "rfc3339_exact L" and "mirror_inv st" and "storable st"
  shows "ls_five_hour (apply_usage_json L default_limit_state (build_usage_json L st))
           = map_option reread (ls_five_hour st)
    \<and> ls_seven_day (apply_usage_json L default_limit_state (build_usage_json L st))
           = map_option reread (ls_seven_day st)
    \<and> scoped_window (apply_usage_json L default_limit_state (build_usage_json L st))
           = (\<lambda>g. map_option reread (scoped_window st g))"
proof -
  define items where "items = sort_key sl_model_group (map snd (ls_scoped_weekly st))"
  let ?j = "build_usage_json L st"
  define parsed where "parsed = parse_usage_json_scoped_limits L ?j"
  have five: "parse_usage_json_window L ?j ''five_hour'' = map_option reread (ls_five_hour st)"
    and seven: "parse_usage_json_window L ?j ''seven_day'' = map_option reread (ls_seven_day st)"
      "parse_usage_json_window L ?j ''seven_day_opus'' = map_option reread (ls_seven_day st)"
    using assms(3) json_window_to_json [OF assms(1)]
    by (cases "ls_five_hour st"; cases "ls_seven_day st";
        simp add: parse_usage_json_window_def build_usage_json_get storable_def)+
  have ok: "\<forall>i \<in> set items. storable_scoped i"
    using assms(3) by (force simp: items_def storable_def)
  have parsed: "scoped_assoc parsed = map (\<lambda>(g, w). (g, reread w)) (scoped_assoc items)"
    using scoped_limits_reread [OF assms(1) ok]
    by (simp add: parsed_def parse_usage_json_scoped_limits_def build_usage_json_get items_def
        scoped_assoc_def)
  have look: "map_of (scoped_assoc parsed) g = map_option reread (scoped_window st g)" for g
    unfolding parsed map_of_reread items_def scoped_assoc_sorted(2) [OF assms(2)] ..
  have groups: "map sl_model_group parsed = map sl_model_group items"
    using arg_cong [OF parsed, of "map fst"] by (simp add: scoped_assoc_def comp_def)
  have dist: "distinct (map sl_model_group parsed)"
    unfolding groups items_def by (rule scoped_assoc_sorted(1) [OF assms(2)])
  have sonnet: "parse_usage_json_window L ?j ''seven_day_sonnet'' = None"
    if "\<not> list_ex (\<lambda>i. sl_model_group i = ''sonnet'') parsed"
  proof -
    have "map_of (scoped_assoc parsed) ''sonnet'' = None"
      using that by (auto simp: scoped_assoc_def map_of_eq_None_iff list_ex_iff)
    then show ?thesis
      using look [of "''sonnet''"] mirror_invD(1) [OF assms(2)]
      by (simp add: parse_usage_json_window_def build_usage_json_get)
  qed
  have base: "scoped_window (default_limit_state\<lparr>ls_five_hour := a, ls_seven_day := b\<rparr>) g = None"
    "scoped_window (default_limit_state\<lparr>ls_five_hour := a, ls_seven_day := b,
       ls_scoped_weekly := [], ls_sonnet_seven_day := None\<rparr>) g = None" for a b g
    by (simp_all add: scoped_window_def default_limit_state_def)
  show ?thesis
    unfolding apply_usage_json_def Let_def parsed_def [symmetric] five seven
    using sonnet scoped_window_foldl [OF dist] look base
    by (auto simp: default_limit_state_def fun_eq_iff or_keep_def split: option.splits)
qed

theorem usage_snapshot_roundtrip_witness:
  "scoped_window (apply_usage_json example_lib default_limit_state (build_usage_json example_lib
     (set_scoped_window default_limit_state \<lparr>sl_model_group = ''fable'', sl_display_name = ''Fable'', sl_window = half_window\<rparr>))) ''fable''
     = Some (reread half_window)"
proof -
  let ?st = "set_scoped_window default_limit_state \<lparr>sl_model_group = ''fable'', sl_display_name = ''Fable'', sl_window = half_window\<rparr>"
  have t: "to_ascii_lowercase (trim ''fable'') = ''fable''" by code_simp
  have "storable ?st"
    by (simp add: storable_def set_scoped_window_def default_limit_state_def storable_scoped_def t
       storable_window_def half_window_def percent_def round_100)
  from usage_snapshot_roundtrip [OF example_rfc3339 mirror_inv_set_scoped_window [OF mirror_inv_default] this]
  show ?thesis by (simp add: scoped_window_set)
qed

end
