(* ===== verification/Account_Model.thy ===== *)
theory Account_Model
  imports Json
begin

text \<open>
  The data model: the error type of the HTTP boundary (\<open>src/error.rs\<close>), the account with its
  enumerations (\<open>src/model/account.rs\<close>), the API token (\<open>src/model/api_token.rs\<close>) and the client
  identity stored with an account (\<open>src/model/identity.rs\<close>). Random draws are arguments. The
  lemmas show the text forms of the enumerations round-trip, what an identifier list parses to,
  and what the release normalisation of a stored environment changes and keeps.
\<close>

section \<open>Errors\<close>

datatype app_error =
    NotFound
  | BadRequest string
  | Unauthorized
  | TooManyRequests string
  | BadGateway string
  | ServiceUnavailable string
  | Internal string

fun app_error_to_string :: "app_error \<Rightarrow> string" where
  "app_error_to_string NotFound = ''not found''"
| "app_error_to_string (BadRequest e) = ''bad request: '' @ e"
| "app_error_to_string Unauthorized = ''unauthorized''"
| "app_error_to_string (TooManyRequests e) = ''too many requests: '' @ e"
| "app_error_to_string (BadGateway e) = ''bad gateway: '' @ e"
| "app_error_to_string (ServiceUnavailable e) = ''service unavailable: '' @ e"
| "app_error_to_string (Internal e) = ''internal: '' @ e"

text \<open>The database library's errors: a missing row, or another error with its text.\<close>

datatype sqlx_error = RowNotFound | SqlxOther string

fun app_error_from_sqlx :: "sqlx_error \<Rightarrow> app_error" where
  "app_error_from_sqlx RowNotFound = NotFound"
| "app_error_from_sqlx (SqlxOther e) = Internal e"

text \<open>Status code and JSON body of the response an error becomes.\<close>

definition app_error_into_response :: "app_error \<Rightarrow> nat \<times> json" where
  "app_error_into_response e =
     (let (status, msg) =
        (case e of
           NotFound \<Rightarrow> (404, ''not found'')
         | BadRequest _ \<Rightarrow> (400, '''')
         | Unauthorized \<Rightarrow> (401, ''unauthorized'')
         | TooManyRequests _ \<Rightarrow> (429, '''')
         | BadGateway _ \<Rightarrow> (502, '''')
         | ServiceUnavailable _ \<Rightarrow> (503, '''')
         | Internal _ \<Rightarrow> (500, ''internal error''))
      in (status, JObj [(''error'', JStr (if msg = [] then app_error_to_string e else msg))]))"

section \<open>Accounts\<close>

datatype account_status = AS_Active | AS_Error | AS_Disabled

fun account_status_to_string :: "account_status \<Rightarrow> string" where
  "account_status_to_string AS_Active = ''active''"
| "account_status_to_string AS_Error = ''error''"
| "account_status_to_string AS_Disabled = ''disabled''"

definition account_status_from :: "string \<Rightarrow> account_status" where
  "account_status_from s =
     (if s = ''active'' then AS_Active
      else if s = ''error'' then AS_Error
      else if s = ''disabled'' then AS_Disabled
      else AS_Active)"

datatype billing_mode = BM_Strip | BM_Rewrite

fun billing_mode_to_string :: "billing_mode \<Rightarrow> string" where
  "billing_mode_to_string BM_Strip = ''strip''"
| "billing_mode_to_string BM_Rewrite = ''rewrite''"

definition billing_mode_from :: "string \<Rightarrow> billing_mode" where
  "billing_mode_from s = (if s = ''rewrite'' then BM_Rewrite else BM_Strip)"

datatype account_auth_type = SetupToken | Oauth

fun auth_type_to_string :: "account_auth_type \<Rightarrow> string" where
  "auth_type_to_string SetupToken = ''setup_token''"
| "auth_type_to_string Oauth = ''oauth''"

definition auth_type_from :: "string \<Rightarrow> account_auth_type" where
  "auth_type_from s = (if s = ''oauth'' then Oauth else SetupToken)"

text \<open>Times are nanoseconds since the epoch; \<open>i32\<close> and \<open>i64\<close> fields are integers.\<close>

record account =
  acc_id :: int
  acc_name :: string
  acc_email :: string
  acc_status :: account_status
  acc_auth_type :: account_auth_type
  acc_setup_token :: string
  acc_access_token :: string
  acc_refresh_token :: string
  acc_expires_at :: "int option"
  acc_oauth_refreshed_at :: "int option"
  acc_auth_error :: string
  acc_proxy_url :: string
  acc_device_id :: string
  acc_canonical_env :: json
  acc_canonical_prompt :: json
  acc_canonical_process :: json
  acc_billing_mode :: billing_mode
  acc_account_uuid :: "string option"
  acc_organization_uuid :: "string option"
  acc_subscription_type :: "string option"
  acc_concurrency :: int
  acc_priority :: int
  acc_rate_limited_at :: "int option"
  acc_rate_limit_reset_at :: "int option"
  acc_disable_reason :: string
  acc_auto_telemetry :: bool
  acc_telemetry_count :: int
  acc_usage_data :: json
  acc_usage_fetched_at :: "int option"
  acc_created_at :: int
  acc_updated_at :: int

definition is_schedulable :: "account \<Rightarrow> bool" where
  "is_schedulable a \<longleftrightarrow> acc_status a = AS_Active"

definition has_valid_oauth_access_token :: "int \<Rightarrow> account \<Rightarrow> int \<Rightarrow> bool" where
  "has_valid_oauth_access_token now a buffer_seconds =
     (if acc_auth_type a \<noteq> Oauth \<or> acc_access_token a = [] then False
      else (case acc_expires_at a of
              None \<Rightarrow> False
            | Some expires_at \<Rightarrow> now + buffer_seconds * 10 ^ 9 < expires_at))"

section \<open>API tokens\<close>

datatype api_token_status = TS_Active | TS_Disabled

fun token_status_to_string :: "api_token_status \<Rightarrow> string" where
  "token_status_to_string TS_Active = ''active''"
| "token_status_to_string TS_Disabled = ''disabled''"

definition token_status_from :: "string \<Rightarrow> api_token_status" where
  "token_status_from s = (if s = ''active'' then TS_Active else TS_Disabled)"

record api_token =
  tok_id :: int
  tok_name :: string
  tok_token :: string
  tok_allowed_accounts :: string
  tok_blocked_accounts :: string
  tok_status :: api_token_status
  tok_created_at :: int
  tok_updated_at :: int

definition parse_id_list :: "string \<Rightarrow> int list" where
  "parse_id_list s =
     (if s = [] then []
      else List.map_filter (\<lambda>i. parse_i64 (trim i)) (split_by (\<lambda>c. c = CHR '','') s))"

definition allowed_account_ids :: "api_token \<Rightarrow> int list" where
  "allowed_account_ids t = parse_id_list (tok_allowed_accounts t)"

definition blocked_account_ids :: "api_token \<Rightarrow> int list" where
  "blocked_account_ids t = parse_id_list (tok_blocked_accounts t)"

definition token_charset :: string where
  "token_charset = ''abcdefghijklmnopqrstuvwxyzABCDEFGHIJKLMNOPQRSTUVWXYZ0123456789''"

text \<open>\<open>draw i\<close> is the \<open>i\<close>-th result of \<open>gen_range(0..62)\<close>.\<close>

definition generate_token :: "(nat \<Rightarrow> nat) \<Rightarrow> string" where
  "generate_token draw = ''sk-'' @ map (\<lambda>i. token_charset ! draw i) [0..<61]"

section \<open>Client identity\<close>

definition CLAUDE_CODE_VERSION :: string where "CLAUDE_CODE_VERSION = ''2.1.280''"
definition CLAUDE_CODE_BUILD_TIME :: string where
  "CLAUDE_CODE_BUILD_TIME = ''2026-09-21T20:40:17Z''"
definition CLAUDE_CODE_STAINLESS_VERSION :: string where
  "CLAUDE_CODE_STAINLESS_VERSION = ''0.112.1''"
definition CLAUDE_CODE_RUNTIME_VERSION :: string where "CLAUDE_CODE_RUNTIME_VERSION = ''v26.3.0''"

record canonical_env =
  env_platform :: string
  env_platform_raw :: string
  env_arch :: string
  env_node_version :: string
  env_terminal :: string
  env_shell :: string
  env_package_managers :: string
  env_runtimes :: string
  env_is_running_with_bun :: bool
  env_is_ci :: bool
  env_is_claubbit :: bool
  env_is_claude_code_remote :: bool
  env_is_local_agent_mode :: bool
  env_is_conductor :: bool
  env_is_github_action :: bool
  env_is_claude_code_action :: bool
  env_is_claude_ai_auth :: bool
  env_version :: string
  env_version_base :: string
  env_build_time :: string
  env_deployment_environment :: string
  env_vcs :: string

definition default_env :: canonical_env where
  "default_env =
     \<lparr>env_platform = [], env_platform_raw = [], env_arch = [], env_node_version = [],
      env_terminal = [], env_shell = [], env_package_managers = [], env_runtimes = [],
      env_is_running_with_bun = False, env_is_ci = False, env_is_claubbit = False,
      env_is_claude_code_remote = False, env_is_local_agent_mode = False,
      env_is_conductor = False, env_is_github_action = False, env_is_claude_code_action = False,
      env_is_claude_ai_auth = False, env_version = [], env_version_base = [],
      env_build_time = [], env_deployment_environment = [], env_vcs = []\<rparr>"

definition platform_preset ::
  "string \<Rightarrow> string \<Rightarrow> string \<Rightarrow> string \<Rightarrow> string \<Rightarrow> string \<Rightarrow> canonical_env" where
  "platform_preset platform arch shell node term pm =
     default_env\<lparr>env_platform := platform, env_platform_raw := platform, env_arch := arch,
       env_node_version := node, env_terminal := term, env_shell := shell,
       env_package_managers := pm, env_runtimes := ''node'', env_is_running_with_bun := True,
       env_is_claude_ai_auth := True, env_version := CLAUDE_CODE_VERSION,
       env_version_base := CLAUDE_CODE_VERSION, env_build_time := CLAUDE_CODE_BUILD_TIME,
       env_deployment_environment := ''unknown-'' @ platform, env_vcs := ''git''\<rparr>"

definition dp :: "string \<Rightarrow> string \<Rightarrow> string \<Rightarrow> string \<Rightarrow> canonical_env" where
  "dp arch node term pm = platform_preset ''darwin'' arch ''zsh'' node term pm"

definition dx :: "string \<Rightarrow> string \<Rightarrow> string \<Rightarrow> canonical_env" where
  "dx node term pm = dp ''x64'' node term pm"

definition lp :: "string \<Rightarrow> string \<Rightarrow> string \<Rightarrow> canonical_env" where
  "lp node term pm = platform_preset ''linux'' ''x64'' ''bash'' node term pm"

definition wp :: "string \<Rightarrow> string \<Rightarrow> string \<Rightarrow> canonical_env" where
  "wp node term pm = platform_preset ''win32'' ''x64'' ''bash'' node term pm"

definition env_presets :: "canonical_env list" where
  "env_presets =
     (let v = CLAUDE_CODE_RUNTIME_VERSION in
      [dp ''arm64'' v ''iTerm.app'' ''npm,pnpm'', dp ''arm64'' v ''Apple_Terminal'' ''npm,yarn'',
       dp ''arm64'' v ''vscode'' ''npm,pnpm'', dp ''arm64'' v ''WarpTerminal'' ''npm'',
       dp ''arm64'' v ''kitty'' ''npm,yarn,pnpm'', dp ''arm64'' v ''iTerm.app'' ''npm'',
       dp ''arm64'' v ''tmux'' ''npm,pnpm'', dp ''arm64'' v ''ghostty'' ''npm,yarn'',
       dx v ''iTerm.app'' ''npm,yarn'', dx v ''Apple_Terminal'' ''npm,pnpm'',
       dx v ''vscode'' ''npm'', dx v ''iTerm.app'' ''npm,pnpm'',
       lp v ''gnome-terminal'' ''npm,pnpm'', lp v ''ssh-session'' ''npm'',
       lp v ''xterm-256color'' ''npm,yarn'', lp v ''vscode'' ''npm,pnpm'',
       lp v ''tmux'' ''npm'', lp v ''alacritty'' ''npm,yarn'',
       wp v ''windows-terminal'' ''npm,pnpm'', wp v ''vscode'' ''npm,yarn'',
       wp v ''mingw64'' ''npm'', wp v ''windows-terminal'' ''npm,pnpm''])"

definition normalize_canonical_env_json :: "json \<Rightarrow> json" where
  "normalize_canonical_env_json value =
     (let m = (case as_object value of None \<Rightarrow> [] | Some m \<Rightarrow> m);
          m = AList.update ''version'' (JStr CLAUDE_CODE_VERSION) m;
          m = AList.update ''version_base'' (JStr CLAUDE_CODE_VERSION) m;
          m = AList.update ''build_time'' (JStr CLAUDE_CODE_BUILD_TIME) m;
          m = AList.update ''node_version'' (JStr CLAUDE_CODE_RUNTIME_VERSION) m;
          m = AList.update ''runtimes'' (JStr ''node'') m;
          m = AList.update ''is_running_with_bun'' (JBool True) m;
          platform = Option.bind (map_of m ''platform'') as_str;
          shell = (if platform = Some ''darwin'' then ''zsh''
                   else if platform = Some ''linux'' \<or> platform = Some ''win32'' then ''bash''
                   else '''')
      in if shell \<noteq> [] \<and>
            \<not> (case Option.bind (map_of m ''shell'') as_str of None \<Rightarrow> False | Some v \<Rightarrow> v \<noteq> [])
         then JObj (AList.update ''shell'' (JStr shell) m)
         else JObj m)"

text \<open>
  The derived deserializer of \<open>CanonicalEnvData\<close> under its struct-level \<open>default\<close>: a missing field
  takes its default, a field of another JSON type is an error, unknown fields are ignored.
\<close>

definition string_field :: "json \<Rightarrow> string \<Rightarrow> string option" where
  "string_field j k = (case jget j k of None \<Rightarrow> Some [] | Some v \<Rightarrow> as_str v)"

definition bool_field :: "json \<Rightarrow> string \<Rightarrow> bool option" where
  "bool_field j k = (case jget j k of None \<Rightarrow> Some False | Some v \<Rightarrow> as_bool v)"

definition env_string_keys :: "string list" where
  "env_string_keys =
     [''platform'', ''platform_raw'', ''arch'', ''node_version'', ''terminal'', ''shell'',
      ''package_managers'', ''runtimes'', ''version'', ''version_base'', ''build_time'',
      ''deployment_environment'', ''vcs'']"

definition env_bool_keys :: "string list" where
  "env_bool_keys =
     [''is_running_with_bun'', ''is_ci'', ''is_claubbit'', ''is_claude_code_remote'',
      ''is_local_agent_mode'', ''is_conductor'', ''is_github_action'', ''is_claude_code_action'',
      ''is_claude_ai_auth'']"

definition env_from_value :: "json \<Rightarrow> canonical_env option" where
  "env_from_value j =
     (if as_object j \<noteq> None \<and> list_all (\<lambda>k. string_field j k \<noteq> None) env_string_keys
         \<and> list_all (\<lambda>k. bool_field j k \<noteq> None) env_bool_keys
      then
        (let s = (\<lambda>k. the (string_field j k)); b = (\<lambda>k. the (bool_field j k))
         in Some \<lparr>env_platform = s ''platform'', env_platform_raw = s ''platform_raw'',
              env_arch = s ''arch'', env_node_version = s ''node_version'',
              env_terminal = s ''terminal'', env_shell = s ''shell'',
              env_package_managers = s ''package_managers'', env_runtimes = s ''runtimes'',
              env_is_running_with_bun = b ''is_running_with_bun'', env_is_ci = b ''is_ci'',
              env_is_claubbit = b ''is_claubbit'',
              env_is_claude_code_remote = b ''is_claude_code_remote'',
              env_is_local_agent_mode = b ''is_local_agent_mode'',
              env_is_conductor = b ''is_conductor'', env_is_github_action = b ''is_github_action'',
              env_is_claude_code_action = b ''is_claude_code_action'',
              env_is_claude_ai_auth = b ''is_claude_ai_auth'', env_version = s ''version'',
              env_version_base = s ''version_base'', env_build_time = s ''build_time'',
              env_deployment_environment = s ''deployment_environment'', env_vcs = s ''vcs''\<rparr>)
      else None)"

definition parse_canonical_env :: "json \<Rightarrow> canonical_env" where
  "parse_canonical_env value =
     (case env_from_value (normalize_canonical_env_json value) of
        None \<Rightarrow> default_env | Some e \<Rightarrow> e)"

definition env_fields_json :: "canonical_env \<Rightarrow> (string \<times> json) list" where
  "env_fields_json e =
     [(''platform'', JStr (env_platform e)), (''platform_raw'', JStr (env_platform_raw e)),
      (''arch'', JStr (env_arch e)), (''node_version'', JStr (env_node_version e)),
      (''terminal'', JStr (env_terminal e)), (''shell'', JStr (env_shell e)),
      (''package_managers'', JStr (env_package_managers e)),
      (''runtimes'', JStr (env_runtimes e)),
      (''is_running_with_bun'', JBool (env_is_running_with_bun e)),
      (''is_ci'', JBool (env_is_ci e)), (''is_claubbit'', JBool (env_is_claubbit e)),
      (''is_claude_code_remote'', JBool (env_is_claude_code_remote e)),
      (''is_local_agent_mode'', JBool (env_is_local_agent_mode e)),
      (''is_conductor'', JBool (env_is_conductor e)),
      (''is_github_action'', JBool (env_is_github_action e)),
      (''is_claude_code_action'', JBool (env_is_claude_code_action e)),
      (''is_claude_ai_auth'', JBool (env_is_claude_ai_auth e)),
      (''version'', JStr (env_version e)), (''version_base'', JStr (env_version_base e)),
      (''build_time'', JStr (env_build_time e)),
      (''deployment_environment'', JStr (env_deployment_environment e)),
      (''vcs'', JStr (env_vcs e))]"

text \<open>The derived serializer writes every field.\<close>

definition env_to_value :: "canonical_env \<Rightarrow> json" where
  "env_to_value e = JObj (env_fields_json e)"

definition build_full_env_json :: "canonical_env \<Rightarrow> json" where
  "build_full_env_json e =
     JObj (filter (\<lambda>(k, v). v \<noteq> JStr [])
       (env_fields_json
          (e\<lparr>env_terminal := (if env_terminal e = [] then ''unknown'' else env_terminal e)\<rparr>)))"

definition prompt_presets :: "(string, json) hash_map" where
  "prompt_presets =
     [(''darwin'', JObj [(''platform'', JStr ''darwin''), (''shell'', JStr ''zsh''),
         (''os_version'', JStr ''Darwin 24.4.0''), (''working_dir'', JStr ''/Users/user/projects'')]),
      (''linux'', JObj [(''platform'', JStr ''linux''), (''shell'', JStr ''bash''),
         (''os_version'', JStr ''Linux 6.5.0-generic''),
         (''working_dir'', JStr ''/home/user/projects'')]),
      (''win32'', JObj [(''platform'', JStr ''win32''),
         (''shell'', JStr (''bash (use Unix shell syntax, not Windows '' @
            [CHR 0xE2, CHR 0x80, CHR 0x94] @
            '' e.g., /dev/null not NUL, forward slashes in paths)'')),
         (''os_version'', JStr ''Windows 10 Pro 10.0.19045''),
         (''working_dir'', JStr ''/c/Users/user/projects'')])]"

definition process_json :: "int \<Rightarrow> json" where
  "process_json mem =
     (let range = (\<lambda>a b. JArr [json_of_i64 a, json_of_i64 b])
      in JObj [(''constrained_memory'', json_of_i64 mem),
               (''rss_range'', range 300000000 500000000),
               (''heap_total_range'', range 100000000 200000000),
               (''heap_used_range'', range 40000000 80000000),
               (''external_range'', range 1000000 3000000),
               (''array_buffers_range'', range 10000 50000)])"

definition hex_digit :: "nat \<Rightarrow> char" where
  "hex_digit n = ''0123456789abcdef'' ! (n mod 16)"

definition hex_encode :: "nat list \<Rightarrow> string" where
  "hex_encode bytes = concat (map (\<lambda>b. [hex_digit (b div 16), hex_digit b]) bytes)"

definition generate_device_id :: "nat list \<Rightarrow> string" where
  "generate_device_id bytes = hex_encode bytes"

text \<open>
  \<open>bytes\<close> are the 32 random bytes, \<open>pick\<close> the drawn preset index; both \<open>expect\<close> calls are
  written as panics.
\<close>

definition generate_canonical_identity ::
  "nat list \<Rightarrow> nat \<Rightarrow> (string \<times> json \<times> json \<times> json) outcome" where
  "generate_canonical_identity bytes pick =
     (if length env_presets \<le> pick then Panic
      else
        (let preset = env_presets ! pick
         in outcome_bind (unwrap (map_of prompt_presets (env_platform preset)))
              (\<lambda>prompt. Done (generate_device_id bytes, env_to_value preset, prompt,
                              process_json 0))))"

section \<open>What a stored environment is read as\<close>

text \<open>
  The specification of reading an environment: the fields kept from the stored document, when the
  document is well typed, and the environment it then stands for.
\<close>

definition platform_shell :: "string \<Rightarrow> string" where
  "platform_shell p =
     (if p = ''darwin'' then ''zsh'' else if p = ''linux'' \<or> p = ''win32'' then ''bash'' else [])"

definition env_kept_strings :: "string list" where
  "env_kept_strings =
     [''platform'', ''platform_raw'', ''arch'', ''terminal'', ''package_managers'',
      ''deployment_environment'', ''vcs'']"

definition env_kept_bools :: "string list" where
  "env_kept_bools =
     [''is_ci'', ''is_claubbit'', ''is_claude_code_remote'', ''is_local_agent_mode'',
      ''is_conductor'', ''is_github_action'', ''is_claude_code_action'', ''is_claude_ai_auth'']"

definition env_well_typed :: "json \<Rightarrow> bool" where
  "env_well_typed v \<longleftrightarrow>
     list_all (\<lambda>k. string_field v k \<noteq> None) env_kept_strings \<and>
     (string_field v ''shell'' \<noteq> None \<or> platform_shell (the (string_field v ''platform'')) \<noteq> []) \<and>
     list_all (\<lambda>k. bool_field v k \<noteq> None) env_kept_bools"

definition current_env :: "json \<Rightarrow> canonical_env" where
  "current_env v =
     (let s = (\<lambda>k. case string_field v k of None \<Rightarrow> [] | Some x \<Rightarrow> x);
          b = (\<lambda>k. bool_field v k = Some True)
      in \<lparr>env_platform = s ''platform'', env_platform_raw = s ''platform_raw'',
          env_arch = s ''arch'', env_node_version = CLAUDE_CODE_RUNTIME_VERSION,
          env_terminal = s ''terminal'',
          env_shell = (if s ''shell'' = [] then platform_shell (s ''platform'') else s ''shell''),
          env_package_managers = s ''package_managers'', env_runtimes = ''node'',
          env_is_running_with_bun = True, env_is_ci = b ''is_ci'',
          env_is_claubbit = b ''is_claubbit'',
          env_is_claude_code_remote = b ''is_claude_code_remote'',
          env_is_local_agent_mode = b ''is_local_agent_mode'',
          env_is_conductor = b ''is_conductor'', env_is_github_action = b ''is_github_action'',
          env_is_claude_code_action = b ''is_claude_code_action'',
          env_is_claude_ai_auth = b ''is_claude_ai_auth'', env_version = CLAUDE_CODE_VERSION,
          env_version_base = CLAUDE_CODE_VERSION, env_build_time = CLAUDE_CODE_BUILD_TIME,
          env_deployment_environment = s ''deployment_environment'', env_vcs = s ''vcs''\<rparr>)"

definition refresh_release :: "canonical_env \<Rightarrow> canonical_env" where
  "refresh_release e = e\<lparr>
     env_node_version := CLAUDE_CODE_RUNTIME_VERSION, env_runtimes := ''node'',
     env_shell := (if env_shell e = [] then platform_shell (env_platform e) else env_shell e),
     env_is_running_with_bun := True, env_version := CLAUDE_CODE_VERSION,
     env_version_base := CLAUDE_CODE_VERSION, env_build_time := CLAUDE_CODE_BUILD_TIME\<rparr>"

lemma account_status_roundtrip [simp]: "account_status_from (account_status_to_string s) = s"
  by (cases s) (simp_all add: account_status_from_def)

lemma billing_mode_roundtrip [simp]: "billing_mode_from (billing_mode_to_string b) = b"
  by (cases b) (simp_all add: billing_mode_from_def)

lemma auth_type_roundtrip [simp]: "auth_type_from (auth_type_to_string t) = t"
  by (cases t) (simp_all add: auth_type_from_def)

lemma token_status_roundtrip [simp]: "token_status_from (token_status_to_string s) = s"
  by (cases s) (simp_all add: token_status_from_def)

lemma parse_id_list_eq:
  "parse_id_list s = List.map_filter (\<lambda>i. parse_i64 (trim i)) (split_by (\<lambda>c. c = CHR '','') s)"
  by (simp add: parse_id_list_def List.map_filter_def)

lemma parse_id_list_append: "parse_id_list (a @ '','' @ b) = parse_id_list a @ parse_id_list b"
  by (simp add: parse_id_list_eq split_by_append)

lemma parse_id_list_range: "x \<in> set (parse_id_list s) \<Longrightarrow> i64_range x"
  by (auto simp: parse_id_list_eq List.map_filter_def dest: parse_i64_range)

lemma jget_normalize:
  "jget (normalize_canonical_env_json v) k =
     (if k \<in> {''version'', ''version_base''} then Some (JStr CLAUDE_CODE_VERSION)
      else if k = ''build_time'' then Some (JStr CLAUDE_CODE_BUILD_TIME)
      else if k = ''node_version'' then Some (JStr CLAUDE_CODE_RUNTIME_VERSION)
      else if k = ''runtimes'' then Some (JStr ''node'')
      else if k = ''is_running_with_bun'' then Some (JBool True)
      else if k = ''shell'' \<and> (\<exists>p. Option.bind (jget v ''platform'') as_str = Some p \<and> platform_shell p \<noteq> [])
              \<and> (\<forall>s. Option.bind (jget v ''shell'') as_str = Some s \<longrightarrow> s = [])
      then Some (JStr (platform_shell (the (Option.bind (jget v ''platform'') as_str))))
      else jget v k)"
proof -
  have obj: "jget v k = map_of (case as_object v of None \<Rightarrow> [] | Some m \<Rightarrow> m) k" for k
    by (cases v) auto
  show ?thesis
    unfolding normalize_canonical_env_json_def Let_def obj
    by (cases "Option.bind (map_of (case as_object v of None \<Rightarrow> [] | Some m \<Rightarrow> m) ''platform'') as_str";
        cases "Option.bind (map_of (case as_object v of None \<Rightarrow> [] | Some m \<Rightarrow> m) ''shell'') as_str")
       (auto simp: map_lookup platform_shell_def)
qed

lemma as_object_normalize [simp]: "as_object (normalize_canonical_env_json v) \<noteq> None"
  by (simp add: normalize_canonical_env_json_def Let_def)

lemma platform_shell_Nil [simp]: "platform_shell [] = []"
  by (simp add: platform_shell_def)

lemma normalize_idempotent:
  "normalize_canonical_env_json (normalize_canonical_env_json v) = normalize_canonical_env_json v"
proof -
  let ?n = "normalize_canonical_env_json v"
  obtain m where m: "?n = JObj m"
    using as_object_normalize [of v] as_object_Some_iff by blast
  have get: "map_of m k = jget ?n k" for k
    by (simp add: m)
  have keys: "map_of m ''version'' = Some (JStr CLAUDE_CODE_VERSION)"
    "map_of m ''version_base'' = Some (JStr CLAUDE_CODE_VERSION)"
    "map_of m ''build_time'' = Some (JStr CLAUDE_CODE_BUILD_TIME)"
    "map_of m ''node_version'' = Some (JStr CLAUDE_CODE_RUNTIME_VERSION)"
    "map_of m ''runtimes'' = Some (JStr ''node'')"
    "map_of m ''is_running_with_bun'' = Some (JBool True)"
    unfolding get by (simp_all add: jget_normalize)
  have plat: "map_of m ''platform'' = jget v ''platform''"
    unfolding get by (simp add: jget_normalize)
  have sh: "(case Option.bind (map_of m ''shell'') as_str of None \<Rightarrow> False | Some x \<Rightarrow> x \<noteq> [])"
    if "Option.bind (jget v ''platform'') as_str = Some p" "platform_shell p \<noteq> []" for p
    unfolding get using that
    by (cases "Option.bind (jget v ''shell'') as_str") (auto simp: jget_normalize)
  have kept: "normalize_canonical_env_json (JObj m) =
    (let platform = Option.bind (map_of m ''platform'') as_str;
         shell = (if platform = Some ''darwin'' then ''zsh''
                  else if platform = Some ''linux'' \<or> platform = Some ''win32'' then ''bash'' else '''')
     in if shell \<noteq> [] \<and>
           \<not> (case Option.bind (map_of m ''shell'') as_str of None \<Rightarrow> False | Some v \<Rightarrow> v \<noteq> [])
        then JObj (AList.update ''shell'' (JStr shell) m) else JObj m)"
    by (simp only: normalize_canonical_env_json_def as_object.simps option.case Let_def
        alist_update_same [OF keys(1)] alist_update_same [OF keys(2)] alist_update_same [OF keys(3)]
        alist_update_same [OF keys(4)] alist_update_same [OF keys(5)] alist_update_same [OF keys(6)])
  show ?thesis
  proof (cases "\<exists>p. Option.bind (jget v ''platform'') as_str = Some p \<and> platform_shell p \<noteq> []")
    case True
    then show ?thesis
      using sh unfolding m kept Let_def by auto
  next
    case False
    then have "Option.bind (jget v ''platform'') as_str \<notin> {Some ''darwin'', Some ''linux'', Some ''win32''}"
      by (auto simp: platform_shell_def)
    then show ?thesis
      unfolding m kept plat Let_def by simp
  qed
qed

lemma normalize_release_fields [simp]:
  "string_field (normalize_canonical_env_json v) ''version'' = Some CLAUDE_CODE_VERSION"
  "string_field (normalize_canonical_env_json v) ''version_base'' = Some CLAUDE_CODE_VERSION"
  "string_field (normalize_canonical_env_json v) ''build_time'' = Some CLAUDE_CODE_BUILD_TIME"
  "string_field (normalize_canonical_env_json v) ''node_version'' = Some CLAUDE_CODE_RUNTIME_VERSION"
  "string_field (normalize_canonical_env_json v) ''runtimes'' = Some ''node''"
  "bool_field (normalize_canonical_env_json v) ''is_running_with_bun'' = Some True"
  by (simp_all add: string_field_def bool_field_def jget_normalize)

lemma normalize_shell [simp]:
  "string_field v ''platform'' = Some p \<Longrightarrow>
   string_field (normalize_canonical_env_json v) ''shell'' =
     (if platform_shell p \<noteq> [] \<and> string_field v ''shell'' \<in> {None, Some []}
      then Some (platform_shell p) else string_field v ''shell'')"
  by (cases "jget v ''platform''"; cases "jget v ''shell''")
     (auto simp: string_field_def jget_normalize)

lemma normalize_kept_fields:
  assumes "k \<in> set env_kept_strings \<union> set env_kept_bools"
  shows "jget (normalize_canonical_env_json v) k = jget v k"
proof -
  have "k \<notin> {''version'', ''version_base'', ''build_time'', ''node_version'', ''runtimes'',
              ''is_running_with_bun'', ''shell''}"
    using assms by (auto simp: env_kept_strings_def env_kept_bools_def)
  then show ?thesis by (simp add: jget_normalize)
qed

lemma normalize_kept_string [simp]:
  "k \<in> set env_kept_strings \<Longrightarrow> string_field (normalize_canonical_env_json v) k = string_field v k"
  by (simp add: string_field_def normalize_kept_fields)

lemma normalize_kept_bool [simp]:
  "k \<in> set env_kept_bools \<Longrightarrow> bool_field (normalize_canonical_env_json v) k = bool_field v k"
  by (simp add: bool_field_def normalize_kept_fields)

lemma env_string_keys_kept:
  "list_all P env_string_keys \<longleftrightarrow> list_all P env_kept_strings \<and> P ''shell'' \<and>
     list_all P [''version'', ''version_base'', ''build_time'', ''node_version'', ''runtimes'']"
  unfolding env_string_keys_def env_kept_strings_def list.pred_inject by blast

lemma env_bool_keys_kept:
  "list_all P env_bool_keys \<longleftrightarrow> P ''is_running_with_bun'' \<and> list_all P env_kept_bools"
  unfolding env_bool_keys_def env_kept_bools_def list.pred_inject by blast

lemma kept_string_cong:
  "list_all (\<lambda>k. P (string_field (normalize_canonical_env_json v) k)) env_kept_strings
   \<longleftrightarrow> list_all (\<lambda>k. P (string_field v k)) env_kept_strings"
  by (simp add: list_all_iff)

lemma kept_bool_cong:
  "list_all (\<lambda>k. P (bool_field (normalize_canonical_env_json v) k)) env_kept_bools
   \<longleftrightarrow> list_all (\<lambda>k. P (bool_field v k)) env_kept_bools"
  by (simp add: list_all_iff)

lemma normalized_well_typed:
  "list_all (\<lambda>k. string_field (normalize_canonical_env_json v) k \<noteq> None) env_string_keys \<and>
   list_all (\<lambda>k. bool_field (normalize_canonical_env_json v) k \<noteq> None) env_bool_keys
   \<longleftrightarrow> env_well_typed v"
proof (cases "string_field v ''platform''")
  case None
  then have "\<not> list_all (\<lambda>k. string_field v k \<noteq> None) env_kept_strings"
    by (simp add: env_kept_strings_def)
  then show ?thesis
    by (simp only: env_string_keys_kept kept_string_cong [where P = "\<lambda>x. x \<noteq> None"] env_well_typed_def) simp
next
  case (Some p)
  then show ?thesis
    by (simp add: env_string_keys_kept env_bool_keys_kept kept_string_cong [where P = "\<lambda>x. x \<noteq> None", simplified]
        kept_bool_cong [where P = "\<lambda>x. x \<noteq> None", simplified] env_well_typed_def) auto
qed

lemma env_from_normalized:
  assumes wt: "env_well_typed v"
  shows "env_from_value (normalize_canonical_env_json v) = Some (current_env v)"
proof -
  let ?n = "normalize_canonical_env_json v"
  have str: "the (string_field ?n k) = (case string_field v k of None \<Rightarrow> [] | Some x \<Rightarrow> x)"
    if "k \<in> set env_kept_strings" for k
    using that wt by (auto simp: env_well_typed_def list_all_iff)
  have bool: "the (bool_field ?n k) = (bool_field v k = Some True)"
    if "k \<in> set env_kept_bools" for k
    using that wt by (fastforce simp: env_well_typed_def list_all_iff)
  obtain p where p: "string_field v ''platform'' = Some p"
    using wt by (auto simp: env_well_typed_def env_kept_strings_def)
  have shell: "the (string_field ?n ''shell'') =
      (let s = (case string_field v ''shell'' of None \<Rightarrow> [] | Some x \<Rightarrow> x)
       in if s = [] then platform_shell p else s)"
    using wt p by (auto simp: env_well_typed_def)
  have "env_from_value ?n \<noteq> None"
    using wt by (simp add: env_from_value_def normalized_well_typed del: not_None_eq)
  then show ?thesis
    unfolding env_from_value_def current_env_def Let_def
    by (simp add: str bool shell p Let_def env_kept_strings_def env_kept_bools_def
        del: normalize_kept_string normalize_kept_bool normalize_shell split: if_splits)
qed

lemma parse_canonical_env_eq:
  "parse_canonical_env v = (if env_well_typed v then current_env v else default_env)"
proof (cases "env_well_typed v")
  case True
  then show ?thesis by (simp add: parse_canonical_env_def env_from_normalized)
next
  case False
  then have "env_from_value (normalize_canonical_env_json v) = None"
    by (simp add: env_from_value_def flip: normalized_well_typed)
  with False show ?thesis by (simp add: parse_canonical_env_def)
qed

lemma env_to_value_fields:
  "jget (env_to_value e) k = map_of (env_fields_json e) k"
  by (simp add: env_to_value_def)

lemma env_to_value_well_typed: "env_well_typed (env_to_value e)"
  by (simp add: env_well_typed_def env_kept_strings_def env_kept_bools_def string_field_def
      bool_field_def env_to_value_fields env_fields_json_def)

lemma parse_env_to_value: "parse_canonical_env (env_to_value e) = refresh_release e"
  by (simp add: parse_canonical_env_eq env_to_value_well_typed current_env_def refresh_release_def
      string_field_def bool_field_def env_to_value_fields env_fields_json_def Let_def)

lemma refresh_release_preset:
  "p \<in> set env_presets \<Longrightarrow> refresh_release p = p"
  by (auto simp: env_presets_def Let_def dp_def dx_def lp_def wp_def refresh_release_def
      platform_preset_def default_env_def)

lemma preset_platform:
  "p \<in> set env_presets \<Longrightarrow> env_platform p \<in> {''darwin'', ''linux'', ''win32''}"
  by (auto simp: env_presets_def Let_def dp_def dx_def lp_def wp_def platform_preset_def)

lemma length_env_presets [simp]: "length env_presets = 22"
  by (simp add: env_presets_def Let_def)

lemma length_hex_encode [simp]: "length (hex_encode bs) = 2 * length bs"
  by (induction bs) (simp_all add: hex_encode_def)

lemma prompt_preset_exists:
  "pf \<in> {''darwin'', ''linux'', ''win32''} \<Longrightarrow>
   \<exists>prompt. map_of prompt_presets pf = Some prompt \<and> Option.bind (jget prompt ''platform'') as_str = Some pf"
  by (auto simp: prompt_presets_def)

section \<open>Properties\<close>

text \<open>
  The release an account presents upstream. Reading the stored environment of an account
  yields the current client release together with the account's own platform, terminal and flags
  (and the platform's shell when none is stored) whenever every stored field has its expected JSON
  type; one field of another type makes the whole environment the default one, whose
  version is empty.
\<close>

theorem parse_canonical_env_spec:
  "parse_canonical_env v = (if env_well_typed v then current_env v else default_env) \<and>
   env_version (current_env v) = CLAUDE_CODE_VERSION \<and> env_version default_env = []"
  by (simp add: parse_canonical_env_eq current_env_def default_env_def Let_def)

text \<open>
  A fresh identity. Whatever preset is drawn, generating an identity does not panic; the
  device id is the 64 hexadecimal digits of the 32 random bytes, the prompt environment is for the
  same platform as the client environment, and reading the stored environment back gives exactly
  the drawn preset.
\<close>

theorem generated_identity_consistent:
  assumes "pick < 22" "length bytes = 32"
  shows "\<exists>env prompt process.
    generate_canonical_identity bytes pick = Done (generate_device_id bytes, env, prompt, process) \<and>
    length (generate_device_id bytes) = 64 \<and>
    parse_canonical_env env = env_presets ! pick \<and>
    Option.bind (jget prompt ''platform'') as_str = Some (env_platform (env_presets ! pick))"
proof -
  have mem: "env_presets ! pick \<in> set env_presets"
    using assms by simp
  obtain prompt where "map_of prompt_presets (env_platform (env_presets ! pick)) = Some prompt"
    "Option.bind (jget prompt ''platform'') as_str = Some (env_platform (env_presets ! pick))"
    using prompt_preset_exists [OF preset_platform [OF mem]] by blast
  then show ?thesis
    using assms mem
    by (simp add: generate_canonical_identity_def Let_def generate_device_id_def
        parse_env_to_value refresh_release_preset)
qed

theorem generated_identity_consistent_witness:
  "\<exists>env prompt process.
    generate_canonical_identity (replicate 32 7) 12 =
      Done (generate_device_id (replicate 32 7), env, prompt, process) \<and>
    length (generate_device_id (replicate 32 7)) = 64 \<and>
    parse_canonical_env env = env_presets ! 12 \<and>
    Option.bind (jget prompt ''platform'') as_str = Some (env_platform (env_presets ! 12))"
  by (rule generated_identity_consistent) simp_all

end
