(* ===== verification/Cache.thy ===== *)
theory Cache
  imports Account_Model "HOL-Library.Multiset"
begin

text \<open>
  The cache behind the gateway (\<open>src/store/cache.rs\<close>, \<open>src/store/memory.rs\<close>) and the guard that
  owns a concurrency slot (\<open>SlotHolder\<close> and \<open>SlotHeldStream\<close> of \<open>src/service/gateway.rs\<close>).

  The trait \<open>CacheStore\<close> is the record \<open>cache_ops\<close> of its operations over a state type, so that
  a client takes any implementation, as the code takes an \<open>Arc<dyn CacheStore>\<close>;
  \<open>memory_cache\<close> is the in-memory implementation. Instants and durations are nanoseconds. Each
  operation holds its mutex from start to end and is one atomic step.

  The locales state what a client may rely on: \<open>slot_contract\<close> (counting), \<open>lock_contract\<close> (an
  owned lock with expiry), \<open>session_contract\<close> (the sticky binding) and \<open>cache_contract\<close>, which
  joins them with the independence of the three parts. The in-memory store interprets
  \<open>cache_contract\<close>.
\<close>

section \<open>The trait\<close>

record 'c cache_ops =
  co_get_session_account_id :: "int \<Rightarrow> string \<Rightarrow> 'c \<Rightarrow> (app_error + int option) \<times> 'c"
  co_set_session_account_id :: "int \<Rightarrow> string \<Rightarrow> int \<Rightarrow> int \<Rightarrow> 'c \<Rightarrow> (app_error + unit) \<times> 'c"
  co_delete_session :: "int \<Rightarrow> string \<Rightarrow> 'c \<Rightarrow> (app_error + unit) \<times> 'c"
  co_acquire_slot :: "int \<Rightarrow> string \<Rightarrow> int \<Rightarrow> int \<Rightarrow> 'c \<Rightarrow> (app_error + bool) \<times> 'c"
  co_release_slot :: "int \<Rightarrow> string \<Rightarrow> 'c \<Rightarrow> 'c"
  co_acquire_lock :: "int \<Rightarrow> string \<Rightarrow> string \<Rightarrow> int \<Rightarrow> 'c \<Rightarrow> (app_error + bool) \<times> 'c"
  co_release_lock :: "int \<Rightarrow> string \<Rightarrow> string \<Rightarrow> 'c \<Rightarrow> 'c"

section \<open>The in-memory store\<close>

record session_entry =
  se_account_id :: int
  se_expires_at :: int

record lock_entry =
  le_owner :: string
  le_expires_at :: int

record memory_store =
  ms_sessions :: "(string, session_entry) hash_map"
  ms_slots :: "(string, int) hash_map"
  ms_locks :: "(string, lock_entry) hash_map"

definition memory_store_new :: memory_store where
  "memory_store_new = \<lparr>ms_sessions = [], ms_slots = [], ms_locks = []\<rparr>"

definition session_key :: "string \<Rightarrow> string" where
  "session_key session_hash = ''session:'' @ session_hash"

definition mem_get_session_account_id ::
  "int \<Rightarrow> string \<Rightarrow> memory_store \<Rightarrow> (app_error + int option) \<times> memory_store" where
  "mem_get_session_account_id now session_hash s =
     (let key = session_key session_hash
      in case map_of (ms_sessions s) key of
           Some entry \<Rightarrow>
             if now > se_expires_at entry
             then (Inr None, s\<lparr>ms_sessions := AList.delete key (ms_sessions s)\<rparr>)
             else (Inr (Some (se_account_id entry)), s)
         | None \<Rightarrow> (Inr None, s))"

definition mem_set_session_account_id ::
  "int \<Rightarrow> string \<Rightarrow> int \<Rightarrow> int \<Rightarrow> memory_store \<Rightarrow> (app_error + unit) \<times> memory_store" where
  "mem_set_session_account_id now session_hash account_id ttl s =
     (Inr (), s\<lparr>ms_sessions :=
        AList.update (session_key session_hash)
          \<lparr>se_account_id = account_id, se_expires_at = now + ttl\<rparr> (ms_sessions s)\<rparr>)"

definition mem_delete_session ::
  "int \<Rightarrow> string \<Rightarrow> memory_store \<Rightarrow> (app_error + unit) \<times> memory_store" where
  "mem_delete_session now session_hash s =
     (Inr (), s\<lparr>ms_sessions := AList.delete (session_key session_hash) (ms_sessions s)\<rparr>)"

definition mem_acquire_slot ::
  "int \<Rightarrow> string \<Rightarrow> int \<Rightarrow> int \<Rightarrow> memory_store \<Rightarrow> (app_error + bool) \<times> memory_store" where
  "mem_acquire_slot now key mx ttl s =
     (let slots = hm_or_insert key 0 (ms_slots s);
          val = (case map_of slots key of None \<Rightarrow> 0 | Some v \<Rightarrow> v) + 1
      in if val > mx
         then (Inr False, s\<lparr>ms_slots := AList.update key (val - 1) slots\<rparr>)
         else (Inr True, s\<lparr>ms_slots := AList.update key val slots\<rparr>))"

definition mem_release_slot :: "int \<Rightarrow> string \<Rightarrow> memory_store \<Rightarrow> memory_store" where
  "mem_release_slot now key s =
     (case map_of (ms_slots s) key of
        Some val \<Rightarrow> if val > 0 then s\<lparr>ms_slots := AList.update key (val - 1) (ms_slots s)\<rparr> else s
      | None \<Rightarrow> s)"

definition mem_acquire_lock ::
  "int \<Rightarrow> string \<Rightarrow> string \<Rightarrow> int \<Rightarrow> memory_store \<Rightarrow> (app_error + bool) \<times> memory_store" where
  "mem_acquire_lock now key owner ttl s =
     (let fresh = s\<lparr>ms_locks := AList.update key
                     \<lparr>le_owner = owner, le_expires_at = now + ttl\<rparr> (ms_locks s)\<rparr>
      in case map_of (ms_locks s) key of
           Some existing \<Rightarrow>
             if now \<le> le_expires_at existing then (Inr False, s) else (Inr True, fresh)
         | None \<Rightarrow> (Inr True, fresh))"

definition mem_release_lock :: "int \<Rightarrow> string \<Rightarrow> string \<Rightarrow> memory_store \<Rightarrow> memory_store" where
  "mem_release_lock now key owner s =
     (case map_of (ms_locks s) key of
        Some existing \<Rightarrow>
          if le_owner existing = owner then s\<lparr>ms_locks := AList.delete key (ms_locks s)\<rparr> else s
      | None \<Rightarrow> s)"

definition memory_cache :: "memory_store cache_ops" where
  "memory_cache =
     \<lparr>co_get_session_account_id = mem_get_session_account_id,
      co_set_session_account_id = mem_set_session_account_id,
      co_delete_session = mem_delete_session,
      co_acquire_slot = mem_acquire_slot,
      co_release_slot = mem_release_slot,
      co_acquire_lock = mem_acquire_lock,
      co_release_lock = mem_release_lock\<rparr>"

section \<open>The slot guard\<close>

record slot_holder =
  sh_key :: string
  sh_released :: bool

definition slot_holder_new :: "string \<Rightarrow> slot_holder" where
  "slot_holder_new key = \<lparr>sh_key = key, sh_released = False\<rparr>"

text \<open>
  Dropping a holder: the key whose release is spawned as a task, if one is. Without a current
  runtime nothing is spawned.
\<close>

definition slot_holder_drop :: "bool \<Rightarrow> slot_holder \<Rightarrow> string option" where
  "slot_holder_drop has_runtime h =
     (if sh_released h then None else if has_runtime then Some (sh_key h) else None)"

text \<open>\<open>disarm\<close> consumes the holder: it is marked released and dropped.\<close>

definition slot_holder_disarm :: "bool \<Rightarrow> slot_holder \<Rightarrow> string option" where
  "slot_holder_disarm has_runtime h = slot_holder_drop has_runtime (h\<lparr>sh_released := True\<rparr>)"

text \<open>
  The life of the slots. A state holds the cache, the holders alive (in a handler or in a response
  body stream), the spawned release tasks that have not run, and the keys of holders that went
  without spawning one. Acquiring a slot and wrapping it in a holder is one step, since a handler
  has no other way out between the two; what the acquisition answers is a label of the step.
\<close>

record 'c slot_system =
  sys_cache :: 'c
  sys_live :: "slot_holder multiset"
  sys_pending :: "string multiset"
  sys_leaked :: "string multiset"

definition slot_system_new :: "'c \<Rightarrow> 'c slot_system" where
  "slot_system_new s = \<lparr>sys_cache = s, sys_live = {#}, sys_pending = {#}, sys_leaked = {#}\<rparr>"

inductive slot_step :: "'c cache_ops \<Rightarrow> 'c slot_system \<Rightarrow> 'c slot_system \<Rightarrow> bool" for ops where
  admit: "co_acquire_slot ops now key mx ttl (sys_cache s) = (Inr True, c) \<Longrightarrow>
     slot_step ops s (s\<lparr>sys_cache := c, sys_live := add_mset (slot_holder_new key) (sys_live s)\<rparr>)"
| refuse: "co_acquire_slot ops now key mx ttl (sys_cache s) = (Inr False, c) \<Longrightarrow>
     slot_step ops s (s\<lparr>sys_cache := c\<rparr>)"
| acquire_error: "co_acquire_slot ops now key mx ttl (sys_cache s) = (Inl e, c) \<Longrightarrow>
     slot_step ops s (s\<lparr>sys_cache := c\<rparr>)"
| drop_spawns: "h \<in># sys_live s \<Longrightarrow> slot_holder_drop has_runtime h = Some key \<Longrightarrow>
     slot_step ops s (s\<lparr>sys_live := sys_live s - {#h#}, sys_pending := add_mset key (sys_pending s)\<rparr>)"
| drop_leaks: "h \<in># sys_live s \<Longrightarrow> slot_holder_drop has_runtime h = None \<Longrightarrow>
     slot_step ops s (s\<lparr>sys_live := sys_live s - {#h#}, sys_leaked := add_mset (sh_key h) (sys_leaked s)\<rparr>)"
| release_runs: "key \<in># sys_pending s \<Longrightarrow>
     slot_step ops s (s\<lparr>sys_cache := co_release_slot ops now key (sys_cache s),
                       sys_pending := sys_pending s - {#key#}\<rparr>)"

definition slot_reachable :: "'c cache_ops \<Rightarrow> 'c \<Rightarrow> 'c slot_system \<Rightarrow> bool" where
  "slot_reachable ops c s \<longleftrightarrow> (slot_step ops)\<^sup>*\<^sup>* (slot_system_new c) s"

text \<open>The slots of a key that are taken: by a holder, by a release still to run, or for good.\<close>

definition slots_taken :: "'c slot_system \<Rightarrow> string \<Rightarrow> nat" where
  "slots_taken s k =
     count (image_mset sh_key (sys_live s)) k + count (sys_pending s) k + count (sys_leaked s) k"

text \<open>
  One call on the cache, with the instant it is made at, and a sequence of calls: the answers of
  the fallible calls that return a flag, in order, and the final state.
\<close>

datatype cache_call =
    GetSession int string
  | SetSession int string int int
  | DeleteSession int string
  | AcquireSlot int string int int
  | ReleaseSlot int string
  | AcquireLock int string string int
  | ReleaseLock int string string

primrec call_time :: "cache_call \<Rightarrow> int" where
  "call_time (GetSession t _) = t"
| "call_time (SetSession t _ _ _) = t"
| "call_time (DeleteSession t _) = t"
| "call_time (AcquireSlot t _ _ _) = t"
| "call_time (ReleaseSlot t _) = t"
| "call_time (AcquireLock t _ _ _) = t"
| "call_time (ReleaseLock t _ _) = t"

primrec cache_exec :: "'c cache_ops \<Rightarrow> cache_call \<Rightarrow> 'c \<Rightarrow> 'c" where
  "cache_exec ops (GetSession t h) c = snd (co_get_session_account_id ops t h c)"
| "cache_exec ops (SetSession t h a ttl) c = snd (co_set_session_account_id ops t h a ttl c)"
| "cache_exec ops (DeleteSession t h) c = snd (co_delete_session ops t h c)"
| "cache_exec ops (AcquireSlot t k mx ttl) c = snd (co_acquire_slot ops t k mx ttl c)"
| "cache_exec ops (ReleaseSlot t k) c = co_release_slot ops t k c"
| "cache_exec ops (AcquireLock t k u ttl) c = snd (co_acquire_lock ops t k u ttl c)"
| "cache_exec ops (ReleaseLock t k u) c = co_release_lock ops t k u c"

definition cache_run :: "'c cache_ops \<Rightarrow> cache_call list \<Rightarrow> 'c \<Rightarrow> 'c" where
  "cache_run ops calls c = fold (cache_exec ops) calls c"

text \<open>Calls that a lock with its owner, or a sticky binding, cannot survive.\<close>

definition unlocks :: "string \<Rightarrow> string \<Rightarrow> cache_call \<Rightarrow> bool" where
  "unlocks k u call = (case call of ReleaseLock _ k' u' \<Rightarrow> k' = k \<and> u' = u | _ \<Rightarrow> False)"

definition rebinds :: "string \<Rightarrow> cache_call \<Rightarrow> bool" where
  "rebinds h call =
     (case call of SetSession _ h' _ _ \<Rightarrow> h' = h | DeleteSession _ h' \<Rightarrow> h' = h | _ \<Rightarrow> False)"

section \<open>The contracts\<close>

locale slot_contract =
  fixes ops :: "'c cache_ops" and slot_count :: "'c \<Rightarrow> string \<Rightarrow> int"
  assumes slot_admit: "co_acquire_slot ops now k mx ttl c = (Inr True, c') \<Longrightarrow>
      slot_count c k < mx \<and> slot_count c' = (slot_count c)(k := slot_count c k + 1)"
    and slot_refuse: "co_acquire_slot ops now k mx ttl c = (Inr False, c') \<Longrightarrow>
      mx \<le> slot_count c k \<and> slot_count c' = slot_count c"
    and slot_error: "co_acquire_slot ops now k mx ttl c = (Inl e, c') \<Longrightarrow>
      slot_count c' = slot_count c"
    and slot_release: "slot_count (co_release_slot ops now k c) =
      (if 0 < slot_count c k then (slot_count c)(k := slot_count c k - 1) else slot_count c)"
begin

lemma slot_step_accounts:
  assumes "slot_step ops s s'" "\<forall>k. slot_count (sys_cache s) k = int (slots_taken s k)"
  shows "\<forall>k. slot_count (sys_cache s') k = int (slots_taken s' k)"
  using assms
proof (cases rule: slot_step.cases)
  case (release_runs key now)
  have pos: "0 < count (sys_pending s) key"
    using release_runs by simp
  then have "0 < slots_taken s key"
    by (simp add: slots_taken_def)
  then show ?thesis
    using release_runs assms(2) pos by (auto simp: slot_release slots_taken_def)
next
  case (drop_spawns h has_runtime key)
  then have key: "sh_key h = key"
    by (auto simp: slot_holder_drop_def split: if_splits)
  have "image_mset sh_key (sys_live s) = add_mset key (image_mset sh_key (sys_live s - {#h#}))"
    using drop_spawns key by (metis insert_DiffM msed_map_invL image_mset_add_mset)
  then show ?thesis
    using drop_spawns assms(2) by (auto simp: slots_taken_def)
next
  case (drop_leaks h has_runtime)
  have "image_mset sh_key (sys_live s) =
      add_mset (sh_key h) (image_mset sh_key (sys_live s - {#h#}))"
    using drop_leaks by (metis insert_DiffM image_mset_add_mset)
  then show ?thesis
    using drop_leaks assms(2) by (auto simp: slots_taken_def)
qed (auto simp: slots_taken_def slot_holder_new_def dest!: slot_admit slot_refuse slot_error)

lemma reachable_accounts:
  assumes "slot_reachable ops c s" "\<forall>k. slot_count c k = 0"
  shows "slot_count (sys_cache s) k = int (slots_taken s k)"
proof -
  have "(slot_step ops)\<^sup>*\<^sup>* (slot_system_new c) s"
    using assms(1) by (simp add: slot_reachable_def)
  then have "\<forall>k. slot_count (sys_cache s) k = int (slots_taken s k)"
    by induction (use assms(2) slot_step_accounts in
        \<open>auto simp: slots_taken_def slot_system_new_def\<close>)
  then show ?thesis by blast
qed

end

locale lock_contract =
  fixes ops :: "'c cache_ops" and lock_state :: "'c \<Rightarrow> string \<Rightarrow> (string \<times> int) option"
  assumes lock_admit: "co_acquire_lock ops now k u ttl c = (Inr True, c') \<Longrightarrow>
      (\<forall>v e. lock_state c k = Some (v, e) \<longrightarrow> e < now) \<and>
      lock_state c' = (lock_state c)(k \<mapsto> (u, now + ttl))"
    and lock_refuse: "co_acquire_lock ops now k u ttl c = (Inr False, c') \<Longrightarrow>
      (\<exists>v e. lock_state c k = Some (v, e) \<and> now \<le> e) \<and> lock_state c' = lock_state c"
    and lock_error: "co_acquire_lock ops now k u ttl c = (Inl err, c') \<Longrightarrow>
      lock_state c' = lock_state c"
    and lock_release: "lock_state (co_release_lock ops now k u c) =
      (case lock_state c k of
         Some (v, e) \<Rightarrow> if v = u then (lock_state c)(k := None) else lock_state c
       | None \<Rightarrow> lock_state c)"
begin

lemma held_lock_refuses:
  assumes "lock_state c k = Some (v, e)" "now \<le> e"
  shows "fst (co_acquire_lock ops now k u ttl c) \<noteq> Inr True"
    and "lock_state (snd (co_acquire_lock ops now k u ttl c)) = lock_state c"
proof -
  obtain r c' where r: "co_acquire_lock ops now k u ttl c = (r, c')"
    by (cases "co_acquire_lock ops now k u ttl c")
  have "r \<noteq> Inr True"
    using lock_admit [of now k u ttl c c'] r assms by force
  moreover from this have "lock_state c' = lock_state c"
    using r lock_refuse lock_error by (cases r) auto
  ultimately show "fst (co_acquire_lock ops now k u ttl c) \<noteq> Inr True"
    "lock_state (snd (co_acquire_lock ops now k u ttl c)) = lock_state c"
    using r by simp_all
qed

lemma acquire_other_lock:
  assumes "k' \<noteq> k"
  shows "lock_state (snd (co_acquire_lock ops now k' u ttl c)) k = lock_state c k"
proof -
  obtain r c' where r: "co_acquire_lock ops now k' u ttl c = (r, c')"
    by (cases "co_acquire_lock ops now k' u ttl c")
  then consider (err) e where "r = Inl e" | (yes) "r = Inr True" | (no) "r = Inr False"
    by (cases r) auto
  then show ?thesis
    using r assms lock_admit lock_refuse lock_error by cases auto
qed

end

locale session_contract =
  fixes ops :: "'c cache_ops" and session_at :: "int \<Rightarrow> 'c \<Rightarrow> string \<Rightarrow> int option"
  assumes session_get: "co_get_session_account_id ops now h c = (Inr r, c') \<Longrightarrow>
      r = session_at now c h"
    and session_get_keeps: "now \<le> t \<Longrightarrow>
      session_at t (snd (co_get_session_account_id ops now h c)) = session_at t c"
    and session_set: "co_set_session_account_id ops now h a ttl c = (Inr (), c') \<Longrightarrow>
      session_at t c' = (session_at t c)(h := if t \<le> now + ttl then Some a else None)"
    and session_set_other: "h' \<noteq> h \<Longrightarrow>
      session_at t (snd (co_set_session_account_id ops now h a ttl c)) h' = session_at t c h'"
    and session_delete: "co_delete_session ops now h c = (Inr (), c') \<Longrightarrow>
      session_at t c' = (session_at t c)(h := None)"
    and session_delete_other: "h' \<noteq> h \<Longrightarrow>
      session_at t (snd (co_delete_session ops now h c)) h' = session_at t c h'"

locale cache_contract =
  slot_contract ops slot_count + lock_contract ops lock_state + session_contract ops session_at
  for ops :: "'c cache_ops" and slot_count lock_state session_at +
  assumes lock_frame:
      "lock_state (snd (co_get_session_account_id ops now h c)) = lock_state c"
      "lock_state (snd (co_set_session_account_id ops now h a ttl c)) = lock_state c"
      "lock_state (snd (co_delete_session ops now h c)) = lock_state c"
      "lock_state (snd (co_acquire_slot ops now k mx ttl c)) = lock_state c"
      "lock_state (co_release_slot ops now k c) = lock_state c"
    and session_frame:
      "session_at t (snd (co_acquire_slot ops now k mx ttl c)) = session_at t c"
      "session_at t (co_release_slot ops now k c) = session_at t c"
      "session_at t (snd (co_acquire_lock ops now k u ttl c)) = session_at t c"
      "session_at t (co_release_lock ops now k u c) = session_at t c"
    and slot_frame:
      "slot_count (snd (co_get_session_account_id ops now h c)) = slot_count c"
      "slot_count (snd (co_set_session_account_id ops now h a ttl c)) = slot_count c"
      "slot_count (snd (co_delete_session ops now h c)) = slot_count c"
      "slot_count (snd (co_acquire_lock ops now k u ttl c)) = slot_count c"
      "slot_count (co_release_lock ops now k u c) = slot_count c"
begin

lemma lock_survives_call:
  assumes "lock_state c k = Some (v, e)" "call_time call \<le> e" "\<not> unlocks k v call"
  shows "lock_state (cache_exec ops call c) k = Some (v, e)"
proof (cases call)
  case (AcquireLock t k' u ttl)
  then show ?thesis
    using assms held_lock_refuses(2) [of c k v e t u ttl] acquire_other_lock [of k' k t u ttl c]
    by (cases "k' = k") simp_all
next
  case (ReleaseLock t k' u)
  then show ?thesis
    using assms by (auto simp: lock_release unlocks_def split: option.split prod.split)
qed (use assms lock_frame in simp_all)

lemma lock_survives:
  assumes "lock_state c k = Some (v, e)"
    "\<forall>call \<in> set calls. call_time call \<le> e \<and> \<not> unlocks k v call"
  shows "lock_state (cache_run ops calls c) k = Some (v, e)"
  using assms unfolding cache_run_def
  by (induction calls arbitrary: c) (simp_all add: lock_survives_call)

lemma lock_excludes:
  assumes "co_acquire_lock ops now k v ttl c = (Inr True, c')"
    "\<forall>call \<in> set calls. call_time call \<le> now + ttl \<and> \<not> unlocks k v call" "t \<le> now + ttl"
  shows "fst (co_acquire_lock ops t k u ttl' (cache_run ops calls c')) \<noteq> Inr True"
proof -
  have "lock_state c' k = Some (v, now + ttl)"
    using lock_admit [OF assms(1)] by simp
  then show ?thesis
    using lock_survives [of c' k v "now + ttl" calls] assms(2,3) held_lock_refuses(1) by blast
qed

lemma session_survives_call:
  assumes "\<not> rebinds h call" "call_time call \<le> t"
  shows "session_at t (cache_exec ops call c) h = session_at t c h"
  using assms
  by (cases call) (auto simp: rebinds_def session_frame session_get_keeps session_set_other
      session_delete_other)

lemma session_survives:
  assumes "\<forall>call \<in> set calls. call_time call \<le> t \<and> \<not> rebinds h call"
  shows "session_at t (cache_run ops calls c) h = session_at t c h"
  using assms unfolding cache_run_def
  by (induction calls arbitrary: c) (simp_all add: session_survives_call)

lemma session_sticks:
  assumes "co_set_session_account_id ops now h a ttl c = (Inr (), c')"
    "\<forall>call \<in> set calls. call_time call \<le> t \<and> \<not> rebinds h call"
    "co_get_session_account_id ops t h (cache_run ops calls c') = (Inr r, c'')"
  shows "r = (if t \<le> now + ttl then Some a else None)"
  using session_get [OF assms(3)] session_survives [OF assms(2), of c']
    session_set [OF assms(1), of t] by simp

end

section \<open>The in-memory store keeps the contract\<close>

definition mem_slot_count :: "memory_store \<Rightarrow> string \<Rightarrow> int" where
  "mem_slot_count s k = (case map_of (ms_slots s) k of None \<Rightarrow> 0 | Some n \<Rightarrow> n)"

definition mem_lock_state :: "memory_store \<Rightarrow> string \<Rightarrow> (string \<times> int) option" where
  "mem_lock_state s k = map_option (\<lambda>l. (le_owner l, le_expires_at l)) (map_of (ms_locks s) k)"

definition mem_session_at :: "int \<Rightarrow> memory_store \<Rightarrow> string \<Rightarrow> int option" where
  "mem_session_at t s h =
     (case map_of (ms_sessions s) (session_key h) of
        None \<Rightarrow> None
      | Some e \<Rightarrow> if t > se_expires_at e then None else Some (se_account_id e))"

lemma session_key_inj [simp]: "session_key a = session_key b \<longleftrightarrow> a = b"
  by (simp add: session_key_def)

lemmas mem_ops_defs =
  mem_get_session_account_id_def mem_set_session_account_id_def mem_delete_session_def
  mem_acquire_slot_def mem_release_slot_def mem_acquire_lock_def mem_release_lock_def

interpretation mem_slots: slot_contract memory_cache mem_slot_count
  by unfold_locales
    (auto simp: memory_cache_def mem_ops_defs mem_slot_count_def map_lookup Let_def fun_eq_iff
      split: option.splits if_splits)

interpretation mem_locks: lock_contract memory_cache mem_lock_state
  by unfold_locales
    (auto simp: memory_cache_def mem_ops_defs mem_lock_state_def map_lookup Let_def fun_eq_iff
      split: option.splits if_splits)

interpretation mem_sessions: session_contract memory_cache mem_session_at
  by unfold_locales
    (auto simp: memory_cache_def mem_ops_defs mem_session_at_def map_lookup Let_def fun_eq_iff
      split: option.splits if_splits)

interpretation mem: cache_contract memory_cache mem_slot_count mem_lock_state mem_session_at
  by unfold_locales
    (auto simp: memory_cache_def mem_ops_defs mem_lock_state_def mem_session_at_def mem_slot_count_def
      fun_eq_iff Let_def split: option.splits if_splits)

section \<open>Properties\<close>

lemma memory_cache_sel [simp]:
  "co_acquire_slot memory_cache = mem_acquire_slot"
  "co_release_slot memory_cache = mem_release_slot"
  "co_acquire_lock memory_cache = mem_acquire_lock"
  "co_release_lock memory_cache = mem_release_lock"
  "co_get_session_account_id memory_cache = mem_get_session_account_id"
  "co_set_session_account_id memory_cache = mem_set_session_account_id"
  "co_delete_session memory_cache = mem_delete_session"
  by (simp_all add: memory_cache_def)

lemma mem_acquire_slot_grants_iff:
  "fst (mem_acquire_slot now k mx ttl c) = Inr True \<longleftrightarrow> mem_slot_count c k < mx"
  by (auto simp: mem_acquire_slot_def mem_slot_count_def Let_def map_lookup split: option.split)

lemma mem_get_session_ok: "\<exists>r c'. mem_get_session_account_id now h c = (Inr r, c')"
  by (cases "map_of (ms_sessions c) (session_key h)") (simp_all add: mem_get_session_account_id_def)

lemma mem_slot_count_new: "mem_slot_count memory_store_new k = 0"
  by (simp add: mem_slot_count_def memory_store_new_def)

text \<open>
  C5. Concurrency slots are conserved. In every state the gateway can reach from a fresh
  in-memory cache, by any interleaving of acquisitions, dropped guards and spawned release tasks,
  the counter of an account is exactly the number of its guards alive, of its releases still to
  run and of its guards lost without a runtime; so a request is admitted exactly when that number
  is below the account's limit.
\<close>

theorem slots_conserved:
  assumes "slot_reachable memory_cache memory_store_new s"
  shows "mem_slot_count (sys_cache s) k = int (slots_taken s k) \<and>
    (fst (mem_acquire_slot now k mx ttl (sys_cache s)) = Inr True \<longleftrightarrow> int (slots_taken s k) < mx)"
  using mem_slots.reachable_accounts [OF assms] mem_slot_count_new
  by (simp_all add: mem_acquire_slot_grants_iff)

lemma one_slot_reachable:
  "slot_reachable memory_cache memory_store_new
     \<lparr>sys_cache = memory_store_new\<lparr>ms_slots := [(''a'', 1)]\<rparr>,
      sys_live = {#slot_holder_new ''a''#}, sys_pending = {#}, sys_leaked = {#}\<rparr>"
proof -
  have "mem_acquire_slot 0 ''a'' 1 300 memory_store_new
      = (Inr True, memory_store_new\<lparr>ms_slots := [(''a'', 1)]\<rparr>)"
    by (simp add: mem_acquire_slot_def memory_store_new_def hm_or_insert_def Let_def)
  then have "slot_step memory_cache (slot_system_new memory_store_new)
     \<lparr>sys_cache = memory_store_new\<lparr>ms_slots := [(''a'', 1)]\<rparr>,
      sys_live = {#slot_holder_new ''a''#}, sys_pending = {#}, sys_leaked = {#}\<rparr>"
    using slot_step.admit [of memory_cache 0 "''a''" 1 300 "slot_system_new memory_store_new"]
    by (simp add: slot_system_new_def)
  then show ?thesis
    by (auto simp: slot_reachable_def)
qed

theorem slots_conserved_witness:
  "mem_slot_count (memory_store_new\<lparr>ms_slots := [(''a'', 1)]\<rparr>) ''a'' = 1 \<and>
   fst (mem_acquire_slot 5 ''a'' 1 300 (memory_store_new\<lparr>ms_slots := [(''a'', 1)]\<rparr>)) \<noteq> Inr True"
  using slots_conserved [OF one_slot_reachable, of "''a''" 5 1 300]
  by (simp add: slots_taken_def slot_holder_new_def)

text \<open>
  C24. The refresh lock excludes. Once an owner has taken a lock, nobody is granted it again up to
  and including its expiry instant, whatever calls are made on the cache meanwhile, unless that
  owner releases it; another owner's release changes nothing.
\<close>

theorem lock_mutual_exclusion:
  assumes "mem_acquire_lock now k v ttl c = (Inr True, c')"
    and "\<forall>call \<in> set calls. call_time call \<le> now + ttl \<and> \<not> unlocks k v call"
    and "t \<le> now + ttl"
  shows "fst (mem_acquire_lock t k u ttl' (cache_run memory_cache calls c')) = Inr False"
proof -
  have "fst (mem_acquire_lock t k u ttl' (cache_run memory_cache calls c')) \<noteq> Inr True"
    using mem.lock_excludes [of now k v ttl c c' calls t u ttl'] assms by simp
  then show ?thesis
    by (auto simp: mem_acquire_lock_def Let_def split: option.splits if_splits)
qed

theorem lock_mutual_exclusion_witness:
  "fst (mem_acquire_lock 20 ''k'' ''b'' 30
     (cache_run memory_cache [ReleaseLock 5 ''k'' ''b'', AcquireLock 10 ''k'' ''c'' 30]
       (snd (mem_acquire_lock 0 ''k'' ''a'' 30 memory_store_new)))) = Inr False"
  by (rule lock_mutual_exclusion
      [where now = 0 and v = "''a''" and ttl = 30 and c = memory_store_new])
     (simp_all add: mem_acquire_lock_def memory_store_new_def unlocks_def)

text \<open>
  The sticky binding. After a session is bound to an account, a lookup at any later instant
  returns that account up to the expiry of the binding and nothing after it, whatever other calls
  are made on the cache meanwhile, as long as the session itself is not bound again or deleted.
\<close>

theorem session_binding_sticks:
  assumes "\<forall>call \<in> set calls. call_time call \<le> t \<and> \<not> rebinds h call"
  shows "fst (mem_get_session_account_id t h
      (cache_run memory_cache calls (snd (mem_set_session_account_id now h a ttl c))))
    = Inr (if t \<le> now + ttl then Some a else None)"
proof -
  let ?c = "cache_run memory_cache calls (snd (mem_set_session_account_id now h a ttl c))"
  obtain r c'' where "mem_get_session_account_id t h ?c = (Inr r, c'')"
    using mem_get_session_ok by blast
  then show ?thesis
    using mem.session_sticks [of now h a ttl c _ calls t r c''] assms
    by (simp add: mem_set_session_account_id_def)
qed

theorem session_binding_sticks_witness:
  "fst (mem_get_session_account_id 50 ''h''
      (cache_run memory_cache [SetSession 20 ''g'' 9 100, AcquireSlot 30 ''h'' 1 1]
        (snd (mem_set_session_account_id 10 ''h'' 7 100 memory_store_new)))) = Inr (Some 7)"
  using session_binding_sticks
    [of "[SetSession 20 ''g'' 9 100, AcquireSlot 30 ''h'' 1 1]" 50 "''h''" 10 7 100 memory_store_new]
  by (simp add: rebinds_def)

end
