(* ===== verification/Account_Store.thy ===== *)
theory Account_Store
  imports Account_Model "HOL-Library.Product_Lexorder"
begin

text \<open>
  The account table and its cache of schedulable accounts (\<open>src/store/account_store.rs\<close>).

  The table is the list of its rows with the next identifier; a row has the columns of the
  schema in \<open>src/store/db.rs\<close>, the enumerations and the JSON documents as text, a time column as
  the instant its text denotes, at whole seconds. Each SQL statement is one atomic step that
  either applies or fails without effect: the argument \<open>fault\<close> of an operation is the error
  its statement meets, if any. \<open>now\<close> is the wall clock and \<open>inst\<close> the monotonic clock, in
  nanoseconds. The SQL text that differs between the two databases only casts the parameters and
  is not represented.
\<close>

section \<open>Rows\<close>

record account_row =
  row_id :: int
  row_name :: string
  row_email :: string
  row_status :: string
  row_token :: string
  row_auth_type :: string
  row_access_token :: string
  row_refresh_token :: string
  row_oauth_expires_at :: "int option"
  row_oauth_refreshed_at :: "int option"
  row_auth_error :: string
  row_proxy_url :: string
  row_device_id :: string
  row_canonical_env :: string
  row_canonical_prompt_env :: string
  row_canonical_process :: string
  row_billing_mode :: string
  row_account_uuid :: "string option"
  row_organization_uuid :: "string option"
  row_subscription_type :: "string option"
  row_concurrency :: int
  row_priority :: int
  row_rate_limited_at :: "int option"
  row_rate_limit_reset_at :: "int option"
  row_disable_reason :: string
  row_auto_telemetry :: int
  row_telemetry_count :: int
  row_usage_data :: string
  row_usage_fetched_at :: "int option"
  row_created_at :: int
  row_updated_at :: int

record account_store =
  ast_rows :: "account_row list"
  ast_next_id :: int
  ast_cache :: "(int \<times> account list) option"

definition account_store_new :: "account_row list \<Rightarrow> int \<Rightarrow> account_store" where
  "account_store_new rows next_id =
     \<lparr>ast_rows = rows, ast_next_id = next_id, ast_cache = None\<rparr>"

definition SCHEDULABLE_TTL :: int where "SCHEDULABLE_TTL = 30 * 10 ^ 9"

definition invalidate_schedulable_cache :: "account_store \<Rightarrow> account_store" where
  "invalidate_schedulable_cache st = st\<lparr>ast_cache := None\<rparr>"

definition get_schedulable_cached :: "int \<Rightarrow> int \<Rightarrow> account_store \<Rightarrow> account option" where
  "get_schedulable_cached inst aid st =
     (case ast_cache st of
        Some (at_, v) \<Rightarrow>
          if inst - at_ < SCHEDULABLE_TTL then find (\<lambda>a. acc_id a = aid) v else None
      | None \<Rightarrow> None)"

text \<open>\<open>format("%Y-%m-%dT%H:%M:%SZ")\<close> drops the fraction of the second.\<close>

definition fmt_time :: "int \<Rightarrow> int" where
  "fmt_time t = t div 10 ^ 9 * 10 ^ 9"

definition parse_json_col :: "serde_lib \<Rightarrow> string \<Rightarrow> json" where
  "parse_json_col S s = (case sj_from_str S s of Some v \<Rightarrow> v | None \<Rightarrow> JObj [])"

definition row_to_account :: "serde_lib \<Rightarrow> account_row \<Rightarrow> account" where
  "row_to_account S r =
     \<lparr>acc_id = row_id r, acc_name = row_name r, acc_email = row_email r,
      acc_status = account_status_from (row_status r),
      acc_auth_type = auth_type_from (row_auth_type r),
      acc_setup_token = row_token r, acc_access_token = row_access_token r,
      acc_refresh_token = row_refresh_token r, acc_expires_at = row_oauth_expires_at r,
      acc_oauth_refreshed_at = row_oauth_refreshed_at r, acc_auth_error = row_auth_error r,
      acc_proxy_url = row_proxy_url r, acc_device_id = row_device_id r,
      acc_canonical_env = normalize_canonical_env_json (parse_json_col S (row_canonical_env r)),
      acc_canonical_prompt = parse_json_col S (row_canonical_prompt_env r),
      acc_canonical_process = parse_json_col S (row_canonical_process r),
      acc_billing_mode = billing_mode_from (row_billing_mode r),
      acc_account_uuid = row_account_uuid r, acc_organization_uuid = row_organization_uuid r,
      acc_subscription_type = row_subscription_type r, acc_concurrency = row_concurrency r,
      acc_priority = row_priority r, acc_rate_limited_at = row_rate_limited_at r,
      acc_rate_limit_reset_at = row_rate_limit_reset_at r,
      acc_disable_reason = row_disable_reason r, acc_auto_telemetry = (row_auto_telemetry r \<noteq> 0),
      acc_telemetry_count = row_telemetry_count r,
      acc_usage_data = parse_json_col S (row_usage_data r),
      acc_usage_fetched_at = row_usage_fetched_at r, acc_created_at = row_created_at r,
      acc_updated_at = row_updated_at r\<rparr>"

section \<open>Statements\<close>

text \<open>
  \<open>UPDATE \<dots> WHERE\<close> with the rows affected, and \<open>execute(..).await?\<close> on it: an error of the
  statement is returned as the application error.
\<close>

definition exec_update ::
  "sqlx_error option \<Rightarrow> (account_row \<Rightarrow> bool) \<Rightarrow> (account_row \<Rightarrow> account_row) \<Rightarrow> account_store
     \<Rightarrow> (app_error + nat) \<times> account_store" where
  "exec_update fault p f st =
     (case fault of
        Some e \<Rightarrow> (Inl (app_error_from_sqlx e), st)
      | None \<Rightarrow> (Inr (length (filter p (ast_rows st))),
                 st\<lparr>ast_rows := map (\<lambda>r. if p r then f r else r) (ast_rows st)\<rparr>))"

text \<open>The two ways the methods end: drop the cached list after a success, or leave it.\<close>

fun then_invalidate ::
  "(app_error + nat) \<times> account_store \<Rightarrow> (app_error + unit) \<times> account_store" where
  "then_invalidate (Inl e, st) = (Inl e, st)"
| "then_invalidate (Inr n, st) = (Inr (), invalidate_schedulable_cache st)"

fun then_ok :: "(app_error + nat) \<times> account_store \<Rightarrow> (app_error + unit) \<times> account_store" where
  "then_ok (Inl e, st) = (Inl e, st)"
| "then_ok (Inr n, st) = (Inr (), st)"

section \<open>Operations\<close>

text \<open>
  \<open>create\<close> runs two statements. The first counts the rows with the same address and a failure
  of it counts as zero; the second inserts, with the columns it does not name at their defaults.
  The account is returned with its new identifier and times.
\<close>

definition insert_row :: "serde_lib \<Rightarrow> int \<Rightarrow> int \<Rightarrow> account \<Rightarrow> account_row" where
  "insert_row S now new_id a =
     \<lparr>row_id = new_id, row_name = acc_name a, row_email = acc_email a,
      row_status = account_status_to_string (acc_status a), row_token = acc_setup_token a,
      row_auth_type = auth_type_to_string (acc_auth_type a),
      row_access_token = acc_access_token a, row_refresh_token = acc_refresh_token a,
      row_oauth_expires_at = map_option fmt_time (acc_expires_at a),
      row_oauth_refreshed_at = map_option fmt_time (acc_oauth_refreshed_at a),
      row_auth_error = acc_auth_error a, row_proxy_url = acc_proxy_url a,
      row_device_id = acc_device_id a,
      row_canonical_env = sj_to_string S (acc_canonical_env a),
      row_canonical_prompt_env = sj_to_string S (acc_canonical_prompt a),
      row_canonical_process = sj_to_string S (acc_canonical_process a),
      row_billing_mode = billing_mode_to_string (acc_billing_mode a),
      row_account_uuid = acc_account_uuid a, row_organization_uuid = acc_organization_uuid a,
      row_subscription_type = acc_subscription_type a, row_concurrency = acc_concurrency a,
      row_priority = acc_priority a, row_rate_limited_at = None, row_rate_limit_reset_at = None,
      row_disable_reason = '''', row_auto_telemetry = (if acc_auto_telemetry a then 1 else 0),
      row_telemetry_count = 0, row_usage_data = ''{}'', row_usage_fetched_at = None,
      row_created_at = fmt_time now, row_updated_at = fmt_time now\<rparr>"

definition create ::
  "serde_lib \<Rightarrow> int \<Rightarrow> sqlx_error option \<Rightarrow> sqlx_error option \<Rightarrow> account \<Rightarrow> account_store
     \<Rightarrow> (app_error + account) \<times> account_store" where
  "create S now count_fault insert_fault a st =
     (let a = a\<lparr>acc_canonical_env := normalize_canonical_env_json (acc_canonical_env a)\<rparr>;
          cnt = (case count_fault of
                   Some _ \<Rightarrow> 0
                 | None \<Rightarrow> length (filter (\<lambda>r. row_email r = acc_email a) (ast_rows st)))
      in if cnt > 0
         then (Inl (BadRequest (''email '' @ acc_email a @ '' already exists'')), st)
         else case insert_fault of
                Some e \<Rightarrow> (Inl (app_error_from_sqlx e), st)
              | None \<Rightarrow>
                  (let r = insert_row S now (ast_next_id st) a
                   in (Inr (a\<lparr>acc_id := row_id r, acc_created_at := row_created_at r,
                              acc_updated_at := row_updated_at r\<rparr>),
                       invalidate_schedulable_cache
                         (st\<lparr>ast_rows := ast_rows st @ [r], ast_next_id := ast_next_id st + 1\<rparr>))))"

definition update_row :: "serde_lib \<Rightarrow> int \<Rightarrow> account \<Rightarrow> account_row \<Rightarrow> account_row" where
  "update_row S now a r =
     r\<lparr>row_name := acc_name a, row_email := acc_email a,
       row_status := account_status_to_string (acc_status a), row_token := acc_setup_token a,
       row_auth_type := auth_type_to_string (acc_auth_type a),
       row_access_token := acc_access_token a, row_refresh_token := acc_refresh_token a,
       row_oauth_expires_at := map_option fmt_time (acc_expires_at a),
       row_oauth_refreshed_at := map_option fmt_time (acc_oauth_refreshed_at a),
       row_auth_error := acc_auth_error a, row_proxy_url := acc_proxy_url a,
       row_billing_mode := billing_mode_to_string (acc_billing_mode a),
       row_account_uuid := acc_account_uuid a, row_organization_uuid := acc_organization_uuid a,
       row_subscription_type := acc_subscription_type a, row_concurrency := acc_concurrency a,
       row_priority := acc_priority a,
       row_auto_telemetry := (if acc_auto_telemetry a then 1 else 0),
       row_canonical_prompt_env := sj_to_string S (acc_canonical_prompt a),
       row_canonical_env := sj_to_string S (normalize_canonical_env_json (acc_canonical_env a)),
       row_updated_at := fmt_time now\<rparr>"

definition update ::
  "serde_lib \<Rightarrow> int \<Rightarrow> sqlx_error option \<Rightarrow> account \<Rightarrow> account_store
     \<Rightarrow> (app_error + unit) \<times> account_store" where
  "update S now fault a st =
     then_invalidate (exec_update fault (\<lambda>r. row_id r = acc_id a) (update_row S now a) st)"

definition update_oauth_tokens ::
  "int \<Rightarrow> sqlx_error option \<Rightarrow> int \<Rightarrow> string \<Rightarrow> string \<Rightarrow> int \<Rightarrow> account_store
     \<Rightarrow> (app_error + unit) \<times> account_store" where
  "update_oauth_tokens now fault aid access_token refresh_token expires_at st =
     then_invalidate (exec_update fault (\<lambda>r. row_id r = aid)
       (\<lambda>r. r\<lparr>row_access_token := access_token, row_refresh_token := refresh_token,
              row_oauth_expires_at := Some (fmt_time expires_at),
              row_oauth_refreshed_at := Some (fmt_time now), row_auth_error := '''',
              row_updated_at := fmt_time now\<rparr>) st)"

definition update_auth_error ::
  "int \<Rightarrow> sqlx_error option \<Rightarrow> int \<Rightarrow> string \<Rightarrow> account_store \<Rightarrow> (app_error + unit) \<times> account_store" where
  "update_auth_error now fault aid auth_error st =
     then_ok (exec_update fault (\<lambda>r. row_id r = aid)
       (\<lambda>r. r\<lparr>row_auth_error := auth_error, row_updated_at := fmt_time now\<rparr>) st)"

definition update_status ::
  "int \<Rightarrow> sqlx_error option \<Rightarrow> int \<Rightarrow> account_status \<Rightarrow> account_store
     \<Rightarrow> (app_error + unit) \<times> account_store" where
  "update_status now fault aid status st =
     then_invalidate (exec_update fault (\<lambda>r. row_id r = aid)
       (\<lambda>r. r\<lparr>row_status := account_status_to_string status, row_updated_at := fmt_time now\<rparr>) st)"

definition set_rate_limit ::
  "int \<Rightarrow> sqlx_error option \<Rightarrow> int \<Rightarrow> int \<Rightarrow> account_store \<Rightarrow> (app_error + unit) \<times> account_store" where
  "set_rate_limit now fault aid reset_at st =
     then_ok (exec_update fault (\<lambda>r. row_id r = aid)
       (\<lambda>r. r\<lparr>row_rate_limited_at := Some (fmt_time now),
              row_rate_limit_reset_at := Some (fmt_time reset_at),
              row_updated_at := fmt_time now\<rparr>) st)"

definition disable_account ::
  "int \<Rightarrow> sqlx_error option \<Rightarrow> int \<Rightarrow> account_status \<Rightarrow> string \<Rightarrow> int option \<Rightarrow> account_store
     \<Rightarrow> (app_error + unit) \<times> account_store" where
  "disable_account now fault aid status reason rate_limit_reset_at st =
     then_invalidate (exec_update fault (\<lambda>r. row_id r = aid)
       (\<lambda>r. r\<lparr>row_status := account_status_to_string status, row_disable_reason := reason,
              row_rate_limited_at := map_option (\<lambda>_. fmt_time now) rate_limit_reset_at,
              row_rate_limit_reset_at := map_option fmt_time rate_limit_reset_at,
              row_updated_at := fmt_time now\<rparr>) st)"

definition enable_account ::
  "int \<Rightarrow> sqlx_error option \<Rightarrow> int \<Rightarrow> account_store \<Rightarrow> (app_error + unit) \<times> account_store" where
  "enable_account now fault aid st =
     then_invalidate (exec_update fault (\<lambda>r. row_id r = aid)
       (\<lambda>r. r\<lparr>row_status := ''active'', row_disable_reason := '''', row_rate_limited_at := None,
              row_rate_limit_reset_at := None, row_updated_at := fmt_time now\<rparr>) st)"

definition clear_rate_limit ::
  "int \<Rightarrow> sqlx_error option \<Rightarrow> int \<Rightarrow> account_store \<Rightarrow> (app_error + unit) \<times> account_store" where
  "clear_rate_limit now fault aid st =
     then_ok (exec_update fault (\<lambda>r. row_id r = aid)
       (\<lambda>r. r\<lparr>row_rate_limited_at := None, row_rate_limit_reset_at := None,
              row_updated_at := fmt_time now\<rparr>) st)"

definition clear_stale_rate_limit_fields ::
  "int \<Rightarrow> sqlx_error option \<Rightarrow> account_store \<Rightarrow> (app_error + nat) \<times> account_store" where
  "clear_stale_rate_limit_fields now fault st =
     exec_update fault (\<lambda>r. row_status r = ''active'' \<and> row_rate_limited_at r \<noteq> None)
       (\<lambda>r. r\<lparr>row_rate_limited_at := None, row_rate_limit_reset_at := None,
              row_disable_reason := '''', row_updated_at := fmt_time now\<rparr>) st"

definition delete ::
  "sqlx_error option \<Rightarrow> int \<Rightarrow> account_store \<Rightarrow> (app_error + unit) \<times> account_store" where
  "delete fault aid st =
     (case fault of
        Some e \<Rightarrow> (Inl (app_error_from_sqlx e), st)
      | None \<Rightarrow> (Inr (), invalidate_schedulable_cache
                          (st\<lparr>ast_rows := filter (\<lambda>r. row_id r \<noteq> aid) (ast_rows st)\<rparr>)))"

definition get_by_id ::
  "serde_lib \<Rightarrow> sqlx_error option \<Rightarrow> int \<Rightarrow> account_store \<Rightarrow> app_error + account" where
  "get_by_id S fault aid st =
     (case fault of
        Some e \<Rightarrow> Inl (app_error_from_sqlx e)
      | None \<Rightarrow> (case find (\<lambda>r. row_id r = aid) (ast_rows st) of
                   None \<Rightarrow> Inl (app_error_from_sqlx RowNotFound)
                 | Some r \<Rightarrow> Inr (row_to_account S r)))"

text \<open>\<open>ORDER BY priority ASC, id ASC\<close>.\<close>

definition ordered :: "account_row list \<Rightarrow> account_row list" where
  "ordered rows = sort_key (\<lambda>r. (row_priority r, row_id r)) rows"

definition list_all_accounts ::
  "serde_lib \<Rightarrow> sqlx_error option \<Rightarrow> account_store \<Rightarrow> app_error + account list" where
  "list_all_accounts S fault st =
     (case fault of
        Some e \<Rightarrow> Inl (app_error_from_sqlx e)
      | None \<Rightarrow> Inr (map (row_to_account S) (ordered (ast_rows st))))"

definition count_accounts :: "sqlx_error option \<Rightarrow> account_store \<Rightarrow> app_error + int" where
  "count_accounts fault st =
     Inr (case fault of Some e \<Rightarrow> 0 | None \<Rightarrow> int (length (ast_rows st)))"

text \<open>
  \<open>LIMIT\<close> and \<open>OFFSET\<close> as SQLite reads them: a negative limit is no limit, a negative offset is
  zero (PostgreSQL fails the statement instead, a \<open>fault\<close>).
\<close>

definition list_paged ::
  "serde_lib \<Rightarrow> sqlx_error option \<Rightarrow> int \<Rightarrow> int \<Rightarrow> account_store \<Rightarrow> app_error + account list" where
  "list_paged S fault page page_size st =
     (let offset = i64_wrap (i64_wrap (page - 1) * page_size)
      in case fault of
           Some e \<Rightarrow> Inl (app_error_from_sqlx e)
         | None \<Rightarrow>
             (let rows = drop (nat offset) (ordered (ast_rows st))
              in Inr (map (row_to_account S)
                       (if page_size < 0 then rows else take (nat page_size) rows))))"

definition update_usage ::
  "int \<Rightarrow> sqlx_error option \<Rightarrow> int \<Rightarrow> string \<Rightarrow> account_store \<Rightarrow> (app_error + unit) \<times> account_store" where
  "update_usage now fault aid usage_data st =
     then_ok (exec_update fault (\<lambda>r. row_id r = aid)
       (\<lambda>r. r\<lparr>row_usage_data := usage_data, row_usage_fetched_at := Some (fmt_time now),
              row_updated_at := fmt_time now\<rparr>) st)"

definition increment_telemetry_count ::
  "int \<Rightarrow> sqlx_error option \<Rightarrow> int \<Rightarrow> int \<Rightarrow> account_store \<Rightarrow> (app_error + unit) \<times> account_store" where
  "increment_telemetry_count now fault aid delta st =
     then_ok (exec_update fault (\<lambda>r. row_id r = aid)
       (\<lambda>r. r\<lparr>row_telemetry_count := row_telemetry_count r + delta,
              row_updated_at := fmt_time now\<rparr>) st)"

text \<open>
  \<open>list_schedulable\<close> reads the cache, runs the query and stores its result in three separate
  steps, with other tasks free to run in between; it is given as its parts and as their
  composition without interference.
\<close>

definition cached_schedulable :: "int \<Rightarrow> account_store \<Rightarrow> account list option" where
  "cached_schedulable inst st =
     (case ast_cache st of
        Some (at_, v) \<Rightarrow> if inst - at_ < SCHEDULABLE_TTL then Some v else None
      | None \<Rightarrow> None)"

definition query_schedulable :: "serde_lib \<Rightarrow> account_store \<Rightarrow> account list" where
  "query_schedulable S st =
     map (row_to_account S) (ordered (filter (\<lambda>r. row_status r = ''active'') (ast_rows st)))"

definition store_schedulable :: "int \<Rightarrow> account list \<Rightarrow> account_store \<Rightarrow> account_store" where
  "store_schedulable inst v st = st\<lparr>ast_cache := Some (inst, v)\<rparr>"

definition list_schedulable ::
  "serde_lib \<Rightarrow> int \<Rightarrow> sqlx_error option \<Rightarrow> account_store
     \<Rightarrow> (app_error + account list) \<times> account_store" where
  "list_schedulable S inst fault st =
     (case cached_schedulable inst st of
        Some v \<Rightarrow> (Inr v, st)
      | None \<Rightarrow>
          (case fault of
             Some e \<Rightarrow> (Inl (app_error_from_sqlx e), st)
           | None \<Rightarrow> (let v = query_schedulable S st in (Inr v, store_schedulable inst v st))))"

section \<open>Sequences of operations\<close>

text \<open>One call on the store, each with the error its statements meet.\<close>

datatype store_call =
    Create int "sqlx_error option" "sqlx_error option" account
  | Update int "sqlx_error option" account
  | UpdateOauthTokens int "sqlx_error option" int string string int
  | UpdateAuthError int "sqlx_error option" int string
  | UpdateStatus int "sqlx_error option" int account_status
  | SetRateLimit int "sqlx_error option" int int
  | DisableAccount int "sqlx_error option" int account_status string "int option"
  | EnableAccount int "sqlx_error option" int
  | ClearRateLimit int "sqlx_error option" int
  | ClearStale int "sqlx_error option"
  | Delete "sqlx_error option" int
  | UpdateUsage int "sqlx_error option" int string
  | IncrementTelemetry int "sqlx_error option" int int
  | ListSchedulable int "sqlx_error option"

primrec store_exec :: "serde_lib \<Rightarrow> store_call \<Rightarrow> account_store \<Rightarrow> account_store" where
  "store_exec S (Create now f g a) st = snd (create S now f g a st)"
| "store_exec S (Update now f a) st = snd (update S now f a st)"
| "store_exec S (UpdateOauthTokens now f i acc ref ex) st =
     snd (update_oauth_tokens now f i acc ref ex st)"
| "store_exec S (UpdateAuthError now f i msg) st = snd (update_auth_error now f i msg st)"
| "store_exec S (UpdateStatus now f i s) st = snd (update_status now f i s st)"
| "store_exec S (SetRateLimit now f i t) st = snd (set_rate_limit now f i t st)"
| "store_exec S (DisableAccount now f i s r t) st = snd (disable_account now f i s r t st)"
| "store_exec S (EnableAccount now f i) st = snd (enable_account now f i st)"
| "store_exec S (ClearRateLimit now f i) st = snd (clear_rate_limit now f i st)"
| "store_exec S (ClearStale now f) st = snd (clear_stale_rate_limit_fields now f st)"
| "store_exec S (Delete f i) st = snd (delete f i st)"
| "store_exec S (UpdateUsage now f i u) st = snd (update_usage now f i u st)"
| "store_exec S (IncrementTelemetry now f i d) st = snd (increment_telemetry_count now f i d st)"
| "store_exec S (ListSchedulable inst f) st = snd (list_schedulable S inst f st)"

definition store_run :: "serde_lib \<Rightarrow> store_call list \<Rightarrow> account_store \<Rightarrow> account_store" where
  "store_run S calls st = fold (store_exec S) calls st"

text \<open>
  The part of an account that the selector and the request path use: everything but the fields
  that only record what happened to it.
\<close>

definition stable_part :: "account \<Rightarrow> account" where
  "stable_part a =
     a\<lparr>acc_auth_error := [], acc_rate_limited_at := None, acc_rate_limit_reset_at := None,
       acc_disable_reason := [], acc_telemetry_count := 0, acc_usage_data := JNull,
       acc_usage_fetched_at := None, acc_updated_at := 0\<rparr>"

definition cache_coherent :: "serde_lib \<Rightarrow> account_store \<Rightarrow> bool" where
  "cache_coherent S st =
     (case ast_cache st of
        None \<Rightarrow> True
      | Some (_, v) \<Rightarrow> map stable_part v = map stable_part (query_schedulable S st))"

lemma query_after_update:
  assumes "\<And>r. row_status (g r) = row_status r" "\<And>r. row_priority (g r) = row_priority r"
    "\<And>r. row_id (g r) = row_id r"
    "\<And>r. stable_part (row_to_account S (g r)) = stable_part (row_to_account S r)"
  shows "map stable_part (query_schedulable S (st\<lparr>ast_rows := map g (ast_rows st)\<rparr>)) =
    map stable_part (query_schedulable S st)"
  using assms(4) by (simp add: query_schedulable_def ordered_def sort_key_map_commute
      filter_map_commute assms(1,2,3))

lemma coherent_quiet_update:
  assumes "cache_coherent S st"
    "\<And>r. row_status (f r) = row_status r \<and> row_priority (f r) = row_priority r \<and> row_id (f r) = row_id r \<and>
       stable_part (row_to_account S (f r)) = stable_part (row_to_account S r)"
  shows "cache_coherent S (snd (exec_update fault p f st))"
  using assms query_after_update [of "\<lambda>r. if p r then f r else r" S st]
  by (auto simp: exec_update_def cache_coherent_def split: option.splits)

lemma snd_then_ok [simp]: "snd (then_ok r) = snd r"
  by (cases r rule: then_ok.cases) simp_all

lemma then_invalidate_coherent:
  "(\<And>e. fst r = Inl e \<Longrightarrow> cache_coherent S (snd r)) \<Longrightarrow> cache_coherent S (snd (then_invalidate r))"
  by (cases r rule: then_invalidate.cases)
     (simp_all add: invalidate_schedulable_cache_def cache_coherent_def)

lemma coherent_exec_then_invalidate:
  "cache_coherent S st \<Longrightarrow> cache_coherent S (snd (then_invalidate (exec_update fault p f st)))"
  by (rule then_invalidate_coherent) (auto simp: exec_update_def split: option.splits)

lemmas loud_updates = update_def update_oauth_tokens_def update_status_def disable_account_def
  enable_account_def

lemmas quiet_updates = update_auth_error_def set_rate_limit_def clear_rate_limit_def
  clear_stale_rate_limit_fields_def update_usage_def increment_telemetry_count_def

lemma list_schedulable_coherent:
  "cache_coherent S st \<Longrightarrow> cache_coherent S (snd (list_schedulable S inst fault st))"
  by (auto simp: list_schedulable_def store_schedulable_def cache_coherent_def Let_def
      query_schedulable_def split: option.splits)

lemma create_coherent: "cache_coherent S st \<Longrightarrow> cache_coherent S (snd (create S now f g a st))"
  by (auto simp: create_def Let_def invalidate_schedulable_cache_def cache_coherent_def
      split: option.splits)

lemma delete_coherent: "cache_coherent S st \<Longrightarrow> cache_coherent S (snd (delete f i st))"
  by (auto simp: delete_def invalidate_schedulable_cache_def cache_coherent_def split: option.splits)

lemma store_exec_coherent: "cache_coherent S st \<Longrightarrow> cache_coherent S (store_exec S call st)"
  by (cases call)
     (simp_all add: loud_updates quiet_updates coherent_exec_then_invalidate list_schedulable_coherent
       create_coherent delete_coherent coherent_quiet_update stable_part_def row_to_account_def)

lemma store_run_coherent: "cache_coherent S st \<Longrightarrow> cache_coherent S (store_run S calls st)"
  unfolding store_run_def
  by (induction calls arbitrary: st) (simp_all add: store_exec_coherent)

lemma coherent_new: "cache_coherent S (account_store_new rows n)"
  by (simp add: cache_coherent_def account_store_new_def)

text \<open>What a fresh list or a cached entry says about the table.\<close>

lemma coherent_listing:
  "cache_coherent S st \<Longrightarrow> fst (list_schedulable S inst fault st) = Inr v \<Longrightarrow>
   map stable_part v = map stable_part (query_schedulable S st)"
  by (auto simp: list_schedulable_def cached_schedulable_def cache_coherent_def Let_def
      split: option.splits if_splits)

lemma query_schedulable_member:
  "a \<in> set (query_schedulable S st) \<longleftrightarrow>
     (\<exists>r \<in> set (ast_rows st). row_status r = ''active'' \<and> a = row_to_account S r)"
  by (auto simp: query_schedulable_def ordered_def)

lemma coherent_cached:
  assumes "cache_coherent S st" "get_schedulable_cached inst i st = Some a"
  shows "\<exists>r \<in> set (ast_rows st). row_id r = i \<and> row_status r = ''active'' \<and>
    stable_part a = stable_part (row_to_account S r)"
proof -
  obtain t v where v: "ast_cache st = Some (t, v)" "find (\<lambda>a. acc_id a = i) v = Some a"
    using assms(2) by (auto simp: get_schedulable_cached_def split: option.splits if_splits)
  then have a: "a \<in> set v" "acc_id a = i"
    by (auto simp: find_Some_iff)
  then have "stable_part a \<in> set (map stable_part (query_schedulable S st))"
    using assms(1) v(1) by (simp add: cache_coherent_def) (metis image_eqI list.set_map)
  then obtain r where r: "r \<in> set (ast_rows st)" "row_status r = ''active''"
    "stable_part a = stable_part (row_to_account S r)"
    by (auto simp: query_schedulable_member)
  moreover have "acc_id (stable_part x) = acc_id x" for x
    by (simp add: stable_part_def)
  ultimately show ?thesis
    using a(2) by (metis (no_types) account.select_convs(1) row_to_account_def)
qed

section \<open>Properties\<close>

lemma stable_part_sel [simp]:
  "acc_id (stable_part a) = acc_id a" "acc_status (stable_part a) = acc_status a"
  "acc_priority (stable_part a) = acc_priority a"
  by (simp_all add: stable_part_def)

lemma row_to_account_sel [simp]:
  "acc_id (row_to_account S r) = row_id r" "acc_priority (row_to_account S r) = row_priority r"
  "acc_status (row_to_account S r) = account_status_from (row_status r)"
  by (simp_all add: row_to_account_def)

text \<open>
  C21. The cache of schedulable accounts never shows the selector an outdated account. After any
  sequence of store calls, failing ones included, the list of schedulable accounts agrees with
  the table in every field but those that only record events, and an account found in the cached
  list stands for an active row with that identifier.
\<close>

theorem schedulable_cache_coherent:
  assumes "st = store_run S calls (account_store_new rows n)"
    and "fst (list_schedulable S inst fault st) = Inr v"
    and "get_schedulable_cached inst i st = Some a"
  shows "map stable_part v = map stable_part (query_schedulable S st) \<and>
    (\<exists>r \<in> set (ast_rows st). row_id r = i \<and> row_status r = ''active'' \<and>
       stable_part a = stable_part (row_to_account S r))"
  using coherent_listing coherent_cached store_run_coherent coherent_new assms by metis

definition example_serde :: serde_lib where
  "example_serde = \<lparr>sj_to_string = (\<lambda>_. ''{}''), sj_from_str = (\<lambda>_. Some (JObj []))\<rparr>"

definition example_row :: "int \<Rightarrow> account_row" where
  "example_row i =
     \<lparr>row_id = i, row_name = ''n'', row_email = ''e'', row_status = ''active'', row_token = ''t'',
      row_auth_type = ''setup_token'', row_access_token = [], row_refresh_token = [],
      row_oauth_expires_at = None, row_oauth_refreshed_at = None, row_auth_error = [],
      row_proxy_url = [], row_device_id = ''d'', row_canonical_env = ''{}'',
      row_canonical_prompt_env = ''{}'', row_canonical_process = ''{}'',
      row_billing_mode = ''strip'', row_account_uuid = None, row_organization_uuid = None,
      row_subscription_type = None, row_concurrency = 3, row_priority = 50,
      row_rate_limited_at = None, row_rate_limit_reset_at = None, row_disable_reason = [],
      row_auto_telemetry = 0, row_telemetry_count = 0, row_usage_data = ''{}'',
      row_usage_fetched_at = None, row_created_at = 0, row_updated_at = 0\<rparr>"

lemma example_row_sel [simp]:
  "row_id (example_row i) = i" "row_status (example_row i) = ''active''"
  by (simp_all add: example_row_def)

definition example_run :: account_store where
  "example_run = store_run example_serde
     [ListSchedulable 0 None, SetRateLimit 0 None 4 (10 ^ 12)]
     (account_store_new [example_row 4] 5)"

lemma example_run_cache: "ast_cache example_run = Some (0, [row_to_account example_serde (example_row 4)])"
  by (simp add: example_run_def store_run_def account_store_new_def list_schedulable_def
      cached_schedulable_def store_schedulable_def query_schedulable_def ordered_def Let_def
      set_rate_limit_def exec_update_def)

theorem schedulable_cache_coherent_witness:
  "\<exists>v a. fst (list_schedulable example_serde 1 None example_run) = Inr v \<and>
     map stable_part v = map stable_part (query_schedulable example_serde example_run) \<and>
     get_schedulable_cached 1 4 example_run = Some a \<and>
     (\<exists>r \<in> set (ast_rows example_run). row_id r = 4 \<and> row_status r = ''active'' \<and>
       stable_part a = stable_part (row_to_account example_serde r))"
proof -
  have l: "fst (list_schedulable example_serde 1 None example_run) =
      Inr [row_to_account example_serde (example_row 4)]"
    by (simp add: list_schedulable_def cached_schedulable_def example_run_cache SCHEDULABLE_TTL_def)
  moreover have c: "get_schedulable_cached 1 4 example_run =
      Some (row_to_account example_serde (example_row 4))"
    by (simp add: get_schedulable_cached_def example_run_cache SCHEDULABLE_TTL_def)
  ultimately show ?thesis
    using schedulable_cache_coherent [OF example_run_def l c] by blast
qed

text \<open>
  C36. An invalidation can be lost. The cache is filled after the query has returned: when an
  account is disabled between the query and the store of its result, the disabled account is
  found schedulable from the cache for the whole lifetime of the entry.
\<close>

theorem disable_races_with_listing:
  assumes "r \<in> set (ast_rows st)" "row_status r = ''active''"
    and "v = query_schedulable S st"
    and "st' = store_schedulable inst v (snd (disable_account now None (row_id r) AS_Disabled why None st))"
    and "inst \<le> t" "t < inst + SCHEDULABLE_TTL"
  shows "(\<forall>r' \<in> set (ast_rows st'). row_id r' = row_id r \<longrightarrow> row_status r' = ''disabled'') \<and>
    (\<exists>a. get_schedulable_cached t (row_id r) st' = Some a \<and> is_schedulable a \<and>
         acc_id a = row_id r)"
proof -
  have rows: "\<forall>r' \<in> set (ast_rows st'). row_id r' = row_id r \<longrightarrow> row_status r' = ''disabled''"
    using assms(4) by (auto simp: store_schedulable_def disable_account_def exec_update_def
        invalidate_schedulable_cache_def)
  have "row_to_account S r \<in> set v"
    using assms(1-3) by (auto simp: query_schedulable_member)
  then have "find (\<lambda>a. acc_id a = row_id r) v \<noteq> None"
    by (auto simp: find_None_iff)
  then obtain a where a: "find (\<lambda>a. acc_id a = row_id r) v = Some a"
    by blast
  then have "a \<in> set v" "acc_id a = row_id r"
    by (auto simp: find_Some_iff)
  moreover have "is_schedulable a"
    using \<open>a \<in> set v\<close> assms(3)
    by (auto simp: query_schedulable_member is_schedulable_def account_status_from_def)
  ultimately show ?thesis
    using rows a assms(4-6)
    by (simp add: get_schedulable_cached_def store_schedulable_def)
qed

theorem disable_races_with_listing_witness:
  "\<exists>st' a. st' = store_schedulable 0 (query_schedulable example_serde (account_store_new [example_row 4] 5))
       (snd (disable_account 0 None 4 AS_Disabled ''403'' None (account_store_new [example_row 4] 5))) \<and>
     (\<forall>r' \<in> set (ast_rows st'). row_id r' = 4 \<longrightarrow> row_status r' = ''disabled'') \<and>
     get_schedulable_cached (29 * 10 ^ 9) 4 st' = Some a \<and> is_schedulable a"
  using disable_races_with_listing [of "example_row 4" "account_store_new [example_row 4] 5",
      OF _ _ refl refl, where S = example_serde and inst = 0 and now = 0 and why = "''403''"
        and t = "29 * 10 ^ 9"]
  by (auto simp: account_store_new_def SCHEDULABLE_TTL_def)

text \<open>
  An account created and read back. A creation that succeeds makes the account readable
  under its new identifier, with every field it was created with: times at whole seconds, the
  environment at the current release, and the bookkeeping fields at their defaults.
\<close>

theorem create_then_get:
  assumes "create S now cf None a st = (Inr a', st')"
    and "\<forall>r \<in> set (ast_rows st). row_id r < ast_next_id st"
    and "serde_ok S (normalize_canonical_env_json (acc_canonical_env a))"
    and "serde_ok S (acc_canonical_prompt a)" "serde_ok S (acc_canonical_process a)"
    and "sj_from_str S ''{}'' = Some (JObj [])"
  shows "get_by_id S None (acc_id a') st' =
    Inr (a\<lparr>acc_id := ast_next_id st,
           acc_expires_at := map_option fmt_time (acc_expires_at a),
           acc_oauth_refreshed_at := map_option fmt_time (acc_oauth_refreshed_at a),
           acc_canonical_env := normalize_canonical_env_json (acc_canonical_env a),
           acc_rate_limited_at := None, acc_rate_limit_reset_at := None, acc_disable_reason := [],
           acc_telemetry_count := 0, acc_usage_data := JObj [], acc_usage_fetched_at := None,
           acc_created_at := fmt_time now, acc_updated_at := fmt_time now\<rparr>)"
proof -
  let ?a = "a\<lparr>acc_canonical_env := normalize_canonical_env_json (acc_canonical_env a)\<rparr>"
  let ?r = "insert_row S now (ast_next_id st) ?a"
  have st': "ast_rows st' = ast_rows st @ [?r]" and a': "acc_id a' = ast_next_id st"
    using assms(1) by (auto simp: create_def Let_def invalidate_schedulable_cache_def
        insert_row_def split: if_splits option.splits)
  have "find (\<lambda>r. row_id r = ast_next_id st) (ast_rows st) = None"
    using assms(2) by (auto simp: find_None_iff)
  then have "find (\<lambda>r. row_id r = ast_next_id st) (ast_rows st') = Some ?r"
    by (simp add: st' find_append insert_row_def)
  then show ?thesis
    using assms(3-6)
    by (simp add: get_by_id_def a' row_to_account_def insert_row_def parse_json_col_def serde_ok_def
        normalize_idempotent)
qed

text \<open>A text form that is faithful on the documents of one account.\<close>

definition env_serde :: serde_lib where
  "env_serde =
     \<lparr>sj_to_string = (\<lambda>j. if j = JObj [] then ''{}'' else ''E''),
      sj_from_str = (\<lambda>s. if s = ''{}'' then Some (JObj [])
                       else Some (normalize_canonical_env_json (JObj [])))\<rparr>"

definition example_account :: account where
  "example_account = (row_to_account example_serde (example_row 0))
     \<lparr>acc_canonical_env := JObj [], acc_email := ''x''\<rparr>"

theorem create_then_get_witness:
  "\<exists>a' st'. create env_serde 7 None None example_account (account_store_new [example_row 4] 5)
       = (Inr a', st') \<and>
     (\<exists>b. get_by_id env_serde None (acc_id a') st' = Inr b \<and> acc_id b = 5 \<and> acc_email b = ''x'')"
proof -
  let ?st = "account_store_new [example_row 4] 5"
  have mail: "acc_email example_account = ''x''" "row_email (example_row 4) = ''e''"
    by (simp_all add: example_account_def example_row_def)
  obtain a' st' where c: "create env_serde 7 None None example_account ?st = (Inr a', st')"
    by (simp add: create_def account_store_new_def Let_def mail)
  have docs: "acc_canonical_env example_account = JObj []"
    "acc_canonical_prompt example_account = JObj []" "acc_canonical_process example_account = JObj []"
    by (simp_all add: example_account_def row_to_account_def parse_json_col_def example_serde_def)
  have ok: "serde_ok env_serde (JObj [])" "serde_ok env_serde (normalize_canonical_env_json (JObj []))"
    by (simp_all add: serde_ok_def env_serde_def)
  have env: "sj_from_str env_serde ''{}'' = Some (JObj [])"
    by (simp add: env_serde_def)
  show ?thesis
    using create_then_get [OF c] c
    by (simp add: docs ok mail account_store_new_def env)
qed

text \<open>
  Pages partition the account list. With a page size of at least one the pages are
  consecutive slices of the full list, so that the pages up to the last one give every account
  exactly once and in order.
\<close>

lemma list_paged_slice:
  assumes "1 \<le> page" "0 \<le> sz" "i64_range page" "i64_range ((page - 1) * sz)"
  shows "list_paged S None page sz st =
    Inr (map (row_to_account S) (take (nat sz) (drop (nat ((page - 1) * sz)) (ordered (ast_rows st)))))"
proof -
  have "i64_range (page - 1)"
    using assms(1,3) by (simp add: i64_range_def)
  then show ?thesis
    using assms by (simp add: list_paged_def i64_wrap_id Let_def)
qed

theorem pages_partition_list:
  assumes "0 < sz" "i64_range (int (npages * sz))"
    and "length (ast_rows st) \<le> npages * sz"
  shows "\<exists>pages. map (\<lambda>p. list_paged S None (int p + 1) (int sz) st) [0..<npages] = map Inr pages \<and>
    list_all_accounts S None st = Inr (concat pages)"
proof -
  let ?xs = "map (row_to_account S) (ordered (ast_rows st))"
  let ?pages = "map (\<lambda>p. take sz (drop (p * sz) ?xs)) [0..<npages]"
  have page: "list_paged S None (int p + 1) (int sz) st = Inr (take sz (drop (p * sz) ?xs))"
    if "p < npages" for p
  proof -
    have "p * sz \<le> npages * sz" "npages \<le> npages * sz"
      using that assms(1) by simp_all
    then have "int p * int sz \<le> int (npages * sz)" "int p + 1 \<le> int (npages * sz)"
      using that by (simp_all only: flip: of_nat_mult)
    moreover have "0 \<le> int p * int sz"
      by simp
    ultimately have "i64_range (int p + 1)" "i64_range (int p * int sz)"
      using assms(2) unfolding i64_range_def by linarith+
    then show ?thesis
      using list_paged_slice [of "int p + 1" "int sz" S st]
      by (simp add: take_map drop_map nat_mult_distrib)
  qed
  have "concat ?pages = ?xs"
    using assms(3) by (simp add: concat_slices ordered_def)
  then show ?thesis
    using page by (intro exI [of _ ?pages]) (simp add: list_all_accounts_def)
qed

theorem pages_partition_list_witness:
  "\<exists>pages. map (\<lambda>p. list_paged example_serde None (int p + 1) (int 2)
        (account_store_new [example_row 4, example_row 5, example_row 6] 7)) [0..<2] = map Inr pages \<and>
    list_all_accounts example_serde None
      (account_store_new [example_row 4, example_row 5, example_row 6] 7) = Inr (concat pages)"
  by (rule pages_partition_list) (simp_all add: i64_range_def account_store_new_def)

end
