(* ===== verification/Account_Service.thy ===== *)
theory Account_Service
  imports Limit_Facts Cache Account_Store
begin

text \<open>
  The account service (\<open>src/service/account.rs\<close>) and the database flush of the limit store
  (\<open>flush_to_db\<close> of \<open>src/service/limit.rs\<close>): account selection with sticky sessions, slots, usage
  queries with their cooldown, and the resolution and refresh of the upstream token.

  The service state holds the account store, the cache with its operations, the limit store and
  the cooldown map. What a call reads from outside is an argument: the clocks, the errors of
  the database statements, the random draw, the answer of the OAuth server and of the usage
  endpoint (\<open>src/service/oauth.rs\<close>, network I/O). A call runs without interference, except where it
  sleeps: what other tasks do to the account store meanwhile is an argument too.
\<close>

section \<open>State and constants\<close>

definition STICKY_SESSION_TTL :: int where "STICKY_SESSION_TTL = 24 * 60 * 60 * 10 ^ 9"
definition OAUTH_REFRESH_BUFFER_SECONDS :: int where "OAUTH_REFRESH_BUFFER_SECONDS = 5 * 60"
definition OAUTH_LOCK_TTL :: int where "OAUTH_LOCK_TTL = 30 * 10 ^ 9"
definition OAUTH_WAIT_ATTEMPTS :: nat where "OAUTH_WAIT_ATTEMPTS = 20"
definition USAGE_FRESH_TTL :: int where "USAGE_FRESH_TTL = 60 * 10 ^ 9"
definition USAGE_429_COOLDOWN :: int where "USAGE_429_COOLDOWN = 60 * 10 ^ 9"
definition SLOT_TTL :: int where "SLOT_TTL = 300 * 10 ^ 9"

record 'c account_service =
  svc_store :: account_store
  svc_cache :: 'c
  svc_limit :: limit_store
  svc_usage_cooldown :: "(int, int) hash_map"

definition account_service_new ::
  "account_store \<Rightarrow> 'c \<Rightarrow> limit_store \<Rightarrow> 'c account_service" where
  "account_service_new store cache ls =
     \<lparr>svc_store = store, svc_cache = cache, svc_limit = ls, svc_usage_cooldown = []\<rparr>"

section \<open>The usage cooldown\<close>

definition usage_in_cooldown ::
  "int \<Rightarrow> int \<Rightarrow> 'c account_service \<Rightarrow> bool \<times> 'c account_service" where
  "usage_in_cooldown inst aid svc =
     (case map_of (svc_usage_cooldown svc) aid of
        Some till \<Rightarrow>
          if till > inst then (True, svc)
          else (False, svc\<lparr>svc_usage_cooldown := AList.delete aid (svc_usage_cooldown svc)\<rparr>)
      | None \<Rightarrow> (False, svc))"

definition mark_usage_cooldown :: "int \<Rightarrow> int \<Rightarrow> 'c account_service \<Rightarrow> 'c account_service" where
  "mark_usage_cooldown inst aid svc =
     svc\<lparr>svc_usage_cooldown := AList.update aid (inst + USAGE_429_COOLDOWN) (svc_usage_cooldown svc)\<rparr>"

section \<open>Creating and updating accounts\<close>

definition normalize_account_auth :: "account \<Rightarrow> app_error + account" where
  "normalize_account_auth a =
     (case acc_auth_type a of
        SetupToken \<Rightarrow>
          if trim (acc_setup_token a) = [] then Inl (BadRequest ''setup_token is required'')
          else Inr (a\<lparr>acc_access_token := [], acc_refresh_token := [], acc_expires_at := None,
                      acc_oauth_refreshed_at := None, acc_auth_error := []\<rparr>)
      | Oauth \<Rightarrow>
          if trim (acc_refresh_token a) = [] then Inl (BadRequest ''refresh_token is required'')
          else
            let a = a\<lparr>acc_setup_token := [], acc_auth_error := []\<rparr>
            in Inr (if trim (acc_access_token a) = []
                    then a\<lparr>acc_access_token := [], acc_expires_at := None\<rparr> else a))"

text \<open>The drawn identity may panic only if the preset index is out of range.\<close>

definition create_account ::
  "serde_lib \<Rightarrow> nat list \<Rightarrow> nat \<Rightarrow> int \<Rightarrow> sqlx_error option \<Rightarrow> sqlx_error option \<Rightarrow> account
     \<Rightarrow> 'c account_service \<Rightarrow> (app_error + account) outcome \<times> 'c account_service" where
  "create_account S bytes pick now count_fault insert_fault a svc =
     (case generate_canonical_identity bytes pick of
        Panic \<Rightarrow> (Panic, svc)
      | Done (device_id, env, prompt, process) \<Rightarrow>
          (let a = a\<lparr>acc_device_id := device_id, acc_canonical_env := env,
                     acc_canonical_prompt := prompt, acc_canonical_process := process\<rparr>;
               a = (if acc_concurrency a = 0 then a\<lparr>acc_concurrency := 3\<rparr> else a);
               a = (if acc_priority a = 0 then a\<lparr>acc_priority := 50\<rparr> else a)
           in case normalize_account_auth a of
                Inl e \<Rightarrow> (Done (Inl e), svc)
              | Inr a \<Rightarrow>
                  (let (r, st) = create S now count_fault insert_fault a (svc_store svc)
                   in (Done r, svc\<lparr>svc_store := st\<rparr>))))"

definition update_account ::
  "serde_lib \<Rightarrow> int \<Rightarrow> sqlx_error option \<Rightarrow> account \<Rightarrow> 'c account_service
     \<Rightarrow> (app_error + unit) \<times> 'c account_service" where
  "update_account S now fault a svc =
     (case normalize_account_auth a of
        Inl e \<Rightarrow> (Inl e, svc)
      | Inr normalized \<Rightarrow>
          (let (r, st) = update S now fault normalized (svc_store svc)
           in (r, svc\<lparr>svc_store := st\<rparr>)))"

definition list_accounts_paged ::
  "serde_lib \<Rightarrow> sqlx_error option \<Rightarrow> sqlx_error option \<Rightarrow> int \<Rightarrow> int \<Rightarrow> 'c account_service
     \<Rightarrow> app_error + (account list \<times> int)" where
  "list_accounts_paged S count_fault list_fault page page_size svc =
     (case count_accounts count_fault (svc_store svc) of
        Inl e \<Rightarrow> Inl e
      | Inr n \<Rightarrow>
          (case list_paged S list_fault page page_size (svc_store svc) of
             Inl e \<Rightarrow> Inl e
           | Inr accounts \<Rightarrow> Inr (accounts, n)))"

section \<open>Selecting an account\<close>

definition token_permits :: "int list \<Rightarrow> int list \<Rightarrow> int \<Rightarrow> bool" where
  "token_permits exclude_ids allowed_ids aid \<longleftrightarrow>
     aid \<notin> set exclude_ids \<and> (allowed_ids = [] \<or> aid \<in> set allowed_ids)"

text \<open>The filter asks the limit store only about accounts the token permits.\<close>

fun filter_candidates ::
  "lib \<Rightarrow> int \<Rightarrow> limit_store \<Rightarrow> model_class \<Rightarrow> int list \<Rightarrow> int list \<Rightarrow> account list
     \<Rightarrow> account list outcome" where
  "filter_candidates L now ls mc exclude_ids allowed_ids [] = Done []"
| "filter_candidates L now ls mc exclude_ids allowed_ids (a # as) =
     (if \<not> token_permits exclude_ids allowed_ids (acc_id a)
      then filter_candidates L now ls mc exclude_ids allowed_ids as
      else
        outcome_bind (account_availability L now ls (acc_id a) mc)
          (\<lambda>av. outcome_bind (filter_candidates L now ls mc exclude_ids allowed_ids as)
             (\<lambda>cs. Done (if is_available av then a # cs else cs))))"

text \<open>
  \<open>draw n\<close> is the result of \<open>gen_range(0..n)\<close>, which panics on an empty range.
\<close>

definition valid_draw :: "(nat \<Rightarrow> nat) \<Rightarrow> bool" where
  "valid_draw draw \<longleftrightarrow> (\<forall>n > 0. draw n < n)"

definition select_by_priority :: "(nat \<Rightarrow> nat) \<Rightarrow> account list \<Rightarrow> account outcome" where
  "select_by_priority draw accounts =
     (if length accounts = 1 then Done (accounts ! 0)
      else
        let best_priority = (if accounts = [] then 50 else Min (set (map acc_priority accounts)));
            best = filter (\<lambda>a. acc_priority a = best_priority) accounts
        in if best = [] then Panic else Done (best ! draw (length best)))"

text \<open>The account of a binding: the cached list first, the database on a miss.\<close>

definition bound_account ::
  "serde_lib \<Rightarrow> int \<Rightarrow> sqlx_error option \<Rightarrow> int \<Rightarrow> account_store \<Rightarrow> account option" where
  "bound_account S inst get_fault account_id st =
     (case get_schedulable_cached inst account_id st of
        Some a \<Rightarrow> Some a
      | None \<Rightarrow> (case get_by_id S get_fault account_id st of Inr a \<Rightarrow> Some a | Inl _ \<Rightarrow> None))"

text \<open>
  The sticky part: \<open>Done (Some a)\<close> when the bound account may serve the request, \<open>Done None\<close> when
  the request goes on to a fresh selection, with the stale binding deleted.
\<close>

definition sticky_account ::
  "serde_lib \<Rightarrow> lib \<Rightarrow> 'c cache_ops \<Rightarrow> int \<Rightarrow> int \<Rightarrow> sqlx_error option \<Rightarrow> string \<Rightarrow> int list
     \<Rightarrow> int list \<Rightarrow> model_class \<Rightarrow> 'c account_service
     \<Rightarrow> account option outcome \<times> 'c account_service" where
  "sticky_account S L ops now inst get_fault session_hash exclude_ids allowed_ids mc svc =
     (if session_hash = [] then (Done None, svc)
      else
        let (bound, c) = co_get_session_account_id ops inst session_hash (svc_cache svc);
            svc = svc\<lparr>svc_cache := c\<rparr>
        in case bound of
             Inr (Some account_id) \<Rightarrow>
               if account_id > 0 then
                 let account_opt = bound_account S inst get_fault account_id (svc_store svc);
                     forget = svc\<lparr>svc_cache :=
                       snd (co_delete_session ops inst session_hash (svc_cache svc))\<rparr>
                 in case account_opt of
                      None \<Rightarrow> (Done None, forget)
                    | Some account \<Rightarrow>
                        (case account_availability L now (svc_limit svc) account_id mc of
                           Panic \<Rightarrow> (Panic, svc)
                         | Done av \<Rightarrow>
                             if is_schedulable account
                                \<and> token_permits exclude_ids allowed_ids account_id
                                \<and> is_available av
                             then (Done (Some account), svc)
                             else (Done None, forget))
               else (Done None, svc)
           | _ \<Rightarrow> (Done None, svc))"

definition select_account ::
  "serde_lib \<Rightarrow> lib \<Rightarrow> 'c cache_ops \<Rightarrow> int \<Rightarrow> int \<Rightarrow> sqlx_error option \<Rightarrow> sqlx_error option
     \<Rightarrow> (nat \<Rightarrow> nat) \<Rightarrow> string \<Rightarrow> int list \<Rightarrow> int list \<Rightarrow> model_class \<Rightarrow> 'c account_service
     \<Rightarrow> (app_error + account) outcome \<times> 'c account_service" where
  "select_account S L ops now inst get_fault list_fault draw session_hash exclude_ids allowed_ids mc svc =
     (case sticky_account S L ops now inst get_fault session_hash exclude_ids allowed_ids mc svc of
        (Panic, svc) \<Rightarrow> (Panic, svc)
      | (Done (Some a), svc) \<Rightarrow> (Done (Inr a), svc)
      | (Done None, svc) \<Rightarrow>
          (let (listed, st) = list_schedulable S inst list_fault (svc_store svc);
               svc = svc\<lparr>svc_store := st\<rparr>
           in case listed of
                Inl e \<Rightarrow> (Done (Inl e), svc)
              | Inr accounts \<Rightarrow>
                  (case filter_candidates L now (svc_limit svc) mc exclude_ids allowed_ids accounts of
                     Panic \<Rightarrow> (Panic, svc)
                   | Done candidates \<Rightarrow>
                       if candidates = []
                       then (Done (Inl (ServiceUnavailable ''no available accounts'')), svc)
                       else
                         (case select_by_priority draw candidates of
                            Panic \<Rightarrow> (Panic, svc)
                          | Done selected \<Rightarrow>
                              (Done (Inr selected),
                               if session_hash = [] then svc
                               else svc\<lparr>svc_cache := snd (co_set_session_account_id ops inst
                                      session_hash (acc_id selected) STICKY_SESSION_TTL
                                      (svc_cache svc))\<rparr>)))))"

section \<open>Slots\<close>

definition slot_key :: "int \<Rightarrow> string" where
  "slot_key account_id = ''concurrency:account:'' @ int_to_string account_id"

definition svc_acquire_slot ::
  "'c cache_ops \<Rightarrow> int \<Rightarrow> int \<Rightarrow> int \<Rightarrow> 'c account_service
     \<Rightarrow> (app_error + bool) \<times> 'c account_service" where
  "svc_acquire_slot ops inst account_id mx svc =
     (let (r, c) = co_acquire_slot ops inst (slot_key account_id) mx SLOT_TTL (svc_cache svc)
      in (r, svc\<lparr>svc_cache := c\<rparr>))"

definition svc_release_slot ::
  "'c cache_ops \<Rightarrow> int \<Rightarrow> int \<Rightarrow> 'c account_service \<Rightarrow> 'c account_service" where
  "svc_release_slot ops inst account_id svc =
     svc\<lparr>svc_cache := co_release_slot ops inst (slot_key account_id) (svc_cache svc)\<rparr>"

definition slot_holder_for :: "int \<Rightarrow> slot_holder" where
  "slot_holder_for account_id = slot_holder_new (slot_key account_id)"

section \<open>Upstream tokens\<close>

record refreshed_oauth_tokens =
  rt_access_token :: string
  rt_refresh_token :: string
  rt_expires_at :: int

text \<open>
  What one resolution reads from outside: the successive readings of the wall clock, the instant
  of the lock calls, the drawn lock owner, the errors of the successive statements, the answer of
  the OAuth server to a refresh token and a proxy, and, for a task that waits, what other
  tasks make of the account store before each poll with the error of that poll.
\<close>

record oauth_env =
  oe_now :: "nat \<Rightarrow> int"
  oe_inst :: int
  oe_owner :: string
  oe_fault :: "nat \<Rightarrow> sqlx_error option"
  oe_refresh :: "string \<Rightarrow> string \<Rightarrow> app_error + refreshed_oauth_tokens"
  oe_others :: "nat \<Rightarrow> account_store \<Rightarrow> account_store"
  oe_poll_now :: "nat \<Rightarrow> int"
  oe_poll_fault :: "nat \<Rightarrow> sqlx_error option"

definition missing_refresh_token_error :: app_error where
  "missing_refresh_token_error = ServiceUnavailable ''oauth refresh token is empty''"

definition refresh_oauth_access_token ::
  "serde_lib \<Rightarrow> oauth_env \<Rightarrow> int \<Rightarrow> account_store \<Rightarrow> (app_error + string) \<times> account_store" where
  "refresh_oauth_access_token S E aid st =
     (case get_by_id S (oe_fault E 0) aid st of
        Inl e \<Rightarrow> (Inl e, st)
      | Inr latest \<Rightarrow>
          if has_valid_oauth_access_token (oe_now E 1) latest OAUTH_REFRESH_BUFFER_SECONDS
          then (Inr (acc_access_token latest), st)
          else if acc_refresh_token latest = []
          then (Inl missing_refresh_token_error,
                snd (update_auth_error (oe_now E 2) (oe_fault E 1) aid ''missing refresh token'' st))
          else
            let fallback_access_token = acc_access_token latest;
                fallback_is_still_valid =
                  (case acc_expires_at latest of None \<Rightarrow> False | Some t \<Rightarrow> t > oe_now E 3)
            in case oe_refresh E (acc_refresh_token latest) (acc_proxy_url latest) of
                 Inr tokens \<Rightarrow>
                   (case update_oauth_tokens (oe_now E 4) (oe_fault E 2) aid
                           (rt_access_token tokens) (rt_refresh_token tokens)
                           (rt_expires_at tokens) st of
                      (Inl e, st) \<Rightarrow> (Inl e, st)
                    | (Inr _, st) \<Rightarrow> (Inr (rt_access_token tokens), st))
               | Inl err \<Rightarrow>
                   (let msg = app_error_to_string err;
                        st = snd (update_auth_error (oe_now E 4) (oe_fault E 2) aid msg st)
                    in if fallback_is_still_valid \<and> fallback_access_token \<noteq> []
                       then (Inr fallback_access_token, st)
                       else (Inl (ServiceUnavailable (''oauth refresh failed: '' @ msg)), st)))"

text \<open>The polls of a task that did not get the lock, from poll \<open>i\<close> on with \<open>n\<close> polls left.\<close>

fun wait_for_token ::
  "serde_lib \<Rightarrow> oauth_env \<Rightarrow> int \<Rightarrow> nat \<Rightarrow> nat \<Rightarrow> account_store
     \<Rightarrow> (app_error + string) \<times> account_store" where
  "wait_for_token S E aid i 0 st = (Inl (ServiceUnavailable ''oauth token refresh timeout''), st)"
| "wait_for_token S E aid i (Suc n) st =
     (let st = oe_others E i st
      in case get_by_id S (oe_poll_fault E i) aid st of
           Inl e \<Rightarrow> (Inl e, st)
         | Inr latest \<Rightarrow>
             if has_valid_oauth_access_token (oe_poll_now E i) latest OAUTH_REFRESH_BUFFER_SECONDS
             then (Inr (acc_access_token latest), st)
             else wait_for_token S E aid (Suc i) n st)"

definition lock_key :: "int \<Rightarrow> string" where
  "lock_key account_id = ''oauth:refresh:account:'' @ int_to_string account_id"

definition resolve_oauth_access_token ::
  "serde_lib \<Rightarrow> 'c cache_ops \<Rightarrow> oauth_env \<Rightarrow> account \<Rightarrow> 'c account_service
     \<Rightarrow> (app_error + string) \<times> 'c account_service" where
  "resolve_oauth_access_token S ops E account svc =
     (if has_valid_oauth_access_token (oe_now E 0) account OAUTH_REFRESH_BUFFER_SECONDS
      then (Inr (acc_access_token account), svc)
      else if acc_refresh_token account = []
      then (Inl missing_refresh_token_error,
            svc\<lparr>svc_store := snd (update_auth_error (oe_now E 1) (oe_fault E 0) (acc_id account)
                   ''missing refresh token'' (svc_store svc))\<rparr>)
      else
        let key = lock_key (acc_id account);
            (acquired, c) = co_acquire_lock ops (oe_inst E) key (oe_owner E) OAUTH_LOCK_TTL (svc_cache svc);
            svc = svc\<lparr>svc_cache := c\<rparr>
        in case acquired of
             Inl e \<Rightarrow> (Inl e, svc)
           | Inr True \<Rightarrow>
               (let (result, st) = refresh_oauth_access_token S E (acc_id account) (svc_store svc)
                in (result, svc\<lparr>svc_store := st,
                      svc_cache := co_release_lock ops (oe_inst E) key (oe_owner E) (svc_cache svc)\<rparr>))
           | Inr False \<Rightarrow>
               (let (result, st) = wait_for_token S E (acc_id account) 0 OAUTH_WAIT_ATTEMPTS (svc_store svc)
                in (result, svc\<lparr>svc_store := st\<rparr>)))"

definition resolve_upstream_token_with ::
  "serde_lib \<Rightarrow> 'c cache_ops \<Rightarrow> oauth_env \<Rightarrow> account \<Rightarrow> 'c account_service
     \<Rightarrow> (app_error + string) \<times> 'c account_service" where
  "resolve_upstream_token_with S ops E account svc =
     (case acc_auth_type account of
        SetupToken \<Rightarrow>
          if acc_setup_token account = []
          then (Inl (ServiceUnavailable ''setup token is empty''), svc)
          else (Inr (acc_setup_token account), svc)
      | Oauth \<Rightarrow> resolve_oauth_access_token S ops E account svc)"

definition resolve_upstream_token ::
  "serde_lib \<Rightarrow> 'c cache_ops \<Rightarrow> oauth_env \<Rightarrow> sqlx_error option \<Rightarrow> int \<Rightarrow> 'c account_service
     \<Rightarrow> (app_error + string) \<times> 'c account_service" where
  "resolve_upstream_token S ops E get_fault aid svc =
     (case get_by_id S get_fault aid (svc_store svc) of
        Inl e \<Rightarrow> (Inl e, svc)
      | Inr account \<Rightarrow> resolve_upstream_token_with S ops E account svc)"

section \<open>Usage queries\<close>

definition usage_unsupported :: string where
  "usage_unsupported =
     [CHR 0xE9, CHR 0x95, CHR 0xBF, CHR 0xE6, CHR 0x95, CHR 0x88] @ '' Token '' @
     [CHR 0xE8, CHR 0xB4, CHR 0xA6, CHR 0xE5, CHR 0x8F, CHR 0xB7, CHR 0xE4, CHR 0xB8, CHR 0x8D,
      CHR 0xE6, CHR 0x94, CHR 0xAF, CHR 0xE6, CHR 0x8C, CHR 0x81, CHR 0xE6, CHR 0x9F, CHR 0xA5,
      CHR 0xE8, CHR 0xAF, CHR 0xA2, CHR 0xE7, CHR 0x94, CHR 0xA8, CHR 0xE9, CHR 0x87, CHR 0x8F,
      CHR 0xEF, CHR 0xBC, CHR 0x88, CHR 0xE4, CHR 0xBB, CHR 0x85] @ '' OAuth '' @
     [CHR 0xE8, CHR 0xB4, CHR 0xA6, CHR 0xE5, CHR 0x8F, CHR 0xB7, CHR 0xE5, CHR 0x8F, CHR 0xAF,
      CHR 0xE7, CHR 0x94, CHR 0xA8, CHR 0xEF, CHR 0xBC, CHR 0x89]"

text \<open>
  A stored result is fresh when its age is at least zero whole seconds (\<open>num_seconds\<close> truncates
  towards zero), converts to a \<open>std\<close> duration, so is not negative, and is below the limit.
\<close>

definition usage_is_fresh :: "int \<Rightarrow> account \<Rightarrow> bool" where
  "usage_is_fresh now account =
     (case acc_usage_fetched_at account of
        None \<Rightarrow> False
      | Some fetched_at \<Rightarrow>
          (let age = now - fetched_at
           in rust_div age (10 ^ 9) \<ge> 0 \<and> 0 \<le> age \<and> age < USAGE_FRESH_TTL))"

text \<open>\<open>fetch\<close> is the usage endpoint: the answer for a token and a proxy.\<close>

definition refresh_usage ::
  "serde_lib \<Rightarrow> lib \<Rightarrow> 'c cache_ops \<Rightarrow> oauth_env \<Rightarrow> int \<Rightarrow> int \<Rightarrow> sqlx_error option
     \<Rightarrow> sqlx_error option \<Rightarrow> (string \<Rightarrow> string \<Rightarrow> app_error + json) \<Rightarrow> int \<Rightarrow> 'c account_service
     \<Rightarrow> (app_error + json) outcome \<times> 'c account_service" where
  "refresh_usage S L ops E now inst get_fault save_fault fetch aid svc =
     (case get_by_id S get_fault aid (svc_store svc) of
        Inl e \<Rightarrow> (Done (Inl e), svc)
      | Inr account \<Rightarrow>
          if acc_auth_type account \<noteq> Oauth then (Done (Inl (BadRequest usage_unsupported)), svc)
          else if usage_is_fresh now account then (Done (Inr (acc_usage_data account)), svc)
          else
            let (cooling, svc) = usage_in_cooldown inst aid svc
            in if cooling
               then (Done (Inl (TooManyRequests ''usage query in 60s local cooldown after recent 429'')), svc)
               else
                 let (token, svc) = resolve_oauth_access_token S ops E account svc
                 in case token of
                      Inl e \<Rightarrow> (Done (Inl e), svc)
                    | Inr token \<Rightarrow>
                        (case fetch token (acc_proxy_url account) of
                           Inr usage \<Rightarrow>
                             (case update_usage now save_fault aid (sj_to_string S usage) (svc_store svc) of
                                (Inl e, st) \<Rightarrow> (Done (Inl e), svc\<lparr>svc_store := st\<rparr>)
                              | (Inr _, st) \<Rightarrow>
                                  (let svc = svc\<lparr>svc_store := st\<rparr>
                                   in case ingest_usage_json L inst (svc_limit svc) aid usage of
                                        (Panic, ls) \<Rightarrow> (Panic, svc\<lparr>svc_limit := ls\<rparr>)
                                      | (Done _, ls) \<Rightarrow> (Done (Inr usage), svc\<lparr>svc_limit := ls\<rparr>)))
                         | Inl e \<Rightarrow>
                             (Done (Inl e),
                              (case e of TooManyRequests _ \<Rightarrow> mark_usage_cooldown inst aid svc
                               | _ \<Rightarrow> svc))))"

section \<open>Flushing the limit state\<close>

definition flush_to_db ::
  "serde_lib \<Rightarrow> lib \<Rightarrow> int \<Rightarrow> sqlx_error option \<Rightarrow> sqlx_error option \<Rightarrow> int \<Rightarrow> limit_store
     \<Rightarrow> account_store \<Rightarrow> (app_error + unit) outcome \<times> account_store" where
  "flush_to_db S L now usage_fault limit_fault aid ls st =
     (if lst_poisoned ls then (Panic, st)
      else
        case map_of (lst_states ls) aid of
          None \<Rightarrow> (Done (Inr ()), st)
        | Some state \<Rightarrow>
            (let limit_until = (case bottleneck_limit_until now state of
                                  Some t \<Rightarrow> Some t | None \<Rightarrow> ls_rate_limited_until state)
             in case update_usage now usage_fault aid (sj_to_string S (build_usage_json L state)) st of
                  (Inl e, st) \<Rightarrow> (Done (Inl e), st)
                | (Inr _, st) \<Rightarrow>
                    (case limit_until of
                       Some reset_at \<Rightarrow>
                         (let (r, st) = set_rate_limit now limit_fault aid reset_at st in (Done r, st))
                     | None \<Rightarrow>
                         (let (r, st) = clear_rate_limit now limit_fault aid st in (Done r, st)))))"

section \<open>Session hashes\<close>

datatype client_type = ClaudeCode | API

text \<open>The first item of a content array that has a text.\<close>

fun first_text :: "json list \<Rightarrow> string" where
  "first_text [] = []"
| "first_text (item # items) =
     (case Option.bind (jget item ''text'') as_str of Some t \<Rightarrow> t | None \<Rightarrow> first_text items)"

definition content_text :: "json option \<Rightarrow> string" where
  "content_text v = (case v of Some (JStr s) \<Rightarrow> s | Some (JArr items) \<Rightarrow> first_text items | _ \<Rightarrow> [])"

definition first_message_text :: "json \<Rightarrow> string" where
  "first_message_text body =
     (case Option.bind (jget body ''messages'') as_array of
        Some (msg # _) \<Rightarrow> (case as_object msg of Some m \<Rightarrow> content_text (map_of m ''content'') | None \<Rightarrow> [])
      | _ \<Rightarrow> [])"

definition metadata_session :: "serde_lib \<Rightarrow> json \<Rightarrow> string option" where
  "metadata_session S body =
     (case Option.bind (jget body ''metadata'') as_object of
        None \<Rightarrow> None
      | Some metadata \<Rightarrow>
          (case Option.bind (map_of metadata ''user_id'') as_str of
             None \<Rightarrow> None
           | Some user_id_str \<Rightarrow>
               (case Option.bind (sj_from_str S user_id_str)
                       (\<lambda>uid. Option.bind (jget uid ''session_id'') as_str) of
                  Some (c # sid) \<Rightarrow> Some (c # sid)
                | _ \<Rightarrow>
                    (case rfind_str ''_session_'' user_id_str of
                       Some idx \<Rightarrow> Some (drop (idx + 9) user_id_str)
                     | None \<Rightarrow> None))))"

text \<open>\<open>sha256\<close> is the digest of the hash library.\<close>

definition generate_session_hash ::
  "serde_lib \<Rightarrow> (string \<Rightarrow> nat list) \<Rightarrow> string \<Rightarrow> json \<Rightarrow> client_type \<Rightarrow> string" where
  "generate_session_hash S sha256 user_agent body ct =
     (case (if ct = ClaudeCode then metadata_session S body else None) of
        Some sid \<Rightarrow> sid
      | None \<Rightarrow>
          (let content = content_text (jget body ''system'');
               content = (if content = [] then first_message_text body else content)
           in hex_encode (take 16 (sha256 (user_agent @ ''|'' @ content)))))"

section \<open>Candidates\<close>

text \<open>The accounts a request may be given, as a specification over the listed accounts.\<close>

definition eligible ::
  "lib \<Rightarrow> int \<Rightarrow> limit_store \<Rightarrow> model_class \<Rightarrow> int list \<Rightarrow> int list \<Rightarrow> account \<Rightarrow> bool" where
  "eligible L now ls mc exclude_ids allowed_ids a \<longleftrightarrow>
     token_permits exclude_ids allowed_ids (acc_id a) \<and>
     (\<exists>av. account_availability L now ls (acc_id a) mc = Done av \<and> is_available av)"

lemma availability_done: "\<not> lst_poisoned ls \<Longrightarrow> \<exists>av. account_availability L now ls i mc = Done av"
  by (simp add: account_availability_def)

lemma filter_candidates_eq:
  "\<not> lst_poisoned ls \<Longrightarrow>
   filter_candidates L now ls mc exclude_ids allowed_ids as =
     Done (filter (eligible L now ls mc exclude_ids allowed_ids) as)"
proof (induction as)
  case (Cons a as)
  obtain av where "account_availability L now ls (acc_id a) mc = Done av"
    using availability_done [OF Cons.prems] by blast
  then show ?case
    using Cons by (auto simp: eligible_def)
qed simp

lemma select_by_priority_best:
  assumes "as \<noteq> []" "valid_draw draw"
  shows "\<exists>a. select_by_priority draw as = Done a \<and> a \<in> set as \<and>
    (\<forall>b \<in> set as. acc_priority a \<le> acc_priority b)"
proof (cases "length as = 1")
  case True
  then obtain a where "as = [a]"
    by (auto simp: length_Suc_conv)
  then show ?thesis
    by (simp add: select_by_priority_def)
next
  case False
  let ?m = "Min (set (map acc_priority as))"
  let ?best = "filter (\<lambda>a. acc_priority a = ?m) as"
  have "?m \<in> set (map acc_priority as)"
    using assms(1) by (intro Min_in) auto
  then have ne: "?best \<noteq> []"
    by (auto simp: filter_empty_conv)
  then have "draw (length ?best) < length ?best"
    using assms(2) by (simp add: valid_draw_def)
  then have mem: "?best ! draw (length ?best) \<in> set ?best"
    by (rule nth_mem)
  have least: "?m \<le> acc_priority b" if "b \<in> set as" for b
    using that by simp
  have "select_by_priority draw as = Done (?best ! draw (length ?best))"
    using False assms(1) ne by (simp add: select_by_priority_def Let_def)
  then show ?thesis
    using mem least by (auto simp del: nth_mem)
qed

text \<open>Listed accounts are schedulable while the cached list is coherent with the table.\<close>

lemma list_schedulable_active:
  assumes "cache_coherent S st" "fst (list_schedulable S inst fault st) = Inr v" "a \<in> set v"
  shows "is_schedulable a"
proof -
  have "stable_part a \<in> stable_part ` set (query_schedulable S st)"
    using coherent_listing [OF assms(1,2)] assms(3) by (metis image_eqI list.set_map)
  then obtain r where "row_status r = ''active''" "stable_part a = stable_part (row_to_account S r)"
    by (auto simp: query_schedulable_member)
  then have "acc_status a = AS_Active"
    by (metis account_status_from_def row_to_account_sel(3) stable_part_sel(2))
  then show ?thesis
    by (simp add: is_schedulable_def)
qed

lemma get_by_id_id: "get_by_id S f i st = Inr a \<Longrightarrow> acc_id a = i"
  by (auto simp: get_by_id_def find_Some_iff split: option.splits)

lemma cached_id: "get_schedulable_cached inst i st = Some a \<Longrightarrow> acc_id a = i"
  by (auto simp: get_schedulable_cached_def find_Some_iff split: option.splits if_splits)

lemma bound_account_id: "bound_account S inst f i st = Some a \<Longrightarrow> acc_id a = i"
  by (auto simp: bound_account_def dest: get_by_id_id cached_id split: option.splits sum.splits)

lemma sticky_account_sound:
  assumes "sticky_account S L ops now inst gf h ex al mc svc = (Done (Some a), svc')"
  shows "is_schedulable a \<and> eligible L now (svc_limit svc) mc ex al a \<and> svc_store svc' = svc_store svc \<and>
    svc_limit svc' = svc_limit svc"
  using assms
  by (auto simp: sticky_account_def eligible_def Let_def dest: bound_account_id
      split: if_splits prod.splits sum.splits option.splits outcome.splits)

lemma sticky_account_keeps:
  assumes "sticky_account S L ops now inst gf h ex al mc svc = (r, svc')"
  shows "svc_store svc' = svc_store svc \<and> svc_limit svc' = svc_limit svc"
  using assms
  by (auto simp: sticky_account_def Let_def
      split: if_splits prod.splits sum.splits option.splits outcome.splits)

lemma sticky_account_no_panic:
  assumes "\<not> lst_poisoned (svc_limit svc)"
  shows "fst (sticky_account S L ops now inst gf h ex al mc svc) \<noteq> Panic"
  using assms
  by (auto simp: sticky_account_def Let_def account_availability_def
      split: if_splits prod.splits sum.splits option.splits outcome.splits)

lemma fresh_selection:
  assumes "\<not> lst_poisoned (svc_limit svc)" "valid_draw draw"
    and "sticky_account S L ops now inst gf h ex al mc svc = (Done None, svc1)"
    and "fst (list_schedulable S inst lf (svc_store svc)) = Inr v"
    and "\<exists>b \<in> set v. eligible L now (svc_limit svc) mc ex al b"
  shows "\<exists>a svc'. select_account S L ops now inst gf lf draw h ex al mc svc = (Done (Inr a), svc') \<and>
    a \<in> set v \<and> eligible L now (svc_limit svc) mc ex al a \<and>
    (\<forall>b \<in> set v. eligible L now (svc_limit svc) mc ex al b \<longrightarrow> acc_priority a \<le> acc_priority b) \<and>
    (h \<noteq> [] \<longrightarrow> svc_cache svc' =
       snd (co_set_session_account_id ops inst h (acc_id a) STICKY_SESSION_TTL (svc_cache svc1)))"
proof -
  let ?c = "filter (eligible L now (svc_limit svc) mc ex al) v"
  note keeps = sticky_account_keeps [OF assms(3)]
  obtain st' where l: "list_schedulable S inst lf (svc_store svc) = (Inr v, st')"
    using assms(4) by (metis prod.collapse)
  have ne: "?c \<noteq> []"
    using assms(5) by (auto simp: filter_empty_conv)
  then obtain a where "select_by_priority draw ?c = Done a" "a \<in> set ?c"
    "\<forall>b \<in> set ?c. acc_priority a \<le> acc_priority b"
    using select_by_priority_best [of ?c draw] assms(2) by blast
  then show ?thesis
    using assms(1,3) l keeps ne by (simp add: select_account_def Let_def filter_candidates_eq)
qed

lemma select_account_cases:
  assumes "\<not> lst_poisoned (svc_limit svc)" "valid_draw draw"
    and "select_account S L ops now inst gf lf draw h ex al mc svc = (r, svc')"
  obtains (sticky) a svc1 where "sticky_account S L ops now inst gf h ex al mc svc = (Done (Some a), svc1)"
      "r = Done (Inr a)" "svc' = svc1"
  | (fresh) a v svc1 where "sticky_account S L ops now inst gf h ex al mc svc = (Done None, svc1)"
      "fst (list_schedulable S inst lf (svc_store svc)) = Inr v" "r = Done (Inr a)"
      "a \<in> set v" "eligible L now (svc_limit svc) mc ex al a"
      "\<forall>b \<in> set v. eligible L now (svc_limit svc) mc ex al b \<longrightarrow> acc_priority a \<le> acc_priority b"
      "h \<noteq> [] \<Longrightarrow> svc_cache svc' =
         snd (co_set_session_account_id ops inst h (acc_id a) STICKY_SESSION_TTL (svc_cache svc1))"
  | (none) v where "fst (list_schedulable S inst lf (svc_store svc)) = Inr v"
      "\<forall>b \<in> set v. \<not> eligible L now (svc_limit svc) mc ex al b"
      "r = Done (Inl (ServiceUnavailable ''no available accounts''))"
  | (failed) e where "fst (list_schedulable S inst lf (svc_store svc)) = Inl e" "r = Done (Inl e)"
proof -
  obtain b svc1 where st: "sticky_account S L ops now inst gf h ex al mc svc = (Done b, svc1)"
    using sticky_account_no_panic [OF assms(1)] by (metis outcome.exhaust prod.collapse)
  note keeps = sticky_account_keeps [OF st]
  show thesis
  proof (cases b)
    case (Some a)
    then show thesis
      using st assms(3) sticky by (simp add: select_account_def)
  next
    case None
    obtain l st' where l: "list_schedulable S inst lf (svc_store svc) = (l, st')"
      by (cases "list_schedulable S inst lf (svc_store svc)")
    show thesis
    proof (cases l)
      case (Inl e)
      then show thesis
        using failed l None st keeps assms(3) by (simp add: select_account_def)
    next
      case (Inr v)
      show thesis
      proof (cases "\<exists>b \<in> set v. eligible L now (svc_limit svc) mc ex al b")
        case True
        then show thesis
          using fresh_selection [of svc draw S L ops now inst gf h ex al mc svc1 lf v] fresh
            assms l Inr st None by auto
      next
        case False
        then show thesis
          using none l Inr None st keeps assms(1,3)
          by (simp add: select_account_def filter_candidates_eq filter_empty_conv)
      qed
    qed
  qed
qed

lemma bound_account_reused:
  assumes "h \<noteq> []" "0 < i"
    and "co_get_session_account_id ops inst h (svc_cache svc) = (Inr (Some i), c')"
    and "bound_account S inst gf i (svc_store svc) = Some a" "is_schedulable a"
    and "eligible L now (svc_limit svc) mc ex al a"
  shows "fst (select_account S L ops now inst gf lf draw h ex al mc svc) = Done (Inr a)"
  using assms bound_account_id [OF assms(4)]
  by (auto simp: select_account_def sticky_account_def eligible_def Let_def)

text \<open>With a cache that keeps its contract, a binding made by a selection is found again.\<close>

context cache_contract
begin

lemma selection_sticks:
  assumes "co_set_session_account_id ops inst h i STICKY_SESSION_TTL c = (Inr (), c1)"
    and "\<forall>call \<in> set calls. call_time call \<le> t \<and> \<not> rebinds h call"
    and "t \<le> inst + STICKY_SESSION_TTL" "h \<noteq> []" "0 < i"
    and "svc_cache svc2 = cache_run ops calls c1"
    and "co_get_session_account_id ops t h (svc_cache svc2) = (Inr r, c2)"
    and "bound_account S t gf i (svc_store svc2) = Some b" "is_schedulable b"
    and "eligible L now (svc_limit svc2) mc ex al b"
  shows "fst (select_account S L ops now t gf lf draw h ex al mc svc2) = Done (Inr b)"
proof -
  have "r = Some i"
    using session_sticks [OF assms(1,2)] assms(3,6,7) by simp
  then show ?thesis
    using bound_account_reused assms by metis
qed

end

section \<open>Upstream tokens: lemmas\<close>

lemma wait_for_token_ok:
  assumes "wait_for_token S E aid i n st = (Inr t, st')"
  shows "\<exists>j latest. i \<le> j \<and> j < i + n \<and> get_by_id S (oe_poll_fault E j) aid st' = Inr latest \<and>
    has_valid_oauth_access_token (oe_poll_now E j) latest OAUTH_REFRESH_BUFFER_SECONDS \<and>
    t = acc_access_token latest"
  using assms
proof (induction n arbitrary: i st)
  case (Suc n)
  show ?case
  proof (cases "get_by_id S (oe_poll_fault E i) aid (oe_others E i st)")
    case (Inl e)
    then show ?thesis
      using Suc.prems by simp
  next
    case (Inr latest)
    show ?thesis
    proof (cases "has_valid_oauth_access_token (oe_poll_now E i) latest OAUTH_REFRESH_BUFFER_SECONDS")
      case True
      then have "t = acc_access_token latest" "st' = oe_others E i st"
        using Suc.prems Inr by simp_all
      then show ?thesis
        using Inr True by (intro exI [of _ i] exI [of _ latest]) simp
    next
      case False
      then have "wait_for_token S E aid (Suc i) n (oe_others E i st) = (Inr t, st')"
        using Suc.prems Inr by simp
      then obtain j l where "Suc i \<le> j" "j < Suc i + n" "get_by_id S (oe_poll_fault E j) aid st' = Inr l"
        "has_valid_oauth_access_token (oe_poll_now E j) l OAUTH_REFRESH_BUFFER_SECONDS"
        "t = acc_access_token l"
        using Suc.IH by blast
      then show ?thesis
        by (intro exI [of _ j] exI [of _ l]) simp
    qed
  qed
qed simp

text \<open>Neither the polls nor a resolution that waits look at the OAuth server.\<close>

lemma wait_for_token_offline:
  "wait_for_token S (E\<lparr>oe_refresh := f\<rparr>) aid i n st = wait_for_token S E aid i n st"
  by (induction n arbitrary: i st) (simp_all add: Let_def split: sum.split)

lemma refresh_ok:
  assumes "refresh_oauth_access_token S E aid st = (Inr t, st')"
  shows "\<exists>latest. get_by_id S (oe_fault E 0) aid st = Inr latest \<and>
    (t = acc_access_token latest \<and>
       (has_valid_oauth_access_token (oe_now E 1) latest OAUTH_REFRESH_BUFFER_SECONDS \<or>
        (\<exists>e. acc_expires_at latest = Some e \<and> oe_now E 3 < e) \<and> t \<noteq> []) \<or>
     (\<exists>tokens. oe_refresh E (acc_refresh_token latest) (acc_proxy_url latest) = Inr tokens \<and>
        t = rt_access_token tokens))"
  using assms
  by (auto simp: refresh_oauth_access_token_def Let_def
      split: sum.splits if_splits prod.splits option.splits)

lemma resolve_cases:
  assumes "resolve_oauth_access_token S ops E account svc = (r, svc')"
  obtains (current) "has_valid_oauth_access_token (oe_now E 0) account OAUTH_REFRESH_BUFFER_SECONDS"
      "r = Inr (acc_access_token account)" "svc' = svc"
  | (missing) "acc_refresh_token account = []" "r = Inl missing_refresh_token_error"
  | (lock_error) e c where "co_acquire_lock ops (oe_inst E) (lock_key (acc_id account)) (oe_owner E)
        OAUTH_LOCK_TTL (svc_cache svc) = (Inl e, c)" "r = Inl e"
  | (refresh) st c where "co_acquire_lock ops (oe_inst E) (lock_key (acc_id account)) (oe_owner E)
        OAUTH_LOCK_TTL (svc_cache svc) = (Inr True, c)"
      "refresh_oauth_access_token S E (acc_id account) (svc_store svc) = (r, st)"
      "svc' = svc\<lparr>svc_store := st, svc_cache :=
         co_release_lock ops (oe_inst E) (lock_key (acc_id account)) (oe_owner E) c\<rparr>"
  | (wait) st c where "co_acquire_lock ops (oe_inst E) (lock_key (acc_id account)) (oe_owner E)
        OAUTH_LOCK_TTL (svc_cache svc) = (Inr False, c)"
      "wait_for_token S E (acc_id account) 0 OAUTH_WAIT_ATTEMPTS (svc_store svc) = (r, st)"
      "svc' = svc\<lparr>svc_cache := c, svc_store := st\<rparr>"
proof -
  obtain l c where lc: "co_acquire_lock ops (oe_inst E) (lock_key (acc_id account)) (oe_owner E)
        OAUTH_LOCK_TTL (svc_cache svc) = (l, c)"
    by (cases "co_acquire_lock ops (oe_inst E) (lock_key (acc_id account)) (oe_owner E)
        OAUTH_LOCK_TTL (svc_cache svc)")
  show thesis
  proof (cases "has_valid_oauth_access_token (oe_now E 0) account OAUTH_REFRESH_BUFFER_SECONDS")
    case True
    then show thesis
      using assms current by (simp add: resolve_oauth_access_token_def)
  next
    case valid: False
    show thesis
    proof (cases "acc_refresh_token account = []")
      case True
      then show thesis
        using assms valid missing by (simp add: resolve_oauth_access_token_def)
    next
      case False
      note def = resolve_oauth_access_token_def [of S ops E account svc]
      consider e where "l = Inl e" | "l = Inr True" | "l = Inr False"
        by (cases l) auto
      then show thesis
      proof cases
        case 1
        then show thesis
          using assms valid False lc lock_error by (simp add: def)
      next
        case 2
        then show thesis
          using assms valid False lc refresh by (simp add: def Let_def split: prod.splits)
      next
        case 3
        then show thesis
          using assms valid False lc wait by (simp add: def Let_def split: prod.splits)
      qed
    qed
  qed
qed

section \<open>Properties\<close>

definition example_svc :: "memory_store account_service" where
  "example_svc =
     account_service_new (account_store_new [example_row 4] 5) memory_store_new limit_store_new"

lemma example_svc_sel [simp]:
  "svc_store example_svc = account_store_new [example_row 4] 5"
  "svc_limit example_svc = limit_store_new" "svc_cache example_svc = memory_store_new"
  "svc_usage_cooldown example_svc = []"
  by (simp_all add: example_svc_def account_service_new_def)

lemma availability_new [simp]: "account_availability L now limit_store_new i mc = Done Available"
  by (simp add: account_availability_def limit_store_new_def)

lemma not_poisoned_new [simp]: "\<not> lst_poisoned limit_store_new"
  by (simp add: limit_store_new_def)


lemma example_listing:
  "fst (list_schedulable S inst None (account_store_new [example_row 4] 5)) =
     Inr [row_to_account S (example_row 4)]"
  by (simp add: list_schedulable_def cached_schedulable_def account_store_new_def
      query_schedulable_def ordered_def Let_def)


text \<open>
  C9. Sticky sessions. Once a fresh selection has bound a session to an account, every later
  selection of that session within the 24 hours of the binding returns that account, whatever the
  random draw and whatever other calls reach the cache, as long as the account is still active,
  permitted and available.
\<close>

theorem selection_is_sticky:
  assumes "sticky_account S L memory_cache now inst gf h ex al mc svc = (Done None, svc0)"
    and "\<not> lst_poisoned (svc_limit svc)" "valid_draw draw"
    and "select_account S L memory_cache now inst gf lf draw h ex al mc svc = (Done (Inr a), svc1)"
    and "h \<noteq> []" "0 < acc_id a"
    and "\<forall>call \<in> set calls. call_time call \<le> t \<and> \<not> rebinds h call" "t \<le> inst + STICKY_SESSION_TTL"
    and "svc_cache svc2 = cache_run memory_cache calls (svc_cache svc1)"
    and "bound_account S t gf2 (acc_id a) (svc_store svc2) = Some b" "is_schedulable b"
    and "eligible L now2 (svc_limit svc2) mc2 ex2 al2 b"
  shows "fst (select_account S L memory_cache now2 t gf2 lf2 draw2 h ex2 al2 mc2 svc2) = Done (Inr b) \<and>
    acc_id b = acc_id a"
proof -
  have c1: "svc_cache svc1 =
      snd (mem_set_session_account_id inst h (acc_id a) STICKY_SESSION_TTL (svc_cache svc0))"
    using assms(2,3,4)
  proof (cases rule: select_account_cases)
    case (fresh a' v s)
    then show ?thesis
      using assms(1,5) by simp
  qed (use assms(1) in simp_all)
  obtain r c2 where "mem_get_session_account_id t h (svc_cache svc2) = (Inr r, c2)"
    using mem_get_session_ok by blast
  then have "fst (select_account S L memory_cache now2 t gf2 lf2 draw2 h ex2 al2 mc2 svc2) = Done (Inr b)"
    using mem.selection_sticks [of inst h "acc_id a" "svc_cache svc0" "svc_cache svc1" calls t svc2]
      assms c1 by (simp add: mem_set_session_account_id_def)
  then show ?thesis
    using bound_account_id [OF assms(10)] by simp
qed

lemma example_sticky_none:
  "sticky_account S L memory_cache 0 0 None ''h'' [] [] Opus example_svc = (Done None, example_svc)"
  by (simp add: sticky_account_def mem_get_session_account_id_def memory_store_new_def)

lemma example_select:
  "\<exists>svc1. select_account example_serde example_lib memory_cache 0 0 None None (\<lambda>_. 0) ''h'' [] [] Opus example_svc
     = (Done (Inr (row_to_account example_serde (example_row 4))), svc1) \<and>
     ast_cache (svc_store svc1) = Some (0, [row_to_account example_serde (example_row 4)]) \<and>
     svc_limit svc1 = limit_store_new"
  by (simp add: select_account_def example_sticky_none list_schedulable_def cached_schedulable_def
      account_store_new_def query_schedulable_def ordered_def store_schedulable_def Let_def
      token_permits_def select_by_priority_def)

theorem selection_is_sticky_witness:
  "\<exists>a svc1 b. select_account example_serde example_lib memory_cache 0 0 None None (\<lambda>_. 0) ''h'' [] [] Opus
       example_svc = (Done (Inr a), svc1) \<and>
     fst (select_account example_serde example_lib memory_cache 9 9 None None (\<lambda>n. n - 1) ''h'' [] [] Sonnet svc1)
       = Done (Inr b) \<and> acc_id b = acc_id a"
proof -
  let ?a = "row_to_account example_serde (example_row 4)"
  obtain svc1 where svc1: "select_account example_serde example_lib memory_cache 0 0 None None (\<lambda>_. 0)
      ''h'' [] [] Opus example_svc = (Done (Inr ?a), svc1)"
    "ast_cache (svc_store svc1) = Some (0, [?a])" "svc_limit svc1 = limit_store_new"
    using example_select by blast
  have b: "bound_account example_serde 9 None (acc_id ?a) (svc_store svc1) = Some ?a"
    by (simp add: bound_account_def get_schedulable_cached_def svc1(2) SCHEDULABLE_TTL_def)
  have "is_schedulable ?a"
    by (simp add: is_schedulable_def account_status_from_def)
  then show ?thesis
    using selection_is_sticky [OF example_sticky_none _ _ svc1(1) _ _ _ _ _ b, of "[]"
        9 Sonnet "[]" "[]" None "\<lambda>n. n - 1"] svc1
    by (auto simp: valid_draw_def cache_run_def eligible_def token_permits_def STICKY_SESSION_TTL_def)
qed

text \<open>
  C23. The token sent upstream is usable. A token resolved for an OAuth account is the account's
  own token while it has more than five minutes left. Otherwise, with the refresh lock, it is the
  stored token if that has been renewed meanwhile, else the one the OAuth server issues for the
  stored refresh token, else, when the server refuses, the stored token while it has not expired;
  without the lock, it is a stored token with more than five minutes left at one of the twenty polls.
\<close>

theorem resolved_token_usable:
  assumes "resolve_oauth_access_token S ops E account svc = (Inr t, svc')"
    and "valid = (\<lambda>now a. has_valid_oauth_access_token now a OAUTH_REFRESH_BUFFER_SECONDS)"
    and "lock = fst (co_acquire_lock ops (oe_inst E) (lock_key (acc_id account)) (oe_owner E)
                  OAUTH_LOCK_TTL (svc_cache svc))"
  shows "t = acc_access_token account \<and> valid (oe_now E 0) account \<or>
    lock = Inr True \<and>
      (\<exists>latest. get_by_id S (oe_fault E 0) (acc_id account) (svc_store svc) = Inr latest \<and>
         (t = acc_access_token latest \<and>
            (valid (oe_now E 1) latest \<or>
             (\<exists>e. acc_expires_at latest = Some e \<and> oe_now E 3 < e) \<and> t \<noteq> []) \<or>
          (\<exists>tokens. oe_refresh E (acc_refresh_token latest) (acc_proxy_url latest) = Inr tokens \<and>
             t = rt_access_token tokens))) \<or>
    lock = Inr False \<and>
      (\<exists>j latest. j < 20 \<and> get_by_id S (oe_poll_fault E j) (acc_id account) (svc_store svc') = Inr latest \<and>
         valid (oe_poll_now E j) latest \<and> t = acc_access_token latest)"
  using assms(1)
proof (cases rule: resolve_cases)
  case current
  then show ?thesis using assms(2) by auto
next
  case (refresh st c)
  then show ?thesis
    using refresh_ok [OF refresh(2)] assms(2,3) by auto
next
  case (wait st c)
  then obtain j latest where "j < 20" "get_by_id S (oe_poll_fault E j) (acc_id account) st = Inr latest"
    "has_valid_oauth_access_token (oe_poll_now E j) latest OAUTH_REFRESH_BUFFER_SECONDS"
    "t = acc_access_token latest"
    using wait_for_token_ok [OF wait(2)] by (auto simp: OAUTH_WAIT_ATTEMPTS_def)
  moreover have "lock = Inr False" "svc_store svc' = st"
    using wait assms(3) by simp_all
  ultimately show ?thesis
    using assms(2) by blast
qed simp_all

text \<open>An account about to be refreshed, and a server that issues a token.\<close>

definition oauth_row :: account_row where
  "oauth_row = (example_row 4)\<lparr>row_auth_type := ''oauth'', row_refresh_token := ''r'',
     row_access_token := ''old'', row_oauth_expires_at := Some 0\<rparr>"

definition issuing_env :: oauth_env where
  "issuing_env =
     \<lparr>oe_now = (\<lambda>_. 10 ^ 9), oe_inst = 5, oe_owner = ''me'', oe_fault = (\<lambda>_. None),
      oe_refresh = (\<lambda>_ _. Inr \<lparr>rt_access_token = ''new'', rt_refresh_token = ''r2'',
                              rt_expires_at = 3600 * 10 ^ 9\<rparr>),
      oe_others = (\<lambda>_ st. st), oe_poll_now = (\<lambda>_. 10 ^ 9), oe_poll_fault = (\<lambda>_. None)\<rparr>"

definition oauth_svc :: "memory_store account_service" where
  "oauth_svc = account_service_new (account_store_new [oauth_row] 5) memory_store_new limit_store_new"

lemma oauth_svc_sel [simp]:
  "svc_store oauth_svc = account_store_new [oauth_row] 5" "svc_limit oauth_svc = limit_store_new"
  "svc_cache oauth_svc = memory_store_new" "svc_usage_cooldown oauth_svc = []"
  by (simp_all add: oauth_svc_def account_service_new_def)

definition oauth_account :: account where
  "oauth_account = row_to_account example_serde oauth_row"

lemma oauth_account_sel [simp]:
  "acc_id oauth_account = 4" "acc_auth_type oauth_account = Oauth"
  "acc_refresh_token oauth_account = ''r''" "acc_access_token oauth_account = ''old''"
  "acc_expires_at oauth_account = Some 0" "acc_proxy_url oauth_account = []"
  "acc_usage_fetched_at oauth_account = None"
  by (simp_all add: oauth_account_def row_to_account_def oauth_row_def example_row_def
      auth_type_from_def)

lemma get_oauth_account: "get_by_id example_serde None 4 (account_store_new [oauth_row] 5) = Inr oauth_account"
  by (simp add: get_by_id_def account_store_new_def oauth_row_def oauth_account_def)

lemma resolve_example:
  "fst (resolve_oauth_access_token example_serde memory_cache issuing_env oauth_account oauth_svc) = Inr ''new''"
  by (simp add: resolve_oauth_access_token_def has_valid_oauth_access_token_def issuing_env_def
      mem_acquire_lock_def memory_store_new_def refresh_oauth_access_token_def get_oauth_account
      update_oauth_tokens_def exec_update_def OAUTH_REFRESH_BUFFER_SECONDS_def Let_def)

theorem resolved_token_usable_witness:
  "\<exists>svc'. resolve_oauth_access_token example_serde memory_cache issuing_env oauth_account oauth_svc
      = (Inr ''new'', svc') \<and>
    (\<exists>tokens. oe_refresh issuing_env ''r'' [] = Inr tokens \<and> rt_access_token tokens = ''new'')"
proof -
  obtain svc' where r: "resolve_oauth_access_token example_serde memory_cache issuing_env oauth_account
      oauth_svc = (Inr ''new'', svc')"
    using resolve_example by (metis prod.collapse)
  have "fst (mem_acquire_lock 5 (lock_key 4) ''me'' OAUTH_LOCK_TTL memory_store_new) = Inr True"
    by (simp add: mem_acquire_lock_def memory_store_new_def)
  then show ?thesis
    using resolved_token_usable [OF r refl refl] r
    by (auto simp: issuing_env_def get_oauth_account)
qed

text \<open>
  C29. Token refreshes are single-flight. While another owner holds the refresh lock of an account
  and has not reached its expiry, resolving a token for that account never asks the OAuth server:
  its outcome is the same for every server, and the lock stays with its owner.
\<close>

theorem refresh_single_flight:
  assumes "mem_lock_state (svc_cache svc) (lock_key (acc_id account)) = Some (v, e)"
    and "oe_inst E \<le> e"
  shows "resolve_oauth_access_token S memory_cache (E\<lparr>oe_refresh := f\<rparr>) account svc =
      resolve_oauth_access_token S memory_cache E account svc \<and>
    mem_lock_state (svc_cache (snd (resolve_oauth_access_token S memory_cache E account svc)))
      (lock_key (acc_id account)) = Some (v, e)"
proof -
  obtain r c where rc: "mem_acquire_lock (oe_inst E) (lock_key (acc_id account)) (oe_owner E)
      OAUTH_LOCK_TTL (svc_cache svc) = (r, c)"
    by (cases "mem_acquire_lock (oe_inst E) (lock_key (acc_id account)) (oe_owner E)
      OAUTH_LOCK_TTL (svc_cache svc)")
  then have r: "r = Inr False" "c = svc_cache svc"
    using assms by (auto simp: mem_acquire_lock_def mem_lock_state_def Let_def split: if_splits)
  show ?thesis
    using rc assms(1)
    by (simp add: resolve_oauth_access_token_def r wait_for_token_offline Let_def
        split: prod.split)
qed

theorem refresh_single_flight_witness:
  "\<exists>svc. resolve_oauth_access_token example_serde memory_cache (issuing_env\<lparr>oe_refresh := \<lambda>_ _. Inl Unauthorized\<rparr>)
      oauth_account svc =
    resolve_oauth_access_token example_serde memory_cache issuing_env oauth_account svc \<and>
    mem_lock_state (svc_cache (snd (resolve_oauth_access_token example_serde memory_cache issuing_env
      oauth_account svc))) (lock_key 4) = Some (''other'', 100)"
  using refresh_single_flight [of "oauth_svc\<lparr>svc_cache := memory_store_new\<lparr>ms_locks :=
      [(lock_key 4, \<lparr>le_owner = ''other'', le_expires_at = 100\<rparr>)]\<rparr>\<rparr>" oauth_account "''other''" 100 issuing_env
      example_serde "\<lambda>_ _. Inl Unauthorized"]
  by (auto simp: mem_lock_state_def issuing_env_def)

lemma get_after_update:
  assumes "get_by_id S f i st = Inr a"
    and "\<And>r. row_id (g r) = row_id r"
  shows "\<exists>r. a = row_to_account S r \<and>
    get_by_id S None i (snd (exec_update None (\<lambda>r. row_id r = i) g st)) = Inr (row_to_account S (g r))"
proof -
  obtain r where r: "find (\<lambda>r. row_id r = i) (ast_rows st) = Some r" "a = row_to_account S r"
    using assms(1) by (auto simp: get_by_id_def split: option.splits)
  have "find (\<lambda>r. row_id r = i) (map (\<lambda>r. if row_id r = i then g r else r) rs) = Some (g r)"
    if "find (\<lambda>r. row_id r = i) rs = Some r" for rs
    using that by (induction rs) (auto simp: assms(2) split: if_splits)
  then show ?thesis
    using r by (auto simp: get_by_id_def exec_update_def)
qed

lemma snd_then_invalidate_rows [simp]:
  "get_by_id S f i (snd (then_invalidate (exec_update g p h st))) =
   get_by_id S f i (snd (exec_update g p h st))"
  by (cases g; cases f)
     (simp_all add: exec_update_def get_by_id_def invalidate_schedulable_cache_def)

text \<open>
  A refresh is persisted. When the OAuth server issues tokens for an account whose token is
  due, the new access token is returned and the account read back holds exactly the issued pair
  with its expiry at whole seconds and no recorded error, and the cached list is dropped.
\<close>

theorem refresh_persists:
  assumes "get_by_id S (oe_fault E 0) aid st = Inr latest" "oe_fault E 2 = None"
    and "\<not> has_valid_oauth_access_token (oe_now E 1) latest OAUTH_REFRESH_BUFFER_SECONDS"
    and "acc_refresh_token latest \<noteq> []"
    and "oe_refresh E (acc_refresh_token latest) (acc_proxy_url latest) = Inr tokens"
  shows "\<exists>st' b. refresh_oauth_access_token S E aid st = (Inr (rt_access_token tokens), st') \<and>
    get_by_id S None aid st' = Inr b \<and> acc_access_token b = rt_access_token tokens \<and>
    acc_refresh_token b = rt_refresh_token tokens \<and>
    acc_expires_at b = Some (fmt_time (rt_expires_at tokens)) \<and> acc_auth_error b = [] \<and>
    ast_cache st' = None"
proof -
  let ?g = "\<lambda>r. r\<lparr>row_access_token := rt_access_token tokens, row_refresh_token := rt_refresh_token tokens,
      row_oauth_expires_at := Some (fmt_time (rt_expires_at tokens)),
      row_oauth_refreshed_at := Some (fmt_time (oe_now E 4)), row_auth_error := '''',
      row_updated_at := fmt_time (oe_now E 4)\<rparr>"
  let ?st = "snd (then_invalidate (exec_update None (\<lambda>r. row_id r = aid) ?g st))"
  have "refresh_oauth_access_token S E aid st = (Inr (rt_access_token tokens), ?st)"
    using assms by (simp add: refresh_oauth_access_token_def Let_def update_oauth_tokens_def exec_update_def)
  moreover obtain r where "get_by_id S None aid ?st = Inr (row_to_account S (?g r))"
    using get_after_update [OF assms(1), of ?g] by auto
  moreover have "ast_cache ?st = None"
    by (simp add: exec_update_def invalidate_schedulable_cache_def)
  ultimately show ?thesis
    by (simp add: row_to_account_def)
qed

theorem refresh_persists_witness:
  "\<exists>st' b. refresh_oauth_access_token example_serde issuing_env 4 (account_store_new [oauth_row] 5) = (Inr ''new'', st') \<and>
    get_by_id example_serde None 4 st' = Inr b \<and> acc_access_token b = ''new'' \<and> acc_refresh_token b = ''r2''"
  using refresh_persists [of example_serde issuing_env 4 "account_store_new [oauth_row] 5" oauth_account]
  by (auto simp: issuing_env_def get_oauth_account has_valid_oauth_access_token_def
      OAUTH_REFRESH_BUFFER_SECONDS_def)

text \<open>
  Credentials are exclusive. An account that passes normalisation holds the credentials of its
  own kind only: a setup token and no OAuth data, or a refresh token and no setup token, with no
  expiry when there is no access token. Normalising it again changes nothing.
\<close>

theorem normalize_auth_exclusive:
  assumes "normalize_account_auth a = Inr b"
  shows "acc_auth_type b = acc_auth_type a \<and> normalize_account_auth b = Inr b \<and> acc_auth_error b = [] \<and>
    (acc_auth_type b = SetupToken \<longrightarrow> trim (acc_setup_token b) \<noteq> [] \<and> acc_access_token b = [] \<and>
       acc_refresh_token b = [] \<and> acc_expires_at b = None) \<and>
    (acc_auth_type b = Oauth \<longrightarrow> acc_setup_token b = [] \<and> trim (acc_refresh_token b) \<noteq> [] \<and>
       (trim (acc_access_token b) = [] \<longrightarrow> acc_access_token b = [] \<and> acc_expires_at b = None))"
  using assms
  by (cases "acc_auth_type a")
     (auto simp: normalize_account_auth_def Let_def split: if_splits)

theorem normalize_auth_exclusive_witness:
  "\<exists>b. normalize_account_auth oauth_account = Inr b \<and> acc_setup_token b = []"
proof -
  have t: "trim ''r'' = ''r''" "trim ''old'' = ''old''"
    by code_simp+
  then obtain b where "normalize_account_auth oauth_account = Inr b"
    by (simp add: normalize_account_auth_def Let_def)
  then show ?thesis
    using normalize_auth_exclusive [of oauth_account b] by auto
qed

lemma sqlx_not_429 [simp]: "app_error_from_sqlx x \<noteq> TooManyRequests m"
  by (cases x) simp_all

lemma update_not_429 [simp]:
  "then_invalidate (exec_update f p g st) \<noteq> (Inl (TooManyRequests m), st')"
  "then_ok (exec_update f p g st) \<noteq> (Inl (TooManyRequests m), st')"
  by (cases f; simp add: exec_update_def)+

lemma get_by_id_not_429: "get_by_id S f i st \<noteq> Inl (TooManyRequests m)"
  by (auto simp: get_by_id_def split: option.splits)

lemma wait_not_429: "fst (wait_for_token S E aid i n st) \<noteq> Inl (TooManyRequests m)"
  by (induction n arbitrary: i st)
     (auto simp: Let_def get_by_id_not_429 split: sum.split)

lemma refresh_not_429: "fst (refresh_oauth_access_token S E aid st) \<noteq> Inl (TooManyRequests m)"
  using get_by_id_not_429 [of S "oe_fault E 0" aid st m]
  by (auto simp: refresh_oauth_access_token_def missing_refresh_token_error_def Let_def
      update_oauth_tokens_def split: sum.splits if_splits prod.splits)

lemma resolve_not_429:
  "fst (resolve_oauth_access_token S memory_cache E account svc) \<noteq> Inl (TooManyRequests m)"
proof -
  obtain r svc' where r: "resolve_oauth_access_token S memory_cache E account svc = (r, svc')"
    by (cases "resolve_oauth_access_token S memory_cache E account svc")
  then show ?thesis
  proof (cases rule: resolve_cases)
    case (lock_error e c)
    then show ?thesis
      by (auto simp: mem_acquire_lock_def Let_def split: option.splits if_splits)
  next
    case (refresh st c)
    then show ?thesis
      using r refresh_not_429 [of S E "acc_id account" "svc_store svc" m] by simp
  next
    case (wait st c)
    then show ?thesis
      using r wait_not_429 [of S E "acc_id account" 0 OAUTH_WAIT_ATTEMPTS "svc_store svc" m] by simp
  qed (use r in \<open>simp_all add: missing_refresh_token_error_def\<close>)
qed

lemma resolve_not_429_pair [simp]:
  "resolve_oauth_access_token S memory_cache E account svc \<noteq> (Inl (TooManyRequests m), svc')"
  using resolve_not_429 [of S E account svc m] by auto

lemma resolve_keeps_cooldown:
  "svc_usage_cooldown (snd (resolve_oauth_access_token S ops E account svc)) = svc_usage_cooldown svc"
  by (auto simp: resolve_oauth_access_token_def Let_def split: prod.splits sum.splits bool.splits)


text \<open>
  The usage endpoint is left alone after a 429. When a usage query ends with the upstream's
  429, every query of that account in the following sixty seconds is answered locally: the result
  does not depend on the upstream or on the OAuth server, and nothing but the account is read.
\<close>

theorem usage_429_cools_down:
  assumes "refresh_usage S L memory_cache E now inst gf sf fetch aid svc = (Done (Inl (TooManyRequests m)), svc1)"
    and "map_of (svc_usage_cooldown svc) aid = None"
    and "svc_usage_cooldown svc2 = svc_usage_cooldown svc1"
    and "inst \<le> inst2" "inst2 < inst + 60 * 10 ^ 9"
  shows "refresh_usage S L memory_cache E2 now2 inst2 gf2 sf2 fetch2 aid svc2 =
    (case get_by_id S gf2 aid (svc_store svc2) of
       Inl e \<Rightarrow> (Done (Inl e), svc2)
     | Inr a \<Rightarrow>
         if acc_auth_type a \<noteq> Oauth then (Done (Inl (BadRequest usage_unsupported)), svc2)
         else if usage_is_fresh now2 a then (Done (Inr (acc_usage_data a)), svc2)
         else (Done (Inl (TooManyRequests ''usage query in 60s local cooldown after recent 429'')), svc2))"
proof -
  have "map_of (svc_usage_cooldown svc1) aid = Some (inst + USAGE_429_COOLDOWN)"
    using assms(1,2) get_by_id_not_429 [of S gf aid "svc_store svc" m]
      resolve_keeps_cooldown [of S memory_cache E _ svc]
    by (auto simp: refresh_usage_def usage_in_cooldown_def update_usage_def mark_usage_cooldown_def
        map_lookup Let_def split: sum.splits if_splits prod.splits outcome.splits app_error.splits)
  then show ?thesis
    using assms(3-5)
    by (simp add: refresh_usage_def usage_in_cooldown_def USAGE_429_COOLDOWN_def Let_def
        split: sum.split)
qed

theorem usage_429_cools_down_witness:
  "\<exists>svc1 svc2 e. refresh_usage example_serde example_lib memory_cache issuing_env 0 0 None None
      (\<lambda>_ _. Inl (TooManyRequests ''slow'')) 4 oauth_svc = (Done (Inl (TooManyRequests ''slow'')), svc1) \<and>
    svc_usage_cooldown svc2 = svc_usage_cooldown svc1 \<and>
    refresh_usage example_serde example_lib memory_cache issuing_env 0 59 None None (\<lambda>_ _. Inr JNull) 4 svc2
      = (Done (Inl (TooManyRequests e)), svc2)"
proof -
  let ?fetch = "\<lambda>_ _. Inl (TooManyRequests ''slow'')"
  obtain svc' where r: "resolve_oauth_access_token example_serde memory_cache issuing_env oauth_account
      oauth_svc = (Inr ''new'', svc')"
    using resolve_example by (metis prod.collapse)
  let ?svc1 = "mark_usage_cooldown 0 4 svc'"
  let ?svc2 = "?svc1\<lparr>svc_store := account_store_new [oauth_row] 5\<rparr>"
  have first: "refresh_usage example_serde example_lib memory_cache issuing_env 0 0 None None ?fetch 4 oauth_svc
      = (Done (Inl (TooManyRequests ''slow'')), ?svc1)"
    using r by (simp add: refresh_usage_def get_oauth_account usage_is_fresh_def usage_in_cooldown_def)
  have "refresh_usage example_serde example_lib memory_cache issuing_env 0 59 None None (\<lambda>_ _. Inr JNull) 4 ?svc2
      = (Done (Inl (TooManyRequests ''usage query in 60s local cooldown after recent 429'')), ?svc2)"
    using usage_429_cools_down [OF first, of ?svc2 59 issuing_env 0 None None "\<lambda>_ _. Inr JNull"]
    by (simp add: get_oauth_account usage_is_fresh_def)
  then show ?thesis
    using first by (intro exI [of _ ?svc1] exI [of _ ?svc2]) simp
qed

text \<open>
  What a flush stores. After a successful flush the account's usage document is the snapshot of
  the limit state held in memory, and its reset time is the latest reset of the blocking windows
  and counters, or the end of the ban when none blocks, at whole seconds; without either, both
  rate-limit columns are cleared.
\<close>

theorem flush_persists_limit_state:
  assumes "\<not> lst_poisoned ls" "map_of (lst_states ls) aid = Some state"
    and "get_by_id S f aid st = Inr a" "serde_ok S (build_usage_json L state)"
    and "until = (case bottleneck_limit_until now state of
                    Some t \<Rightarrow> Some t | None \<Rightarrow> ls_rate_limited_until state)"
  shows "\<exists>st' b. flush_to_db S L now None None aid ls st = (Done (Inr ()), st') \<and>
    get_by_id S None aid st' = Inr b \<and> acc_usage_data b = build_usage_json L state \<and>
    acc_usage_fetched_at b = Some (fmt_time now) \<and>
    acc_rate_limit_reset_at b = map_option fmt_time until \<and>
    acc_rate_limited_at b = map_option (\<lambda>_. fmt_time now) until"
proof -
  let ?u = "\<lambda>r. r\<lparr>row_usage_data := sj_to_string S (build_usage_json L state),
      row_usage_fetched_at := Some (fmt_time now), row_updated_at := fmt_time now\<rparr>"
  let ?l = "\<lambda>r. r\<lparr>row_rate_limited_at := map_option (\<lambda>_. fmt_time now) until,
      row_rate_limit_reset_at := map_option fmt_time until, row_updated_at := fmt_time now\<rparr>"
  let ?p = "\<lambda>r. row_id r = aid"
  let ?st1 = "snd (exec_update None ?p ?u st)"
  let ?st2 = "snd (exec_update None ?p ?l ?st1)"
  obtain r where r: "get_by_id S None aid ?st1 = Inr (row_to_account S (?u r))"
    using get_after_update [OF assms(3), of ?u] by auto
  obtain r' where r': "row_to_account S (?u r) = row_to_account S r'"
    "get_by_id S None aid ?st2 = Inr (row_to_account S (?l r'))"
    using get_after_update [OF r, of ?l] by auto
  have "parse_json_col S (row_usage_data r') = build_usage_json L state"
    "row_usage_fetched_at r' = Some (fmt_time now)"
    using arg_cong [OF r'(1), of acc_usage_data] arg_cong [OF r'(1), of acc_usage_fetched_at] assms(4)
    by (simp_all add: row_to_account_def parse_json_col_def serde_ok_def)
  moreover
  have "flush_to_db S L now None None aid ls st = (Done (Inr ()), ?st2)"
    using assms(1,2)
    by (cases until) (simp_all add: flush_to_db_def assms(5) [symmetric] update_usage_def set_rate_limit_def clear_rate_limit_def
        exec_update_def Let_def)
  ultimately show ?thesis
    using r'(2) by (simp add: row_to_account_def)
qed

definition snapshot_serde :: "json \<Rightarrow> serde_lib" where
  "snapshot_serde j = \<lparr>sj_to_string = (\<lambda>_. ''{}''), sj_from_str = (\<lambda>_. Some j)\<rparr>"

theorem flush_persists_limit_state_witness:
  "\<exists>ls st' b. flush_to_db (snapshot_serde (build_usage_json example_lib default_limit_state)) example_lib 7 None None
      4 ls (account_store_new [example_row 4] 5) = (Done (Inr ()), st') \<and>
    get_by_id (snapshot_serde (build_usage_json example_lib default_limit_state)) None 4 st' = Inr b \<and>
    acc_usage_data b = build_usage_json example_lib default_limit_state"
proof -
  let ?ls = "limit_store_new\<lparr>lst_states := [(4, default_limit_state)]\<rparr>"
  let ?S = "snapshot_serde (build_usage_json example_lib default_limit_state)"
  have "get_by_id ?S None 4 (account_store_new [example_row 4] 5) = Inr (row_to_account ?S (example_row 4))"
    by (simp add: get_by_id_def account_store_new_def)
  then show ?thesis
    using flush_persists_limit_state [of ?ls 4 default_limit_state ?S None
        "account_store_new [example_row 4] 5" _ example_lib _ 7]
    by (fastforce simp: serde_ok_def snapshot_serde_def)
qed

text \<open>
  A conversation keeps its session. For an API client the session hash depends only on the
  user agent and the text of the system prompt, when there is one, and not on the messages, so
  that every turn of a conversation maps to the same session; a Claude Code client that sends a
  session identifier in its metadata is keyed by exactly that identifier.
\<close>

theorem session_hash_per_conversation:
  "(content_text (jget b1 ''system'') = content_text (jget b2 ''system'') \<and>
    content_text (jget b1 ''system'') \<noteq> [] \<longrightarrow>
    generate_session_hash S sha ua b1 API = generate_session_hash S sha ua b2 API) \<and>
   (jget b1 ''metadata'' = Some (JObj [(''user_id'', JStr u)]) \<and>
    sj_from_str S u = Some (JObj [(''session_id'', JStr sid)]) \<and> sid \<noteq> [] \<longrightarrow>
    generate_session_hash S sha ua b1 ClaudeCode = sid)"
  by (auto simp: generate_session_hash_def metadata_session_def Let_def split: list.split)

theorem session_hash_per_conversation_witness:
  "generate_session_hash example_serde (\<lambda>s. map of_char s) ''ua''
      (JObj [(''system'', JStr ''be kind''), (''messages'', JArr [JNull])]) API =
    generate_session_hash example_serde (\<lambda>s. map of_char s) ''ua'' (JObj [(''system'', JStr ''be kind'')]) API"
  using session_hash_per_conversation
    [of "JObj [(''system'', JStr ''be kind''), (''messages'', JArr [JNull])]"
      "JObj [(''system'', JStr ''be kind'')]" example_serde "\<lambda>s. map of_char s" "''ua''"]
  by (simp add: content_text_def)

end
