(* ===== verification/Selection.thy ===== *)
theory Selection
  imports Account_Service
begin

text \<open>
  The selector against the two components it reads: an account whose refusal the limit store has
  absorbed (\<open>src/service/limit.rs\<close>) and an account the account store has disabled
  (\<open>src/store/account_store.rs\<close>) are not selected (\<open>src/service/account.rs\<close>).
\<close>

section \<open>From an upstream refusal to the selector\<close>

lemma judge_ignores_times:
  "judge_availability L t (st\<lparr>ls_updated_at := a\<rparr>) mc = judge_availability L t st mc"
  "judge_availability L t (st\<lparr>ls_last_db_flush_at := b\<rparr>) mc = judge_availability L t st mc"
  by (simp_all add: judge_availability_def judge_scoped_def scoped_window_def cong: option.case_cong if_cong)

lemma absorbed_429:
  assumes "limit_reachable L ls" "\<not> lst_poisoned ls"
    and "parse_unified_headers L headers = None" "parse_rpm_tpm_headers L headers = None"
    and "now_plus L now (case parse_retry_after headers of None \<Rightarrow> DEFAULT_429_BAN | Some d \<Rightarrow> d) = Done until"
    and "ls' = snd (absorb_headers L now inst ls aid mc 429 headers)"
  shows "\<not> lst_poisoned ls'"
    and "t < until \<Longrightarrow> \<exists>av. account_availability L t ls' aid mc = Done av \<and> \<not> is_available av"
    and "i \<noteq> aid \<Longrightarrow> account_availability L t ls' i mc' = account_availability L t ls i mc'"
proof -
  have "mirror_inv (state_of ls aid)"
    using limit_reachable_inv [OF assms(1)] by (simp add: store_inv_def)
  then obtain s where s: "compute_new_state L now (state_of ls aid) mc 429 headers = Done (Some s)"
    "\<And>t. t < until \<Longrightarrow> \<not> is_available (judge_availability L t s mc)"
    using plain_429_effect assms(3-5) by blast
  obtain s' where ls': "ls' = ls\<lparr>lst_states := AList.update aid s' (lst_states ls)\<rparr>"
    "\<And>t. judge_availability L t s' mc = judge_availability L t s mc"
    using assms(2,6) s(1)
    by (auto simp: absorb_headers_def Let_def judge_ignores_times split: if_splits)
  show "\<not> lst_poisoned ls'"
    using assms(2) ls' by simp
  show "t < until \<Longrightarrow> \<exists>av. account_availability L t ls' aid mc = Done av \<and> \<not> is_available av"
    using assms(2) ls' s(2) by (simp add: account_availability_def update_conv')
  show "i \<noteq> aid \<Longrightarrow> account_availability L t ls' i mc' = account_availability L t ls i mc'"
    using ls'(1) by (simp add: account_availability_def update_conv')
qed

text \<open>Whatever way an account is selected, it passed the eligibility test.\<close>

lemma selected_eligible:
  assumes "\<not> lst_poisoned (svc_limit svc)" "valid_draw draw"
    and "fst (select_account S L ops now inst gf lf draw h ex al mc svc) = Done (Inr a)"
  shows "eligible L now (svc_limit svc) mc ex al a"
proof -
  obtain r svc' where r: "select_account S L ops now inst gf lf draw h ex al mc svc = (r, svc')"
    by (cases "select_account S L ops now inst gf lf draw h ex al mc svc")
  from assms(1,2) r show ?thesis
  proof (cases rule: select_account_cases)
    case (sticky b svc1)
    then show ?thesis
      using r assms(3) sticky_account_sound [OF sticky(1)] by simp
  qed (use r assms(3) in simp_all)
qed

lemma select_no_panic:
  assumes "\<not> lst_poisoned (svc_limit svc)" "valid_draw draw"
  shows "fst (select_account S L ops now inst gf lf draw h ex al mc svc) \<noteq> Panic"
proof -
  obtain r svc' where r: "select_account S L ops now inst gf lf draw h ex al mc svc = (r, svc')"
    by (cases "select_account S L ops now inst gf lf draw h ex al mc svc")
  from assms r show ?thesis
    by (cases rule: select_account_cases) (simp_all add: r)
qed

text \<open>
  A refused account is not chosen again. Once a 429 without quota headers has been absorbed for
  an account and a model class, no selection for that class before the end of the ban returns the
  account, through a sticky binding or through the list, and no selection panics.
\<close>

theorem banned_account_not_selected:
  assumes "limit_reachable L ls" "\<not> lst_poisoned ls" "valid_draw draw"
    and "parse_unified_headers L headers = None" "parse_rpm_tpm_headers L headers = None"
    and "now_plus L now (case parse_retry_after headers of None \<Rightarrow> DEFAULT_429_BAN | Some d \<Rightarrow> d) = Done until"
    and "svc_limit svc = snd (absorb_headers L now inst ls aid mc 429 headers)"
    and "t < until"
  shows "case fst (select_account S L ops t inst' gf lf draw h ex al mc svc) of
      Panic \<Rightarrow> False | Done (Inr a) \<Rightarrow> acc_id a \<noteq> aid | Done (Inl e) \<Rightarrow> True"
proof -
  note ban = absorbed_429 [OF assms(1,2,4,5,6,7)]
  have "acc_id a \<noteq> aid"
    if "fst (select_account S L ops t inst' gf lf draw h ex al mc svc) = Done (Inr a)" for a
    using selected_eligible [OF ban(1) assms(3) that] ban(2) [OF assms(8)] by (auto simp: eligible_def)
  then show ?thesis
    using select_no_panic [OF ban(1) assms(3), of S L ops t inst' gf lf h ex al mc]
    by (auto split: outcome.splits sum.splits)
qed

definition refused_svc :: "memory_store account_service" where
  "refused_svc = example_svc\<lparr>svc_limit := snd (absorb_headers example_lib 0 0 limit_store_new 4 Fable 429 Map.empty)\<rparr>"

theorem banned_account_not_selected_witness:
  "case fst (select_account example_serde example_lib memory_cache 59999999999 59999999999 None None
        (\<lambda>_. 0) ''h'' [] [] Fable refused_svc) of
      Panic \<Rightarrow> False | Done (Inr a) \<Rightarrow> acc_id a \<noteq> 4 | Done (Inl e) \<Rightarrow> True"
proof -
  have "now_plus example_lib 0 (case parse_retry_after Map.empty of None \<Rightarrow> DEFAULT_429_BAN | Some d \<Rightarrow> d) =
      Done 60000000000"
    by (simp add: empty_headers DEFAULT_429_BAN_def example_now_plus)
  then show ?thesis
    using limit_reachable.start empty_headers(1,2)
    by (intro banned_account_not_selected [where headers = Map.empty and until = 60000000000])
       (simp_all add: refused_svc_def valid_draw_def)
qed

section \<open>From the administrator to the selector\<close>

definition reactivates :: "int \<Rightarrow> store_call \<Rightarrow> bool" where
  "reactivates aid call =
     (case call of
        Update now f a \<Rightarrow> acc_id a = aid \<and> acc_status a = AS_Active
      | UpdateStatus now f i s \<Rightarrow> i = aid \<and> s = AS_Active
      | DisableAccount now f i s why reset \<Rightarrow> i = aid \<and> s = AS_Active
      | EnableAccount now f i \<Rightarrow> i = aid
      | _ \<Rightarrow> False)"

definition retired :: "int \<Rightarrow> account_store \<Rightarrow> bool" where
  "retired aid st \<longleftrightarrow> aid < ast_next_id st \<and>
     (\<forall>r \<in> set (ast_rows st). row_id r = aid \<longrightarrow> account_status_from (row_status r) \<noteq> AS_Active)"

lemma retired_exec_update:
  assumes "retired aid st"
    and "\<And>r. row_id (f r) = row_id r"
    and "\<And>r. p r \<Longrightarrow> row_id r = aid \<Longrightarrow> account_status_from (row_status r) \<noteq> AS_Active \<Longrightarrow>
       account_status_from (row_status (f r)) \<noteq> AS_Active"
  shows "retired aid (snd (exec_update fault p f st))"
  using assms by (auto simp: retired_def exec_update_def split: option.splits)

lemma retired_then_invalidate: "retired aid (snd r) \<Longrightarrow> retired aid (snd (then_invalidate r))"
  by (cases r rule: then_invalidate.cases) (simp_all add: invalidate_schedulable_cache_def retired_def)

lemma retired_rows:
  "retired aid st \<Longrightarrow> retired aid (snd (create S now f g a st))"
  "retired aid st \<Longrightarrow> retired aid (snd (delete f i st))"
  "retired aid st \<Longrightarrow> retired aid (snd (list_schedulable S inst f st))"
  by (auto simp: retired_def create_def delete_def list_schedulable_def store_schedulable_def Let_def
      insert_row_def invalidate_schedulable_cache_def split: option.splits)

lemma retired_exec:
  assumes "retired aid st" "\<not> reactivates aid call"
  shows "retired aid (store_exec S call st)"
  using assms
  by (cases call)
     (auto simp: reactivates_def loud_updates quiet_updates retired_rows update_row_def
       intro!: retired_then_invalidate retired_exec_update)

lemma retired_run:
  "retired aid st \<Longrightarrow> \<forall>call \<in> set calls. \<not> reactivates aid call \<Longrightarrow> retired aid (store_run S calls st)"
  unfolding store_run_def by (induction calls arbitrary: st) (simp_all add: retired_exec)

lemma active_text: "account_status_from ''active'' = AS_Active"
  by (simp add: account_status_from_def)

lemma bound_account_row:
  assumes "cache_coherent S st" "bound_account S inst f i st = Some a" "is_schedulable a"
  shows "\<exists>r \<in> set (ast_rows st). row_id r = acc_id a \<and> account_status_from (row_status r) = AS_Active"
proof (cases "get_schedulable_cached inst i st")
  case None
  then obtain r where "r \<in> set (ast_rows st)" "a = row_to_account S r"
    using assms(2)
    by (auto simp: bound_account_def get_by_id_def find_Some_iff split: option.splits sum.splits
        intro: nth_mem)
  then show ?thesis
    using assms(3) by (auto simp: is_schedulable_def)
next
  case (Some b)
  then have "b = a" "acc_id a = i"
    using assms(2) cached_id [OF Some] by (simp_all add: bound_account_def)
  then show ?thesis
    using coherent_cached [OF assms(1)] Some active_text by metis
qed

lemma listed_account_row:
  assumes "cache_coherent S st" "fst (list_schedulable S inst f st) = Inr v" "a \<in> set v"
  shows "\<exists>r \<in> set (ast_rows st). row_id r = acc_id a \<and> account_status_from (row_status r) = AS_Active"
proof -
  have "stable_part a \<in> set (map stable_part (query_schedulable S st))"
    using coherent_listing [OF assms(1,2)] assms(3) by (metis image_eqI list.set_map)
  then obtain r where r: "r \<in> set (ast_rows st)" "row_status r = ''active''"
    "stable_part a = stable_part (row_to_account S r)"
    by (auto simp: query_schedulable_member)
  have "acc_id a = row_id r" "account_status_from (row_status r) = AS_Active"
    using arg_cong [OF r(3), of acc_id] r(2) by (simp_all add: account_status_from_def)
  then show ?thesis
    using r(1) by auto
qed

lemma sticky_account_bound:
  assumes "sticky_account S L ops now inst gf h ex al mc svc = (Done (Some a), svc')"
  shows "\<exists>i. bound_account S inst gf i (svc_store svc) = Some a"
  using assms
  by (auto simp: sticky_account_def Let_def
      split: if_splits prod.splits sum.splits option.splits outcome.splits)

lemma selected_row:
  assumes "cache_coherent S (svc_store svc)" "\<not> lst_poisoned (svc_limit svc)" "valid_draw draw"
    and "select_account S L ops now inst gf lf draw h ex al mc svc = (Done (Inr a), svc')"
  shows "\<exists>r \<in> set (ast_rows (svc_store svc)). row_id r = acc_id a \<and>
    account_status_from (row_status r) = AS_Active"
  using assms(2-4)
proof (cases rule: select_account_cases)
  case (sticky b svc1)
  then show ?thesis
    using sticky_account_sound sticky_account_bound bound_account_row assms(1)
    by (metis outcome.inject sum.inject(2))
next
  case (fresh b v svc1)
  then show ?thesis
    using listed_account_row [OF assms(1) fresh(2)] by simp
qed simp_all

lemma retired_not_selected:
  assumes "svc_store svc = store_run S calls (snd (disable_account now None aid status why reset st))"
    and "cache_coherent S st" "aid < ast_next_id st" "status \<noteq> AS_Active"
    and "\<forall>call \<in> set calls. \<not> reactivates aid call"
    and "\<not> lst_poisoned (svc_limit svc)" "valid_draw draw"
    and "select_account S L ops now' inst gf lf draw h ex al mc svc = (Done (Inr a), svc')"
  shows "acc_id a \<noteq> aid"
proof -
  let ?st = "snd (disable_account now None aid status why reset st)"
  have "retired aid ?st"
    using assms(3,4)
    by (simp add: disable_account_def exec_update_def invalidate_schedulable_cache_def retired_def ball_Un)
  then have "retired aid (svc_store svc)"
    unfolding assms(1) using assms(5) by (rule retired_run)
  moreover have "cache_coherent S (svc_store svc)"
    unfolding assms(1) disable_account_def
    by (intro store_run_coherent coherent_exec_then_invalidate assms(2))
  ultimately show ?thesis
    using selected_row [OF _ assms(6,7,8)] unfolding retired_def by metis
qed

lemma store_run_next_id: "ast_next_id st \<le> ast_next_id (store_run S calls st)"
proof -
  have "ast_next_id st \<le> ast_next_id (store_exec S call st)" for call st
    by (cases call)
       (auto simp: loud_updates quiet_updates exec_update_def create_def delete_def list_schedulable_def
         store_schedulable_def Let_def insert_row_def invalidate_schedulable_cache_def split: option.splits if_splits)
  then show ?thesis
    unfolding store_run_def by (induction calls arbitrary: st) (simp, metis fold_simps(2) order_trans)
qed

text \<open>
  A disabled account is not chosen. After an account is disabled, whatever calls reach the
  account store later, failing ones included, no selection returns it until one of them makes it
  active again; the sticky bindings, the cached list and its refills included.
\<close>

theorem disabled_account_not_selected:
  assumes "svc_store svc = store_run S calls (snd (disable_account now None aid status why reset st))"
    and "cache_coherent S st" "aid < ast_next_id st" "status \<noteq> AS_Active"
    and "\<forall>call \<in> set calls. \<not> reactivates aid call"
    and "\<not> lst_poisoned (svc_limit svc)" "valid_draw draw"
  shows "case fst (select_account S L ops now' inst gf lf draw h ex al mc svc) of
      Panic \<Rightarrow> False | Done (Inr a) \<Rightarrow> acc_id a \<noteq> aid | Done (Inl e) \<Rightarrow> True"
proof -
  have "acc_id a \<noteq> aid"
    if "select_account S L ops now' inst gf lf draw h ex al mc svc = (Done (Inr a), svc')" for a svc'
    using assms that by (rule retired_not_selected)
  then show ?thesis
    using select_no_panic [OF assms(6,7), of S L ops now' inst gf lf h ex al mc]
    by (cases "select_account S L ops now' inst gf lf draw h ex al mc svc")
       (simp split: outcome.splits sum.splits)
qed

theorem disabled_account_not_selected_witness:
  "case fst (select_account example_serde example_lib memory_cache 9 9 None None (\<lambda>_. 0) ''h'' [] [] Opus
        (example_svc\<lparr>svc_store := store_run example_serde [ListSchedulable 1 None, EnableAccount 2 None 5]
           (snd (disable_account 0 None 4 AS_Disabled ''403'' None (account_store_new [example_row 4] 5)))\<rparr>)) of
      Panic \<Rightarrow> False | Done (Inr a) \<Rightarrow> acc_id a \<noteq> 4 | Done (Inl e) \<Rightarrow> True"
  by (rule disabled_account_not_selected
        [where calls = "[ListSchedulable 1 None, EnableAccount 2 None 5]" and status = AS_Disabled
          and st = "account_store_new [example_row 4] 5" and now = 0 and why = "''403''" and reset = None])
     (simp_all add: account_store_new_def cache_coherent_def reactivates_def valid_draw_def)

end
