(* ===== verification/Token_Store.thy ===== *)
theory Token_Store
  imports Account_Store Limit
begin

text \<open>
  The API tokens and who gets in with them: the token table (\<open>src/store/token_store.rs\<close>), the
  extraction of the key and the two authentications (\<open>src/middleware/auth.rs\<close> and
  \<open>gateway_authenticated\<close> of \<open>src/handler/router.rs\<close>), and the administrator's handlers for tokens.

  A table is the list of its rows. \<open>fault\<close> is the error a statement meets, with the table unchanged;
  \<open>pg\<close> says whether the driver is PostgreSQL, which reports no inserted identifier. Header names are
  in lower case and have the value \<open>to_str\<close> accepts.
\<close>

section \<open>The table\<close>

record token_row =
  tr_id :: int
  tr_name :: string
  tr_token :: string
  tr_allowed_accounts :: string
  tr_blocked_accounts :: string
  tr_status :: string
  tr_created_at :: int
  tr_updated_at :: int

record token_store =
  ts_rows :: "token_row list"
  ts_next_id :: int

definition token_store_new :: token_store where
  "token_store_new = \<lparr>ts_rows = [], ts_next_id = 1\<rparr>"

definition row_to_token :: "token_row \<Rightarrow> api_token" where
  "row_to_token r =
     \<lparr>tok_id = tr_id r, tok_name = tr_name r, tok_token = tr_token r,
      tok_allowed_accounts = tr_allowed_accounts r, tok_blocked_accounts = tr_blocked_accounts r,
      tok_status = token_status_from (tr_status r), tok_created_at = tr_created_at r,
      tok_updated_at = tr_updated_at r\<rparr>"

text \<open>\<open>token TEXT NOT NULL UNIQUE\<close>.\<close>

definition unique_error :: app_error where
  "unique_error = app_error_from_sqlx (SqlxOther ''UNIQUE constraint failed: api_tokens.token'')"

definition token_create ::
  "bool \<Rightarrow> int \<Rightarrow> sqlx_error option \<Rightarrow> api_token \<Rightarrow> token_store \<Rightarrow> (app_error + api_token) \<times> token_store" where
  "token_create pg now fault t st =
     (case fault of
        Some e \<Rightarrow> (Inl (app_error_from_sqlx e), st)
      | None \<Rightarrow>
          if \<exists>r \<in> set (ts_rows st). tr_token r = tok_token t then (Inl unique_error, st)
          else
            let r = \<lparr>tr_id = ts_next_id st, tr_name = tok_name t, tr_token = tok_token t,
                     tr_allowed_accounts = tok_allowed_accounts t, tr_blocked_accounts = tok_blocked_accounts t,
                     tr_status = token_status_to_string (tok_status t), tr_created_at = fmt_time now,
                     tr_updated_at = fmt_time now\<rparr>
            in (Inr (t\<lparr>tok_id := if pg then 0 else tr_id r\<rparr>),
                st\<lparr>ts_rows := ts_rows st @ [r], ts_next_id := ts_next_id st + 1\<rparr>))"

definition token_update ::
  "int \<Rightarrow> sqlx_error option \<Rightarrow> api_token \<Rightarrow> token_store \<Rightarrow> (app_error + unit) \<times> token_store" where
  "token_update now fault t st =
     (case fault of
        Some e \<Rightarrow> (Inl (app_error_from_sqlx e), st)
      | None \<Rightarrow>
          (Inr (), st\<lparr>ts_rows := map (\<lambda>r.
             if tr_id r = tok_id t
             then r\<lparr>tr_name := tok_name t, tr_allowed_accounts := tok_allowed_accounts t,
                    tr_blocked_accounts := tok_blocked_accounts t,
                    tr_status := token_status_to_string (tok_status t), tr_updated_at := fmt_time now\<rparr>
             else r) (ts_rows st)\<rparr>))"

definition token_delete :: "sqlx_error option \<Rightarrow> int \<Rightarrow> token_store \<Rightarrow> (app_error + unit) \<times> token_store" where
  "token_delete fault i st =
     (case fault of
        Some e \<Rightarrow> (Inl (app_error_from_sqlx e), st)
      | None \<Rightarrow> (Inr (), st\<lparr>ts_rows := filter (\<lambda>r. tr_id r \<noteq> i) (ts_rows st)\<rparr>))"

definition token_get_by_id :: "sqlx_error option \<Rightarrow> int \<Rightarrow> token_store \<Rightarrow> app_error + api_token" where
  "token_get_by_id fault i st =
     (case fault of
        Some e \<Rightarrow> Inl (app_error_from_sqlx e)
      | None \<Rightarrow>
          (case find (\<lambda>r. tr_id r = i) (ts_rows st) of
             None \<Rightarrow> Inl NotFound
           | Some r \<Rightarrow> Inr (row_to_token r)))"

definition get_by_token :: "sqlx_error option \<Rightarrow> string \<Rightarrow> token_store \<Rightarrow> app_error + api_token option" where
  "get_by_token fault key st =
     (case fault of
        Some e \<Rightarrow> Inl (app_error_from_sqlx e)
      | None \<Rightarrow>
          Inr (map_option row_to_token
            (find (\<lambda>r. tr_token r = key \<and> tr_status r = ''active'') (ts_rows st))))"

text \<open>\<open>ORDER BY created_at DESC\<close>; the order of rows with the same time is not specified.\<close>

definition tokens_ordered :: "token_row list \<Rightarrow> token_row list" where
  "tokens_ordered rows = sort_key (\<lambda>r. - tr_created_at r) rows"

definition token_list :: "sqlx_error option \<Rightarrow> token_store \<Rightarrow> app_error + api_token list" where
  "token_list fault st =
     (case fault of
        Some e \<Rightarrow> Inl (app_error_from_sqlx e)
      | None \<Rightarrow> Inr (map row_to_token (tokens_ordered (ts_rows st))))"

definition token_list_paged ::
  "sqlx_error option \<Rightarrow> int \<Rightarrow> int \<Rightarrow> token_store \<Rightarrow> app_error + api_token list" where
  "token_list_paged fault page page_size st =
     (let offset = i64_wrap (i64_wrap (page - 1) * page_size)
      in case fault of
           Some e \<Rightarrow> Inl (app_error_from_sqlx e)
         | None \<Rightarrow>
             (let rows = drop (nat offset) (tokens_ordered (ts_rows st))
              in Inr (map row_to_token (if page_size < 0 then rows else take (nat page_size) rows))))"

definition token_count :: "sqlx_error option \<Rightarrow> token_store \<Rightarrow> app_error + int" where
  "token_count fault st =
     (case fault of
        Some e \<Rightarrow> Inl (app_error_from_sqlx e)
      | None \<Rightarrow> Inr (int (length (ts_rows st))))"

section \<open>Authentication\<close>

definition extract_key :: "header_map \<Rightarrow> string" where
  "extract_key headers =
     (case headers ''x-api-key'' of
        Some k \<Rightarrow> k
      | None \<Rightarrow>
          (case Option.bind (headers ''authorization'') (strip_prefix ''Bearer '') of
             Some k \<Rightarrow> k
           | None \<Rightarrow> []))"

text \<open>The status and message of a refusal.\<close>

type_synonym refusal = "nat \<times> string"

definition admin_auth :: "string \<Rightarrow> header_map \<Rightarrow> refusal + unit" where
  "admin_auth password headers =
     (let key = extract_key headers
      in if key = [] \<or> key \<noteq> password then Inl (401, ''invalid password'') else Inr ())"

definition gateway_auth :: "sqlx_error option \<Rightarrow> header_map \<Rightarrow> token_store \<Rightarrow> refusal + api_token" where
  "gateway_auth fault headers st =
     (let key = extract_key headers
      in if key = [] then Inl (401, ''missing api key'')
         else case get_by_token fault key st of
                Inl _ \<Rightarrow> Inl (401, ''authentication failed'')
              | Inr None \<Rightarrow> Inl (401, ''invalid api key'')
              | Inr (Some t) \<Rightarrow> Inr t)"

text \<open>The token part of \<open>gateway_authenticated\<close>, which the router uses.\<close>

definition authenticate :: "sqlx_error option \<Rightarrow> header_map \<Rightarrow> token_store \<Rightarrow> refusal + api_token" where
  "authenticate fault headers st =
     (let key = extract_key headers
      in if key = [] then Inl (401, ''missing api key'')
         else case get_by_token fault key st of
                Inr (Some t) \<Rightarrow> Inr t
              | Inr None \<Rightarrow> Inl (401, ''invalid api key'')
              | Inl _ \<Rightarrow> Inl (500, ''authentication failed''))"

section \<open>The administrator's handlers\<close>

record create_token_request =
  ct_name :: "string option"
  ct_allowed_accounts :: "string option"
  ct_blocked_accounts :: "string option"

definition or_default :: "string option \<Rightarrow> string" where
  "or_default s = (case s of Some x \<Rightarrow> x | None \<Rightarrow> [])"

definition create_token ::
  "bool \<Rightarrow> int \<Rightarrow> sqlx_error option \<Rightarrow> (nat \<Rightarrow> nat) \<Rightarrow> create_token_request \<Rightarrow> token_store
     \<Rightarrow> (app_error + api_token) \<times> token_store" where
  "create_token pg now fault draw req st =
     token_create pg now fault
       \<lparr>tok_id = 0, tok_name = or_default (ct_name req), tok_token = generate_token draw,
        tok_allowed_accounts = or_default (ct_allowed_accounts req),
        tok_blocked_accounts = or_default (ct_blocked_accounts req), tok_status = TS_Active,
        tok_created_at = now, tok_updated_at = now\<rparr> st"

definition str_update :: "json \<Rightarrow> string \<Rightarrow> string \<Rightarrow> string" where
  "str_update updates field old = (case Option.bind (jget updates field) as_str of Some s \<Rightarrow> s | None \<Rightarrow> old)"

definition apply_token_updates :: "json \<Rightarrow> api_token \<Rightarrow> api_token" where
  "apply_token_updates updates t =
     (let t = t\<lparr>tok_name := str_update updates ''name'' (tok_name t),
                tok_allowed_accounts := str_update updates ''allowed_accounts'' (tok_allowed_accounts t),
                tok_blocked_accounts := str_update updates ''blocked_accounts'' (tok_blocked_accounts t)\<rparr>
      in case Option.bind (jget updates ''status'') as_str of
           Some s \<Rightarrow> if s \<noteq> [] then t\<lparr>tok_status := token_status_from s\<rparr> else t
         | None \<Rightarrow> t)"

definition update_token ::
  "int \<Rightarrow> sqlx_error option \<Rightarrow> sqlx_error option \<Rightarrow> int \<Rightarrow> json \<Rightarrow> token_store
     \<Rightarrow> (app_error + api_token) \<times> token_store" where
  "update_token now get_fault fault i updates st =
     (case token_get_by_id get_fault i st of
        Inl e \<Rightarrow> (Inl e, st)
      | Inr t \<Rightarrow>
          (let t = apply_token_updates updates t
           in case token_update now fault t st of
                (Inl e, st) \<Rightarrow> (Inl e, st)
              | (Inr _, st) \<Rightarrow> (Inr t, st)))"

definition delete_token_handler ::
  "sqlx_error option \<Rightarrow> int \<Rightarrow> token_store \<Rightarrow> (app_error + unit) \<times> token_store" where
  "delete_token_handler fault i st = token_delete fault i st"

record token_page =
  tp_data :: "api_token list"
  tp_total :: int
  tp_page :: int
  tp_page_size :: int
  tp_total_pages :: int

definition list_tokens ::
  "sqlx_error option \<Rightarrow> sqlx_error option \<Rightarrow> int option \<Rightarrow> int option \<Rightarrow> token_store \<Rightarrow> app_error + token_page" where
  "list_tokens count_fault list_fault page page_size st =
     (let page = max 1 (case page of Some p \<Rightarrow> p | None \<Rightarrow> 1);
          page_size = min 100 (max 1 (case page_size of Some n \<Rightarrow> n | None \<Rightarrow> 20))
      in case token_count count_fault st of
           Inl e \<Rightarrow> Inl e
         | Inr n_total \<Rightarrow>
             (case token_list_paged list_fault page page_size st of
                Inl e \<Rightarrow> Inl e
              | Inr tokens \<Rightarrow>
                  Inr \<lparr>tp_data = tokens, tp_total = n_total, tp_page = page, tp_page_size = page_size,
                       tp_total_pages = rust_div (n_total + page_size - 1) page_size\<rparr>))"

section \<open>Calls\<close>

datatype token_call =
    CreateToken bool int "sqlx_error option" "nat \<Rightarrow> nat" create_token_request
  | UpdateToken int "sqlx_error option" "sqlx_error option" int json
  | DeleteToken "sqlx_error option" int

fun token_exec :: "token_call \<Rightarrow> token_store \<Rightarrow> token_store" where
  "token_exec (CreateToken pg now fault draw req) st = snd (create_token pg now fault draw req st)"
| "token_exec (UpdateToken now get_fault fault i updates) st = snd (update_token now get_fault fault i updates st)"
| "token_exec (DeleteToken fault i) st = snd (delete_token_handler fault i st)"

definition token_run :: "token_call list \<Rightarrow> token_store \<Rightarrow> token_store" where
  "token_run calls st = fold token_exec calls st"

text \<open>Identifiers and token texts are unique, and new identifiers are fresh.\<close>

definition token_wf :: "token_store \<Rightarrow> bool" where
  "token_wf st \<longleftrightarrow> distinct (map tr_id (ts_rows st)) \<and> distinct (map tr_token (ts_rows st)) \<and>
     (\<forall>r \<in> set (ts_rows st). tr_id r < ts_next_id st)"

lemma token_wf_new: "token_wf token_store_new"
  by (simp add: token_wf_def token_store_new_def)

lemma token_update_rows:
  assumes "token_wf st"
  shows "token_wf (snd (token_update now fault t st))"
proof -
  have "map tr_id (ts_rows (snd (token_update now fault t st))) = map tr_id (ts_rows st)"
    "map tr_token (ts_rows (snd (token_update now fault t st))) = map tr_token (ts_rows st)"
    "ts_next_id (snd (token_update now fault t st)) = ts_next_id st"
    by (auto simp: token_update_def split: option.split)
  then show ?thesis
    using assms unfolding token_wf_def by (metis (no_types, lifting) imageE image_eqI list.set_map)
qed

lemma token_exec_wf: "token_wf st \<Longrightarrow> token_wf (token_exec call st)"
proof (cases call)
  case (CreateToken pg now fault draw req)
  then show "token_wf st \<Longrightarrow> token_wf (token_exec call st)"
    by (auto simp: create_token_def token_create_def token_wf_def Let_def split: option.split)
next
  case (UpdateToken now get_fault fault i updates)
  then show "token_wf st \<Longrightarrow> token_wf (token_exec call st)"
    using token_update_rows [of st now fault]
    by (auto simp: update_token_def Let_def split: sum.split prod.split) (metis snd_conv)+
next
  case (DeleteToken fault i)
  then show "token_wf st \<Longrightarrow> token_wf (token_exec call st)"
    by (auto simp: delete_token_handler_def token_delete_def token_wf_def distinct_map_filter split: option.split)
qed

lemma token_run_wf: "token_wf st \<Longrightarrow> token_wf (token_run calls st)"
  unfolding token_run_def by (induction calls arbitrary: st) (simp_all add: token_exec_wf)

lemma find_mem: "find P xs = Some x \<Longrightarrow> x \<in> set xs \<and> P x"
  by (auto simp: find_Some_iff)

lemma get_by_token_exact:
  assumes "token_wf st"
  shows "get_by_token None key st = Inr (Some t) \<longleftrightarrow>
    (\<exists>r \<in> set (ts_rows st). tr_token r = key \<and> tr_status r = ''active'' \<and> t = row_to_token r)"
proof -
  have "find (\<lambda>r. tr_token r = key \<and> tr_status r = ''active'') (ts_rows st) = Some r"
    if r: "r \<in> set (ts_rows st)" "tr_token r = key" "tr_status r = ''active''" for r
  proof (cases "find (\<lambda>r. tr_token r = key \<and> tr_status r = ''active'') (ts_rows st)")
    case (Some r')
    then have "r' \<in> set (ts_rows st)" "tr_token r' = key"
      by (auto dest!: find_mem)
    then have "r' = r"
      using assms r by (auto simp: token_wf_def distinct_map inj_on_def)
    then show ?thesis
      using Some by simp
  qed (use r in \<open>auto simp: find_None_iff\<close>)
  then show ?thesis
    by (auto simp: get_by_token_def dest!: find_mem)
qed

text \<open>The token of a text is gone or disabled, and only the row of identifier \<open>i\<close> can carry it.\<close>

definition revoked :: "int \<Rightarrow> string \<Rightarrow> token_store \<Rightarrow> bool" where
  "revoked i key st \<longleftrightarrow> token_wf st \<and>
     (\<forall>r \<in> set (ts_rows st). tr_token r = key \<longrightarrow> tr_id r = i \<and> tr_status r \<noteq> ''active'')"

definition status_update :: "json \<Rightarrow> string option" where
  "status_update updates = Option.bind (jget updates ''status'') as_str"

fun restores :: "int \<Rightarrow> string \<Rightarrow> token_call \<Rightarrow> bool" where
  "restores i key (CreateToken pg now fault draw req) = (generate_token draw = key)"
| "restores i key (UpdateToken now get_fault fault j updates) = (j = i \<and> status_update updates = Some ''active'')"
| "restores i key (DeleteToken fault j) = False"

lemma apply_token_updates_sel:
  "tok_id (apply_token_updates updates t) = tok_id t"
  "tok_status (apply_token_updates updates t) =
     (case status_update updates of Some s \<Rightarrow> if s \<noteq> [] then token_status_from s else tok_status t | None \<Rightarrow> tok_status t)"
  by (simp_all add: apply_token_updates_def status_update_def Let_def split: option.split)

lemma token_found:
  assumes "token_wf st" "token_get_by_id fault i st = Inr t"
  shows "\<exists>r \<in> set (ts_rows st). tr_id r = i \<and> t = row_to_token r \<and> (\<forall>r' \<in> set (ts_rows st). tr_id r' = i \<longrightarrow> r' = r)"
proof -
  obtain r where r: "r \<in> set (ts_rows st)" "tr_id r = i" "t = row_to_token r"
    using assms(2) by (auto simp: token_get_by_id_def dest!: find_mem split: option.splits)
  then show ?thesis
    using assms(1) by (auto simp: token_wf_def distinct_map inj_on_def)
qed

lemma token_update_member:
  assumes "r' \<in> set (ts_rows (snd (token_update now fault t st)))"
  shows "\<exists>r \<in> set (ts_rows st). tr_token r' = tr_token r \<and> tr_id r' = tr_id r \<and>
    (tr_status r' = tr_status r \<or> tr_id r = tok_id t \<and> tr_status r' = token_status_to_string (tok_status t))"
  using assms by (cases fault) (auto simp: token_update_def split: if_splits)

lemma snd_update_token:
  "snd (update_token now get_fault fault i updates st) =
     (case token_get_by_id get_fault i st of
        Inl e \<Rightarrow> st | Inr t \<Rightarrow> snd (token_update now fault (apply_token_updates updates t) st))"
  by (simp add: update_token_def Let_def split: sum.split prod.split)

lemma revoked_exec:
  assumes "revoked i key st" "\<not> restores i key call"
  shows "revoked i key (token_exec call st)"
proof -
  have wf: "token_wf (token_exec call st)"
    using assms(1) token_exec_wf by (simp add: revoked_def)
  show ?thesis
  proof (cases call)
    case (CreateToken pg now fault draw req)
    then show ?thesis
      using assms wf by (auto simp: revoked_def create_token_def token_create_def Let_def split: option.split)
  next
    case (DeleteToken fault j)
    then show ?thesis
      using assms wf by (auto simp: revoked_def delete_token_handler_def token_delete_def split: option.split)
  next
    case (UpdateToken now get_fault fault j updates)
    show ?thesis
    proof (cases "token_get_by_id get_fault j st")
      case (Inr t)
      obtain r where r: "r \<in> set (ts_rows st)" "tr_id r = j" "t = row_to_token r"
        "\<And>r'. r' \<in> set (ts_rows st) \<Longrightarrow> tr_id r' = j \<Longrightarrow> r' = r"
        using token_found [OF _ Inr] assms(1) unfolding revoked_def by blast
      have "tok_id t = j"
        using r(2,3) by (simp add: row_to_token_def)
      have disabled: "tok_status (apply_token_updates updates t) = TS_Disabled" if "tr_token r = key"
        using that assms r(1-3) UpdateToken
        by (auto simp: apply_token_updates_sel revoked_def row_to_token_def token_status_from_def split: option.split)
      have "tr_id r' = i \<and> tr_status r' \<noteq> ''active''"
        if "r' \<in> set (ts_rows (token_exec call st))" "tr_token r' = key" for r'
      proof -
        have "r' \<in> set (ts_rows (snd (token_update now fault (apply_token_updates updates t) st)))"
          using that(1) UpdateToken Inr by (simp add: snd_update_token)
        from token_update_member [OF this] obtain q where
          q: "q \<in> set (ts_rows st)" "tr_token q = key" "tr_id r' = tr_id q"
            "tr_status r' = tr_status q \<or> tr_id q = j \<and>
               tr_status r' = token_status_to_string (tok_status (apply_token_updates updates t))"
          using \<open>tr_token r' = key\<close> \<open>tok_id t = j\<close> by (auto simp: apply_token_updates_sel(1))
        moreover have "tr_id q = i" "tr_status q \<noteq> ''active''"
          using assms(1) q(1,2) by (simp_all add: revoked_def)
        ultimately show ?thesis
          using disabled r(4) by auto
      qed
      then show ?thesis
        using wf by (simp add: revoked_def)
    qed (use assms wf UpdateToken in \<open>simp add: revoked_def update_token_def\<close>)
  qed
qed

lemma revoked_run:
  "revoked i key st \<Longrightarrow> \<forall>call \<in> set calls. \<not> restores i key call \<Longrightarrow> revoked i key (token_run calls st)"
  unfolding token_run_def by (induction calls arbitrary: st) (simp_all add: revoked_exec)

section \<open>Properties\<close>

text \<open>
  C15. Authentication is exact. Whatever tokens were created, changed and deleted before, failing
  calls included, a request gets in exactly with the text of a token that is in the table and active,
  as that token; an empty key never does, and a database error refuses.
\<close>

theorem authentication_exact:
  assumes "st = token_run calls token_store_new"
  shows "(authenticate None headers st = Inr t \<longleftrightarrow>
      extract_key headers \<noteq> [] \<and>
      (\<exists>r \<in> set (ts_rows st). tr_token r = extract_key headers \<and> tr_status r = ''active'' \<and> t = row_to_token r)) \<and>
    isl (authenticate (Some e) headers st)"
proof -
  have "token_wf st"
    unfolding assms by (rule token_run_wf [OF token_wf_new])
  then have "authenticate None headers st = Inr t \<longleftrightarrow>
      extract_key headers \<noteq> [] \<and> get_by_token None (extract_key headers) st = Inr (Some t)"
    by (auto simp: authenticate_def Let_def split: sum.splits option.splits)
  then show ?thesis
    using get_by_token_exact [OF \<open>token_wf st\<close>]
    by (simp add: authenticate_def get_by_token_def Let_def)
qed

definition any_name :: create_token_request where
  "any_name = \<lparr>ct_name = None, ct_allowed_accounts = Some ''4'', ct_blocked_accounts = None\<rparr>"

theorem authentication_exact_witness:
  "\<exists>t. authenticate None [''x-api-key'' \<mapsto> generate_token (\<lambda>_. 0)]
       (token_run [CreateToken False 0 None (\<lambda>_. 0) any_name] token_store_new) = Inr t \<and> tok_id t = 1"
proof -
  let ?st = "token_run [CreateToken False 0 None (\<lambda>_. 0) any_name] token_store_new"
  have key: "generate_token (\<lambda>_. 0) \<noteq> []"
    by (simp add: generate_token_def)
  have "\<exists>r \<in> set (ts_rows ?st). tr_token r = generate_token (\<lambda>_. 0) \<and> tr_status r = ''active'' \<and> tr_id r = 1"
    by (simp add: token_run_def create_token_def token_create_def token_store_new_def Let_def)
  then show ?thesis
    using authentication_exact [OF refl, where calls = "[CreateToken False 0 None (\<lambda>_. 0) any_name]"
        and headers = "[''x-api-key'' \<mapsto> generate_token (\<lambda>_. 0)]"] key
    by (auto simp: extract_key_def row_to_token_def)
qed

text \<open>
  C16. A revoked token stays out. Once a token is deleted, or updated to any other status than active,
  no request with its text gets in, whatever calls follow, until one of them activates that token
  again or draws the same text for a new one.
\<close>

theorem revoked_token_rejected:
  assumes "token_wf st" "r \<in> set (ts_rows st)" "tr_token r = extract_key headers"
    and "revocation = DeleteToken None (tr_id r) \<or>
      (\<exists>now updates s. revocation = UpdateToken now None None (tr_id r) updates \<and>
         status_update updates = Some s \<and> s \<noteq> [] \<and> s \<noteq> ''active'')"
    and "\<forall>call \<in> set calls. \<not> restores (tr_id r) (tr_token r) call"
  shows "isl (authenticate fault headers (token_run calls (token_exec revocation st)))"
proof -
  have only: "r' = r" if "r' \<in> set (ts_rows st)" "tr_token r' = tr_token r \<or> tr_id r' = tr_id r" for r'
    using that assms(1,2) by (auto simp: token_wf_def distinct_map inj_on_def)
  have found: "token_get_by_id None (tr_id r) st = Inr (row_to_token r)"
  proof (cases "find (\<lambda>r'. tr_id r' = tr_id r) (ts_rows st)")
    case (Some r')
    then have "r' = r"
      using only by (auto dest!: find_mem)
    then show ?thesis
      using Some by (simp add: token_get_by_id_def)
  qed (use assms(2) in \<open>auto simp: find_None_iff\<close>)
  have "revoked (tr_id r) (tr_token r) (token_exec revocation st)"
    using assms(4)
  proof (elim disjE exE conjE)
    assume "revocation = DeleteToken None (tr_id r)"
    then show ?thesis
      using token_exec_wf [OF assms(1), of revocation] only
      by (auto simp: revoked_def delete_token_handler_def token_delete_def)
  next
    fix now updates s
    assume rev: "revocation = UpdateToken now None None (tr_id r) updates" "status_update updates = Some s" "s \<noteq> []" "s \<noteq> ''active''"
    then have "tok_status (apply_token_updates updates (row_to_token r)) = TS_Disabled"
      by (simp add: apply_token_updates_sel token_status_from_def)
    then show ?thesis
      using token_exec_wf [OF assms(1), of revocation] only rev(1) found
      by (auto simp: revoked_def update_token_def token_update_def apply_token_updates_sel row_to_token_def Let_def)
  qed
  then have "revoked (tr_id r) (tr_token r) (token_run calls (token_exec revocation st))"
    using assms(5) by (rule revoked_run)
  then show ?thesis
    using assms(3)
    by (auto simp: revoked_def authenticate_def get_by_token_def Let_def dest!: find_mem
        split: option.split)
qed

definition one_token :: token_store where
  "one_token = \<lparr>ts_rows = [\<lparr>tr_id = 1, tr_name = [], tr_token = ''sk-a'', tr_allowed_accounts = [],
      tr_blocked_accounts = [], tr_status = ''active'', tr_created_at = 0, tr_updated_at = 0\<rparr>], ts_next_id = 2\<rparr>"

theorem revoked_token_rejected_witness:
  "\<not> isl (authenticate None [''x-api-key'' \<mapsto> ''sk-a''] one_token) \<and>
   isl (authenticate None [''x-api-key'' \<mapsto> ''sk-a'']
     (token_run [UpdateToken 5 None None 1 (JObj [(''name'', JStr ''x'')])] (token_exec (DeleteToken None 1) one_token)))"
proof -
  have "token_wf one_token" "ts_rows one_token = [ts_rows one_token ! 0]"
    by (simp_all add: token_wf_def one_token_def)
  moreover have "tr_id (ts_rows one_token ! 0) = 1" "tr_token (ts_rows one_token ! 0) = ''sk-a''"
    "extract_key [''x-api-key'' \<mapsto> ''sk-a''] = ''sk-a''"
    by (simp_all add: one_token_def extract_key_def)
  ultimately have "isl (authenticate None [''x-api-key'' \<mapsto> ''sk-a'']
      (token_run [UpdateToken 5 None None 1 (JObj [(''name'', JStr ''x'')])] (token_exec (DeleteToken None 1) one_token)))"
    by (intro revoked_token_rejected [of _ "ts_rows one_token ! 0"])
       (auto simp: status_update_def, metis list.set_intros(1))
  then show ?thesis
    by (simp add: authenticate_def extract_key_def get_by_token_def one_token_def)
qed

end
