(* ===== verification/Pricing.thy ===== *)
theory Pricing
  imports Account_Model
begin

text \<open>
  Usage counters and pricing (\<open>src/model/usage.rs\<close>, \<open>src/service/usage_pricing.rs\<close>): exact decimal
  rates in nano-dollars per million tokens, the rule lookup, the cost of a request, price
  overrides, snapshots and the two remote price lists.

  \<open>i64\<close> and \<open>i128\<close> values are integers with every checked operation written out. A \<open>BTreeMap\<close> is
  an association list, sorted by key where the code iterates over it. Errors are the source's
  strings. The hash function, the text form of a JSON number and the texts fetched from the
  network are arguments.
\<close>

section \<open>Usage counters\<close>

record usage_tokens =
  ut_input :: int
  ut_output :: int
  ut_cache_creation_5m :: int
  ut_cache_creation_1h :: int
  ut_cache_read :: int

definition default_tokens :: usage_tokens where
  "default_tokens =
     \<lparr>ut_input = 0, ut_output = 0, ut_cache_creation_5m = 0, ut_cache_creation_1h = 0,
      ut_cache_read = 0\<rparr>"

definition tokens_total :: "usage_tokens \<Rightarrow> int" where
  "tokens_total t =
     i64_saturating_add (i64_saturating_add (i64_saturating_add
       (i64_saturating_add (ut_input t) (ut_output t)) (ut_cache_creation_5m t))
       (ut_cache_creation_1h t)) (ut_cache_read t)"

definition has_usage :: "usage_tokens \<Rightarrow> bool" where
  "has_usage t \<longleftrightarrow> tokens_total t > 0"

definition tokens_add_assign :: "usage_tokens \<Rightarrow> usage_tokens \<Rightarrow> usage_tokens" where
  "tokens_add_assign t u =
     \<lparr>ut_input = i64_saturating_add (ut_input t) (ut_input u),
      ut_output = i64_saturating_add (ut_output t) (ut_output u),
      ut_cache_creation_5m = i64_saturating_add (ut_cache_creation_5m t) (ut_cache_creation_5m u),
      ut_cache_creation_1h = i64_saturating_add (ut_cache_creation_1h t) (ut_cache_creation_1h u),
      ut_cache_read = i64_saturating_add (ut_cache_read t) (ut_cache_read u)\<rparr>"

record usage_costs =
  uc_input :: "int option"
  uc_output :: "int option"
  uc_cache_creation_5m :: "int option"
  uc_cache_creation_1h :: "int option"
  uc_cache_read :: "int option"
  uc_known_nano_usd :: int
  uc_complete :: bool
  uc_unpriced_tokens :: int

record usage_metrics =
  um_request_count :: int
  um_tokens :: usage_tokens
  um_known_cost_nano_usd :: int
  um_cost_complete :: bool
  um_unpriced_request_count :: int
  um_unpriced_tokens :: int

definition default_metrics :: usage_metrics where
  "default_metrics =
     \<lparr>um_request_count = 0, um_tokens = default_tokens, um_known_cost_nano_usd = 0,
      um_cost_complete = True, um_unpriced_request_count = 0, um_unpriced_tokens = 0\<rparr>"

definition metrics_add_assign :: "usage_metrics \<Rightarrow> usage_metrics \<Rightarrow> usage_metrics" where
  "metrics_add_assign a b =
     (let unpriced = i64_saturating_add (um_unpriced_request_count a) (um_unpriced_request_count b)
      in \<lparr>um_request_count = i64_saturating_add (um_request_count a) (um_request_count b),
          um_tokens = tokens_add_assign (um_tokens a) (um_tokens b),
          um_known_cost_nano_usd =
            i64_saturating_add (um_known_cost_nano_usd a) (um_known_cost_nano_usd b),
          um_cost_complete = (unpriced = 0),
          um_unpriced_request_count = unpriced,
          um_unpriced_tokens = i64_saturating_add (um_unpriced_tokens a) (um_unpriced_tokens b)\<rparr>)"

section \<open>Rules\<close>

record rates =
  rt_input :: "int option"
  rt_output :: "int option"
  rt_cache_creation_5m :: "int option"
  rt_cache_creation_1h :: "int option"
  rt_cache_read :: "int option"

text \<open>
  \<open>PricingRule\<close> and \<open>LongContextPricing\<close> list the same five rates, \<open>rates\<close> here; the first adds the
  key and the tier, the second the threshold.
\<close>

record long_context_pricing = rates +
  lc_threshold :: int

record pricing_rule = rates +
  pr_model_key :: string
  pr_long_context :: "long_context_pricing option"

record pricing_engine =
  pe_rules :: "(string, pricing_rule) hash_map"
  pe_overrides :: "(string, pricing_rule) hash_map"
  pe_version :: string
  pe_override_version_suffix :: string

record pricing_snapshot =
  ps_version :: string
  ps_rules :: "(string, pricing_rule) hash_map"

record priced_usage =
  pu_costs :: usage_costs
  pu_pricing_version :: string
  pu_pricing_model_key :: "string option"

definition BASE_PRICING_VERSION :: string where
  "BASE_PRICING_VERSION = ''builtin-anthropic-2026-08-13''"

section \<open>Decimal rates\<close>

text \<open>\<open>10_i128.checked_pow(n)\<close>: the powers up to 38 fit.\<close>

definition checked_pow10 :: "nat \<Rightarrow> int option" where
  "checked_pow10 n = (if n \<le> 38 then Some (10 ^ n) else None)"

definition starts_with_sign :: "string \<Rightarrow> bool" where
  "starts_with_sign s \<longleftrightarrow> prefix ''-'' s \<or> prefix ''+'' s"

definition split_fraction :: "string \<Rightarrow> string \<times> string" where
  "split_fraction s = (case split_once_char (CHR ''.'') s of Some p \<Rightarrow> p | None \<Rightarrow> (s, []))"

definition parse_usd_per_million :: "string \<Rightarrow> string + int" where
  "parse_usd_per_million v =
     (let value = trim v in
      if value = [] \<or> starts_with_sign value
      then Inl (''invalid non-negative USD rate: '' @ value)
      else
        let (whole, fraction) = split_fraction value in
        if length fraction > 9 \<or> \<not> list_all is_ascii_digit whole \<or> \<not> list_all is_ascii_digit fraction
        then Inl (''invalid USD rate with at most 9 decimals: '' @ value)
        else
          case parse_i128 whole of
            None \<Rightarrow> Inl (''USD rate out of range: '' @ value)
          | Some w \<Rightarrow>
              (case (if fraction = [] then Some 0
                     else map_option (\<lambda>f. f * 10 ^ (9 - length fraction)) (parse_i128 fraction)) of
                 None \<Rightarrow> Inl (''invalid USD rate: '' @ value)
               | Some f \<Rightarrow>
                   (case Option.bind (i128_checked (w * 1000000000)) (\<lambda>x. i128_checked (x + f)) of
                      None \<Rightarrow> Inl (''USD rate out of range: '' @ value)
                    | Some nano \<Rightarrow>
                        (case i64_checked nano of
                           None \<Rightarrow> Inl (''USD rate out of range: '' @ value)
                         | Some n \<Rightarrow> Inr n))))"

definition is_exponent_mark :: "char \<Rightarrow> bool" where
  "is_exponent_mark c \<longleftrightarrow> c = CHR ''e'' \<or> c = CHR ''E''"

text \<open>Mantissa and exponent of a decimal; \<open>None\<close> when the exponent is no \<open>i32\<close>.\<close>

definition split_exponent :: "string \<Rightarrow> (string \<times> int) option" where
  "split_exponent value =
     (if \<exists>c \<in> set value. is_exponent_mark c
      then
        let mantissa = takeWhile (\<lambda>c. \<not> is_exponent_mark c) value
        in map_option (\<lambda>e. (mantissa, e)) (parse_i32 (drop (length mantissa + 1) value))
      else Some (value, 0))"

text \<open>Scaling the digits by a power of ten, rounding half up when digits are dropped.\<close>

definition scale_digits :: "int \<Rightarrow> int \<Rightarrow> int option" where
  "scale_digits digits pw =
     (if pw \<ge> 0
      then Option.bind (checked_pow10 (nat pw)) (\<lambda>p. i128_checked (digits * p))
      else
        Option.bind (checked_pow10 (nat (- pw)))
          (\<lambda>divisor. map_option (\<lambda>s. rust_div s divisor) (i128_checked (digits + rust_div divisor 2))))"

definition parse_decimal_scaled :: "string \<Rightarrow> int \<Rightarrow> string + int" where
  "parse_decimal_scaled v scale =
     (let value = trim v in
      if value = [] \<or> starts_with_sign value
      then Inl (''invalid non-negative pricing rate: '' @ value)
      else
        case split_exponent value of
          None \<Rightarrow> Inl (''invalid pricing exponent: '' @ value)
        | Some (mantissa, exponent) \<Rightarrow>
            (let (whole, fraction) = split_fraction mantissa in
             if whole = [] \<or> \<not> list_all is_ascii_digit whole \<or> \<not> list_all is_ascii_digit fraction
             then Inl (''invalid pricing decimal: '' @ value)
             else
               case parse_i128 (whole @ fraction) of
                 None \<Rightarrow> Inl (''pricing rate out of range: '' @ value)
               | Some digits \<Rightarrow>
                   (case Option.bind (i32_checked (scale + exponent))
                           (\<lambda>p. i32_checked (p - int (length fraction))) of
                      None \<Rightarrow> Inl (''pricing scale out of range: '' @ value)
                    | Some pw \<Rightarrow>
                        if pw = - (2 ^ 31) then Inl (''pricing scale out of range: '' @ value)
                        else
                          case Option.bind (scale_digits digits pw) i64_checked of
                            None \<Rightarrow> Inl (''pricing rate out of range: '' @ value)
                          | Some n \<Rightarrow> Inr n)))"

definition multiply_rate :: "int \<Rightarrow> int \<Rightarrow> int \<Rightarrow> int option" where
  "multiply_rate rate numerator denominator =
     Option.bind (i128_checked (rate * numerator)) (\<lambda>x.
     Option.bind (i128_checked (x + rust_div denominator 2)) (\<lambda>y.
     if denominator = 0 then None else i64_checked (rust_div y denominator)))"

definition component_cost :: "int \<Rightarrow> int option \<Rightarrow> int option" where
  "component_cost tokens nano_usd_per_million =
     (if tokens \<le> 0 then Some 0
      else
        Option.bind nano_usd_per_million (\<lambda>rate.
        Option.bind (i128_checked (tokens * rate)) (\<lambda>numerator.
        Option.bind (i128_checked (numerator + 500000)) (\<lambda>x.
        i64_checked (rust_div x 1000000)))))"

section \<open>Looking up and pricing\<close>

definition normalize_model_key :: "string \<Rightarrow> string" where
  "normalize_model_key model = replace_char (CHR ''.'') (CHR ''-'') (to_ascii_lowercase (trim model))"

definition model_key_matches :: "string \<Rightarrow> string \<Rightarrow> bool" where
  "model_key_matches model key \<longleftrightarrow>
     model = key \<or>
     (case strip_prefix key model of
        None \<Rightarrow> False
      | Some suf \<Rightarrow> prefix ''-'' suf \<and> length (drop 1 suf) = 8 \<and> list_all is_ascii_digit (drop 1 suf))"

text \<open>\<open>max_by_key\<close>: the last of the longest.\<close>

fun longest_key :: "(string \<times> 'v) list \<Rightarrow> (string \<times> 'v) option" where
  "longest_key [] = None"
| "longest_key (e # es) =
     (case longest_key es of
        None \<Rightarrow> Some e
      | Some f \<Rightarrow> if length (fst e) > length (fst f) then Some e else Some f)"

definition find_rule :: "pricing_engine \<Rightarrow> string \<Rightarrow> pricing_rule option" where
  "find_rule pe model =
     (let exact = to_ascii_lowercase (trim model);
          normalized = replace_char (CHR ''.'') (CHR ''-'') exact
      in case map_of (pe_overrides pe) exact of
           Some r \<Rightarrow> Some r
         | None \<Rightarrow>
             (case map_of (pe_rules pe) normalized of
                Some r \<Rightarrow> Some r
              | None \<Rightarrow>
                  map_option snd (longest_key
                    (sort_key fst (filter (\<lambda>(key, _). model_key_matches normalized key) (pe_rules pe))))))"

definition no_rates :: rates where
  "no_rates =
     \<lparr>rt_input = None, rt_output = None, rt_cache_creation_5m = None, rt_cache_creation_1h = None,
      rt_cache_read = None\<rparr>"

definition rates_for :: "pricing_rule \<Rightarrow> usage_tokens \<Rightarrow> rates" where
  "rates_for r tokens =
     (case pr_long_context r of
        Some tier \<Rightarrow> if ut_input tokens > lc_threshold tier then rates.truncate tier else rates.truncate r
      | None \<Rightarrow> rates.truncate r)"

definition sum_saturating :: "int list \<Rightarrow> int" where
  "sum_saturating xs = foldl i64_saturating_add 0 xs"

definition price :: "pricing_engine \<Rightarrow> string \<Rightarrow> usage_tokens \<Rightarrow> priced_usage" where
  "price pe model tokens =
     (let matched = find_rule pe model;
          r = (case matched of Some rl \<Rightarrow> rates_for rl tokens | None \<Rightarrow> no_rates);
          input = component_cost (ut_input tokens) (rt_input r);
          output = component_cost (ut_output tokens) (rt_output r);
          cache_5m = component_cost (ut_cache_creation_5m tokens) (rt_cache_creation_5m r);
          cache_1h = component_cost (ut_cache_creation_1h tokens) (rt_cache_creation_1h r);
          cache_read = component_cost (ut_cache_read tokens) (rt_cache_read r);
          known = sum_saturating
            (List.map_filter (\<lambda>x. x) [input, output, cache_5m, cache_1h, cache_read]);
          unpriced = sum_saturating
            (List.map_filter (\<lambda>(count, cost). if count > 0 \<and> cost = None then Some count else None)
               [(ut_input tokens, input), (ut_output tokens, output),
                (ut_cache_creation_5m tokens, cache_5m), (ut_cache_creation_1h tokens, cache_1h),
                (ut_cache_read tokens, cache_read)])
      in \<lparr>pu_costs =
            \<lparr>uc_input = input, uc_output = output, uc_cache_creation_5m = cache_5m,
             uc_cache_creation_1h = cache_1h, uc_cache_read = cache_read,
             uc_known_nano_usd = known, uc_complete = (unpriced = 0), uc_unpriced_tokens = unpriced\<rparr>,
          pu_pricing_version = pe_version pe,
          pu_pricing_model_key = map_option pr_model_key matched\<rparr>)"

section \<open>Built-in rules\<close>

text \<open>\<open>expect\<close> on a built-in rate panics when the text is no rate.\<close>

definition expect_rate :: "string \<Rightarrow> int outcome" where
  "expect_rate v = (case parse_usd_per_million v of Inr n \<Rightarrow> Done n | Inl _ \<Rightarrow> Panic)"

definition rule ::
  "string \<Rightarrow> string \<Rightarrow> string \<Rightarrow> string \<Rightarrow> string \<Rightarrow> string \<Rightarrow> pricing_rule outcome" where
  "rule model_key input output cache_5m cache_1h cache_read =
     outcome_bind (expect_rate input) (\<lambda>i.
     outcome_bind (expect_rate output) (\<lambda>out.
     outcome_bind (expect_rate cache_5m) (\<lambda>c5.
     outcome_bind (expect_rate cache_1h) (\<lambda>c1.
     outcome_bind (expect_rate cache_read) (\<lambda>cr.
     Done \<lparr>rt_input = Some i, rt_output = Some out, rt_cache_creation_5m = Some c5,
           rt_cache_creation_1h = Some c1, rt_cache_read = Some cr,
           pr_model_key = model_key, pr_long_context = None\<rparr>)))))"

definition builtin_rows :: "(string \<times> string \<times> string \<times> string \<times> string \<times> string) list" where
  "builtin_rows =
     [(''claude-opus-5'', ''5'', ''25'', ''6.25'', ''10'', ''0.5''),
      (''claude-opus-4-8'', ''5'', ''25'', ''6.25'', ''10'', ''0.5''),
      (''claude-opus-4-7'', ''5'', ''25'', ''6.25'', ''10'', ''0.5''),
      (''claude-opus-4-6'', ''5'', ''25'', ''6.25'', ''10'', ''0.5''),
      (''claude-opus-4-5'', ''5'', ''25'', ''6.25'', ''10'', ''0.5''),
      (''claude-opus-4-1'', ''15'', ''75'', ''18.75'', ''30'', ''1.5''),
      (''claude-opus-4'', ''15'', ''75'', ''18.75'', ''30'', ''1.5''),
      (''claude-sonnet-4-6'', ''3'', ''15'', ''3.75'', ''6'', ''0.3''),
      (''claude-sonnet-4-5'', ''3'', ''15'', ''3.75'', ''6'', ''0.3''),
      (''claude-sonnet-4'', ''3'', ''15'', ''3.75'', ''6'', ''0.3''),
      (''claude-sonnet-5'', ''2'', ''10'', ''2.5'', ''4'', ''0.2''),
      (''claude-fable-5'', ''10'', ''50'', ''12.5'', ''20'', ''1''),
      (''claude-haiku-4-5'', ''1'', ''5'', ''1.25'', ''2'', ''0.1''),
      (''claude-3-7-sonnet'', ''3'', ''15'', ''3.75'', ''6'', ''0.3''),
      (''claude-3-5-sonnet'', ''3'', ''15'', ''3.75'', ''6'', ''0.3''),
      (''claude-3-5-haiku'', ''0.8'', ''4'', ''1'', ''1.6'', ''0.08''),
      (''claude-3-opus'', ''15'', ''75'', ''18.75'', ''30'', ''1.5''),
      (''claude-3-haiku'', ''0.25'', ''1.25'', ''0.3'', ''0.5'', ''0.03'')]"

fun collect_rules ::
  "(string \<times> string \<times> string \<times> string \<times> string \<times> string) list \<Rightarrow> (string, pricing_rule) hash_map outcome" where
  "collect_rules [] = Done []"
| "collect_rules ((k, i, out, c5, c1, cr) # rows) =
     outcome_bind (rule k i out c5 c1 cr)
       (\<lambda>r. outcome_bind (collect_rules rows) (\<lambda>m. Done ((pr_model_key r, r) # m)))"

definition builtin_long_context :: "long_context_pricing outcome" where
  "builtin_long_context =
     outcome_bind (expect_rate ''6'') (\<lambda>i.
     outcome_bind (expect_rate ''22.5'') (\<lambda>out.
     outcome_bind (expect_rate ''7.5'') (\<lambda>c5.
     outcome_bind (expect_rate ''12'') (\<lambda>c1.
     outcome_bind (expect_rate ''0.6'') (\<lambda>cr.
     Done \<lparr>rt_input = Some i, rt_output = Some out, rt_cache_creation_5m = Some c5,
           rt_cache_creation_1h = Some c1, rt_cache_read = Some cr, lc_threshold = 200000\<rparr>)))))"

definition builtin_rules :: "(string, pricing_rule) hash_map outcome" where
  "builtin_rules =
     outcome_bind (collect_rules builtin_rows) (\<lambda>rules.
     outcome_bind builtin_long_context (\<lambda>tier.
     Done (map (\<lambda>(k, r).
       (k, if k \<in> {''claude-sonnet-4'', ''claude-sonnet-4-5'', ''claude-sonnet-4-6''}
           then r\<lparr>pr_long_context := Some tier\<rparr> else r)) rules)))"

section \<open>Overrides\<close>

record override_rates =
  or_input :: "string option"
  or_output :: "string option"
  or_cache_creation_5m :: "string option"
  or_cache_creation_1h :: "string option"
  or_cache_read :: "string option"

record override_long_context = override_rates +
  ol_threshold :: int

record override_rule = override_rates +
  or_long_context :: "override_long_context option"

definition sum_bind :: "'e + 'a \<Rightarrow> ('a \<Rightarrow> 'e + 'b) \<Rightarrow> 'e + 'b" where
  "sum_bind r f = (case r of Inl e \<Rightarrow> Inl e | Inr x \<Rightarrow> f x)"

definition parse_optional_rate :: "string option \<Rightarrow> string + int option" where
  "parse_optional_rate v =
     (case v of
        None \<Rightarrow> Inr None
      | Some s \<Rightarrow> sum_bind (parse_usd_per_million s) (\<lambda>n. Inr (Some n)))"

text \<open>The five rates in the order the source parses them.\<close>

definition parse_override_rates :: "'a override_rates_scheme \<Rightarrow> string + rates" where
  "parse_override_rates o_rates =
     sum_bind (parse_optional_rate (or_input o_rates)) (\<lambda>i.
     sum_bind (parse_optional_rate (or_output o_rates)) (\<lambda>out.
     sum_bind (parse_optional_rate (or_cache_creation_5m o_rates)) (\<lambda>c5.
     sum_bind (parse_optional_rate (or_cache_creation_1h o_rates)) (\<lambda>c1.
     sum_bind (parse_optional_rate (or_cache_read o_rates)) (\<lambda>cr.
     Inr \<lparr>rt_input = i, rt_output = out, rt_cache_creation_5m = c5, rt_cache_creation_1h = c1,
          rt_cache_read = cr\<rparr>)))))"

definition parse_override_tier :: "override_long_context \<Rightarrow> string + long_context_pricing" where
  "parse_override_tier tier =
     (if ol_threshold tier \<le> 0 then Inl ''long_context.threshold must be positive''
      else sum_bind (parse_override_rates tier)
             (\<lambda>r. Inr (rates.extend r (long_context_pricing.fields (ol_threshold tier)))))"

definition parse_override_rule :: "string \<Rightarrow> override_rule \<Rightarrow> string + pricing_rule" where
  "parse_override_rule model_key orule =
     sum_bind (parse_override_rates orule) (\<lambda>r.
     sum_bind (case or_long_context orule of
                 None \<Rightarrow> Inr None
               | Some tier \<Rightarrow> sum_bind (parse_override_tier tier) (\<lambda>t. Inr (Some t)))
       (\<lambda>tier. Inr (rates.extend r (pricing_rule.fields model_key tier))))"

fun collect_overrides ::
  "(string \<times> override_rule) list \<Rightarrow> (string, pricing_rule) hash_map
     \<Rightarrow> string + (string, pricing_rule) hash_map" where
  "collect_overrides [] m = Inr m"
| "collect_overrides ((model, orule) # rest) m =
     (let model = to_ascii_lowercase (trim model)
      in if model = [] then Inl ''pricing override model must not be empty''
         else sum_bind (parse_override_rule model orule)
                (\<lambda>r. collect_overrides rest (AList.update model r m)))"

text \<open>
  The derived deserializers: an optional field may be missing or \<open>null\<close>, a required field may not,
  and a value of another type is an error. Unknown fields are ignored. (An array in the order of
  the fields, which the derived code would take for an object, is not represented.)
\<close>

definition optional_field :: "(json \<Rightarrow> 'a option) \<Rightarrow> json \<Rightarrow> string \<Rightarrow> 'a option option" where
  "optional_field as_type j k =
     (case jget j k of
        None \<Rightarrow> Some None
      | Some v \<Rightarrow> if v = JNull then Some None else map_option Some (as_type v))"

definition required_field :: "(json \<Rightarrow> 'a option) \<Rightarrow> json \<Rightarrow> string \<Rightarrow> 'a option" where
  "required_field as_type j k = Option.bind (jget j k) as_type"

definition de_override_rates :: "json \<Rightarrow> override_rates option" where
  "de_override_rates j =
     Option.bind (optional_field as_str j ''input_usd_per_million'') (\<lambda>i.
     Option.bind (optional_field as_str j ''output_usd_per_million'') (\<lambda>out.
     Option.bind (optional_field as_str j ''cache_creation_5m_usd_per_million'') (\<lambda>c5.
     Option.bind (optional_field as_str j ''cache_creation_1h_usd_per_million'') (\<lambda>c1.
     Option.bind (optional_field as_str j ''cache_read_usd_per_million'') (\<lambda>cr.
     Some \<lparr>or_input = i, or_output = out, or_cache_creation_5m = c5, or_cache_creation_1h = c1,
           or_cache_read = cr\<rparr>)))))"

definition de_override_tier :: "json \<Rightarrow> override_long_context option" where
  "de_override_tier j =
     Option.bind (as_object j) (\<lambda>_.
     Option.bind (required_field as_i64 j ''threshold'') (\<lambda>t.
     map_option (\<lambda>r. override_rates.extend r (override_long_context.fields t)) (de_override_rates j)))"

definition de_override_rule :: "json \<Rightarrow> override_rule option" where
  "de_override_rule j =
     Option.bind (as_object j) (\<lambda>_.
     Option.bind (de_override_rates j) (\<lambda>r.
     map_option (\<lambda>t. override_rates.extend r (override_rule.fields t))
       (optional_field de_override_tier j ''long_context'')))"

fun de_entries :: "(json \<Rightarrow> 'a option) \<Rightarrow> (string \<times> json) list \<Rightarrow> (string \<times> 'a) list option" where
  "de_entries de [] = Some []"
| "de_entries de ((k, j) # es) =
     Option.bind (de j) (\<lambda>v. map_option (\<lambda>m. (k, v) # m) (de_entries de es))"

text \<open>
  \<open>from_override_json\<close>. \<open>sha256\<close> is the hash library; the texts of the JSON library's own errors
  are left out of the messages. Re-reading the text as a document cannot fail once it has been
  read as a map.
\<close>

definition from_override_json ::
  "serde_lib \<Rightarrow> (string \<Rightarrow> nat list) \<Rightarrow> string option \<Rightarrow> (string + pricing_engine) outcome" where
  "from_override_json S sha256 override_json =
     outcome_bind builtin_rules (\<lambda>rules.
       let engine = (\<lambda>overrides suf.
             \<lparr>pe_rules = rules, pe_overrides = overrides, pe_version = BASE_PRICING_VERSION @ suf,
              pe_override_version_suffix = suf\<rparr>)
       in Done
         (case map_option trim override_json of
            None \<Rightarrow> Inr (engine [] [])
          | Some raw \<Rightarrow>
              if raw = [] then Inr (engine [] [])
              else
                case sj_from_str S raw of
                  None \<Rightarrow> Inl ''invalid USAGE_PRICING_OVERRIDES_JSON''
                | Some doc \<Rightarrow>
                    (case Option.bind (as_object doc) (de_entries de_override_rule) of
                       None \<Rightarrow> Inl ''invalid USAGE_PRICING_OVERRIDES_JSON''
                     | Some entries \<Rightarrow>
                         sum_bind (collect_overrides (sort_key fst entries) []) (\<lambda>overrides.
                           Inr (engine overrides (''+override-'' @
                                  hex_encode (take 8 (sha256 (sj_to_string S doc)))))))))"

section \<open>Snapshots\<close>

definition rate_list :: "'a rates_scheme \<Rightarrow> int list" where
  "rate_list r = List.map_filter (\<lambda>x. x)
     [rt_input r, rt_output r, rt_cache_creation_5m r, rt_cache_creation_1h r, rt_cache_read r]"

fun validate_rules :: "(string \<times> pricing_rule) list \<Rightarrow> string + unit" where
  "validate_rules [] = Inr ()"
| "validate_rules ((key, r) # rest) =
     (if trim key = [] \<or> pr_model_key r \<noteq> key \<or> list_ex (\<lambda>x. x < 0) (rate_list r)
      then Inl (''invalid pricing rule for model '' @ key)
      else if (case pr_long_context r of
                 None \<Rightarrow> False
               | Some tier \<Rightarrow> lc_threshold tier \<le> 0 \<or> list_ex (\<lambda>x. x < 0) (rate_list tier))
      then Inl (''invalid long-context pricing rule for model '' @ key)
      else validate_rules rest)"

definition validate :: "pricing_snapshot \<Rightarrow> string + unit" where
  "validate snap =
     (if trim (ps_version snap) = [] \<or> ps_rules snap = []
      then Inl ''pricing snapshot must contain a version and at least one rule''
      else validate_rules (sort_key fst (ps_rules snap)))"

fun merge_snapshot ::
  "(string \<times> pricing_rule) list \<Rightarrow> (string, pricing_rule) hash_map \<Rightarrow> (string, pricing_rule) hash_map" where
  "merge_snapshot [] rules = rules"
| "merge_snapshot ((key, r) # rest) rules =
     (let merged = (if pr_long_context r = None
                    then r\<lparr>pr_long_context := Option.bind (map_of rules key) pr_long_context\<rparr>
                    else r)
      in merge_snapshot rest (AList.update key merged rules))"

definition with_snapshot :: "pricing_engine \<Rightarrow> pricing_snapshot \<Rightarrow> (string + pricing_engine) outcome" where
  "with_snapshot pe snap =
     (case validate snap of
        Inl e \<Rightarrow> Done (Inl e)
      | Inr _ \<Rightarrow>
          outcome_bind builtin_rules (\<lambda>rules.
            Done (Inr
              \<lparr>pe_rules = merge_snapshot (sort_key fst (ps_rules snap)) rules,
               pe_overrides = pe_overrides pe,
               pe_version = ps_version snap @ pe_override_version_suffix pe,
               pe_override_version_suffix = pe_override_version_suffix pe\<rparr>)))"

definition json_of_opt_i64 :: "int option \<Rightarrow> json" where
  "json_of_opt_i64 v = (case v of None \<Rightarrow> JNull | Some i \<Rightarrow> json_of_i64 i)"

definition rates_fields :: "'a rates_scheme \<Rightarrow> (string \<times> json) list" where
  "rates_fields r =
     [(''input'', json_of_opt_i64 (rt_input r)), (''output'', json_of_opt_i64 (rt_output r)),
      (''cache_creation_5m'', json_of_opt_i64 (rt_cache_creation_5m r)),
      (''cache_creation_1h'', json_of_opt_i64 (rt_cache_creation_1h r)),
      (''cache_read'', json_of_opt_i64 (rt_cache_read r))]"

definition tier_to_value :: "long_context_pricing \<Rightarrow> json" where
  "tier_to_value tier = JObj ((''threshold'', json_of_i64 (lc_threshold tier)) # rates_fields tier)"

definition rule_to_value :: "pricing_rule \<Rightarrow> json" where
  "rule_to_value r =
     JObj ((''model_key'', JStr (pr_model_key r)) # rates_fields r @
       [(''long_context'', case pr_long_context r of None \<Rightarrow> JNull | Some t \<Rightarrow> tier_to_value t)])"

definition rules_to_value :: "(string, pricing_rule) hash_map \<Rightarrow> json" where
  "rules_to_value rules = JObj (map (\<lambda>(k, r). (k, rule_to_value r)) (sort_key fst rules))"

definition snapshot_to_value :: "pricing_snapshot \<Rightarrow> json" where
  "snapshot_to_value snap =
     JObj [(''version'', JStr (ps_version snap)), (''rules'', rules_to_value (ps_rules snap))]"

definition de_rates :: "json \<Rightarrow> rates option" where
  "de_rates j =
     Option.bind (optional_field as_i64 j ''input'') (\<lambda>i.
     Option.bind (optional_field as_i64 j ''output'') (\<lambda>out.
     Option.bind (optional_field as_i64 j ''cache_creation_5m'') (\<lambda>c5.
     Option.bind (optional_field as_i64 j ''cache_creation_1h'') (\<lambda>c1.
     Option.bind (optional_field as_i64 j ''cache_read'') (\<lambda>cr.
     Some \<lparr>rt_input = i, rt_output = out, rt_cache_creation_5m = c5, rt_cache_creation_1h = c1,
           rt_cache_read = cr\<rparr>)))))"

definition de_tier :: "json \<Rightarrow> long_context_pricing option" where
  "de_tier j =
     Option.bind (as_object j) (\<lambda>_.
     Option.bind (required_field as_i64 j ''threshold'') (\<lambda>t.
     map_option (\<lambda>r. rates.extend r (long_context_pricing.fields t)) (de_rates j)))"

definition de_rule :: "json \<Rightarrow> pricing_rule option" where
  "de_rule j =
     Option.bind (as_object j) (\<lambda>_.
     Option.bind (required_field as_str j ''model_key'') (\<lambda>k.
     Option.bind (de_rates j) (\<lambda>r.
     map_option (\<lambda>t. rates.extend r (pricing_rule.fields k t))
       (optional_field de_tier j ''long_context''))))"

definition de_snapshot :: "json \<Rightarrow> pricing_snapshot option" where
  "de_snapshot j =
     Option.bind (as_object j) (\<lambda>_.
     Option.bind (required_field as_str j ''version'') (\<lambda>v.
     Option.bind (required_field as_object j ''rules'') (\<lambda>m.
     map_option (\<lambda>rules. \<lparr>ps_version = v, ps_rules = rules\<rparr>) (de_entries de_rule m))))"

definition snapshot_to_json :: "serde_lib \<Rightarrow> pricing_snapshot \<Rightarrow> string + string" where
  "snapshot_to_json S snap = Inr (sj_to_string S (snapshot_to_value snap))"

definition snapshot_from_json :: "serde_lib \<Rightarrow> string \<Rightarrow> string + pricing_snapshot" where
  "snapshot_from_json S text =
     (case Option.bind (sj_from_str S text) de_snapshot of
        None \<Rightarrow> Inl ''invalid cached pricing snapshot''
      | Some snap \<Rightarrow> sum_bind (validate snap) (\<lambda>_. Inr snap))"

section \<open>Remote price lists\<close>

text \<open>\<open>num_text\<close> is \<open>Number::to_string\<close>.\<close>

definition json_rate :: "(jnum \<Rightarrow> string) \<Rightarrow> json option \<Rightarrow> int \<Rightarrow> string + int option" where
  "json_rate num_text v scale =
     (case v of
        None \<Rightarrow> Inr None
      | Some (JNum n) \<Rightarrow> sum_bind (parse_decimal_scaled (num_text n) scale) (\<lambda>x. Inr (Some x))
      | Some (JStr s) \<Rightarrow> sum_bind (parse_decimal_scaled s scale) (\<lambda>x. Inr (Some x))
      | Some _ \<Rightarrow> Inl ''pricing rate must be a JSON number or decimal string'')"

definition or_else :: "'a option \<Rightarrow> 'a option \<Rightarrow> 'a option" where
  "or_else a b = (case a of None \<Rightarrow> b | Some _ \<Rightarrow> a)"

text \<open>One entry of the LiteLLM list: \<open>Inr None\<close> when it is skipped.\<close>

definition litellm_rule ::
  "(jnum \<Rightarrow> string) \<Rightarrow> string \<Rightarrow> json \<Rightarrow> string + pricing_rule option" where
  "litellm_rule num_text model value =
     (case as_object value of
        None \<Rightarrow> Inr None
      | Some entry \<Rightarrow>
          if Option.bind (map_of entry ''litellm_provider'') as_str \<noteq> Some ''anthropic''
             \<or> \<not> prefix ''claude-'' model
          then Inr None
          else
            sum_bind (json_rate num_text (map_of entry ''input_cost_per_token'') 15) (\<lambda>input.
            case input of None \<Rightarrow> Inr None | Some input \<Rightarrow>
            sum_bind (json_rate num_text (map_of entry ''output_cost_per_token'') 15) (\<lambda>output.
            case output of None \<Rightarrow> Inr None | Some output \<Rightarrow>
            sum_bind (json_rate num_text (map_of entry ''cache_creation_input_token_cost'') 15) (\<lambda>c5.
            sum_bind (json_rate num_text (map_of entry ''cache_creation_input_token_cost_above_1hr'') 15) (\<lambda>c1.
            sum_bind (json_rate num_text (map_of entry ''cache_read_input_token_cost'') 15) (\<lambda>cr.
            sum_bind (json_rate num_text (map_of entry ''input_cost_per_token_above_200k_tokens'') 15) (\<lambda>long_input.
            sum_bind (json_rate num_text (map_of entry ''output_cost_per_token_above_200k_tokens'') 15) (\<lambda>long_output.
            sum_bind (json_rate num_text (map_of entry ''cache_creation_input_token_cost_above_200k_tokens'') 15) (\<lambda>long_creation.
            sum_bind (json_rate num_text (map_of entry ''cache_read_input_token_cost_above_200k_tokens'') 15) (\<lambda>long_read.
            let c5 = or_else c5 (multiply_rate input 5 4);
                c1 = or_else c1 (multiply_rate input 2 1);
                cr = or_else cr (multiply_rate input 1 10);
                tier =
                  (if long_input \<noteq> None \<or> long_output \<noteq> None \<or> long_creation \<noteq> None \<or> long_read \<noteq> None
                   then Some \<lparr>rt_input = or_else long_input (Some input),
                              rt_output = or_else long_output (Some output),
                              rt_cache_creation_5m = or_else long_creation c5,
                              rt_cache_creation_1h =
                                or_else (Option.bind long_input (\<lambda>x. multiply_rate x 2 1)) c1,
                              rt_cache_read = or_else long_read cr,
                              lc_threshold = 200000\<rparr>
                   else None)
            in Inr (Some
                 \<lparr>rt_input = Some input, rt_output = Some output, rt_cache_creation_5m = c5,
                  rt_cache_creation_1h = c1, rt_cache_read = cr,
                  pr_model_key = normalize_model_key model, pr_long_context = tier\<rparr>)))))))))))"

fun collect_parsed ::
  "(string \<Rightarrow> json \<Rightarrow> string + pricing_rule option) \<Rightarrow> (string \<times> json) list
     \<Rightarrow> (string, pricing_rule) hash_map \<Rightarrow> string + (string, pricing_rule) hash_map" where
  "collect_parsed parse [] m = Inr m"
| "collect_parsed parse ((k, v) # es) m =
     sum_bind (parse k v) (\<lambda>r.
       collect_parsed parse es (case r of None \<Rightarrow> m | Some r \<Rightarrow> AList.update (pr_model_key r) r m))"

definition parse_litellm_snapshot ::
  "serde_lib \<Rightarrow> (jnum \<Rightarrow> string) \<Rightarrow> string \<Rightarrow> string + (string, pricing_rule) hash_map" where
  "parse_litellm_snapshot S num_text text =
     (case Option.bind (sj_from_str S text) as_object of
        None \<Rightarrow> Inl ''invalid LiteLLM pricing JSON''
      | Some doc \<Rightarrow>
          sum_bind (collect_parsed (litellm_rule num_text) (sort_key fst doc) []) (\<lambda>rules.
            if rules = [] then Inl ''LiteLLM returned no complete Anthropic pricing rules''
            else Inr rules))"

definition models_dev_rule ::
  "(jnum \<Rightarrow> string) \<Rightarrow> string \<Rightarrow> json \<Rightarrow> string + pricing_rule option" where
  "models_dev_rule num_text key model =
     (case Option.bind (jget model ''cost'') as_object of
        None \<Rightarrow> Inr None
      | Some cost \<Rightarrow>
          sum_bind (json_rate num_text (map_of cost ''input'') 9) (\<lambda>input.
          case input of None \<Rightarrow> Inr None | Some input \<Rightarrow>
          sum_bind (json_rate num_text (map_of cost ''output'') 9) (\<lambda>output.
          case output of None \<Rightarrow> Inr None | Some output \<Rightarrow>
          sum_bind (json_rate num_text (map_of cost ''cache_write'') 9) (\<lambda>c5.
          sum_bind (json_rate num_text (map_of cost ''cache_read'') 9) (\<lambda>cr.
          let model_key = normalize_model_key
                (case Option.bind (jget model ''id'') as_str of Some i \<Rightarrow> i | None \<Rightarrow> key)
          in if \<not> prefix ''claude-'' model_key then Inr None
             else Inr (Some
               \<lparr>rt_input = Some input, rt_output = Some output,
                rt_cache_creation_5m = or_else c5 (multiply_rate input 5 4),
                rt_cache_creation_1h = multiply_rate input 2 1,
                rt_cache_read = or_else cr (multiply_rate input 1 10),
                pr_model_key = model_key, pr_long_context = None\<rparr>))))))"

definition parse_models_dev_snapshot ::
  "serde_lib \<Rightarrow> (jnum \<Rightarrow> string) \<Rightarrow> string \<Rightarrow> string + (string, pricing_rule) hash_map" where
  "parse_models_dev_snapshot S num_text text =
     (case sj_from_str S text of
        None \<Rightarrow> Inl ''invalid models.dev pricing JSON''
      | Some doc \<Rightarrow>
          (case Option.bind (Option.bind (jget doc ''anthropic'') (\<lambda>p. jget p ''models'')) as_object of
             None \<Rightarrow> Inl ''models.dev response is missing anthropic.models''
           | Some models \<Rightarrow>
               sum_bind (collect_parsed (models_dev_rule num_text) (sort_key fst models) []) (\<lambda>rules.
                 if rules = [] then Inl ''models.dev returned no complete Anthropic pricing rules''
                 else Inr rules)))"

text \<open>
  \<open>fetch_remote_pricing_snapshot\<close> over the two fetched texts: the first list wins for a key in
  both, and a source that fails is left out.
\<close>

definition remote_pricing_snapshot ::
  "serde_lib \<Rightarrow> (string \<Rightarrow> nat list) \<Rightarrow> (jnum \<Rightarrow> string) \<Rightarrow> string + string \<Rightarrow> string + string
     \<Rightarrow> string + pricing_snapshot" where
  "remote_pricing_snapshot S sha256 num_text litellm models_dev =
     (let (sources, rules) =
            (case sum_bind litellm (parse_litellm_snapshot S num_text) of
               Inr parsed \<Rightarrow> ([''litellm''], parsed)
             | Inl _ \<Rightarrow> ([], []));
          (sources, rules) =
            (case sum_bind models_dev (parse_models_dev_snapshot S num_text) of
               Inr parsed \<Rightarrow> (sources @ [''modelsdev''],
                              fold (\<lambda>(k, r) m. hm_or_insert k r m) (sort_key fst parsed) rules)
             | Inl _ \<Rightarrow> (sources, rules))
      in if rules = []
         then Inl ''all remote pricing sources failed or returned no Anthropic rules''
         else
           let snap = \<lparr>ps_version = ''auto-'' @ join_strings ''-'' sources @ ''-'' @
                         hex_encode (take 8 (sha256 (sj_to_string S (rules_to_value rules)))),
                       ps_rules = rules\<rparr>
           in sum_bind (validate snap) (\<lambda>_. Inr snap))"

end
