(* ===== verification/Performance.thy ===== *)
theory Performance
  imports Account_Model "HOL-Library.Multiset" "HOL-Library.Product_Lexorder"
begin

text \<open>
  Request timing (\<open>src/service/performance.rs\<close>, \<open>src/model/performance.rs\<close>): the shared record of
  one request in progress with the updates the request path makes, the guard that completes it,
  the body wrapper that drives the guard, the list of requests in progress and the writer task.

  A \<open>PerformanceHandle\<close> is an \<open>Arc<Mutex<RequestState>>\<close> shared by the guard, the list of active
  requests and the response parser; it is an address into \<open>pf_cells\<close>, and every update is one
  atomic step. \<open>inst\<close> arguments are monotonic clock readings and \<open>now\<close> arguments wall-clock
  times, both in nanoseconds; random identifiers are arguments. \<open>sent\<close> is the answer of
  \<open>try_send\<close> on the bounded channel: \<open>pf_queue\<close> holds the accepted events in order.
\<close>

section \<open>The data\<close>

datatype performance_outcome =
  PO_Success | PO_LocalError | PO_HttpError | PO_SendError | PO_SendTimeout | PO_ReadTimeout
  | PO_StreamError | PO_Incomplete | PO_Aborted | PO_Unknown

fun outcome_as_str :: "performance_outcome \<Rightarrow> string" where
  "outcome_as_str PO_Success = ''success''"
| "outcome_as_str PO_LocalError = ''local_error''"
| "outcome_as_str PO_HttpError = ''http_error''"
| "outcome_as_str PO_SendError = ''send_error''"
| "outcome_as_str PO_SendTimeout = ''send_timeout''"
| "outcome_as_str PO_ReadTimeout = ''read_timeout''"
| "outcome_as_str PO_StreamError = ''stream_error''"
| "outcome_as_str PO_Incomplete = ''incomplete''"
| "outcome_as_str PO_Aborted = ''aborted''"
| "outcome_as_str PO_Unknown = ''unknown''"

record performance_event =
  pv_request_id :: string
  pv_instance_id :: string
  pv_started_at_utc :: int
  pv_completed_at_utc :: "int option"
  pv_account_id :: "int option"
  pv_api_token_id :: "int option"
  pv_request_model :: "string option"
  pv_response_model :: "string option"
  pv_upstream_request_id :: "string option"
  pv_is_stream :: bool
  pv_upstream_status :: "nat option"
  pv_downstream_status :: "nat option"
  pv_outcome :: "performance_outcome option"
  pv_observation_quality :: string
  pv_stop_reason :: "string option"
  pv_phase :: string
  pv_stages_ms :: "(string, int) hash_map"
  pv_first_byte_ms :: "int option"
  pv_first_content_ms :: "int option"
  pv_first_text_ms :: "int option"
  pv_model_completed_ms :: "int option"
  pv_duration_ms :: "int option"
  pv_age_ms :: int
  pv_content_idle_ms :: int
  pv_max_content_gap_ms :: "int option"
  pv_output_tokens :: "int option"
  pv_output_tokens_per_second :: "f64 option"

record request_state =
  rq_start :: int
  rq_event :: performance_event
  rq_last_content :: "int option"
  rq_batch :: nat
  rq_last_content_batch :: "nat option"
  rq_content_batches :: nat
  rq_finished :: bool

text \<open>\<open>Instant::elapsed\<close> never goes below zero.\<close>

definition elapsed :: "int \<Rightarrow> int \<Rightarrow> int" where
  "elapsed inst start = max 0 (inst - start)"

definition millis :: "int \<Rightarrow> int" where
  "millis d = (case i64_checked (d div 10 ^ 6) of Some m \<Rightarrow> m | None \<Rightarrow> 2 ^ 63 - 1)"

definition i64_saturating_sub :: "int \<Rightarrow> int \<Rightarrow> int" where
  "i64_saturating_sub a b = max (- (2 ^ 63)) (min (2 ^ 63 - 1) (a - b))"

definition get_or_insert :: "int \<Rightarrow> int option \<Rightarrow> int option" where
  "get_or_insert v slot = (case slot of None \<Rightarrow> Some v | Some x \<Rightarrow> Some x)"

definition safe_label_char :: "char \<Rightarrow> bool" where
  "safe_label_char b \<longleftrightarrow> is_ascii_alphanumeric b \<or> b \<in> set ''-_.:/[]''"

definition safe_label :: "string \<Rightarrow> string" where
  "safe_label v = (if v \<noteq> [] \<and> length v \<le> 128 \<and> list_all safe_label_char v then v else ''other'')"

text \<open>\<open>div_euclid\<close> by a positive divisor, then the truncating cast \<open>as i32\<close>.\<close>

definition i32_wrap :: "int \<Rightarrow> int" where
  "i32_wrap x = (x + 2 ^ 31) mod 2 ^ 32 - 2 ^ 31"

definition sg_day :: "int \<Rightarrow> int" where
  "sg_day ms = i32_wrap ((ms + 28800000) div 86400000)"

definition timestamp_millis :: "int \<Rightarrow> int" where
  "timestamp_millis t = t div 10 ^ 6"

definition retention_day :: "int \<Rightarrow> int" where
  "retention_day now = sg_day (timestamp_millis now) - 29"

section \<open>Updates of one request\<close>

text \<open>A finished request ignores every update.\<close>

definition handle_update ::
  "(request_state \<Rightarrow> int \<Rightarrow> request_state) \<Rightarrow> int \<Rightarrow> request_state \<Rightarrow> request_state" where
  "handle_update f inst s =
     (if rq_finished s then s else f s (millis (elapsed inst (rq_start s))))"

definition on_event ::
  "(performance_event \<Rightarrow> performance_event) \<Rightarrow> request_state \<Rightarrow> request_state" where
  "on_event g s = s\<lparr>rq_event := g (rq_event s)\<rparr>"

definition handle_stage :: "string \<Rightarrow> int \<Rightarrow> int \<Rightarrow> request_state \<Rightarrow> request_state" where
  "handle_stage name duration = handle_update (\<lambda>s _.
     on_event (\<lambda>e. e\<lparr>pv_stages_ms := AList.update name (millis duration) (pv_stages_ms e)\<rparr>) s)"

definition handle_phase :: "string \<Rightarrow> int \<Rightarrow> request_state \<Rightarrow> request_state" where
  "handle_phase phase = handle_update (\<lambda>s _. on_event (\<lambda>e. e\<lparr>pv_phase := phase\<rparr>) s)"

definition handle_token :: "int \<Rightarrow> int \<Rightarrow> request_state \<Rightarrow> request_state" where
  "handle_token i = handle_update (\<lambda>s _. on_event (\<lambda>e. e\<lparr>pv_api_token_id := Some i\<rparr>) s)"

definition handle_account :: "int \<Rightarrow> int \<Rightarrow> request_state \<Rightarrow> request_state" where
  "handle_account i = handle_update (\<lambda>s _. on_event (\<lambda>e. e\<lparr>pv_account_id := Some i\<rparr>) s)"

definition handle_request :: "string option \<Rightarrow> bool \<Rightarrow> int \<Rightarrow> request_state \<Rightarrow> request_state" where
  "handle_request model streaming = handle_update (\<lambda>s _.
     on_event (\<lambda>e. e\<lparr>pv_request_model := map_option safe_label model, pv_is_stream := streaming\<rparr>) s)"

definition handle_upstream ::
  "nat \<Rightarrow> string option \<Rightarrow> bool \<Rightarrow> int \<Rightarrow> request_state \<Rightarrow> request_state" where
  "handle_upstream status request_id streaming = handle_update (\<lambda>s _.
     on_event (\<lambda>e. e\<lparr>pv_upstream_status := Some status,
       pv_upstream_request_id := map_option safe_label request_id, pv_is_stream := streaming,
       pv_phase := ''waiting_content''\<rparr>) s)"

definition handle_failure :: "performance_outcome \<Rightarrow> int \<Rightarrow> request_state \<Rightarrow> request_state" where
  "handle_failure oc = handle_update (\<lambda>s _.
     if pv_outcome (rq_event s) = None then on_event (\<lambda>e. e\<lparr>pv_outcome := Some oc\<rparr>) s else s)"

definition handle_parse_failed :: "int \<Rightarrow> request_state \<Rightarrow> request_state" where
  "handle_parse_failed = handle_update (\<lambda>s _.
     on_event (\<lambda>e. e\<lparr>pv_observation_quality := ''parse_failed''\<rparr>) s)"

definition handle_bytes :: "string \<Rightarrow> int \<Rightarrow> request_state \<Rightarrow> request_state" where
  "handle_bytes bytes inst s =
     (if bytes = [] then s
      else handle_update (\<lambda>s ms.
        (on_event (\<lambda>e. e\<lparr>pv_first_byte_ms := get_or_insert ms (pv_first_byte_ms e)\<rparr>) s)
          \<lparr>rq_batch := rq_batch s + 1\<rparr>) inst s)"

definition handle_snapshot :: "int \<Rightarrow> request_state \<Rightarrow> performance_event" where
  "handle_snapshot inst s =
     (let e = rq_event s;
          age = (case pv_duration_ms e of Some d \<Rightarrow> d
                 | None \<Rightarrow> millis (elapsed inst (rq_start s)));
          end_ms = (case pv_model_completed_ms e of Some m \<Rightarrow> m | None \<Rightarrow> age);
          e = e\<lparr>pv_age_ms := age,
                pv_content_idle_ms := i64_saturating_sub end_ms
                  (case rq_last_content s of Some l \<Rightarrow> l | None \<Rightarrow> 0)\<rparr>
      in case rq_last_content s of
           None \<Rightarrow> e
         | Some l \<Rightarrow> e\<lparr>pv_max_content_gap_ms :=
             Some (max (case pv_max_content_gap_ms e of Some g \<Rightarrow> g | None \<Rightarrow> 0)
                       (i64_saturating_sub end_ms l))\<rparr>)"

definition nonempty_str :: "json option \<Rightarrow> bool" where
  "nonempty_str v \<longleftrightarrow> (case Option.bind v as_str of Some s \<Rightarrow> s \<noteq> [] | None \<Rightarrow> False)"

text \<open>\<open>ms - last\<close> is on \<open>i64\<close> values between zero and the largest one and does not overflow.\<close>

definition record_content :: "int \<Rightarrow> string \<Rightarrow> request_state \<Rightarrow> request_state" where
  "record_content ms phase s =
     (let s = (case rq_last_content s of
                 None \<Rightarrow> s
               | Some l \<Rightarrow> on_event (\<lambda>e. e\<lparr>pv_max_content_gap_ms :=
                   Some (max (case pv_max_content_gap_ms e of Some g \<Rightarrow> g | None \<Rightarrow> 0) (ms - l))\<rparr>) s);
          s = s\<lparr>rq_last_content := Some ms\<rparr>;
          s = on_event (\<lambda>e. e\<lparr>pv_first_content_ms := get_or_insert ms (pv_first_content_ms e)\<rparr>) s;
          s = (if phase = ''text''
               then on_event (\<lambda>e. e\<lparr>pv_first_text_ms := get_or_insert ms (pv_first_text_ms e)\<rparr>) s
               else s);
          s = on_event (\<lambda>e. e\<lparr>pv_phase := phase\<rparr>) s
      in if rq_last_content_batch s \<noteq> Some (rq_batch s)
         then s\<lparr>rq_content_batches := rq_content_batches s + 1,
                rq_last_content_batch := Some (rq_batch s)\<rparr>
         else s)"

definition str_or_empty :: "json option \<Rightarrow> string" where
  "str_or_empty v = (case Option.bind v as_str of Some s \<Rightarrow> s | None \<Rightarrow> [])"

text \<open>The phase a content block stands for, and whether its kind is an unknown one.\<close>

definition content_phase :: "json \<Rightarrow> string option \<times> bool" where
  "content_phase content =
     (let ct = str_or_empty (jget content ''type'') in
      if ct \<in> {''text'', ''text_delta''} \<and> nonempty_str (jget content ''text'') then (Some ''text'', False)
      else if ct \<in> {''thinking'', ''thinking_delta''} \<and> nonempty_str (jget content ''thinking'')
      then (Some ''thinking'', False)
      else if ct = ''input_json_delta'' \<and> nonempty_str (jget content ''partial_json'')
      then (Some ''tool'', False)
      else if ct = ''tool_use'' \<and>
              (case Option.bind (jget content ''input'') as_object of Some ob \<Rightarrow> ob \<noteq> [] | None \<Rightarrow> False)
      then (Some ''tool'', False)
      else if ct \<in> {''text'', ''text_delta'', ''thinking'', ''thinking_delta'', ''input_json_delta'',
                   ''tool_use'', ''signature_delta''}
      then (None, False)
      else (None, True))"

definition observe_content :: "int \<Rightarrow> json \<Rightarrow> request_state \<Rightarrow> request_state" where
  "observe_content ms content s =
     (let (phase, unknown) = content_phase content;
          s = (if unknown then on_event (\<lambda>e. e\<lparr>pv_observation_quality := ''partial''\<rparr>) s else s)
      in case phase of None \<Rightarrow> s | Some p \<Rightarrow> record_content ms p s)"

definition model_completed :: "int \<Rightarrow> request_state \<Rightarrow> request_state" where
  "model_completed ms = on_event (\<lambda>e. e\<lparr>pv_model_completed_ms := Some ms, pv_phase := ''finishing''\<rparr>)"

definition is_array :: "json \<Rightarrow> bool" where
  "is_array v \<longleftrightarrow> as_array v \<noteq> None"

text \<open>What one document says of the request: its model, output tokens and stop reason.\<close>

definition observe_model :: "json \<Rightarrow> request_state \<Rightarrow> request_state" where
  "observe_model message s =
     (case Option.bind (jget message ''model'') as_str of
        Some model \<Rightarrow> on_event (\<lambda>e. e\<lparr>pv_response_model := Some (safe_label model)\<rparr>) s
      | None \<Rightarrow> s)"

definition observe_tokens :: "json \<Rightarrow> request_state \<Rightarrow> request_state" where
  "observe_tokens message s =
     (case Option.bind (Option.bind (jget message ''usage'') (\<lambda>u. jget u ''output_tokens'')) as_i64 of
        Some n \<Rightarrow> if n \<ge> 0 then on_event (\<lambda>e. e\<lparr>pv_output_tokens := Some n\<rparr>) s else s
      | None \<Rightarrow> s)"

definition observe_stop_reason :: "json \<Rightarrow> json \<Rightarrow> request_state \<Rightarrow> request_state" where
  "observe_stop_reason v message s =
     (let reason = (case jget message ''stop_reason'' of
                      Some r \<Rightarrow> Some r
                    | None \<Rightarrow> Option.bind (jget v ''delta'') (\<lambda>d. jget d ''stop_reason''))
      in case Option.bind reason as_str of
           Some r \<Rightarrow> on_event (\<lambda>e. e\<lparr>pv_stop_reason := Some (safe_label r)\<rparr>) s
         | None \<Rightarrow> s)"

definition observe_stream :: "string \<Rightarrow> json \<Rightarrow> int \<Rightarrow> request_state \<Rightarrow> request_state" where
  "observe_stream kind v ms s =
     (let content = (if kind = ''content_block_delta'' then jget v ''delta''
                     else if kind = ''content_block_start'' then jget v ''content_block''
                     else None);
          s = (case content of None \<Rightarrow> s | Some c \<Rightarrow> observe_content ms c s)
      in if kind = ''message_stop'' then model_completed ms s else s)"

definition observe_json_state :: "json \<Rightarrow> bool \<Rightarrow> request_state \<Rightarrow> int \<Rightarrow> request_state" where
  "observe_json_state v streaming s ms =
     (let kind = str_or_empty (jget v ''type'');
          message = (if kind = ''message_start''
                     then (case jget v ''message'' of Some m \<Rightarrow> m | None \<Rightarrow> v) else v);
          s = observe_model message s;
          s = observe_tokens message s;
          s = observe_stop_reason v message s;
          s = (if kind = ''error'' then on_event (\<lambda>e. e\<lparr>pv_outcome := Some PO_StreamError\<rparr>) s else s)
      in if streaming then observe_stream kind v ms s
         else if kind = ''message'' \<and> (case jget v ''content'' of Some c \<Rightarrow> is_array c | None \<Rightarrow> False)
         then model_completed ms s
         else s)"

definition handle_observe_json :: "json \<Rightarrow> bool \<Rightarrow> int \<Rightarrow> request_state \<Rightarrow> request_state" where
  "handle_observe_json v streaming = handle_update (observe_json_state v streaming)"

section \<open>The service\<close>

record perf_counters =
  pc_persisted :: nat
  pc_dropped :: nat
  pc_write_failed :: nat
  pc_active_dropped :: nat
  pc_parse_failed :: nat
  pc_expired :: nat

definition perf_counters_default :: perf_counters where
  "perf_counters_default = \<lparr>pc_persisted = 0, pc_dropped = 0, pc_write_failed = 0,
     pc_active_dropped = 0, pc_parse_failed = 0, pc_expired = 0\<rparr>"

record performance_service =
  pf_enabled :: bool
  pf_instance_id :: string
  pf_since :: int
  pf_active :: "(string, nat) hash_map"
  pf_queue :: "performance_event list"
  pf_counters :: perf_counters
  pf_cells :: "request_state list"

record performance_guard =
  pg_handle :: nat
  pg_finished :: bool

definition ACTIVE_LIMIT :: nat where "ACTIVE_LIMIT = 10000"

definition performance_start :: "bool \<Rightarrow> string \<Rightarrow> int \<Rightarrow> performance_service" where
  "performance_start enabled uuid now =
     \<lparr>pf_enabled = enabled, pf_instance_id = uuid, pf_since = now, pf_active = [], pf_queue = [],
      pf_counters = perf_counters_default, pf_cells = []\<rparr>"

definition on_cell ::
  "nat \<Rightarrow> (request_state \<Rightarrow> request_state) \<Rightarrow> performance_service \<Rightarrow> performance_service" where
  "on_cell h f svc = svc\<lparr>pf_cells := (pf_cells svc)[h := f (pf_cells svc ! h)]\<rparr>"

definition on_counters ::
  "(perf_counters \<Rightarrow> perf_counters) \<Rightarrow> performance_service \<Rightarrow> performance_service" where
  "on_counters f svc = svc\<lparr>pf_counters := f (pf_counters svc)\<rparr>"

definition new_event :: "string \<Rightarrow> string \<Rightarrow> int \<Rightarrow> performance_event" where
  "new_event uuid instance_id now =
     \<lparr>pv_request_id = uuid, pv_instance_id = instance_id, pv_started_at_utc = now,
      pv_completed_at_utc = None, pv_account_id = None, pv_api_token_id = None,
      pv_request_model = None, pv_response_model = None, pv_upstream_request_id = None,
      pv_is_stream = False, pv_upstream_status = None, pv_downstream_status = None,
      pv_outcome = None, pv_observation_quality = ''observed'', pv_stop_reason = None,
      pv_phase = ''preparing'', pv_stages_ms = [], pv_first_byte_ms = None,
      pv_first_content_ms = None, pv_first_text_ms = None, pv_model_completed_ms = None,
      pv_duration_ms = None, pv_age_ms = 0, pv_content_idle_ms = 0, pv_max_content_gap_ms = None,
      pv_output_tokens = None, pv_output_tokens_per_second = None\<rparr>"

definition new_request :: "string \<Rightarrow> string \<Rightarrow> int \<Rightarrow> int \<Rightarrow> request_state" where
  "new_request uuid instance_id now inst =
     \<lparr>rq_start = inst, rq_event = new_event uuid instance_id now, rq_last_content = None,
      rq_batch = 0, rq_last_content_batch = None, rq_content_batches = 0, rq_finished = False\<rparr>"

definition performance_begin ::
  "string \<Rightarrow> int \<Rightarrow> int \<Rightarrow> performance_service \<Rightarrow> performance_guard option \<times> performance_service" where
  "performance_begin uuid now inst svc =
     (if \<not> pf_enabled svc then (None, svc)
      else
        let h = length (pf_cells svc);
            svc = svc\<lparr>pf_cells := pf_cells svc @ [new_request uuid (pf_instance_id svc) now inst]\<rparr>;
            svc = (if length (pf_active svc) < ACTIVE_LIMIT
                   then svc\<lparr>pf_active := AList.update uuid h (pf_active svc)\<rparr>
                   else on_counters (\<lambda>c. c\<lparr>pc_active_dropped := pc_active_dropped c + 1\<rparr>) svc)
        in (Some \<lparr>pg_handle = h, pg_finished = False\<rparr>, svc))"

record performance_filter =
  fl_start_ms :: int
  fl_end_ms :: int
  fl_account_id :: "int option"
  fl_api_token_id :: "int option"
  fl_model :: "string option"
  fl_instance_id :: "string option"
  fl_outcome :: "performance_outcome option"
  fl_is_stream :: "bool option"
  fl_min_duration_ms :: "int option"
  fl_duration_desc :: bool
  fl_page :: int
  fl_page_size :: int

record 'a performance_page =
  pp_items :: "'a list"
  pp_total :: int
  pp_page :: int
  pp_page_size :: int

text \<open>
  \<open>as usize\<close> reads a negative number as one beyond every list, so that nothing is left after
  \<open>skip\<close> and nothing is cut by \<open>take\<close>.
\<close>

definition is_none_or :: "'a option \<Rightarrow> ('a \<Rightarrow> bool) \<Rightarrow> bool" where
  "is_none_or v p = (case v of None \<Rightarrow> True | Some x \<Rightarrow> p x)"

definition active_matches :: "performance_filter \<Rightarrow> performance_event \<Rightarrow> bool" where
  "active_matches f e \<longleftrightarrow>
     is_none_or (fl_account_id f) (\<lambda>i. pv_account_id e = Some i)
     \<and> is_none_or (fl_api_token_id f) (\<lambda>i. pv_api_token_id e = Some i)
     \<and> is_none_or (fl_model f) (\<lambda>m. pv_request_model e = Some m)
     \<and> is_none_or (fl_instance_id f) (\<lambda>i. pv_instance_id e = i)
     \<and> is_none_or (fl_is_stream f) (\<lambda>v. pv_is_stream e = v)"

definition uszskip :: "int \<Rightarrow> 'a list \<Rightarrow> 'a list" where
  "uszskip n xs = (if n < 0 then [] else drop (nat n) xs)"

definition usztake :: "int \<Rightarrow> 'a list \<Rightarrow> 'a list" where
  "usztake n xs = (if n < 0 then xs else take (nat n) xs)"

definition active_page ::
  "int \<Rightarrow> performance_filter \<Rightarrow> performance_service \<Rightarrow> performance_event performance_page" where
  "active_page inst f svc =
     (let items = filter (active_matches f)
            (map (\<lambda>(_, h). handle_snapshot inst (pf_cells svc ! h)) (pf_active svc));
          items = sort_key (\<lambda>e. (- pv_age_ms e, pv_request_id e)) items
      in \<lparr>pp_items = usztake (fl_page_size f)
             (uszskip (i64_wrap (i64_wrap (fl_page f - 1) * fl_page_size f)) items),
          pp_total = int (length items), pp_page = fl_page f, pp_page_size = fl_page_size f\<rparr>)"

section \<open>Completion\<close>

definition final_outcome :: "bool \<Rightarrow> performance_event \<Rightarrow> performance_outcome" where
  "final_outcome aborted e =
     (case pv_outcome e of
        Some oc \<Rightarrow> oc
      | None \<Rightarrow>
          if aborted then PO_Aborted
          else if pv_observation_quality e = ''parse_failed'' then PO_Unknown
          else if pv_model_completed_ms e \<noteq> None then PO_Success
          else if pv_is_stream e then PO_Incomplete
          else PO_Unknown)"

definition output_speed :: "performance_outcome \<Rightarrow> nat \<Rightarrow> performance_event \<Rightarrow> f64 option" where
  "output_speed oc content_batches e =
     (if oc = PO_Success \<and> pv_observation_quality e = ''observed'' \<and> pv_is_stream e \<and> content_batches > 1
      then (case (pv_output_tokens e, pv_first_content_ms e, pv_model_completed_ms e) of
              (Some tokens, Some first, Some end_ms) \<Rightarrow>
                if end_ms > first
                then Some (f64_div (f64_mul (f64_of_int tokens) (F64_Fin 1000)) (f64_of_int (end_ms - first)))
                else pv_output_tokens_per_second e
            | _ \<Rightarrow> pv_output_tokens_per_second e)
      else pv_output_tokens_per_second e)"

definition finished_event :: "bool \<Rightarrow> int \<Rightarrow> int \<Rightarrow> request_state \<Rightarrow> performance_event" where
  "finished_event aborted now inst s =
     (let e = handle_snapshot inst s;
          e = e\<lparr>pv_duration_ms := Some (pv_age_ms e), pv_completed_at_utc := Some now\<rparr>;
          oc = final_outcome aborted e;
          e = e\<lparr>pv_outcome := Some oc\<rparr>
      in e\<lparr>pv_output_tokens_per_second := output_speed oc (rq_content_batches s) e\<rparr>)"

definition guard_finish ::
  "bool \<Rightarrow> int \<Rightarrow> int \<Rightarrow> bool \<Rightarrow> performance_guard \<Rightarrow> performance_service
     \<Rightarrow> performance_guard \<times> performance_service" where
  "guard_finish aborted now inst sent g svc =
     (if pg_finished g then (g, svc)
      else
        let e = finished_event aborted now inst (pf_cells svc ! pg_handle g);
            svc = on_cell (pg_handle g) (\<lambda>s. s\<lparr>rq_finished := True, rq_event := e\<rparr>) svc;
            svc = svc\<lparr>pf_active := AList.delete (pv_request_id e) (pf_active svc)\<rparr>;
            svc = (if pv_observation_quality e = ''parse_failed''
                   then on_counters (\<lambda>c. c\<lparr>pc_parse_failed := pc_parse_failed c + 1\<rparr>) svc else svc);
            svc = (if sg_day (timestamp_millis (pv_started_at_utc e)) < retention_day now
                   then on_counters (\<lambda>c. c\<lparr>pc_expired := pc_expired c + 1\<rparr>) svc
                   else if sent then svc\<lparr>pf_queue := pf_queue svc @ [e]\<rparr>
                   else on_counters (\<lambda>c. c\<lparr>pc_dropped := pc_dropped c + 1\<rparr>) svc)
        in (g\<lparr>pg_finished := True\<rparr>, svc))"

text \<open>Dropping a guard.\<close>

definition guard_drop ::
  "int \<Rightarrow> int \<Rightarrow> bool \<Rightarrow> performance_guard \<Rightarrow> performance_service \<Rightarrow> performance_service" where
  "guard_drop now inst sent g svc = snd (guard_finish True now inst sent g svc)"

text \<open>
  \<open>response\<close>: a body that has already ended completes the request at once, any other is wrapped
  with the guard inside (\<open>PerformanceBody\<close>); the result is the guard the body then holds.
\<close>

definition note_response :: "nat \<Rightarrow> int \<Rightarrow> request_state \<Rightarrow> request_state" where
  "note_response status = handle_update (\<lambda>s _.
     on_event (\<lambda>e.
       let e = e\<lparr>pv_downstream_status := Some status\<rparr>
       in if \<not> (200 \<le> status \<and> status < 300) \<and> pv_outcome e = None
          then e\<lparr>pv_outcome := Some (if pv_upstream_status e \<noteq> None then PO_HttpError else PO_LocalError)\<rparr>
          else e) s)"

definition guard_response ::
  "nat \<Rightarrow> bool \<Rightarrow> int \<Rightarrow> int \<Rightarrow> bool \<Rightarrow> performance_guard \<Rightarrow> performance_service
     \<Rightarrow> performance_guard option \<times> performance_service" where
  "guard_response status body_ended now inst sent g svc =
     (let svc = on_cell (pg_handle g) (note_response status inst) svc
      in if body_ended
         then (let (g, svc) = guard_finish False now inst sent g svc
               in (None, guard_drop now inst sent g svc))
         else (Some g, svc))"

datatype frame_poll = FramePending | FrameData bool | FrameError | FrameEnd

text \<open>\<open>FrameData b\<close>: a frame arrived and \<open>is_end_stream\<close> of the inner body is now \<open>b\<close>. The guard is
  dropped right after \<open>finish\<close>, which does nothing more.\<close>

definition body_poll ::
  "frame_poll \<Rightarrow> int \<Rightarrow> int \<Rightarrow> bool \<Rightarrow> performance_guard option \<Rightarrow> performance_service
     \<Rightarrow> performance_guard option \<times> performance_service" where
  "body_poll poll now inst sent held svc =
     (case held of
        None \<Rightarrow> (None, svc)
      | Some g \<Rightarrow>
          (case poll of
             FramePending \<Rightarrow> (Some g, svc)
           | FrameData ended \<Rightarrow>
               if ended then (None, snd (guard_finish False now inst sent g svc)) else (Some g, svc)
           | FrameError \<Rightarrow>
               (None, snd (guard_finish False now inst sent g
                  (on_cell (pg_handle g) (handle_failure PO_StreamError inst) svc)))
           | FrameEnd \<Rightarrow> (None, snd (guard_finish False now inst sent g svc))))"

text \<open>
  The writer with one batch taken from the queue: \<open>attempts\<close> are the answers of the three
  \<open>insert_batch\<close> calls, the rows inserted or a failure.
\<close>

fun write_attempts :: "nat \<Rightarrow> nat \<Rightarrow> nat option list \<Rightarrow> perf_counters \<Rightarrow> perf_counters" where
  "write_attempts 0 sz as c = c"
| "write_attempts (Suc n) sz as c =
     (case as of
        Some k # _ \<Rightarrow> c\<lparr>pc_persisted := pc_persisted c + k\<rparr>
      | _ \<Rightarrow> if n > 0 then write_attempts n sz (tl as) c
             else c\<lparr>pc_write_failed := pc_write_failed c + sz, pc_dropped := pc_dropped c + sz\<rparr>)"

definition perf_writer_batch ::
  "int \<Rightarrow> nat option list \<Rightarrow> nat \<Rightarrow> performance_service \<Rightarrow> performance_service" where
  "perf_writer_batch now attempts n svc =
     (let batch = take n (pf_queue svc);
          kept = filter (\<lambda>e. sg_day (timestamp_millis (pv_started_at_utc e)) \<ge> retention_day now) batch;
          svc = svc\<lparr>pf_queue := drop n (pf_queue svc)\<rparr>;
          svc = on_counters (\<lambda>c. c\<lparr>pc_expired := pc_expired c + (length batch - length kept)\<rparr>) svc
      in if kept = [] then svc
         else on_counters (write_attempts 3 (length kept) attempts) svc)"

section \<open>Runs\<close>

text \<open>The updates of one request, as the request path makes them.\<close>

datatype perf_op =
    Op_Stage string int
  | Op_Phase string
  | Op_Token int
  | Op_Account int
  | Op_Request "string option" bool
  | Op_Upstream nat "string option" bool
  | Op_Failure performance_outcome
  | Op_ParseFailed
  | Op_Bytes string
  | Op_Observe json bool
  | Op_Response nat

primrec perf_exec :: "perf_op \<Rightarrow> int \<Rightarrow> request_state \<Rightarrow> request_state" where
  "perf_exec (Op_Stage name d) = handle_stage name d"
| "perf_exec (Op_Phase p) = handle_phase p"
| "perf_exec (Op_Token i) = handle_token i"
| "perf_exec (Op_Account i) = handle_account i"
| "perf_exec (Op_Request m b) = handle_request m b"
| "perf_exec (Op_Upstream st i b) = handle_upstream st i b"
| "perf_exec (Op_Failure oc) = handle_failure oc"
| "perf_exec Op_ParseFailed = handle_parse_failed"
| "perf_exec (Op_Bytes bs) = handle_bytes bs"
| "perf_exec (Op_Observe v b) = handle_observe_json v b"
| "perf_exec (Op_Response st) = note_response st"

definition perf_run :: "(int \<times> perf_op) list \<Rightarrow> request_state \<Rightarrow> request_state" where
  "perf_run ops s = fold (\<lambda>(t, op). perf_exec op t) ops s"

text \<open>What the times of a request satisfy when the clock reads \<open>T\<close> milliseconds after its start.\<close>

definition in_time :: "int \<Rightarrow> int option \<Rightarrow> bool" where
  "in_time T v \<longleftrightarrow> (case v of None \<Rightarrow> True | Some x \<Rightarrow> 0 \<le> x \<and> x \<le> T)"

definition content_times :: "int \<Rightarrow> int option \<Rightarrow> int option \<Rightarrow> int option \<Rightarrow> bool" where
  "content_times T last_content first_content first_text \<longleftrightarrow>
     (case first_content of
        None \<Rightarrow> last_content = None \<and> first_text = None
      | Some a \<Rightarrow> (\<exists>l. last_content = Some l \<and> 0 \<le> a \<and> a \<le> l \<and> l \<le> T) \<and>
          (\<forall>x. first_text = Some x \<longrightarrow> a \<le> x \<and> x \<le> T))"

definition timeline :: "int \<Rightarrow> int option \<Rightarrow> performance_event \<Rightarrow> bool" where
  "timeline T last_content e \<longleftrightarrow>
     in_time T (pv_first_byte_ms e) \<and> in_time T (pv_model_completed_ms e) \<and>
     in_time T (pv_max_content_gap_ms e) \<and>
     content_times T last_content (pv_first_content_ms e) (pv_first_text_ms e)"

lemmas perf_handles = handle_stage_def handle_phase_def handle_token_def handle_account_def
  handle_request_def handle_upstream_def handle_failure_def handle_parse_failed_def
  handle_bytes_def handle_observe_json_def note_response_def

lemma on_event_sel [simp]:
  "rq_start (on_event g s) = rq_start s" "rq_finished (on_event g s) = rq_finished s"
  "rq_last_content (on_event g s) = rq_last_content s" "rq_event (on_event g s) = g (rq_event s)"
  "rq_batch (on_event g s) = rq_batch s" "rq_last_content_batch (on_event g s) = rq_last_content_batch s"
  "rq_content_batches (on_event g s) = rq_content_batches s"
  by (simp_all add: on_event_def)

text \<open>The identity of a request, which no update changes.\<close>

definition identity_of :: "request_state \<Rightarrow> int \<times> bool \<times> string \<times> string \<times> int \<times> int option" where
  "identity_of s = (rq_start s, rq_finished s, pv_request_id (rq_event s), pv_instance_id (rq_event s),
     pv_started_at_utc (rq_event s), pv_duration_ms (rq_event s))"

lemma record_content_identity [simp]: "identity_of (record_content ms p s) = identity_of s"
  by (simp add: record_content_def identity_of_def Let_def split: option.splits)

lemma on_event_identity:
  "(\<And>e. pv_request_id (g e) = pv_request_id e \<and> pv_instance_id (g e) = pv_instance_id e \<and>
      pv_started_at_utc (g e) = pv_started_at_utc e \<and> pv_duration_ms (g e) = pv_duration_ms e) \<Longrightarrow>
   identity_of (on_event g s) = identity_of s"
  by (simp add: identity_of_def)

lemma observe_identity [simp]:
  "identity_of (observe_model m s) = identity_of s"
  "identity_of (observe_tokens m s) = identity_of s"
  "identity_of (observe_stop_reason v m s) = identity_of s"
  "identity_of (observe_content ms c s) = identity_of s"
  "identity_of (model_completed ms s) = identity_of s"
  by (simp_all add: observe_model_def observe_tokens_def observe_stop_reason_def observe_content_def
      model_completed_def Let_def on_event_identity split: option.split prod.split)

lemma observe_json_identity [simp]: "identity_of (observe_json_state v b s ms) = identity_of s"
  by (simp add: observe_json_state_def observe_stream_def Let_def on_event_identity split: option.split)

lemma perf_exec_identity [simp]: "identity_of (perf_exec op t s) = identity_of s"
  by (cases op)
     (simp_all add: perf_handles handle_update_def on_event_identity Let_def, simp add: identity_of_def)

lemma identity_of_sel:
  assumes "identity_of s' = identity_of s"
  shows "rq_start s' = rq_start s" "rq_finished s' = rq_finished s"
    "pv_request_id (rq_event s') = pv_request_id (rq_event s)"
    "pv_started_at_utc (rq_event s') = pv_started_at_utc (rq_event s)"
    "pv_duration_ms (rq_event s') = pv_duration_ms (rq_event s)"
  using assms by (simp_all add: identity_of_def)

lemma perf_run_identity: "identity_of (perf_run ops s) = identity_of s"
  unfolding perf_run_def by (induction ops arbitrary: s) auto

subsection \<open>Times of a request\<close>

lemma in_time_mono: "in_time T v \<Longrightarrow> T \<le> T' \<Longrightarrow> in_time T' v"
  by (auto simp: in_time_def split: option.splits)

lemma timeline_mono: "timeline T l e \<Longrightarrow> T \<le> T' \<Longrightarrow> timeline T' l e"
  unfolding timeline_def content_times_def by (auto intro: in_time_mono split: option.splits)

lemma timeline_simps [simp]:
  "timeline T l (e\<lparr>pv_phase := p\<rparr>) = timeline T l e"
  "timeline T l (e\<lparr>pv_outcome := oc\<rparr>) = timeline T l e"
  "timeline T l (e\<lparr>pv_observation_quality := q\<rparr>) = timeline T l e"
  "timeline T l (e\<lparr>pv_stop_reason := r\<rparr>) = timeline T l e"
  "timeline T l (e\<lparr>pv_response_model := r\<rparr>) = timeline T l e"
  "timeline T l (e\<lparr>pv_output_tokens := n\<rparr>) = timeline T l e"
  "timeline T l (e\<lparr>pv_stages_ms := m\<rparr>) = timeline T l e"
  "timeline T l (e\<lparr>pv_api_token_id := i\<rparr>) = timeline T l e"
  "timeline T l (e\<lparr>pv_account_id := i\<rparr>) = timeline T l e"
  "timeline T l (e\<lparr>pv_request_model := r\<rparr>) = timeline T l e"
  "timeline T l (e\<lparr>pv_is_stream := b\<rparr>) = timeline T l e"
  "timeline T l (e\<lparr>pv_upstream_status := n2\<rparr>) = timeline T l e"
  "timeline T l (e\<lparr>pv_upstream_request_id := r\<rparr>) = timeline T l e"
  "timeline T l (e\<lparr>pv_downstream_status := n2\<rparr>) = timeline T l e"
  "timeline T l (e\<lparr>pv_age_ms := a\<rparr>) = timeline T l e"
  "timeline T l (e\<lparr>pv_content_idle_ms := a\<rparr>) = timeline T l e"
  "timeline T l (e\<lparr>pv_duration_ms := d\<rparr>) = timeline T l e"
  "timeline T l (e\<lparr>pv_completed_at_utc := d\<rparr>) = timeline T l e"
  "timeline T l (e\<lparr>pv_output_tokens_per_second := sp\<rparr>) = timeline T l e"
  by (simp_all add: timeline_def)

abbreviation timed :: "int \<Rightarrow> request_state \<Rightarrow> bool" where
  "timed T s \<equiv> timeline T (rq_last_content s) (rq_event s)"

lemma record_content_timed:
  assumes "timed T s" "0 \<le> T" shows "timed T (record_content T p s)"
proof (cases "rq_last_content s")
  case None
  then have "pv_first_content_ms (rq_event s) = None"
    using assms(1) by (auto simp: timeline_def content_times_def split: option.splits)
  then show ?thesis
    using assms None
    by (simp add: record_content_def get_or_insert_def timeline_def content_times_def Let_def)
next
  case (Some l)
  then obtain a where a: "pv_first_content_ms (rq_event s) = Some a" "0 \<le> a" "a \<le> l" "l \<le> T"
    using assms(1) by (auto simp: timeline_def content_times_def split: option.splits)
  then show ?thesis
    using assms Some
    by (auto simp: record_content_def get_or_insert_def timeline_def content_times_def in_time_def Let_def split: option.splits)
qed

lemma observe_timed:
  "timed T s \<Longrightarrow> timed T (observe_model m s)"
  "timed T s \<Longrightarrow> timed T (observe_tokens m s)"
  "timed T s \<Longrightarrow> timed T (observe_stop_reason v m s)"
  "timed T s \<Longrightarrow> 0 \<le> T \<Longrightarrow> timed T (observe_content T c s)"
  "timed T s \<Longrightarrow> 0 \<le> T \<Longrightarrow> timed T (model_completed T s)"
  by (simp_all add: observe_model_def observe_tokens_def observe_stop_reason_def observe_content_def
      model_completed_def Let_def record_content_timed split: option.split prod.split)
     (simp add: timeline_def in_time_def)

lemma observe_json_timed: "timed T s \<Longrightarrow> 0 \<le> T \<Longrightarrow> timed T (observe_json_state v b s T)"
  by (simp add: observe_json_state_def observe_stream_def observe_timed Let_def split: option.split)

lemma millis_nonneg: "0 \<le> d \<Longrightarrow> 0 \<le> millis d"
  by (auto simp: millis_def split: option.splits)

lemma millis_mono:
  assumes "0 \<le> d" "d \<le> d'" shows "millis d \<le> millis d'"
proof -
  have "0 \<le> d div 10 ^ 6" "d div 10 ^ 6 \<le> d' div 10 ^ 6"
    using assms by (simp_all add: zdiv_mono1 pos_imp_zdiv_nonneg_iff)
  then show ?thesis
    by (auto simp: millis_def i64_checked_def i64_range_def)
qed

definition ms_since :: "request_state \<Rightarrow> int \<Rightarrow> int" where
  "ms_since s t = millis (elapsed t (rq_start s))"

lemma ms_since_bounds: "0 \<le> ms_since s t" "t \<le> t' \<Longrightarrow> ms_since s t \<le> ms_since s t'"
  by (auto simp: ms_since_def elapsed_def intro: millis_nonneg millis_mono)

lemma perf_exec_timed:
  assumes "timed (ms_since s t) s" shows "timed (ms_since s t) (perf_exec op t s)"
proof (cases op)
  case (Op_Observe v b)
  then show ?thesis
    using assms ms_since_bounds(1) [of s t]
    by (simp add: perf_handles handle_update_def observe_json_timed flip: ms_since_def)
next
  case (Op_Bytes bs)
  then show ?thesis
    using assms ms_since_bounds(1) [of s t]
    by (auto simp: perf_handles handle_update_def get_or_insert_def timeline_def in_time_def
        simp flip: ms_since_def split: option.splits)
qed (use assms in \<open>simp_all add: perf_handles handle_update_def Let_def\<close>)

lemma perf_run_timed:
  assumes "timed (ms_since s t0) s" "sorted (t0 # map fst ops)" "\<forall>t \<in> fst ` set ops. t \<le> T" "t0 \<le> T"
  shows "timed (ms_since s T) (perf_run ops s)"
  using assms
proof (induction ops arbitrary: s t0)
  case Nil
  then show ?case
    using timeline_mono ms_since_bounds(2) by (auto simp: perf_run_def)
next
  case (Cons x ops)
  obtain t op where x: "x = (t, op)" by fastforce
  let ?s = "perf_exec op t s"
  have start: "ms_since ?s u = ms_since s u" for u
    using identity_of_sel(1) [OF perf_exec_identity] by (simp add: ms_since_def)
  have "timed (ms_since s t) s"
    using Cons.prems(1,2) timeline_mono ms_since_bounds(2) x by auto
  then have "timed (ms_since ?s t) ?s"
    using perf_exec_timed start by simp
  then have "timed (ms_since ?s T) (perf_run ops ?s)"
    using Cons.IH Cons.prems x by auto
  then show ?case
    using start x by (simp add: perf_run_def)
qed

subsection \<open>Every request is accounted for\<close>

text \<open>
  The service with the guards in flight. \<open>py_begun\<close> counts the requests that were given a guard and
  \<open>py_written\<close> the events of batches the store accepted. Identifiers are fresh, as random UUIDs are.
\<close>

record perf_system =
  py_svc :: performance_service
  py_guards :: "performance_guard multiset"
  py_begun :: nat
  py_written :: nat

definition guard_mset :: "performance_guard option \<Rightarrow> performance_guard multiset" where
  "guard_mset held = (case held of None \<Rightarrow> {#} | Some g \<Rightarrow> {#g#})"

definition request_ids :: "performance_service \<Rightarrow> string list" where
  "request_ids svc = map (\<lambda>c. pv_request_id (rq_event c)) (pf_cells svc)"

definition batch_kept :: "int \<Rightarrow> nat \<Rightarrow> performance_service \<Rightarrow> performance_event list" where
  "batch_kept now n svc =
     filter (\<lambda>e. sg_day (timestamp_millis (pv_started_at_utc e)) \<ge> retention_day now) (take n (pf_queue svc))"

definition batch_accepted :: "nat option list \<Rightarrow> bool" where
  "batch_accepted attempts \<longleftrightarrow> (\<exists>a \<in> set (take 3 attempts). a \<noteq> None)"

inductive perf_step :: "perf_system \<Rightarrow> perf_system \<Rightarrow> bool" where
  start: "performance_begin uuid now inst (py_svc s) = (Some g, svc) \<Longrightarrow> uuid \<notin> set (request_ids (py_svc s)) \<Longrightarrow>
     perf_step s (s\<lparr>py_svc := svc, py_guards := add_mset g (py_guards s), py_begun := py_begun s + 1\<rparr>)"
| disabled: "performance_begin uuid now inst (py_svc s) = (None, svc) \<Longrightarrow> perf_step s (s\<lparr>py_svc := svc\<rparr>)"
| noted: "h < length (pf_cells (py_svc s)) \<Longrightarrow>
     perf_step s (s\<lparr>py_svc := on_cell h (perf_exec op inst) (py_svc s)\<rparr>)"
| respond: "g \<in># py_guards s \<Longrightarrow> guard_response status ended now inst sent g (py_svc s) = (held, svc) \<Longrightarrow>
     perf_step s (s\<lparr>py_svc := svc, py_guards := py_guards s - {#g#} + guard_mset held\<rparr>)"
| poll: "g \<in># py_guards s \<Longrightarrow> body_poll frame now inst sent (Some g) (py_svc s) = (held, svc) \<Longrightarrow>
     perf_step s (s\<lparr>py_svc := svc, py_guards := py_guards s - {#g#} + guard_mset held\<rparr>)"
| dropped: "g \<in># py_guards s \<Longrightarrow>
     perf_step s (s\<lparr>py_svc := guard_drop now inst sent g (py_svc s), py_guards := py_guards s - {#g#}\<rparr>)"
| written: "perf_step s (s\<lparr>py_svc := perf_writer_batch now attempts n (py_svc s),
     py_written := py_written s +
       (if batch_accepted attempts then length (batch_kept now n (py_svc s)) else 0)\<rparr>)"

definition perf_reachable :: "bool \<Rightarrow> string \<Rightarrow> int \<Rightarrow> perf_system \<Rightarrow> bool" where
  "perf_reachable enabled uuid now s \<longleftrightarrow>
     perf_step\<^sup>*\<^sup>* \<lparr>py_svc = performance_start enabled uuid now, py_guards = {#}, py_begun = 0, py_written = 0\<rparr> s"

definition completions :: "perf_system \<Rightarrow> nat" where
  "completions s = length (pf_queue (py_svc s)) + pc_expired (pf_counters (py_svc s)) +
     pc_dropped (pf_counters (py_svc s)) + py_written s"

definition guards_ok :: "performance_guard multiset \<Rightarrow> performance_service \<Rightarrow> bool" where
  "guards_ok gs svc \<longleftrightarrow>
     (\<forall>g \<in># gs. \<not> pg_finished g \<and> pg_handle g < length (pf_cells svc) \<and> \<not> rq_finished (pf_cells svc ! pg_handle g)) \<and>
     (\<forall>h. count (image_mset pg_handle gs) h \<le> 1) \<and>
     distinct (request_ids svc) \<and> length (pf_active svc) \<le> ACTIVE_LIMIT \<and>
     (\<forall>(i, h) \<in> set (pf_active svc). h < length (pf_cells svc) \<and> i = request_ids svc ! h \<and>
        h \<in># image_mset pg_handle gs)"

lemma cells_on_cell [simp]:
  "pf_active (on_cell h f svc) = pf_active svc" "pf_queue (on_cell h f svc) = pf_queue svc"
  "pf_counters (on_cell h f svc) = pf_counters svc"
  "pf_cells (on_cell h f svc) = (pf_cells svc)[h := f (pf_cells svc ! h)]"
  "pf_cells (on_counters k svc) = pf_cells svc" "pf_active (on_counters k svc) = pf_active svc"
  "pf_queue (on_counters k svc) = pf_queue svc" "pf_counters (on_counters k svc) = k (pf_counters svc)"
  by (simp_all add: on_cell_def on_counters_def)

lemma request_ids_on_cell:
  assumes "h < length (pf_cells svc)"
    "pv_request_id (rq_event (f (pf_cells svc ! h))) = pv_request_id (rq_event (pf_cells svc ! h))"
  shows "request_ids (on_cell h f svc) = request_ids svc"
  using assms by (auto simp: request_ids_def map_update intro!: list_update_same_conv [THEN iffD2])

lemma guards_ok_note:
  assumes "guards_ok gs svc" "h < length (pf_cells svc)"
  shows "guards_ok gs (on_cell h (perf_exec op inst) svc)"
proof -
  have "request_ids (on_cell h (perf_exec op inst) svc) = request_ids svc"
    using assms(2) identity_of_sel(3) [OF perf_exec_identity] by (rule request_ids_on_cell)
  moreover have "rq_finished (pf_cells (on_cell h (perf_exec op inst) svc) ! k) = rq_finished (pf_cells svc ! k)"
    if "k < length (pf_cells svc)" for k
    using that identity_of_sel(2) [OF perf_exec_identity] by (cases "k = h") simp_all
  ultimately show ?thesis
    using assms by (simp add: guards_ok_def)
qed

lemma finish_event_id [simp]:
  "pv_request_id (finished_event ab now inst c) = pv_request_id (rq_event c)"
  "pv_started_at_utc (finished_event ab now inst c) = pv_started_at_utc (rq_event c)"
  by (simp_all add: finished_event_def handle_snapshot_def Let_def split: option.split)

lemma guard_finish_effect:
  assumes "\<not> pg_finished g"
  shows "pf_cells (snd (guard_finish ab now inst sent g svc)) =
      (pf_cells svc)[pg_handle g := (pf_cells svc ! pg_handle g)
         \<lparr>rq_finished := True, rq_event := finished_event ab now inst (pf_cells svc ! pg_handle g)\<rparr>]"
    and "pf_active (snd (guard_finish ab now inst sent g svc)) =
      AList.delete (pv_request_id (rq_event (pf_cells svc ! pg_handle g))) (pf_active svc)"
    and "length (pf_queue (snd (guard_finish ab now inst sent g svc))) +
        pc_expired (pf_counters (snd (guard_finish ab now inst sent g svc))) +
        pc_dropped (pf_counters (snd (guard_finish ab now inst sent g svc))) =
      Suc (length (pf_queue svc) + pc_expired (pf_counters svc) + pc_dropped (pf_counters svc))"
    and "pg_finished (fst (guard_finish ab now inst sent g svc))"
  using assms by (simp_all add: guard_finish_def Let_def)

lemma guards_ok_finish:
  assumes "guards_ok gs svc" "g \<in># gs"
  shows "guards_ok (gs - {#g#}) (snd (guard_finish ab now inst sent g svc))"
proof -
  let ?svc = "snd (guard_finish ab now inst sent g svc)" and ?h = "pg_handle g"
  have g: "\<not> pg_finished g" "?h < length (pf_cells svc)"
    using assms by (auto simp: guards_ok_def)
  note eff = guard_finish_effect [OF g(1), of ab now inst sent svc]
  have ids: "request_ids ?svc = request_ids svc"
    using g(2) by (auto simp: request_ids_def eff map_update intro!: list_update_same_conv [THEN iffD2])
  have cnt: "image_mset pg_handle (gs - {#g#}) = image_mset pg_handle gs - {#?h#}"
    using assms(2) by (metis image_mset_Diff image_mset_single mset_subset_eq_single)
  have le: "count (image_mset pg_handle gs) k \<le> 1" for k
    using assms(1) by (simp add: guards_ok_def)
  have gone: "?h \<notin># image_mset pg_handle (gs - {#g#})"
    using le [of ?h] assms(2) unfolding cnt by (simp add: not_in_iff)
  have live: "\<not> pg_finished k \<and> pg_handle k < length (pf_cells ?svc) \<and> \<not> rq_finished (pf_cells ?svc ! pg_handle k)"
    if "k \<in># gs - {#g#}" for k
  proof -
    have "pg_handle k \<noteq> ?h" using gone that by (metis image_eqI set_image_mset)
    moreover have "k \<in># gs" using that by (rule in_diffD)
    ultimately show ?thesis using assms(1) by (auto simp: guards_ok_def eff)
  qed
  have act: "k < length (pf_cells svc) \<and> i = request_ids svc ! k \<and> k \<in># image_mset pg_handle (gs - {#g#})"
    if "(i, k) \<in> set (pf_active ?svc)" for i k
  proof -
    have mem: "(i, k) \<in> set (pf_active svc)" "i \<noteq> request_ids svc ! ?h"
      using that g(2) by (auto simp: eff request_ids_def AList.delete_eq)
    then have "k < length (pf_cells svc)" "i = request_ids svc ! k" "k \<in># image_mset pg_handle gs"
      using assms(1) by (auto simp: guards_ok_def)
    then show ?thesis
      using mem(2) unfolding cnt by (auto simp: in_diff_count)
  qed
  have "length (pf_active ?svc) \<le> ACTIVE_LIMIT"
    using assms(1) length_delete_le [of _ "pf_active svc"] by (auto simp: guards_ok_def eff intro: le_trans)
  moreover have "count (image_mset pg_handle (gs - {#g#})) k \<le> 1" for k
    using le [of k] unfolding cnt by simp
  ultimately show ?thesis
    using live act assms(1) by (auto simp: guards_ok_def ids eff)
qed

lemma performance_begin_Some:
  assumes "performance_begin uuid now inst svc = (Some g, svc')"
  shows "g = \<lparr>pg_handle = length (pf_cells svc), pg_finished = False\<rparr>"
    and "pf_cells svc' = pf_cells svc @ [new_request uuid (pf_instance_id svc) now inst]"
    and "pf_queue svc' = pf_queue svc" "pc_expired (pf_counters svc') = pc_expired (pf_counters svc)"
    and "pc_dropped (pf_counters svc') = pc_dropped (pf_counters svc)"
    and "pf_active svc' = (if length (pf_active svc) < ACTIVE_LIMIT
           then AList.update uuid (length (pf_cells svc)) (pf_active svc) else pf_active svc)"
  using assms by (auto simp: performance_begin_def Let_def split: if_splits)

lemma set_alist_update: "(k, v) \<in> set (AList.update a b m) \<Longrightarrow> (k, v) = (a, b) \<or> (k, v) \<in> set m"
  by (induction m) (auto split: if_splits)

lemma length_alist_update_le: "length (AList.update a b m) \<le> Suc (length m)"
  by (induction m) auto

lemma guards_ok_begin:
  assumes "guards_ok gs svc" "performance_begin uuid now inst svc = (Some g, svc')"
    and "uuid \<notin> set (request_ids svc)"
  shows "guards_ok (add_mset g gs) svc'"
proof -
  note new = performance_begin_Some [OF assms(2)]
  let ?n = "length (pf_cells svc)"
  have ids: "request_ids svc' = request_ids svc @ [uuid]"
    by (simp add: request_ids_def new new_request_def new_event_def)
  have fresh: "?n \<notin># image_mset pg_handle gs"
    using assms(1) by (auto simp: guards_ok_def)
  have live: "\<not> pg_finished k \<and> pg_handle k < Suc ?n \<and> \<not> rq_finished (pf_cells svc' ! pg_handle k)"
    if "k \<in># add_mset g gs" for k
    using that assms(1) by (auto simp: guards_ok_def new nth_append new_request_def)
  have act: "h < Suc ?n \<and> i = (request_ids svc @ [uuid]) ! h \<and> h \<in># image_mset pg_handle (add_mset g gs)"
    if "(i, h) \<in> set (pf_active svc')" for i h
  proof -
    have "(i, h) = (uuid, ?n) \<or> (i, h) \<in> set (pf_active svc)"
      using that set_alist_update by (metis new(6))
    moreover have len: "length (request_ids svc) = ?n"
      by (simp add: request_ids_def)
    ultimately show ?thesis
      using assms(1) by (auto simp: guards_ok_def new(1) nth_append)
  qed
  have "length (pf_active svc') \<le> ACTIVE_LIMIT"
    using assms(1) length_alist_update_le [of uuid ?n "pf_active svc"] by (auto simp: guards_ok_def new(6))
  moreover have "count (image_mset pg_handle (add_mset g gs)) k \<le> 1" for k
    using assms(1) fresh [unfolded not_in_iff] by (auto simp: guards_ok_def new(1))
  moreover have "distinct (request_ids svc')"
    using assms(1,3) by (simp add: ids guards_ok_def)
  moreover have "length (pf_cells svc') = Suc ?n"
    by (simp add: new)
  ultimately show ?thesis
    using live act by (auto simp: guards_ok_def ids)
qed

lemma write_attempts_count:
  "n > 0 \<Longrightarrow> pc_dropped (write_attempts n sz as c) =
     pc_dropped c + (if \<exists>a \<in> set (take n as). a \<noteq> None then 0 else sz)"
  "pc_expired (write_attempts n sz as c) = pc_expired c"
  by (induction n sz as c rule: write_attempts.induct)
     (auto split: list.splits option.splits simp: take_Cons')

lemma writer_effect:
  "guards_ok gs (perf_writer_batch now as n svc) = guards_ok gs svc"
  "length (pf_queue (perf_writer_batch now as n svc)) + pc_expired (pf_counters (perf_writer_batch now as n svc))
     + pc_dropped (pf_counters (perf_writer_batch now as n svc)) +
     (if batch_accepted as then length (batch_kept now n svc) else 0)
   = length (pf_queue svc) + pc_expired (pf_counters svc) + pc_dropped (pf_counters svc)"
proof -
  have le: "length (batch_kept now n svc) \<le> length (take n (pf_queue svc))"
    by (simp only: batch_kept_def length_filter_le)
  show "guards_ok gs (perf_writer_batch now as n svc) = guards_ok gs svc"
    by (simp add: guards_ok_def perf_writer_batch_def Let_def request_ids_def)
  show "length (pf_queue (perf_writer_batch now as n svc)) + pc_expired (pf_counters (perf_writer_batch now as n svc))
     + pc_dropped (pf_counters (perf_writer_batch now as n svc)) +
     (if batch_accepted as then length (batch_kept now n svc) else 0)
   = length (pf_queue svc) + pc_expired (pf_counters svc) + pc_dropped (pf_counters svc)"
    using le by (auto simp: perf_writer_batch_def Let_def write_attempts_count batch_accepted_def
        simp flip: batch_kept_def)
qed

definition perf_inv :: "perf_system \<Rightarrow> bool" where
  "perf_inv s \<longleftrightarrow> guards_ok (py_guards s) (py_svc s) \<and> py_begun s = size (py_guards s) + completions s"

lemma perf_inv_finish:
  assumes "perf_inv s" "g \<in># py_guards s"
  shows "perf_inv (s\<lparr>py_svc := snd (guard_finish ab now inst sent g (py_svc s)), py_guards := py_guards s - {#g#}\<rparr>)"
proof -
  have "\<not> pg_finished g"
    using assms by (auto simp: perf_inv_def guards_ok_def)
  note eff = guard_finish_effect(3) [OF this, of ab now inst sent "py_svc s"]
  obtain m where "py_guards s = add_mset g m"
    using assms(2) by (metis multi_member_split)
  then show ?thesis
    using assms eff guards_ok_finish [of "py_guards s" "py_svc s" g ab now inst sent]
    by (simp add: perf_inv_def completions_def)
qed

lemma perf_inv_note:
  "perf_inv s \<Longrightarrow> h < length (pf_cells (py_svc s)) \<Longrightarrow>
   perf_inv (s\<lparr>py_svc := on_cell h (perf_exec op inst) (py_svc s)\<rparr>)"
  by (simp add: perf_inv_def completions_def guards_ok_note)

lemma guard_in_range:
  "perf_inv s \<Longrightarrow> g \<in># py_guards s \<Longrightarrow> pg_handle g < length (pf_cells (py_svc s))"
  by (simp add: perf_inv_def guards_ok_def)

lemma finished_guard_drop: "pg_finished g \<Longrightarrow> guard_drop now inst sent g svc = svc"
  by (simp add: guard_drop_def guard_finish_def)

lemma perf_inv_respond:
  assumes "perf_inv s" "g \<in># py_guards s"
    and "guard_response status ended now inst sent g (py_svc s) = (held, svc)"
  shows "perf_inv (s\<lparr>py_svc := svc, py_guards := py_guards s - {#g#} + guard_mset held\<rparr>)"
proof -
  let ?s = "s\<lparr>py_svc := on_cell (pg_handle g) (note_response status inst) (py_svc s)\<rparr>"
  have inv: "perf_inv ?s"
    using perf_inv_note [OF assms(1) guard_in_range [OF assms(1,2)], of "Op_Response status"] by simp
  have live: "\<not> pg_finished g"
    using assms(1,2) by (auto simp: perf_inv_def guards_ok_def)
  show ?thesis
    using perf_inv_finish [OF inv, of g False now inst sent] assms(2,3) inv live
      guard_finish_effect(4) [OF live, of False now inst sent
        "on_cell (pg_handle g) (note_response status inst) (py_svc s)"]
    by (auto simp: guard_response_def guard_mset_def finished_guard_drop Let_def
        split: if_splits prod.splits)
qed

lemma perf_inv_poll:
  assumes "perf_inv s" "g \<in># py_guards s"
    and "body_poll frame now inst sent (Some g) (py_svc s) = (held, svc)"
  shows "perf_inv (s\<lparr>py_svc := svc, py_guards := py_guards s - {#g#} + guard_mset held\<rparr>)"
proof -
  let ?s = "s\<lparr>py_svc := on_cell (pg_handle g) (handle_failure PO_StreamError inst) (py_svc s)\<rparr>"
  have inv: "perf_inv ?s"
    using perf_inv_note [OF assms(1) guard_in_range [OF assms(1,2)], of "Op_Failure PO_StreamError"] by simp
  show ?thesis
    using perf_inv_finish [OF inv, of g False now inst sent]
      perf_inv_finish [OF assms(1), of g False now inst sent] assms
    by (auto simp: body_poll_def guard_mset_def split: frame_poll.splits if_splits)
qed

lemma perf_step_inv: "perf_step s s' \<Longrightarrow> perf_inv s \<Longrightarrow> perf_inv s'"
proof (induction rule: perf_step.induct)
  case (start uuid now inst s g svc)
  then show ?case
    using guards_ok_begin [OF _ start(1,2)] performance_begin_Some [OF start(1)]
    by (simp add: perf_inv_def completions_def)
next
  case (disabled uuid now inst s svc)
  then have "svc = py_svc s"
    by (simp add: performance_begin_def Let_def split: if_splits)
  then show ?case
    using disabled by simp
next
  case (noted h s op inst)
  then show ?case by (rule perf_inv_note [rotated])
next
  case (respond g s status ended now inst sent held svc)
  then show ?case by (rule perf_inv_respond [rotated])
next
  case (poll g s frame now inst sent held svc)
  then show ?case by (rule perf_inv_poll [rotated])
next
  case (dropped g s now inst sent)
  then show ?case by (simp only: guard_drop_def perf_inv_finish)
next
  case (written s attempts now n)
  then show ?case
    using writer_effect(2) [of now attempts n "py_svc s"]
    by (simp add: perf_inv_def completions_def writer_effect(1))
qed

lemma perf_reachable_inv: "perf_reachable enabled uuid now s \<Longrightarrow> perf_inv s"
  unfolding perf_reachable_def
proof (induction rule: rtranclp_induct)
  case base
  show ?case
    by (simp add: perf_inv_def guards_ok_def completions_def performance_start_def
       perf_counters_default_def request_ids_def)
qed (rule perf_step_inv)

section \<open>Properties\<close>

text \<open>
  C22. No request is lost or reported twice. In every reachable state the requests begun are the
  guards still held plus the events in the queue, expired, dropped or in a written batch, each
  counted once; every entry of the active list is a request whose guard is still held and which has not
  finished, and the list stays within its limit.
\<close>

theorem requests_accounted:
  assumes "perf_reachable enabled uuid now s"
  shows "py_begun s = size (py_guards s) + length (pf_queue (py_svc s)) +
      pc_expired (pf_counters (py_svc s)) + pc_dropped (pf_counters (py_svc s)) + py_written s \<and>
    length (pf_active (py_svc s)) \<le> ACTIVE_LIMIT \<and>
    (\<forall>(i, h) \<in> set (pf_active (py_svc s)). \<exists>g \<in># py_guards s. pg_handle g = h \<and>
       pv_request_id (rq_event (pf_cells (py_svc s) ! h)) = i \<and> \<not> rq_finished (pf_cells (py_svc s) ! h))"
proof -
  have inv: "perf_inv s"
    using assms by (rule perf_reachable_inv)
  then have ok: "guards_ok (py_guards s) (py_svc s)"
    by (simp add: perf_inv_def)
  have "\<exists>g \<in># py_guards s. pg_handle g = h \<and> pv_request_id (rq_event (pf_cells (py_svc s) ! h)) = i \<and>
      \<not> rq_finished (pf_cells (py_svc s) ! h)"
    if "(i, h) \<in> set (pf_active (py_svc s))" for i h
  proof -
    have "i = request_ids (py_svc s) ! h" "h < length (pf_cells (py_svc s))" "h \<in> pg_handle ` set_mset (py_guards s)"
      using ok that by (auto simp: guards_ok_def)
    then show ?thesis
      using ok by (auto simp: guards_ok_def request_ids_def)
  qed
  then show ?thesis
    using inv ok by (auto simp: perf_inv_def completions_def guards_ok_def)
qed

text \<open>One request, begun and answered with an empty body.\<close>

lemma example_perf_run:
  "\<exists>s. perf_reachable True ''i'' 0 s \<and> py_begun s = 1 \<and> length (pf_queue (py_svc s)) = 1 \<and> py_guards s = {#}"
proof -
  let ?s0 = "\<lparr>py_svc = performance_start True ''i'' 0, py_guards = {#}, py_begun = 0, py_written = 0\<rparr>"
  obtain g svc where b: "performance_begin ''u'' 0 0 (py_svc ?s0) = (Some g, svc)"
    by (simp add: performance_begin_def performance_start_def Let_def)
  note new = performance_begin_Some [OF b]
  let ?s1 = "?s0\<lparr>py_svc := svc, py_guards := add_mset g {#}, py_begun := 1\<rparr>"
  let ?s2 = "?s1\<lparr>py_svc := guard_drop 0 0 True g svc, py_guards := {#}\<rparr>"
  have "perf_step ?s0 ?s1"
    using perf_step.start [OF b] by (simp add: request_ids_def performance_start_def)
  moreover have "perf_step ?s1 ?s2"
    using perf_step.dropped [of g ?s1 0 0 True] by simp
  ultimately have "perf_reachable True ''i'' 0 ?s2"
    unfolding perf_reachable_def by (meson rtranclp.rtrancl_into_rtrancl rtranclp.rtrancl_refl)
  moreover have "length (pf_queue (guard_drop 0 0 True g svc)) = 1"
    using new by (simp add: guard_drop_def guard_finish_def Let_def performance_start_def
        new_request_def new_event_def sg_day_def timestamp_millis_def retention_day_def i32_wrap_def)
  ultimately show ?thesis
    by force
qed

theorem requests_accounted_witness:
  "\<exists>s. perf_reachable True ''i'' 0 s \<and> py_begun s = 1 \<and> length (pf_queue (py_svc s)) = 1 \<and>
     pc_dropped (pf_counters (py_svc s)) = 0 \<and> pc_expired (pf_counters (py_svc s)) = 0"
  using example_perf_run requests_accounted [of True "''i''" 0] by fastforce

text \<open>
  The times of a completed request are consistent. Whatever updates a request receives while
  the clock advances, its completed event has a duration, and the first byte, the first content,
  the first text, the completion of the model and the longest gap all lie between zero and it; the
  first content is not after the first text.
\<close>

lemma snapshot_timed:
  assumes "timed (ms_since c t) c" "pv_duration_ms (rq_event c) = None"
  shows "pv_age_ms (handle_snapshot t c) = ms_since c t"
    and "timeline (ms_since c t) (rq_last_content c) (handle_snapshot t c)"
proof -
  let ?T = "ms_since c t" and ?e = "rq_event c"
  let ?fin = "case pv_model_completed_ms ?e of Some m \<Rightarrow> m | None \<Rightarrow> ?T"
  have T: "0 \<le> ?T" by (rule ms_since_bounds)
  then have "0 \<le> ?fin \<and> ?fin \<le> ?T"
    using assms(1) by (auto simp: timeline_def in_time_def split: option.splits)
  moreover have "0 \<le> l" if "rq_last_content c = Some l" for l
    using assms(1) that by (auto simp: timeline_def content_times_def split: option.splits)
  ultimately have gap: "in_time ?T (Some (max (case pv_max_content_gap_ms ?e of Some g \<Rightarrow> g | None \<Rightarrow> 0)
      (i64_saturating_sub ?fin l)))" if "rq_last_content c = Some l" for l
    using assms(1) that T by (auto simp: timeline_def in_time_def i64_saturating_sub_def split: option.splits)
  show "pv_age_ms (handle_snapshot t c) = ?T"
    using assms(2) by (simp add: handle_snapshot_def ms_since_def Let_def split: option.split)
  show "timeline ?T (rq_last_content c) (handle_snapshot t c)"
    using assms gap by (auto simp: handle_snapshot_def Let_def timeline_def simp flip: ms_since_def split: option.split)
qed

theorem request_times_consistent:
  assumes "sorted (t0 # map fst ops)" "\<forall>t \<in> fst ` set ops. t \<le> t1" "t0 \<le> t1"
    and "e = finished_event aborted now t1 (perf_run ops (new_request uuid instance_id w t0))"
  shows "\<exists>d. pv_duration_ms e = Some d \<and> 0 \<le> d \<and> in_time d (pv_first_byte_ms e) \<and>
    in_time d (pv_first_content_ms e) \<and> in_time d (pv_first_text_ms e) \<and>
    in_time d (pv_model_completed_ms e) \<and> in_time d (pv_max_content_gap_ms e) \<and>
    (\<forall>a b. pv_first_content_ms e = Some a \<and> pv_first_text_ms e = Some b \<longrightarrow> a \<le> b)"
proof -
  let ?s = "new_request uuid instance_id w t0"
  let ?c = "perf_run ops ?s"
  note idn = identity_of_sel [OF perf_run_identity [of ops ?s]]
  have "timed (ms_since ?s t0) ?s"
    by (simp add: timeline_def content_times_def in_time_def new_request_def new_event_def)
  then have "timed (ms_since ?s t1) ?c"
    using perf_run_timed assms(1-3) by blast
  then have c: "timed (ms_since ?c t1) ?c" "pv_duration_ms (rq_event ?c) = None"
    using idn by (simp_all add: ms_since_def) (simp add: new_request_def new_event_def)
  let ?T = "ms_since ?c t1" and ?v = "handle_snapshot t1 ?c"
  note snap = snapshot_timed [OF c]
  have "pv_duration_ms e = Some ?T" "timeline ?T (rq_last_content ?c) e"
    using snap by (simp_all add: assms(4) finished_event_def Let_def)
  then show ?thesis
    using ms_since_bounds(1) [of ?c t1]
    by (force simp: timeline_def content_times_def in_time_def split: option.splits)
qed

theorem request_times_consistent_witness:
  "\<exists>d. pv_duration_ms (finished_event False 0 9000000 (perf_run [(2000000, Op_Bytes ''x''),
       (5000000, Op_Observe (JObj [(''type'', JStr ''message_stop'')]) True)] (new_request ''u'' ''i'' 0 0))) = Some d \<and> 0 \<le> d"
  using request_times_consistent [of 0 "[(2000000, Op_Bytes ''x''),
       (5000000, Op_Observe (JObj [(''type'', JStr ''message_stop'')]) True)]" 9000000, OF _ _ _ refl,
       where aborted = False and now = 0 and uuid = "''u''" and instance_id = "''i''" and w = 0] by auto

end
