(* ===== verification/Usage_Parser.thy ===== *)
theory Usage_Parser
  imports Pricing Performance
begin

text \<open>
  Reading the usage of a response while it streams by (\<open>src/service/usage.rs\<close>): the content
  encodings, the two parsers (a buffered JSON document, server-sent events line by line) and the
  decoders in front of them.

  A parser works beside the shared timing record of the request (\<open>performance\<close> in the code), which
  is passed through as \<open>cell\<close>; \<open>inst\<close> is the clock at the call. The decompressors of \<open>flate2\<close>,
  \<open>brotli\<close> and \<open>zstd\<close> are the parameter \<open>codec_lib\<close>: a write returns the decoded pieces it hands
  to the sink in order and whether the transport is still sound.
\<close>

section \<open>Content encodings\<close>

datatype usage_content_encoding = CE_Identity | CE_Gzip | CE_Deflate | CE_Brotli | CE_Zstd | CE_Unsupported

definition encoding_parse :: "string option \<Rightarrow> usage_content_encoding" where
  "encoding_parse value =
     (case value of
        None \<Rightarrow> CE_Identity
      | Some v \<Rightarrow>
          (case filter (\<lambda>e. e \<noteq> []) (map trim (split_by (\<lambda>c. c = CHR '','') v)) of
             [] \<Rightarrow> CE_Identity
           | [e] \<Rightarrow>
               (let enc = to_ascii_lowercase e in
                if enc = ''identity'' then CE_Identity
                else if enc = ''gzip'' \<or> enc = ''x-gzip'' then CE_Gzip
                else if enc = ''deflate'' then CE_Deflate
                else if enc = ''br'' then CE_Brotli
                else if enc = ''zstd'' then CE_Zstd
                else CE_Unsupported)
           | _ \<Rightarrow> CE_Unsupported))"

section \<open>Usage objects\<close>

record parsed_usage =
  pr_message_id :: "string option"
  pr_model :: "string option"
  pr_tokens :: usage_tokens
  pr_stop_reason :: "string option"
  pr_has_usage :: bool

record usage_patch =
  up_input :: "int option"
  up_output :: "int option"
  up_cache_creation_5m :: "int option"
  up_cache_creation_1h :: "int option"
  up_cache_read :: "int option"

definition default_patch :: usage_patch where
  "default_patch = \<lparr>up_input = None, up_output = None, up_cache_creation_5m = None,
     up_cache_creation_1h = None, up_cache_read = None\<rparr>"

definition patch_has_any :: "usage_patch \<Rightarrow> bool" where
  "patch_has_any p \<longleftrightarrow> up_input p \<noteq> None \<or> up_output p \<noteq> None \<or> up_cache_creation_5m p \<noteq> None \<or>
     up_cache_creation_1h p \<noteq> None \<or> up_cache_read p \<noteq> None"

definition over :: "int option \<Rightarrow> int \<Rightarrow> int" where
  "over v x = (case v of Some y \<Rightarrow> y | None \<Rightarrow> x)"

definition patch_apply :: "usage_patch \<Rightarrow> usage_tokens \<Rightarrow> usage_tokens" where
  "patch_apply p t =
     \<lparr>ut_input = over (up_input p) (ut_input t), ut_output = over (up_output p) (ut_output t),
      ut_cache_creation_5m = over (up_cache_creation_5m p) (ut_cache_creation_5m t),
      ut_cache_creation_1h = over (up_cache_creation_1h p) (ut_cache_creation_1h t),
      ut_cache_read = over (up_cache_read p) (ut_cache_read t)\<rparr>"

text \<open>A failure (\<open>Err(())\<close>) is \<open>None\<close>.\<close>

definition optional_token :: "json option \<Rightarrow> int option option" where
  "optional_token value =
     (case value of
        None \<Rightarrow> Some None
      | Some JNull \<Rightarrow> Some None
      | Some v \<Rightarrow> (case as_i64 v of Some n \<Rightarrow> if n \<ge> 0 then Some (Some n) else None | None \<Rightarrow> None))"

definition parse_usage_patch :: "json \<Rightarrow> usage_patch option" where
  "parse_usage_patch usage =
     Option.bind (as_object usage) (\<lambda>ob.
     Option.bind (optional_token (map_of ob ''input_tokens'')) (\<lambda>inp.
     Option.bind (optional_token (map_of ob ''output_tokens'')) (\<lambda>out.
     Option.bind (optional_token (map_of ob ''cache_read_input_tokens'')) (\<lambda>rd.
       case Option.bind (map_of ob ''cache_creation'') as_object of
         Some breakdown \<Rightarrow>
           Option.bind (optional_token (map_of breakdown ''ephemeral_5m_input_tokens'')) (\<lambda>c5.
           Option.bind (optional_token (map_of breakdown ''ephemeral_1h_input_tokens'')) (\<lambda>c1.
             Some \<lparr>up_input = inp, up_output = out, up_cache_creation_5m = c5,
                   up_cache_creation_1h = c1, up_cache_read = rd\<rparr>))
       | None \<Rightarrow>
           Option.bind (optional_token (map_of ob ''cache_creation_input_tokens'')) (\<lambda>c5.
             Some \<lparr>up_input = inp, up_output = out, up_cache_creation_5m = c5,
                   up_cache_creation_1h = None, up_cache_read = rd\<rparr>)))))"

definition usage_string_field :: "json \<Rightarrow> string \<Rightarrow> string option" where
  "usage_string_field value field =
     (case map_option trim (Option.bind (jget value field) as_str) of
        Some v \<Rightarrow> if v \<noteq> [] then Some v else None
      | None \<Rightarrow> None)"

definition known_stop_reasons :: "string list" where
  "known_stop_reasons = [''end_turn'', ''max_tokens'', ''stop_sequence'', ''tool_use'', ''pause_turn'',
     ''refusal'', ''model_context_window_exceeded'']"

definition stop_reason_field :: "json \<Rightarrow> string option" where
  "stop_reason_field value =
     (case usage_string_field value ''stop_reason'' of
        Some r \<Rightarrow> if r \<in> set known_stop_reasons then Some r else None
      | None \<Rightarrow> None)"

definition parse_json_response :: "json \<Rightarrow> parsed_usage option" where
  "parse_json_response value =
     Option.bind (case jget value ''usage'' of None \<Rightarrow> Some default_patch | Some u \<Rightarrow> parse_usage_patch u)
       (\<lambda>patch. Some
          \<lparr>pr_message_id = usage_string_field value ''id'', pr_model = usage_string_field value ''model'',
           pr_tokens = patch_apply patch default_tokens, pr_stop_reason = stop_reason_field value,
           pr_has_usage = (jget value ''usage'' \<noteq> None \<and> patch_has_any patch)\<rparr>)"

section \<open>The buffered parser\<close>

definition JSON_LIMIT :: nat where "JSON_LIMIT = 16 * 1024 * 1024"
definition SSE_LINE_LIMIT :: nat where "SSE_LINE_LIMIT = 256 * 1024"

type_synonym perf_cell = "request_state option"

definition perf_observe :: "json \<Rightarrow> bool \<Rightarrow> int \<Rightarrow> perf_cell \<Rightarrow> perf_cell" where
  "perf_observe v streaming inst cell = map_option (handle_observe_json v streaming inst) cell"

record json_parser =
  jp_buffer :: string
  jp_parsed :: "parsed_usage option"
  jp_invalid :: bool
  jp_oversize :: bool

definition json_parser_default :: json_parser where
  "json_parser_default = \<lparr>jp_buffer = [], jp_parsed = None, jp_invalid = False, jp_oversize = False\<rparr>"

definition json_feed :: "string \<Rightarrow> json_parser \<Rightarrow> json_parser" where
  "json_feed bytes p =
     (if jp_invalid p then p
      else if length (jp_buffer p) + length bytes > JSON_LIMIT
      then p\<lparr>jp_buffer := [], jp_invalid := True, jp_oversize := True\<rparr>
      else p\<lparr>jp_buffer := jp_buffer p @ bytes\<rparr>)"

definition json_finish :: "serde_lib \<Rightarrow> int \<Rightarrow> json_parser \<times> perf_cell \<Rightarrow> json_parser \<times> perf_cell" where
  "json_finish S inst pc =
     (let (p, cell) = pc in
      if jp_invalid p \<or> jp_parsed p \<noteq> None \<or> jp_buffer p = [] then (p, cell)
      else
        let (p, cell) =
              (case sj_from_str S (jp_buffer p) of
                 Some value \<Rightarrow>
                   ((case parse_json_response value of
                       Some parsed \<Rightarrow> p\<lparr>jp_parsed := Some parsed\<rparr>
                     | None \<Rightarrow> p\<lparr>jp_invalid := True\<rparr>),
                    perf_observe value False inst cell)
               | None \<Rightarrow> (p\<lparr>jp_invalid := True\<rparr>, cell))
        in (p\<lparr>jp_buffer := []\<rparr>, cell))"

section \<open>The event-stream parser\<close>

record sse_parser =
  sp_line :: string
  sp_message_id :: "string option"
  sp_model :: "string option"
  sp_tokens :: usage_tokens
  sp_stop_reason :: "string option"
  sp_has_usage :: bool
  sp_complete :: bool
  sp_invalid :: bool
  sp_oversize :: bool

definition sse_parser_default :: sse_parser where
  "sse_parser_default =
     \<lparr>sp_line = [], sp_message_id = None, sp_model = None, sp_tokens = default_tokens,
      sp_stop_reason = None, sp_has_usage = False, sp_complete = False, sp_invalid = False,
      sp_oversize = False\<rparr>"

definition apply_usage :: "json \<Rightarrow> sse_parser \<Rightarrow> sse_parser" where
  "apply_usage usage p =
     (case parse_usage_patch usage of
        Some patch \<Rightarrow> p\<lparr>sp_has_usage := sp_has_usage p \<or> patch_has_any patch,
                         sp_tokens := patch_apply patch (sp_tokens p)\<rparr>
      | None \<Rightarrow> p\<lparr>sp_invalid := True\<rparr>)"

text \<open>The text of a \<open>data:\<close> line that is to be read, and what one event does.\<close>

definition line_data :: "string \<Rightarrow> string option" where
  "line_data l =
     (let line = (case strip_suffix [CHR 0x0D] l of Some s \<Rightarrow> s | None \<Rightarrow> l)
      in case strip_prefix ''data:'' line of
           None \<Rightarrow> None
         | Some d \<Rightarrow>
             (let data = (case strip_prefix '' '' d of Some s \<Rightarrow> s | None \<Rightarrow> d)
              in if data = [] \<or> data = ''[DONE]'' then None else Some data))"

definition or_take :: "'a option \<Rightarrow> 'a option \<Rightarrow> 'a option" where
  "or_take a b = (case a of Some x \<Rightarrow> Some x | None \<Rightarrow> b)"

definition process_event :: "json \<Rightarrow> sse_parser \<Rightarrow> sse_parser" where
  "process_event value p =
     (let kind = Option.bind (jget value ''type'') as_str in
      if kind = Some ''message_start'' then
        (case jget value ''message'' of
           None \<Rightarrow> p\<lparr>sp_invalid := True\<rparr>
         | Some message \<Rightarrow>
             (let p = p\<lparr>sp_message_id := or_take (usage_string_field message ''id'') (sp_message_id p),
                        sp_model := or_take (usage_string_field message ''model'') (sp_model p)\<rparr>
              in case jget message ''usage'' of None \<Rightarrow> p | Some usage \<Rightarrow> apply_usage usage p))
      else if kind = Some ''message_delta'' then
        (let p = (case Option.bind (jget value ''delta'') stop_reason_field of
                    Some reason \<Rightarrow> p\<lparr>sp_stop_reason := Some reason\<rparr> | None \<Rightarrow> p)
         in case jget value ''usage'' of None \<Rightarrow> p | Some usage \<Rightarrow> apply_usage usage p)
      else if kind = Some ''message_stop'' then p\<lparr>sp_complete := True\<rparr>
      else p)"

definition process_line :: "serde_lib \<Rightarrow> int \<Rightarrow> sse_parser \<times> perf_cell \<Rightarrow> sse_parser \<times> perf_cell" where
  "process_line S inst pc =
     (let (p, cell) = pc in
      case line_data (sp_line p) of
        None \<Rightarrow> (p, cell)
      | Some data \<Rightarrow>
          (case sj_from_str S data of
             None \<Rightarrow> (p\<lparr>sp_invalid := True\<rparr>, cell)
           | Some value \<Rightarrow> (process_event value p, perf_observe value True inst cell)))"

definition clear_line :: "sse_parser \<times> perf_cell \<Rightarrow> sse_parser \<times> perf_cell" where
  "clear_line pc = ((fst pc)\<lparr>sp_line := []\<rparr>, snd pc)"

definition sse_stopped :: "sse_parser \<Rightarrow> bool" where
  "sse_stopped p \<longleftrightarrow> sp_invalid p \<or> sp_complete p"

fun sse_bytes :: "serde_lib \<Rightarrow> int \<Rightarrow> string \<Rightarrow> sse_parser \<times> perf_cell \<Rightarrow> sse_parser \<times> perf_cell" where
  "sse_bytes S inst [] pc = pc"
| "sse_bytes S inst (byte # bytes) (p, cell) =
     (if byte = CHR 0x0A then
        (let (p, cell) = clear_line (process_line S inst (p, cell))
         in if sse_stopped p then (p, cell) else sse_bytes S inst bytes (p, cell))
      else if length (sp_line p) \<ge> SSE_LINE_LIMIT
      then (p\<lparr>sp_line := [], sp_invalid := True, sp_oversize := True\<rparr>, cell)
      else sse_bytes S inst bytes (p\<lparr>sp_line := sp_line p @ [byte]\<rparr>, cell))"

definition sse_feed :: "serde_lib \<Rightarrow> int \<Rightarrow> string \<Rightarrow> sse_parser \<times> perf_cell \<Rightarrow> sse_parser \<times> perf_cell" where
  "sse_feed S inst bytes pc = (if sse_stopped (fst pc) then pc else sse_bytes S inst bytes pc)"

definition sse_finish :: "serde_lib \<Rightarrow> int \<Rightarrow> sse_parser \<times> perf_cell \<Rightarrow> sse_parser \<times> perf_cell" where
  "sse_finish S inst pc =
     (if \<not> sp_invalid (fst pc) \<and> \<not> sp_complete (fst pc) \<and> sp_line (fst pc) \<noteq> []
      then clear_line (process_line S inst pc) else pc)"

definition sse_parsed :: "sse_parser \<Rightarrow> parsed_usage option" where
  "sse_parsed p =
     (if sp_has_usage p
      then Some \<lparr>pr_message_id = sp_message_id p, pr_model = sp_model p, pr_tokens = sp_tokens p,
                 pr_stop_reason = sp_stop_reason p, pr_has_usage = True\<rparr>
      else None)"

section \<open>Either parser\<close>

datatype response_parser = RP_Json json_parser | RP_Sse sse_parser

fun rp_feed :: "serde_lib \<Rightarrow> int \<Rightarrow> string \<Rightarrow> response_parser \<times> perf_cell \<Rightarrow> response_parser \<times> perf_cell" where
  "rp_feed S inst bytes (RP_Json p, cell) = (RP_Json (json_feed bytes p), cell)"
| "rp_feed S inst bytes (RP_Sse p, cell) = map_prod RP_Sse id (sse_feed S inst bytes (p, cell))"

fun rp_finish :: "serde_lib \<Rightarrow> int \<Rightarrow> response_parser \<times> perf_cell \<Rightarrow> response_parser \<times> perf_cell" where
  "rp_finish S inst (RP_Json p, cell) = map_prod RP_Json id (json_finish S inst (p, cell))"
| "rp_finish S inst (RP_Sse p, cell) = map_prod RP_Sse id (sse_finish S inst (p, cell))"

fun rp_parsed :: "response_parser \<Rightarrow> parsed_usage option" where
  "rp_parsed (RP_Json p) = jp_parsed p"
| "rp_parsed (RP_Sse p) = sse_parsed p"

fun rp_is_complete :: "response_parser \<Rightarrow> bool" where
  "rp_is_complete (RP_Json p) = False"
| "rp_is_complete (RP_Sse p) = sp_complete p"

fun rp_is_invalid :: "response_parser \<Rightarrow> bool" where
  "rp_is_invalid (RP_Json p) = jp_invalid p"
| "rp_is_invalid (RP_Sse p) = sp_invalid p"

fun rp_is_oversize :: "response_parser \<Rightarrow> bool" where
  "rp_is_oversize (RP_Json p) = jp_oversize p"
| "rp_is_oversize (RP_Sse p) = sp_oversize p"

section \<open>Decoders\<close>

definition DECODE_BUFFER_SIZE :: nat where "DECODE_BUFFER_SIZE = 16 * 1024"

text \<open>
  \<open>run_on_buffers\<close> of the zstd library: the bytes it read, the bytes it decoded (at most one
  buffer) and its hint of what remains, zero at the end of a frame.
\<close>

record zstd_status =
  zs_read :: nat
  zs_written :: string
  zs_remaining :: nat

record 'd codec_lib =
  cl_gzip :: 'd
  cl_zlib :: 'd
  cl_raw :: 'd
  cl_brotli :: 'd
  cl_write :: "string \<Rightarrow> 'd \<Rightarrow> (string list \<times> bool) \<times> 'd"
  cl_finish :: "'d \<Rightarrow> (string list \<times> bool) \<times> 'd"
  cl_zstd :: "'d option"
  cl_zstd_reinit :: "'d \<Rightarrow> 'd option"
  cl_zstd_run :: "string \<Rightarrow> 'd \<Rightarrow> (zstd_status \<times> 'd) option"

type_synonym sink = "response_parser \<times> perf_cell"

text \<open>\<open>write_all\<close> on the sink: nothing is written for an empty slice.\<close>

definition sink_write :: "serde_lib \<Rightarrow> int \<Rightarrow> string \<Rightarrow> sink \<Rightarrow> bool \<times> sink" where
  "sink_write S inst bytes k =
     (if bytes = [] then (True, k)
      else let k = rp_feed S inst bytes k in (\<not> rp_is_invalid (fst k), k))"

fun sink_pieces :: "serde_lib \<Rightarrow> int \<Rightarrow> string list \<Rightarrow> sink \<Rightarrow> bool \<times> sink" where
  "sink_pieces S inst [] k = (True, k)"
| "sink_pieces S inst (b # bs) k =
     (let (ok, k) = sink_write S inst b k in if ok then sink_pieces S inst bs k else (False, k))"

definition codec_write ::
  "'d codec_lib \<Rightarrow> serde_lib \<Rightarrow> int \<Rightarrow> string \<Rightarrow> 'd \<times> sink \<Rightarrow> bool \<times> 'd \<times> sink" where
  "codec_write C S inst bytes dk =
     (if bytes = [] then (True, dk)
      else
        let (d, k) = dk;
            ((pieces, sound), d) = cl_write C bytes d;
            (ok, k) = sink_pieces S inst pieces k
        in (ok \<and> sound, d, k))"

definition codec_finish ::
  "'d codec_lib \<Rightarrow> serde_lib \<Rightarrow> int \<Rightarrow> 'd \<times> sink \<Rightarrow> bool \<times> 'd \<times> sink" where
  "codec_finish C S inst dk =
     (let (d, k) = dk;
          ((pieces, sound), d) = cl_finish C d;
          (ok, k) = sink_pieces S inst pieces k
      in (ok \<and> sound, d, k))"

text \<open>
  The loop of \<open>ZstdParserDecoder::feed\<close>. Nothing in it bounds the iterations: not returning is
  \<open>None\<close>. The result carries the decoder with its \<open>frame_complete\<close> flag.
\<close>

partial_function (option) zstd_loop ::
  "'d codec_lib \<Rightarrow> serde_lib \<Rightarrow> int \<Rightarrow> string \<Rightarrow> 'd \<times> bool \<Rightarrow> sink \<Rightarrow> (bool \<times> ('d \<times> bool) \<times> sink) option" where
  "zstd_loop C S inst bytes df k =
     (case cl_zstd_run C bytes (fst df) of
        None \<Rightarrow> Some (False, df, k)
      | Some (status, d) \<Rightarrow>
          (case sink_write S inst (zs_written status) k of
             (ok, k) \<Rightarrow>
               (let bytes = drop (zs_read status) bytes;
                    frame_complete = (zs_remaining status = 0)
                in if \<not> ok then Some (False, (d, snd df), k)
                   else if frame_complete \<and> bytes \<noteq> [] then
                     (case cl_zstd_reinit C d of
                        None \<Rightarrow> Some (False, (d, frame_complete), k)
                      | Some d \<Rightarrow> zstd_loop C S inst bytes (d, False) k)
                   else if bytes = [] then
                     (if length (zs_written status) = DECODE_BUFFER_SIZE
                      then zstd_loop C S inst bytes (d, frame_complete) k
                      else Some (True, (d, frame_complete), k))
                   else if zs_read status = 0 \<and> zs_written status = []
                   then Some (False, (d, frame_complete), k)
                   else zstd_loop C S inst bytes (d, frame_complete) k)))"

definition zstd_feed ::
  "'d codec_lib \<Rightarrow> serde_lib \<Rightarrow> int \<Rightarrow> string \<Rightarrow> 'd \<times> bool \<Rightarrow> sink \<Rightarrow> (bool \<times> ('d \<times> bool) \<times> sink) option" where
  "zstd_feed C S inst bytes df k =
     (if snd df \<and> bytes \<noteq> [] then
        (case cl_zstd_reinit C (fst df) of
           None \<Rightarrow> Some (False, df, k)
         | Some d \<Rightarrow> zstd_loop C S inst bytes (d, False) k)
      else zstd_loop C S inst bytes df k)"

datatype 'd deflate_state = DS_Pending string | DS_Zlib 'd | DS_Raw 'd

text \<open>A zlib header: method 8, a window of at most 32 KiB, and a check value divisible by 31.\<close>

definition is_zlib_header :: "char \<Rightarrow> char \<Rightarrow> bool" where
  "is_zlib_header a b \<longleftrightarrow> (of_char a :: nat) mod 16 = 8 \<and> (of_char a :: nat) div 16 \<le> 7 \<and>
     (of_char a * 256 + of_char b :: nat) mod 31 = 0"

fun deflate_write ::
  "'d codec_lib \<Rightarrow> serde_lib \<Rightarrow> int \<Rightarrow> string \<Rightarrow> 'd deflate_state \<times> sink \<Rightarrow> bool \<times> 'd deflate_state \<times> sink" where
  "deflate_write C S inst bytes (DS_Zlib d, k) =
     (let (ok, d, k) = codec_write C S inst bytes (d, k) in (ok, DS_Zlib d, k))"
| "deflate_write C S inst bytes (DS_Raw d, k) =
     (let (ok, d, k) = codec_write C S inst bytes (d, k) in (ok, DS_Raw d, k))"
| "deflate_write C S inst bytes (DS_Pending pfx, k) = (False, DS_Pending pfx, k)"

text \<open>
  The first two bytes choose the format. The recursive calls of the code are on a state that is no
  longer pending, \<open>deflate_write\<close>.
\<close>

fun deflate_feed ::
  "'d codec_lib \<Rightarrow> serde_lib \<Rightarrow> int \<Rightarrow> string \<Rightarrow> 'd deflate_state \<times> sink \<Rightarrow> bool \<times> 'd deflate_state \<times> sink" where
  "deflate_feed C S inst bytes (DS_Pending pfx, k) =
     (let consumed = min (2 - length pfx) (length bytes);
          pfx = pfx @ take consumed bytes
      in if length pfx < 2 then (True, DS_Pending pfx, k)
         else
           let st = (if is_zlib_header (pfx ! 0) (pfx ! 1) then DS_Zlib (cl_zlib C) else DS_Raw (cl_raw C));
               (ok, st, k) = deflate_write C S inst pfx (st, k)
           in if ok then deflate_write C S inst (drop consumed bytes) (st, k) else (False, st, k))"
| "deflate_feed C S inst bytes (st, k) = deflate_write C S inst bytes (st, k)"

fun deflate_finish ::
  "'d codec_lib \<Rightarrow> serde_lib \<Rightarrow> int \<Rightarrow> 'd deflate_state \<times> sink \<Rightarrow> bool \<times> 'd deflate_state \<times> sink" where
  "deflate_finish C S inst (DS_Pending pfx, k) = (False, DS_Pending pfx, k)"
| "deflate_finish C S inst (DS_Zlib d, k) =
     (let (ok, d, k) = codec_finish C S inst (d, k) in (ok, DS_Zlib d, k))"
| "deflate_finish C S inst (DS_Raw d, k) =
     (let (ok, d, k) = codec_finish C S inst (d, k) in (ok, DS_Raw d, k))"

datatype 'd decoder =
    D_Identity
  | D_Gzip 'd
  | D_Deflate "'d deflate_state"
  | D_Brotli 'd
  | D_Zstd "'d \<times> bool"

fun decoder_feed ::
  "'d codec_lib \<Rightarrow> serde_lib \<Rightarrow> int \<Rightarrow> string \<Rightarrow> 'd decoder \<times> sink \<Rightarrow> (bool \<times> 'd decoder \<times> sink) option" where
  "decoder_feed C S inst bytes (D_Identity, k) =
     (let (ok, k) = sink_write S inst bytes k in Some (ok, D_Identity, k))"
| "decoder_feed C S inst bytes (D_Gzip d, k) =
     (let (ok, d, k) = codec_write C S inst bytes (d, k) in Some (ok, D_Gzip d, k))"
| "decoder_feed C S inst bytes (D_Deflate st, k) =
     (let (ok, st, k) = deflate_feed C S inst bytes (st, k) in Some (ok, D_Deflate st, k))"
| "decoder_feed C S inst bytes (D_Brotli d, k) =
     (let (ok, d, k) = codec_write C S inst bytes (d, k) in Some (ok, D_Brotli d, k))"
| "decoder_feed C S inst bytes (D_Zstd df, k) =
     map_option (\<lambda>(ok, df, k). (ok, D_Zstd df, k)) (zstd_feed C S inst bytes df k)"

fun decoder_finish ::
  "'d codec_lib \<Rightarrow> serde_lib \<Rightarrow> int \<Rightarrow> 'd decoder \<times> sink \<Rightarrow> bool \<times> 'd decoder \<times> sink" where
  "decoder_finish C S inst (D_Identity, k) = (True, D_Identity, k)"
| "decoder_finish C S inst (D_Gzip d, k) =
     (let (ok, d, k) = codec_finish C S inst (d, k) in (ok, D_Gzip d, k))"
| "decoder_finish C S inst (D_Deflate st, k) =
     (let (ok, st, k) = deflate_finish C S inst (st, k) in (ok, D_Deflate st, k))"
| "decoder_finish C S inst (D_Brotli d, k) =
     (let (ok, d, k) = codec_finish C S inst (d, k) in (ok, D_Brotli d, k))"
| "decoder_finish C S inst (D_Zstd df, k) = (snd df, D_Zstd df, k)"

record 'd encoded_parser =
  ep_decoder :: "'d decoder"
  ep_parser :: response_parser
  ep_decode_failed :: bool
  ep_requires_terminal_validation :: bool

definition encoded_parser_new ::
  "'d codec_lib \<Rightarrow> response_parser \<Rightarrow> usage_content_encoding \<Rightarrow> 'd encoded_parser" where
  "encoded_parser_new C parser encoding =
     (let mk = (\<lambda>d p failed. \<lparr>ep_decoder = d, ep_parser = p, ep_decode_failed = failed,
            ep_requires_terminal_validation = (encoding \<noteq> CE_Identity)\<rparr>)
      in case encoding of
           CE_Identity \<Rightarrow> mk D_Identity parser False
         | CE_Gzip \<Rightarrow> mk (D_Gzip (cl_gzip C)) parser False
         | CE_Deflate \<Rightarrow> mk (D_Deflate (DS_Pending [])) parser False
         | CE_Brotli \<Rightarrow> mk (D_Brotli (cl_brotli C)) parser False
         | CE_Zstd \<Rightarrow> (case cl_zstd C of
                          Some d \<Rightarrow> mk (D_Zstd (d, False)) parser False
                        | None \<Rightarrow> mk D_Identity (RP_Json json_parser_default) True)
         | CE_Unsupported \<Rightarrow> mk D_Identity parser True)"

definition encoded_feed ::
  "'d codec_lib \<Rightarrow> serde_lib \<Rightarrow> int \<Rightarrow> string \<Rightarrow> 'd encoded_parser \<times> perf_cell
     \<Rightarrow> ('d encoded_parser \<times> perf_cell) option" where
  "encoded_feed C S inst bytes ec =
     (let (ep, cell) = ec in
      if ep_decode_failed ep then Some (ep, cell)
      else map_option (\<lambda>(ok, d, (p, cell)).
             (ep\<lparr>ep_decoder := d, ep_parser := p, ep_decode_failed := \<not> ok\<rparr>, cell))
             (decoder_feed C S inst bytes (ep_decoder ep, (ep_parser ep, cell))))"

definition encoded_finish ::
  "'d codec_lib \<Rightarrow> serde_lib \<Rightarrow> int \<Rightarrow> bool \<Rightarrow> 'd encoded_parser \<times> perf_cell \<Rightarrow> 'd encoded_parser \<times> perf_cell" where
  "encoded_finish C S inst allow_incomplete_transport ec =
     (let (ep, cell) = ec;
          usage_observed = (rp_parsed (ep_parser ep) \<noteq> None);
          (ep, cell) =
            (if ep_decode_failed ep then (ep, cell)
             else
               let (ok, d, (p, cell)) = decoder_finish C S inst (ep_decoder ep, (ep_parser ep, cell))
               in (ep\<lparr>ep_decoder := d, ep_parser := p,
                      ep_decode_failed := (\<not> ok \<and> \<not> (allow_incomplete_transport \<and> usage_observed))\<rparr>, cell))
      in if ep_decode_failed ep then (ep, cell)
         else let (p, cell) = rp_finish S inst (ep_parser ep, cell) in (ep\<lparr>ep_parser := p\<rparr>, cell))"

definition encoded_parsed :: "'d encoded_parser \<Rightarrow> parsed_usage option" where
  "encoded_parsed ep = rp_parsed (ep_parser ep)"

definition encoded_is_complete :: "'d encoded_parser \<Rightarrow> bool" where
  "encoded_is_complete ep \<longleftrightarrow> \<not> ep_decode_failed ep \<and> rp_is_complete (ep_parser ep)"

definition can_finalize_early :: "'d encoded_parser \<Rightarrow> bool" where
  "can_finalize_early ep \<longleftrightarrow> \<not> ep_requires_terminal_validation ep"

definition encoded_is_invalid :: "'d encoded_parser \<Rightarrow> bool" where
  "encoded_is_invalid ep \<longleftrightarrow> ep_decode_failed ep \<or> rp_is_invalid (ep_parser ep)"

definition encoded_is_oversize :: "'d encoded_parser \<Rightarrow> bool" where
  "encoded_is_oversize ep \<longleftrightarrow> rp_is_oversize (ep_parser ep)"

end
