(* ===== verification/Usage_Store.thy ===== *)
theory Usage_Store
  imports Pricing "HOL-Library.Product_Lexorder"
begin

text \<open>
  The table of usage events (\<open>src/store/usage_store.rs\<close> with the schema of \<open>src/store/db.rs\<close> and the
  row types of \<open>src/model/usage.rs\<close>).

  A table is the list of its rows in the order of their identifiers. Each method runs its
  statements in one transaction or as one statement: \<open>fault\<close> is the error the database reports,
  with the table unchanged, and \<open>None\<close> a success. \<open>NULL\<close> is \<open>None\<close>; the text forms of the times and
  the casts that differ between SQLite and PostgreSQL are not represented.
\<close>

section \<open>Rows\<close>

record usage_event =
  ue_dedup_key :: string
  ue_upstream_message_id :: "string option"
  ue_upstream_request_id :: "string option"
  ue_occurred_at_utc :: int
  ue_sg_day :: int
  ue_account_id :: int
  ue_api_token_id :: int
  ue_model :: string
  ue_tokens :: usage_tokens
  ue_costs :: usage_costs
  ue_pricing_version :: string
  ue_pricing_model_key :: "string option"
  ue_http_status :: nat
  ue_is_stream :: bool

text \<open>A stored event: the columns of the event (\<open>costs.unpriced_tokens\<close> is not one of them) and its key.\<close>

record usage_row =
  ur_id :: int
  ur_event :: usage_event

record unpriced_usage_event =
  un_id :: int
  un_model :: string
  un_tokens :: usage_tokens

record usage_pricing_update =
  pu_id :: int
  pu_new_costs :: usage_costs
  pu_new_version :: string
  pu_new_model_key :: string

record usage_store =
  us_rows :: "usage_row list"
  us_next_id :: int
  us_pricing_cache :: "(string \<times> string \<times> int) option"

definition usage_store_new :: usage_store where
  "usage_store_new = \<lparr>us_rows = [], us_next_id = 1, us_pricing_cache = None\<rparr>"

text \<open>The \<open>CHECK\<close> constraints of the table.\<close>

definition cost_check :: "int option \<Rightarrow> bool" where
  "cost_check v = (case v of None \<Rightarrow> True | Some x \<Rightarrow> 0 \<le> x)"

definition costs_valid :: "usage_costs \<Rightarrow> bool" where
  "costs_valid c \<longleftrightarrow> cost_check (uc_input c) \<and> cost_check (uc_output c) \<and>
     cost_check (uc_cache_creation_5m c) \<and> cost_check (uc_cache_creation_1h c) \<and>
     cost_check (uc_cache_read c) \<and> 0 \<le> uc_known_nano_usd c"

definition event_valid :: "usage_event \<Rightarrow> bool" where
  "event_valid e \<longleftrightarrow>
     0 \<le> ut_input (ue_tokens e) \<and> 0 \<le> ut_output (ue_tokens e) \<and>
     0 \<le> ut_cache_creation_5m (ue_tokens e) \<and> 0 \<le> ut_cache_creation_1h (ue_tokens e) \<and>
     0 \<le> ut_cache_read (ue_tokens e) \<and> costs_valid (ue_costs e) \<and>
     100 \<le> ue_http_status e \<and> ue_http_status e \<le> 599"

section \<open>Writing\<close>

text \<open>\<open>INSERT \<dots> ON CONFLICT (dedup_key) DO NOTHING\<close>, with the rows affected.\<close>

definition insert_event :: "usage_event \<Rightarrow> usage_store \<Rightarrow> nat \<times> usage_store" where
  "insert_event e st =
     (if \<exists>r \<in> set (us_rows st). ue_dedup_key (ur_event r) = ue_dedup_key e then (0, st)
      else (1, st\<lparr>us_rows := us_rows st @ [\<lparr>ur_id = us_next_id st, ur_event = e\<rparr>],
                  us_next_id := us_next_id st + 1\<rparr>))"

fun insert_events :: "usage_event list \<Rightarrow> usage_store \<Rightarrow> nat \<times> usage_store" where
  "insert_events [] st = (0, st)"
| "insert_events (e # es) st =
     (let (n, st) = insert_event e st; (k, st) = insert_events es st in (n + k, st))"

definition check_error :: app_error where
  "check_error = app_error_from_sqlx (SqlxOther ''CHECK constraint failed: usage_events'')"

text \<open>
  One event that violates a constraint fails the transaction of the whole batch. \<open>fault\<close> is an error after which the transaction
  is rolled back; a commit that takes effect while its answer is lost, so that the writer's next attempt finds its own events as
  duplicates, is not represented.
\<close>

definition insert_batch ::
  "sqlx_error option \<Rightarrow> usage_event list \<Rightarrow> usage_store \<Rightarrow> (app_error + nat \<times> nat) \<times> usage_store" where
  "insert_batch fault events st =
     (if events = [] then (Inr (0, 0), st)
      else case fault of
             Some e \<Rightarrow> (Inl (app_error_from_sqlx e), st)
           | None \<Rightarrow>
               if \<not> list_all event_valid events then (Inl check_error, st)
               else let (inserted, st) = insert_events events st
                    in (Inr (inserted, length events - inserted), st))"

definition delete_before ::
  "sqlx_error option \<Rightarrow> int \<Rightarrow> int \<Rightarrow> usage_store \<Rightarrow> (app_error + nat) \<times> usage_store" where
  "delete_before fault min_sg_day batch_size st =
     (case fault of
        Some e \<Rightarrow> (Inl (app_error_from_sqlx e), st)
      | None \<Rightarrow>
          (let old = sort_key ur_id (filter (\<lambda>r. ue_sg_day (ur_event r) < min_sg_day) (us_rows st));
               doomed = map ur_id (take (nat batch_size) old)
           in (Inr (length doomed), st\<lparr>us_rows := filter (\<lambda>r. ur_id r \<notin> set doomed) (us_rows st)\<rparr>)))"

definition load_pricing_snapshot :: "sqlx_error option \<Rightarrow> usage_store \<Rightarrow> app_error + string option" where
  "load_pricing_snapshot fault st =
     (case fault of
        Some e \<Rightarrow> Inl (app_error_from_sqlx e)
      | None \<Rightarrow> Inr (map_option fst (us_pricing_cache st)))"

definition save_pricing_snapshot ::
  "sqlx_error option \<Rightarrow> string \<Rightarrow> string \<Rightarrow> int \<Rightarrow> usage_store \<Rightarrow> (app_error + unit) \<times> usage_store" where
  "save_pricing_snapshot fault snapshot_json pricing_version fetched_at st =
     (case fault of
        Some e \<Rightarrow> (Inl (app_error_from_sqlx e), st)
      | None \<Rightarrow> (Inr (), st\<lparr>us_pricing_cache := Some (snapshot_json, pricing_version, fetched_at)\<rparr>))"

definition unpriced_events_after ::
  "sqlx_error option \<Rightarrow> int \<Rightarrow> nat \<Rightarrow> usage_store \<Rightarrow> app_error + unpriced_usage_event list" where
  "unpriced_events_after fault after_id limit st =
     (case fault of
        Some e \<Rightarrow> Inl (app_error_from_sqlx e)
      | None \<Rightarrow>
          Inr (map (\<lambda>r. \<lparr>un_id = ur_id r, un_model = ue_model (ur_event r), un_tokens = ue_tokens (ur_event r)\<rparr>)
            (take limit (sort_key ur_id
              (filter (\<lambda>r. \<not> uc_complete (ue_costs (ur_event r)) \<and> ur_id r > after_id) (us_rows st))))))"

text \<open>\<open>UPDATE \<dots> WHERE id = $1 AND cost_complete = 0\<close>.\<close>

definition price_row :: "usage_pricing_update \<Rightarrow> usage_row \<Rightarrow> usage_row" where
  "price_row u r =
     (if ur_id r = pu_id u \<and> \<not> uc_complete (ue_costs (ur_event r))
      then r\<lparr>ur_event := (ur_event r)\<lparr>ue_costs := pu_new_costs u, ue_pricing_version := pu_new_version u,
               ue_pricing_model_key := Some (pu_new_model_key u)\<rparr>\<rparr>
      else r)"

definition apply_update :: "usage_pricing_update \<Rightarrow> usage_store \<Rightarrow> nat \<times> usage_store" where
  "apply_update u st =
     (length (filter (\<lambda>r. ur_id r = pu_id u \<and> \<not> uc_complete (ue_costs (ur_event r))) (us_rows st)),
      st\<lparr>us_rows := map (price_row u) (us_rows st)\<rparr>)"

fun apply_updates :: "usage_pricing_update list \<Rightarrow> usage_store \<Rightarrow> nat \<times> usage_store" where
  "apply_updates [] st = (0, st)"
| "apply_updates (u # us) st =
     (let (n, st) = apply_update u st; (k, st) = apply_updates us st in (n + k, st))"

definition apply_pricing_updates ::
  "sqlx_error option \<Rightarrow> usage_pricing_update list \<Rightarrow> usage_store \<Rightarrow> (app_error + nat) \<times> usage_store" where
  "apply_pricing_updates fault updates st =
     (if updates = [] then (Inr 0, st)
      else case fault of
             Some e \<Rightarrow> (Inl (app_error_from_sqlx e), st)
           | None \<Rightarrow>
               if \<not> list_all (\<lambda>u. costs_valid (pu_new_costs u)) updates then (Inl check_error, st)
               else let (n, st) = apply_updates updates st in (Inr n, st))"

section \<open>Reports\<close>

datatype usage_group_by = GB_Account | GB_ApiToken | GB_Model

record usage_filters =
  uf_start_sg_day :: int
  uf_end_sg_day :: int
  uf_account_id :: "int option"
  uf_api_token_id :: "int option"
  uf_model :: "string option"
  uf_group_by :: usage_group_by

record daily_usage_row =
  dr_sg_day :: int
  dr_group_id :: int
  dr_group_text :: string
  dr_metrics :: usage_metrics

definition filter_matches :: "usage_filters \<Rightarrow> usage_event \<Rightarrow> bool" where
  "filter_matches f e \<longleftrightarrow>
     uf_start_sg_day f \<le> ue_sg_day e \<and> ue_sg_day e \<le> uf_end_sg_day f \<and>
     (case uf_account_id f of None \<Rightarrow> True | Some i \<Rightarrow> ue_account_id e = i) \<and>
     (case uf_api_token_id f of None \<Rightarrow> True | Some i \<Rightarrow> ue_api_token_id e = i) \<and>
     (case uf_model f of None \<Rightarrow> True | Some m \<Rightarrow> ue_model e = m)"

text \<open>The columns \<open>sg_day\<close>, \<open>group_id\<close>, \<open>group_text\<close>, which are also what the query groups and orders by.\<close>

definition day_group :: "usage_group_by \<Rightarrow> usage_event \<Rightarrow> int \<times> int \<times> string" where
  "day_group g e =
     (ue_sg_day e,
      case g of GB_Account \<Rightarrow> (ue_account_id e, []) | GB_ApiToken \<Rightarrow> (ue_api_token_id e, [])
      | GB_Model \<Rightarrow> (0, ue_model e))"

definition unpriced_part :: "int option \<Rightarrow> int \<Rightarrow> int" where
  "unpriced_part cost tokens = (case cost of None \<Rightarrow> tokens | Some _ \<Rightarrow> 0)"

definition event_unpriced_tokens :: "usage_event \<Rightarrow> int" where
  "event_unpriced_tokens e =
     (let c = ue_costs e; t = ue_tokens e
      in unpriced_part (uc_input c) (ut_input t) + unpriced_part (uc_output c) (ut_output t) +
         unpriced_part (uc_cache_creation_5m c) (ut_cache_creation_5m t) +
         unpriced_part (uc_cache_creation_1h c) (ut_cache_creation_1h t) +
         unpriced_part (uc_cache_read c) (ut_cache_read t))"

text \<open>The sums of one group, before they are read as \<open>i64\<close>.\<close>

definition group_metrics :: "usage_event list \<Rightarrow> usage_metrics" where
  "group_metrics es =
     (let total_of = (\<lambda>f. sum_list (map f es));
          unpriced = total_of (\<lambda>e. if uc_complete (ue_costs e) then 0 else 1)
      in \<lparr>um_request_count = int (length es),
          um_tokens = \<lparr>ut_input = total_of (\<lambda>e. ut_input (ue_tokens e)),
                       ut_output = total_of (\<lambda>e. ut_output (ue_tokens e)),
                       ut_cache_creation_5m = total_of (\<lambda>e. ut_cache_creation_5m (ue_tokens e)),
                       ut_cache_creation_1h = total_of (\<lambda>e. ut_cache_creation_1h (ue_tokens e)),
                       ut_cache_read = total_of (\<lambda>e. ut_cache_read (ue_tokens e))\<rparr>,
          um_known_cost_nano_usd = total_of (\<lambda>e. uc_known_nano_usd (ue_costs e)),
          um_cost_complete = (unpriced = 0),
          um_unpriced_request_count = unpriced,
          um_unpriced_tokens = total_of event_unpriced_tokens\<rparr>)"

definition metrics_fields :: "usage_metrics \<Rightarrow> int list" where
  "metrics_fields m =
     [um_request_count m, ut_input (um_tokens m), ut_output (um_tokens m),
      ut_cache_creation_5m (um_tokens m), ut_cache_creation_1h (um_tokens m), ut_cache_read (um_tokens m),
      um_known_cost_nano_usd m, um_unpriced_request_count m, um_unpriced_tokens m]"

definition overflow_error :: app_error where
  "overflow_error = app_error_from_sqlx (SqlxOther ''number too large to fit in target type'')"

definition aggregate_daily ::
  "sqlx_error option \<Rightarrow> usage_filters \<Rightarrow> usage_store \<Rightarrow> app_error + daily_usage_row list" where
  "aggregate_daily fault f st =
     (case fault of
        Some e \<Rightarrow> Inl (app_error_from_sqlx e)
      | None \<Rightarrow>
          (let es = filter (filter_matches f) (map ur_event (us_rows st));
               keys = sort (remdups (map (day_group (uf_group_by f)) es));
               rows = map (\<lambda>k. \<lparr>dr_sg_day = fst k, dr_group_id = fst (snd k), dr_group_text = snd (snd k),
                        dr_metrics = group_metrics (filter (\<lambda>e. day_group (uf_group_by f) e = k) es)\<rparr>) keys
           in if list_all (\<lambda>r. list_all i64_range (metrics_fields (dr_metrics r))) rows
              then Inr rows else Inl overflow_error))"

record usage_dimension_option =
  ud_id :: int
  ud_label :: string

record usage_dimensions =
  di_accounts :: "usage_dimension_option list"
  di_api_tokens :: "usage_dimension_option list"
  di_models :: "string list"

text \<open>
  The identifiers of recent events and of the named table (\<open>names\<close>: its identifiers and names), each
  with its name or, when that is missing or empty, a made-up label; by label.
\<close>

definition dimension_options ::
  "string \<Rightarrow> int list \<Rightarrow> (int \<times> string) list \<Rightarrow> usage_dimension_option list" where
  "dimension_options label_prefix used names =
     sort_key ud_label (map (\<lambda>i. \<lparr>ud_id = i,
        ud_label = (case map_of names i of
                      Some n \<Rightarrow> if n \<noteq> [] then n else label_prefix @ int_to_string i
                    | None \<Rightarrow> label_prefix @ int_to_string i)\<rparr>)
       (remdups (used @ map fst names)))"

definition account_label :: string where
  "account_label = [CHR 0xE8, CHR 0xB4, CHR 0xA6, CHR 0xE5, CHR 0x8F, CHR 0xB7] @ '' #''"

definition dimensions ::
  "sqlx_error option \<Rightarrow> int \<Rightarrow> (int \<times> string) list \<Rightarrow> (int \<times> string) list \<Rightarrow> usage_store
     \<Rightarrow> app_error + usage_dimensions" where
  "dimensions fault min_sg_day account_names token_names st =
     (case fault of
        Some e \<Rightarrow> Inl (app_error_from_sqlx e)
      | None \<Rightarrow>
          (let es = filter (\<lambda>e. ue_sg_day e \<ge> min_sg_day) (map ur_event (us_rows st))
           in Inr \<lparr>di_accounts = dimension_options account_label (map ue_account_id es) account_names,
                   di_api_tokens = dimension_options ''Token #'' (map ue_api_token_id es) token_names,
                   di_models = sort (remdups (map ue_model es))\<rparr>))"

section \<open>Lemmas\<close>

text \<open>Identifiers grow with the rows and no two rows share a deduplication key.\<close>

definition row_key :: "usage_row \<Rightarrow> string" where
  "row_key r = ue_dedup_key (ur_event r)"

definition usage_wf :: "usage_store \<Rightarrow> bool" where
  "usage_wf st \<longleftrightarrow> sorted_wrt (<) (map ur_id (us_rows st)) \<and> (\<forall>r \<in> set (us_rows st). ur_id r < us_next_id st) \<and>
     distinct (map row_key (us_rows st)) \<and> (\<forall>r \<in> set (us_rows st). event_valid (ur_event r))"

lemma usage_wf_new: "usage_wf usage_store_new"
  by (simp add: usage_wf_def usage_store_new_def)

lemma insert_event_wf: "usage_wf st \<Longrightarrow> event_valid e \<Longrightarrow> usage_wf (snd (insert_event e st))"
  by (auto simp: usage_wf_def insert_event_def row_key_def sorted_wrt_append)

lemma insert_events_wf: "usage_wf st \<Longrightarrow> list_all event_valid es \<Longrightarrow> usage_wf (snd (insert_events es st))"
proof (induction es arbitrary: st)
  case (Cons e es)
  then show ?case
    using insert_event_wf [of st e] by (auto split: prod.split) (metis snd_conv)
qed simp

definition keys_of :: "usage_store \<Rightarrow> string set" where
  "keys_of st = row_key ` set (us_rows st)"

lemma insert_event_keys: "keys_of (snd (insert_event e st)) = insert (ue_dedup_key e) (keys_of st)"
  by (auto simp: insert_event_def keys_of_def row_key_def image_iff) metis

lemma insert_events_keys: "keys_of (snd (insert_events es st)) = ue_dedup_key ` set es \<union> keys_of st"
proof (induction es arbitrary: st)
  case (Cons e es)
  then show ?case
    by (auto simp: split_beta insert_event_keys)
qed simp

lemma insert_events_known:
  "ue_dedup_key ` set es \<subseteq> keys_of st \<Longrightarrow> insert_events es st = (0, st)"
proof (induction es)
  case (Cons e es)
  then have "insert_event e st = (0, st)"
    by (auto simp: insert_event_def keys_of_def row_key_def)
  then show ?case
    using Cons by simp
qed simp

lemma insert_events_le: "fst (insert_events es st) \<le> length es"
proof (induction es arbitrary: st)
  case (Cons e es)
  then show ?case
    by (auto simp: split_beta insert_event_def)
       (metis le_SucI)+
qed simp

lemma insert_events_rows: "\<exists>new. us_rows (snd (insert_events es st)) = us_rows st @ new \<and> length new = fst (insert_events es st)"
proof (induction es arbitrary: st)
  case (Cons e es)
  obtain new where "us_rows (snd (insert_events es (snd (insert_event e st)))) = us_rows (snd (insert_event e st)) @ new"
    "length new = fst (insert_events es (snd (insert_event e st)))"
    using Cons by blast
  then show ?case
    by (auto simp: split_beta insert_event_def split: if_splits)
qed simp

section \<open>Properties\<close>

text \<open>
  C8. An event is recorded once. A batch that is written adds one row for each deduplication key
  that was not there yet and leaves the rows that were; every event of it is then present, no two rows
  share a key, and writing the batch again, as a retry after a lost answer does, adds nothing.
\<close>

theorem usage_recorded_once:
  assumes "usage_wf st" "insert_batch None es st = (Inr (inserted, duplicates), st')"
  shows "inserted + duplicates = length es \<and>
    (\<exists>new. us_rows st' = us_rows st @ new \<and> length new = inserted) \<and>
    row_key ` set (us_rows st') = ue_dedup_key ` set es \<union> row_key ` set (us_rows st) \<and>
    distinct (map row_key (us_rows st')) \<and>
    insert_batch None es st' = (Inr (0, length es), st')"
proof (cases "es = []")
  case True
  then show ?thesis
    using assms by (simp add: insert_batch_def usage_wf_def)
next
  case False
  then have valid: "list_all event_valid es" and ins: "insert_events es st = (inserted, st')"
    and dup: "duplicates = length es - inserted"
    using assms(2) by (auto simp: insert_batch_def split: if_splits prod.splits)
  have "insert_events es st' = (0, st')"
    using insert_events_keys [of es st] ins by (intro insert_events_known) auto
  then have again: "insert_batch None es st' = (Inr (0, length es), st')"
    using False valid by (simp add: insert_batch_def)
  show ?thesis
    using again dup insert_events_le [of es st] insert_events_rows [of es st] insert_events_keys [of es st]
      insert_events_wf [OF assms(1) valid] ins
    by (auto simp: keys_of_def usage_wf_def)
qed

definition example_event :: "string \<Rightarrow> usage_event" where
  "example_event k =
     \<lparr>ue_dedup_key = k, ue_upstream_message_id = None, ue_upstream_request_id = None,
      ue_occurred_at_utc = 0, ue_sg_day = 0, ue_account_id = 1, ue_api_token_id = 2, ue_model = ''m'',
      ue_tokens = default_tokens\<lparr>ut_output := 7\<rparr>,
      ue_costs = \<lparr>uc_input = None, uc_output = None, uc_cache_creation_5m = None, uc_cache_creation_1h = None,
                  uc_cache_read = None, uc_known_nano_usd = 0, uc_complete = False, uc_unpriced_tokens = 7\<rparr>,
      ue_pricing_version = ''v'', ue_pricing_model_key = None, ue_http_status = 200, ue_is_stream = True\<rparr>"

lemma example_event_valid: "event_valid (example_event k)"
  by (simp add: event_valid_def example_event_def costs_valid_def cost_check_def default_tokens_def)

theorem usage_recorded_once_witness:
  "\<exists>st'. insert_batch None [example_event ''a'', example_event ''b'', example_event ''a''] usage_store_new = (Inr (2, 1), st') \<and>
     insert_batch None [example_event ''a'', example_event ''b'', example_event ''a''] st' = (Inr (0, 3), st')"
proof -
  have key: "ue_dedup_key (example_event k) = k" for k by (simp add: example_event_def)
  obtain st' where st': "insert_batch None [example_event ''a'', example_event ''b'', example_event ''a'']
      usage_store_new = (Inr (2, 1), st')"
    by (simp add: insert_batch_def insert_event_def usage_store_new_def example_event_valid key)
  then show ?thesis
    using usage_recorded_once [OF usage_wf_new st'] by auto
qed

end
