(* ===== verification/Usage_Service.thy ===== *)
theory Usage_Service
  imports Usage_Parser Usage_Store
begin

text \<open>
  The usage service (\<open>src/service/usage.rs\<close>): the observer of one response and the stream wrapper that
  drives it, the event a response becomes, the writer task, the pricing refresh with its backfill,
  the retention task and the report.

  The service's state is \<open>usage_service\<close>; the store is passed beside it. The bounded channels'
  answers to \<open>try_send\<close> and the clocks are in \<open>obs_ctx\<close>, one per call; a channel's accepted messages
  are kept in order. A date is its number of days since 1970-01-01; what the calendar library says
  of a date is the parameter \<open>calendar\<close>.
\<close>

section \<open>Attempts and observations\<close>

record usage_attempt =
  ua_attempt_id :: string
  ua_occurred_at_utc :: int
  ua_started_at :: int
  ua_telemetry_enabled :: bool
  ua_account_id :: int
  ua_api_token_id :: int
  ua_request_model :: string
  ua_upstream_request_id :: "string option"
  ua_http_status :: nat
  ua_is_stream :: bool
  ua_content_encoding :: usage_content_encoding

definition attempt_begin :: "string \<Rightarrow> int \<Rightarrow> int \<Rightarrow> int \<Rightarrow> int \<Rightarrow> string \<Rightarrow> bool \<Rightarrow> usage_attempt" where
  "attempt_begin uuid now inst account_id api_token_id request_model is_stream =
     \<lparr>ua_attempt_id = uuid, ua_occurred_at_utc = now, ua_started_at = inst, ua_telemetry_enabled = False,
      ua_account_id = account_id, ua_api_token_id = api_token_id, ua_request_model = request_model,
      ua_upstream_request_id = None, ua_http_status = 0, ua_is_stream = is_stream,
      ua_content_encoding = CE_Identity\<rparr>"

definition complete_response ::
  "nat \<Rightarrow> string option \<Rightarrow> usage_content_encoding \<Rightarrow> usage_attempt \<Rightarrow> usage_attempt" where
  "complete_response http_status upstream_request_id content_encoding a =
     a\<lparr>ua_http_status := http_status, ua_upstream_request_id := upstream_request_id,
       ua_content_encoding := content_encoding\<rparr>"

record completed_observation =
  cb_correlation_id :: string
  cb_account_id :: int
  cb_completed_at_utc :: int
  cb_model :: string
  cb_upstream_request_id :: "string option"
  cb_tokens :: "usage_tokens option"
  cb_cost_nano_usd :: "int option"
  cb_duration_ms :: int
  cb_ttft_ms :: "int option"
  cb_stop_reason :: "string option"
  cb_http_status :: nat
  cb_is_stream :: bool
  cb_client_dropped :: bool

section \<open>The service\<close>

record usage_health =
  uh_observed :: nat
  uh_persisted :: nat
  uh_duplicate :: nat
  uh_queue_dropped :: nat
  uh_write_failed :: nat
  uh_parse_failed :: nat
  uh_parse_oversize :: nat

definition usage_health_default :: usage_health where
  "usage_health_default = \<lparr>uh_observed = 0, uh_persisted = 0, uh_duplicate = 0, uh_queue_dropped = 0,
     uh_write_failed = 0, uh_parse_failed = 0, uh_parse_oversize = 0\<rparr>"

text \<open>
  \<open>uv_completions\<close> is the channel to the telemetry service, if there is one; \<open>uv_audit_calls\<close> are the
  observations handed to the audit when that channel refuses.
\<close>

record usage_service =
  uv_pricing :: pricing_engine
  uv_queue :: "usage_event list"
  uv_completions :: "completed_observation list option"
  uv_audit :: bool
  uv_audit_calls :: "(int \<times> string \<times> bool) list"
  uv_health :: usage_health
  uv_since_utc :: int

record obs_ctx =
  cx_now :: int
  cx_inst :: int
  cx_queued :: bool
  cx_completion_sent :: bool

text \<open>\<open>start_inner\<close>: the cached price list is used when it is readable and valid.\<close>

definition usage_start ::
  "serde_lib \<Rightarrow> sqlx_error option \<Rightarrow> int \<Rightarrow> pricing_engine \<Rightarrow> bool \<Rightarrow> bool \<Rightarrow> usage_store \<Rightarrow> usage_service outcome" where
  "usage_start S fault now pricing completion audit st =
     outcome_bind
       (case load_pricing_snapshot fault st of
          Inr (Some json) \<Rightarrow>
            (case snapshot_from_json S json of
               Inl _ \<Rightarrow> Done pricing
             | Inr snapshot \<Rightarrow>
                 outcome_bind (with_snapshot pricing snapshot)
                   (\<lambda>r. Done (case r of Inr cached \<Rightarrow> cached | Inl _ \<Rightarrow> pricing)))
        | _ \<Rightarrow> Done pricing)
       (\<lambda>pricing. Done
          \<lparr>uv_pricing = pricing, uv_queue = [], uv_completions = (if completion then Some [] else None),
           uv_audit = audit, uv_audit_calls = [], uv_health = usage_health_default, uv_since_utc = now\<rparr>)"

definition on_health :: "(usage_health \<Rightarrow> usage_health) \<Rightarrow> usage_service \<Rightarrow> usage_service" where
  "on_health f svc = svc\<lparr>uv_health := f (uv_health svc)\<rparr>"

text \<open>The day in Singapore, \<open>i32::try_from(..).unwrap_or(i32::MAX)\<close>.\<close>

definition sg_day_from_date :: "int \<Rightarrow> int" where
  "sg_day_from_date d = (case i32_checked d of Some x \<Rightarrow> x | None \<Rightarrow> 2 ^ 31 - 1)"

definition DAY_NS :: int where "DAY_NS = 24 * 3600 * 10 ^ 9"
definition SG_OFFSET_NS :: int where "SG_OFFSET_NS = 8 * 3600 * 10 ^ 9"

definition sg_day_from_utc :: "int \<Rightarrow> int" where
  "sg_day_from_utc t = sg_day_from_date ((t + SG_OFFSET_NS) div DAY_NS)"

definition send_completion ::
  "obs_ctx \<Rightarrow> completed_observation \<Rightarrow> bool \<Rightarrow> usage_service \<Rightarrow> usage_service" where
  "send_completion cx observation enabled svc =
     (if \<not> enabled then svc
      else case uv_completions svc of
             None \<Rightarrow> svc
           | Some sent \<Rightarrow>
               if cx_completion_sent cx then svc\<lparr>uv_completions := Some (sent @ [observation])\<rparr>
               else if uv_audit svc
               then svc\<lparr>uv_audit_calls := uv_audit_calls svc @
                      [(cb_account_id observation, ''observation_dropped'', False)]\<rparr>
               else svc)"

definition event_dedup_key :: "usage_attempt \<Rightarrow> parsed_usage \<Rightarrow> string" where
  "event_dedup_key a parsed =
     (case pr_message_id parsed of
        Some message_id \<Rightarrow> ''anthropic:message:'' @ message_id
      | None \<Rightarrow>
          (case ua_upstream_request_id a of
             Some request_id \<Rightarrow> ''anthropic:request:'' @ request_id
           | None \<Rightarrow> ''attempt:'' @ ua_attempt_id a))"

definition event_model :: "usage_attempt \<Rightarrow> parsed_usage \<Rightarrow> string" where
  "event_model a parsed =
     (case pr_model parsed of
        Some m \<Rightarrow> if trim m \<noteq> [] then m else ua_request_model a
      | None \<Rightarrow> ua_request_model a)"

definition response_event :: "pricing_engine \<Rightarrow> usage_attempt \<Rightarrow> parsed_usage \<Rightarrow> usage_event" where
  "response_event pe a parsed =
     (let model = event_model a parsed; priced = price pe model (pr_tokens parsed)
      in \<lparr>ue_dedup_key = event_dedup_key a parsed, ue_upstream_message_id = pr_message_id parsed,
          ue_upstream_request_id = ua_upstream_request_id a, ue_occurred_at_utc = ua_occurred_at_utc a,
          ue_sg_day = sg_day_from_utc (ua_occurred_at_utc a), ue_account_id = ua_account_id a,
          ue_api_token_id = ua_api_token_id a, ue_model = model, ue_tokens = pr_tokens parsed,
          ue_costs = pu_costs priced, ue_pricing_version = pu_pricing_version priced,
          ue_pricing_model_key = pu_pricing_model_key priced, ue_http_status = ua_http_status a,
          ue_is_stream = ua_is_stream a\<rparr>)"

definition observation_base ::
  "obs_ctx \<Rightarrow> usage_attempt \<Rightarrow> bool \<Rightarrow> int option \<Rightarrow> completed_observation" where
  "observation_base cx a client_dropped first_byte_at =
     \<lparr>cb_correlation_id = ua_attempt_id a, cb_account_id = ua_account_id a,
      cb_completed_at_utc = cx_now cx, cb_model = ua_request_model a,
      cb_upstream_request_id = ua_upstream_request_id a, cb_tokens = None, cb_cost_nano_usd = None,
      cb_duration_ms = millis (elapsed (cx_inst cx) (ua_started_at a)),
      cb_ttft_ms = map_option (\<lambda>i. millis (elapsed i (ua_started_at a))) first_byte_at,
      cb_stop_reason = None, cb_http_status = ua_http_status a, cb_is_stream = ua_is_stream a,
      cb_client_dropped = client_dropped\<rparr>"

definition submit ::
  "obs_ctx \<Rightarrow> usage_attempt \<Rightarrow> parsed_usage \<Rightarrow> bool \<Rightarrow> int option \<Rightarrow> usage_service \<Rightarrow> usage_service" where
  "submit cx a parsed client_dropped first_byte_at svc =
     (if \<not> pr_has_usage parsed then svc
      else
        let event = response_event (uv_pricing svc) a parsed;
            completion = (observation_base cx a client_dropped first_byte_at)
              \<lparr>cb_model := ue_model event, cb_tokens := Some (pr_tokens parsed),
               cb_cost_nano_usd := (if uc_complete (ue_costs event)
                                    then Some (uc_known_nano_usd (ue_costs event)) else None),
               cb_stop_reason := pr_stop_reason parsed\<rparr>;
            svc = send_completion cx completion (ua_telemetry_enabled a) svc;
            svc = on_health (\<lambda>h. h\<lparr>uh_observed := uh_observed h + 1\<rparr>) svc
        in if cx_queued cx then svc\<lparr>uv_queue := uv_queue svc @ [event]\<rparr>
           else on_health (\<lambda>h. h\<lparr>uh_queue_dropped := uh_queue_dropped h + 1\<rparr>) svc)"

definition complete_without_usage ::
  "obs_ctx \<Rightarrow> usage_attempt \<Rightarrow> bool \<Rightarrow> int option \<Rightarrow> usage_service \<Rightarrow> usage_service" where
  "complete_without_usage cx a client_dropped first_byte_at svc =
     send_completion cx (observation_base cx a client_dropped first_byte_at) (ua_telemetry_enabled a) svc"

definition record_parse_failure :: "bool \<Rightarrow> usage_service \<Rightarrow> usage_service" where
  "record_parse_failure oversize svc =
     on_health (\<lambda>h. if oversize then h\<lparr>uh_parse_oversize := uh_parse_oversize h + 1\<rparr>
                    else h\<lparr>uh_parse_failed := uh_parse_failed h + 1\<rparr>) svc"

section \<open>The observer of a response\<close>

text \<open>
  \<open>ob_performance\<close> says whether the observer has a performance handle; the cell that handle points to
  is passed beside the observer, and is \<open>None\<close> when there is no handle or the request was finished.
\<close>

record 'd response_observer =
  ob_attempt :: "usage_attempt option"
  ob_parser :: "'d encoded_parser"
  ob_first_byte_at :: "int option"
  ob_performance :: bool

definition observer_new :: "'d codec_lib \<Rightarrow> usage_attempt \<Rightarrow> bool \<Rightarrow> 'd response_observer" where
  "observer_new C a performance =
     \<lparr>ob_attempt = Some a,
      ob_parser = encoded_parser_new C
        (if ua_is_stream a then RP_Sse sse_parser_default else RP_Json json_parser_default)
        (ua_content_encoding a),
      ob_first_byte_at = None, ob_performance = performance\<rparr>"

definition observer_finalize ::
  "obs_ctx \<Rightarrow> bool \<Rightarrow> bool \<Rightarrow> 'd response_observer \<times> usage_service \<Rightarrow> 'd response_observer \<times> usage_service" where
  "observer_finalize cx terminal client_dropped os =
     (let (ob, svc) = os;
          taken = ob\<lparr>ob_attempt := None\<rparr>;
          without = (\<lambda>a svc. complete_without_usage cx a client_dropped (ob_first_byte_at ob) svc)
      in case ob_attempt ob of
           None \<Rightarrow> (ob, svc)
         | Some a \<Rightarrow>
             if encoded_is_invalid (ob_parser ob)
             then (taken, without a (record_parse_failure (encoded_is_oversize (ob_parser ob)) svc))
             else
               case encoded_parsed (ob_parser ob) of
                 Some parsed \<Rightarrow>
                   if pr_has_usage parsed \<and> (terminal \<or> encoded_is_complete (ob_parser ob))
                   then (taken, submit cx a parsed client_dropped (ob_first_byte_at ob) svc)
                   else if terminal then (taken, without a svc)
                   else (ob, svc)
               | None \<Rightarrow> if terminal then (taken, without a svc) else (ob, svc))"

definition perf_parse_failed :: "bool \<Rightarrow> int \<Rightarrow> perf_cell \<Rightarrow> perf_cell" where
  "perf_parse_failed failed inst cell = (if failed then map_option (handle_parse_failed inst) cell else cell)"

type_synonym 'd observed = "'d response_observer \<times> perf_cell \<times> usage_service"

definition observer_feed ::
  "'d codec_lib \<Rightarrow> serde_lib \<Rightarrow> obs_ctx \<Rightarrow> string \<Rightarrow> 'd observed \<Rightarrow> 'd observed option" where
  "observer_feed C S cx bytes st =
     (let (ob, cell, svc) = st in
      if ob_attempt ob = None \<and> \<not> ob_performance ob then Some st
      else
        let ob = (if bytes \<noteq> [] \<and> ob_first_byte_at ob = None
                  then ob\<lparr>ob_first_byte_at := Some (cx_inst cx)\<rparr> else ob);
            cell = map_option (handle_bytes bytes (cx_inst cx)) cell
        in case encoded_feed C S (cx_inst cx) bytes (ob_parser ob, cell) of
             None \<Rightarrow> None
           | Some (ep, cell) \<Rightarrow>
               (let ob = ob\<lparr>ob_parser := ep\<rparr>;
                    cell = perf_parse_failed (encoded_is_invalid ep) (cx_inst cx) cell
                in if encoded_is_complete ep \<and> can_finalize_early ep
                   then (let (ob, svc) = observer_finalize cx False False (ob, svc) in Some (ob, cell, svc))
                   else Some (ob, cell, svc)))"

definition observer_finish ::
  "'d codec_lib \<Rightarrow> serde_lib \<Rightarrow> obs_ctx \<Rightarrow> bool \<Rightarrow> 'd observed \<Rightarrow> 'd observed" where
  "observer_finish C S cx client_dropped st =
     (let (ob, cell, svc) = st in
      if ob_attempt ob = None \<and> \<not> ob_performance ob then st
      else
        let (ep, cell) = encoded_finish C S (cx_inst cx) client_dropped (ob_parser ob, cell);
            cell = perf_parse_failed (encoded_is_invalid ep) (cx_inst cx) cell;
            (ob, svc) = observer_finalize cx True client_dropped (ob\<lparr>ob_parser := ep\<rparr>, svc)
        in (ob, cell, svc))"

text \<open>
  \<open>UsageObservedStream\<close>: the observer is taken when the stream ends, fails or is dropped. The items
  are passed on unchanged.
\<close>

datatype stream_poll = SP_Data string | SP_Error | SP_End | SP_Pending

type_synonym 'd observed_stream = "'d response_observer option \<times> perf_cell \<times> usage_service"

definition stream_finish ::
  "'d codec_lib \<Rightarrow> serde_lib \<Rightarrow> obs_ctx \<Rightarrow> bool \<Rightarrow> 'd observed_stream \<Rightarrow> 'd observed_stream" where
  "stream_finish C S cx client_dropped st =
     (case st of
        (None, cell, svc) \<Rightarrow> st
      | (Some ob, cell, svc) \<Rightarrow>
          (let (ob, cell, svc) = observer_finish C S cx client_dropped (ob, cell, svc) in (None, cell, svc)))"

definition stream_poll_next ::
  "'d codec_lib \<Rightarrow> serde_lib \<Rightarrow> obs_ctx \<Rightarrow> stream_poll \<Rightarrow> 'd observed_stream \<Rightarrow> (stream_poll \<times> 'd observed_stream) option" where
  "stream_poll_next C S cx item st =
     (case item of
        SP_Data bytes \<Rightarrow>
          (case st of
             (None, cell, svc) \<Rightarrow> Some (SP_Data bytes, st)
           | (Some ob, cell, svc) \<Rightarrow>
               map_option (\<lambda>(ob, cell, svc). (SP_Data bytes, (Some ob, cell, svc)))
                 (observer_feed C S cx bytes (ob, cell, svc)))
      | SP_Error \<Rightarrow> Some (SP_Error, stream_finish C S cx False st)
      | SP_End \<Rightarrow> Some (SP_End, stream_finish C S cx False st)
      | SP_Pending \<Rightarrow> Some (SP_Pending, st))"

definition stream_drop ::
  "'d codec_lib \<Rightarrow> serde_lib \<Rightarrow> obs_ctx \<Rightarrow> 'd observed_stream \<Rightarrow> 'd observed_stream" where
  "stream_drop C S cx st = stream_finish C S cx True st"

section \<open>The writer\<close>

definition reprice :: "pricing_engine \<Rightarrow> usage_event \<Rightarrow> usage_event" where
  "reprice pe e =
     (if uc_complete (ue_costs e) then e
      else
        let priced = price pe (ue_model e) (ue_tokens e)
        in if uc_complete (pu_costs priced)
           then e\<lparr>ue_costs := pu_costs priced, ue_pricing_version := pu_pricing_version priced,
                  ue_pricing_model_key := pu_pricing_model_key priced\<rparr>
           else e)"

definition next_fault :: "sqlx_error option list \<Rightarrow> sqlx_error option" where
  "next_fault faults = (case faults of [] \<Rightarrow> None | f # _ \<Rightarrow> f)"

text \<open>The attempts left, the errors the database reports for them, and the batch.\<close>

fun write_batch ::
  "nat \<Rightarrow> sqlx_error option list \<Rightarrow> usage_event list \<Rightarrow> usage_health \<times> usage_store \<Rightarrow> usage_health \<times> usage_store" where
  "write_batch 0 faults batch hs = hs"
| "write_batch (Suc n) faults batch (h, st) =
     (case insert_batch (next_fault faults) batch st of
        (Inr (inserted, duplicates), st) \<Rightarrow>
          (h\<lparr>uh_persisted := uh_persisted h + inserted, uh_duplicate := uh_duplicate h + duplicates\<rparr>, st)
      | (Inl _, st) \<Rightarrow>
          if n > 0 then write_batch n (tl faults) batch (h, st)
          else (h\<lparr>uh_write_failed := uh_write_failed h + length batch\<rparr>, st))"

definition WRITE_BATCH_SIZE :: nat where "WRITE_BATCH_SIZE = 128"

text \<open>
  One round of \<open>run_writer\<close>: the \<open>n\<close> events that came before the deadline, with all attempts to store them. The round is one
  step: between the queue and the table the batch is no state of its own.
\<close>

definition usage_writer_batch ::
  "nat \<Rightarrow> sqlx_error option list \<Rightarrow> usage_service \<times> usage_store \<Rightarrow> usage_service \<times> usage_store" where
  "usage_writer_batch n faults sv =
     (let (svc, st) = sv;
          n = min n WRITE_BATCH_SIZE;
          batch = map (reprice (uv_pricing svc)) (take n (uv_queue svc));
          (h, st) = write_batch 4 faults batch (uv_health svc, st)
      in (svc\<lparr>uv_queue := drop n (uv_queue svc), uv_health := h\<rparr>, st))"

section \<open>Backfill and retention\<close>

definition PRICING_BACKFILL_BATCH_SIZE :: nat where "PRICING_BACKFILL_BATCH_SIZE = 250"
definition RETENTION_BATCH_SIZE :: int where "RETENTION_BATCH_SIZE = 5000"

definition pricing_update :: "pricing_engine \<Rightarrow> unpriced_usage_event \<Rightarrow> usage_pricing_update option" where
  "pricing_update pe e =
     (let priced = price pe (un_model e) (un_tokens e)
      in if uc_complete (pu_costs priced) then
           map_option (\<lambda>key. \<lparr>pu_id = un_id e, pu_new_costs = pu_costs priced,
             pu_new_version = pu_pricing_version priced, pu_new_model_key = key\<rparr>) (pu_pricing_model_key priced)
         else None)"

lemma apply_updates_ids: "map ur_id (us_rows (snd (apply_updates us st))) = map ur_id (us_rows st)"
proof (induction us arbitrary: st)
  case (Cons u us)
  have "ur_id (price_row u r) = ur_id r" for r
    by (simp add: price_row_def)
  then show ?case
    using Cons by (simp add: apply_update_def comp_def split_beta)
qed simp

lemma apply_pricing_updates_ids:
  "map ur_id (us_rows (snd (apply_pricing_updates fault us st))) = map ur_id (us_rows st)"
  using apply_updates_ids [of us st] by (auto simp: apply_pricing_updates_def split: option.split prod.split)

definition rows_after :: "int \<Rightarrow> usage_store \<Rightarrow> nat" where
  "rows_after i st = length (filter (\<lambda>k. k > i) (map ur_id (us_rows st)))"

lemma unpriced_last:
  assumes "unpriced_events_after f after n st = Inr events" "events \<noteq> []"
  shows "after < un_id (last events)" "un_id (last events) \<in> set (map ur_id (us_rows st))"
proof -
  let ?rows = "take n (sort_key ur_id
      (filter (\<lambda>r. \<not> uc_complete (ue_costs (ur_event r)) \<and> ur_id r > after) (us_rows st)))"
  have ev: "events = map (\<lambda>r. \<lparr>un_id = ur_id r, un_model = ue_model (ur_event r), un_tokens = ue_tokens (ur_event r)\<rparr>) ?rows"
    using assms(1) by (auto simp: unpriced_events_after_def split: option.splits)
  then have ne: "?rows \<noteq> []" using assms(2) by auto
  then have "last ?rows \<in> set ?rows" by (rule last_in_set)
  then have "last ?rows \<in> set (us_rows st)" "after < ur_id (last ?rows)"
    using set_take_subset by fastforce+
  moreover have "un_id (last events) = ur_id (last ?rows)"
    unfolding ev using ne by (simp add: last_map)
  ultimately show "after < un_id (last events)" "un_id (last events) \<in> set (map ur_id (us_rows st))"
    by auto
qed

lemma rows_after_less:
  assumes "after < i" "i \<in> set (map ur_id (us_rows st))" shows "rows_after i st < rows_after after st"
proof -
  let ?ids = "filter (\<lambda>k. k > after) (map ur_id (us_rows st))"
  have "filter (\<lambda>k. k > i) (map ur_id (us_rows st)) = filter (\<lambda>k. k > i) ?ids"
    using assms(1) by (auto intro!: filter_cong)
  moreover have "length (filter (\<lambda>k. k > i) ?ids) < length ?ids"
    using assms by (intro length_filter_less [of i]) auto
  ultimately show ?thesis
    by (simp add: rows_after_def)
qed

text \<open>The loop ends: each round moves past at least one row. \<open>faults\<close> has the query's and the update's error.\<close>

function backfill_loop ::
  "pricing_engine \<Rightarrow> sqlx_error option list \<Rightarrow> int \<Rightarrow> nat \<Rightarrow> usage_store \<Rightarrow> (app_error + nat) \<times> usage_store" where
  "backfill_loop pe faults after_id updated_total st =
     (case unpriced_events_after (next_fault faults) after_id PRICING_BACKFILL_BATCH_SIZE st of
        Inl e \<Rightarrow> (Inl e, st)
      | Inr events \<Rightarrow>
          if events = [] then (Inr updated_total, st)
          else
            (case apply_pricing_updates (next_fault (tl faults))
                    (List.map_filter (pricing_update pe) events) st of
               (Inl e, st) \<Rightarrow> (Inl e, st)
             | (Inr n, st) \<Rightarrow>
                 backfill_loop pe (tl (tl faults)) (un_id (last events))
                   (min (2 ^ 64 - 1) (updated_total + n)) st))"
  by pat_completeness auto
termination
proof (relation "measure (\<lambda>(pe, faults, after_id, n, st). rows_after after_id st)", simp)
  fix pe faults after_id n st events r st' k
  assume e: "unpriced_events_after (next_fault faults) after_id PRICING_BACKFILL_BATCH_SIZE st = Inr events" "events \<noteq> []"
    and u: "(r, st') = apply_pricing_updates (next_fault (tl faults)) (List.map_filter (pricing_update pe) events) st"
  have "map ur_id (us_rows st') = map ur_id (us_rows st)"
    using apply_pricing_updates_ids by (metis u snd_conv)
  then have "rows_after (un_id (last events)) st' = rows_after (un_id (last events)) st"
    by (simp add: rows_after_def)
  then show "((pe, tl (tl faults), un_id (last events), min (2 ^ 64 - 1) (n + k), st'), pe, faults, after_id, n, st)
      \<in> measure (\<lambda>(pe, faults, after_id, n, st). rows_after after_id st)"
    using rows_after_less unpriced_last [OF e] by simp
qed

declare backfill_loop.simps [simp del]

definition backfill_unpriced_usage ::
  "pricing_engine \<Rightarrow> sqlx_error option list \<Rightarrow> usage_store \<Rightarrow> (app_error + nat) \<times> usage_store" where
  "backfill_unpriced_usage pe faults st = backfill_loop pe faults 0 0 st"

text \<open>
  One round of \<open>run_pricing_refresh\<close> with what \<open>fetch_remote_pricing_snapshot\<close> answered; only the
  logging is left out.
\<close>

definition pricing_refresh_round ::
  "serde_lib \<Rightarrow> string + pricing_snapshot \<Rightarrow> int \<Rightarrow> sqlx_error option list \<Rightarrow> usage_service \<times> usage_store
     \<Rightarrow> (usage_service \<times> usage_store) outcome" where
  "pricing_refresh_round S fetched now faults sv =
     (let (svc, st) = sv in
      case fetched of
        Inl _ \<Rightarrow> Done (svc, st)
      | Inr snapshot \<Rightarrow>
          outcome_bind (with_snapshot (uv_pricing svc) snapshot) (\<lambda>nxt.
            Done (case nxt of
                    Inl _ \<Rightarrow> (svc, st)
                  | Inr pe \<Rightarrow>
                      (case snapshot_to_json S snapshot of
                         Inl _ \<Rightarrow> (svc, st)
                       | Inr json \<Rightarrow>
                           (let st = snd (save_pricing_snapshot (next_fault faults) json (ps_version snapshot) now st);
                                st = snd (backfill_unpriced_usage pe (tl faults) st)
                            in (svc\<lparr>uv_pricing := pe\<rparr>, st))))))"

text \<open>What \<open>run_pricing_refresh\<close> does before its first round.\<close>

definition pricing_refresh_start :: "sqlx_error option list \<Rightarrow> usage_service \<times> usage_store \<Rightarrow> usage_service \<times> usage_store" where
  "pricing_refresh_start faults sv =
     (let (svc, st) = sv in (svc, snd (backfill_unpriced_usage (uv_pricing svc) faults st)))"

lemma delete_before_shrinks:
  assumes "delete_before f d n st = (Inr k, st')" "0 < k"
  shows "length (us_rows st') < length (us_rows st)"
proof -
  let ?old = "sort_key ur_id (filter (\<lambda>r. ue_sg_day (ur_event r) < d) (us_rows st))"
  let ?doomed = "map ur_id (take (nat n) ?old)"
  have st': "us_rows st' = filter (\<lambda>r. ur_id r \<notin> set ?doomed) (us_rows st)" and k: "k = length ?doomed"
    using assms(1) by (auto simp: delete_before_def Let_def split: option.splits)
  then obtain r where r: "r \<in> set (take (nat n) ?old)"
    using assms(2) by (cases "take (nat n) ?old") auto
  then have "r \<in> set (us_rows st)" "ur_id r \<in> set ?doomed"
    using set_take_subset by fastforce+
  then show ?thesis
    unfolding st' by (intro length_filter_less) auto
qed

text \<open>One day's round of \<open>run_retention\<close>.\<close>

function retention_loop :: "int \<Rightarrow> sqlx_error option list \<Rightarrow> usage_store \<Rightarrow> usage_store" where
  "retention_loop min_sg_day faults st =
     (case delete_before (next_fault faults) min_sg_day RETENTION_BATCH_SIZE st of
        (Inl e, st) \<Rightarrow> st
      | (Inr n, st) \<Rightarrow> if n = 0 then st else retention_loop min_sg_day (tl faults) st)"
  by pat_completeness auto
termination
  by (relation "measure (\<lambda>(d, faults, st). length (us_rows st))") (auto dest: delete_before_shrinks [OF sym])

declare retention_loop.simps [simp del]

definition retention_round :: "int \<Rightarrow> sqlx_error option list \<Rightarrow> usage_store \<Rightarrow> usage_store" where
  "retention_round now faults st = retention_loop (sg_day_from_utc now - 364) faults st"

section \<open>The report\<close>

record calendar =
  cal_month_start :: "int \<Rightarrow> int"
  cal_weekday :: "int \<Rightarrow> int"
  cal_format :: "int \<Rightarrow> string"
  cal_min :: int
  cal_max :: int

datatype usage_granularity = UG_Day | UG_Week | UG_Month

record usage_report_query =
  rq_start_date :: int
  rq_end_date :: int
  rq_granularity :: usage_granularity
  rq_account_id :: "int option"
  rq_api_token_id :: "int option"
  rq_model :: "string option"
  rq_group_by :: usage_group_by

record usage_bucket =
  bu_key :: string
  bu_start_date :: int
  bu_end_date :: int
  bu_start_at_utc :: int
  bu_end_at_utc_exclusive :: int
  bu_metrics :: usage_metrics

record usage_breakdown_row =
  br_key :: string
  br_label :: string
  br_metrics :: usage_metrics

record usage_report =
  re_granularity :: usage_granularity
  re_range :: "int \<times> int"
  re_summary :: usage_metrics
  re_buckets :: "usage_bucket list"
  re_breakdown :: "usage_breakdown_row list"

definition checked_add_days :: "calendar \<Rightarrow> int \<Rightarrow> int \<Rightarrow> int option" where
  "checked_add_days cal d n = (if cal_min cal \<le> d + n \<and> d + n \<le> cal_max cal then Some (d + n) else None)"

definition bucket_start :: "calendar \<Rightarrow> usage_granularity \<Rightarrow> int \<Rightarrow> int outcome" where
  "bucket_start cal g d =
     (case g of
        UG_Day \<Rightarrow> Done d
      | UG_Week \<Rightarrow> unwrap (checked_add_days cal d (- cal_weekday cal d))
      | UG_Month \<Rightarrow> Done (cal_month_start cal d))"

definition singapore_midnight_utc :: "int \<Rightarrow> int" where
  "singapore_midnight_utc d = d * DAY_NS - SG_OFFSET_NS"

type_synonym bucket_map = "(int, int \<times> int \<times> usage_metrics) hash_map"

text \<open>One day of the loop of \<open>build_buckets\<close>.\<close>

definition bucket_day :: "(int, usage_metrics) hash_map \<Rightarrow> int \<Rightarrow> int \<Rightarrow> bucket_map \<Rightarrow> bucket_map" where
  "bucket_day by_day natural_start date buckets =
     (let (s, _, m) = (case map_of buckets natural_start of Some b \<Rightarrow> b | None \<Rightarrow> (date, date, default_metrics));
          m = (case map_of by_day (sg_day_from_date date) of
                 Some x \<Rightarrow> metrics_add_assign m x | None \<Rightarrow> m)
      in AList.update natural_start (s, date, m) buckets)"

function bucket_loop ::
  "calendar \<Rightarrow> usage_granularity \<Rightarrow> (int, usage_metrics) hash_map \<Rightarrow> int \<Rightarrow> int \<Rightarrow> bucket_map \<Rightarrow> bucket_map outcome" where
  "bucket_loop cal g by_day end_date date buckets =
     (if date > end_date then Done buckets
      else
        outcome_bind (bucket_start cal g date) (\<lambda>natural_start.
          case checked_add_days cal date 1 of
            None \<Rightarrow> Panic
          | Some d \<Rightarrow> bucket_loop cal g by_day end_date d (bucket_day by_day natural_start date buckets)))"
  by pat_completeness auto
termination
  by (relation "measure (\<lambda>(cal, g, m, e, d, b). nat (e - d + 1))") (auto simp: checked_add_days_def split: if_splits)

declare bucket_loop.simps [simp del]

definition bucket_of :: "calendar \<Rightarrow> int \<times> int \<times> int \<times> usage_metrics \<Rightarrow> usage_bucket outcome" where
  "bucket_of cal b =
     (let (natural_start, covered_start, covered_end, m) = b
      in outcome_bind (unwrap (checked_add_days cal covered_end 1)) (\<lambda>d. Done
           \<lparr>bu_key = cal_format cal natural_start, bu_start_date = covered_start, bu_end_date = covered_end,
            bu_start_at_utc = singapore_midnight_utc covered_start,
            bu_end_at_utc_exclusive = singapore_midnight_utc d, bu_metrics = m\<rparr>))"

fun map_outcome :: "('a \<Rightarrow> 'b outcome) \<Rightarrow> 'a list \<Rightarrow> 'b list outcome" where
  "map_outcome f [] = Done []"
| "map_outcome f (x # xs) = outcome_bind (f x) (\<lambda>y. outcome_bind (map_outcome f xs) (\<lambda>ys. Done (y # ys)))"

definition build_buckets ::
  "calendar \<Rightarrow> int \<Rightarrow> int \<Rightarrow> usage_granularity \<Rightarrow> (int, usage_metrics) hash_map \<Rightarrow> usage_bucket list outcome" where
  "build_buckets cal start_date end_date g by_day =
     outcome_bind (bucket_loop cal g by_day end_date start_date [])
       (\<lambda>buckets. map_outcome (bucket_of cal) (sort_key fst buckets))"

definition group_key :: "usage_group_by \<Rightarrow> daily_usage_row \<Rightarrow> string" where
  "group_key g r = (case g of GB_Model \<Rightarrow> dr_group_text r | _ \<Rightarrow> int_to_string (dr_group_id r))"

definition group_labels ::
  "sqlx_error option \<Rightarrow> usage_group_by \<Rightarrow> int \<Rightarrow> (int \<times> string) list \<Rightarrow> (int \<times> string) list \<Rightarrow> usage_store
     \<Rightarrow> app_error + (string, string) hash_map" where
  "group_labels fault g min_sg_day account_names token_names st =
     (if g = GB_Model then Inr []
      else case dimensions fault min_sg_day account_names token_names st of
             Inl e \<Rightarrow> Inl e
           | Inr dims \<Rightarrow>
               Inr (fold (\<lambda>ob m. AList.update (int_to_string (ud_id ob)) (ud_label ob) m)
                 (if g = GB_Account then di_accounts dims else di_api_tokens dims) []))"

text \<open>\<open>entry(key).or_default().add_assign(m)\<close>.\<close>

definition add_metrics :: "'k \<Rightarrow> usage_metrics \<Rightarrow> ('k, usage_metrics) hash_map \<Rightarrow> ('k, usage_metrics) hash_map" where
  "add_metrics k m mp =
     AList.update k (metrics_add_assign (case map_of mp k of Some x \<Rightarrow> x | None \<Rightarrow> default_metrics) m) mp"

definition sum_metrics :: "usage_metrics list \<Rightarrow> usage_metrics" where
  "sum_metrics ms = foldl metrics_add_assign default_metrics ms"

definition report_filters :: "usage_report_query \<Rightarrow> usage_filters" where
  "report_filters q =
     \<lparr>uf_start_sg_day = sg_day_from_date (rq_start_date q), uf_end_sg_day = sg_day_from_date (rq_end_date q),
      uf_account_id = rq_account_id q, uf_api_token_id = rq_api_token_id q, uf_model = rq_model q,
      uf_group_by = rq_group_by q\<rparr>"

definition usage_report_of ::
  "calendar \<Rightarrow> sqlx_error option \<Rightarrow> sqlx_error option \<Rightarrow> (int \<times> string) list \<Rightarrow> (int \<times> string) list
     \<Rightarrow> usage_report_query \<Rightarrow> usage_store \<Rightarrow> (app_error + usage_report) outcome" where
  "usage_report_of cal agg_fault label_fault account_names token_names q st =
     (let f = report_filters q
      in case aggregate_daily agg_fault f st of
           Inl e \<Rightarrow> Done (Inl e)
         | Inr rows \<Rightarrow>
             (case group_labels label_fault (rq_group_by q) (uf_start_sg_day f) account_names token_names st of
                Inl e \<Rightarrow> Done (Inl e)
              | Inr labels \<Rightarrow>
                  (let summary = sum_metrics (map dr_metrics rows);
                       by_day = foldl (\<lambda>m r. add_metrics (dr_sg_day r) (dr_metrics r) m) [] rows;
                       breakdown = foldl (\<lambda>m r. add_metrics (group_key (rq_group_by q) r) (dr_metrics r) m) [] rows;
                       entries = map (\<lambda>(k, m). \<lparr>br_key = k,
                            br_label = (case map_of labels k of Some l \<Rightarrow> l | None \<Rightarrow> k), br_metrics = m\<rparr>)
                         (sort_key fst breakdown);
                       entries = sort_key (\<lambda>b. (- um_known_cost_nano_usd (br_metrics b),
                            - tokens_total (um_tokens (br_metrics b)), br_label b)) entries
                   in outcome_bind (build_buckets cal (rq_start_date q) (rq_end_date q) (rq_granularity q) by_day)
                        (\<lambda>buckets. Done (Inr
                           \<lparr>re_granularity = rq_granularity q, re_range = (rq_start_date q, rq_end_date q),
                            re_summary = summary, re_buckets = buckets, re_breakdown = entries\<rparr>)))))"

end
