(* ===== verification/Admin.thy ===== *)
theory Admin
  imports Selection Token_Store Usage_Service
begin

text \<open>
  The administrator's handlers for accounts, the dashboard and the usage report
  (\<open>src/handler/router.rs\<close>). A handler takes the parsed request with the components it calls and
  returns the answer; \<open>faults\<close> has the error of each statement it runs, in order. What the calendar
  library parses is the parameter \<open>client_lib\<close>: instants are nanoseconds, dates the days since 1970.
  The expiry of a telemetry session that \<open>list_accounts\<close> adds to an account is left out.
\<close>

section \<open>Times of a client\<close>

record client_lib =
  cl_from_millis :: "int \<Rightarrow> int option"
  cl_parse_rfc3339 :: "string \<Rightarrow> int option"
  cl_parse_date :: "string \<Rightarrow> int option"

datatype client_datetime = CD_Millis int | CD_Text string

definition timestamp_millis_to_utc :: "client_lib \<Rightarrow> int \<Rightarrow> int option" where
  "timestamp_millis_to_utc C ts = cl_from_millis C ts"

definition parse_client_datetime_str :: "client_lib \<Rightarrow> string \<Rightarrow> int option" where
  "parse_client_datetime_str C v =
     (let trimmed = trim v
      in if trimmed = [] then None
         else case parse_i64 trimmed of
                Some ms \<Rightarrow> timestamp_millis_to_utc C ms
              | None \<Rightarrow> cl_parse_rfc3339 C trimmed)"

fun client_datetime_to_utc :: "client_lib \<Rightarrow> client_datetime \<Rightarrow> int option" where
  "client_datetime_to_utc C (CD_Millis ts) = timestamp_millis_to_utc C ts"
| "client_datetime_to_utc C (CD_Text s) = parse_client_datetime_str C s"

definition client_datetime_value_to_utc :: "client_lib \<Rightarrow> json \<Rightarrow> int option" where
  "client_datetime_value_to_utc C v =
     (case v of
        JNum n \<Rightarrow> Option.bind (as_i64 v) (timestamp_millis_to_utc C)
      | JStr s \<Rightarrow> parse_client_datetime_str C s
      | _ \<Rightarrow> None)"

section \<open>The working directory of the prompt\<close>

text \<open>Characters of a UTF-8 text: every byte but the continuation bytes starts one.\<close>

definition char_count :: "string \<Rightarrow> nat" where
  "char_count s = length (filter (\<lambda>c. \<not> (128 \<le> (of_char c :: nat) \<and> (of_char c :: nat) < 192)) s)"

text \<open>The encodings of the control characters, U+0000 to U+001F and U+007F to U+009F.\<close>

definition control_seqs :: "string list" where
  "control_seqs =
     map (\<lambda>n. [char_of n]) ([0..<32] @ [127]) @ map (\<lambda>n. [CHR 0xC2, char_of n]) [128..<160]"

definition has_char_of :: "string list \<Rightarrow> string \<Rightarrow> bool" where
  "has_char_of seqs s \<longleftrightarrow> (\<exists>w \<in> set seqs. str_contains w s)"

definition working_dir_error :: app_error where
  "working_dir_error =
     BadRequest (''prompt_working_dir must be an absolute path without whitespace or '' @
       ''control characters and at most 1024 characters'')"

definition bad_working_dir :: "string \<Rightarrow> bool" where
  "bad_working_dir path \<longleftrightarrow>
     path = [] \<or> \<not> prefix ''/'' path \<or> char_count path > 1024 \<or>
     has_char_of (white_space_seqs @ control_seqs) path"

definition apply_prompt_working_dir_update :: "json \<Rightarrow> json \<Rightarrow> app_error + json" where
  "apply_prompt_working_dir_update prompt updates =
     (case jget updates ''prompt_working_dir'' of
        None \<Rightarrow> Inr prompt
      | Some v \<Rightarrow>
          (case as_str v of
             None \<Rightarrow> Inl (BadRequest ''prompt_working_dir must be a string'')
           | Some raw \<Rightarrow>
               (let path = trim raw
                in if bad_working_dir path then Inl working_dir_error
                   else case as_object prompt of
                          None \<Rightarrow> Inl (BadRequest ''account canonical_prompt_env must be a JSON object'')
                        | Some _ \<Rightarrow> Inr (jinsert ''working_dir'' (JStr path) prompt))))"

section \<open>Updating an account\<close>

definition nonempty_update :: "json \<Rightarrow> string \<Rightarrow> string \<Rightarrow> string" where
  "nonempty_update updates field old =
     (case Option.bind (jget updates field) as_str of Some s \<Rightarrow> if s \<noteq> [] then s else old | None \<Rightarrow> old)"

definition opt_update :: "json \<Rightarrow> string \<Rightarrow> string option \<Rightarrow> string option" where
  "opt_update updates field old = (case jget updates field of Some v \<Rightarrow> as_str v | None \<Rightarrow> old)"

text \<open>\<open>as i32\<close> keeps the low 32 bits.\<close>

definition positive_i32_update :: "json \<Rightarrow> string \<Rightarrow> int \<Rightarrow> int" where
  "positive_i32_update updates field old =
     (case Option.bind (jget updates field) as_i64 of Some x \<Rightarrow> if x > 0 then i32_wrap x else old | None \<Rightarrow> old)"

definition auth_type_update :: "json \<Rightarrow> account \<Rightarrow> account" where
  "auth_type_update updates a =
     (case Option.bind (jget updates ''auth_type'') as_str of
        None \<Rightarrow> a
      | Some s \<Rightarrow>
          (case auth_type_from s of
             SetupToken \<Rightarrow> a\<lparr>acc_auth_type := SetupToken, acc_access_token := [], acc_refresh_token := [],
                             acc_expires_at := None, acc_oauth_refreshed_at := None, acc_auth_error := []\<rparr>
           | Oauth \<Rightarrow> a\<lparr>acc_auth_type := Oauth, acc_setup_token := []\<rparr>))"

definition credential_updates :: "client_lib \<Rightarrow> json \<Rightarrow> account \<Rightarrow> account" where
  "credential_updates C updates a =
     (let a = auth_type_update updates a
      in a\<lparr>acc_setup_token := str_update updates ''setup_token'' (str_update updates ''token'' (acc_setup_token a)),
           acc_access_token := str_update updates ''access_token'' (acc_access_token a),
           acc_refresh_token := str_update updates ''refresh_token'' (acc_refresh_token a),
           acc_expires_at := (case jget updates ''expires_at'' of
                                Some v \<Rightarrow> client_datetime_value_to_utc C v | None \<Rightarrow> acc_expires_at a)\<rparr>)"

definition early_updates :: "client_lib \<Rightarrow> json \<Rightarrow> account \<Rightarrow> account" where
  "early_updates C updates a =
     (let a = a\<lparr>acc_name := nonempty_update updates ''name'' (acc_name a),
                acc_email := nonempty_update updates ''email'' (acc_email a)\<rparr>;
          a = credential_updates C updates a
      in a\<lparr>acc_proxy_url := str_update updates ''proxy_url'' (acc_proxy_url a),
           acc_concurrency := positive_i32_update updates ''concurrency'' (acc_concurrency a),
           acc_priority := positive_i32_update updates ''priority'' (acc_priority a)\<rparr>)"

definition late_updates :: "json \<Rightarrow> account \<Rightarrow> account" where
  "late_updates updates a =
     a\<lparr>acc_billing_mode := (case Option.bind (jget updates ''billing_mode'') as_str of
                              Some s \<Rightarrow> if s \<noteq> [] then billing_mode_from s else acc_billing_mode a
                            | None \<Rightarrow> acc_billing_mode a),
       acc_account_uuid := opt_update updates ''account_uuid'' (acc_account_uuid a),
       acc_organization_uuid := opt_update updates ''organization_uuid'' (acc_organization_uuid a),
       acc_subscription_type := opt_update updates ''subscription_type'' (acc_subscription_type a),
       acc_auto_telemetry := (case Option.bind (jget updates ''auto_telemetry'') as_bool of
                                Some b \<Rightarrow> b | None \<Rightarrow> acc_auto_telemetry a)\<rparr>"

definition other_status_update :: "string option \<Rightarrow> account \<Rightarrow> account" where
  "other_status_update status a =
     (case status of Some s \<Rightarrow> if s \<noteq> [] then a\<lparr>acc_status := account_status_from s\<rparr> else a | None \<Rightarrow> a)"

definition manually_disabled :: string where
  "manually_disabled = [CHR 0xE6, CHR 0x89, CHR 0x8B, CHR 0xE5, CHR 0x8A, CHR 0xA8, CHR 0xE5, CHR 0x81, CHR 0x9C,
     CHR 0xE7, CHR 0x94, CHR 0xA8]"

text \<open>
  The statuses \<open>active\<close> and \<open>disabled\<close> end the handler with the statement of the service and the
  account as stored afterwards.
\<close>

definition status_answer ::
  "serde_lib \<Rightarrow> sqlx_error option \<Rightarrow> int \<Rightarrow> (app_error + unit) \<times> account_store \<Rightarrow> 'c account_service
     \<Rightarrow> (app_error + account) \<times> 'c account_service" where
  "status_answer S get_fault i r svc =
     (let svc = svc\<lparr>svc_store := snd r\<rparr>
      in case fst r of Inl e \<Rightarrow> (Inl e, svc) | Inr _ \<Rightarrow> (get_by_id S get_fault i (svc_store svc), svc))"

definition admin_update_account ::
  "client_lib \<Rightarrow> serde_lib \<Rightarrow> int \<Rightarrow> (nat \<Rightarrow> sqlx_error option) \<Rightarrow> int \<Rightarrow> json \<Rightarrow> 'c account_service
     \<Rightarrow> (app_error + account) \<times> 'c account_service" where
  "admin_update_account C S now faults i updates svc =
     (case get_by_id S (faults 0) i (svc_store svc) of
        Inl e \<Rightarrow> (Inl e, svc)
      | Inr existing \<Rightarrow>
          (case apply_prompt_working_dir_update (acc_canonical_prompt existing) updates of
             Inl e \<Rightarrow> (Inl e, svc)
           | Inr prompt \<Rightarrow>
               (let a = early_updates C updates (existing\<lparr>acc_canonical_prompt := prompt\<rparr>);
                    status = Option.bind (jget updates ''status'') as_str
                in if status = Some ''active''
                   then status_answer S (faults 2) i (enable_account now (faults 1) i (svc_store svc)) svc
                   else if status = Some ''disabled''
                   then status_answer S (faults 2) i
                          (disable_account now (faults 1) i AS_Disabled manually_disabled None (svc_store svc)) svc
                   else
                     let a = late_updates updates (other_status_update status a)
                     in case update_account S now (faults 1) a svc of
                          (Inl e, svc) \<Rightarrow> (Inl e, svc)
                        | (Inr _, svc) \<Rightarrow> (Inr a, svc))))"

section \<open>Creating, deleting and listing accounts\<close>

record create_account_request =
  ca_name :: "string option"
  ca_email :: string
  ca_token :: "string option"
  ca_setup_token :: "string option"
  ca_auth_type :: "string option"
  ca_access_token :: "string option"
  ca_refresh_token :: "string option"
  ca_expires_at :: "client_datetime option"
  ca_proxy_url :: "string option"
  ca_billing_mode :: "string option"
  ca_account_uuid :: "string option"
  ca_organization_uuid :: "string option"
  ca_subscription_type :: "string option"
  ca_concurrency :: "int option"
  ca_priority :: "int option"
  ca_auto_telemetry :: "bool option"

definition or_else :: "'a option \<Rightarrow> 'a \<Rightarrow> 'a" where
  "or_else v d = (case v of Some x \<Rightarrow> x | None \<Rightarrow> d)"

definition requested_account :: "client_lib \<Rightarrow> int \<Rightarrow> create_account_request \<Rightarrow> account" where
  "requested_account C now req =
     \<lparr>acc_id = 0, acc_name = or_default (ca_name req), acc_email = ca_email req, acc_status = AS_Active,
      acc_auth_type = auth_type_from (or_else (ca_auth_type req) ''setup_token''),
      acc_setup_token = or_default (case ca_setup_token req of Some t \<Rightarrow> Some t | None \<Rightarrow> ca_token req),
      acc_access_token = or_default (ca_access_token req), acc_refresh_token = or_default (ca_refresh_token req),
      acc_expires_at = Option.bind (ca_expires_at req) (client_datetime_to_utc C), acc_oauth_refreshed_at = None,
      acc_auth_error = [], acc_proxy_url = or_default (ca_proxy_url req), acc_device_id = [],
      acc_canonical_env = JObj [], acc_canonical_prompt = JObj [], acc_canonical_process = JObj [],
      acc_billing_mode = billing_mode_from (or_else (ca_billing_mode req) ''strip''),
      acc_account_uuid = ca_account_uuid req, acc_organization_uuid = ca_organization_uuid req,
      acc_subscription_type = ca_subscription_type req, acc_concurrency = or_else (ca_concurrency req) 3,
      acc_priority = or_else (ca_priority req) 50, acc_rate_limited_at = None, acc_rate_limit_reset_at = None,
      acc_disable_reason = [], acc_auto_telemetry = or_else (ca_auto_telemetry req) False, acc_telemetry_count = 0,
      acc_usage_data = JObj [], acc_usage_fetched_at = None, acc_created_at = now, acc_updated_at = now\<rparr>"

definition admin_create_account ::
  "client_lib \<Rightarrow> serde_lib \<Rightarrow> nat list \<Rightarrow> nat \<Rightarrow> int \<Rightarrow> sqlx_error option \<Rightarrow> sqlx_error option
     \<Rightarrow> create_account_request \<Rightarrow> 'c account_service \<Rightarrow> (app_error + account) outcome \<times> 'c account_service" where
  "admin_create_account C S bytes pick now count_fault insert_fault req svc =
     (if ca_email req = [] then (Done (Inl (BadRequest ''email is required'')), svc)
      else create_account S bytes pick now count_fault insert_fault (requested_account C now req) svc)"

definition admin_delete_account ::
  "sqlx_error option \<Rightarrow> int \<Rightarrow> 'c account_service \<Rightarrow> (app_error + json) \<times> 'c account_service" where
  "admin_delete_account fault i svc =
     (case delete fault i (svc_store svc) of
        (Inl e, st) \<Rightarrow> (Inl e, svc\<lparr>svc_store := st\<rparr>)
      | (Inr _, st) \<Rightarrow> (Inr (JObj [(''status'', JStr ''deleted'')]), svc\<lparr>svc_store := st\<rparr>))"

record account_page =
  ap_data :: "account list"
  ap_total :: int
  ap_page :: int
  ap_page_size :: int
  ap_total_pages :: int

definition list_accounts ::
  "serde_lib \<Rightarrow> sqlx_error option \<Rightarrow> sqlx_error option \<Rightarrow> int option \<Rightarrow> int option \<Rightarrow> 'c account_service
     \<Rightarrow> app_error + account_page" where
  "list_accounts S count_fault list_fault page page_size svc =
     (let page = max (or_else page 1) 1;
          page_size = min (max (or_else page_size 12) 1) 100
      in case list_accounts_paged S count_fault list_fault page page_size svc of
           Inl e \<Rightarrow> Inl e
         | Inr (accounts, n_total) \<Rightarrow>
             Inr \<lparr>ap_data = accounts, ap_total = n_total, ap_page = page, ap_page_size = page_size,
                  ap_total_pages = rust_div (n_total + page_size - 1) page_size\<rparr>)"

definition usage_limited :: string where
  "usage_limited =
     [CHR 0xE7, CHR 0x94, CHR 0xA8, CHR 0xE9, CHR 0x87, CHR 0x8F, CHR 0xE6, CHR 0x9F, CHR 0xA5, CHR 0xE8, CHR 0xAF,
      CHR 0xA2, CHR 0xE6, CHR 0x8E, CHR 0xA5, CHR 0xE5, CHR 0x8F, CHR 0xA3, CHR 0xE8, CHR 0xB6, CHR 0x85, CHR 0xE9,
      CHR 0x99, CHR 0x90, CHR 0xEF, CHR 0xBC, CHR 0x8C, CHR 0xE8, CHR 0xAF, CHR 0xB7, CHR 0xE4, CHR 0xB8, CHR 0x80,
      CHR 0xE5, CHR 0x88, CHR 0x86, CHR 0xE9, CHR 0x92, CHR 0x9F, CHR 0xE5, CHR 0x90, CHR 0x8E, CHR 0xE5, CHR 0x86,
      CHR 0x8D, CHR 0xE8, CHR 0xAF, CHR 0x95]"

definition usage_answer :: "app_error + json \<Rightarrow> json" where
  "usage_answer r =
     (case r of
        Inr usage \<Rightarrow> JObj [(''status'', JStr ''ok''), (''usage'', usage)]
      | Inl e \<Rightarrow>
          JObj [(''status'', JStr ''error''),
                (''message'', JStr (case e of BadRequest msg \<Rightarrow> msg | TooManyRequests _ \<Rightarrow> usage_limited
                                     | _ \<Rightarrow> app_error_to_string e))])"

definition admin_refresh_usage ::
  "serde_lib \<Rightarrow> lib \<Rightarrow> 'c cache_ops \<Rightarrow> oauth_env \<Rightarrow> int \<Rightarrow> int \<Rightarrow> sqlx_error option
     \<Rightarrow> sqlx_error option \<Rightarrow> (string \<Rightarrow> string \<Rightarrow> app_error + json) \<Rightarrow> int \<Rightarrow> 'c account_service
     \<Rightarrow> json outcome \<times> 'c account_service" where
  "admin_refresh_usage S L ops E now inst get_fault save_fault fetch i svc =
     (case refresh_usage S L ops E now inst get_fault save_fault fetch i svc of
        (Panic, svc) \<Rightarrow> (Panic, svc)
      | (Done r, svc) \<Rightarrow> (Done (usage_answer r), svc))"

section \<open>Dashboard\<close>

record dashboard =
  db_total :: nat
  db_active :: nat
  db_error :: nat
  db_disabled :: nat
  db_tokens :: int

definition get_dashboard ::
  "serde_lib \<Rightarrow> sqlx_error option \<Rightarrow> sqlx_error option \<Rightarrow> 'c account_service \<Rightarrow> token_store \<Rightarrow> app_error + dashboard" where
  "get_dashboard S list_fault count_fault svc tokens =
     (case list_all_accounts S list_fault (svc_store svc) of
        Inl e \<Rightarrow> Inl e
      | Inr accounts \<Rightarrow>
          (let of_status = (\<lambda>s. length (filter (\<lambda>a. acc_status a = s) accounts))
           in Inr \<lparr>db_total = length accounts, db_active = of_status AS_Active, db_error = of_status AS_Error,
                   db_disabled = of_status AS_Disabled,
                   db_tokens = (case token_count count_fault tokens of Inr n \<Rightarrow> n | Inl _ \<Rightarrow> 0)\<rparr>))"

section \<open>The usage report\<close>

record usage_query =
  uq_granularity :: "string option"
  uq_start_date :: "string option"
  uq_end_date :: "string option"
  uq_account_id :: "int option"
  uq_api_token_id :: "int option"
  uq_model :: "string option"
  uq_group_by :: "string option"

definition singapore_today :: "int \<Rightarrow> int" where
  "singapore_today now = (now + SG_OFFSET_NS) div DAY_NS"

definition parse_usage_date :: "client_lib \<Rightarrow> string \<Rightarrow> app_error + int" where
  "parse_usage_date C v =
     (case cl_parse_date C v of
        Some d \<Rightarrow> Inr d
      | None \<Rightarrow> Inl (BadRequest (''invalid date: '' @ v @ ''; expected YYYY-MM-DD'')))"

fun granularity_from :: "string \<Rightarrow> usage_granularity option" where
  "granularity_from s =
     (if s = ''day'' then Some UG_Day else if s = ''week'' then Some UG_Week
      else if s = ''month'' then Some UG_Month else None)"

fun group_by_from :: "string \<Rightarrow> usage_group_by option" where
  "group_by_from s =
     (if s = ''account'' then Some GB_Account else if s = ''api_token'' then Some GB_ApiToken
      else if s = ''model'' then Some GB_Model else None)"

definition query_model :: "string option \<Rightarrow> string option" where
  "query_model m = (case m of Some s \<Rightarrow> (if trim s \<noteq> [] then Some (trim s) else None) | None \<Rightarrow> None)"

definition not_positive :: "int option \<Rightarrow> bool" where
  "not_positive i = (case i of Some x \<Rightarrow> x \<le> 0 | None \<Rightarrow> False)"

text \<open>The checks on the two dates, and those on the rest of the query.\<close>

definition checked_range :: "int \<Rightarrow> int \<Rightarrow> int \<Rightarrow> int \<Rightarrow> app_error option" where
  "checked_range today min_date start_date end_date =
     (if start_date > end_date then Some (BadRequest ''start_date must not be after end_date'')
      else if end_date > today then Some (BadRequest ''end_date must not be in the future (Asia/Singapore)'')
      else if start_date < min_date then Some (BadRequest ''start_date is outside the 365-day retention window'')
      else if end_date - start_date \<ge> 365 then Some (BadRequest ''usage date range must be at most 365 days'')
      else None)"

definition report_query :: "int \<Rightarrow> int \<Rightarrow> usage_query \<Rightarrow> app_error + usage_report_query" where
  "report_query start_date end_date q =
     (if not_positive (uq_account_id q) \<or> not_positive (uq_api_token_id q)
      then Inl (BadRequest ''account_id and api_token_id must be positive'')
      else case granularity_from (or_else (uq_granularity q) ''day'') of
             None \<Rightarrow> Inl (BadRequest ''granularity must be day, week, or month'')
           | Some g \<Rightarrow>
               (case group_by_from (or_else (uq_group_by q) ''model'') of
                  None \<Rightarrow> Inl (BadRequest ''group_by must be account, api_token, or model'')
                | Some by \<Rightarrow>
                    Inr \<lparr>rq_start_date = start_date, rq_end_date = end_date, rq_granularity = g,
                         rq_account_id = uq_account_id q, rq_api_token_id = uq_api_token_id q,
                         rq_model = query_model (uq_model q), rq_group_by = by\<rparr>))"

text \<open>The subtraction of days panics below the first date of the calendar.\<close>

definition date_minus :: "calendar \<Rightarrow> int \<Rightarrow> int \<Rightarrow> int outcome" where
  "date_minus cal d n = unwrap (checked_add_days cal d (- n))"

definition start_date_of :: "client_lib \<Rightarrow> calendar \<Rightarrow> string option \<Rightarrow> int \<Rightarrow> (app_error + int) outcome" where
  "start_date_of C cal start end_date =
     (case start of
        Some s \<Rightarrow> Done (parse_usage_date C s)
      | None \<Rightarrow> outcome_bind (date_minus cal end_date 29) (\<lambda>d. Done (Inr d)))"

definition validate_usage_query ::
  "client_lib \<Rightarrow> calendar \<Rightarrow> int \<Rightarrow> usage_query \<Rightarrow> (app_error + usage_report_query) outcome" where
  "validate_usage_query C cal now q =
     (let today = singapore_today now
      in outcome_bind (date_minus cal today 364) (\<lambda>min_date.
           case (case uq_end_date q of Some s \<Rightarrow> parse_usage_date C s | None \<Rightarrow> Inr today) of
             Inl e \<Rightarrow> Done (Inl e)
           | Inr end_date \<Rightarrow>
               outcome_bind (start_date_of C cal (uq_start_date q) end_date) (\<lambda>r.
                 case r of
                   Inl e \<Rightarrow> Done (Inl e)
                 | Inr start_date \<Rightarrow>
                     (case checked_range today min_date start_date end_date of
                        Some e \<Rightarrow> Done (Inl e)
                      | None \<Rightarrow> Done (report_query start_date end_date q)))))"

text \<open>The names the labels of a report are made of.\<close>

definition account_names :: "account_store \<Rightarrow> (int \<times> string) list" where
  "account_names st = map (\<lambda>r. (row_id r, row_name r)) (ast_rows st)"

definition token_names :: "token_store \<Rightarrow> (int \<times> string) list" where
  "token_names st = map (\<lambda>r. (tr_id r, tr_name r)) (ts_rows st)"

definition get_usage ::
  "client_lib \<Rightarrow> calendar \<Rightarrow> int \<Rightarrow> sqlx_error option \<Rightarrow> sqlx_error option \<Rightarrow> usage_query \<Rightarrow> account_store
     \<Rightarrow> token_store \<Rightarrow> usage_service \<Rightarrow> usage_store \<Rightarrow> (app_error + usage_report \<times> usage_health) outcome" where
  "get_usage C cal now agg_fault label_fault q accounts tokens svc st =
     outcome_bind (validate_usage_query C cal now q) (\<lambda>r.
       case r of
         Inl e \<Rightarrow> Done (Inl e)
       | Inr rq \<Rightarrow>
           outcome_bind (usage_report_of cal agg_fault label_fault (account_names accounts) (token_names tokens) rq st)
             (\<lambda>report. Done (map_sum id (\<lambda>x. (x, uv_health svc)) report)))"

definition get_usage_dimensions ::
  "int \<Rightarrow> sqlx_error option \<Rightarrow> account_store \<Rightarrow> token_store \<Rightarrow> usage_store \<Rightarrow> app_error + usage_dimensions" where
  "get_usage_dimensions now fault accounts tokens st =
     dimensions fault (sg_day_from_date (singapore_today now) - 364) (account_names accounts) (token_names tokens) st"

end
