(* ===== verification/Usage_Report.thy ===== *)
theory Usage_Report
  imports Usage_Service "HOL-Library.Multiset"
begin

text \<open>
  The usage report: its summary, its time buckets and its breakdown add up to the same metrics, which
  are the sums over the events the query selects. Metrics are added with saturation at the largest
  \<open>i64\<close>; on metrics without negative counters that is still a commutative monoid, which the locale
  \<open>saturating_sum\<close> exploits.
\<close>

section \<open>Sums in a partial commutative monoid\<close>

locale saturating_sum =
  fixes plus_op :: "'a \<Rightarrow> 'a \<Rightarrow> 'a" and unit_elem :: 'a and ok :: "'a \<Rightarrow> bool"
  assumes ok_unit: "ok unit_elem"
    and ok_plus: "ok a \<Longrightarrow> ok b \<Longrightarrow> ok (plus_op a b)"
    and plus_unit: "ok a \<Longrightarrow> plus_op unit_elem a = a"
    and plus_comm: "ok a \<Longrightarrow> ok b \<Longrightarrow> plus_op a b = plus_op b a"
    and plus_assoc: "ok a \<Longrightarrow> ok b \<Longrightarrow> ok c \<Longrightarrow> plus_op (plus_op a b) c = plus_op a (plus_op b c)"
begin

lemma ok_foldl: "ok a \<Longrightarrow> list_all ok xs \<Longrightarrow> ok (foldl plus_op a xs)"
  by (induction xs arbitrary: a) (auto intro: ok_plus)

lemma ok_sum: "list_all ok xs \<Longrightarrow> ok (foldl plus_op unit_elem xs)"
  by (rule ok_foldl [OF ok_unit])

lemma foldl_start:
  "ok a \<Longrightarrow> list_all ok xs \<Longrightarrow> foldl plus_op a xs = plus_op a (foldl plus_op unit_elem xs)"
proof (induction xs arbitrary: a)
  case Nil
  then show ?case
    by (simp add: plus_comm [of a unit_elem] ok_unit plus_unit)
next
  case (Cons x xs)
  then have "foldl plus_op a (x # xs) = plus_op (plus_op a x) (foldl plus_op unit_elem xs)"
    by (simp add: ok_plus)
  also have "\<dots> = plus_op a (plus_op x (foldl plus_op unit_elem xs))"
    using Cons.prems by (simp add: plus_assoc ok_sum)
  also have "plus_op x (foldl plus_op unit_elem xs) = foldl plus_op x xs"
    using Cons by simp
  finally show ?case
    using Cons.prems by (simp add: plus_unit)
qed

lemma sum_Cons:
  "ok x \<Longrightarrow> list_all ok xs \<Longrightarrow> foldl plus_op unit_elem (x # xs) = plus_op x (foldl plus_op unit_elem xs)"
  by (simp add: plus_unit foldl_start)

lemma sum_append:
  "list_all ok xs \<Longrightarrow> list_all ok ys \<Longrightarrow>
   foldl plus_op unit_elem (xs @ ys) = plus_op (foldl plus_op unit_elem xs) (foldl plus_op unit_elem ys)"
  by (simp add: foldl_start ok_sum)

lemma left_commute:
  "ok a \<Longrightarrow> ok b \<Longrightarrow> ok c \<Longrightarrow> plus_op a (plus_op b c) = plus_op b (plus_op a c)"
  by (metis plus_assoc plus_comm)

lemma sum_remove:
  "x \<in> set xs \<Longrightarrow> list_all ok xs \<Longrightarrow> foldl plus_op unit_elem xs = plus_op x (foldl plus_op unit_elem (remove1 x xs))"
proof (induction xs)
  case (Cons y ys)
  show ?case
  proof (cases "x = y")
    case False
    have oks: "ok x" "ok y" "list_all ok (remove1 x ys)"
      using Cons.prems by (auto simp: list_all_iff dest: notin_set_remove1)
    then have "foldl plus_op unit_elem (y # ys) = plus_op y (plus_op x (foldl plus_op unit_elem (remove1 x ys)))"
      using Cons False by (simp add: sum_Cons del: foldl_Cons)
    also have "\<dots> = plus_op x (plus_op y (foldl plus_op unit_elem (remove1 x ys)))"
      using oks by (intro left_commute ok_sum)
    finally show ?thesis
      using oks False by (simp add: sum_Cons del: foldl_Cons)
  qed (use Cons.prems in \<open>simp add: sum_Cons del: foldl_Cons\<close>)
qed simp

lemma sum_mset: "mset xs = mset ys \<Longrightarrow> list_all ok xs \<Longrightarrow> foldl plus_op unit_elem xs = foldl plus_op unit_elem ys"
proof (induction xs arbitrary: ys)
  case (Cons x xs)
  have y: "x \<in> set ys" "mset xs = mset (remove1 x ys)"
    using Cons.prems(1) by (metis list.set_intros(1) set_mset_mset, metis add_mset_remove_trivial mset.simps(2) mset_remove1)
  have "list_all ok ys"
    using Cons.prems by (metis list_all_iff set_mset_mset)
  then show ?case
    using Cons.IH [OF y(2)] Cons.prems(2) sum_remove [OF y(1)] sum_Cons [of x xs] by simp
qed simp

lemma sum_concat:
  "list_all (list_all ok) xss \<Longrightarrow>
   foldl plus_op unit_elem (map (foldl plus_op unit_elem) xss) = foldl plus_op unit_elem (concat xss)"
proof (induction xss)
  case (Cons xs xss)
  then have oks: "list_all ok xs" "list_all ok (concat xss)" "list_all ok (map (foldl plus_op unit_elem) xss)"
    by (auto simp: list_all_iff intro!: ok_sum [unfolded list_all_iff])
  then have "foldl plus_op unit_elem (map (foldl plus_op unit_elem) (xs # xss)) =
      plus_op (foldl plus_op unit_elem xs) (foldl plus_op unit_elem (map (foldl plus_op unit_elem) xss))"
    by (simp only: list.map sum_Cons ok_sum)
  also have "\<dots> = foldl plus_op unit_elem (concat (xs # xss))"
    using Cons oks sum_append by simp
  finally show ?case .
qed simp

lemma ok_update: "list_all ok (map snd mp) \<Longrightarrow> ok v \<Longrightarrow> list_all ok (map snd (AList.update k v mp))"
  by (induction mp) auto

lemma ok_lookup: "list_all ok (map snd mp) \<Longrightarrow> ok (case map_of mp k of Some y \<Rightarrow> y | None \<Rightarrow> unit_elem)"
  by (force simp: list_all_iff ok_unit dest: map_of_SomeD split: option.split)

text \<open>Summing by key: \<open>entry(key).or_default().add_assign(x)\<close>.\<close>

lemma sum_upsert:
  assumes "list_all ok (map snd mp)" "ok x"
  shows "foldl plus_op unit_elem (map snd (AList.update k (plus_op (case map_of mp k of Some y \<Rightarrow> y | None \<Rightarrow> unit_elem) x) mp)) =
    plus_op (foldl plus_op unit_elem (map snd mp)) x"
  using assms
proof (induction mp)
  case Nil
  then show ?case
    by (simp add: plus_unit)
next
  case (Cons p mp)
  obtain k' y where p: "p = (k', y)" by (cases p)
  have oks: "ok y" "ok x" "list_all ok (map snd mp)" "ok (foldl plus_op unit_elem (map snd mp))"
    using Cons.prems p by (auto intro: ok_sum)
  show ?case
  proof (cases "k' = k")
    case True
    then have "foldl plus_op unit_elem (map snd (AList.update k (plus_op (case map_of (p # mp) k of Some y \<Rightarrow> y | None \<Rightarrow> unit_elem) x) (p # mp))) =
        plus_op (plus_op y x) (foldl plus_op unit_elem (map snd mp))"
      using oks p by (simp add: sum_Cons ok_plus del: foldl_Cons)
    also have "\<dots> = plus_op (plus_op y (foldl plus_op unit_elem (map snd mp))) x"
      using oks by (metis plus_assoc plus_comm)
    finally show ?thesis
      using oks p by (simp add: sum_Cons del: foldl_Cons)
  next
    case False
    let ?v = "plus_op (case map_of mp k of Some y \<Rightarrow> y | None \<Rightarrow> unit_elem) x"
    have "list_all ok (map snd (AList.update k ?v mp))"
      using oks by (intro ok_update ok_plus ok_lookup)
    then show ?thesis
      using Cons False p oks by (simp add: sum_Cons plus_assoc del: foldl_Cons)
  qed
qed

end

section \<open>Metrics\<close>

definition counter_ok :: "int \<Rightarrow> bool" where
  "counter_ok x \<longleftrightarrow> 0 \<le> x \<and> x < 2 ^ 63"

definition metrics_ok :: "usage_metrics \<Rightarrow> bool" where
  "metrics_ok m \<longleftrightarrow> list_all counter_ok (metrics_fields m) \<and>
     um_cost_complete m = (um_unpriced_request_count m = 0)"

lemma saturating_add_nonneg: "0 \<le> a \<Longrightarrow> 0 \<le> b \<Longrightarrow> i64_saturating_add a b = min (2 ^ 63 - 1) (a + b)"
  by (simp add: i64_saturating_add_def)

definition cap_add :: "int \<Rightarrow> int \<Rightarrow> int" where
  "cap_add x y = min (2 ^ 63 - 1) (x + y)"

lemma cap_add_laws:
  "counter_ok x \<Longrightarrow> counter_ok y \<Longrightarrow> counter_ok (cap_add x y)"
  "cap_add x y = cap_add y x"
  "counter_ok x \<Longrightarrow> counter_ok y \<Longrightarrow> counter_ok z \<Longrightarrow> cap_add (cap_add x y) z = cap_add x (cap_add y z)"
  "counter_ok x \<Longrightarrow> cap_add 0 x = x"
  by (auto simp: cap_add_def counter_ok_def min_def)

lemma map2_cap_laws:
  "list_all counter_ok xs \<Longrightarrow> list_all counter_ok ys \<Longrightarrow> list_all counter_ok (map2 cap_add xs ys)"
  "length xs = length ys \<Longrightarrow> map2 cap_add xs ys = map2 cap_add ys xs"
  "length xs = length ys \<Longrightarrow> length ys = length zs \<Longrightarrow> list_all counter_ok xs \<Longrightarrow> list_all counter_ok ys \<Longrightarrow>
     list_all counter_ok zs \<Longrightarrow> map2 cap_add (map2 cap_add xs ys) zs = map2 cap_add xs (map2 cap_add ys zs)"
  "list_all counter_ok xs \<Longrightarrow> map2 cap_add (replicate (length xs) 0) xs = xs"
proof -
  show "list_all counter_ok xs \<Longrightarrow> list_all counter_ok ys \<Longrightarrow> list_all counter_ok (map2 cap_add xs ys)"
    by (auto simp: list_all_iff intro!: cap_add_laws(1) dest: set_zip_leftD set_zip_rightD)
  show "length xs = length ys \<Longrightarrow> map2 cap_add xs ys = map2 cap_add ys xs"
    by (induction xs ys rule: list_induct2) (simp_all add: cap_add_laws(2))
  show "length xs = length ys \<Longrightarrow> length ys = length zs \<Longrightarrow> list_all counter_ok xs \<Longrightarrow> list_all counter_ok ys \<Longrightarrow>
     list_all counter_ok zs \<Longrightarrow> map2 cap_add (map2 cap_add xs ys) zs = map2 cap_add xs (map2 cap_add ys zs)"
    by (induction xs ys zs rule: list_induct3) (simp_all add: cap_add_laws(3))
  show "list_all counter_ok xs \<Longrightarrow> map2 cap_add (replicate (length xs) 0) xs = xs"
    by (induction xs) (simp_all add: cap_add_laws(4))
qed

lemma length_metrics_fields [simp]: "length (metrics_fields m) = 9"
  by (simp add: metrics_fields_def)

lemma add_fields:
  assumes "metrics_ok a" "metrics_ok b"
  shows "metrics_fields (metrics_add_assign a b) = map2 cap_add (metrics_fields a) (metrics_fields b)"
  using assms
  by (simp add: cap_add_def counter_ok_def metrics_fields_def metrics_add_assign_def tokens_add_assign_def metrics_ok_def saturating_add_nonneg Let_def)

lemma metrics_eqI:
  assumes "metrics_ok a" "metrics_ok b" "metrics_fields a = metrics_fields b" shows "a = b"
  using assms unfolding metrics_ok_def metrics_fields_def
  by (intro usage_metrics.equality usage_tokens.equality) simp_all

lemma metrics_ok_default: "metrics_ok default_metrics"
  by (simp add: metrics_ok_def counter_ok_def metrics_fields_def default_metrics_def default_tokens_def)

lemma metrics_ok_add:
  assumes "metrics_ok a" "metrics_ok b" shows "metrics_ok (metrics_add_assign a b)"
proof -
  have "list_all counter_ok (metrics_fields (metrics_add_assign a b))"
    unfolding add_fields [OF assms] using assms by (simp add: metrics_ok_def map2_cap_laws(1))
  then show ?thesis
    by (simp add: metrics_ok_def metrics_add_assign_def Let_def)
qed

interpretation ms: saturating_sum metrics_add_assign default_metrics metrics_ok
proof
  fix a b c
  assume oks: "metrics_ok a" "metrics_ok b" "metrics_ok c"
  have fields: "list_all counter_ok (metrics_fields x)" if "metrics_ok x" for x
    using that by (simp add: metrics_ok_def)
  have zero: "metrics_fields default_metrics = replicate (length (metrics_fields a)) 0"
    by (simp add: metrics_fields_def default_metrics_def default_tokens_def)
  show "metrics_add_assign default_metrics a = a"
    using oks(1)
    by (intro metrics_eqI metrics_ok_add metrics_ok_default)
       (simp_all only: add_fields metrics_ok_default zero map2_cap_laws(4) fields)
  show "metrics_add_assign a b = metrics_add_assign b a"
    using oks by (intro metrics_eqI metrics_ok_add) (simp_all add: add_fields map2_cap_laws(2))
  show "metrics_add_assign (metrics_add_assign a b) c = metrics_add_assign a (metrics_add_assign b c)"
    using oks by (intro metrics_eqI metrics_ok_add) (simp_all add: add_fields metrics_ok_add map2_cap_laws(3) fields)
qed (simp_all add: metrics_ok_default metrics_ok_add)

section \<open>Events\<close>

definition event_metrics :: "usage_event \<Rightarrow> usage_metrics" where
  "event_metrics e = group_metrics [e]"

lemma group_fields_Cons:
  "metrics_fields (group_metrics (e # es)) = map2 (+) (metrics_fields (event_metrics e)) (metrics_fields (group_metrics es))"
  by (simp add: event_metrics_def group_metrics_def metrics_fields_def Let_def)

lemma unpriced_part_nonneg: "0 \<le> n \<Longrightarrow> 0 \<le> unpriced_part c n"
  by (simp add: unpriced_part_def split: option.split)

lemma event_metrics_nonneg: "event_valid e \<Longrightarrow> list_all (\<lambda>x. 0 \<le> x) (metrics_fields (event_metrics e))"
  by (simp add: event_metrics_def group_metrics_def metrics_fields_def event_valid_def costs_valid_def
      event_unpriced_tokens_def unpriced_part_nonneg Let_def)

lemma map2_add_split:
  "length xs = length ys \<Longrightarrow> list_all (\<lambda>x. 0 \<le> x) xs \<Longrightarrow> list_all (\<lambda>x. 0 \<le> x) ys \<Longrightarrow>
   list_all i64_range (map2 (+) xs ys) \<Longrightarrow>
   list_all counter_ok xs \<and> list_all counter_ok ys \<and> list_all counter_ok (map2 (+) xs ys) \<and> map2 cap_add xs ys = map2 (+) xs ys"
  by (induction xs ys rule: list_induct2) (auto simp: counter_ok_def i64_range_def cap_add_def)

lemma map2_add_nonneg:
  "length xs = length ys \<Longrightarrow> list_all (\<lambda>x :: int. 0 \<le> x) xs \<Longrightarrow> list_all (\<lambda>x. 0 \<le> x) ys \<Longrightarrow> list_all (\<lambda>x. 0 \<le> x) (map2 (+) xs ys)"
  by (induction xs ys rule: list_induct2) auto

lemma group_metrics_complete: "um_cost_complete (group_metrics es) = (um_unpriced_request_count (group_metrics es) = 0)"
  by (simp add: group_metrics_def Let_def)

lemma group_metrics_Nil: "group_metrics [] = default_metrics"
  by (simp add: group_metrics_def default_metrics_def default_tokens_def Let_def)

lemma group_metrics_nonneg: "list_all event_valid es \<Longrightarrow> list_all (\<lambda>x. 0 \<le> x) (metrics_fields (group_metrics es))"
proof (induction es)
  case (Cons e es)
  then show ?case
    unfolding group_fields_Cons using event_metrics_nonneg by (intro map2_add_nonneg) auto
qed (simp add: group_metrics_Nil metrics_fields_def default_metrics_def default_tokens_def)

lemma group_metrics_sum:
  assumes "list_all event_valid es" "list_all i64_range (metrics_fields (group_metrics es))"
  shows "metrics_ok (group_metrics es) \<and> list_all metrics_ok (map event_metrics es) \<and>
    group_metrics es = sum_metrics (map event_metrics es)"
  using assms
proof (induction es)
  case Nil
  then show ?case
    by (simp add: group_metrics_Nil metrics_ok_default sum_metrics_def)
next
  case (Cons e es)
  note parts = map2_add_split [OF _ event_metrics_nonneg group_metrics_nonneg, of e es]
  have ok: "metrics_ok (event_metrics e)" "metrics_ok (group_metrics es)" "metrics_ok (group_metrics (e # es))"
    using parts Cons.prems group_metrics_complete [of "[e]"]
    by (auto simp: metrics_ok_def group_fields_Cons group_metrics_complete event_metrics_def [symmetric])
  have "list_all i64_range (metrics_fields (group_metrics es))"
    using ok(2) by (auto simp: metrics_ok_def list_all_iff counter_ok_def i64_range_def)
  then have es: "list_all metrics_ok (map event_metrics es)" "group_metrics es = sum_metrics (map event_metrics es)"
    using Cons by auto
  have "group_metrics (e # es) = metrics_add_assign (event_metrics e) (group_metrics es)"
    using ok parts Cons.prems by (intro metrics_eqI metrics_ok_add) (simp_all add: add_fields group_fields_Cons)
  then show ?case
    using ok es ms.sum_Cons [of "event_metrics e" "map event_metrics es"] by (simp add: sum_metrics_def)
qed

text \<open>Grouping by a key and adding the groups is adding the events.\<close>

lemma mset_partition:
  assumes "distinct ks" "set ks = key ` set es"
  shows "mset (concat (map (\<lambda>k. filter (\<lambda>e. key e = k) es) ks)) = mset es"
proof (rule multiset_eqI)
  fix x
  have "count (mset (concat (map (\<lambda>k. filter (\<lambda>e. key e = k) es) ks))) x = (\<Sum>k\<leftarrow>ks. count (filter_mset (\<lambda>e. key e = k) (mset es)) x)"
    by (induction ks) simp_all
  also have "\<dots> = (\<Sum>k \<in> set ks. if k = key x then count (mset es) x else 0)"
    using assms(1) by (simp add: sum_list_distinct_conv_sum_set eq_commute)
  also have "\<dots> = count (mset es) x"
    using assms(2) by (auto simp: not_in_iff [symmetric] image_iff intro: count_eq_zero_iff [THEN iffD2, symmetric])
  finally show "count (mset (concat (map (\<lambda>k. filter (\<lambda>e. key e = k) es) ks))) x = count (mset es) x" .
qed

lemma sum_partition:
  assumes "distinct ks" "set ks = key ` set es" "list_all event_valid es"
    and "\<forall>k \<in> set ks. list_all i64_range (metrics_fields (group_metrics (filter (\<lambda>e. key e = k) es)))"
  shows "list_all metrics_ok (map (\<lambda>k. group_metrics (filter (\<lambda>e. key e = k) es)) ks) \<and>
    sum_metrics (map (\<lambda>k. group_metrics (filter (\<lambda>e. key e = k) es)) ks) = sum_metrics (map event_metrics es)"
proof -
  let ?g = "\<lambda>k. filter (\<lambda>e. key e = k) es"
  let ?xss = "map (\<lambda>k. map event_metrics (?g k)) ks"
  have part: "metrics_ok (group_metrics (?g k)) \<and> list_all metrics_ok (map event_metrics (?g k)) \<and>
      group_metrics (?g k) = sum_metrics (map event_metrics (?g k))" if "k \<in> set ks" for k
    using assms(3,4) that by (intro group_metrics_sum) (auto simp: list_all_iff)
  then have "sum_metrics (map (\<lambda>k. group_metrics (?g k)) ks) = sum_metrics (map sum_metrics ?xss)"
    by (intro arg_cong [where f = sum_metrics]) (simp add: comp_def)
  also have "\<dots> = sum_metrics (concat ?xss)"
    using part ms.sum_concat [of ?xss] unfolding sum_metrics_def [abs_def] by (auto simp: list_all_iff)
  also have "concat ?xss = map event_metrics (concat (map ?g ks))"
    by (simp add: map_concat comp_def)
  also have "sum_metrics \<dots> = sum_metrics (map event_metrics es)"
  proof -
    have "mset (map event_metrics (concat (map ?g ks))) = mset (map event_metrics es)"
      using mset_partition [OF assms(1,2)] by (simp add: mset_map del: mset_concat)
    moreover have "list_all metrics_ok (map event_metrics (concat (map ?g ks)))"
      using part by (auto simp: list_all_iff)
    ultimately show ?thesis
      unfolding sum_metrics_def by (rule ms.sum_mset)
  qed
  finally show ?thesis
    using part by (simp only: list_all_iff list.set_map ball_simps) blast
qed

section \<open>Sums by key\<close>

lemma sum_metrics_mset: "mset xs = mset ys \<Longrightarrow> list_all metrics_ok xs \<Longrightarrow> sum_metrics ys = sum_metrics xs"
  unfolding sum_metrics_def by (rule ms.sum_mset [symmetric])

lemma add_metrics_sum:
  assumes "list_all metrics_ok (map snd mp)" "metrics_ok x"
  shows "list_all metrics_ok (map snd (add_metrics k x mp)) \<and>
    sum_metrics (map snd (add_metrics k x mp)) = metrics_add_assign (sum_metrics (map snd mp)) x"
  using assms ms.sum_upsert [OF assms, of k] ms.ok_update [OF assms(1)] ms.ok_lookup [OF assms(1), of k]
  by (simp add: add_metrics_def sum_metrics_def metrics_ok_add)

lemma sum_by_key:
  assumes "list_all metrics_ok (map f rows)" "list_all metrics_ok (map snd mp)"
  shows "list_all metrics_ok (map snd (foldl (\<lambda>m r. add_metrics (key r) (f r) m) mp rows)) \<and>
    sum_metrics (map snd (foldl (\<lambda>m r. add_metrics (key r) (f r) m) mp rows)) =
      metrics_add_assign (sum_metrics (map snd mp)) (sum_metrics (map f rows))"
  using assms
proof (induction rows arbitrary: mp)
  case Nil
  then show ?case
    using ms.plus_comm [of "sum_metrics (map snd mp)" default_metrics] ms.ok_sum [of "map snd mp"]
      metrics_ok_default ms.plus_unit
    by (simp add: sum_metrics_def)
next
  case (Cons r rows)
  have sums: "metrics_ok (sum_metrics (map snd mp))" "metrics_ok (sum_metrics (map f rows))" "metrics_ok (f r)"
    using Cons.prems ms.ok_sum by (auto simp: sum_metrics_def)
  have "sum_metrics (map f (r # rows)) = metrics_add_assign (f r) (sum_metrics (map f rows))"
    using Cons.prems ms.sum_Cons [of "f r" "map f rows"] by (simp add: sum_metrics_def)
  then show ?case
    using Cons add_metrics_sum [of mp "f r" "key r"] sums ms.plus_assoc by simp
qed

lemma by_key_distinct:
  "distinct (map fst mp) \<Longrightarrow> distinct (map fst (foldl (\<lambda>m r. add_metrics (key r) (f r) m) mp rows))"
  by (induction rows arbitrary: mp) (simp_all add: add_metrics_def distinct_update)

lemma by_key_keys:
  "fst ` set (foldl (\<lambda>m r. add_metrics (key r) (f r) m) mp rows) = fst ` set mp \<union> key ` set rows"
  by (induction rows arbitrary: mp) (auto simp: add_metrics_def dom_update image_iff)

section \<open>Buckets\<close>

definition day_metrics :: "(int, usage_metrics) hash_map \<Rightarrow> int \<Rightarrow> usage_metrics" where
  "day_metrics by_day d = (case map_of by_day d of Some x \<Rightarrow> x | None \<Rightarrow> default_metrics)"

lemma sum_fun_upd:
  assumes "distinct ds" "d0 \<in> set ds" "list_all metrics_ok (map f ds)" "f d0 = default_metrics" "metrics_ok m"
  shows "sum_metrics (map (f(d0 := m)) ds) = metrics_add_assign m (sum_metrics (map f ds))"
proof -
  obtain xs ys where ds: "ds = xs @ d0 # ys"
    using assms(2) by (meson split_list)
  then have same: "map (f(d0 := m)) xs = map f xs" "map (f(d0 := m)) ys = map f ys"
    using assms(1) by auto
  have oks: "list_all metrics_ok (map f xs)" "list_all metrics_ok (map f ys)"
    using assms(3) ds by auto
  then have sums: "metrics_ok (sum_metrics (map f xs))" "metrics_ok (sum_metrics (map f ys))"
    using ms.ok_sum by (auto simp: sum_metrics_def)
  have at: "sum_metrics (map f xs @ x # map f ys) = metrics_add_assign (sum_metrics (map f xs)) (metrics_add_assign x (sum_metrics (map f ys)))"
    if "metrics_ok x" for x
    using ms.sum_append [of "map f xs" "x # map f ys"] ms.sum_Cons [of x "map f ys"] oks that
    by (simp add: sum_metrics_def del: foldl_Cons foldl_append)
  have "map (f(d0 := m)) ds = map f xs @ m # map f ys" "map f ds = map f xs @ default_metrics # map f ys"
    unfolding ds by (simp_all only: map_append list.map same fun_upd_same assms(4))
  then show ?thesis
    using at [OF assms(5)] at [OF metrics_ok_default] assms(5) sums
    by (simp add: ms.plus_unit ms.left_commute)
qed

lemma sum_days:
  assumes "distinct ds" "distinct (map fst mp)" "fst ` set mp \<subseteq> set ds" "list_all metrics_ok (map snd mp)"
  shows "list_all metrics_ok (map (day_metrics mp) ds) \<and>
    sum_metrics (map (day_metrics mp) ds) = sum_metrics (map snd mp)"
  using assms
proof (induction mp)
  case Nil
  have "day_metrics [] = (\<lambda>_. default_metrics)"
    by (simp add: day_metrics_def fun_eq_iff)
  moreover have "sum_metrics (map (\<lambda>_. default_metrics) ds) = default_metrics"
    using ms.plus_unit [OF metrics_ok_default] by (induction ds) (simp_all add: sum_metrics_def)
  ultimately show ?case
    by (simp add: list_all_iff metrics_ok_default sum_metrics_def)
next
  case (Cons p mp)
  obtain k m where p: "p = (k, m)" by (cases p)
  have IH: "list_all metrics_ok (map (day_metrics mp) ds)" "sum_metrics (map (day_metrics mp) ds) = sum_metrics (map snd mp)"
    using Cons by auto
  have m: "metrics_ok m" "list_all metrics_ok (map snd mp)" "k \<in> set ds" "map_of mp k = None"
    using Cons.prems p by (auto simp: map_of_eq_None_iff)
  have upd: "day_metrics (p # mp) = (day_metrics mp)(k := m)"
    by (auto simp: day_metrics_def p fun_eq_iff)
  have "sum_metrics (map ((day_metrics mp)(k := m)) ds) = metrics_add_assign m (sum_metrics (map (day_metrics mp) ds))"
    using assms(1) m IH(1) by (intro sum_fun_upd) (simp_all add: day_metrics_def)
  moreover have "sum_metrics (map snd (p # mp)) = metrics_add_assign m (sum_metrics (map snd mp))"
    using m ms.sum_Cons [of m "map snd mp"] by (simp add: p sum_metrics_def)
  moreover have "list_all metrics_ok (map ((day_metrics mp)(k := m)) ds)"
    using m(1) IH(1) by (auto simp: list_all_iff)
  ultimately show ?case
    using IH(2) unfolding upd by metis
qed

text \<open>The metrics of the buckets, by the day each starts with.\<close>

definition bucket_sums :: "bucket_map \<Rightarrow> (int, usage_metrics) hash_map" where
  "bucket_sums b = map (\<lambda>(k, s, e, m). (k, m)) b"

lemma bucket_sums_update: "bucket_sums (AList.update k (s, e, m) b) = AList.update k m (bucket_sums b)"
  by (induction b) (auto simp: bucket_sums_def)

lemma bucket_sums_lookup: "map_of (bucket_sums b) k = map_option (\<lambda>(s, e, m). m) (map_of b k)"
  by (induction b) (auto simp: bucket_sums_def)

lemma bucket_day_sums:
  assumes "list_all metrics_ok (map snd by_day)" "list_all metrics_ok (map snd (bucket_sums b))" "i32_range date"
  shows "list_all metrics_ok (map snd (bucket_sums (bucket_day by_day ns date b))) \<and>
    sum_metrics (map snd (bucket_sums (bucket_day by_day ns date b))) =
      metrics_add_assign (sum_metrics (map snd (bucket_sums b))) (day_metrics by_day date)"
proof -
  let ?old = "case map_of (bucket_sums b) ns of Some y \<Rightarrow> y | None \<Rightarrow> default_metrics"
  have ok: "metrics_ok ?old" "metrics_ok (day_metrics by_day date)"
    using ms.ok_lookup [OF assms(2)] ms.ok_lookup [OF assms(1)] by (simp_all add: day_metrics_def)
  have date: "sg_day_from_date date = date"
    using assms(3) by (simp add: sg_day_from_date_def i32_checked_def)
  have unit: "metrics_add_assign ?old default_metrics = ?old"
    using ms.plus_comm [OF ok(1) metrics_ok_default] ms.plus_unit [OF ok(1)] by simp
  have "bucket_sums (bucket_day by_day ns date b) = AList.update ns (metrics_add_assign ?old (day_metrics by_day date)) (bucket_sums b)"
    using unit
    by (cases "map_of b ns"; cases "map_of by_day date")
       (auto simp: bucket_day_def date day_metrics_def bucket_sums_update bucket_sums_lookup split: prod.splits)
  then show ?thesis
    using ms.sum_upsert [OF assms(2) ok(2), of ns] ms.ok_update [OF assms(2) metrics_ok_add [OF ok]]
    by (simp add: sum_metrics_def)
qed

lemma bucket_loop_sums:
  assumes "bucket_loop cal g by_day e d b = Done b'" "list_all metrics_ok (map snd by_day)"
    "list_all metrics_ok (map snd (bucket_sums b))" "\<forall>x. d \<le> x \<and> x \<le> e \<longrightarrow> i32_range x"
  shows "list_all metrics_ok (map snd (bucket_sums b')) \<and>
    sum_metrics (map snd (bucket_sums b')) =
      metrics_add_assign (sum_metrics (map snd (bucket_sums b))) (sum_metrics (map (day_metrics by_day) [d..e]))"
  using assms
proof (induction cal g by_day e d b rule: bucket_loop.induct)
  case (1 cal g by_day e d b)
  have ok: "metrics_ok (sum_metrics (map snd (bucket_sums b)))" "\<And>x. metrics_ok (day_metrics by_day x)"
    "\<And>xs. metrics_ok (sum_metrics (map (day_metrics by_day) xs))"
    using 1(3,4) ms.ok_sum ms.ok_lookup [of by_day]
    by (auto simp: sum_metrics_def day_metrics_def list_all_iff)
  show ?case
  proof (cases "d > e")
    case True
    then have "b' = b"
      using 1(2) by (simp add: bucket_loop.simps [of cal g by_day e d])
    then show ?thesis
      using True 1(4) ok(1) ms.plus_comm [OF ok(1) metrics_ok_default] ms.plus_unit by (simp add: sum_metrics_def)
  next
    case False
    obtain ns where ns: "bucket_start cal g d = Done ns"
      using 1(2) False by (auto simp: bucket_loop.simps [of cal g by_day e d] outcome_bind_Done_iff)
    have nxt: "checked_add_days cal d 1 = Some (d + 1)"
      using 1(2) False ns by (auto simp: bucket_loop.simps [of cal g by_day e d] checked_add_days_def split: if_splits)
    then have rec: "bucket_loop cal g by_day e (d + 1) (bucket_day by_day ns d b) = Done b'"
      using 1(2) False ns by (simp add: bucket_loop.simps [of cal g by_day e d])
    have day: "list_all metrics_ok (map snd (bucket_sums (bucket_day by_day ns d b)))"
      "sum_metrics (map snd (bucket_sums (bucket_day by_day ns d b))) =
        metrics_add_assign (sum_metrics (map snd (bucket_sums b))) (day_metrics by_day d)"
      using bucket_day_sums [OF 1(3,4), of d ns] 1(5) False by auto
    have "sum_metrics (map (day_metrics by_day) [d..e]) =
        metrics_add_assign (day_metrics by_day d) (sum_metrics (map (day_metrics by_day) [d + 1..e]))"
      using False ok ms.sum_Cons [of "day_metrics by_day d" "map (day_metrics by_day) [d + 1..e]"]
      by (simp add: upto_rec1 sum_metrics_def list_all_iff)
    then show ?thesis
      using 1(1) [OF False nxt rec 1(3) day(1)] 1(5) day(2) ok ms.plus_assoc by simp
  qed
qed

text \<open>
  The loop does not panic within the calendar: the range ends before its last day, and starts at least
  a week after its first. Every bucket ends within the range.
\<close>

definition calendar_fits :: "calendar \<Rightarrow> int \<Rightarrow> int \<Rightarrow> bool" where
  "calendar_fits cal s e \<longleftrightarrow> - (2 ^ 31) \<le> cal_min cal \<and> cal_max cal < 2 ^ 31 \<and> cal_min cal + 6 \<le> s \<and> e < cal_max cal \<and>
     (\<forall>d. s \<le> d \<and> d \<le> e \<longrightarrow> 0 \<le> cal_weekday cal d \<and> cal_weekday cal d \<le> 6)"

lemma bucket_loop_done:
  assumes "calendar_fits cal s e" "s \<le> d" "\<forall>(k, x, y, m) \<in> set b. s \<le> y \<and> y \<le> e"
  shows "\<exists>b'. bucket_loop cal g by_day e d b = Done b' \<and> (\<forall>(k, x, y, m) \<in> set b'. s \<le> y \<and> y \<le> e)"
  using assms
proof (induction cal g by_day e d b rule: bucket_loop.induct)
  case (1 cal g by_day e d b)
  show ?case
  proof (cases "d > e")
    case True
    then show ?thesis
      using 1(4) by (simp add: bucket_loop.simps [of cal g by_day e d])
  next
    case False
    then have "0 \<le> cal_weekday cal d" "cal_weekday cal d \<le> 6"
      using 1(2,3) by (auto simp: calendar_fits_def)
    then obtain ns where ns: "bucket_start cal g d = Done ns"
      using 1(2,3) False
      by (cases g) (auto simp: bucket_start_def checked_add_days_def calendar_fits_def)
    have nxt: "checked_add_days cal d 1 = Some (d + 1)"
      using 1(2,3) False by (auto simp: checked_add_days_def calendar_fits_def)
    have "\<forall>(k, x, y, m) \<in> set (bucket_day by_day ns d b). s \<le> y \<and> y \<le> e"
      using 1(3,4) False
      by (auto simp: bucket_day_def split: prod.splits dest!: set_alist_update)
    then show ?thesis
      using 1(1) [OF False nxt 1(2), of ns] 1(3) False ns nxt by (simp add: bucket_loop.simps [of cal g by_day e d])
  qed
qed

lemma map_outcome_done:
  "(\<And>x. x \<in> set xs \<Longrightarrow> \<exists>y. f x = Done y \<and> g y = h x) \<Longrightarrow> \<exists>ys. map_outcome f xs = Done ys \<and> map g ys = map h xs"
proof (induction xs)
  case (Cons x xs)
  then obtain y ys where "f x = Done y" "g y = h x" "map_outcome f xs = Done ys" "map g ys = map h xs"
    by fastforce
  then show ?case
    by simp
qed simp

lemma build_buckets_sum:
  assumes "calendar_fits cal s e" "distinct (map fst by_day)" "fst ` set by_day \<subseteq> {s..e}" "list_all metrics_ok (map snd by_day)"
  shows "\<exists>buckets. build_buckets cal s e g by_day = Done buckets \<and>
    sum_metrics (map bu_metrics buckets) = sum_metrics (map snd by_day)"
proof -
  obtain b where b: "bucket_loop cal g by_day e s [] = Done b" "\<forall>(k, x, y, m) \<in> set b. s \<le> y \<and> y \<le> e"
    using bucket_loop_done [OF assms(1), of s "[]" g by_day] by auto
  have i32: "\<forall>x. s \<le> x \<and> x \<le> e \<longrightarrow> i32_range x"
    using assms(1) by (auto simp: calendar_fits_def i32_range_def)
  have oks: "list_all metrics_ok (map snd (bucket_sums []))"
    by (simp add: bucket_sums_def)
  have days: "list_all metrics_ok (map (day_metrics by_day) [s..e])"
    "sum_metrics (map (day_metrics by_day) [s..e]) = sum_metrics (map snd by_day)"
    using sum_days [of "[s..e]" by_day] assms by auto
  have "list_all metrics_ok (map snd (bucket_sums b)) \<and> sum_metrics (map snd (bucket_sums b)) =
      metrics_add_assign default_metrics (sum_metrics (map (day_metrics by_day) [s..e]))"
    using bucket_loop_sums [OF b(1) assms(4) oks i32] by (simp add: bucket_sums_def sum_metrics_def)
  then have sums: "list_all metrics_ok (map snd (bucket_sums b))" "sum_metrics (map snd (bucket_sums b)) = sum_metrics (map snd by_day)"
    using days ms.plus_unit ms.ok_sum [OF days(1)] by (simp_all add: sum_metrics_def)
  have "\<exists>u. bucket_of cal x = Done u \<and> bu_metrics u = (\<lambda>(k, s, e, m). m) x" if "x \<in> set (sort_key fst b)" for x
    using that b(2) assms(1) by (auto simp: bucket_of_def checked_add_days_def calendar_fits_def split: prod.splits)
  from map_outcome_done [of "sort_key fst b" "bucket_of cal" bu_metrics "\<lambda>(k, s, e, m). m", OF this] obtain us where
    us: "map_outcome (bucket_of cal) (sort_key fst b) = Done us" "map bu_metrics us = map (\<lambda>(k, s, e, m). m) (sort_key fst b)"
    by blast
  have "mset (map snd (bucket_sums b)) = mset (map bu_metrics us)"
    unfolding us(2) by (auto simp: bucket_sums_def multiset.map_comp intro!: image_mset_cong)
  then have "sum_metrics (map bu_metrics us) = sum_metrics (map snd (bucket_sums b))"
    by (rule sum_metrics_mset [OF _ sums(1)])
  then show ?thesis
    using b(1) us(1) sums(2) by (simp add: build_buckets_def)
qed

section \<open>The report adds up\<close>

definition selected_events :: "usage_report_query \<Rightarrow> usage_store \<Rightarrow> usage_event list" where
  "selected_events q st = filter (filter_matches (report_filters q)) (map ur_event (us_rows st))"

lemma aggregate_rows:
  assumes "usage_wf st" "aggregate_daily None (report_filters q) st = Inr rows"
  shows "list_all metrics_ok (map dr_metrics rows)"
    and "sum_metrics (map dr_metrics rows) = sum_metrics (map event_metrics (selected_events q st))"
    and "dr_sg_day ` set rows \<subseteq> {sg_day_from_date (rq_start_date q)..sg_day_from_date (rq_end_date q)}"
proof -
  let ?es = "selected_events q st"
  let ?key = "day_group (uf_group_by (report_filters q))"
  let ?ks = "sort (remdups (map ?key ?es))"
  let ?g = "\<lambda>k. group_metrics (filter (\<lambda>e. ?key e = k) ?es)"
  have rows: "rows = map (\<lambda>k. \<lparr>dr_sg_day = fst k, dr_group_id = fst (snd k), dr_group_text = snd (snd k), dr_metrics = ?g k\<rparr>) ?ks"
    and range: "\<forall>k \<in> set ?ks. list_all i64_range (metrics_fields (?g k))"
    using assms(2) by (auto simp: aggregate_daily_def selected_events_def Let_def list_all_iff split: if_splits)
  have valid: "list_all event_valid ?es"
    using assms(1) by (auto simp: list_all_iff selected_events_def usage_wf_def)
  have ks: "distinct ?ks" "set ?ks = ?key ` set ?es"
    by auto
  have "map dr_metrics rows = map ?g ?ks"
    unfolding rows by (simp add: comp_def)
  then show "list_all metrics_ok (map dr_metrics rows)"
    "sum_metrics (map dr_metrics rows) = sum_metrics (map event_metrics ?es)"
    using sum_partition [OF ks valid range] by (simp_all only:)
  show "dr_sg_day ` set rows \<subseteq> {sg_day_from_date (rq_start_date q)..sg_day_from_date (rq_end_date q)}"
    unfolding rows by (auto simp: selected_events_def day_group_def filter_matches_def report_filters_def)
qed

text \<open>
  A report adds up. For a query within the calendar whose daily sums fit in 64 bits the report is
  produced; its summary is the sum over the stored events the query selects, and its buckets, whatever
  the granularity, and its breakdown, whatever the grouping, each add up to the summary.
\<close>

theorem report_adds_up:
  assumes "usage_wf st" "calendar_fits cal (rq_start_date q) (rq_end_date q)" "rq_start_date q \<le> rq_end_date q"
    and "aggregate_daily None (report_filters q) st = Inr rows"
  shows "\<exists>r. usage_report_of cal None None account_names token_names q st = Done (Inr r) \<and>
    re_summary r = sum_metrics (map event_metrics (selected_events q st)) \<and>
    sum_metrics (map bu_metrics (re_buckets r)) = re_summary r \<and>
    sum_metrics (map br_metrics (re_breakdown r)) = re_summary r"
proof -
  note agg = aggregate_rows [OF assms(1,4)]
  let ?by_day = "foldl (\<lambda>m r. add_metrics (dr_sg_day r) (dr_metrics r) m) [] rows"
  let ?by_key = "foldl (\<lambda>m r. add_metrics (group_key (rq_group_by q) r) (dr_metrics r) m) [] rows"
  have days: "sg_day_from_date (rq_start_date q) = rq_start_date q" "sg_day_from_date (rq_end_date q) = rq_end_date q"
    using assms(2,3) by (auto simp: sg_day_from_date_def i32_checked_def calendar_fits_def i32_range_def)
  have start: "metrics_add_assign (sum_metrics (map snd [])) (sum_metrics (map dr_metrics rows)) = sum_metrics (map dr_metrics rows)"
    using ms.plus_unit ms.ok_sum [OF agg(1)] by (simp add: sum_metrics_def)
  have by_day: "list_all metrics_ok (map snd ?by_day)" "sum_metrics (map snd ?by_day) = sum_metrics (map dr_metrics rows)"
    using sum_by_key [OF agg(1), of "[]" dr_sg_day] start by simp_all
  have by_key: "list_all metrics_ok (map snd ?by_key)" "sum_metrics (map snd ?by_key) = sum_metrics (map dr_metrics rows)"
    using sum_by_key [OF agg(1), of "[]" "group_key (rq_group_by q)"] start by simp_all
  have "distinct (map fst ?by_day)"
    by (intro by_key_distinct) simp
  moreover have "fst ` set ?by_day \<subseteq> {rq_start_date q..rq_end_date q}"
    using agg(3) days by (simp add: by_key_keys)
  ultimately obtain buckets where buckets:
    "build_buckets cal (rq_start_date q) (rq_end_date q) (rq_granularity q) ?by_day = Done buckets"
    "sum_metrics (map bu_metrics buckets) = sum_metrics (map snd ?by_day)"
    using build_buckets_sum [OF assms(2) _ _ by_day(1)] by blast
  obtain labels where labels: "group_labels None (rq_group_by q) (uf_start_sg_day (report_filters q)) account_names token_names st = Inr labels"
    by (cases "rq_group_by q") (auto simp: group_labels_def dimensions_def Let_def)
  let ?entries = "map (\<lambda>(k, m). \<lparr>br_key = k, br_label = (case map_of labels k of Some l \<Rightarrow> l | None \<Rightarrow> k), br_metrics = m\<rparr>)
    (sort_key fst ?by_key)"
  have "mset (map snd ?by_key) = mset (map br_metrics (sort_key h ?entries))" for h :: "usage_breakdown_row \<Rightarrow> int \<times> int \<times> string"
    by (auto simp: multiset.map_comp intro!: image_mset_cong)
  then have entries: "sum_metrics (map br_metrics (sort_key h ?entries)) = sum_metrics (map snd ?by_key)" for h :: "usage_breakdown_row \<Rightarrow> int \<times> int \<times> string"
    by (rule sum_metrics_mset [OF _ by_key(1)])
  show ?thesis
    using buckets entries by_day(2) by_key(2) agg(2)
    by (simp add: usage_report_of_def assms(4) labels Let_def)
qed

text \<open>A calendar of thirty-day months, and a table with the same event on two days.\<close>

definition example_calendar :: calendar where
  "example_calendar = \<lparr>cal_month_start = (\<lambda>d. d - d mod 30), cal_weekday = (\<lambda>d. (d + 3) mod 7), cal_format = int_to_string,
     cal_min = - 100000, cal_max = 100000\<rparr>"

definition two_days :: usage_store where
  "two_days = \<lparr>us_rows = [\<lparr>ur_id = 1, ur_event = example_event ''a''\<rparr>,
      \<lparr>ur_id = 2, ur_event = (example_event ''b'')\<lparr>ue_sg_day := 9\<rparr>\<rparr>], us_next_id = 3, us_pricing_cache = None\<rparr>"

definition example_query :: usage_report_query where
  "example_query = \<lparr>rq_start_date = 0, rq_end_date = 10, rq_granularity = UG_Week, rq_account_id = None,
     rq_api_token_id = None, rq_model = None, rq_group_by = GB_Model\<rparr>"

lemma two_days_wf: "usage_wf two_days"
  using example_event_valid [of "''b''"]
  by (simp add: usage_wf_def two_days_def example_event_valid row_key_def) (simp add: example_event_def event_valid_def
      costs_valid_def cost_check_def default_tokens_def)

theorem report_adds_up_witness:
  "\<exists>r. usage_report_of example_calendar None None [] [] example_query two_days = Done (Inr r) \<and>
     re_summary r = sum_metrics (map event_metrics (selected_events example_query two_days)) \<and>
     length (selected_events example_query two_days) = 2"
proof -
  have fits: "calendar_fits example_calendar (rq_start_date example_query) (rq_end_date example_query)"
    by (auto simp: calendar_fits_def example_calendar_def example_query_def)
  have le: "rq_start_date example_query \<le> rq_end_date example_query"
    by (simp add: example_query_def)
  have "isl (aggregate_daily None (report_filters example_query) two_days) = False"
    by code_simp
  then have "\<exists>rows. aggregate_daily None (report_filters example_query) two_days = Inr rows"
    by (cases "aggregate_daily None (report_filters example_query) two_days") auto
  moreover have "length (selected_events example_query two_days) = 2"
    by code_simp
  ultimately show ?thesis
    using report_adds_up [OF two_days_wf fits le] by blast
qed

end
