(* ===== verification/Admin_Facts.thy ===== *)
theory Admin_Facts
  imports Admin Usage_Report
begin

text \<open>
  What the administrator's handlers promise (\<open>src/handler/router.rs\<close>): the values an update leaves in
  the table, the accounts it retires, the pages of the list, and the usage report of an accepted query.
\<close>

section \<open>Updates\<close>

lemma find_mapped:
  "find p xs = Some x \<Longrightarrow> (\<And>y. p (f y) \<longleftrightarrow> p y) \<Longrightarrow> find p (map (\<lambda>y. if p y then f y else y) xs) = Some (f x)"
  by (induction xs) (auto split: if_splits)

lemma find_other:
  assumes "\<And>y. q y \<Longrightarrow> \<not> p y" "\<And>y. \<not> q (f y) \<longleftrightarrow> \<not> q y"
  shows "find q (map (\<lambda>y. if p y then f y else y) xs) = find q xs"
  using assms by (induction xs) (auto split: if_splits)

lemma get_by_id_row:
  "get_by_id S f i st = Inr a \<Longrightarrow> \<exists>r. find (\<lambda>r. row_id r = i) (ast_rows st) = Some r \<and> a = row_to_account S r \<and> row_id r = i"
  by (auto simp: get_by_id_def find_Some_iff split: option.splits)

lemma stored_update:
  assumes "find (\<lambda>r. row_id r = acc_id n) (ast_rows st) = Some r" "update S now f n st = (Inr (), st')"
  shows "get_by_id S None (acc_id n) st' = Inr (row_to_account S (update_row S now n r))"
    and "i \<noteq> acc_id n \<Longrightarrow> get_by_id S None i st' = get_by_id S None i st"
  using assms(2) find_mapped [OF assms(1), of "update_row S now n"]
    find_other [of "\<lambda>r. row_id r = i" "\<lambda>r. row_id r = acc_id n" "update_row S now n" "ast_rows st"]
  by (auto simp: update_def exec_update_def invalidate_schedulable_cache_def get_by_id_def update_row_def
      split: option.splits)

text \<open>The fields an update leaves alone.\<close>

definition kept_fields :: "account \<Rightarrow> _" where
  "kept_fields a =
     (acc_id a, acc_device_id a, acc_canonical_env a, acc_canonical_process a, acc_rate_limited_at a,
      acc_rate_limit_reset_at a, acc_disable_reason a, acc_telemetry_count a, acc_usage_data a,
      acc_usage_fetched_at a, acc_created_at a)"

lemma updated_row:
  assumes "kept_fields n = kept_fields (row_to_account S r)" "serde_ok S (acc_canonical_prompt n)"
    and "serde_ok S (acc_canonical_env n)"
  shows "row_to_account S (update_row S now n r) =
    n\<lparr>acc_expires_at := map_option fmt_time (acc_expires_at n),
      acc_oauth_refreshed_at := map_option fmt_time (acc_oauth_refreshed_at n), acc_updated_at := fmt_time now\<rparr>"
proof -
  obtain e where e: "acc_canonical_env n = normalize_canonical_env_json e"
    using assms(1) by (simp add: kept_fields_def row_to_account_def)
  have norm: "normalize_canonical_env_json (acc_canonical_env n) = acc_canonical_env n"
    by (simp add: e normalize_idempotent)
  show ?thesis
    by (rule account.equality)
       (use assms norm in \<open>simp_all add: kept_fields_def row_to_account_def update_row_def parse_json_col_def serde_ok_def\<close>)
qed

lemma kept_by_updates:
  "kept_fields (late_updates u a) = kept_fields a"
  "kept_fields (other_status_update s a) = kept_fields a"
  "kept_fields (early_updates C u a) = kept_fields a"
  "kept_fields (a\<lparr>acc_canonical_prompt := p\<rparr>) = kept_fields a"
  by (auto simp: kept_fields_def late_updates_def other_status_update_def early_updates_def credential_updates_def
      auth_type_update_def Let_def split: option.splits account_auth_type.splits)

lemma kept_by_normalize: "normalize_account_auth a = Inr n \<Longrightarrow> kept_fields n = kept_fields a \<and> acc_canonical_prompt n = acc_canonical_prompt a"
  by (auto simp: kept_fields_def normalize_account_auth_def Let_def split: account_auth_type.splits if_splits)

lemma update_account_ok:
  assumes "update_account S now fault a svc = (Inr (), svc')"
  obtains n st where "normalize_account_auth a = Inr n" "update S now fault n (svc_store svc) = (Inr (), st)"
    "svc' = svc\<lparr>svc_store := st\<rparr>"
  using assms by (auto simp: update_account_def Let_def split: sum.splits prod.splits)

text \<open>
  C19. An update is read back. When the handler answers with an account, and the update does not
  switch the status to active or disabled, the table then holds the normalised form of that account:
  looking it up gives the answer without the credentials of the other kind and with its times
  at whole seconds. No other account changes.
\<close>

theorem account_update_reads_back:
  assumes "admin_update_account C S now faults i updates svc = (Inr a, svc')"
    and "Option.bind (jget updates ''status'') as_str \<notin> {Some ''active'', Some ''disabled''}"
    and "serde_ok S (acc_canonical_prompt a)" "serde_ok S (acc_canonical_env a)"
  shows "acc_id a = i \<and> (\<exists>n. normalize_account_auth a = Inr n \<and>
      get_by_id S None i (svc_store svc') =
        Inr (n\<lparr>acc_expires_at := map_option fmt_time (acc_expires_at n),
               acc_oauth_refreshed_at := map_option fmt_time (acc_oauth_refreshed_at n),
               acc_updated_at := fmt_time now\<rparr>)) \<and>
    (\<forall>j. j = i \<or> get_by_id S None j (svc_store svc') = get_by_id S None j (svc_store svc))"
proof -
  obtain b p where b: "get_by_id S (faults 0) i (svc_store svc) = Inr b"
    and a: "a = late_updates updates (other_status_update (Option.bind (jget updates ''status'') as_str)
        (early_updates C updates (b\<lparr>acc_canonical_prompt := p\<rparr>)))"
    and u: "update_account S now (faults 1) a svc = (Inr (), svc')"
    using assms(1,2) by (auto simp: admin_update_account_def Let_def split: sum.splits prod.splits if_splits)
  obtain r where r: "find (\<lambda>r. row_id r = i) (ast_rows (svc_store svc)) = Some r" "b = row_to_account S r" "row_id r = i"
    using get_by_id_row [OF b] by blast
  obtain n st where n: "normalize_account_auth a = Inr n" "update S now (faults 1) n (svc_store svc) = (Inr (), st)"
    "svc' = svc\<lparr>svc_store := st\<rparr>"
    using u by (rule update_account_ok)
  have kept: "kept_fields a = kept_fields b" "kept_fields n = kept_fields b"
    using kept_by_normalize [OF n(1)] by (simp_all add: a kept_by_updates)
  then have ids: "acc_id a = i" "acc_id n = i" "acc_canonical_env n = acc_canonical_env a"
    using r(2,3) by (simp_all add: kept_fields_def row_to_account_def)
  have "row_to_account S (update_row S now n r) = n\<lparr>acc_expires_at := map_option fmt_time (acc_expires_at n),
      acc_oauth_refreshed_at := map_option fmt_time (acc_oauth_refreshed_at n), acc_updated_at := fmt_time now\<rparr>"
    using kept r(2) assms(3,4) ids(3) kept_by_normalize [OF n(1)] by (intro updated_row) simp_all
  then show ?thesis
    using stored_update [of n "svc_store svc" r S now "faults 1" st] r(1) n ids by auto
qed

text \<open>
  A switch of the status ignores the rest of the request. An update that sets the status to
  active or disabled has the effect and the answer of the same update with no other field, whatever
  else it carries, once its working directory is acceptable.
\<close>

theorem status_switch_ignores_rest:
  assumes "Option.bind (jget updates ''status'') as_str = Some s" "s = ''active'' \<or> s = ''disabled''"
    and "\<forall>p. \<exists>q. apply_prompt_working_dir_update p updates = Inr q"
  shows "admin_update_account C S now faults i updates svc =
    admin_update_account C S now faults i (JObj [(''status'', JStr s)]) svc"
proof (cases "get_by_id S (faults 0) i (svc_store svc)")
  case (Inr b)
  obtain q where "apply_prompt_working_dir_update (acc_canonical_prompt b) updates = Inr q"
    using assms(3) by blast
  moreover have "apply_prompt_working_dir_update (acc_canonical_prompt b) (JObj [(''status'', JStr s)]) = Inr (acc_canonical_prompt b)"
    by (simp add: apply_prompt_working_dir_update_def)
  ultimately show ?thesis
    using assms(1,2) Inr by (auto simp: admin_update_account_def)
qed (simp add: admin_update_account_def)

text \<open>
  C37. An oversized limit closes the account. Only the low 32 bits of a positive limit are kept: one
  of which they are not positive is stored, reported as a success, and from then on no request is given a
  slot of the account.
\<close>

theorem oversized_concurrency_closes_account:
  assumes "get_by_id S None i (svc_store svc) = Inr b" "normalize_account_auth b = Inr n"
    and "serde_ok S (acc_canonical_prompt b)" "serde_ok S (acc_canonical_env b)"
    and "0 < k" "k < 2 ^ 63" "i32_wrap (int k) \<le> 0"
  shows "\<exists>a svc' c. admin_update_account C S now (\<lambda>_. None) i (JObj [(''concurrency'', JNum (PosInt k))]) svc = (Inr a, svc') \<and>
    get_by_id S None i (svc_store svc') = Inr c \<and> acc_concurrency c = i32_wrap (int k) \<and>
    (\<forall>inst svc''. mem_slot_count (svc_cache svc'') (slot_key i) < 0 \<or>
       fst (svc_acquire_slot memory_cache inst i (acc_concurrency c) svc'') = Inr False)"
proof -
  let ?u = "JObj [(''concurrency'', JNum (PosInt k))]"
  let ?a = "b\<lparr>acc_concurrency := i32_wrap (int k)\<rparr>"
  let ?n = "n\<lparr>acc_concurrency := i32_wrap (int k)\<rparr>"
  obtain r where r: "find (\<lambda>r. row_id r = i) (ast_rows (svc_store svc)) = Some r" "b = row_to_account S r" "row_id r = i"
    using get_by_id_row [OF assms(1)] by blast
  have norm: "normalize_account_auth ?a = Inr ?n"
    using assms(2) by (auto simp: normalize_account_auth_def Let_def split: account_auth_type.splits if_splits)
  have early: "late_updates ?u (other_status_update None (early_updates C ?u b)) = ?a"
    using assms(5,6)
    by (simp add: late_updates_def other_status_update_def early_updates_def credential_updates_def auth_type_update_def
        nonempty_update_def str_update_def opt_update_def positive_i32_update_def i64_checked_def i64_range_def)
  obtain st where st: "update S now None ?n (svc_store svc) = (Inr (), st)"
    by (simp add: update_def exec_update_def)
  have kept: "kept_fields ?n = kept_fields b" "acc_canonical_prompt n = acc_canonical_prompt b" "acc_id ?n = i"
    "acc_canonical_env n = acc_canonical_env b"
    using kept_by_normalize [OF assms(2)] r(2,3) by (simp_all add: kept_fields_def row_to_account_def)
  have "admin_update_account C S now (\<lambda>_. None) i ?u svc = (Inr ?a, svc\<lparr>svc_store := st\<rparr>)"
    using early by (simp add: admin_update_account_def assms(1) apply_prompt_working_dir_update_def update_account_def norm st)
  moreover have "row_to_account S (update_row S now ?n r) = ?n\<lparr>acc_expires_at := map_option fmt_time (acc_expires_at n),
      acc_oauth_refreshed_at := map_option fmt_time (acc_oauth_refreshed_at n), acc_updated_at := fmt_time now\<rparr>"
    using kept r(2) assms(3,4) updated_row [of ?n S r now] by simp
  then have "get_by_id S None i st = Inr (?n\<lparr>acc_expires_at := map_option fmt_time (acc_expires_at n),
      acc_oauth_refreshed_at := map_option fmt_time (acc_oauth_refreshed_at n), acc_updated_at := fmt_time now\<rparr>)"
    using stored_update(1) [of ?n "svc_store svc" r S now None st] r(1) st kept(3) by simp
  moreover have "mem_slot_count (svc_cache svc'') (slot_key i) < 0 \<or>
      fst (svc_acquire_slot memory_cache inst i (i32_wrap (int k)) svc'') = Inr False" for inst svc''
    using assms(7) by (auto simp: svc_acquire_slot_def memory_cache_def mem_acquire_slot_def mem_slot_count_def Let_def map_lookup
        split: option.splits)
  ultimately show ?thesis
    by fastforce
qed

text \<open>
  C20. A disabled account is out. Once an update that sets the status to disabled is answered with the
  account, no selection returns it, whatever reaches the account store later, until one of
  those calls makes it active again.
\<close>

theorem admin_disabled_not_selected:
  assumes "admin_update_account C S now faults i updates svc = (Inr a, svc1)"
    and "Option.bind (jget updates ''status'') as_str = Some ''disabled''"
    and "cache_coherent S (svc_store svc)" "i < ast_next_id (svc_store svc)"
    and "svc_store svc2 = store_run S calls (svc_store svc1)" "\<forall>call \<in> set calls. \<not> reactivates i call"
    and "\<not> lst_poisoned (svc_limit svc2)" "valid_draw draw"
  shows "acc_status a = AS_Disabled \<and>
    (case fst (select_account S L ops now' inst gf lf draw h ex al mc svc2) of
       Panic \<Rightarrow> False | Done (Inr b) \<Rightarrow> acc_id b \<noteq> i | Done (Inl e) \<Rightarrow> True)"
proof -
  let ?d = "\<lambda>f. disable_account now f i AS_Disabled manually_disabled None (svc_store svc)"
  obtain b p where b: "get_by_id S (faults 0) i (svc_store svc) = Inr b"
    and "status_answer S (faults 2) i (?d (faults 1)) svc = (Inr a, svc1)"
    using assms(1,2) by (auto simp: admin_update_account_def Let_def split: sum.splits)
  then have ans: "faults 1 = None" "svc1 = svc\<lparr>svc_store := snd (?d None)\<rparr>" "get_by_id S (faults 2) i (snd (?d None)) = Inr a"
    by (auto simp: status_answer_def Let_def disable_account_def exec_update_def split: sum.splits option.splits)
  obtain r where r: "find (\<lambda>r. row_id r = i) (ast_rows (snd (?d None))) = Some r" "a = row_to_account S r" "row_id r = i"
    using get_by_id_row [OF ans(3)] by blast
  have "r \<in> (\<lambda>r. if row_id r = i then r\<lparr>row_status := ''disabled'', row_disable_reason := manually_disabled,
      row_rate_limited_at := None, row_rate_limit_reset_at := None, row_updated_at := fmt_time now\<rparr> else r) `
      set (ast_rows (svc_store svc))"
    using find_mem [OF r(1), THEN conjunct1]
    by (simp add: disable_account_def exec_update_def invalidate_schedulable_cache_def)
  then have "row_status r = ''disabled''"
    using r(3) by (elim imageE) (simp split: if_splits)
  then have "acc_status a = AS_Disabled"
    using r(2) by (simp add: row_to_account_def account_status_from_def)
  moreover have "acc_id x \<noteq> i" if "select_account S L ops now' inst gf lf draw h ex al mc svc2 = (Done (Inr x), svc')" for x svc'
    using retired_not_selected [OF _ assms(3,4) _ assms(6-8) that, of now AS_Disabled manually_disabled None] assms(5) ans(2) by simp
  ultimately show ?thesis
    using select_no_panic [OF assms(7,8), of S L ops now' inst gf lf h ex al mc]
    by (cases "select_account S L ops now' inst gf lf draw h ex al mc svc2")
       (simp split: outcome.splits sum.splits)
qed

section \<open>Pages of accounts\<close>

lemma or_else_Some: "or_else (Some x) d = x"
  by (simp add: or_else_def)

text \<open>
  The pages of the list are the list. Whatever page size is asked for, the pages up to the reported
  number of pages give every account exactly once, in the order of the list.
\<close>

theorem account_pages_complete:
  assumes "int (length (ast_rows (svc_store svc))) + 100 < 2 ^ 63"
    and "list_accounts S None None page page_size svc = Inr page1"
  shows "\<exists>pages. map (\<lambda>p. list_accounts S None None (Some (int p + 1)) page_size svc) [0..<nat (ap_total_pages page1)] =
      map Inr pages \<and>
    list_all_accounts S None (svc_store svc) = Inr (concat (map ap_data pages)) \<and>
    ap_total page1 = int (length (ast_rows (svc_store svc)))"
proof -
  define sz where "sz = nat (min (max (or_else page_size 12) 1) 100)"
  let ?n = "length (ast_rows (svc_store svc))"
  let ?m = "nat (ap_total_pages page1)"
  have sz: "0 < sz" "sz \<le> 100" "min (max (or_else page_size 12) 1) 100 = int sz"
    by (auto simp: sz_def)
  have total_pages: "ap_total_pages page1 = rust_div (int ?n + int sz - 1) (int sz)" "ap_total page1 = int ?n"
    using assms(2)
    by (auto simp: list_accounts_def Let_def list_accounts_paged_def count_accounts_def sz(3) split: sum.splits)
  have "ap_total_pages page1 = int ((?n + sz - 1) div sz)"
  proof -
    have "int ?n + int sz - 1 = int (?n + sz - 1)"
      using sz(1) by simp
    then show ?thesis
      using sz(1) by (simp add: total_pages zdiv_int)
  qed
  then have m: "?m = (?n + sz - 1) div sz"
    by simp
  have "?n + sz - 1 = ?m * sz + (?n + sz - 1) mod sz" "(?n + sz - 1) mod sz < sz"
    using sz(1) by (simp_all add: m)
  then have fit: "?n \<le> ?m * sz" "?m * sz \<le> ?n + sz - 1"
    by linarith+
  have "int (?m * sz) < 2 ^ 63"
    using fit(2) assms(1) sz by linarith
  then have "i64_range (int (?m * sz))"
    by (simp add: i64_range_def del: of_nat_mult)
  from pages_partition_list [OF sz(1) this fit(1)] obtain pages where pages:
    "map (\<lambda>p. list_paged S None (int p + 1) (int sz) (svc_store svc)) [0..<?m] = map Inr pages"
    "list_all_accounts S None (svc_store svc) = Inr (concat pages)"
    by blast
  let ?mk = "\<lambda>p xs. \<lparr>ap_data = xs, ap_total = int ?n, ap_page = int p + 1, ap_page_size = int sz,
    ap_total_pages = ap_total_pages page1\<rparr>"
  have len: "length pages = ?m"
    using arg_cong [OF pages(1), of length] by simp
  have "list_accounts S None None (Some (int p + 1)) page_size svc = Inr (?mk p (pages ! p))" if "p < ?m" for p
    using arg_cong [OF pages(1), of "\<lambda>xs. xs ! p"] that len
    by (simp add: list_accounts_def Let_def list_accounts_paged_def count_accounts_def sz(3) total_pages or_else_Some)
  then have "map (\<lambda>p. list_accounts S None None (Some (int p + 1)) page_size svc) [0..<?m] =
      map Inr (map (\<lambda>p. ?mk p (pages ! p)) [0..<?m])"
    by simp
  moreover have "concat (map ap_data (map (\<lambda>p. ?mk p (pages ! p)) [0..<?m])) = concat pages"
    using len by (simp add: comp_def map_nth flip: len)
  ultimately show ?thesis
    using pages(2) total_pages(2) by (intro exI [of _ "map (\<lambda>p. ?mk p (pages ! p)) [0..<?m]"]) simp
qed

section \<open>The usage report\<close>

lemma accepted_query:
  assumes "validate_usage_query C cal now q = Done (Inr rq)"
  shows "rq_start_date rq \<le> rq_end_date rq" "rq_end_date rq \<le> singapore_today now"
    "singapore_today now - 364 \<le> rq_start_date rq" "\<not> not_positive (rq_account_id rq)" "\<not> not_positive (rq_api_token_id rq)"
    "rq_model rq \<noteq> Some []"
proof -
  let ?e = "case uq_end_date q of Some s \<Rightarrow> parse_usage_date C s | None \<Rightarrow> Inr (singapore_today now)"
  obtain m where m: "date_minus cal (singapore_today now) 364 = Done m"
    using assms by (cases "date_minus cal (singapore_today now) 364") (simp_all add: validate_usage_query_def)
  obtain e where e: "?e = Inr e"
    using assms m by (cases ?e) (simp_all add: validate_usage_query_def)
  obtain r where "start_date_of C cal (uq_start_date q) e = Done r"
    using assms m e by (cases "start_date_of C cal (uq_start_date q) e") (simp_all add: validate_usage_query_def)
  then obtain s where v: "date_minus cal (singapore_today now) 364 = Done m"
    "checked_range (singapore_today now) m s e = None" "report_query s e q = Inr rq"
    using assms m e by (cases r) (auto simp: validate_usage_query_def split: option.splits)
  have m: "m = singapore_today now - 364"
    using v(1) by (auto simp: date_minus_def checked_add_days_def unwrap_def split: if_splits)
  have rq: "rq_start_date rq = s" "rq_end_date rq = e"
    "\<not> not_positive (rq_account_id rq)" "\<not> not_positive (rq_api_token_id rq)" "rq_model rq = query_model (uq_model q)"
    using v(3) by (auto simp: report_query_def split: if_splits option.splits)
  show "rq_start_date rq \<le> rq_end_date rq" "rq_end_date rq \<le> singapore_today now"
    "singapore_today now - 364 \<le> rq_start_date rq" "\<not> not_positive (rq_account_id rq)" "\<not> not_positive (rq_api_token_id rq)"
    using v(2) m rq by (auto simp: checked_range_def split: if_splits)
  show "rq_model rq \<noteq> Some []"
    using rq(5) by (auto simp: query_model_def split: option.splits)
qed

lemma calendar_fits_sub: "calendar_fits cal s e \<Longrightarrow> s \<le> s' \<Longrightarrow> e' \<le> e \<Longrightarrow> calendar_fits cal s' e'"
  by (auto simp: calendar_fits_def)


text \<open>
  C27. The usage page adds up. An accepted query lies within the last 365 days, with positive identifiers;
  for it, when the daily sums fit in 64 bits, the handler answers with a report whose summary is the sum
  over the stored events of the selected range, to which its buckets and its breakdown add up.
\<close>

theorem usage_page_adds_up:
  assumes "usage_wf st" "calendar_fits cal (singapore_today now - 364) (singapore_today now)"
    and "validate_usage_query C cal now q = Done (Inr rq)"
    and "aggregate_daily None (report_filters rq) st = Inr rows"
  shows "\<exists>r. get_usage C cal now None None q accounts tokens svc st = Done (Inr (r, uv_health svc)) \<and>
    re_summary r = sum_metrics (map event_metrics (selected_events rq st)) \<and>
    sum_metrics (map bu_metrics (re_buckets r)) = re_summary r \<and>
    sum_metrics (map br_metrics (re_breakdown r)) = re_summary r \<and>
    (\<forall>e \<in> set (selected_events rq st). singapore_today now - 364 \<le> ue_sg_day e \<and> ue_sg_day e \<le> singapore_today now)"
proof -
  note range = accepted_query [OF assms(3)]
  have fits: "calendar_fits cal (rq_start_date rq) (rq_end_date rq)"
    using calendar_fits_sub [OF assms(2) range(3,2)] .
  have days: "sg_day_from_date (rq_start_date rq) = rq_start_date rq" "sg_day_from_date (rq_end_date rq) = rq_end_date rq"
    using fits range(1) by (auto simp: sg_day_from_date_def i32_checked_def calendar_fits_def i32_range_def)
  have "\<forall>e \<in> set (selected_events rq st). singapore_today now - 364 \<le> ue_sg_day e \<and> ue_sg_day e \<le> singapore_today now"
    using range days by (auto simp: selected_events_def filter_matches_def report_filters_def)
  moreover obtain r where "usage_report_of cal None None (account_names accounts) (token_names tokens) rq st = Done (Inr r)"
    "re_summary r = sum_metrics (map event_metrics (selected_events rq st))"
    "sum_metrics (map bu_metrics (re_buckets r)) = re_summary r"
    "sum_metrics (map br_metrics (re_breakdown r)) = re_summary r"
    using report_adds_up [OF assms(1) fits range(1) assms(4)] by blast
  ultimately show ?thesis
    using assms(3) by (simp add: get_usage_def)
qed

text \<open>
  A query panics only for a date below the first thirty days of the calendar: with every parsed date
  above them the handler accepts the query or answers 400.
\<close>

theorem usage_query_checked:
  assumes "cal_min cal + 364 \<le> singapore_today now" "singapore_today now \<le> cal_max cal"
    and "\<forall>s d. cl_parse_date C s = Some d \<longrightarrow> cal_min cal + 29 \<le> d \<and> d \<le> cal_max cal"
  shows "case validate_usage_query C cal now q of
      Panic \<Rightarrow> False | Done (Inr rq) \<Rightarrow> True | Done (Inl e) \<Rightarrow> fst (app_error_into_response e) = 400"
proof -
  have bad: "parse_usage_date C s = Inl e \<Longrightarrow> fst (app_error_into_response e) = 400"
    "report_query d1 d2 q = Inl e \<Longrightarrow> fst (app_error_into_response e) = 400"
    "checked_range t m d1 d2 = Some e \<Longrightarrow> fst (app_error_into_response e) = 400" for s e d1 d2 t m
    by (auto simp: parse_usage_date_def report_query_def checked_range_def app_error_into_response_def
        split: option.splits if_splits)
  let ?e = "case uq_end_date q of Some s \<Rightarrow> parse_usage_date C s | None \<Rightarrow> Inr (singapore_today now)"
  have m: "date_minus cal (singapore_today now) 364 = Done (singapore_today now - 364)"
    using assms(1,2) by (simp add: date_minus_def checked_add_days_def unwrap_def)
  show ?thesis
  proof (cases ?e)
    case (Inl e)
    then show ?thesis
      using m bad(1) by (auto simp: validate_usage_query_def split: option.splits)
  next
    case (Inr d)
    then have "cal_min cal + 29 \<le> d \<and> d \<le> cal_max cal"
      using assms by (auto simp: parse_usage_date_def split: option.splits)
    then obtain r where r: "start_date_of C cal (uq_start_date q) d = Done r"
      "\<And>e. r = Inl e \<Longrightarrow> fst (app_error_into_response e) = 400"
      using bad(1) by (cases "uq_start_date q") (auto simp: start_date_of_def date_minus_def checked_add_days_def unwrap_def)
    show ?thesis
    proof (cases r)
      case (Inl e)
      then show ?thesis
        using m Inr r by (simp add: validate_usage_query_def)
    next
      case d1: (Inr d1)
      then show ?thesis
        using m Inr r(1) bad(2,3) by (auto simp: validate_usage_query_def Let_def split: option.splits sum.splits)
    qed
  qed
qed


section \<open>Examples\<close>

definition example_client :: client_lib where
  "example_client = \<lparr>cl_from_millis = (\<lambda>ms. Some (ms * 10 ^ 6)), cl_parse_rfc3339 = (\<lambda>_. None),
     cl_parse_date = (\<lambda>s. if s = ''1970-01-11'' then Some 10 else None)\<rparr>"

definition rename :: json where
  "rename = JObj [(''name'', JStr ''m'')]"

lemma stored_example:
  "get_by_id env_serde None 4 (svc_store example_svc) = Inr (row_to_account env_serde (example_row 4))"
  by (simp add: example_svc_def account_service_new_def account_store_new_def get_by_id_def)

lemma example_docs:
  "acc_canonical_prompt (row_to_account env_serde (example_row 4)) = JObj []"
  "acc_canonical_env (row_to_account env_serde (example_row 4)) = normalize_canonical_env_json (JObj [])"
  "serde_ok env_serde (JObj [])" "serde_ok env_serde (normalize_canonical_env_json (JObj []))"
  by (simp_all add: row_to_account_def parse_json_col_def env_serde_def example_row_def serde_ok_def)

lemma example_normalized:
  "normalize_account_auth (row_to_account env_serde (example_row 4)) = Inr (row_to_account env_serde (example_row 4))"
  by (simp add: normalize_account_auth_def row_to_account_def example_row_def auth_type_from_def) code_simp

lemma normalize_renamed:
  "normalize_account_auth a = Inr n \<Longrightarrow> normalize_account_auth (a\<lparr>acc_name := x\<rparr>) = Inr (n\<lparr>acc_name := x\<rparr>)"
  by (auto simp: normalize_account_auth_def Let_def split: account_auth_type.splits if_splits)

theorem account_update_reads_back_witness:
  "\<exists>b. get_by_id env_serde None 4
      (svc_store (snd (admin_update_account example_client env_serde 7 (\<lambda>_. None) 4 rename example_svc))) = Inr b \<and>
     acc_name b = ''m''"
proof -
  let ?b = "row_to_account env_serde (example_row 4)"
  have "late_updates rename (other_status_update None (early_updates example_client rename ?b)) = ?b\<lparr>acc_name := ''m''\<rparr>"
    by (simp add: late_updates_def other_status_update_def early_updates_def credential_updates_def auth_type_update_def
        nonempty_update_def str_update_def opt_update_def positive_i32_update_def rename_def)
  moreover have "normalize_account_auth (?b\<lparr>acc_name := ''m''\<rparr>) = Inr (?b\<lparr>acc_name := ''m''\<rparr>)"
    using normalize_renamed [OF example_normalized] .
  moreover have status: "Option.bind (jget rename ''status'') as_str = None" "jget rename ''prompt_working_dir'' = None"
    by (simp_all add: rename_def)
  ultimately obtain svc' where u: "admin_update_account example_client env_serde 7 (\<lambda>_. None) 4 rename example_svc =
      (Inr (?b\<lparr>acc_name := ''m''\<rparr>), svc')"
    using stored_example
    by (simp add: admin_update_account_def apply_prompt_working_dir_update_def update_account_def update_def
        exec_update_def Let_def)
  show ?thesis
    using account_update_reads_back [OF u] status(1) example_docs kept_by_normalize
      normalize_renamed [OF example_normalized]
    by (simp add: u)
qed

theorem status_switch_ignores_rest_witness:
  "admin_update_account example_client example_serde 7 (\<lambda>_. None) 4
      (JObj [(''name'', JStr ''m''), (''status'', JStr ''disabled'')]) example_svc =
   admin_update_account example_client example_serde 7 (\<lambda>_. None) 4 (JObj [(''status'', JStr ''disabled'')]) example_svc"
  by (rule status_switch_ignores_rest [where s = "''disabled''"]) (simp_all add: apply_prompt_working_dir_update_def)

lemma update_keeps_cache: "admin_update_account C S now faults i u svc = (r, svc') \<Longrightarrow> svc_cache svc' = svc_cache svc"
  by (auto simp: admin_update_account_def update_account_def status_answer_def Let_def
      split: sum.splits prod.splits if_splits)

theorem oversized_concurrency_closes_account_witness:
  "\<exists>a svc' c. admin_update_account example_client env_serde 7 (\<lambda>_. None) 4
      (JObj [(''concurrency'', JNum (PosInt (2 ^ 32)))]) example_svc = (Inr a, svc') \<and>
    get_by_id env_serde None 4 (svc_store svc') = Inr c \<and> acc_concurrency c = 0 \<and>
    fst (svc_acquire_slot memory_cache 7 4 (acc_concurrency c) svc') = Inr False"
proof -
  have wrap: "i32_wrap (int (2 ^ 32)) = 0"
    by (simp add: i32_wrap_def)
  have docs: "serde_ok env_serde (acc_canonical_prompt (row_to_account env_serde (example_row 4)))"
    "serde_ok env_serde (acc_canonical_env (row_to_account env_serde (example_row 4)))"
    by (simp_all only: example_docs)
  obtain a svc' c where ex: "admin_update_account example_client env_serde 7 (\<lambda>_. None) 4
      (JObj [(''concurrency'', JNum (PosInt (2 ^ 32)))]) example_svc = (Inr a, svc')"
    "get_by_id env_serde None 4 (svc_store svc') = Inr c" "acc_concurrency c = 0"
    "\<forall>inst svc''. mem_slot_count (svc_cache svc'') (slot_key 4) < 0 \<or>
       fst (svc_acquire_slot memory_cache inst 4 (acc_concurrency c) svc'') = Inr False"
    using oversized_concurrency_closes_account [OF stored_example example_normalized docs, of "2 ^ 32" example_client 7]
    unfolding wrap by auto
  have "svc_cache svc' = svc_cache example_svc"
    using ex(1) by (rule update_keeps_cache)
  then have "mem_slot_count (svc_cache svc') (slot_key 4) = 0"
    by (simp add: mem_slot_count_new)
  then show ?thesis
    using ex(1-3) ex(4) [rule_format, of svc' 7] by auto
qed

theorem admin_disabled_not_selected_witness:
  "case fst (select_account example_serde example_lib memory_cache 9 9 None None (\<lambda>_. 0) ''h'' [] [] Opus
        (snd (admin_update_account example_client example_serde 7 (\<lambda>_. None) 4
          (JObj [(''status'', JStr ''disabled'')]) example_svc))) of
      Panic \<Rightarrow> False | Done (Inr b) \<Rightarrow> acc_id b \<noteq> 4 | Done (Inl e) \<Rightarrow> True"
proof -
  let ?u = "JObj [(''status'', JStr ''disabled'')]"
  have same: "svc_store example_svc = account_store_new [example_row 4] 5" "svc_limit example_svc = limit_store_new"
    by simp_all
  obtain a svc' where u: "admin_update_account example_client example_serde 7 (\<lambda>_. None) 4 ?u example_svc = (Inr a, svc')"
    "svc_limit svc' = limit_store_new"
    by (simp add: admin_update_account_def apply_prompt_working_dir_update_def status_answer_def get_by_id_def
        disable_account_def exec_update_def invalidate_schedulable_cache_def account_store_new_def Let_def)
  have "svc_store svc' = store_run example_serde [] (svc_store svc')"
    by (simp add: store_run_def)
  from admin_disabled_not_selected [OF u(1) _ _ _ this, of "\<lambda>_. 0" example_lib memory_cache 9 9 None None "''h''" "[]" "[]" Opus]
  show ?thesis
    using u by (simp add: same account_store_new_def cache_coherent_def valid_draw_def limit_store_new_def)
qed

theorem account_pages_complete_witness:
  "\<exists>pages. map (\<lambda>p. list_accounts example_serde None None (Some (int p + 1)) (Some 2)
        (example_svc\<lparr>svc_store := account_store_new [example_row 4, example_row 5, example_row 6] 7\<rparr>)) [0..<2] = map Inr pages \<and>
    list_all_accounts example_serde None (account_store_new [example_row 4, example_row 5, example_row 6] 7) =
      Inr (concat (map ap_data pages))"
proof -
  let ?svc = "example_svc\<lparr>svc_store := account_store_new [example_row 4, example_row 5, example_row 6] 7\<rparr>"
  obtain first where first: "list_accounts example_serde None None None (Some 2) ?svc = Inr first" "ap_total_pages first = 2"
    by (simp add: list_accounts_def Let_def list_accounts_paged_def count_accounts_def account_store_new_def or_else_def
        list_paged_def i64_wrap_def)
  show ?thesis
    using account_pages_complete [OF _ first(1)] first(2) by (auto simp: account_store_new_def)
qed

definition plain_query :: usage_query where
  "plain_query = \<lparr>uq_granularity = Some ''week'', uq_start_date = None, uq_end_date = Some ''1970-01-11'', uq_account_id = None,
     uq_api_token_id = None, uq_model = None, uq_group_by = None\<rparr>"

definition tenth_day :: int where "tenth_day = 10 * DAY_NS"

theorem usage_page_adds_up_witness:
  "\<forall>svc. \<exists>r h. get_usage example_client example_calendar tenth_day None None plain_query (account_store_new [] 1) token_store_new
      svc two_days = Done (Inr (r, h)) \<and> sum_metrics (map bu_metrics (re_buckets r)) = re_summary r"
proof -
  have today: "singapore_today tenth_day = 10"
    by (simp add: singapore_today_def tenth_day_def DAY_NS_def SG_OFFSET_NS_def)
  let ?rq = "\<lparr>rq_start_date = - 19, rq_end_date = 10, rq_granularity = UG_Week, rq_account_id = None,
     rq_api_token_id = None, rq_model = None, rq_group_by = GB_Model\<rparr>"
  have rq: "validate_usage_query example_client example_calendar tenth_day plain_query = Done (Inr ?rq)"
    by (simp add: validate_usage_query_def today plain_query_def date_minus_def checked_add_days_def example_calendar_def
        unwrap_def parse_usage_date_def example_client_def start_date_of_def checked_range_def report_query_def
        not_positive_def query_model_def or_else_def)
  have fits: "calendar_fits example_calendar (singapore_today tenth_day - 364) (singapore_today tenth_day)"
    by (auto simp: calendar_fits_def example_calendar_def today)
  have "isl (aggregate_daily None (report_filters ?rq) two_days) = False"
    by code_simp
  then obtain rows where "aggregate_daily None (report_filters ?rq) two_days = Inr rows"
    by (cases "aggregate_daily None (report_filters ?rq) two_days") auto
  from usage_page_adds_up [OF two_days_wf fits rq this] show ?thesis
    by blast
qed

theorem usage_query_checked_witness:
  "case validate_usage_query example_client example_calendar tenth_day plain_query of
      Panic \<Rightarrow> False | Done (Inr rq) \<Rightarrow> True | Done (Inl e) \<Rightarrow> fst (app_error_into_response e) = 400"
  by (rule usage_query_checked)
    (auto simp: example_calendar_def singapore_today_def tenth_day_def DAY_NS_def SG_OFFSET_NS_def example_client_def)

end
