(* ===== verification/Config.thy ===== *)
theory Config
  imports Json
begin

text \<open>
  The configuration (\<open>src/config.rs\<close>). The environment after the \<open>.env\<close> file is read is a map from
  names to values, and \<open>docker\<close> says whether \<open>/.dockerenv\<close> exists. A variable whose value is no
  text counts as missing.
\<close>

type_synonym environment = "string \<Rightarrow> string option"

record server_config =
  sc_port :: nat
  sc_host :: string
  sc_tls_cert :: "string option"
  sc_tls_key :: "string option"

record database_config =
  dc_driver :: "string option"
  dc_dsn :: "string option"
  dc_host :: string
  dc_port :: nat
  dc_user :: string
  dc_password :: string
  dc_dbname :: string

record redis_config =
  rc_host :: string
  rc_port :: nat
  rc_password :: string
  rc_db :: int

record config =
  cf_server :: server_config
  cf_database :: database_config
  cf_redis :: "redis_config option"
  cf_admin_password :: string
  cf_log_level :: string
  cf_log_dir :: string
  cf_fingerprint_audit_enabled :: bool
  cf_performance_monitoring_enabled :: bool
  cf_usage_pricing_overrides_json :: "string option"

text \<open>\<open>parse::<u16>\<close>: an optional plus sign and digits.\<close>

definition parse_u16 :: "string \<Rightarrow> nat option" where
  "parse_u16 s = (case parse_u64 s of Some n \<Rightarrow> if n < 2 ^ 16 then Some n else None | None \<Rightarrow> None)"

definition env_or :: "environment \<Rightarrow> string \<Rightarrow> string \<Rightarrow> string" where
  "env_or env key d = (case env key of Some v \<Rightarrow> v | None \<Rightarrow> d)"

definition env_first :: "environment \<Rightarrow> string \<Rightarrow> string \<Rightarrow> string \<Rightarrow> string" where
  "env_first env key key2 d = (case env key of Some v \<Rightarrow> v | None \<Rightarrow> env_or env key2 d)"

definition env_port :: "environment \<Rightarrow> string \<Rightarrow> nat \<Rightarrow> nat" where
  "env_port env key d = (case Option.bind (env key) parse_u16 of Some n \<Rightarrow> n | None \<Rightarrow> d)"

definition not_blank :: "string option \<Rightarrow> string option" where
  "not_blank v = (case v of Some s \<Rightarrow> if trim s = [] then None else Some s | None \<Rightarrow> None)"

definition switched_on :: "string \<Rightarrow> bool" where
  "switched_on v \<longleftrightarrow> to_ascii_lowercase v \<in> {''1'', ''true'', ''yes'', ''on''}"

definition default_postgres_host :: "bool \<Rightarrow> string" where
  "default_postgres_host docker = (if docker then ''postgres'' else ''127.0.0.1'')"

definition load_redis :: "environment \<Rightarrow> redis_config option" where
  "load_redis env =
     map_option (\<lambda>host. \<lparr>rc_host = host, rc_port = env_port env ''REDIS_PORT'' 6379,
         rc_password = env_or env ''REDIS_PASSWORD'' [],
         rc_db = (case Option.bind (env ''REDIS_DB'') parse_i64 of Some n \<Rightarrow> n | None \<Rightarrow> 0)\<rparr>)
       (env ''REDIS_HOST'')"

definition load_config :: "bool \<Rightarrow> environment \<Rightarrow> config" where
  "load_config docker env =
     \<lparr>cf_server = \<lparr>sc_port = env_port env ''SERVER_PORT'' 5674, sc_host = env_or env ''SERVER_HOST'' ''0.0.0.0'',
         sc_tls_cert = env ''TLS_CERT_FILE'', sc_tls_key = env ''TLS_KEY_FILE''\<rparr>,
      cf_database = \<lparr>dc_driver = env ''DATABASE_DRIVER'', dc_dsn = not_blank (env ''DATABASE_DSN''),
         dc_host = env_or env ''DATABASE_HOST'' (default_postgres_host docker),
         dc_port = env_port env ''DATABASE_PORT'' 5432,
         dc_user = env_first env ''DATABASE_USER'' ''POSTGRES_USER'' ''postgres'',
         dc_password = env_first env ''DATABASE_PASSWORD'' ''POSTGRES_PASSWORD'' [],
         dc_dbname = env_first env ''DATABASE_DBNAME'' ''POSTGRES_DB'' ''claude_code_gateway''\<rparr>,
      cf_redis = load_redis env, cf_admin_password = env_or env ''ADMIN_PASSWORD'' ''admin'',
      cf_log_level = env_or env ''LOG_LEVEL'' ''info'',
      cf_log_dir = (case not_blank (env ''LOG_DIR'') of Some d \<Rightarrow> d | None \<Rightarrow> ''data/logs''),
      cf_fingerprint_audit_enabled = (case env ''FINGERPRINT_AUDIT_ENABLED'' of Some v \<Rightarrow> switched_on v | None \<Rightarrow> False),
      cf_performance_monitoring_enabled = (case env ''PERFORMANCE_MONITORING_ENABLED'' of Some v \<Rightarrow> switched_on v | None \<Rightarrow> True),
      cf_usage_pricing_overrides_json = not_blank (env ''USAGE_PRICING_OVERRIDES_JSON'')\<rparr>"

section \<open>The database\<close>

definition db_driver :: "database_config \<Rightarrow> string" where
  "db_driver c = (case dc_driver c of Some d \<Rightarrow> d | None \<Rightarrow> ''sqlite'')"

definition has_explicit_dsn :: "database_config \<Rightarrow> bool" where
  "has_explicit_dsn c \<longleftrightarrow> (case dc_dsn c of Some dsn \<Rightarrow> trim dsn \<noteq> [] | None \<Rightarrow> False)"

definition postgres_dsn :: "database_config \<Rightarrow> string \<Rightarrow> string" where
  "postgres_dsn c dbname =
     ''postgres://'' @ dc_user c @ '':'' @ dc_password c @ ''@'' @ dc_host c @ '':'' @ nat_to_string (dc_port c) @
     ''/'' @ dbname @ ''?sslmode=disable''"

definition db_dsn :: "database_config \<Rightarrow> string" where
  "db_dsn c =
     (case not_blank (dc_dsn c) of
        Some dsn \<Rightarrow> dsn
      | None \<Rightarrow> if db_driver c = ''sqlite'' then ''data/claude-code-gateway.db'' else postgres_dsn c (dc_dbname c))"

definition admin_dsn :: "database_config \<Rightarrow> string" where
  "admin_dsn c = postgres_dsn c ''postgres''"

end
