(* ===== verification/Database.thy ===== *)
theory Database
  imports Account_Model Config
begin

text \<open>
  Preparing the database (\<open>src/store/db.rs\<close>): the migration of the schema at every start, and the
  creation of the PostgreSQL database.

  A schema is the recorded versions, the columns of every table with their types, and the indexes. \<open>conn\<close> is a
  connection to it with the errors the next statements meet; \<open>err\<close> is the text of the error the database
  itself has for a statement that does not fit the schema. Constraints and defaults of the columns are
  not represented.
\<close>

section \<open>Statements\<close>

datatype column_type = CT_Text | CT_Integer | CT_Bigint | CT_Double | CT_Timestamptz | CT_Jsonb

text \<open>\<open>information_schema.columns.data_type\<close>.\<close>

fun data_type :: "column_type \<Rightarrow> string" where
  "data_type CT_Text = ''text''"
| "data_type CT_Integer = ''integer''"
| "data_type CT_Bigint = ''bigint''"
| "data_type CT_Double = ''double precision''"
| "data_type CT_Timestamptz = ''timestamp with time zone''"
| "data_type CT_Jsonb = ''jsonb''"

type_synonym columns = "(string \<times> column_type) list"

record db_schema =
  sm_versions :: "int list option"
  sm_tables :: "(string, columns) hash_map"
  sm_indexes :: "string list"

datatype ddl =
    Create_Versions
  | Create_Table string columns
  | Create_Index string string "string list"
  | Add_Column string string column_type
  | Alter_Type string string column_type
  | Insert_Version int

fun ddl_effect :: "ddl \<Rightarrow> db_schema \<Rightarrow> db_schema option" where
  "ddl_effect Create_Versions s =
     Some (case sm_versions s of None \<Rightarrow> s\<lparr>sm_versions := Some []\<rparr> | Some _ \<Rightarrow> s)"
| "ddl_effect (Create_Table t cols) s =
     Some (s\<lparr>sm_tables := hm_or_insert t cols (sm_tables s)\<rparr>)"
| "ddl_effect (Create_Index i t cols) s =
     (if i \<in> set (sm_indexes s) then Some s
      else case map_of (sm_tables s) t of
             None \<Rightarrow> None
           | Some tcols \<Rightarrow> if set cols \<subseteq> fst ` set tcols then Some (s\<lparr>sm_indexes := i # sm_indexes s\<rparr>) else None)"
| "ddl_effect (Add_Column t c ty) s =
     (case map_of (sm_tables s) t of
        None \<Rightarrow> None
      | Some cols \<Rightarrow>
          if c \<in> fst ` set cols then None else Some (s\<lparr>sm_tables := AList.update t (cols @ [(c, ty)]) (sm_tables s)\<rparr>))"
| "ddl_effect (Alter_Type t c ty) s =
     (case map_of (sm_tables s) t of
        None \<Rightarrow> None
      | Some cols \<Rightarrow>
          if c \<in> fst ` set cols
          then Some (s\<lparr>sm_tables := AList.update t (map (\<lambda>(n, old). (n, if n = c then ty else old)) cols) (sm_tables s)\<rparr>)
          else None)"
| "ddl_effect (Insert_Version v) s =
     (case sm_versions s of
        None \<Rightarrow> None
      | Some vs \<Rightarrow> Some (if v \<in> set vs then s else s\<lparr>sm_versions := Some (v # vs)\<rparr>))"

record conn =
  cn_faults :: "sqlx_error option list"
  cn_schema :: db_schema

text \<open>The next statement: its error, if it meets one.\<close>

definition next_fault :: "conn \<Rightarrow> sqlx_error option \<times> conn" where
  "next_fault c = (case cn_faults c of [] \<Rightarrow> (None, c) | f # fs \<Rightarrow> (f, c\<lparr>cn_faults := fs\<rparr>))"

definition execute :: "(ddl \<Rightarrow> sqlx_error) \<Rightarrow> ddl \<Rightarrow> conn \<Rightarrow> (sqlx_error + unit) \<times> conn" where
  "execute err d c =
     (case next_fault c of
        (Some e, c) \<Rightarrow> (Inl e, c)
      | (None, c) \<Rightarrow>
          (case ddl_effect d (cn_schema c) of
             None \<Rightarrow> (Inl (err d), c)
           | Some s \<Rightarrow> (Inr (), c\<lparr>cn_schema := s\<rparr>)))"

text \<open>Statements in turn up to the first error, and statements whose errors are ignored.\<close>

fun execute_all :: "(ddl \<Rightarrow> sqlx_error) \<Rightarrow> ddl list \<Rightarrow> conn \<Rightarrow> (sqlx_error + unit) \<times> conn" where
  "execute_all err [] c = (Inr (), c)"
| "execute_all err (d # ds) c =
     (case execute err d c of (Inl e, c) \<Rightarrow> (Inl e, c) | (Inr _, c) \<Rightarrow> execute_all err ds c)"

fun execute_ok :: "(ddl \<Rightarrow> sqlx_error) \<Rightarrow> ddl list \<Rightarrow> conn \<Rightarrow> conn" where
  "execute_ok err [] c = c"
| "execute_ok err (d # ds) c = execute_ok err ds (snd (execute err d c))"

section \<open>The schema\<close>

definition SCHEMA_VERSION :: int where "SCHEMA_VERSION = 4"

definition time_type :: "bool \<Rightarrow> column_type" where
  "time_type sqlite = (if sqlite then CT_Text else CT_Timestamptz)"

definition json_type :: "bool \<Rightarrow> column_type" where
  "json_type sqlite = (if sqlite then CT_Text else CT_Jsonb)"

definition long_type :: "bool \<Rightarrow> column_type" where
  "long_type sqlite = (if sqlite then CT_Integer else CT_Bigint)"

definition accounts_schema :: "bool \<Rightarrow> ddl list" where
  "accounts_schema sqlite =
     [Create_Table ''accounts''
        [(''id'', long_type sqlite), (''name'', CT_Text), (''email'', CT_Text), (''status'', CT_Text), (''token'', CT_Text),
         (''auth_type'', CT_Text), (''access_token'', CT_Text), (''refresh_token'', CT_Text),
         (''oauth_expires_at'', time_type sqlite), (''oauth_refreshed_at'', time_type sqlite), (''auth_error'', CT_Text),
         (''proxy_url'', CT_Text), (''device_id'', CT_Text), (''canonical_env'', json_type sqlite),
         (''canonical_prompt_env'', json_type sqlite), (''canonical_process'', json_type sqlite), (''billing_mode'', CT_Text),
         (''concurrency'', CT_Integer), (''priority'', CT_Integer), (''rate_limited_at'', time_type sqlite),
         (''rate_limit_reset_at'', time_type sqlite), (''account_uuid'', CT_Text), (''organization_uuid'', CT_Text),
         (''subscription_type'', CT_Text), (''disable_reason'', CT_Text), (''auto_telemetry'', CT_Integer),
         (''telemetry_count'', long_type sqlite), (''usage_data'', json_type sqlite), (''usage_fetched_at'', time_type sqlite),
         (''created_at'', time_type sqlite), (''updated_at'', time_type sqlite)]]"

definition tokens_schema :: "bool \<Rightarrow> ddl list" where
  "tokens_schema sqlite =
     [Create_Table ''api_tokens''
        [(''id'', long_type sqlite), (''name'', CT_Text), (''token'', CT_Text), (''allowed_accounts'', CT_Text),
         (''blocked_accounts'', CT_Text), (''status'', CT_Text), (''created_at'', time_type sqlite),
         (''updated_at'', time_type sqlite)]]"

definition usage_schema :: "bool \<Rightarrow> ddl list" where
  "usage_schema sqlite =
     [Create_Table ''usage_events''
        [(''id'', long_type sqlite), (''dedup_key'', CT_Text), (''upstream_message_id'', CT_Text),
         (''upstream_request_id'', CT_Text), (''occurred_at_utc'', time_type sqlite), (''sg_day'', CT_Integer),
         (''account_id'', long_type sqlite), (''api_token_id'', long_type sqlite), (''model'', CT_Text),
         (''input_tokens'', long_type sqlite), (''output_tokens'', long_type sqlite),
         (''cache_creation_5m_tokens'', long_type sqlite), (''cache_creation_1h_tokens'', long_type sqlite),
         (''cache_read_tokens'', long_type sqlite), (''input_cost_nano_usd'', long_type sqlite),
         (''output_cost_nano_usd'', long_type sqlite), (''cache_creation_5m_cost_nano_usd'', long_type sqlite),
         (''cache_creation_1h_cost_nano_usd'', long_type sqlite), (''cache_read_cost_nano_usd'', long_type sqlite),
         (''known_cost_nano_usd'', long_type sqlite), (''cost_complete'', CT_Integer), (''pricing_version'', CT_Text),
         (''pricing_model_key'', CT_Text), (''http_status'', CT_Integer), (''is_stream'', CT_Integer),
         (''created_at_utc'', time_type sqlite)],
      Create_Index ''idx_usage_events_sg_day'' ''usage_events'' [''sg_day'', ''id''],
      Create_Index ''idx_usage_events_account_day'' ''usage_events'' [''account_id'', ''sg_day''],
      Create_Index ''idx_usage_events_api_token_day'' ''usage_events'' [''api_token_id'', ''sg_day''],
      Create_Index ''idx_usage_events_model_day'' ''usage_events'' [''model'', ''sg_day''],
      Create_Index ''idx_usage_events_unpriced_id'' ''usage_events'' [''id'', ''cost_complete''],
      Create_Table ''usage_pricing_cache''
        [(''id'', CT_Integer), (''snapshot_json'', CT_Text), (''pricing_version'', CT_Text),
         (''fetched_at_utc'', time_type sqlite)]]"

text \<open>One schema for both databases, in which \<open>BIGINT\<close> is written out.\<close>

definition performance_schema :: "ddl list" where
  "performance_schema =
     [Create_Table ''request_performance_events''
        [(''request_id'', CT_Text), (''instance_id'', CT_Text), (''started_at_ms'', CT_Bigint), (''sg_day'', CT_Integer),
         (''account_id'', CT_Bigint), (''api_token_id'', CT_Bigint), (''model'', CT_Text), (''is_stream'', CT_Integer),
         (''outcome'', CT_Text), (''duration_ms'', CT_Bigint), (''first_byte_ms'', CT_Bigint), (''first_content_ms'', CT_Bigint),
         (''first_text_ms'', CT_Bigint), (''output_speed'', CT_Double), (''event_json'', CT_Text)],
      Create_Index ''idx_performance_day'' ''request_performance_events'' [''sg_day'', ''started_at_ms''],
      Create_Index ''idx_performance_account'' ''request_performance_events'' [''account_id'', ''sg_day''],
      Create_Index ''idx_performance_token'' ''request_performance_events'' [''api_token_id'', ''sg_day''],
      Create_Index ''idx_performance_model'' ''request_performance_events'' [''model'', ''sg_day'']]"

definition pending_columns :: "bool \<Rightarrow> columns" where
  "pending_columns sqlite =
     [(''billing_mode'', CT_Text), (''usage_data'', json_type sqlite), (''usage_fetched_at'', time_type sqlite),
      (''auth_type'', CT_Text), (''access_token'', CT_Text), (''refresh_token'', CT_Text),
      (''oauth_expires_at'', time_type sqlite), (''oauth_refreshed_at'', time_type sqlite), (''auth_error'', CT_Text),
      (''account_uuid'', CT_Text), (''organization_uuid'', CT_Text), (''subscription_type'', CT_Text),
      (''disable_reason'', CT_Text), (''auto_telemetry'', CT_Integer), (''telemetry_count'', CT_Integer)]"

section \<open>Migration\<close>

definition existing_columns :: "string \<Rightarrow> conn \<Rightarrow> string list \<times> conn" where
  "existing_columns t c =
     (case next_fault c of
        (Some _, c) \<Rightarrow> ([], c)
      | (None, c) \<Rightarrow> (case map_of (sm_tables (cn_schema c)) t of Some cols \<Rightarrow> map fst cols | None \<Rightarrow> [], c))"

definition column_types :: "string \<Rightarrow> conn \<Rightarrow> (string \<times> string) list \<times> conn" where
  "column_types t c =
     (case next_fault c of
        (Some _, c) \<Rightarrow> ([], c)
      | (None, c) \<Rightarrow>
          (case map_of (sm_tables (cn_schema c)) t of
             Some cols \<Rightarrow> map (\<lambda>(n, ty). (n, data_type ty)) cols | None \<Rightarrow> [], c))"

definition needs_type :: "(string \<times> string) list \<Rightarrow> string \<times> column_type \<Rightarrow> bool" where
  "needs_type types p =
     (case map_of types (fst p) of Some t \<Rightarrow> \<not> eq_ignore_ascii_case t (data_type (snd p)) | None \<Rightarrow> False)"

definition retyped_columns :: columns where
  "retyped_columns =
     [(''usage_data'', CT_Jsonb), (''usage_fetched_at'', CT_Timestamptz), (''oauth_expires_at'', CT_Timestamptz),
      (''oauth_refreshed_at'', CT_Timestamptz)]"

definition applied_versions :: "conn \<Rightarrow> nat \<times> conn" where
  "applied_versions c =
     (case next_fault c of
        (Some _, c) \<Rightarrow> (0, c)
      | (None, c) \<Rightarrow>
          (case sm_versions (cn_schema c) of
             Some vs \<Rightarrow> length (filter (\<lambda>v. v \<ge> SCHEMA_VERSION) vs) | None \<Rightarrow> 0, c))"

definition alter_accounts :: "(ddl \<Rightarrow> sqlx_error) \<Rightarrow> bool \<Rightarrow> conn \<Rightarrow> conn" where
  "alter_accounts err sqlite c =
     (let (cols, c) = existing_columns ''accounts'' c;
          c = execute_ok err (map (\<lambda>(n, ty). Add_Column ''accounts'' n ty)
                (filter (\<lambda>p. fst p \<notin> set cols) (pending_columns sqlite))) c
      in if sqlite then c
         else let (types, c) = column_types ''accounts'' c
              in execute_ok err (map (\<lambda>(n, ty). Alter_Type ''accounts'' n ty) (filter (needs_type types) retyped_columns)) c)"

definition migrate :: "(ddl \<Rightarrow> sqlx_error) \<Rightarrow> string \<Rightarrow> conn \<Rightarrow> (sqlx_error + unit) \<times> conn" where
  "migrate err driver c =
     (case execute err Create_Versions c of
        (Inl e, c) \<Rightarrow> (Inl e, c)
      | (Inr _, c) \<Rightarrow>
          (let sqlite = (driver = ''sqlite'');
               (applied, c) = applied_versions c
           in if applied > 0 then (Inr (), c)
              else case execute_all err (accounts_schema sqlite @ tokens_schema sqlite @ usage_schema sqlite) c of
                     (Inl e, c) \<Rightarrow> (Inl e, c)
                   | (Inr _, c) \<Rightarrow>
                       execute_all err (performance_schema @ [Insert_Version SCHEMA_VERSION]) (alter_accounts err sqlite c)))"

section \<open>The PostgreSQL database\<close>

text \<open>
  \<open>ready i\<close> is the answer of the server to the connection attempt \<open>i\<close>, or the text of its error; an attempt takes
  \<open>spent i\<close> nanoseconds and a failed one is followed by a second of sleep. \<open>wait_for_postgres\<close> ends since
  every round takes at least that second.
\<close>

definition wait_error :: "database_config \<Rightarrow> string \<Rightarrow> string" where
  "wait_error cfg last_error =
     ''postgres did not become ready within 60s ('' @ dc_host cfg @ '':'' @ nat_to_string (dc_port cfg) @ '')'' @
     (if last_error = [] then [] else '': '' @ last_error)"

function wait_loop ::
  "database_config \<Rightarrow> (nat \<Rightarrow> string option) \<Rightarrow> (nat \<Rightarrow> nat) \<Rightarrow> nat \<Rightarrow> nat \<Rightarrow> nat \<Rightarrow> string \<Rightarrow> string + nat" where
  "wait_loop cfg ready spent deadline i now last_error =
     (if now < deadline
      then case ready i of
             None \<Rightarrow> Inr i
           | Some e \<Rightarrow> wait_loop cfg ready spent deadline (i + 1) (now + spent i + 10 ^ 9) e
      else Inl (wait_error cfg last_error))"
  by pat_completeness auto
termination
  by (relation "measure (\<lambda>(cfg, ready, spent, deadline, i, now, e). deadline - now)") auto

declare wait_loop.simps [simp del]

definition wait_for_postgres ::
  "database_config \<Rightarrow> (nat \<Rightarrow> string option) \<Rightarrow> (nat \<Rightarrow> nat) \<Rightarrow> string + nat" where
  "wait_for_postgres cfg ready spent = wait_loop cfg ready spent (60 * 10 ^ 9) 0 0 []"

text \<open>\<open>replace\<close> of one character by a text.\<close>

definition replace_with :: "char \<Rightarrow> string \<Rightarrow> string \<Rightarrow> string" where
  "replace_with c w s = concat (map (\<lambda>d. if d = c then w else [d]) s)"

definition create_database_sql :: "string \<Rightarrow> string" where
  "create_database_sql dbname = ''CREATE DATABASE '' @ [CHR 0x22] @ replace_with (CHR 0x22) [CHR 0x22, CHR 0x22] dbname @ [CHR 0x22]"

text \<open>The server: the databases it has, with the errors of the connection and the two statements.\<close>

definition create_database_if_missing ::
  "string option \<Rightarrow> string option \<Rightarrow> string option \<Rightarrow> database_config \<Rightarrow> string list \<Rightarrow> (string + string option) \<times> string list" where
  "create_database_if_missing connect_fault check_fault create_fault cfg dbs =
     (case connect_fault of
        Some e \<Rightarrow> (Inl (''failed to connect to postgres admin database: '' @ e), dbs)
      | None \<Rightarrow>
          (case check_fault of
             Some e \<Rightarrow> (Inl (''failed to check database existence: '' @ e), dbs)
           | None \<Rightarrow>
               if dc_dbname cfg \<in> set dbs then (Inr None, dbs)
               else case create_fault of
                      Some e \<Rightarrow> (Inl (''failed to create database '' @ dc_dbname cfg @ '': '' @ e), dbs)
                    | None \<Rightarrow> (Inr (Some (create_database_sql (dc_dbname cfg))), dc_dbname cfg # dbs)))"

text \<open>
  \<open>compose\<close> is what starting the container answers: an error when the command cannot be run, or its success
  with both outputs.
\<close>

definition start_compose_postgres :: "string + bool \<times> string \<times> string \<Rightarrow> string + unit" where
  "start_compose_postgres compose =
     (case compose of
        Inl e \<Rightarrow> Inl (''failed to run docker compose: '' @ e)
      | Inr (ok, stderr, stdout) \<Rightarrow>
          if ok then Inr ()
          else Inl (''docker compose up -d postgres failed: '' @ (if trim stderr \<noteq> [] then trim stderr else trim stdout)))"

definition ensure_postgres_database ::
  "bool \<Rightarrow> string + bool \<times> string \<times> string \<Rightarrow> (nat \<Rightarrow> string option) \<Rightarrow> (nat \<Rightarrow> nat) \<Rightarrow> string option \<Rightarrow> string option
     \<Rightarrow> string option \<Rightarrow> database_config \<Rightarrow> string list \<Rightarrow> (string + unit) \<times> string list" where
  "ensure_postgres_database docker compose ready spent connect_fault check_fault create_fault cfg dbs =
     (if db_driver cfg \<noteq> ''postgres'' \<or> has_explicit_dsn cfg then (Inr (), dbs)
      else case (if docker then Inr () else start_compose_postgres compose) of
             Inl e \<Rightarrow> (Inl e, dbs)
           | Inr _ \<Rightarrow>
               (case wait_for_postgres cfg ready spent of
                  Inl e \<Rightarrow> (Inl e, dbs)
                | Inr _ \<Rightarrow>
                    (case create_database_if_missing connect_fault check_fault create_fault cfg dbs of
                       (Inl e, dbs) \<Rightarrow> (Inl e, dbs)
                     | (Inr _, dbs) \<Rightarrow> (Inr (), dbs))))"

end
