(* ===== verification/Database_Facts.thy ===== *)
theory Database_Facts
  imports Database
begin

text \<open>
  What a start leaves of the database (\<open>src/store/db.rs\<close>): a migration that returns has recorded its
  version and is not run again, one that fails is run again at the next start, and without failures
  every table and column is there.
\<close>

section \<open>Single statements\<close>

definition stamped :: "db_schema \<Rightarrow> bool" where
  "stamped s \<longleftrightarrow> (case sm_versions s of None \<Rightarrow> False | Some vs \<Rightarrow> \<exists>v \<in> set vs. v \<ge> SCHEMA_VERSION)"

lemma stamped_iff: "stamped s \<longleftrightarrow> (\<exists>vs. sm_versions s = Some vs \<and> (\<exists>v \<in> set vs. v \<ge> SCHEMA_VERSION))"
  by (simp add: stamped_def split: option.splits)

lemma next_fault_schema [simp]: "cn_schema (snd (next_fault c)) = cn_schema c"
  by (simp add: next_fault_def split: list.splits)

lemma next_fault_pair: "next_fault c = (f, c') \<Longrightarrow> cn_schema c' = cn_schema c"
  using next_fault_schema [of c] by simp

lemma next_fault_none [simp]: "cn_faults c = [] \<Longrightarrow> next_fault c = (None, c)"
  by (simp add: next_fault_def)

lemma ddl_stamped:
  "ddl_effect d s = Some s' \<Longrightarrow> (\<forall>v. d \<noteq> Insert_Version v) \<Longrightarrow> stamped s' = stamped s"
  by (cases d) (auto simp: stamped_iff split: option.splits if_splits)

lemma execute_stamped:
  "(\<forall>v. d \<noteq> Insert_Version v) \<Longrightarrow> stamped (cn_schema (snd (execute err d c))) = stamped (cn_schema c)"
  by (auto simp: execute_def ddl_stamped dest: next_fault_pair split: prod.splits option.splits)

definition no_stamp :: "ddl list \<Rightarrow> bool" where
  "no_stamp ds \<longleftrightarrow> (\<forall>d \<in> set ds. \<forall>v. d \<noteq> Insert_Version v)"

lemma execute_all_stamped:
  "no_stamp ds \<Longrightarrow> stamped (cn_schema (snd (execute_all err ds c))) = stamped (cn_schema c)"
proof (induction ds arbitrary: c)
  case (Cons d ds)
  then show ?case
    using execute_stamped [of d err c] by (auto simp: no_stamp_def split: prod.splits sum.splits)
qed simp

lemma execute_ok_stamped:
  "no_stamp ds \<Longrightarrow> stamped (cn_schema (execute_ok err ds c)) = stamped (cn_schema c)"
  by (induction ds arbitrary: c) (simp_all add: no_stamp_def execute_stamped)

lemma execute_all_append:
  "execute_all err (a @ b) c =
    (case execute_all err a c of (Inl e, c) \<Rightarrow> (Inl e, c) | (Inr _, c) \<Rightarrow> execute_all err b c)"
  by (induction a arbitrary: c) (simp_all split: prod.splits sum.splits)

lemma schemas_no_stamp [simp]:
  "no_stamp (accounts_schema b @ tokens_schema b @ usage_schema b)" "no_stamp performance_schema"
  "no_stamp (map (\<lambda>(n, ty). Add_Column t n ty) ps)" "no_stamp (map (\<lambda>(n, ty). Alter_Type t n ty) ps)"
  by (auto simp: no_stamp_def accounts_schema_def tokens_schema_def usage_schema_def performance_schema_def)

lemma queries_schema:
  "cn_schema (snd (existing_columns t c)) = cn_schema c"
  "cn_schema (snd (column_types t c)) = cn_schema c"
  "cn_schema (snd (applied_versions c)) = cn_schema c"
  by (auto simp: existing_columns_def column_types_def applied_versions_def dest: next_fault_pair split: prod.splits option.splits)

lemma alter_stamped: "stamped (cn_schema (alter_accounts err b c)) = stamped (cn_schema c)"
proof -
  obtain cols c1 where e: "existing_columns ''accounts'' c = (cols, c1)"
    by (cases "existing_columns ''accounts'' c")
  let ?c2 = "execute_ok err (map (\<lambda>(n, ty). Add_Column ''accounts'' n ty) (filter (\<lambda>p. fst p \<notin> set cols) (pending_columns b))) c1"
  obtain types c3 where t: "column_types ''accounts'' ?c2 = (types, c3)"
    by (cases "column_types ''accounts'' ?c2")
  have "cn_schema c1 = cn_schema c" "cn_schema c3 = cn_schema ?c2"
    using queries_schema(1) [of "''accounts''" c] queries_schema(2) [of "''accounts''" ?c2] e t by simp_all
  moreover from this have "stamped (cn_schema ?c2) = stamped (cn_schema c)"
    by (simp add: execute_ok_stamped)
  ultimately show ?thesis
    using t by (cases b) (simp_all add: alter_accounts_def e Let_def execute_ok_stamped)
qed

lemma insert_version_stamps: "execute err (Insert_Version SCHEMA_VERSION) c = (Inr (), c') \<Longrightarrow> stamped (cn_schema c')"
  by (auto simp: execute_def stamped_iff split: prod.splits option.splits if_splits)

lemma applied_stamped: "applied_versions c = (n, c') \<Longrightarrow> 0 < n \<Longrightarrow> stamped (cn_schema c')"
  by (auto simp: applied_versions_def stamped_iff filter_empty_conv dest: next_fault_pair split: prod.splits option.splits)

section \<open>Migration and its version\<close>

lemma migrate_stamps:
  assumes "migrate err driver c = (Inr (), c')"
  shows "stamped (cn_schema c')"
proof -
  obtain r c1 where cv: "execute err Create_Versions c = (r, c1)"
    by (cases "execute err Create_Versions c")
  obtain n c2 where n: "applied_versions c1 = (n, c2)"
    by (cases "applied_versions c1")
  let ?b = "driver = ''sqlite''"
  obtain q c3 where q: "execute_all err (accounts_schema ?b @ tokens_schema ?b @ usage_schema ?b) c2 = (q, c3)"
    by (cases "execute_all err (accounts_schema ?b @ tokens_schema ?b @ usage_schema ?b) c2")
  show ?thesis
  proof (cases "0 < n")
    case True
    then show ?thesis
      using assms cv n applied_stamped [OF n] by (auto simp: migrate_def split: sum.splits)
  next
    case False
    then have "execute_all err (performance_schema @ [Insert_Version SCHEMA_VERSION]) (alter_accounts err ?b c3) = (Inr (), c')"
      using assms cv n q by (auto simp: migrate_def Let_def split: sum.splits)
    then show ?thesis
      using insert_version_stamps by (auto simp: execute_all_append split: prod.splits sum.splits)
  qed
qed

lemma migrate_fails_unstamped:
  assumes "migrate err driver c = (Inl e, c')" "\<not> stamped (cn_schema c)"
  shows "\<not> stamped (cn_schema c')"
proof -
  let ?b = "driver = ''sqlite''"
  obtain r c1 where cv: "execute err Create_Versions c = (r, c1)"
    by (cases "execute err Create_Versions c")
  obtain n c2 where n: "applied_versions c1 = (n, c2)"
    by (cases "applied_versions c1")
  obtain q c3 where q: "execute_all err (accounts_schema ?b @ tokens_schema ?b @ usage_schema ?b) c2 = (q, c3)"
    by (cases "execute_all err (accounts_schema ?b @ tokens_schema ?b @ usage_schema ?b) c2")
  have s: "\<not> stamped (cn_schema c1)" "\<not> stamped (cn_schema c2)" "\<not> stamped (cn_schema c3)"
    using assms(2) execute_stamped [of Create_Versions err c] cv n q queries_schema(3) [of c1]
      execute_all_stamped [OF schemas_no_stamp(1), of err ?b c2] by simp_all
  obtain p c4 where p: "execute_all err performance_schema (alter_accounts err ?b c3) = (p, c4)"
    by (cases "execute_all err performance_schema (alter_accounts err ?b c3)")
  have s4: "\<not> stamped (cn_schema c4)"
    using s(3) p execute_all_stamped [OF schemas_no_stamp(2), of err "alter_accounts err ?b c3"] by (simp add: alter_stamped)
  have last: "\<not> stamped (cn_schema c5)" if "execute err (Insert_Version SCHEMA_VERSION) c4 = (Inl x, c5)" for x c5
    using that s4 by (auto simp: execute_def dest: next_fault_pair split: prod.splits option.splits)
  show ?thesis
    using assms(1) cv n q p s s4 last
    by (auto simp: migrate_def Let_def execute_all_append split: sum.splits prod.splits if_splits)
qed

lemma stamped_skips:
  assumes "stamped (cn_schema c)" "cn_faults c = []"
  shows "migrate err driver c = (Inr (), c)"
proof -
  obtain vs where vs: "sm_versions (cn_schema c) = Some vs" "\<exists>v \<in> set vs. v \<ge> SCHEMA_VERSION"
    using assms(1) by (auto simp: stamped_iff)
  then have "0 < length (filter (\<lambda>v. v \<ge> SCHEMA_VERSION) vs)"
    by (auto simp: filter_empty_conv)
  then show ?thesis
    using vs(1) assms(2) by (simp add: migrate_def execute_def applied_versions_def)
qed

text \<open>
  A migration is repeated until it returns, and then never again. If it returns an error the schema is
  not marked as migrated; if it succeeds it is, and later starts without an error leave the schema
  as it is.
\<close>

theorem migration_until_it_returns:
  assumes "\<not> stamped (cn_schema c)"
  shows "case migrate err driver c of
      (Inl e, c') \<Rightarrow> \<not> stamped (cn_schema c')
    | (Inr _, c') \<Rightarrow> stamped (cn_schema c') \<and> migrate err' driver' (c'\<lparr>cn_faults := []\<rparr>) = (Inr (), c'\<lparr>cn_faults := []\<rparr>)"
  using migrate_stamps [of err driver c] migrate_fails_unstamped [of err driver c] assms
  by (auto split: prod.splits sum.splits intro: stamped_skips)


section \<open>Migration without failures\<close>

definition has_columns :: "db_schema \<Rightarrow> string \<Rightarrow> string set \<Rightarrow> bool" where
  "has_columns s t names \<longleftrightarrow> (\<exists>cols. map_of (sm_tables s) t = Some cols \<and> names \<subseteq> fst ` set cols)"

text \<open>A table that is missing or has some columns at least.\<close>

definition compatible :: "db_schema \<Rightarrow> string \<Rightarrow> string set \<Rightarrow> bool" where
  "compatible s t names \<longleftrightarrow> map_of (sm_tables s) t = None \<or> has_columns s t names"

lemma create_table_run:
  assumes "cn_faults c = []" "compatible (cn_schema c) t names" "names \<subseteq> fst ` set cols"
  obtains c' where "\<And>ds. execute_all err (Create_Table t cols # ds) c = execute_all err ds c'" "cn_faults c' = []"
    "has_columns (cn_schema c') t names"
    "\<And>t' names'. has_columns (cn_schema c) t' names' \<Longrightarrow> has_columns (cn_schema c') t' names'"
    "\<And>t' names'. t' \<noteq> t \<Longrightarrow> compatible (cn_schema c) t' names' \<Longrightarrow> compatible (cn_schema c') t' names'"
    "sm_versions (cn_schema c') = sm_versions (cn_schema c)"
    "map_of (sm_tables (cn_schema c)) t = None \<Longrightarrow> map_of (sm_tables (cn_schema c')) t = Some cols"
    "\<And>t'. t' \<noteq> t \<or> map_of (sm_tables (cn_schema c)) t \<noteq> None \<Longrightarrow> map_of (sm_tables (cn_schema c')) t' = map_of (sm_tables (cn_schema c)) t'"
proof -
  let ?s = "(cn_schema c)\<lparr>sm_tables := hm_or_insert t cols (sm_tables (cn_schema c))\<rparr>"
  show ?thesis
  proof (rule that [of "c\<lparr>cn_schema := ?s\<rparr>"])
    show "execute_all err (Create_Table t cols # ds) c = execute_all err ds (c\<lparr>cn_schema := ?s\<rparr>)" for ds
      using assms(1) by (simp add: execute_def)
  qed (use assms in \<open>auto simp: compatible_def has_columns_def map_lookup split: option.splits\<close>)
qed

lemma index_effect:
  "has_columns s t (set cols) \<Longrightarrow> \<exists>s'. ddl_effect (Create_Index i t cols) s = Some s' \<and> sm_tables s' = sm_tables s \<and>
    sm_versions s' = sm_versions s"
  by (cases "i \<in> set (sm_indexes s)") (auto simp: has_columns_def)

lemma create_indexes_run:
  assumes "cn_faults c = []" "\<forall>(i, cols) \<in> set is. has_columns (cn_schema c) t (set cols)"
  obtains c' where "\<And>ds. execute_all err (map (\<lambda>(i, cols). Create_Index i t cols) is @ ds) c = execute_all err ds c'"
    "cn_faults c' = []" "sm_tables (cn_schema c') = sm_tables (cn_schema c)"
    "sm_versions (cn_schema c') = sm_versions (cn_schema c)"
  using assms
proof (induction "is" arbitrary: c thesis)
  case Nil
  then show ?case by simp
next
  case (Cons p "is")
  obtain i cols where p: "p = (i, cols)" by (cases p)
  then obtain s where s: "ddl_effect (Create_Index i t cols) (cn_schema c) = Some s"
    "sm_tables s = sm_tables (cn_schema c)" "sm_versions s = sm_versions (cn_schema c)"
    using index_effect [of "cn_schema c" t cols i] Cons(4) by auto
  have run: "execute_all err (map (\<lambda>(i, cols). Create_Index i t cols) (p # is) @ ds) c =
      execute_all err (map (\<lambda>(i, cols). Create_Index i t cols) is @ ds) (c\<lparr>cn_schema := s\<rparr>)" for ds
    using s(1) Cons(3) p by (simp add: execute_def del: ddl_effect.simps)
  show ?case
  proof (rule Cons(1) [of "c\<lparr>cn_schema := s\<rparr>"])
    fix c'
    assume c': "\<And>ds. execute_all err (map (\<lambda>(i, cols). Create_Index i t cols) is @ ds) (c\<lparr>cn_schema := s\<rparr>) = execute_all err ds c'"
      "cn_faults c' = []" "sm_tables (cn_schema c') = sm_tables (cn_schema (c\<lparr>cn_schema := s\<rparr>))"
      "sm_versions (cn_schema c') = sm_versions (cn_schema (c\<lparr>cn_schema := s\<rparr>))"
    show thesis
      by (rule Cons(2) [of c']) (use c' run s in simp_all)
  qed (use Cons(3,4) s(2) in \<open>auto simp: has_columns_def\<close>)
qed

lemma add_columns_run:
  assumes "cn_faults c = []" "map_of (sm_tables (cn_schema c)) t = Some cols" "distinct (map fst ps)"
    and "fst ` set ps \<inter> fst ` set cols = {}"
  shows "\<exists>c'. execute_ok err (map (\<lambda>(n, ty). Add_Column t n ty) ps) c = c' \<and> cn_faults c' = [] \<and>
    map_of (sm_tables (cn_schema c')) t = Some (cols @ ps) \<and>
    (\<forall>t'. t' \<noteq> t \<longrightarrow> map_of (sm_tables (cn_schema c')) t' = map_of (sm_tables (cn_schema c)) t') \<and>
    sm_versions (cn_schema c') = sm_versions (cn_schema c)"
  using assms
proof (induction ps arbitrary: c cols)
  case (Cons p ps)
  obtain n ty where p: "p = (n, ty)" by (cases p)
  let ?s = "(cn_schema c)\<lparr>sm_tables := AList.update t (cols @ [(n, ty)]) (sm_tables (cn_schema c))\<rparr>"
  have "snd (execute err (Add_Column t n ty) c) = c\<lparr>cn_schema := ?s\<rparr>"
    using Cons(2,3,5) p by (auto simp: execute_def)
  then show ?case
    using Cons(1) [of "c\<lparr>cn_schema := ?s\<rparr>" "cols @ [p]"] Cons(2-5) p by (auto simp: map_lookup)
qed simp

lemma retype_run:
  assumes "cn_faults c = []" "map_of (sm_tables (cn_schema c)) t = Some cols" "fst ` set ps \<subseteq> fst ` set cols"
    and "distinct (map fst ps)"
  shows "\<exists>c' cols'. execute_ok err (map (\<lambda>(n, ty). Alter_Type t n ty) ps) c = c' \<and> cn_faults c' = [] \<and>
    map_of (sm_tables (cn_schema c')) t = Some cols' \<and> map fst cols' = map fst cols \<and>
    (\<forall>n ty. (n, ty) \<in> set ps \<longrightarrow> map_of cols' n = Some ty) \<and>
    (\<forall>n. n \<notin> fst ` set ps \<longrightarrow> map_of cols' n = map_of cols n) \<and>
    (\<forall>t'. t' \<noteq> t \<longrightarrow> map_of (sm_tables (cn_schema c')) t' = map_of (sm_tables (cn_schema c)) t') \<and>
    sm_versions (cn_schema c') = sm_versions (cn_schema c)"
  using assms
proof (induction ps arbitrary: c cols)
  case (Cons p ps)
  obtain n ty where p: "p = (n, ty)" by (cases p)
  let ?cols = "map (\<lambda>(m, old). (m, if m = n then ty else old)) cols"
  let ?s = "(cn_schema c)\<lparr>sm_tables := AList.update t ?cols (sm_tables (cn_schema c))\<rparr>"
  have run: "snd (execute err (Alter_Type t n ty) c) = c\<lparr>cn_schema := ?s\<rparr>"
    using Cons(2,3,4) p by (auto simp: execute_def)
  have names: "map fst ?cols = map fst cols"
    by (simp add: comp_def case_prod_unfold)
  have found: "map_of ?cols m = (if m = n then map_option (\<lambda>_. ty) (map_of cols m) else map_of cols m)" for m
    by (induction cols) auto
  have "n \<in> fst ` set cols"
    using Cons(4) p by auto
  then have "map_of cols n \<noteq> None"
    by (simp add: map_of_eq_None_iff)
  moreover have "fst ` set ps \<subseteq> fst ` set ?cols"
    using Cons(4) arg_cong [OF names, of set] by (simp add: image_image)
  ultimately obtain c' cols' where ih: "execute_ok err (map (\<lambda>(n, ty). Alter_Type t n ty) ps) (c\<lparr>cn_schema := ?s\<rparr>) = c'"
    "cn_faults c' = []" "map_of (sm_tables (cn_schema c')) t = Some cols'" "map fst cols' = map fst ?cols"
    "\<forall>n ty. (n, ty) \<in> set ps \<longrightarrow> map_of cols' n = Some ty" "\<forall>n. n \<notin> fst ` set ps \<longrightarrow> map_of cols' n = map_of ?cols n"
    "\<forall>t'. t' \<noteq> t \<longrightarrow> map_of (sm_tables (cn_schema c')) t' = map_of (sm_tables ?s) t'"
    "sm_versions (cn_schema c') = sm_versions (cn_schema c)"
    using Cons(1) [of "c\<lparr>cn_schema := ?s\<rparr>" ?cols] Cons(2,5) by (auto simp: map_lookup)
  have "n \<notin> fst ` set ps"
    using Cons(5) p by simp
  then have "map_of cols' n = Some ty"
    using ih(6) found \<open>map_of cols n \<noteq> None\<close> by auto
  then have typed: "\<forall>m ty'. (m, ty') \<in> set (p # ps) \<longrightarrow> map_of cols' m = Some ty'"
    using ih(5) p by auto
  have others: "\<forall>m. m \<notin> fst ` set (p # ps) \<longrightarrow> map_of cols' m = map_of cols m"
    using ih(6) found p by simp
  have tabs: "\<forall>t'. t' \<noteq> t \<longrightarrow> map_of (sm_tables (cn_schema c')) t' = map_of (sm_tables (cn_schema c)) t'"
    using ih(7) by (simp add: map_lookup)
  have named: "map fst cols' = map fst cols"
    unfolding ih(4) by (rule names)
  have ran: "execute_ok err (map (\<lambda>(n, ty). Alter_Type t n ty) (p # ps)) c = c'"
    using run ih(1) p by (simp only: list.map prod.case execute_ok.simps)
  show ?case
    by (intro exI conjI) (rule ran ih(2) ih(3) named typed others tabs ih(8))+
qed simp


definition usage_index_columns :: "string set" where
  "usage_index_columns = {''sg_day'', ''id'', ''account_id'', ''api_token_id'', ''model'', ''cost_complete''}"

definition performance_index_columns :: "string set" where
  "performance_index_columns = {''sg_day'', ''started_at_ms'', ''account_id'', ''api_token_id'', ''model''}"

lemma compatible_empty: "compatible s t {}"
  by (auto simp: compatible_def has_columns_def)

lemma has_columns_mono: "has_columns s t a \<Longrightarrow> b \<subseteq> a \<Longrightarrow> has_columns s t b"
  by (auto simp: has_columns_def)

lemma has_columns_table: "has_columns s t a \<Longrightarrow> has_columns s t {}"
  by (auto simp: has_columns_def)

lemma same_tables: "sm_tables s = sm_tables s' \<Longrightarrow> has_columns s = has_columns s' \<and> compatible s = compatible s'"
  by (simp add: has_columns_def compatible_def fun_eq_iff)

lemma base_schema_run:
  assumes "cn_faults c = []" "compatible (cn_schema c) ''usage_events'' usage_index_columns"
    and "compatible (cn_schema c) ''request_performance_events'' performance_index_columns"
  obtains c' where "execute_all err (accounts_schema b @ tokens_schema b @ usage_schema b) c = (Inr (), c')" "cn_faults c' = []"
    "has_columns (cn_schema c') ''accounts'' {}" "has_columns (cn_schema c') ''api_tokens'' {}"
    "has_columns (cn_schema c') ''usage_events'' usage_index_columns" "has_columns (cn_schema c') ''usage_pricing_cache'' {}"
    "\<And>t names. has_columns (cn_schema c) t names \<Longrightarrow> has_columns (cn_schema c') t names"
    "compatible (cn_schema c') ''request_performance_events'' performance_index_columns"
    "sm_versions (cn_schema c') = sm_versions (cn_schema c)"
proof -
  obtain acols where acc: "accounts_schema b = [Create_Table ''accounts'' acols]"
    by (simp add: accounts_schema_def)
  obtain tcols where tok: "tokens_schema b = [Create_Table ''api_tokens'' tcols]"
    by (simp add: tokens_schema_def)
  let ?is = "[(''idx_usage_events_sg_day'', [''sg_day'', ''id'']), (''idx_usage_events_account_day'', [''account_id'', ''sg_day'']),
      (''idx_usage_events_api_token_day'', [''api_token_id'', ''sg_day'']), (''idx_usage_events_model_day'', [''model'', ''sg_day'']),
      (''idx_usage_events_unpriced_id'', [''id'', ''cost_complete''])]"
  obtain ucols pcols where use: "usage_schema b = Create_Table ''usage_events'' ucols #
      map (\<lambda>(i, cols). Create_Index i ''usage_events'' cols) ?is @ [Create_Table ''usage_pricing_cache'' pcols]"
    "usage_index_columns \<subseteq> fst ` set ucols"
    by (simp add: usage_schema_def usage_index_columns_def)
  note table = create_table_run [where err = err]
  obtain c1 where c1: "\<And>ds. execute_all err (Create_Table ''accounts'' acols # ds) c = execute_all err ds c1" "cn_faults c1 = []"
    "has_columns (cn_schema c1) ''accounts'' {}"
    "\<And>t names. has_columns (cn_schema c) t names \<Longrightarrow> has_columns (cn_schema c1) t names"
    "\<And>t names. t \<noteq> ''accounts'' \<Longrightarrow> compatible (cn_schema c) t names \<Longrightarrow> compatible (cn_schema c1) t names"
    "sm_versions (cn_schema c1) = sm_versions (cn_schema c)"
    by (rule table [OF assms(1) compatible_empty [of _ "''accounts''"], of acols]) auto
  obtain c2 where c2: "\<And>ds. execute_all err (Create_Table ''api_tokens'' tcols # ds) c1 = execute_all err ds c2" "cn_faults c2 = []"
    "has_columns (cn_schema c2) ''api_tokens'' {}"
    "\<And>t names. has_columns (cn_schema c1) t names \<Longrightarrow> has_columns (cn_schema c2) t names"
    "\<And>t names. t \<noteq> ''api_tokens'' \<Longrightarrow> compatible (cn_schema c1) t names \<Longrightarrow> compatible (cn_schema c2) t names"
    "sm_versions (cn_schema c2) = sm_versions (cn_schema c1)"
    by (rule table [OF c1(2) compatible_empty [of _ "''api_tokens''"], of tcols]) auto
  have comp: "compatible (cn_schema c2) ''usage_events'' usage_index_columns"
    "compatible (cn_schema c2) ''request_performance_events'' performance_index_columns"
    using assms(2,3) c1(5) c2(5) by simp_all
  obtain c3 where c3: "\<And>ds. execute_all err (Create_Table ''usage_events'' ucols # ds) c2 = execute_all err ds c3" "cn_faults c3 = []"
    "has_columns (cn_schema c3) ''usage_events'' usage_index_columns"
    "\<And>t names. has_columns (cn_schema c2) t names \<Longrightarrow> has_columns (cn_schema c3) t names"
    "\<And>t names. t \<noteq> ''usage_events'' \<Longrightarrow> compatible (cn_schema c2) t names \<Longrightarrow> compatible (cn_schema c3) t names"
    "sm_versions (cn_schema c3) = sm_versions (cn_schema c2)"
    by (rule table [OF c2(2) comp(1) use(2)]) auto
  have "\<forall>(i, cols) \<in> set ?is. has_columns (cn_schema c3) ''usage_events'' (set cols)"
    using has_columns_mono [OF c3(3)] by (simp add: usage_index_columns_def)
  then obtain c4 where c4: "\<And>ds. execute_all err (map (\<lambda>(i, cols). Create_Index i ''usage_events'' cols) ?is @ ds) c3 = execute_all err ds c4"
    "cn_faults c4 = []" "sm_tables (cn_schema c4) = sm_tables (cn_schema c3)" "sm_versions (cn_schema c4) = sm_versions (cn_schema c3)"
    by (rule create_indexes_run [OF c3(2), where err = err]) auto
  obtain c5 where c5: "\<And>ds. execute_all err (Create_Table ''usage_pricing_cache'' pcols # ds) c4 = execute_all err ds c5" "cn_faults c5 = []"
    "has_columns (cn_schema c5) ''usage_pricing_cache'' {}"
    "\<And>t names. has_columns (cn_schema c4) t names \<Longrightarrow> has_columns (cn_schema c5) t names"
    "\<And>t names. t \<noteq> ''usage_pricing_cache'' \<Longrightarrow> compatible (cn_schema c4) t names \<Longrightarrow> compatible (cn_schema c5) t names"
    "sm_versions (cn_schema c5) = sm_versions (cn_schema c4)"
    by (rule table [OF c4(2) compatible_empty [of _ "''usage_pricing_cache''"], of pcols]) auto
  note same = same_tables [OF c4(3)]
  show ?thesis
  proof (rule that [of c5])
    show "execute_all err (accounts_schema b @ tokens_schema b @ usage_schema b) c = (Inr (), c5)"
      unfolding acc tok use(1) append_Cons append_Nil append_assoc c1(1) c2(1) c3(1) c4(1) c5(1) by simp
    show "compatible (cn_schema c5) ''request_performance_events'' performance_index_columns"
      using comp(2) c3(5) c5(5) same by simp
    show "sm_versions (cn_schema c5) = sm_versions (cn_schema c)"
      using c1(6) c2(6) c3(6) c4(4) c5(6) by simp
  qed (use c1 c2 c3 c5 same in \<open>simp_all\<close>)
qed


lemma performance_schema_run:
  assumes "cn_faults c = []" "compatible (cn_schema c) ''request_performance_events'' performance_index_columns"
  obtains c' where "\<And>ds. execute_all err (performance_schema @ ds) c = execute_all err ds c'" "cn_faults c' = []"
    "has_columns (cn_schema c') ''request_performance_events'' performance_index_columns"
    "\<And>t names. has_columns (cn_schema c) t names \<Longrightarrow> has_columns (cn_schema c') t names"
    "\<And>t. t \<noteq> ''request_performance_events'' \<Longrightarrow> map_of (sm_tables (cn_schema c')) t = map_of (sm_tables (cn_schema c)) t"
    "sm_versions (cn_schema c') = sm_versions (cn_schema c)"
proof -
  let ?is = "[(''idx_performance_day'', [''sg_day'', ''started_at_ms'']), (''idx_performance_account'', [''account_id'', ''sg_day'']),
      (''idx_performance_token'', [''api_token_id'', ''sg_day'']), (''idx_performance_model'', [''model'', ''sg_day''])]"
  obtain cols where perf: "performance_schema = Create_Table ''request_performance_events'' cols #
      map (\<lambda>(i, cols). Create_Index i ''request_performance_events'' cols) ?is"
    "performance_index_columns \<subseteq> fst ` set cols"
    by (simp add: performance_schema_def performance_index_columns_def)
  obtain c1 where c1: "\<And>ds. execute_all err (Create_Table ''request_performance_events'' cols # ds) c = execute_all err ds c1"
    "cn_faults c1 = []" "has_columns (cn_schema c1) ''request_performance_events'' performance_index_columns"
    "\<And>t names. has_columns (cn_schema c) t names \<Longrightarrow> has_columns (cn_schema c1) t names"
    "\<And>t. t \<noteq> ''request_performance_events'' \<Longrightarrow> map_of (sm_tables (cn_schema c1)) t = map_of (sm_tables (cn_schema c)) t"
    "sm_versions (cn_schema c1) = sm_versions (cn_schema c)"
    by (rule create_table_run [OF assms perf(2), where err = err]) auto
  have "\<forall>(i, cols) \<in> set ?is. has_columns (cn_schema c1) ''request_performance_events'' (set cols)"
    using has_columns_mono [OF c1(3)] by (simp add: performance_index_columns_def)
  then obtain c2 where c2: "\<And>ds. execute_all err (map (\<lambda>(i, cols). Create_Index i ''request_performance_events'' cols) ?is @ ds) c1 = execute_all err ds c2"
    "cn_faults c2 = []" "sm_tables (cn_schema c2) = sm_tables (cn_schema c1)" "sm_versions (cn_schema c2) = sm_versions (cn_schema c1)"
    by (rule create_indexes_run [OF c1(2), where err = err]) auto
  note same = same_tables [OF c2(3)]
  show ?thesis
  proof (rule that [of c2])
    show "execute_all err (performance_schema @ ds) c = execute_all err ds c2" for ds
      unfolding perf(1) append_Cons c1(1) c2(1) ..
  qed (use c1 c2 same in \<open>simp_all\<close>)
qed

lemma data_type_same: "eq_ignore_ascii_case (data_type a) (data_type b) \<Longrightarrow> a = b"
  by (cases a; cases b) (simp_all add: eq_ignore_ascii_case_def to_ascii_lowercase_def char_to_ascii_lowercase_def is_ascii_upper_def)

definition column_type_of :: "db_schema \<Rightarrow> string \<Rightarrow> string \<Rightarrow> column_type option" where
  "column_type_of s t n = Option.bind (map_of (sm_tables s) t) (\<lambda>cols. map_of cols n)"

lemma alter_accounts_run:
  assumes "cn_faults c = []" "has_columns (cn_schema c) ''accounts'' {}"
  obtains c' where "alter_accounts err b c = c'" "cn_faults c' = []"
    "has_columns (cn_schema c') ''accounts'' (fst ` set (pending_columns b))"
    "\<And>t names. has_columns (cn_schema c) t names \<Longrightarrow> has_columns (cn_schema c') t names"
    "\<And>t. t \<noteq> ''accounts'' \<Longrightarrow> map_of (sm_tables (cn_schema c')) t = map_of (sm_tables (cn_schema c)) t"
    "sm_versions (cn_schema c') = sm_versions (cn_schema c)"
    "\<And>n ty. \<not> b \<Longrightarrow> (n, ty) \<in> set retyped_columns \<Longrightarrow> column_type_of (cn_schema c') ''accounts'' n = Some ty"
proof -
  obtain cols where cols: "map_of (sm_tables (cn_schema c)) ''accounts'' = Some cols"
    using assms(2) by (auto simp: has_columns_def)
  let ?ps = "filter (\<lambda>p. fst p \<notin> set (map fst cols)) (pending_columns b)"
  have ex: "existing_columns ''accounts'' c = (map fst cols, c)"
    using assms(1) cols by (simp add: existing_columns_def)
  have "distinct (map fst (pending_columns b))"
    by (simp add: pending_columns_def)
  then obtain c1 where c1: "execute_ok err (map (\<lambda>(n, ty). Add_Column ''accounts'' n ty) ?ps) c = c1" "cn_faults c1 = []"
    "map_of (sm_tables (cn_schema c1)) ''accounts'' = Some (cols @ ?ps)"
    "\<And>t. t \<noteq> ''accounts'' \<Longrightarrow> map_of (sm_tables (cn_schema c1)) t = map_of (sm_tables (cn_schema c)) t"
    "sm_versions (cn_schema c1) = sm_versions (cn_schema c)"
    using add_columns_run [OF assms(1) cols, of ?ps err] by (auto simp: distinct_map_filter)
  have kept: "has_columns (cn_schema c1) t names" if "has_columns (cn_schema c) t names" for t names
    using that c1(3) c1(4) [of t] cols by (cases "t = ''accounts''") (auto simp: has_columns_def)
  have pend: "fst ` set (pending_columns b) \<subseteq> fst ` set (cols @ ?ps)"
    by (auto simp: image_iff)
  show ?thesis
  proof (cases b)
    case True
    show ?thesis
    proof (rule that [of c1])
      show "alter_accounts err b c = c1"
        using True ex c1(1) by (simp add: alter_accounts_def)
      show "has_columns (cn_schema c1) ''accounts'' (fst ` set (pending_columns b))"
        unfolding has_columns_def using c1(3) pend by blast
    qed (use c1 kept True in simp_all)
  next
    case False
    let ?types = "map (\<lambda>(n, ty). (n, data_type ty)) (cols @ ?ps)"
    let ?rs = "filter (needs_type ?types) retyped_columns"
    have ty: "column_types ''accounts'' c1 = (?types, c1)"
      using c1(2,3) by (simp add: column_types_def)
    have lookup: "map_of ?types n = map_option data_type (map_of (cols @ ?ps) n)" for n
      by (simp only: map_of_map comp_def)
    have "fst ` set ?rs \<subseteq> fst ` set (cols @ ?ps)"
    proof
      fix n
      assume "n \<in> fst ` set ?rs"
      then have "map_of ?types n \<noteq> None"
        by (auto simp: needs_type_def simp del: map_append map_of_append split: option.splits)
      then have "map_of (cols @ ?ps) n \<noteq> None"
        unfolding lookup by simp
      then show "n \<in> fst ` set (cols @ ?ps)"
        by (simp only: map_of_eq_None_iff not_not)
    qed
    moreover have "distinct (map fst retyped_columns)"
      by (simp add: retyped_columns_def)
    ultimately obtain c2 cols2 where c2: "execute_ok err (map (\<lambda>(n, ty). Alter_Type ''accounts'' n ty) ?rs) c1 = c2" "cn_faults c2 = []"
      "map_of (sm_tables (cn_schema c2)) ''accounts'' = Some cols2" "map fst cols2 = map fst (cols @ ?ps)"
      "\<forall>n ty. (n, ty) \<in> set ?rs \<longrightarrow> map_of cols2 n = Some ty"
      "\<forall>n. n \<notin> fst ` set ?rs \<longrightarrow> map_of cols2 n = map_of (cols @ ?ps) n"
      "\<forall>t. t \<noteq> ''accounts'' \<longrightarrow> map_of (sm_tables (cn_schema c2)) t = map_of (sm_tables (cn_schema c1)) t"
      "sm_versions (cn_schema c2) = sm_versions (cn_schema c1)"
      using retype_run [OF c1(2,3), of ?rs err] by (auto simp: distinct_map_filter)
    have names: "fst ` set cols2 = fst ` set (cols @ ?ps)"
      using arg_cong [OF c2(4), of set] by (simp only: set_map)
    have kept2: "has_columns (cn_schema c2) t names" if "has_columns (cn_schema c1) t names" for t names
      using that c2(3) c2(7) names c1(3) by (cases "t = ''accounts''") (auto simp: has_columns_def)
    have typed: "column_type_of (cn_schema c2) ''accounts'' n = Some ty" if r: "(n, ty) \<in> set retyped_columns" for n ty
    proof (cases "(n, ty) \<in> set ?rs")
      case True
      then have "map_of cols2 n = Some ty"
        using c2(5) by blast
      then show ?thesis
        using c2(3) by (simp add: column_type_of_def)
    next
      case no: False
      have "n \<in> fst ` set (pending_columns b)"
        using r by (auto simp: retyped_columns_def pending_columns_def)
      then have "map_of (cols @ ?ps) n \<noteq> None"
        using pend by (simp only: map_of_eq_None_iff) blast
      then obtain old where old: "map_of (cols @ ?ps) n = Some old"
        by blast
      have "\<not> needs_type ?types (n, ty)"
        using no r by simp
      then have "old = ty"
        using old data_type_same [of old ty] unfolding needs_type_def fst_conv snd_conv lookup by simp
      moreover have "n \<notin> fst ` set ?rs"
      proof
        assume "n \<in> fst ` set ?rs"
        then obtain ty' where "(n, ty') \<in> set ?rs"
          by auto
        moreover from this have "(n, ty') \<in> set retyped_columns"
          by (simp only: set_filter mem_Collect_eq)
        then have "ty' = ty"
          using r by (auto simp: retyped_columns_def)
        ultimately show False
          using no by simp
      qed
      ultimately show ?thesis
        using c2(3,6) old by (simp add: column_type_of_def)
    qed
    show ?thesis
    proof (rule that [of c2])
      show "alter_accounts err b c = c2"
        using False ex c1(1) ty c2(1) by (simp add: alter_accounts_def)
      show "has_columns (cn_schema c2) ''accounts'' (fst ` set (pending_columns b))"
        unfolding has_columns_def using c2(3) pend names by blast
    qed (use c1 c2 kept kept2 typed in simp_all)
  qed
qed


definition all_tables :: "string list" where
  "all_tables = [''accounts'', ''api_tokens'', ''usage_events'', ''usage_pricing_cache'', ''request_performance_events'']"

lemma migrate_run:
  assumes "cn_faults c = []" "\<not> stamped (cn_schema c)"
    and "compatible (cn_schema c) ''usage_events'' usage_index_columns"
    and "compatible (cn_schema c) ''request_performance_events'' performance_index_columns"
  obtains c' where "migrate err driver c = (Inr (), c')" "stamped (cn_schema c')"
    "\<And>t names. has_columns (cn_schema c) t names \<Longrightarrow> has_columns (cn_schema c') t names"
    "\<And>t. t \<in> set all_tables \<Longrightarrow> has_columns (cn_schema c') t {}"
    "has_columns (cn_schema c') ''accounts'' (fst ` set (pending_columns (driver = ''sqlite'')))"
    "\<And>n ty. driver \<noteq> ''sqlite'' \<Longrightarrow> (n, ty) \<in> set retyped_columns \<Longrightarrow> column_type_of (cn_schema c') ''accounts'' n = Some ty"
proof -
  let ?b = "driver = ''sqlite''"
  define vs where "vs = (case sm_versions (cn_schema c) of None \<Rightarrow> [] | Some vs \<Rightarrow> vs)"
  let ?s = "(cn_schema c)\<lparr>sm_versions := Some vs\<rparr>"
  let ?c0 = "c\<lparr>cn_schema := ?s\<rparr>"
  have start: "execute err Create_Versions c = (Inr (), ?c0)"
    using assms(1) by (auto simp: execute_def vs_def split: option.splits)
  have "vs = [] \<or> sm_versions (cn_schema c) = Some vs"
    by (simp add: vs_def split: option.splits)
  then have vs: "sm_versions ?s = Some vs" "\<forall>v \<in> set vs. \<not> v \<ge> SCHEMA_VERSION"
    using assms(2) by (auto simp: stamped_def)
  then have none: "applied_versions ?c0 = (0, ?c0)"
    using assms(1) by (simp add: applied_versions_def filter_empty_conv)
  have same: "has_columns ?s = has_columns (cn_schema c)" "compatible ?s = compatible (cn_schema c)"
    using same_tables [of ?s "cn_schema c"] by simp_all
  obtain c1 where c1: "execute_all err (accounts_schema ?b @ tokens_schema ?b @ usage_schema ?b) ?c0 = (Inr (), c1)" "cn_faults c1 = []"
    "has_columns (cn_schema c1) ''accounts'' {}" "has_columns (cn_schema c1) ''api_tokens'' {}"
    "has_columns (cn_schema c1) ''usage_events'' usage_index_columns" "has_columns (cn_schema c1) ''usage_pricing_cache'' {}"
    "\<And>t names. has_columns ?s t names \<Longrightarrow> has_columns (cn_schema c1) t names"
    "compatible (cn_schema c1) ''request_performance_events'' performance_index_columns"
    "sm_versions (cn_schema c1) = sm_versions ?s"
    by (rule base_schema_run [of ?c0 err ?b]) (use assms same in simp_all)
  obtain c2 where c2: "alter_accounts err ?b c1 = c2" "cn_faults c2 = []"
    "has_columns (cn_schema c2) ''accounts'' (fst ` set (pending_columns ?b))"
    "\<And>t names. has_columns (cn_schema c1) t names \<Longrightarrow> has_columns (cn_schema c2) t names"
    "\<And>t. t \<noteq> ''accounts'' \<Longrightarrow> map_of (sm_tables (cn_schema c2)) t = map_of (sm_tables (cn_schema c1)) t"
    "sm_versions (cn_schema c2) = sm_versions (cn_schema c1)"
    "\<And>n ty. \<not> ?b \<Longrightarrow> (n, ty) \<in> set retyped_columns \<Longrightarrow> column_type_of (cn_schema c2) ''accounts'' n = Some ty"
    by (rule alter_accounts_run [OF c1(2,3), of err ?b]) blast
  have "compatible (cn_schema c2) ''request_performance_events'' performance_index_columns"
    using c1(8) c2(5) [of "''request_performance_events''"] by (simp add: compatible_def has_columns_def)
  then obtain c3 where c3: "\<And>ds. execute_all err (performance_schema @ ds) c2 = execute_all err ds c3" "cn_faults c3 = []"
    "has_columns (cn_schema c3) ''request_performance_events'' performance_index_columns"
    "\<And>t names. has_columns (cn_schema c2) t names \<Longrightarrow> has_columns (cn_schema c3) t names"
    "\<And>t. t \<noteq> ''request_performance_events'' \<Longrightarrow> map_of (sm_tables (cn_schema c3)) t = map_of (sm_tables (cn_schema c2)) t"
    "sm_versions (cn_schema c3) = sm_versions (cn_schema c2)"
    by (rule performance_schema_run [OF c2(2), where err = err]) blast
  let ?c4 = "c3\<lparr>cn_schema := (cn_schema c3)\<lparr>sm_versions := Some (SCHEMA_VERSION # vs)\<rparr>\<rparr>"
  have "SCHEMA_VERSION \<notin> set vs"
    using vs(2) by blast
  then have "execute_all err [Insert_Version SCHEMA_VERSION] c3 = (Inr (), ?c4)"
    using c3(2,6) c2(6) c1(9) vs(1) by (simp add: execute_def)
  then have run: "migrate err driver c = (Inr (), ?c4)"
    using start none c1(1) c2(1) c3(1) by (simp add: migrate_def)
  have tables: "has_columns (cn_schema ?c4) = has_columns (cn_schema c3)"
    by (simp add: has_columns_def fun_eq_iff)
  have typed: "column_type_of (cn_schema ?c4) ''accounts'' n = column_type_of (cn_schema c2) ''accounts'' n" for n
    using c3(5) by (simp add: column_type_of_def)
  show thesis
  proof (rule that [of ?c4])
    show "migrate err driver c = (Inr (), ?c4)"
      by (rule run)
    show "stamped (cn_schema ?c4)"
      using migrate_stamps [OF run] .
    show "has_columns (cn_schema ?c4) t names" if "has_columns (cn_schema c) t names" for t names
      using that c1(7) c2(4) c3(4) tables same by simp
    show "has_columns (cn_schema ?c4) t {}" if "t \<in> set all_tables" for t
      using that c1(3,4,6) has_columns_table [OF c1(5)] has_columns_table [OF c3(3)] c2(4) c3(4) tables
      by (auto simp: all_tables_def)
    show "has_columns (cn_schema ?c4) ''accounts'' (fst ` set (pending_columns ?b))"
      using c2(3) c3(4) tables by simp
    show "column_type_of (cn_schema ?c4) ''accounts'' n = Some ty" if "\<not> ?b" "(n, ty) \<in> set retyped_columns" for n ty
      using c2(7) [OF that] typed by simp
  qed
qed

text \<open>
  C28. A migration without errors completes, and keeps what was there: it returns successfully, every column
  any table had is still there, every table exists, the accounts have all the columns that were added over
  time, and on PostgreSQL the columns that older versions stored as texts have their types. The
  two tables with indexes must be new or have the indexed columns.
\<close>

theorem migration_completes:
  assumes "cn_faults c = []" "\<not> stamped (cn_schema c)"
    and "compatible (cn_schema c) ''usage_events'' usage_index_columns"
    and "compatible (cn_schema c) ''request_performance_events'' performance_index_columns"
  shows "\<exists>c'. migrate err driver c = (Inr (), c') \<and> stamped (cn_schema c') \<and>
    (\<forall>t names. has_columns (cn_schema c) t names \<longrightarrow> has_columns (cn_schema c') t names) \<and>
    (\<forall>t \<in> set all_tables. has_columns (cn_schema c') t {}) \<and>
    has_columns (cn_schema c') ''accounts'' (fst ` set (pending_columns (driver = ''sqlite''))) \<and>
    (driver \<noteq> ''sqlite'' \<longrightarrow>
      (\<forall>(n, ty) \<in> set retyped_columns. column_type_of (cn_schema c') ''accounts'' n = Some ty))"
  by (rule migrate_run [OF assms, of err driver]) blast

lemma column_missing: "column_type_of s t n = None \<Longrightarrow> \<not> has_columns s t {n}"
  by (force simp: column_type_of_def has_columns_def map_of_eq_None_iff)

text \<open>
  An upgrade statement that fails is never repeated. Here the accounts of an older version lack one
  column and the statement that adds it meets an error: the migration still succeeds, the column is
  missing, and no later start without an error adds it.
\<close>

definition old_accounts :: "sqlx_error option list \<Rightarrow> conn" where
  "old_accounts faults =
     \<lparr>cn_faults = faults,
      cn_schema = \<lparr>sm_versions = Some [3],
        sm_tables = [(''accounts'', filter (\<lambda>p. fst p \<noteq> ''disable_reason'') ([(''id'', CT_Integer), (''name'', CT_Text)] @ pending_columns True))],
        sm_indexes = []\<rparr>\<rparr>"

theorem failed_upgrade_is_stamped:
  "case migrate err ''sqlite'' (old_accounts (replicate 12 None @ [Some e])) of
     (Inl _, _) \<Rightarrow> False
   | (Inr _, c') \<Rightarrow> \<not> has_columns (cn_schema c') ''accounts'' {''disable_reason''} \<and>
       migrate err' driver' c' = (Inr (), c')"
proof -
  let ?c = "old_accounts (replicate 12 None @ [Some e])"
  have "(case migrate err ''sqlite'' ?c of (Inl _, _) \<Rightarrow> False
      | (Inr _, c') \<Rightarrow> cn_faults c' = [] \<and> stamped (cn_schema c') \<and> column_type_of (cn_schema c') ''accounts'' ''disable_reason'' = None)"
    by code_simp
  then show ?thesis
    by (auto split: prod.splits sum.splits simp: stamped_skips column_missing)
qed


section \<open>The PostgreSQL database\<close>

lemma wait_loop_attempts:
  "wait_loop cfg ready spent deadline i now e = Inr j \<Longrightarrow>
    i \<le> j \<and> ready j = None \<and> (\<forall>k. i \<le> k \<and> k < j \<longrightarrow> ready k \<noteq> None) \<and> now + (j - i) * 10 ^ 9 < deadline"
proof (induction cfg ready spent deadline i now e rule: wait_loop.induct)
  case (1 cfg ready spent deadline i now e)
  show ?case
  proof (cases "now < deadline \<and> ready i \<noteq> None")
    case True
    then obtain e' where e': "ready i = Some e'" by auto
    have run: "wait_loop cfg ready spent deadline (i + 1) (now + spent i + 10 ^ 9) e' = Inr j"
      using 1(2) True e' by (subst (asm) wait_loop.simps) simp
    then have ih: "i + 1 \<le> j" "ready j = None" "\<forall>k. i + 1 \<le> k \<and> k < j \<longrightarrow> ready k \<noteq> None"
      "now + spent i + 10 ^ 9 + (j - (i + 1)) * 10 ^ 9 < deadline"
      using 1(1) [OF conjunct1 [OF True] e'] by blast+
    have before: "ready k \<noteq> None" if "i \<le> k" "k < j" for k
      using ih(3) that e' by (cases "k = i") auto
    obtain d where "j = i + 1 + d"
      using ih(1) le_Suc_ex by blast
    then show ?thesis
      using ih before by (auto simp: algebra_simps)
  next
    case False
    then show ?thesis
      using 1(2) by (subst (asm) wait_loop.simps) (auto split: if_splits option.splits)
  qed
qed

lemma wait_loop_error:
  "wait_loop cfg ready spent deadline i now e = Inl m \<Longrightarrow> \<exists>e. m = wait_error cfg e"
proof (induction cfg ready spent deadline i now e rule: wait_loop.induct)
  case (1 cfg ready spent deadline i now e)
  show ?case
    using 1(2) by (subst (asm) wait_loop.simps) (use 1(1) in \<open>auto split: if_splits option.splits\<close>)
qed

text \<open>
  Waiting for PostgreSQL is bounded: it stops at the first attempt the server answers, which is one of
  the first 60, and otherwise with an error.
\<close>

theorem wait_for_postgres_bounded:
  "case wait_for_postgres cfg ready spent of
     Inr i \<Rightarrow> ready i = None \<and> i < 60 \<and> (\<forall>k. ready k = None \<longrightarrow> i \<le> k)
   | Inl e \<Rightarrow> \<exists>last_error. e = wait_error cfg last_error"
proof (cases "wait_for_postgres cfg ready spent")
  case (Inl e)
  then show ?thesis
    using wait_loop_error by (auto simp: wait_for_postgres_def)
next
  case (Inr i)
  then have "ready i = None" "\<forall>k. k < i \<longrightarrow> ready k \<noteq> None" "i * 10 ^ 9 < 60 * (10 ^ 9 :: nat)"
    using wait_loop_attempts [of cfg ready spent "60 * 10 ^ 9" 0 0 "[]" i] by (simp_all add: wait_for_postgres_def)
  then show ?thesis
    using Inr not_less by (auto simp del: not_None_eq)
qed

text \<open>The reading of a quoted identifier after its opening quote: the identifier and the rest of the statement.\<close>

fun read_identifier :: "string \<Rightarrow> (string \<times> string) option" where
  "read_identifier [] = None"
| "read_identifier (c # cs) =
     (if c = CHR 0x22
      then case cs of
             [] \<Rightarrow> Some ([], [])
           | d # ds \<Rightarrow> if d = CHR 0x22 then map_option (apfst (Cons d)) (read_identifier ds) else Some ([], cs)
      else map_option (apfst (Cons c)) (read_identifier cs))"

lemma read_replaced: "read_identifier (replace_with (CHR 0x22) [CHR 0x22, CHR 0x22] s @ [CHR 0x22]) = Some (s, [])"
  by (induction s) (auto simp: replace_with_def)

text \<open>
  The statement that creates the database names the configured database and holds nothing else,
  whatever characters the name has: the quoted identifier reads back as the name, and ends the statement.
\<close>

theorem database_name_quoted:
  "\<exists>quoted. create_database_sql dbname = ''CREATE DATABASE '' @ CHR 0x22 # quoted \<and> read_identifier quoted = Some (dbname, [])"
  unfolding create_database_sql_def using read_replaced by auto

section \<open>Witnesses\<close>

definition new_database :: conn where
  "new_database = \<lparr>cn_faults = [], cn_schema = \<lparr>sm_versions = None, sm_tables = [], sm_indexes = []\<rparr>\<rparr>"

lemma migration_until_it_returns_witness:
  "\<forall>err. case migrate err ''postgres'' (new_database\<lparr>cn_faults := [None, None, Some RowNotFound]\<rparr>) of
      (Inl e, c') \<Rightarrow> \<not> stamped (cn_schema c')
    | (Inr _, c') \<Rightarrow> stamped (cn_schema c') \<and>
        migrate err ''postgres'' (c'\<lparr>cn_faults := []\<rparr>) = (Inr (), c'\<lparr>cn_faults := []\<rparr>)"
  by (intro allI migration_until_it_returns) (simp add: new_database_def stamped_def)

lemma migration_completes_witness:
  "\<forall>err. \<exists>c'. migrate err ''postgres'' new_database = (Inr (), c') \<and>
    has_columns (cn_schema c') ''accounts'' (fst ` set (pending_columns False)) \<and>
    column_type_of (cn_schema c') ''accounts'' ''usage_data'' = Some CT_Jsonb"
proof
  fix err
  show "\<exists>c'. migrate err ''postgres'' new_database = (Inr (), c') \<and>
    has_columns (cn_schema c') ''accounts'' (fst ` set (pending_columns False)) \<and>
    column_type_of (cn_schema c') ''accounts'' ''usage_data'' = Some CT_Jsonb"
    using migration_completes [of new_database err "''postgres''"]
    by (auto simp: new_database_def stamped_def compatible_def retyped_columns_def)
qed

end
