(* ===== verification/OAuth_Flow.thy ===== *)
theory OAuth_Flow
  imports Account_Model
begin

text \<open>
  Signing in an account (\<open>src/service/oauth_flow.rs\<close> and its handlers in
  \<open>src/handler/router.rs\<close>): the authorisation URL with its session, and the exchange of the
  code for tokens.

  \<open>flow_lib\<close> has the two functions of other packages the proof key is made with; random bytes are
  arguments. \<open>post\<close> is the token endpoint: what it answers to a request body sent to a URL through a
  proxy. Instants of the sessions are nanoseconds of the monotonic clock.
\<close>

section \<open>Constants\<close>

definition CLIENT_ID :: string where "CLIENT_ID = ''9d1c250a-e61b-44d9-88ed-5944d1962f5e''"
definition AUTHORIZE_URL :: string where "AUTHORIZE_URL = ''https://claude.ai/oauth/authorize''"
definition TOKEN_URL :: string where "TOKEN_URL = ''https://platform.claude.com/v1/oauth/token''"
definition REDIRECT_URI :: string where "REDIRECT_URI = ''https://platform.claude.com/oauth/code/callback''"
definition SCOPE_FULL :: string where
  "SCOPE_FULL = ''user:profile user:inference user:sessions:claude_code user:mcp_servers user:file_upload''"
definition SCOPE_INFERENCE :: string where "SCOPE_INFERENCE = ''user:inference''"
definition SESSION_TTL :: int where "SESSION_TTL = 30 * 60 * 10 ^ 9"
definition SETUP_TOKEN_EXPIRES_IN :: int where "SETUP_TOKEN_EXPIRES_IN = 365 * 24 * 60 * 60"

section \<open>Proof keys\<close>

record flow_lib =
  fl_base64url :: "nat list \<Rightarrow> string"
  fl_sha256 :: "string \<Rightarrow> nat list"

definition base64url_encode :: "flow_lib \<Rightarrow> nat list \<Rightarrow> string" where
  "base64url_encode F data = fl_base64url F data"

definition generate_code_verifier :: "flow_lib \<Rightarrow> nat list \<Rightarrow> string" where
  "generate_code_verifier F buf = base64url_encode F buf"

definition generate_code_challenge :: "flow_lib \<Rightarrow> string \<Rightarrow> string" where
  "generate_code_challenge F verifier = base64url_encode F (fl_sha256 F verifier)"

definition generate_state :: "flow_lib \<Rightarrow> nat list \<Rightarrow> string" where
  "generate_state F buf = base64url_encode F buf"

definition generate_session_id :: "nat list \<Rightarrow> string" where
  "generate_session_id buf = hex_encode buf"

section \<open>Sessions\<close>

record oauth_session =
  os_state :: string
  os_code_verifier :: string
  os_scope :: string
  os_proxy_url :: string
  os_created_at :: int

type_synonym session_store = "(string, oauth_session) hash_map"

definition session_store_new :: session_store where "session_store_new = []"

definition session_alive :: "int \<Rightarrow> oauth_session \<Rightarrow> bool" where
  "session_alive inst s \<longleftrightarrow> inst - os_created_at s < SESSION_TTL"

definition session_set :: "int \<Rightarrow> string \<Rightarrow> oauth_session \<Rightarrow> session_store \<Rightarrow> session_store" where
  "session_set inst i s st = AList.update i s (filter (\<lambda>(_, s). session_alive inst s) st)"

definition session_take :: "string \<Rightarrow> session_store \<Rightarrow> oauth_session option \<times> session_store" where
  "session_take i st = (map_of st i, AList.delete i st)"

section \<open>The authorisation URL\<close>

definition to_upper_hex :: "nat \<Rightarrow> char" where
  "to_upper_hex n = ''0123456789ABCDEF'' ! n"

definition percent_char :: "char \<Rightarrow> string" where
  "percent_char c =
     (if is_ascii_alphanumeric c \<or> c \<in> set ''-_.~'' then [c]
      else let b = of_char c :: nat
           in [CHR ''%'', to_upper_hex (b div 16), to_upper_hex (b mod 16)])"

definition percent_encode :: "string \<Rightarrow> string" where
  "percent_encode input = concat (map percent_char input)"

record auth_url_response =
  au_auth_url :: string
  au_session_id :: string

text \<open>The draws of one URL: the state, the verifier and the identifier of the session.\<close>

record flow_draw =
  fd_state :: "nat list"
  fd_verifier :: "nat list"
  fd_session_id :: "nat list"

definition build_auth_url ::
  "flow_lib \<Rightarrow> int \<Rightarrow> flow_draw \<Rightarrow> string \<Rightarrow> string \<Rightarrow> session_store \<Rightarrow> auth_url_response \<times> session_store" where
  "build_auth_url F inst d scope proxy_url st =
     (let state = generate_state F (fd_state d);
          code_verifier = generate_code_verifier F (fd_verifier d);
          code_challenge = generate_code_challenge F code_verifier;
          session_id = generate_session_id (fd_session_id d);
          st = session_set inst session_id
                 \<lparr>os_state = state, os_code_verifier = code_verifier, os_scope = scope, os_proxy_url = proxy_url,
                  os_created_at = inst\<rparr> st;
          auth_url = AUTHORIZE_URL @ ''?code=true&client_id='' @ CLIENT_ID @ ''&response_type=code&redirect_uri='' @
            percent_encode REDIRECT_URI @ ''&scope='' @ replace_char (CHR '' '') (CHR ''+'') scope @
            ''&code_challenge='' @ code_challenge @ ''&code_challenge_method=S256&state='' @ state
      in (\<lparr>au_auth_url = auth_url, au_session_id = session_id\<rparr>, st))"

definition generate_auth_url ::
  "flow_lib \<Rightarrow> int \<Rightarrow> flow_draw \<Rightarrow> string option \<Rightarrow> session_store \<Rightarrow> auth_url_response \<times> session_store" where
  "generate_auth_url F inst d proxy_url st =
     build_auth_url F inst d SCOPE_FULL (case proxy_url of Some p \<Rightarrow> p | None \<Rightarrow> []) st"

definition generate_setup_token_url ::
  "flow_lib \<Rightarrow> int \<Rightarrow> flow_draw \<Rightarrow> string option \<Rightarrow> session_store \<Rightarrow> auth_url_response \<times> session_store" where
  "generate_setup_token_url F inst d proxy_url st =
     build_auth_url F inst d SCOPE_INFERENCE (case proxy_url of Some p \<Rightarrow> p | None \<Rightarrow> []) st"

section \<open>The exchange\<close>

record token_account =
  ta_uuid :: string
  ta_email_address :: string

record token_exchange_response =
  te_access_token :: string
  te_refresh_token :: string
  te_expires_in :: int
  te_scope :: string
  te_account :: "token_account option"
  te_organization :: "string option"

record exchange_code_response =
  xr_access_token :: string
  xr_refresh_token :: string
  xr_expires_in :: int
  xr_expires_at :: int
  xr_scope :: string
  xr_account_uuid :: string
  xr_organization_uuid :: string
  xr_email_address :: string

text \<open>
  What comes of a request: it cannot be sent, or it is answered with a status, the status as it is printed, the
  text of the body, and the body read as tokens or the error of reading it.
\<close>

datatype exchange_answer =
    Send_Failed string
  | Answered nat string string "string + token_exchange_response"

type_synonym token_endpoint = "string \<Rightarrow> json \<Rightarrow> string \<Rightarrow> exchange_answer"

text \<open>The code may carry the state behind a number sign.\<close>

definition split_code :: "string \<Rightarrow> string \<times> string" where
  "split_code raw_code = (case split_once_char (CHR ''#'') raw_code of Some p \<Rightarrow> p | None \<Rightarrow> (raw_code, []))"

definition exchange_body :: "oauth_session \<Rightarrow> string \<Rightarrow> bool \<Rightarrow> json" where
  "exchange_body s raw_code is_setup_token =
     (let (auth_code, code_state) = split_code raw_code;
          body = JObj [(''grant_type'', JStr ''authorization_code''), (''code'', JStr auth_code),
                       (''redirect_uri'', JStr REDIRECT_URI), (''client_id'', JStr CLIENT_ID),
                       (''code_verifier'', JStr (os_code_verifier s))];
          body = jinsert ''state'' (JStr (if code_state \<noteq> [] then code_state else os_state s)) body
      in if is_setup_token then jinsert ''expires_in'' (json_of_i64 SETUP_TOKEN_EXPIRES_IN) body else body)"

definition exchanged :: "int \<Rightarrow> token_exchange_response \<Rightarrow> exchange_code_response" where
  "exchanged now r =
     (let expires_in = (if te_expires_in r > 0 then te_expires_in r else 3600)
      in \<lparr>xr_access_token = te_access_token r, xr_refresh_token = te_refresh_token r, xr_expires_in = expires_in,
          xr_expires_at = i64_wrap (now div 10 ^ 9 + expires_in), xr_scope = te_scope r,
          xr_account_uuid = (case te_account r of Some a \<Rightarrow> ta_uuid a | None \<Rightarrow> []),
          xr_organization_uuid = (case te_organization r of Some u \<Rightarrow> u | None \<Rightarrow> []),
          xr_email_address = (case te_account r of Some a \<Rightarrow> ta_email_address a | None \<Rightarrow> [])\<rparr>)"

definition exchange_result :: "int \<Rightarrow> exchange_answer \<Rightarrow> app_error + exchange_code_response" where
  "exchange_result now answer =
     (case answer of
        Send_Failed e \<Rightarrow> Inl (Internal (''token exchange request failed: '' @ e))
      | Answered status shown body parsed \<Rightarrow>
          if \<not> (200 \<le> status \<and> status < 300)
          then Inl (Internal (''token exchange failed: status '' @ shown @ '' '' @ body))
          else case parsed of
                 Inl e \<Rightarrow> Inl (Internal (''token exchange parse failed: '' @ e))
               | Inr r \<Rightarrow> Inr (exchanged now r))"

definition do_exchange ::
  "token_endpoint \<Rightarrow> int \<Rightarrow> int \<Rightarrow> string \<Rightarrow> string \<Rightarrow> bool \<Rightarrow> session_store
     \<Rightarrow> (app_error + exchange_code_response) \<times> session_store" where
  "do_exchange post now inst session_id raw_code is_setup_token st =
     (case session_take session_id st of
        (None, st) \<Rightarrow> (Inl (BadRequest ''invalid or expired session_id''), st)
      | (Some s, st) \<Rightarrow>
          if \<not> session_alive inst s then (Inl (BadRequest ''session expired''), st)
          else (exchange_result now (post TOKEN_URL (exchange_body s raw_code is_setup_token) (os_proxy_url s)), st))"

definition exchange_code ::
  "token_endpoint \<Rightarrow> int \<Rightarrow> int \<Rightarrow> string \<Rightarrow> string \<Rightarrow> session_store
     \<Rightarrow> (app_error + exchange_code_response) \<times> session_store" where
  "exchange_code post now inst session_id code st = do_exchange post now inst session_id code False st"

definition exchange_setup_token_code ::
  "token_endpoint \<Rightarrow> int \<Rightarrow> int \<Rightarrow> string \<Rightarrow> string \<Rightarrow> session_store
     \<Rightarrow> (app_error + exchange_code_response) \<times> session_store" where
  "exchange_setup_token_code post now inst session_id code st = do_exchange post now inst session_id code True st"

text \<open>The calls of the handlers, in any order.\<close>

datatype flow_call =
    Generate_Url int flow_draw "string option"
  | Generate_Setup_Url int flow_draw "string option"
  | Exchange int int string string
  | Exchange_Setup int int string string

fun flow_exec :: "flow_lib \<Rightarrow> token_endpoint \<Rightarrow> flow_call \<Rightarrow> session_store \<Rightarrow> session_store" where
  "flow_exec F post (Generate_Url inst d p) st = snd (generate_auth_url F inst d p st)"
| "flow_exec F post (Generate_Setup_Url inst d p) st = snd (generate_setup_token_url F inst d p st)"
| "flow_exec F post (Exchange now inst i c) st = snd (exchange_code post now inst i c st)"
| "flow_exec F post (Exchange_Setup now inst i c) st = snd (exchange_setup_token_code post now inst i c st)"

definition flow_run :: "flow_lib \<Rightarrow> token_endpoint \<Rightarrow> flow_call list \<Rightarrow> session_store \<Rightarrow> session_store" where
  "flow_run F post calls st = fold (flow_exec F post) calls st"

end
