(* ===== verification/OAuth_Client.thy ===== *)
theory OAuth_Client
  imports Account_Service OAuth_Flow
begin

text \<open>
  The calls to the OAuth server and to the usage endpoint (\<open>src/service/oauth.rs\<close>): the answers a refresh of
  tokens and a usage query are made of, and what they mean for the accounts.

  The endpoints are parameters: what comes of a request with a body, or with a token, through a proxy. The headers
  of the requests are not represented.
\<close>

section \<open>Answers\<close>

text \<open>
  A request cannot be sent, or it is answered with a status, the status as it is printed, the text of the
  body, and the body read as the value that is wanted or the error of reading it.
\<close>

datatype 'a client_answer =
    Unsent string
  | Responded nat string string "string + 'a"

section \<open>Refreshing tokens\<close>

definition OAUTH_SCOPES :: "string list" where
  "OAUTH_SCOPES =
     [''user:profile'', ''user:inference'', ''user:sessions:claude_code'', ''user:mcp_servers'', ''user:file_upload'']"

record oauth_refresh_response =
  of_access_token :: string
  of_refresh_token :: string
  of_expires_in :: int

text \<open>\<open>slice::join\<close>.\<close>

fun join_with :: "string \<Rightarrow> string list \<Rightarrow> string" where
  "join_with sep [] = []"
| "join_with sep [s] = s"
| "join_with sep (s # t # ss) = s @ sep @ join_with sep (t # ss)"

definition oauth_refresh_body :: "string \<Rightarrow> json" where
  "oauth_refresh_body refresh_token =
     JObj [(''grant_type'', JStr ''refresh_token''), (''refresh_token'', JStr refresh_token),
           (''client_id'', JStr CLIENT_ID), (''scope'', JStr (join_with '' '' OAUTH_SCOPES))]"

text \<open>\<open>chrono::Duration::seconds\<close> panics when the milliseconds leave the range of 64 bits.\<close>

definition duration_seconds :: "int \<Rightarrow> int outcome" where
  "duration_seconds n = (if - (2 ^ 63 - 1) \<le> n * 1000 \<and> n * 1000 \<le> 2 ^ 63 - 1 then Done (n * 10 ^ 9) else Panic)"

definition lifetime_of :: "oauth_refresh_response \<Rightarrow> int" where
  "lifetime_of r = (if of_expires_in r > 0 then of_expires_in r else 3600)"

definition refreshed :: "lib \<Rightarrow> int \<Rightarrow> string \<Rightarrow> oauth_refresh_response \<Rightarrow> refreshed_oauth_tokens outcome" where
  "refreshed L now refresh_token r =
     outcome_bind (duration_seconds (lifetime_of r)) (\<lambda>d.
     outcome_bind (unwrap (lib_checked_add L now d)) (\<lambda>expires_at.
       Done \<lparr>rt_access_token = of_access_token r,
             rt_refresh_token = (if of_refresh_token r = [] then refresh_token else of_refresh_token r),
             rt_expires_at = expires_at\<rparr>))"

type_synonym refresh_endpoint = "string \<Rightarrow> json \<Rightarrow> string \<Rightarrow> oauth_refresh_response client_answer"

definition refresh_oauth_token ::
  "lib \<Rightarrow> refresh_endpoint \<Rightarrow> int \<Rightarrow> string \<Rightarrow> string \<Rightarrow> (app_error + refreshed_oauth_tokens) outcome" where
  "refresh_oauth_token L post now refresh_token proxy_url =
     (case post TOKEN_URL (oauth_refresh_body refresh_token) proxy_url of
        Unsent e \<Rightarrow> Done (Inl (Internal (''oauth refresh request failed: '' @ e)))
      | Responded status shown body parsed \<Rightarrow>
          if status \<noteq> 200 then Done (Inl (Internal (''oauth refresh failed: status '' @ shown @ '' '' @ body)))
          else case parsed of
                 Inl e \<Rightarrow> Done (Inl (Internal (''oauth refresh parse failed: '' @ e)))
               | Inr r \<Rightarrow> outcome_bind (refreshed L now refresh_token r) (\<lambda>t. Done (Inr t)))"

section \<open>Usage\<close>

type_synonym usage_endpoint = "string \<Rightarrow> string \<Rightarrow> json client_answer"

text \<open>The dash of the message is written in UTF-8.\<close>

definition em_dash :: string where
  "em_dash = [CHR 0xE2, CHR 0x80, CHR 0x94]"

definition usage_status_error :: "nat \<Rightarrow> string \<Rightarrow> string \<Rightarrow> app_error" where
  "usage_status_error status shown body =
     (if status = 401 \<or> status = 403
      then BadRequest (''usage fetch failed: status '' @ shown @ '' '' @ em_dash @ '' token may be expired or invalid: '' @ body)
      else if status = 429 then TooManyRequests (''usage endpoint rate limited (429), try again later: '' @ body)
      else Internal (''usage fetch failed: status '' @ shown @ '' '' @ body))"

definition fetch_usage :: "usage_endpoint \<Rightarrow> string \<Rightarrow> string \<Rightarrow> app_error + json" where
  "fetch_usage get token proxy_url =
     (case get token proxy_url of
        Unsent e \<Rightarrow> Inl (Internal (''usage request failed: '' @ e))
      | Responded status shown body parsed \<Rightarrow>
          if status \<noteq> 200 then Inl (usage_status_error status shown body)
          else case parsed of
                 Inl e \<Rightarrow> Inl (Internal (''usage parse failed: '' @ e))
               | Inr v \<Rightarrow> Inr v)"

section \<open>What a refresh leaves in the table\<close>

lemma refreshed_tokens:
  assumes "refresh_oauth_token L post now refresh_token proxy_url = Done (Inr t)"
  obtains shown body r where "post TOKEN_URL (oauth_refresh_body refresh_token) proxy_url = Responded 200 shown body (Inr r)"
    "refreshed L now refresh_token r = Done t"
  using assms by (auto simp: refresh_oauth_token_def outcome_bind_Done_iff split: client_answer.splits sum.splits if_splits)

lemma refreshed_keeps_token: "refreshed L now refresh_token r = Done t \<Longrightarrow> refresh_token \<noteq> [] \<Longrightarrow> rt_refresh_token t \<noteq> []"
  by (auto simp: refreshed_def outcome_bind_Done_iff split: if_splits)

lemma refreshed_expiry:
  assumes "refreshed L now refresh_token r = Done t" "\<And>a b c. lib_checked_add L a b = Some c \<Longrightarrow> c = a + b"
  shows "rt_expires_at t = now + lifetime_of r * 10 ^ 9" "rt_access_token t = of_access_token r"
  using assms by (auto simp: refreshed_def duration_seconds_def outcome_bind_Done_iff unwrap_def split: if_splits option.splits)

text \<open>A row of the account with other tokens keeps having a refresh token.\<close>

definition token_kept :: "int \<Rightarrow> account_row \<Rightarrow> account_row \<Rightarrow> bool" where
  "token_kept aid r r' \<longleftrightarrow> row_id r' = row_id r \<and> (row_id r \<noteq> aid \<longrightarrow> r' = r) \<and>
     (row_refresh_token r \<noteq> [] \<longrightarrow> row_refresh_token r' \<noteq> [])"

lemma token_kept_refl: "list_all2 (token_kept aid) rs rs"
  by (simp add: list_all2_same token_kept_def)

lemma auth_error_rows: "list_all2 (token_kept aid) (ast_rows st) (ast_rows (snd (update_auth_error now f aid msg st)))"
  by (auto simp: update_auth_error_def exec_update_def list_all2_map2 list_all2_same token_kept_def split: option.splits)

lemma oauth_tokens_rows:
  "ref \<noteq> [] \<Longrightarrow> list_all2 (token_kept aid) (ast_rows st) (ast_rows (snd (update_oauth_tokens now f aid acc ref ex st)))"
  by (auto simp: update_oauth_tokens_def exec_update_def invalidate_schedulable_cache_def list_all2_map2 list_all2_same
      token_kept_def split: option.splits)

text \<open>
  C30. No refresh loses a refresh token: whatever the OAuth server answers and whichever statement fails, every account
  that has a refresh token still has one afterwards, and no row but the refreshed account's is changed.
\<close>

theorem refresh_keeps_refresh_token:
  assumes "refresh_oauth_token L post now (acc_refresh_token latest) (acc_proxy_url latest) =
      Done (oe_refresh E (acc_refresh_token latest) (acc_proxy_url latest))"
    and "get_by_id S (oe_fault E 0) aid st = Inr latest"
  shows "list_all2 (token_kept aid) (ast_rows st) (ast_rows (snd (refresh_oauth_access_token S E aid st)))"
proof (cases "has_valid_oauth_access_token (oe_now E 1) latest OAUTH_REFRESH_BUFFER_SECONDS \<or> acc_refresh_token latest = []")
  case True
  then show ?thesis
    using assms(2) token_kept_refl auth_error_rows by (auto simp: refresh_oauth_access_token_def)
next
  case False
  show ?thesis
  proof (cases "oe_refresh E (acc_refresh_token latest) (acc_proxy_url latest)")
    case (Inl e)
    then show ?thesis
      using False assms(2) auth_error_rows by (simp add: refresh_oauth_access_token_def Let_def)
  next
    case (Inr t)
    then have "refresh_oauth_token L post now (acc_refresh_token latest) (acc_proxy_url latest) = Done (Inr t)"
      using assms(1) by simp
    then have "rt_refresh_token t \<noteq> []"
      using False refreshed_keeps_token by (auto elim: refreshed_tokens)
    then show ?thesis
      using False Inr assms(2) oauth_tokens_rows [of "rt_refresh_token t" aid st "oe_now E 4" "oe_fault E 2" "rt_access_token t" "rt_expires_at t"]
      by (auto simp: refresh_oauth_access_token_def Let_def split: prod.splits sum.splits)
  qed
qed

text \<open>
  C31. One refresh serves for the lifetime of the token: after the server issued a token for some seconds, every
  resolution up to the buffer and a second before they are over answers with that token from the table, whatever the
  server would answer then.
\<close>

theorem refreshed_token_reused:
  assumes "\<And>a b c. lib_checked_add L a b = Some c \<Longrightarrow> c = a + b"
    and "get_by_id S (oe_fault E 0) aid st = Inr latest" "acc_auth_type latest = Oauth" "acc_refresh_token latest \<noteq> []"
    and "\<not> has_valid_oauth_access_token (oe_now E 1) latest OAUTH_REFRESH_BUFFER_SECONDS"
    and "refresh_oauth_token L post now (acc_refresh_token latest) (acc_proxy_url latest) =
      Done (oe_refresh E (acc_refresh_token latest) (acc_proxy_url latest))"
    and "post TOKEN_URL (oauth_refresh_body (acc_refresh_token latest)) (acc_proxy_url latest) = Responded 200 shown body (Inr r)"
    and "of_access_token r \<noteq> []" "oe_fault E 2 = None"
    and "oe_now E' 0 + (OAUTH_REFRESH_BUFFER_SECONDS + 1) * 10 ^ 9 \<le> now + lifetime_of r * 10 ^ 9"
    and "svc_store svc = snd (refresh_oauth_access_token S E aid st)"
  shows "\<exists>a. get_by_id S None aid (svc_store svc) = Inr a \<and>
    resolve_oauth_access_token S ops E' a svc = (Inr (of_access_token r), svc)"
proof -
  have b: "outcome_bind (refreshed L now (acc_refresh_token latest) r) (\<lambda>t. Done (Inr t)) =
      Done (oe_refresh E (acc_refresh_token latest) (acc_proxy_url latest))"
    using assms(6,7) by (simp add: refresh_oauth_token_def)
  then obtain t where "refreshed L now (acc_refresh_token latest) r = Done t"
    by (cases "refreshed L now (acc_refresh_token latest) r") simp_all
  then have t: "oe_refresh E (acc_refresh_token latest) (acc_proxy_url latest) = Inr t" "refreshed L now (acc_refresh_token latest) r = Done t"
    using b by simp_all
  have ex: "rt_expires_at t = now + lifetime_of r * 10 ^ 9" "rt_access_token t = of_access_token r"
    using refreshed_expiry [OF t(2)] assms(1) by blast+
  let ?f = "\<lambda>r. r\<lparr>row_access_token := rt_access_token t, row_refresh_token := rt_refresh_token t,
      row_oauth_expires_at := Some (fmt_time (rt_expires_at t)), row_oauth_refreshed_at := Some (fmt_time (oe_now E 4)),
      row_auth_error := '''', row_updated_at := fmt_time (oe_now E 4)\<rparr>"
  have rows: "ast_rows (svc_store svc) = map (\<lambda>r. if row_id r = aid then ?f r else r) (ast_rows st)"
    using assms(2,4,5,9,11) t(1)
    by (simp add: refresh_oauth_access_token_def Let_def update_oauth_tokens_def exec_update_def invalidate_schedulable_cache_def)
  obtain q where q: "find (\<lambda>r. row_id r = aid) (ast_rows st) = Some q" "latest = row_to_account S q"
    using assms(2) by (auto simp: get_by_id_def split: option.splits)
  have "find (\<lambda>r. row_id r = aid) (map (\<lambda>r. if row_id r = aid then ?f r else r) rs) = Some (?f q)"
    if "find (\<lambda>r. row_id r = aid) rs = Some q" for rs
    using that by (induction rs) (auto split: if_splits)
  then have "find (\<lambda>r. row_id r = aid) (ast_rows (svc_store svc)) = Some (?f q)"
    unfolding rows using q(1) by blast
  then have got: "get_by_id S None aid (svc_store svc) = Inr (row_to_account S (?f q))"
    by (simp add: get_by_id_def)
  have "rt_expires_at t - 10 ^ 9 < fmt_time (rt_expires_at t)"
    using pos_mod_bound [of "10 ^ 9" "rt_expires_at t"] by (simp add: fmt_time_def minus_mod_eq_div_mult [symmetric])
  then have "has_valid_oauth_access_token (oe_now E' 0) (row_to_account S (?f q)) OAUTH_REFRESH_BUFFER_SECONDS"
    using assms(3,8,10) ex q(2) by (simp add: has_valid_oauth_access_token_def row_to_account_def algebra_simps)
  then have "resolve_oauth_access_token S ops E' (row_to_account S (?f q)) svc = (Inr (of_access_token r), svc)"
    using ex(2) by (simp add: resolve_oauth_access_token_def row_to_account_def)
  then show ?thesis
    using got by blast
qed

text \<open>
  An endpoint that asks to slow down is left alone: after a usage query that the endpoint answers with 429, no
  query of that account is sent for a minute, whatever the endpoint would answer.
\<close>

theorem endpoint_429_cools_down:
  assumes "get_by_id S None aid (svc_store svc) = Inr a" "acc_auth_type a = Oauth" "\<not> usage_is_fresh now a"
    and "usage_in_cooldown inst aid svc = (False, svc0)"
    and "resolve_oauth_access_token S ops E a svc0 = (Inr token, svc1)"
    and "get token (acc_proxy_url a) = Responded 429 shown body parsed"
    and "refresh_usage S L ops E now inst None save_fault (fetch_usage get) aid svc = (r, svc')"
    and "inst' < inst + USAGE_429_COOLDOWN"
    and "get_by_id S None aid (svc_store svc') = Inr a'" "acc_auth_type a' = Oauth" "\<not> usage_is_fresh now' a'"
  shows "r = Done (Inl (TooManyRequests (''usage endpoint rate limited (429), try again later: '' @ body))) \<and>
    refresh_usage S L ops E' now' inst' None save_fault' fetch' aid svc' =
      (Done (Inl (TooManyRequests ''usage query in 60s local cooldown after recent 429'')), svc')"
proof -
  have "r = Done (Inl (TooManyRequests (''usage endpoint rate limited (429), try again later: '' @ body)))"
    "svc' = mark_usage_cooldown inst aid svc1"
    using assms(1-7) by (simp_all add: refresh_usage_def fetch_usage_def usage_status_error_def)
  moreover from this have "usage_in_cooldown inst' aid svc' = (True, svc')"
    using assms(8) by (simp add: usage_in_cooldown_def mark_usage_cooldown_def map_lookup)
  ultimately show ?thesis
    using assms(9-11) by (simp add: refresh_usage_def)
qed

section \<open>Witnesses\<close>

definition exact_lib :: lib where
  "exact_lib = \<lparr>lib_from_timestamp = (\<lambda>_. None), lib_parse_rfc3339 = (\<lambda>_. None), lib_to_rfc3339 = (\<lambda>_. []),
     lib_duration_from_std = (\<lambda>n. Some (int n * 10 ^ 9)), lib_checked_add = (\<lambda>a b. Some (a + b)), lib_uppercase_first = (\<lambda>s. s)\<rparr>"

lemma exact_add: "lib_checked_add exact_lib a b = Some c \<Longrightarrow> c = a + b"
  by (simp add: exact_lib_def)

text \<open>A server that issues a token for an hour and no other refresh token.\<close>

definition issuing_server :: refresh_endpoint where
  "issuing_server url body proxy =
     Responded 200 ''200 OK'' [] (Inr \<lparr>of_access_token = ''new'', of_refresh_token = [], of_expires_in = 3600\<rparr>)"

definition client_env :: "int \<Rightarrow> oauth_env" where
  "client_env now = issuing_env\<lparr>oe_now := (\<lambda>_. now), oe_refresh := (\<lambda>rt proxy.
     case refresh_oauth_token exact_lib issuing_server now rt proxy of Done r \<Rightarrow> r | Panic \<Rightarrow> Inl NotFound)\<rparr>"

lemma issued: "refresh_oauth_token exact_lib issuing_server now rt proxy =
  Done (Inr \<lparr>rt_access_token = ''new'', rt_refresh_token = rt, rt_expires_at = now + 3600 * 10 ^ 9\<rparr>)"
  by (simp add: refresh_oauth_token_def issuing_server_def refreshed_def lifetime_of_def duration_seconds_def exact_lib_def)

lemma client_env_sel [simp]:
  "oe_refresh (client_env now) rt proxy = Inr \<lparr>rt_access_token = ''new'', rt_refresh_token = rt, rt_expires_at = now + 3600 * 10 ^ 9\<rparr>"
  "oe_fault (client_env now) i = None" "oe_now (client_env now) i = now"
  by (simp_all add: client_env_def issued issuing_env_def)

lemma refresh_keeps_refresh_token_witness:
  "list_all2 (token_kept 4) [oauth_row] (ast_rows (snd (refresh_oauth_access_token example_serde (client_env (10 ^ 9)) 4 (account_store_new [oauth_row] 5))))"
proof -
  have "list_all2 (token_kept 4) (ast_rows (account_store_new [oauth_row] 5))
      (ast_rows (snd (refresh_oauth_access_token example_serde (client_env (10 ^ 9)) 4 (account_store_new [oauth_row] 5))))"
    by (rule refresh_keeps_refresh_token [where latest = oauth_account and L = exact_lib and post = issuing_server and now = "10 ^ 9"])
      (simp_all add: issued get_oauth_account)
  then show ?thesis
    by (simp add: account_store_new_def)
qed

lemma refreshed_token_reused_witness:
  "\<exists>svc a. svc_store svc = snd (refresh_oauth_access_token example_serde (client_env (10 ^ 9)) 4 (account_store_new [oauth_row] 5)) \<and>
    get_by_id example_serde None 4 (svc_store svc) = Inr a \<and>
    resolve_oauth_access_token example_serde memory_cache (client_env (1000 * 10 ^ 9)) a svc = (Inr ''new'', svc)"
proof -
  let ?svc = "oauth_svc\<lparr>svc_store := snd (refresh_oauth_access_token example_serde (client_env (10 ^ 9)) 4 (account_store_new [oauth_row] 5))\<rparr>"
  have "\<exists>a. get_by_id example_serde None 4 (svc_store ?svc) = Inr a \<and>
    resolve_oauth_access_token example_serde memory_cache (client_env (1000 * 10 ^ 9)) a ?svc =
      (Inr (of_access_token \<lparr>of_access_token = ''new'', of_refresh_token = [], of_expires_in = 3600\<rparr>), ?svc)"
    by (rule refreshed_token_reused [where latest = oauth_account and L = exact_lib and post = issuing_server and now = "10 ^ 9"
          and st = "account_store_new [oauth_row] 5" and E = "client_env (10 ^ 9)"])
      (simp_all add: issued get_oauth_account exact_add issuing_server_def has_valid_oauth_access_token_def
        OAUTH_REFRESH_BUFFER_SECONDS_def lifetime_of_def)
  then show ?thesis
    by (intro exI [of _ ?svc]) auto
qed

lemma oauth_row_sel: "row_id oauth_row = 4" "row_auth_type oauth_row = ''oauth''" "row_usage_fetched_at oauth_row = None"
  by (simp_all add: oauth_row_def example_row_def)

lemma new_rows: "ast_rows (account_store_new rs i) = rs"
  by (simp add: account_store_new_def)

lemma oauth_account_after:
  "\<exists>a. get_by_id example_serde None 4 (svc_store (snd (resolve_oauth_access_token example_serde memory_cache issuing_env oauth_account oauth_svc))) =
    Inr a \<and> acc_auth_type a = Oauth \<and> acc_usage_fetched_at a = None"
proof -
  obtain r where "ast_rows (svc_store (snd (resolve_oauth_access_token example_serde memory_cache issuing_env oauth_account oauth_svc))) = [r]"
    "row_id r = 4" "row_auth_type r = ''oauth''" "row_usage_fetched_at r = None"
    by (simp add: resolve_oauth_access_token_def has_valid_oauth_access_token_def issuing_env_def mem_acquire_lock_def
        memory_store_new_def refresh_oauth_access_token_def get_oauth_account update_oauth_tokens_def exec_update_def
        OAUTH_REFRESH_BUFFER_SECONDS_def Let_def invalidate_schedulable_cache_def new_rows oauth_row_sel)
  then show ?thesis
    by (simp add: get_by_id_def auth_type_from_def row_to_account_def)
qed

lemma endpoint_429_cools_down_witness:
  "\<exists>svc'. refresh_usage example_serde exact_lib memory_cache issuing_env 0 5 None None
      (fetch_usage (\<lambda>_ _. Responded 429 [] ''slow down'' (Inl []))) 4 oauth_svc =
      (Done (Inl (TooManyRequests ''usage endpoint rate limited (429), try again later: slow down'')), svc') \<and>
    (\<forall>fetch. refresh_usage example_serde exact_lib memory_cache issuing_env 0 100 None None fetch 4 svc' =
      (Done (Inl (TooManyRequests ''usage query in 60s local cooldown after recent 429'')), svc'))"
proof -
  obtain svc1 where svc1: "resolve_oauth_access_token example_serde memory_cache issuing_env oauth_account oauth_svc = (Inr ''new'', svc1)"
    using resolve_example by (metis prod.collapse)
  obtain r svc' where run: "refresh_usage example_serde exact_lib memory_cache issuing_env 0 5 None None
      (fetch_usage (\<lambda>_ _. Responded 429 [] ''slow down'' (Inl []))) 4 oauth_svc = (r, svc')"
    by fastforce
  have calm: "usage_in_cooldown 5 4 oauth_svc = (False, oauth_svc)"
    by (simp add: usage_in_cooldown_def)
  have acc: "get_by_id example_serde None 4 (svc_store oauth_svc) = Inr oauth_account"
    by (simp add: get_oauth_account)
  have "svc' = mark_usage_cooldown 5 4 svc1"
    using run calm svc1 by (simp add: refresh_usage_def get_oauth_account usage_is_fresh_def fetch_usage_def usage_status_error_def)
  then obtain a' where a': "get_by_id example_serde None 4 (svc_store svc') = Inr a'" "acc_auth_type a' = Oauth" "acc_usage_fetched_at a' = None"
    using oauth_account_after svc1 by (auto simp: mark_usage_cooldown_def)
  have "r = Done (Inl (TooManyRequests (''usage endpoint rate limited (429), try again later: '' @ ''slow down''))) \<and>
    refresh_usage example_serde exact_lib memory_cache issuing_env 0 100 None None fetch 4 svc' =
      (Done (Inl (TooManyRequests ''usage query in 60s local cooldown after recent 429'')), svc')" for fetch
    by (rule endpoint_429_cools_down [OF acc _ _ calm svc1 _ run _ a'(1,2)])
      (simp_all add: usage_is_fresh_def a'(3) USAGE_429_COOLDOWN_def)
  then show ?thesis
    using run by auto
qed

end
