(* ===== verification/OAuth_Facts.thy ===== *)
theory OAuth_Facts
  imports OAuth_Flow
begin

text \<open>
  What the sign-in promises (\<open>src/service/oauth_flow.rs\<close>): a session is used once and only in its
  lifetime, and the exchange proves the possession of the key the URL was made for.
\<close>

section \<open>Sessions\<close>

lemma str_contains_append: "str_contains a (x @ a @ y)"
proof (induction x)
  case Nil
  have p: "prefix a (a @ y)"
    by simp
  show ?case
  proof (cases "a @ y")
    case (Cons c s)
    then show ?thesis
      using p unfolding append_Nil Cons by simp
  qed simp
qed simp

lemma auth_url_shape:
  "au_auth_url (fst (build_auth_url F inst d scope p st)) =
    (AUTHORIZE_URL @ ''?code=true&client_id='' @ CLIENT_ID @ ''&response_type=code&redirect_uri='' @
      percent_encode REDIRECT_URI @ ''&scope='' @ replace_char (CHR '' '') (CHR ''+'') scope) @
    (''&code_challenge='' @ generate_code_challenge F (generate_code_verifier F (fd_verifier d)) @ ''&code_challenge_method=S256'') @
    (''&state='' @ generate_state F (fd_state d))"
  by (simp add: build_auth_url_def Let_def)

text \<open>Identifiers a call draws, and identifiers it exchanges.\<close>

fun draws_id :: "string \<Rightarrow> flow_call \<Rightarrow> bool" where
  "draws_id i (Generate_Url inst d p) \<longleftrightarrow> generate_session_id (fd_session_id d) = i"
| "draws_id i (Generate_Setup_Url inst d p) \<longleftrightarrow> generate_session_id (fd_session_id d) = i"
| "draws_id i _ \<longleftrightarrow> False"

fun exchanges_id :: "string \<Rightarrow> flow_call \<Rightarrow> bool" where
  "exchanges_id i (Exchange now inst j c) \<longleftrightarrow> j = i"
| "exchanges_id i (Exchange_Setup now inst j c) \<longleftrightarrow> j = i"
| "exchanges_id i _ \<longleftrightarrow> False"

fun flow_time :: "flow_call \<Rightarrow> int" where
  "flow_time (Generate_Url inst d p) = inst"
| "flow_time (Generate_Setup_Url inst d p) = inst"
| "flow_time (Exchange now inst j c) = inst"
| "flow_time (Exchange_Setup now inst j c) = inst"

lemma snd_exchange: "snd (do_exchange post now inst i c b st) = AList.delete i st"
  by (simp add: do_exchange_def session_take_def split: option.splits)

lemma snd_build:
  "snd (build_auth_url F inst d scope p st) =
    session_set inst (generate_session_id (fd_session_id d))
      \<lparr>os_state = generate_state F (fd_state d), os_code_verifier = generate_code_verifier F (fd_verifier d),
       os_scope = scope, os_proxy_url = p, os_created_at = inst\<rparr> st"
  by (simp add: build_auth_url_def Let_def)

lemmas flow_steps = generate_auth_url_def generate_setup_token_url_def exchange_code_def exchange_setup_token_code_def
  snd_exchange snd_build session_set_def

lemma map_of_filter_values: "map_of (filter (\<lambda>(_, v). p v) m) k = Some v \<Longrightarrow> distinct (map fst m) \<Longrightarrow> map_of m k = Some v \<and> p v"
  by (induction m) (auto split: if_splits dest: map_of_SomeD simp: rev_image_eqI)

lemma map_of_filter_none: "map_of m k = None \<Longrightarrow> map_of (filter q m) k = None"
  by (auto simp: map_of_eq_None_iff)

lemma map_of_filter_some: "map_of m k = Some v \<Longrightarrow> p v \<Longrightarrow> map_of (filter (\<lambda>(_, v). p v) m) k = Some v"
  by (induction m) (auto split: if_splits)

lemma gone_stays_exec:
  "map_of st i = None \<Longrightarrow> \<not> draws_id i call \<Longrightarrow> map_of (flow_exec F post call st) i = None"
  by (cases call) (auto simp: flow_steps map_lookup map_of_filter_none)

lemma gone_stays: "map_of st i = None \<Longrightarrow> \<forall>call \<in> set calls. \<not> draws_id i call \<Longrightarrow> map_of (flow_run F post calls st) i = None"
  unfolding flow_run_def by (induction calls arbitrary: st) (simp_all add: gone_stays_exec)

lemma session_stays_exec:
  assumes "map_of st i = Some s" "\<not> draws_id i call" "\<not> exchanges_id i call" "session_alive (flow_time call) s"
  shows "map_of (flow_exec F post call st) i = Some s"
  using assms by (cases call) (auto simp: flow_steps map_lookup map_of_filter_some)

lemma session_stays:
  assumes "map_of st i = Some s"
    and "\<forall>call \<in> set calls. \<not> draws_id i call \<and> \<not> exchanges_id i call \<and> session_alive (flow_time call) s"
  shows "map_of (flow_run F post calls st) i = Some s"
  using assms unfolding flow_run_def by (induction calls arbitrary: st) (simp_all add: session_stays_exec)

lemma session_set_wf: "hm_wf st \<Longrightarrow> hm_wf (session_set inst i s st)"
  by (simp add: session_set_def hm_wf_def distinct_update distinct_map_filter)

lemma flow_exec_wf: "hm_wf st \<Longrightarrow> hm_wf (flow_exec F post call st)"
  by (cases call) (auto simp: flow_steps hm_wf_def distinct_update distinct_map_filter intro: distinct_map_filter hm_wf_delete [unfolded hm_wf_def])

lemma flow_run_wf: "hm_wf st \<Longrightarrow> hm_wf (flow_run F post calls st)"
  unfolding flow_run_def by (induction calls arbitrary: st) (simp_all add: flow_exec_wf)

lemma session_kept_or_gone:
  assumes "hm_wf st" "map_of st i \<in> {None, Some s}"
    and "\<forall>call \<in> set calls. \<not> draws_id i call \<and> \<not> exchanges_id i call"
  shows "map_of (flow_run F post calls st) i \<in> {None, Some s}"
proof -
  have step: "map_of (flow_exec F post call st) i \<in> {None, Some s}"
    if "hm_wf st" "map_of st i \<in> {None, Some s}" "\<not> draws_id i call" "\<not> exchanges_id i call" for call st
  proof (cases "map_of (flow_exec F post call st) i")
    case (Some s')
    then have "map_of st i = Some s'"
      using that by (cases call) (auto simp: flow_steps map_lookup hm_wf_def dest!: map_of_filter_values)
    then show ?thesis
      using Some that(2) by simp
  qed simp
  show ?thesis
    using assms unfolding flow_run_def
  proof (induction calls arbitrary: st)
    case (Cons call calls)
    then show ?case
      using Cons(1) [OF flow_exec_wf [OF Cons(2)] step [OF Cons(2,3)]] by simp
  qed simp
qed

text \<open>
  C39. A session is used once. After an exchange, whatever came of it, and until the same identifier is
  drawn again, every exchange for it is refused without asking the token endpoint.
\<close>

theorem session_used_once:
  assumes "\<forall>call \<in> set calls. \<not> draws_id i call"
  shows "fst (do_exchange post' now' inst' i code' is_setup'
      (flow_run F post calls (snd (do_exchange post now inst i code is_setup st)))) =
    Inl (BadRequest ''invalid or expired session_id'')"
proof -
  have "map_of (snd (do_exchange post now inst i code is_setup st)) i = None"
    by (simp add: snd_exchange map_lookup)
  then show ?thesis
    using gone_stays [OF _ assms] by (simp add: do_exchange_def session_take_def)
qed

text \<open>
  C40. The exchange proves the key. For an identifier that was handed out with a URL and not used, within the
  thirty minutes of its session the exchange sends the token endpoint the verifier of the challenge
  in the URL, with the state behind the number sign or else the one of the URL, and answers with
  what becomes of the reply; afterwards it is refused.
\<close>

theorem exchange_proves_key:
  assumes "build_auth_url F t0 d scope proxy (flow_run F post0 earlier session_store_new) = (r, st')"
    and "\<forall>call \<in> set calls. \<not> draws_id (au_session_id r) call \<and> \<not> exchanges_id (au_session_id r) call \<and> flow_time call \<le> t"
  shows "let v = generate_code_verifier F (fd_verifier d);
      body = exchange_body \<lparr>os_state = generate_state F (fd_state d), os_code_verifier = v, os_scope = scope,
        os_proxy_url = proxy, os_created_at = t0\<rparr> code is_setup;
      ans = fst (do_exchange post now t (au_session_id r) code is_setup (flow_run F post' calls st'))
    in jget body ''code_verifier'' = Some (JStr v) \<and> jget body ''code'' = Some (JStr (fst (split_code code))) \<and>
      str_contains (''&code_challenge='' @ generate_code_challenge F v @ ''&code_challenge_method=S256'') (au_auth_url r) \<and>
      (if t - t0 < SESSION_TTL then ans = exchange_result now (post TOKEN_URL body proxy)
       else \<exists>m. ans = Inl (BadRequest m))"
proof -
  let ?s = "\<lparr>os_state = generate_state F (fd_state d), os_code_verifier = generate_code_verifier F (fd_verifier d),
    os_scope = scope, os_proxy_url = proxy, os_created_at = t0\<rparr>"
  let ?v = "generate_code_verifier F (fd_verifier d)"
  have r: "au_session_id r = generate_session_id (fd_session_id d)" "map_of st' (au_session_id r) = Some ?s"
    using assms(1) by (auto simp: build_auth_url_def Let_def session_set_def map_lookup)
  have url: "str_contains (''&code_challenge='' @ generate_code_challenge F ?v @ ''&code_challenge_method=S256'') (au_auth_url r)"
    unfolding auth_url_shape [of F t0 d scope proxy "flow_run F post0 earlier session_store_new", unfolded assms(1) fst_conv]
    by (rule str_contains_append)
  have body: "jget (exchange_body ?s code is_setup) ''code_verifier'' = Some (JStr ?v)"
    "jget (exchange_body ?s code is_setup) ''code'' = Some (JStr (fst (split_code code)))"
    by (simp_all add: exchange_body_def Let_def jget_jinsert split: prod.split)
  have ans: "if t - t0 < SESSION_TTL
      then fst (do_exchange post now t (au_session_id r) code is_setup (flow_run F post' calls st')) =
        exchange_result now (post TOKEN_URL (exchange_body ?s code is_setup) proxy)
      else \<exists>m. fst (do_exchange post now t (au_session_id r) code is_setup (flow_run F post' calls st')) = Inl (BadRequest m)"
  proof (cases "t - t0 < SESSION_TTL")
    case True
    then have "\<forall>call \<in> set calls. \<not> draws_id (au_session_id r) call \<and> \<not> exchanges_id (au_session_id r) call \<and>
        session_alive (flow_time call) ?s"
      using assms(2) by (fastforce simp: session_alive_def)
    from session_stays [OF r(2) this, of F post'] show ?thesis
      using True by (simp add: do_exchange_def session_take_def session_alive_def)
  next
    case False
    have "hm_wf (flow_run F post0 earlier session_store_new)"
      by (intro flow_run_wf) (simp add: session_store_new_def)
    then have "hm_wf st'"
      using session_set_wf arg_cong [OF assms(1), of snd] by (metis snd_build snd_conv)
    then have "map_of (flow_run F post' calls st') (au_session_id r) \<in> {None, Some ?s}"
      using session_kept_or_gone [of st' "au_session_id r" ?s calls F post'] r(2) assms(2) by auto
    then show ?thesis
      using False by (auto simp: do_exchange_def session_take_def session_alive_def)
  qed
  show ?thesis
    using url body ans by (simp add: Let_def)
qed

section \<open>Percent encoding\<close>

definition upper_hex_value :: "char \<Rightarrow> nat" where
  "upper_hex_value c = (let n = of_char c in if n \<ge> 65 then n - 55 else n - 48)"

text \<open>The reading of a percent-encoded text.\<close>

fun percent_decode :: "string \<Rightarrow> string" where
  "percent_decode [] = []"
| "percent_decode (c # s) =
     (if c = CHR ''%''
      then (case s of h # l # r \<Rightarrow> char_of (16 * upper_hex_value h + upper_hex_value l) # percent_decode r | _ \<Rightarrow> c # percent_decode s)
      else c # percent_decode s)"

lemma upper_hex_value: "n < 16 \<Longrightarrow> upper_hex_value (to_upper_hex n) = n"
proof -
  have "list_all (\<lambda>n. upper_hex_value (to_upper_hex n) = n) [0..<16]"
    by code_simp
  then show "n < 16 \<Longrightarrow> upper_hex_value (to_upper_hex n) = n"
    by (simp add: list_all_iff)
qed

lemma high_digit: "(of_char c :: nat) div 16 < 16"
  by (rule less_mult_imp_div_less) simp

lemma decode_char: "percent_decode (percent_char c @ s) = c # percent_decode s"
proof (cases "is_ascii_alphanumeric c \<or> c \<in> set ''-_.~''")
  case True
  then have "c \<noteq> CHR ''%''"
    by (auto simp: is_ascii_alphanumeric_def is_ascii_upper_def is_ascii_lower_def is_ascii_digit_def)
  then show ?thesis
    using True by (simp add: percent_char_def)
next
  case False
  have "(of_char c :: nat) div 16 < 16"
    by (rule high_digit)
  then show ?thesis
    using False by (simp add: percent_char_def upper_hex_value Let_def)
qed

text \<open>
  Percent encoding is faithful. The encoded text has only unreserved characters and percent signs with two
  hexadecimal digits, and decoding it gives the text back.
\<close>

theorem percent_encode_roundtrip:
  "percent_decode (percent_encode s) = s \<and>
   list_all (\<lambda>c. is_ascii_alphanumeric c \<or> c \<in> set ''-_.~%'') (percent_encode s)"
proof
  show "percent_decode (percent_encode s) = s"
    by (induction s) (simp_all add: percent_encode_def decode_char)
  have hex: "n < 16 \<Longrightarrow> is_ascii_alphanumeric (to_upper_hex n)" for n
  proof -
    have "list_all (\<lambda>n. is_ascii_alphanumeric (to_upper_hex n)) [0..<16]"
      by code_simp
    then show "n < 16 \<Longrightarrow> is_ascii_alphanumeric (to_upper_hex n)"
      by (simp add: list_all_iff)
  qed
  show "list_all (\<lambda>c. is_ascii_alphanumeric c \<or> c \<in> set ''-_.~%'') (percent_encode s)"
    by (induction s) (auto simp: percent_encode_def percent_char_def hex high_digit Let_def)
qed


section \<open>Examples\<close>

definition example_flow :: flow_lib where
  "example_flow = \<lparr>fl_base64url = map char_of, fl_sha256 = (\<lambda>s. rev (map of_char s))\<rparr>"

definition first_draw :: flow_draw where
  "first_draw = \<lparr>fd_state = [65], fd_verifier = [66, 67], fd_session_id = [1]\<rparr>"

definition second_draw :: flow_draw where
  "second_draw = \<lparr>fd_state = [68], fd_verifier = [69], fd_session_id = [2]\<rparr>"

definition echo_endpoint :: token_endpoint where
  "echo_endpoint url body proxy =
     Answered 200 ''200 OK'' [] (Inr \<lparr>te_access_token = ''a'', te_refresh_token = ''r'', te_expires_in = 0, te_scope = [],
       te_account = None, te_organization = None\<rparr>)"

theorem session_used_once_witness:
  "fst (do_exchange echo_endpoint 0 5 ''01'' ''c'' False
      (flow_run example_flow echo_endpoint [Generate_Url 4 second_draw None]
        (snd (do_exchange echo_endpoint 0 3 ''01'' ''c'' False (snd (generate_auth_url example_flow 2 first_draw None []))))))
    = Inl (BadRequest ''invalid or expired session_id'')"
  by (rule session_used_once) (simp add: second_draw_def generate_session_id_def hex_encode_def hex_digit_def)

theorem exchange_proves_key_witness:
  "fst (do_exchange echo_endpoint 0 9 (au_session_id (fst (build_auth_url example_flow 2 first_draw SCOPE_FULL [] session_store_new)))
      ''c#s'' False (flow_run example_flow echo_endpoint [Generate_Url 4 second_draw None]
        (snd (build_auth_url example_flow 2 first_draw SCOPE_FULL [] session_store_new)))) =
    Inr (exchanged 0 \<lparr>te_access_token = ''a'', te_refresh_token = ''r'', te_expires_in = 0, te_scope = [],
       te_account = None, te_organization = None\<rparr>)"
proof -
  obtain r st' where b: "build_auth_url example_flow 2 first_draw SCOPE_FULL [] session_store_new = (r, st')"
    by (cases "build_auth_url example_flow 2 first_draw SCOPE_FULL [] session_store_new")
  have i: "au_session_id r = ''01''"
    using arg_cong [OF b, of "\<lambda>x. au_session_id (fst x)"]
    by (simp add: build_auth_url_def Let_def first_draw_def generate_session_id_def hex_encode_def hex_digit_def)
  have b': "build_auth_url example_flow 2 first_draw SCOPE_FULL [] (flow_run example_flow echo_endpoint [] session_store_new) = (r, st')"
    using b by (simp add: flow_run_def)
  have "\<forall>call \<in> set [Generate_Url 4 second_draw None]. \<not> draws_id (au_session_id r) call \<and> \<not> exchanges_id (au_session_id r) call \<and> flow_time call \<le> 9"
    by (simp add: i second_draw_def generate_session_id_def hex_encode_def hex_digit_def)
  from exchange_proves_key [where post = echo_endpoint and now = "0" and code = "''c#s''" and is_setup = False and post' = echo_endpoint, OF b' this] show ?thesis
    by (simp add: b Let_def SESSION_TTL_def echo_endpoint_def exchange_result_def)
qed

end
