(* ===== verification/Performance_Store.thy ===== *)
theory Performance_Store
  imports Performance Usage_Store
begin

text \<open>
  The table of completed requests (\<open>src/store/performance_store.rs\<close>) with its report, and the
  administrator's queries over it (\<open>src/handler/performance.rs\<close>).

  A table is the list of its rows in the order of their insertion. \<open>fault\<close> is the error a statement
  meets, with the table unchanged. How an event is written as JSON and read back is generated by the
  serialisation library: it is the parameter \<open>event_codec\<close>. \<open>pg\<close> says whether the driver is
  PostgreSQL, which puts rows without a duration first in a descending order where SQLite puts
  them last; text columns are compared bytewise.
\<close>

section \<open>The table\<close>

record event_codec =
  ec_to_string :: "performance_event \<Rightarrow> string"
  ec_from_str :: "string \<Rightarrow> performance_event + string"

record perf_row =
  pr_request_id :: string
  pr_instance_id :: string
  pr_started_at_ms :: int
  pr_sg_day :: int
  pr_account_id :: "int option"
  pr_api_token_id :: "int option"
  pr_model :: "string option"
  pr_is_stream :: int
  pr_outcome :: string
  pr_duration_ms :: "int option"
  pr_first_byte_ms :: "int option"
  pr_first_content_ms :: "int option"
  pr_first_text_ms :: "int option"
  pr_output_speed :: "f64 option"
  pr_event_json :: string

type_synonym perf_table = "perf_row list"

text \<open>A missing value is bound as \<open>missing\<close> and restored by \<open>NULLIF\<close>.\<close>

definition bound_column :: "'a \<Rightarrow> 'a option \<Rightarrow> 'a option" where
  "bound_column missing v = (let x = (case v of Some x \<Rightarrow> x | None \<Rightarrow> missing) in if x = missing then None else Some x)"

definition event_row :: "event_codec \<Rightarrow> performance_event \<Rightarrow> perf_row" where
  "event_row C e =
     \<lparr>pr_request_id = pv_request_id e, pr_instance_id = pv_instance_id e,
      pr_started_at_ms = timestamp_millis (pv_started_at_utc e),
      pr_sg_day = sg_day (timestamp_millis (pv_started_at_utc e)),
      pr_account_id = bound_column (- 1) (pv_account_id e), pr_api_token_id = bound_column (- 1) (pv_api_token_id e),
      pr_model = bound_column [] (pv_request_model e), pr_is_stream = (if pv_is_stream e then 1 else 0),
      pr_outcome = outcome_as_str (case pv_outcome e of Some oc \<Rightarrow> oc | None \<Rightarrow> PO_Unknown),
      pr_duration_ms = bound_column (- 1) (pv_duration_ms e), pr_first_byte_ms = bound_column (- 1) (pv_first_byte_ms e),
      pr_first_content_ms = bound_column (- 1) (pv_first_content_ms e),
      pr_first_text_ms = bound_column (- 1) (pv_first_text_ms e),
      pr_output_speed = bound_column (F64_Fin (- 1)) (pv_output_tokens_per_second e),
      pr_event_json = ec_to_string C e\<rparr>"

fun perf_insert_events :: "event_codec \<Rightarrow> performance_event list \<Rightarrow> perf_table \<Rightarrow> nat \<times> perf_table" where
  "perf_insert_events C [] t = (0, t)"
| "perf_insert_events C (e # es) t =
     (if pv_request_id e \<in> set (map pr_request_id t) then perf_insert_events C es t
      else let (n, t) = perf_insert_events C es (t @ [event_row C e]) in (n + 1, t))"

definition perf_insert_batch ::
  "event_codec \<Rightarrow> sqlx_error option \<Rightarrow> performance_event list \<Rightarrow> perf_table \<Rightarrow> (app_error + nat) \<times> perf_table" where
  "perf_insert_batch C fault es t =
     (case fault of
        Some x \<Rightarrow> (Inl (app_error_from_sqlx x), t)
      | None \<Rightarrow> (let (n, t) = perf_insert_events C es t in (Inr n, t)))"

definition where_filter :: "performance_filter \<Rightarrow> perf_row \<Rightarrow> bool" where
  "where_filter f r \<longleftrightarrow>
     pr_sg_day r \<ge> sg_day (fl_start_ms f) \<and> pr_sg_day r \<le> sg_day (fl_end_ms f - 1)
     \<and> pr_started_at_ms r \<ge> fl_start_ms f \<and> pr_started_at_ms r < fl_end_ms f
     \<and> is_none_or (fl_account_id f) (\<lambda>i. pr_account_id r = Some i)
     \<and> is_none_or (fl_api_token_id f) (\<lambda>i. pr_api_token_id r = Some i)
     \<and> is_none_or (fl_model f) (\<lambda>m. pr_model r = Some m)
     \<and> is_none_or (fl_instance_id f) (\<lambda>i. pr_instance_id r = i)
     \<and> is_none_or (fl_outcome f) (\<lambda>oc. pr_outcome r = outcome_as_str oc)
     \<and> is_none_or (fl_is_stream f) (\<lambda>b. pr_is_stream r = (if b then 1 else 0))
     \<and> is_none_or (fl_min_duration_ms f) (\<lambda>v. case pr_duration_ms r of Some d \<Rightarrow> d \<ge> v | None \<Rightarrow> False)"

section \<open>Lists\<close>

definition decode_event :: "event_codec \<Rightarrow> string \<Rightarrow> app_error + performance_event" where
  "decode_event C json =
     (case ec_from_str C json of
        Inl e \<Rightarrow> Inr e
      | Inr msg \<Rightarrow> Inl (Internal (''read performance event: '' @ msg)))"

fun decode_events :: "event_codec \<Rightarrow> string list \<Rightarrow> app_error + performance_event list" where
  "decode_events C [] = Inr []"
| "decode_events C (v # vs) =
     (case decode_event C v of
        Inl e \<Rightarrow> Inl e
      | Inr x \<Rightarrow> (case decode_events C vs of Inl e \<Rightarrow> Inl e | Inr xs \<Rightarrow> Inr (x # xs)))"

definition duration_rank :: "bool \<Rightarrow> perf_row \<Rightarrow> int \<times> int" where
  "duration_rank pg r = (case pr_duration_ms r of Some d \<Rightarrow> (1, - d) | None \<Rightarrow> (if pg then 0 else 2, 0))"

definition perf_ordered :: "bool \<Rightarrow> bool \<Rightarrow> perf_table \<Rightarrow> perf_table" where
  "perf_ordered pg duration_desc rows =
     (if duration_desc
      then sort_key (\<lambda>r. (duration_rank pg r, - pr_started_at_ms r, pr_request_id r)) rows
      else sort_key (\<lambda>r. (- pr_started_at_ms r, pr_request_id r)) rows)"

definition perf_list ::
  "event_codec \<Rightarrow> bool \<Rightarrow> sqlx_error option \<Rightarrow> sqlx_error option \<Rightarrow> performance_filter \<Rightarrow> perf_table
     \<Rightarrow> app_error + performance_event performance_page" where
  "perf_list C pg count_fault list_fault f t =
     (case count_fault of
        Some x \<Rightarrow> Inl (app_error_from_sqlx x)
      | None \<Rightarrow>
          (let n = int (length (filter (where_filter f) t))
           in case list_fault of
                Some x \<Rightarrow> Inl (app_error_from_sqlx x)
              | None \<Rightarrow>
                  (let rows = take (nat (fl_page_size f)) (drop (nat ((fl_page f - 1) * fl_page_size f))
                        (perf_ordered pg (fl_duration_desc f) (filter (where_filter f) t)))
                   in case decode_events C (map pr_event_json rows) of
                        Inl e \<Rightarrow> Inl e
                      | Inr items \<Rightarrow> Inr \<lparr>pp_items = items, pp_total = n, pp_page = fl_page f, pp_page_size = fl_page_size f\<rparr>)))"

definition perf_get ::
  "event_codec \<Rightarrow> sqlx_error option \<Rightarrow> string \<Rightarrow> int \<Rightarrow> perf_table \<Rightarrow> app_error + performance_event" where
  "perf_get C fault i min_day t =
     (case fault of
        Some x \<Rightarrow> Inl (app_error_from_sqlx x)
      | None \<Rightarrow>
          (case find (\<lambda>r. pr_request_id r = i \<and> pr_sg_day r \<ge> min_day) t of
             None \<Rightarrow> Inl (app_error_from_sqlx RowNotFound)
           | Some r \<Rightarrow> decode_event C (pr_event_json r)))"

record performance_dimensions =
  pd_accounts :: "usage_dimension_option list"
  pd_api_tokens :: "usage_dimension_option list"
  pd_models :: "string list"
  pd_instances :: "string list"

text \<open>The label of an account without a name, the same text as in the usage report.\<close>

definition perf_dimensions ::
  "sqlx_error option \<Rightarrow> int \<Rightarrow> (int \<times> string) list \<Rightarrow> (int \<times> string) list \<Rightarrow> perf_table
     \<Rightarrow> app_error + performance_dimensions" where
  "perf_dimensions fault min_day account_names token_names t =
     (case fault of
        Some x \<Rightarrow> Inl (app_error_from_sqlx x)
      | None \<Rightarrow>
          (let rows = filter (\<lambda>r. pr_sg_day r \<ge> min_day) t
           in Inr \<lparr>pd_accounts = dimension_options account_label (List.map_filter pr_account_id rows) account_names,
                   pd_api_tokens = dimension_options ''Token #'' (List.map_filter pr_api_token_id rows) token_names,
                   pd_models = sort (remdups (List.map_filter pr_model rows)),
                   pd_instances = sort (remdups (map pr_instance_id rows))\<rparr>))"

section \<open>Retention\<close>

definition CLEANUP_BATCH :: nat where "CLEANUP_BATCH = 1000"

definition perf_delete_before :: "sqlx_error option \<Rightarrow> int \<Rightarrow> perf_table \<Rightarrow> (app_error + nat) \<times> perf_table" where
  "perf_delete_before fault min_day t =
     (case fault of
        Some x \<Rightarrow> (Inl (app_error_from_sqlx x), t)
      | None \<Rightarrow>
          (let victims = set (map pr_request_id
                 (take CLEANUP_BATCH (sort_key pr_sg_day (filter (\<lambda>r. pr_sg_day r < min_day) t))));
               t' = filter (\<lambda>r. pr_request_id r \<notin> victims) t
           in (Inr (length t - length t'), t')))"

text \<open>The cleanup goes on while a statement deleted a full batch; \<open>faults\<close> has the errors of the statements.\<close>

lemma perf_delete_shrinks:
  "perf_delete_before fault d t = (Inr n, t') \<Longrightarrow> length t' + n = length t"
  by (auto simp: perf_delete_before_def Let_def split: option.splits)

function perf_cleanup :: "int \<Rightarrow> sqlx_error option list \<Rightarrow> perf_table \<Rightarrow> perf_table" where
  "perf_cleanup min_day faults t =
     (case perf_delete_before (case faults of f # _ \<Rightarrow> f | [] \<Rightarrow> None) min_day t of
        (Inl e, t) \<Rightarrow> t
      | (Inr n, t) \<Rightarrow> if n = CLEANUP_BATCH then perf_cleanup min_day (tl faults) t else t)"
  by pat_completeness auto
termination
  by (relation "measure (\<lambda>(d, faults, t). length t)") (auto simp: CLEANUP_BATCH_def dest: perf_delete_shrinks [OF sym])

declare perf_cleanup.simps [simp del]

section \<open>The report\<close>

record performance_counts =
  pk_completed :: int
  pk_success :: int
  pk_error :: int
  pk_aborted :: int
  pk_unknown :: int

definition no_counts :: performance_counts where
  "no_counts = \<lparr>pk_completed = 0, pk_success = 0, pk_error = 0, pk_aborted = 0, pk_unknown = 0\<rparr>"

record performance_percentiles =
  pq_sample_count :: int
  pq_p50 :: "f64 option"
  pq_p95 :: "f64 option"
  pq_p99 :: "f64 option"
  pq_max :: "f64 option"

definition no_percentiles :: performance_percentiles where
  "no_percentiles = \<lparr>pq_sample_count = 0, pq_p50 = None, pq_p95 = None, pq_p99 = None, pq_max = None\<rparr>"

record performance_bucket =
  pb_start_ms :: int
  pb_counts :: performance_counts
  pb_duration :: performance_percentiles
  pb_first_content :: performance_percentiles

record performance_histogram =
  ph_label :: string
  ph_duration_count :: int
  ph_first_content_count :: int

record performance_report =
  po_start_ms :: int
  po_end_ms :: int
  po_bucket_ms :: int
  po_counts :: performance_counts
  po_duration :: performance_percentiles
  po_first_byte :: performance_percentiles
  po_first_content :: performance_percentiles
  po_first_text :: performance_percentiles
  po_output_speed :: performance_percentiles
  po_buckets :: "performance_bucket list"
  po_histogram :: "performance_histogram list"

definition count_where :: "(perf_row \<Rightarrow> bool) \<Rightarrow> perf_table \<Rightarrow> int" where
  "count_where p rows = int (length (filter p rows))"

definition counts_of :: "perf_table \<Rightarrow> performance_counts" where
  "counts_of rows =
     \<lparr>pk_completed = int (length rows),
      pk_success = count_where (\<lambda>r. pr_outcome r = ''success'') rows,
      pk_error = count_where (\<lambda>r. pr_outcome r \<notin> {''success'', ''aborted'', ''unknown''}) rows,
      pk_aborted = count_where (\<lambda>r. pr_outcome r = ''aborted'') rows,
      pk_unknown = count_where (\<lambda>r. pr_outcome r = ''unknown'') rows\<rparr>"

definition add_counts :: "performance_counts \<Rightarrow> performance_counts \<Rightarrow> performance_counts" where
  "add_counts a b =
     \<lparr>pk_completed = pk_completed a + pk_completed b, pk_success = pk_success a + pk_success b,
      pk_error = pk_error a + pk_error b, pk_aborted = pk_aborted a + pk_aborted b,
      pk_unknown = pk_unknown a + pk_unknown b\<rparr>"

definition bucket_size :: "int \<Rightarrow> int" where
  "bucket_size range_ms =
     (case find (\<lambda>n. rust_div (range_ms + n - 1) n \<le> 288) [60000, 300000, 3600000, 86400000] of
        Some n \<Rightarrow> n | None \<Rightarrow> 86400000)"

definition bucket_expr :: "int \<Rightarrow> int \<Rightarrow> perf_row \<Rightarrow> int" where
  "bucket_expr start_ms bucket_ms r = rust_div (pr_started_at_ms r - start_ms) bucket_ms"

text \<open>\<open>GROUP BY bucket ORDER BY bucket\<close>.\<close>

definition grouped :: "('a \<Rightarrow> int) \<Rightarrow> 'a list \<Rightarrow> (int \<times> 'a list) list" where
  "grouped key xs = map (\<lambda>k. (k, filter (\<lambda>x. key x = k) xs)) (sort (remdups (map key xs)))"

text \<open>\<open>get_mut(i as usize)\<close>: a negative index is read as one beyond the list.\<close>

definition update_at :: "int \<Rightarrow> ('a \<Rightarrow> 'a) \<Rightarrow> 'a list \<Rightarrow> 'a list" where
  "update_at i f xs = (if 0 \<le> i \<and> nat i < length xs then xs[nat i := f (xs ! nat i)] else xs)"

definition fill_buckets ::
  "('a \<Rightarrow> performance_bucket \<Rightarrow> performance_bucket) \<Rightarrow> (int \<times> 'a) list \<Rightarrow> performance_bucket list \<Rightarrow> performance_bucket list" where
  "fill_buckets f rows bs = fold (\<lambda>(i, c) bs. update_at i (f c) bs) rows bs"

definition empty_buckets :: "int \<Rightarrow> int \<Rightarrow> int \<Rightarrow> performance_bucket list" where
  "empty_buckets start_ms range_ms bucket_ms =
     map (\<lambda>i. \<lparr>pb_start_ms = start_ms + i * bucket_ms, pb_counts = no_counts, pb_duration = no_percentiles,
               pb_first_content = no_percentiles\<rparr>)
       [0 .. rust_div (range_ms + bucket_ms - 1) bucket_ms - 1]"

text \<open>The order of doubles a database uses: a NaN, which no column holds, is the largest.\<close>

fun f64_key :: "f64 \<Rightarrow> int \<times> rat" where
  "f64_key (F64_Inf True) = (0, 0)"
| "f64_key (F64_Fin x) = (1, x)"
| "f64_key (F64_Inf False) = (2, 0)"
| "f64_key F64_NaN = (3, 0)"

definition rank_value :: "'a list \<Rightarrow> nat \<Rightarrow> 'a option" where
  "rank_value xs k = (if 1 \<le> k \<and> k \<le> length xs then Some (xs ! (k - 1)) else None)"

definition percentiles_of :: "f64 list \<Rightarrow> performance_percentiles" where
  "percentiles_of samples =
     (let xs = sort_key f64_key samples; n = length xs
      in \<lparr>pq_sample_count = int n, pq_p50 = rank_value xs ((n * 50 + 99) div 100),
          pq_p95 = rank_value xs ((n * 95 + 99) div 100), pq_p99 = rank_value xs ((n * 99 + 99) div 100),
          pq_max = rank_value xs n\<rparr>)"

definition success_samples :: "(perf_row \<Rightarrow> f64 option) \<Rightarrow> perf_table \<Rightarrow> f64 list" where
  "success_samples column rows = List.map_filter column (filter (\<lambda>r. pr_outcome r = ''success'') rows)"

definition has_sample :: "(perf_row \<Rightarrow> f64 option) \<Rightarrow> perf_row \<Rightarrow> bool" where
  "has_sample column r \<longleftrightarrow> pr_outcome r = ''success'' \<and> column r \<noteq> None"

definition percentiles ::
  "(perf_row \<Rightarrow> f64 option) \<Rightarrow> (perf_row \<Rightarrow> int) \<Rightarrow> perf_table \<Rightarrow> (int \<times> performance_percentiles) list" where
  "percentiles column bucket rows =
     map (\<lambda>(k, rs). (k, percentiles_of (success_samples column rs)))
       (grouped bucket (filter (has_sample column) rows))"

definition ms_column :: "(perf_row \<Rightarrow> int option) \<Rightarrow> perf_row \<Rightarrow> f64 option" where
  "ms_column column r = map_option f64_of_int (column r)"

definition pop_percentiles :: "(int \<times> performance_percentiles) list \<Rightarrow> performance_percentiles" where
  "pop_percentiles ps = (if ps = [] then no_percentiles else snd (List.last ps))"

definition seconds_label :: "string \<Rightarrow> string" where
  "seconds_label s = s @ [CHR 0xE7, CHR 0xA7, CHR 0x92]"

definition minutes_label :: "string \<Rightarrow> string" where
  "minutes_label s = s @ [CHR 0xE5, CHR 0x88, CHR 0x86, CHR 0xE9, CHR 0x92, CHR 0x9F]"

definition dash :: string where "dash = [CHR 0xE2, CHR 0x80, CHR 0x93]"

definition HISTOGRAM :: "(int \<times> int \<times> string) list" where
  "HISTOGRAM =
     [(0, 1000, seconds_label ''<1''), (1000, 5000, seconds_label (''1'' @ dash @ ''5'')),
      (5000, 15000, seconds_label (''5'' @ dash @ ''15'')), (15000, 60000, seconds_label (''15'' @ dash @ ''60'')),
      (60000, 300000, minutes_label (''1'' @ dash @ ''5'')), (300000, 900000, minutes_label (''5'' @ dash @ ''15'')),
      (900000, 1800000, minutes_label (''15'' @ dash @ ''30'')),
      (1800000, 2 ^ 63 - 1, minutes_label ([CHR 0xE2, CHR 0x89, CHR 0xA5] @ ''30''))]"

definition in_bar :: "int \<Rightarrow> int \<Rightarrow> int option \<Rightarrow> bool" where
  "in_bar lower upper v = (case v of Some x \<Rightarrow> lower \<le> x \<and> x < upper | None \<Rightarrow> False)"

definition histogram_of :: "perf_table \<Rightarrow> performance_histogram list" where
  "histogram_of rows =
     map (\<lambda>(lower, upper, label).
        \<lparr>ph_label = label,
         ph_duration_count = count_where (\<lambda>r. pr_outcome r = ''success'' \<and> in_bar lower upper (pr_duration_ms r)) rows,
         ph_first_content_count = count_where (\<lambda>r. pr_outcome r = ''success'' \<and> in_bar lower upper (pr_first_content_ms r)) rows\<rparr>)
       HISTOGRAM"

text \<open>The statements of the report run one after the other; \<open>faults i\<close> is the error of the \<open>i\<close>-th.\<close>

definition first_fault :: "(nat \<Rightarrow> sqlx_error option) \<Rightarrow> nat \<Rightarrow> sqlx_error option" where
  "first_fault faults n = Option.bind (find (\<lambda>i. faults i \<noteq> None) [0..<n]) faults"

definition perf_report ::
  "(nat \<Rightarrow> sqlx_error option) \<Rightarrow> performance_filter \<Rightarrow> perf_table \<Rightarrow> app_error + performance_report" where
  "perf_report faults f t =
     (case first_fault faults 9 of
        Some x \<Rightarrow> Inl (app_error_from_sqlx x)
      | None \<Rightarrow>
          (let range_ms = fl_end_ms f - fl_start_ms f;
               bucket_ms = bucket_size range_ms;
               bucket = bucket_expr (fl_start_ms f) bucket_ms;
               rows = filter (where_filter f) t;
               groups = map (\<lambda>(k, rs). (k, counts_of rs)) (grouped bucket rows);
               counts = fold (\<lambda>(k, c) acc. add_counts acc c) groups no_counts;
               whole = (\<lambda>column. pop_percentiles (percentiles column (\<lambda>_. 0) rows));
               bs = fill_buckets (\<lambda>c b. b\<lparr>pb_counts := c\<rparr>) groups (empty_buckets (fl_start_ms f) range_ms bucket_ms);
               bs = fill_buckets (\<lambda>p b. b\<lparr>pb_duration := p\<rparr>) (percentiles (ms_column pr_duration_ms) bucket rows) bs;
               bs = fill_buckets (\<lambda>p b. b\<lparr>pb_first_content := p\<rparr>) (percentiles (ms_column pr_first_content_ms) bucket rows) bs
           in Inr \<lparr>po_start_ms = fl_start_ms f, po_end_ms = fl_end_ms f, po_bucket_ms = bucket_ms, po_counts = counts,
                   po_duration = whole (ms_column pr_duration_ms), po_first_byte = whole (ms_column pr_first_byte_ms),
                   po_first_content = whole (ms_column pr_first_content_ms), po_first_text = whole (ms_column pr_first_text_ms),
                   po_output_speed = whole pr_output_speed, po_buckets = bs, po_histogram = histogram_of rows\<rparr>))"

section \<open>The administrator's queries\<close>

record performance_query =
  qy_start_at :: "int option"
  qy_end_at :: "int option"
  qy_account_id :: "int option"
  qy_api_token_id :: "int option"
  qy_model :: "string option"
  qy_instance_id :: "string option"
  qy_outcome :: "performance_outcome option"
  qy_is_stream :: "bool option"
  qy_min_duration_ms :: "int option"
  qy_sort :: "string option"
  qy_page :: "int option"
  qy_page_size :: "int option"

definition range_error :: app_error where
  "range_error = BadRequest ''performance range must be within the last 30 Singapore calendar days''"

definition nonempty :: "string option \<Rightarrow> string option" where
  "nonempty v = (case v of Some s \<Rightarrow> if s \<noteq> [] then Some s else None | None \<Rightarrow> None)"

definition is_some_and :: "'a option \<Rightarrow> ('a \<Rightarrow> bool) \<Rightarrow> bool" where
  "is_some_and v p = (case v of Some x \<Rightarrow> p x | None \<Rightarrow> False)"

definition or_value :: "'a option \<Rightarrow> 'a \<Rightarrow> 'a" where
  "or_value v d = (case v of Some x \<Rightarrow> x | None \<Rightarrow> d)"

text \<open>\<open>now\<close> is the clock of the range, \<open>day_now\<close> the reading \<open>retention_day\<close> makes.\<close>

definition performance_validate :: "int \<Rightarrow> int \<Rightarrow> performance_query \<Rightarrow> app_error + performance_filter" where
  "performance_validate now day_now q =
     (let now_ms = timestamp_millis now;
          end_ms = or_value (map_option timestamp_millis (qy_end_at q)) now_ms;
          min_ms = retention_day day_now * 86400000 - 28800000;
          start_ms = or_value (map_option timestamp_millis (qy_start_at q)) (end_ms - 3600000)
      in if start_ms < min_ms \<or> end_ms > now_ms + 1000 \<or> start_ms \<ge> end_ms then Inl range_error
         else if is_some_and (qy_account_id q) (\<lambda>v. v \<le> 0) \<or> is_some_and (qy_api_token_id q) (\<lambda>v. v \<le> 0)
              \<or> is_some_and (qy_min_duration_ms q) (\<lambda>v. v < 0)
              \<or> is_some_and (qy_page q) (\<lambda>v. \<not> (1 \<le> v \<and> v \<le> 1000000))
              \<or> is_some_and (qy_page_size q) (\<lambda>v. \<not> (1 \<le> v \<and> v \<le> 100))
              \<or> is_some_and (qy_model q) (\<lambda>s. length s > 128) \<or> is_some_and (qy_instance_id q) (\<lambda>s. length s > 128)
         then Inl (BadRequest ''invalid performance filter or pagination'')
         else if or_value (qy_sort q) ''duration_desc'' \<notin> {''duration_desc'', ''created_at_desc''}
         then Inl (BadRequest ''invalid performance sort'')
         else Inr \<lparr>fl_start_ms = start_ms, fl_end_ms = end_ms, fl_account_id = qy_account_id q,
                   fl_api_token_id = qy_api_token_id q, fl_model = nonempty (qy_model q),
                   fl_instance_id = nonempty (qy_instance_id q), fl_outcome = qy_outcome q, fl_is_stream = qy_is_stream q,
                   fl_min_duration_ms = qy_min_duration_ms q,
                   fl_duration_desc = (or_value (qy_sort q) ''duration_desc'' = ''duration_desc''),
                   fl_page = or_value (qy_page q) 1, fl_page_size = or_value (qy_page_size q) 20\<rparr>)"

text \<open>The health of the service (\<open>health\<close>), which the overview and the active requests are answered with.\<close>

record performance_health =
  hh_enabled :: bool
  hh_instance_id :: string
  hh_since_utc :: int
  hh_queue_depth :: nat
  hh_persisted_total :: nat
  hh_dropped_total :: nat
  hh_write_failed_total :: nat
  hh_active_tracking_dropped :: nat
  hh_parse_failed_total :: nat
  hh_retention_expired_total :: nat

definition service_health :: "performance_service \<Rightarrow> performance_health" where
  "service_health svc =
     \<lparr>hh_enabled = pf_enabled svc, hh_instance_id = pf_instance_id svc, hh_since_utc = pf_since svc,
      hh_queue_depth = length (pf_queue svc), hh_persisted_total = pc_persisted (pf_counters svc),
      hh_dropped_total = pc_dropped (pf_counters svc), hh_write_failed_total = pc_write_failed (pf_counters svc),
      hh_active_tracking_dropped = pc_active_dropped (pf_counters svc),
      hh_parse_failed_total = pc_parse_failed (pf_counters svc), hh_retention_expired_total = pc_expired (pf_counters svc)\<rparr>"

definition overview ::
  "(nat \<Rightarrow> sqlx_error option) \<Rightarrow> int \<Rightarrow> int \<Rightarrow> performance_query \<Rightarrow> performance_service \<Rightarrow> perf_table
     \<Rightarrow> app_error + performance_report \<times> performance_health" where
  "overview faults now day_now q svc t =
     (case performance_validate now day_now q of
        Inl e \<Rightarrow> Inl e
      | Inr f \<Rightarrow> map_sum id (\<lambda>report. (report, service_health svc)) (perf_report faults f t))"

definition requests ::
  "event_codec \<Rightarrow> bool \<Rightarrow> sqlx_error option \<Rightarrow> sqlx_error option \<Rightarrow> int \<Rightarrow> int \<Rightarrow> performance_query \<Rightarrow> perf_table
     \<Rightarrow> app_error + performance_event performance_page" where
  "requests C pg count_fault list_fault now day_now q t =
     (case performance_validate now day_now q of Inl e \<Rightarrow> Inl e | Inr f \<Rightarrow> perf_list C pg count_fault list_fault f t)"

record active_performance =
  ap_scope :: string
  ap_instance_id :: string
  ap_since_utc :: int
  ap_generated_at_utc :: int
  ap_health :: performance_health
  ap_page :: "performance_event performance_page"

text \<open>\<open>generated\<close> is the reading of the clock for the answer.\<close>

definition active_requests ::
  "int \<Rightarrow> int \<Rightarrow> int \<Rightarrow> int \<Rightarrow> performance_query \<Rightarrow> performance_service \<Rightarrow> app_error + active_performance" where
  "active_requests now day_now inst generated q svc =
     (case performance_validate now day_now q of
        Inl e \<Rightarrow> Inl e
      | Inr f \<Rightarrow>
          Inr \<lparr>ap_scope = ''instance'', ap_instance_id = pf_instance_id svc, ap_since_utc = pf_since svc,
               ap_generated_at_utc = generated, ap_health = service_health svc, ap_page = active_page inst f svc\<rparr>)"

text \<open>\<open>is_uuid\<close>: what the UUID library accepts.\<close>

definition request_detail ::
  "(string \<Rightarrow> bool) \<Rightarrow> event_codec \<Rightarrow> sqlx_error option \<Rightarrow> int \<Rightarrow> string \<Rightarrow> perf_table \<Rightarrow> app_error + performance_event" where
  "request_detail is_uuid C fault now i t =
     (if \<not> is_uuid i then Inl (BadRequest ''invalid request id'') else perf_get C fault i (retention_day now) t)"

definition request_dimensions ::
  "sqlx_error option \<Rightarrow> int \<Rightarrow> (int \<times> string) list \<Rightarrow> (int \<times> string) list \<Rightarrow> perf_table \<Rightarrow> app_error + performance_dimensions" where
  "request_dimensions fault now account_names token_names t =
     perf_dimensions fault (retention_day now) account_names token_names t"

end
