(* ===== verification/Performance_Store_Facts.thy ===== *)
theory Performance_Store_Facts
  imports Performance_Store
begin

text \<open>
  Properties of the table of completed requests: a report is a partition of the requests it selects,
  percentiles are nearest ranks, pages list every match once, an accepted query bounds the work of its
  report, and the cleanup removes what is older than the retention.
\<close>

section \<open>Groups\<close>

lemma grouped_map_of:
  "map_of (grouped key xs) k = (if k \<in> key ` set xs then Some (filter (\<lambda>x. key x = k) xs) else None)"
  unfolding grouped_def by (simp add: map_of_map_restrict restrict_map_def comp_def)

lemma grouped_distinct: "distinct (map fst (grouped key xs))"
  by (simp add: grouped_def comp_def)

lemma length_partition:
  assumes "distinct ks" "key ` set xs \<subseteq> set ks"
  shows "(\<Sum>k\<leftarrow>ks. int (length (filter p (filter (\<lambda>x. key x = k) xs)))) = int (length (filter p xs))"
  using assms(2)
proof (induction xs)
  case (Cons x xs)
  have "(\<Sum>k\<leftarrow>ks. int (length (filter p (filter (\<lambda>y. key y = k) (x # xs))))) =
      (\<Sum>k\<leftarrow>ks. (if k = key x then of_bool (p x) else 0) + int (length (filter p (filter (\<lambda>y. key y = k) xs))))"
    by (intro arg_cong [where f = sum_list] map_cong) auto
  also have "\<dots> = (\<Sum>k\<leftarrow>ks. if k = key x then of_bool (p x) else 0) + int (length (filter p xs))"
    using Cons by (simp add: sum_list_addf)
  also have "(\<Sum>k\<leftarrow>ks. if k = key x then of_bool (p x) else (0 :: int)) = of_bool (p x)"
    using assms(1) Cons.prems by (simp add: sum_list_distinct_conv_sum_set)
  finally show ?case
    by simp
qed (simp add: sum_list_0)

text \<open>A sum of counts is taken field by field.\<close>

definition sum_counts :: "performance_counts list \<Rightarrow> performance_counts" where
  "sum_counts cs =
     \<lparr>pk_completed = sum_list (map pk_completed cs), pk_success = sum_list (map pk_success cs),
      pk_error = sum_list (map pk_error cs), pk_aborted = sum_list (map pk_aborted cs),
      pk_unknown = sum_list (map pk_unknown cs)\<rparr>"

lemma counts_partition:
  assumes "distinct ks" "key ` set rows \<subseteq> set ks"
  shows "sum_counts (map (\<lambda>k. counts_of (filter (\<lambda>r. key r = k) rows)) ks) = counts_of rows"
proof -
  note part = length_partition [OF assms]
  show ?thesis
    using part [of "\<lambda>_. True"] part [of "\<lambda>r. pr_outcome r = ''success''"]
      part [of "\<lambda>r. pr_outcome r \<notin> {''success'', ''aborted'', ''unknown''}"]
      part [of "\<lambda>r. pr_outcome r = ''aborted''"] part [of "\<lambda>r. pr_outcome r = ''unknown''"]
    by (simp add: sum_counts_def counts_of_def count_where_def comp_def)
qed

lemma fold_add_counts:
  "fold (\<lambda>(k, c) acc. add_counts acc c) gs a = add_counts a (sum_counts (map snd gs))"
  by (induction gs arbitrary: a) (auto simp: add_counts_def sum_counts_def no_counts_def)

lemma add_no_counts [simp]: "add_counts no_counts c = c"
  by (simp add: add_counts_def no_counts_def)

section \<open>Buckets\<close>

lemma length_fill_buckets [simp]: "length (fill_buckets f rows bs) = length bs"
  unfolding fill_buckets_def
  by (induction rows arbitrary: bs) (auto simp: update_at_def)

lemma fill_buckets_nth:
  assumes "distinct (map fst rows)" "i < length bs"
  shows "fill_buckets f rows bs ! i = (case map_of rows (int i) of Some c \<Rightarrow> f c (bs ! i) | None \<Rightarrow> bs ! i)"
  using assms
proof (induction rows arbitrary: bs)
  case (Cons x rows)
  obtain k c where x: "x = (k, c)"
    by (cases x)
  have fresh: "map_of rows k = None"
    using Cons.prems x by (simp add: map_of_eq_None_iff)
  have "fill_buckets f (x # rows) bs = fill_buckets f rows (update_at k (f c) bs)"
    by (simp add: fill_buckets_def x)
  then show ?case
    using Cons fresh by (cases "k = int i") (auto simp: x update_at_def nth_list_update split: option.splits)
qed (simp add: fill_buckets_def)

lemma bucket_size_pos: "0 < bucket_size range_ms"
  by (simp add: bucket_size_def)

lemma bucket_size_few:
  assumes "0 < range_ms" "range_ms \<le> 288 * 86400000"
  shows "(range_ms + bucket_size range_ms - 1) div bucket_size range_ms \<le> 288"
proof -
  have "(range_ms + 86400000 - 1) div 86400000 \<le> 288"
    using assms(2) by linarith
  then show ?thesis
    using assms(1) by (auto simp: bucket_size_def)
qed

lemma div_eq_interval:
  fixes x b i :: int
  assumes "0 < b"
  shows "x div b = i \<longleftrightarrow> i * b \<le> x \<and> x < i * b + b"
proof
  assume i: "x div b = i"
  show "i * b \<le> x \<and> x < i * b + b"
    unfolding i [symmetric]
    using div_mult_mod_eq [of x b] pos_mod_sign [OF assms, of x] pos_mod_bound [OF assms, of x] by linarith
next
  assume "i * b \<le> x \<and> x < i * b + b"
  then show "x div b = i"
    using assms by (intro int_div_pos_eq [where r = "x - i * b"]) (simp_all add: mult.commute)
qed

lemma bucket_expr_range:
  assumes "where_filter f r" "0 < b"
  shows "0 \<le> bucket_expr (fl_start_ms f) b r"
    and "bucket_expr (fl_start_ms f) b r < (fl_end_ms f - fl_start_ms f + b - 1) div b"
    and "bucket_expr (fl_start_ms f) b r = i \<longleftrightarrow>
      fl_start_ms f + i * b \<le> pr_started_at_ms r \<and> pr_started_at_ms r < fl_start_ms f + i * b + b"
proof -
  let ?x = "pr_started_at_ms r - fl_start_ms f" and ?n = "fl_end_ms f - fl_start_ms f"
  have x: "0 \<le> ?x" "?x \<le> ?n - 1"
    using assms(1) by (simp_all add: where_filter_def)
  then have e: "bucket_expr (fl_start_ms f) b r = ?x div b"
    using assms(2) by (simp add: bucket_expr_def)
  show "0 \<le> bucket_expr (fl_start_ms f) b r"
    using e x assms(2) by (simp add: pos_imp_zdiv_nonneg_iff)
  have "?x div b \<le> (?n - 1) div b"
    using x assms(2) by (simp add: zdiv_mono1)
  also have "(?n - 1) div b + 1 = (?n + b - 1) div b"
    using assms(2) div_add_self2 [of b "?n - 1"] by (simp add: algebra_simps)
  finally show "bucket_expr (fl_start_ms f) b r < (?n + b - 1) div b"
    using e by linarith
  show "bucket_expr (fl_start_ms f) b r = i \<longleftrightarrow>
      fl_start_ms f + i * b \<le> pr_started_at_ms r \<and> pr_started_at_ms r < fl_start_ms f + i * b + b"
    unfolding e using div_eq_interval [OF assms(2)] by (simp add: algebra_simps)
qed

section \<open>Percentiles\<close>

text \<open>
  The nearest rank of \<open>p\<close> percent: a sample with at least \<open>p\<close> percent of the samples up to it, and no
  smaller sample has that.
\<close>

definition up_to :: "f64 \<Rightarrow> f64 list \<Rightarrow> nat" where
  "up_to v xs = length (filter (\<lambda>x. f64_key x \<le> f64_key v) xs)"

definition nearest_rank :: "nat \<Rightarrow> f64 list \<Rightarrow> f64 \<Rightarrow> bool" where
  "nearest_rank p xs v \<longleftrightarrow> v \<in> set xs \<and> p * length xs \<le> 100 * up_to v xs \<and>
     (\<forall>w \<in> set xs. f64_key w < f64_key v \<longrightarrow> 100 * up_to w xs < p * length xs)"

lemma sorted_rank_up_to:
  assumes "sorted (map f64_key xs)" "k < length xs"
  shows "k < up_to (xs ! k) xs"
proof -
  have "\<forall>x \<in> set (take (Suc k) xs). f64_key x \<le> f64_key (xs ! k)"
    using assms by (auto simp: set_conv_nth sorted_iff_nth_mono)
  then have "filter (\<lambda>x. f64_key x \<le> f64_key (xs ! k)) (take (Suc k) xs) = take (Suc k) xs"
    by simp
  moreover have "up_to (xs ! k) xs = length (filter (\<lambda>x. f64_key x \<le> f64_key (xs ! k)) (take (Suc k) xs)) +
      length (filter (\<lambda>x. f64_key x \<le> f64_key (xs ! k)) (drop (Suc k) xs))"
    by (metis up_to_def append_take_drop_id filter_append length_append)
  ultimately show ?thesis
    using assms(2) by simp
qed

lemma sorted_rank_below:
  assumes "sorted (map f64_key xs)" "k < length xs" "f64_key w < f64_key (xs ! k)"
  shows "up_to w xs \<le> k"
proof -
  have "\<forall>x \<in> set (drop k xs). \<not> f64_key x \<le> f64_key w"
    using assms by (auto simp: set_conv_nth sorted_iff_nth_mono not_le intro: less_le_trans)
  then have "filter (\<lambda>x. f64_key x \<le> f64_key w) (drop k xs) = []"
    by (simp add: filter_empty_conv)
  then have "up_to w xs = length (filter (\<lambda>x. f64_key x \<le> f64_key w) (take k xs))"
    by (metis up_to_def append_take_drop_id filter_append append_Nil2)
  then show ?thesis
    by (metis length_filter_le length_take min.bounded_iff order_trans)
qed

lemma rank_value_nearest:
  assumes "xs \<noteq> []" "0 < p" "p \<le> 100"
  shows "\<exists>v. rank_value (sort_key f64_key xs) ((length xs * p + 99) div 100) = Some v \<and> nearest_rank p xs v"
proof -
  let ?s = "sort_key f64_key xs" and ?k = "(length xs * p + 99) div 100"
  obtain m where m: "m = length xs * p" "m = p * length xs"
    by (simp add: mult.commute)
  then have "0 < m" "m \<le> length xs * 100"
    using assms by simp_all
  then have k: "1 \<le> ?k" "?k \<le> length xs" "p * length xs \<le> 100 * ?k" "100 * (?k - 1) < p * length xs"
    unfolding m(1) [symmetric] m(2) [symmetric] by linarith+
  let ?v = "?s ! (?k - 1)"
  have srt: "sorted (map f64_key ?s)" and ix: "?k - 1 < length ?s"
    using k by simp_all
  have same: "up_to w ?s = up_to w xs" for w
    unfolding up_to_def by (metis filter_sort length_sort)
  have "?v \<in> set xs"
    using ix by (metis nth_mem set_sort)
  moreover have "?k \<le> up_to ?v xs"
    using sorted_rank_up_to [OF srt ix] k(1) unfolding same by linarith
  then have "p * length xs \<le> 100 * up_to ?v xs"
    using k(3) by linarith
  moreover have "100 * up_to w xs < p * length xs" if "f64_key w < f64_key ?v" for w
    using sorted_rank_below [OF srt ix that] k by (simp add: same)
  ultimately show ?thesis
    using k by (auto simp: rank_value_def nearest_rank_def)
qed

section \<open>The report\<close>

lemma percentiles_of_Nil [simp]: "percentiles_of [] = no_percentiles"
  by (simp add: percentiles_of_def no_percentiles_def rank_value_def)

lemma map_filter_some: "List.map_filter f (filter (\<lambda>x. f x \<noteq> None) xs) = List.map_filter f xs"
  by (induction xs) (auto simp: map_filter_simps split: option.split)

lemma samples_bucket:
  "success_samples column (filter q (filter (has_sample column) rows)) = success_samples column (filter q rows)"
proof -
  let ?s = "\<lambda>r. pr_outcome r = ''success''"
  have "filter ?s (filter q (filter (has_sample column) rows)) = filter (\<lambda>r. column r \<noteq> None) (filter ?s (filter q rows))"
    unfolding filter_filter by (rule filter_cong) (auto simp: has_sample_def)
  then show ?thesis
    unfolding success_samples_def using map_filter_some [of column "filter ?s (filter q rows)"] by metis
qed

lemma samples_filter_some: "success_samples column (filter (has_sample column) rows) = success_samples column rows"
  using samples_bucket [of column "\<lambda>_. True" rows] by simp

lemma samples_Nil [simp]: "success_samples column [] = []"
  by (simp add: success_samples_def map_filter_simps)

lemma percentiles_map_of:
  "(case map_of (percentiles column bucket rows) k of Some p \<Rightarrow> p | None \<Rightarrow> no_percentiles) =
   percentiles_of (success_samples column (filter (\<lambda>r. bucket r = k) rows))"
proof -
  let ?rows = "filter (has_sample column) rows"
  have m: "map_of (percentiles column bucket rows) k =
      map_option (\<lambda>rs. percentiles_of (success_samples column rs)) (map_of (grouped bucket ?rows) k)"
    unfolding percentiles_def by (simp add: map_of_map case_prod_beta)
  show ?thesis
  proof (cases "k \<in> bucket ` set ?rows")
    case True
    then show ?thesis
      unfolding m grouped_map_of samples_bucket [symmetric, of column _ rows] by simp
  next
    case False
    then have "filter (\<lambda>r. bucket r = k) ?rows = []"
      by (auto simp: filter_empty_conv)
    then have "success_samples column (filter (\<lambda>r. bucket r = k) rows) = []"
      using samples_bucket [of column "\<lambda>r. bucket r = k" rows] by simp
    then show ?thesis
      using False unfolding m grouped_map_of by simp
  qed
qed

lemma percentiles_distinct: "distinct (map fst (percentiles column bucket rows))"
  unfolding percentiles_def using grouped_distinct by (simp add: comp_def case_prod_beta)

lemma remdups_const: "xs \<noteq> [] \<Longrightarrow> remdups (map (\<lambda>_. c) xs) = [c]"
  by (induction xs) (auto simp: image_constant_conv split: if_splits)

lemma whole_percentiles:
  "pop_percentiles (percentiles column (\<lambda>_. 0) rows) = percentiles_of (success_samples column rows)"
proof (cases "filter (has_sample column) rows = []")
  case True
  then have "success_samples column rows = []"
    using samples_filter_some [of column rows] by simp
  then show ?thesis
    using True by (simp add: percentiles_def grouped_def pop_percentiles_def)
next
  case False
  then have "sort (remdups (map (\<lambda>_. 0 :: int) (filter (has_sample column) rows))) = [0]"
    by (simp add: remdups_const)
  then show ?thesis
    by (simp add: percentiles_def grouped_def pop_percentiles_def samples_filter_some)
qed

lemma filter_bucket_interval:
  assumes "0 < b"
  shows "filter (\<lambda>r. bucket_expr (fl_start_ms f) b r = i) (filter (where_filter f) t) =
    filter (\<lambda>r. fl_start_ms f + i * b \<le> pr_started_at_ms r \<and> pr_started_at_ms r < fl_start_ms f + i * b + b)
      (filter (where_filter f) t)"
  using bucket_expr_range(3) [OF _ assms] by (intro filter_cong) auto

lemma counts_bucket:
  "(case map_of (map (\<lambda>(k, rs). (k, counts_of rs)) (grouped bucket rows)) k of Some c \<Rightarrow> c | None \<Rightarrow> no_counts) =
   counts_of (filter (\<lambda>r. bucket r = k) rows)"
proof -
  have m: "map_of (map (\<lambda>(k, rs). (k, counts_of rs)) (grouped bucket rows)) k = map_option counts_of (map_of (grouped bucket rows) k)"
    by (simp add: map_of_map case_prod_beta)
  show ?thesis
  proof (cases "k \<in> bucket ` set rows")
    case False
    then have "filter (\<lambda>r. bucket r = k) rows = []"
      by (auto simp: filter_empty_conv)
    then show ?thesis
      using False unfolding m grouped_map_of by (simp add: counts_of_def count_where_def no_counts_def)
  qed (simp add: m grouped_map_of)
qed

definition bucket_rows :: "performance_filter \<Rightarrow> int \<Rightarrow> nat \<Rightarrow> perf_table \<Rightarrow> perf_table" where
  "bucket_rows f b i rows =
     filter (\<lambda>r. fl_start_ms f + int i * b \<le> pr_started_at_ms r \<and> pr_started_at_ms r < fl_start_ms f + int i * b + b) rows"

text \<open>Every bucket of a report in one equation.\<close>

lemma report_buckets:
  assumes "perf_report faults f t = Inr rep" "fl_start_ms f < fl_end_ms f"
  defines "rows \<equiv> filter (where_filter f) t" and "b \<equiv> bucket_size (fl_end_ms f - fl_start_ms f)"
  shows "po_bucket_ms rep = b"
    and "length (po_buckets rep) = nat ((fl_end_ms f - fl_start_ms f + b - 1) div b)"
    and "i < length (po_buckets rep) \<Longrightarrow> po_buckets rep ! i =
      \<lparr>pb_start_ms = fl_start_ms f + int i * b, pb_counts = counts_of (bucket_rows f b i rows),
       pb_duration = percentiles_of (success_samples (ms_column pr_duration_ms) (bucket_rows f b i rows)),
       pb_first_content = percentiles_of (success_samples (ms_column pr_first_content_ms) (bucket_rows f b i rows))\<rparr>"
proof -
  have b: "0 < b"
    by (simp add: b_def bucket_size_pos)
  let ?n = "(fl_end_ms f - fl_start_ms f + b - 1) div b"
  let ?e = "empty_buckets (fl_start_ms f) (fl_end_ms f - fl_start_ms f) b"
  have n: "rust_div (fl_end_ms f - fl_start_ms f + b - 1) b = ?n" "0 \<le> ?n"
    using assms(2) b by (simp_all add: pos_imp_zdiv_nonneg_iff)
  have e: "length ?e = nat ?n"
    by (simp add: empty_buckets_def n)
  have nth: "?e ! i = \<lparr>pb_start_ms = fl_start_ms f + int i * b, pb_counts = no_counts, pb_duration = no_percentiles,
      pb_first_content = no_percentiles\<rparr>" if "i < nat ?n" for i
    using that by (simp add: empty_buckets_def n)
  have same: "filter (\<lambda>r. bucket_expr (fl_start_ms f) b r = int i) rows = bucket_rows f b i rows" for i
    unfolding bucket_rows_def rows_def using filter_bucket_interval [OF b] by simp
  have gd: "distinct (map fst (map (\<lambda>(k, rs). (k, counts_of rs)) (grouped (bucket_expr (fl_start_ms f) b) rows)))"
    using grouped_distinct [of "bucket_expr (fl_start_ms f) b" rows] by (simp add: comp_def case_prod_beta)
  let ?b1 = "fill_buckets (\<lambda>c b. b\<lparr>pb_counts := c\<rparr>)
      (map (\<lambda>(k, rs). (k, counts_of rs)) (grouped (bucket_expr (fl_start_ms f) b) rows)) ?e"
  let ?b2 = "fill_buckets (\<lambda>p b. b\<lparr>pb_duration := p\<rparr>)
      (percentiles (ms_column pr_duration_ms) (bucket_expr (fl_start_ms f) b) rows) ?b1"
  have bs: "po_buckets rep = fill_buckets (\<lambda>p b. b\<lparr>pb_first_content := p\<rparr>)
      (percentiles (ms_column pr_first_content_ms) (bucket_expr (fl_start_ms f) b) rows) ?b2"
    and "po_bucket_ms rep = b"
    using assms(1) by (auto simp: perf_report_def Let_def rows_def b_def split: option.splits)
  then show "po_bucket_ms rep = b" "length (po_buckets rep) = nat ?n"
    using e by simp_all
  assume "i < length (po_buckets rep)"
  then have i: "i < nat ?n"
    using bs e by simp
  let ?key = "bucket_expr (fl_start_ms f) b"
  have l1: "?b1 ! i = \<lparr>pb_start_ms = fl_start_ms f + int i * b, pb_counts = counts_of (bucket_rows f b i rows),
      pb_duration = no_percentiles, pb_first_content = no_percentiles\<rparr>"
    using i counts_bucket [of ?key rows "int i"]
    by (simp add: fill_buckets_nth [OF gd] e nth same del: map_map split: option.splits)
  have l2: "?b2 ! i = (?b1 ! i)\<lparr>pb_duration := percentiles_of (success_samples (ms_column pr_duration_ms) (bucket_rows f b i rows))\<rparr>"
    using i l1 percentiles_map_of [of "ms_column pr_duration_ms" ?key rows "int i"]
    by (simp add: fill_buckets_nth [OF percentiles_distinct] e same split: option.splits)
  show "po_buckets rep ! i =
      \<lparr>pb_start_ms = fl_start_ms f + int i * b, pb_counts = counts_of (bucket_rows f b i rows),
       pb_duration = percentiles_of (success_samples (ms_column pr_duration_ms) (bucket_rows f b i rows)),
       pb_first_content = percentiles_of (success_samples (ms_column pr_first_content_ms) (bucket_rows f b i rows))\<rparr>"
    unfolding bs using i l1 l2 percentiles_map_of [of "ms_column pr_first_content_ms" ?key rows "int i"]
    by (simp add: fill_buckets_nth [OF percentiles_distinct] e same split: option.splits)
qed

lemma report_counts:
  assumes "perf_report faults f t = Inr rep"
  shows "po_counts rep = counts_of (filter (where_filter f) t)"
    and "po_duration rep = percentiles_of (success_samples (ms_column pr_duration_ms) (filter (where_filter f) t))"
    and "po_histogram rep = histogram_of (filter (where_filter f) t)"
proof -
  let ?rows = "filter (where_filter f) t"
  let ?key = "bucket_expr (fl_start_ms f) (bucket_size (fl_end_ms f - fl_start_ms f))"
  let ?groups = "map (\<lambda>(k, rs). (k, counts_of rs)) (grouped ?key ?rows)"
  have "map snd ?groups = map (\<lambda>k. counts_of (filter (\<lambda>r. ?key r = k) ?rows)) (sort (remdups (map ?key ?rows)))"
    by (simp add: grouped_def comp_def)
  then have "sum_counts (map snd ?groups) = counts_of ?rows"
    using counts_partition [of "sort (remdups (map ?key ?rows))" ?key ?rows] by simp
  then show "po_counts rep = counts_of ?rows"
    using assms by (auto simp: perf_report_def Let_def fold_add_counts simp del: map_map split: option.splits)
  show "po_duration rep = percentiles_of (success_samples (ms_column pr_duration_ms) ?rows)"
    "po_histogram rep = histogram_of ?rows"
    using assms by (auto simp: perf_report_def Let_def whole_percentiles split: option.splits)
qed

lemma counts_add_up:
  "pk_completed (counts_of rows) = pk_success (counts_of rows) + pk_error (counts_of rows) +
     pk_aborted (counts_of rows) + pk_unknown (counts_of rows)"
  by (induction rows) (auto simp: counts_of_def count_where_def)

lemma histogram_adds_up:
  "sum_list (map ph_duration_count (histogram_of rows)) =
     count_where (\<lambda>r. pr_outcome r = ''success'' \<and> in_bar 0 (2 ^ 63 - 1) (pr_duration_ms r)) rows"
proof (induction rows)
  case Nil
  show ?case
    by (simp add: histogram_of_def HISTOGRAM_def count_where_def)
next
  case (Cons r rows)
  have step: "count_where p (r # rows) = of_bool (p r) + count_where p rows" for p
    by (simp add: count_where_def)
  have one: "(\<Sum>x\<leftarrow>HISTOGRAM. of_bool (pr_outcome r = ''success'' \<and> in_bar (fst x) (fst (snd x)) (pr_duration_ms r))) =
      (of_bool (pr_outcome r = ''success'' \<and> in_bar 0 (2 ^ 63 - 1) (pr_duration_ms r)) :: int)"
    by (cases "pr_duration_ms r") (auto simp: HISTOGRAM_def in_bar_def)
  have sums: "sum_list (map ph_duration_count (histogram_of rs)) =
      (\<Sum>x\<leftarrow>HISTOGRAM. count_where (\<lambda>r. pr_outcome r = ''success'' \<and> in_bar (fst x) (fst (snd x)) (pr_duration_ms r)) rs)" for rs
    by (simp add: histogram_of_def comp_def case_prod_beta)
  show ?case
    using one Cons unfolding sums step by (simp add: case_prod_beta sum_list_addf)
qed

lemma report_bucket_sums:
  assumes "perf_report faults f t = Inr rep" "fl_start_ms f < fl_end_ms f"
  shows "sum_counts (map pb_counts (po_buckets rep)) = counts_of (filter (where_filter f) t)"
proof -
  let ?b = "bucket_size (fl_end_ms f - fl_start_ms f)" and ?rows = "filter (where_filter f) t"
  let ?n = "nat ((fl_end_ms f - fl_start_ms f + ?b - 1) div ?b)"
  let ?key = "bucket_expr (fl_start_ms f) ?b"
  note rb = report_buckets [OF assms]
  have same: "bucket_rows f ?b i ?rows = filter (\<lambda>r. ?key r = int i) ?rows" for i
    unfolding bucket_rows_def using filter_bucket_interval [OF bucket_size_pos] by simp
  have "map pb_counts (po_buckets rep) = map (\<lambda>i. counts_of (filter (\<lambda>r. ?key r = int i) ?rows)) [0..<?n]"
    using rb(2,3) by (intro nth_equalityI) (simp_all add: same)
  also have "\<dots> = map (\<lambda>k. counts_of (filter (\<lambda>r. ?key r = k) ?rows)) (map int [0..<?n])"
    by simp
  finally have eq: "map pb_counts (po_buckets rep) = \<dots>" .
  have "?key ` set ?rows \<subseteq> set (map int [0..<?n])"
  proof
    fix k
    assume "k \<in> ?key ` set ?rows"
    then obtain r where "where_filter f r" "k = ?key r"
      by auto
    then have "0 \<le> k" "k < (fl_end_ms f - fl_start_ms f + ?b - 1) div ?b"
      using bucket_expr_range(1,2) [OF _ bucket_size_pos] by auto
    then show "k \<in> set (map int [0..<?n])"
      by (auto simp: image_iff intro!: bexI [of _ "nat k"])
  qed
  then show ?thesis
    unfolding eq by (intro counts_partition) (simp_all add: distinct_map)
qed

section \<open>Rows and pages\<close>

lemma insert_events_fresh:
  assumes "distinct (map pv_request_id es)" "set (map pv_request_id es) \<inter> set (map pr_request_id t) = {}"
  shows "perf_insert_events C es t = (length es, t @ map (event_row C) es)"
  using assms
proof (induction es arbitrary: t)
  case (Cons e es)
  have "perf_insert_events C es (t @ [event_row C e]) = (length es, (t @ [event_row C e]) @ map (event_row C) es)"
    using Cons by (intro Cons.IH) (auto simp: event_row_def)
  then show ?case
    using Cons.prems by auto
qed simp

lemma insert_rows_known:
  assumes "set (map pv_request_id es) \<subseteq> set (map pr_request_id t)"
  shows "perf_insert_events C es t = (0, t)"
  using assms by (induction es) auto

lemma event_row_id [simp]: "pr_request_id (event_row C e) = pv_request_id e"
  by (simp add: event_row_def)

text \<open>
  What serialisation keeps of an event: everything but the last digits of its only floating-point number, which
  the library does not promise to read back exactly, and the order in which the stages are held.
\<close>

definition same_event :: "performance_event \<Rightarrow> performance_event \<Rightarrow> bool" where
  "same_event a b \<longleftrightarrow> map_of (pv_stages_ms a) = map_of (pv_stages_ms b) \<and>
     a\<lparr>pv_stages_ms := [], pv_output_tokens_per_second := None\<rparr> = b\<lparr>pv_stages_ms := [], pv_output_tokens_per_second := None\<rparr>"

definition reads_back :: "event_codec \<Rightarrow> performance_event \<Rightarrow> bool" where
  "reads_back C e \<longleftrightarrow> (\<exists>e'. ec_from_str C (ec_to_string C e) = Inl e' \<and> same_event e e')"

definition reread_event :: "event_codec \<Rightarrow> performance_event \<Rightarrow> performance_event" where
  "reread_event C e = (case ec_from_str C (ec_to_string C e) of Inl e' \<Rightarrow> e' | Inr _ \<Rightarrow> e)"

lemma reread_event_same: "reads_back C e \<Longrightarrow> same_event e (reread_event C e)"
  by (auto simp: reads_back_def reread_event_def)

lemma decode_rows:
  assumes "\<forall>e \<in> set es. reads_back C e"
  shows "decode_events C (map pr_event_json (map (event_row C) es)) = Inr (map (reread_event C) es)"
  using assms by (induction es) (auto simp: decode_event_def event_row_def reads_back_def reread_event_def)

text \<open>The rows of events, in the order of a list, are the rows of the events in that order.\<close>

definition ordered_events :: "event_codec \<Rightarrow> bool \<Rightarrow> bool \<Rightarrow> performance_event list \<Rightarrow> performance_event list" where
  "ordered_events C pg duration_desc es =
     (if duration_desc
      then sort_key (\<lambda>e. (duration_rank pg (event_row C e), - pr_started_at_ms (event_row C e), pv_request_id e)) es
      else sort_key (\<lambda>e. (- pr_started_at_ms (event_row C e), pv_request_id e)) es)"

lemma sort_key_map: "sort_key k (map g xs) = map g (sort_key (\<lambda>x. k (g x)) xs)"
proof -
  have "insort_key k (g x) (map g ys) = map g (insort_key (\<lambda>x. k (g x)) x ys)" for x ys
    by (induction ys) simp_all
  then show ?thesis
    by (induction xs) simp_all
qed

lemma perf_ordered_rows: "perf_ordered pg d (map (event_row C) es) = map (event_row C) (ordered_events C pg d es)"
  by (simp add: perf_ordered_def ordered_events_def sort_key_map)

lemma set_ordered_events [simp]: "set (ordered_events C pg d es) = set es"
  and mset_ordered_events [simp]: "mset (ordered_events C pg d es) = mset es"
  by (simp_all add: ordered_events_def)

lemma perf_list_rows:
  assumes "\<forall>e \<in> set es. reads_back C e"
  shows "perf_list C pg None None f (map (event_row C) es) =
    Inr \<lparr>pp_items = take (nat (fl_page_size f)) (drop (nat ((fl_page f - 1) * fl_page_size f))
           (map (reread_event C) (ordered_events C pg (fl_duration_desc f) (filter (\<lambda>e. where_filter f (event_row C e)) es)))),
         pp_total = int (length (filter (\<lambda>e. where_filter f (event_row C e)) es)),
         pp_page = fl_page f, pp_page_size = fl_page_size f\<rparr>"
proof -
  let ?es = "filter (\<lambda>e. where_filter f (event_row C e)) es"
  let ?page = "take (nat (fl_page_size f)) (drop (nat ((fl_page f - 1) * fl_page_size f))
      (ordered_events C pg (fl_duration_desc f) ?es))"
  have f: "filter (where_filter f) (map (event_row C) es) = map (event_row C) ?es"
    by (simp add: filter_map comp_def)
  have "set ?page \<subseteq> set es"
    by (auto dest!: in_set_takeD in_set_dropD)
  then have "decode_events C (map pr_event_json (map (event_row C) ?page)) = Inr (map (reread_event C) ?page)"
    using assms by (intro decode_rows) auto
  then show ?thesis
    unfolding perf_list_def f perf_ordered_rows by (simp add: Let_def take_map drop_map del: map_map)
qed

definition page_items :: "event_codec \<Rightarrow> bool \<Rightarrow> performance_filter \<Rightarrow> perf_table \<Rightarrow> performance_event list" where
  "page_items C pg f t = (case perf_list C pg None None f t of Inr p \<Rightarrow> pp_items p | Inl _ \<Rightarrow> [])"

lemma where_filter_page [simp]: "where_filter (f\<lparr>fl_page := p\<rparr>) = where_filter f"
  by (simp add: where_filter_def fun_eq_iff)

section \<open>Cleanup\<close>

lemma delete_before_effect:
  assumes "distinct (map pr_request_id t)" "perf_delete_before None d t = (Inr n, t')"
  shows "distinct (map pr_request_id t')" "filter (\<lambda>r. pr_sg_day r \<ge> d) t' = filter (\<lambda>r. pr_sg_day r \<ge> d) t"
    and "set t' \<subseteq> set t" "n \<noteq> CLEANUP_BATCH \<Longrightarrow> t' = filter (\<lambda>r. pr_sg_day r \<ge> d) t"
proof -
  let ?old = "filter (\<lambda>r. pr_sg_day r < d) t"
  let ?gone = "take CLEANUP_BATCH (sort_key pr_sg_day ?old)"
  let ?V = "set (map pr_request_id ?gone)"
  have t': "t' = filter (\<lambda>r. pr_request_id r \<notin> ?V) t" and n: "n = length t - length t'"
    using assms(2) by (auto simp: perf_delete_before_def Let_def)
  have sub: "set ?gone \<subseteq> set ?old"
    by (metis set_sort set_take_subset)
  have inj: "inj_on pr_request_id (set t)" and "distinct t"
    using assms(1) by (simp_all add: distinct_map)
  have mem: "pr_request_id r \<in> ?V \<longleftrightarrow> r \<in> set ?gone" if "r \<in> set t" for r
    using sub that inj by (auto simp: inj_on_def)
  have t2: "t' = filter (\<lambda>r. r \<notin> set ?gone) t"
    unfolding t' using mem by (intro filter_cong) simp_all
  show "distinct (map pr_request_id t')" "set t' \<subseteq> set t"
    unfolding t' using assms(1) by (auto simp: distinct_map_filter)
  show "filter (\<lambda>r. pr_sg_day r \<ge> d) t' = filter (\<lambda>r. pr_sg_day r \<ge> d) t"
    unfolding t2 filter_filter using sub by (intro filter_cong) auto
  have "distinct ?gone"
    using \<open>distinct t\<close> by simp
  moreover have "set (filter (\<lambda>r. r \<in> set ?gone) t) = set ?gone"
    using sub by auto
  moreover have "distinct (filter (\<lambda>r. r \<in> set ?gone) t)"
    using \<open>distinct t\<close> by simp
  ultimately have "length (filter (\<lambda>r. r \<in> set ?gone) t) = length ?gone"
    by (metis distinct_card)
  then have "n = length ?gone"
    unfolding n t2 using sum_length_filter_compl [of "\<lambda>r. r \<in> set ?gone" t] by simp
  then have "length ?old < CLEANUP_BATCH" if "n \<noteq> CLEANUP_BATCH"
    using that by (simp add: min_def split: if_splits)
  then show "t' = filter (\<lambda>r. pr_sg_day r \<ge> d) t" if "n \<noteq> CLEANUP_BATCH"
    unfolding t2 using that by (intro filter_cong) (auto simp: not_less)
qed

lemma cleanup_effect:
  assumes "distinct (map pr_request_id t)"
  shows "filter (\<lambda>r. pr_sg_day r \<ge> d) (perf_cleanup d faults t) = filter (\<lambda>r. pr_sg_day r \<ge> d) t \<and>
    set (perf_cleanup d faults t) \<subseteq> set t \<and>
    (list_all (\<lambda>f. f = None) faults \<longrightarrow> perf_cleanup d faults t = filter (\<lambda>r. pr_sg_day r \<ge> d) t)"
  using assms
proof (induction d faults t rule: perf_cleanup.induct)
  case (1 d faults t)
  let ?f = "case faults of f # _ \<Rightarrow> f | [] \<Rightarrow> None"
  obtain r t' where r: "perf_delete_before ?f d t = (r, t')"
    by (cases "perf_delete_before ?f d t")
  show ?case
  proof (cases ?f)
    case (Some x)
    then have "perf_cleanup d faults t = t" "\<not> list_all (\<lambda>f. f = None) faults"
      by (auto simp: perf_cleanup.simps [of d faults t] perf_delete_before_def split: list.splits)
    then show ?thesis
      by simp
  next
    case None
    then obtain n where n: "perf_delete_before None d t = (Inr n, t')" "r = Inr n"
      using r by (auto simp: perf_delete_before_def Let_def)
    note eff = delete_before_effect [OF 1(2) n(1)]
    have step: "perf_cleanup d faults t = (if n = CLEANUP_BATCH then perf_cleanup d (tl faults) t' else t')"
      using None n by (simp add: perf_cleanup.simps [of d faults t])
    show ?thesis
    proof (cases "n = CLEANUP_BATCH")
      case True
      have "list_all (\<lambda>f. f = None) faults \<Longrightarrow> list_all (\<lambda>f. f = None) (tl faults)"
        by (cases faults) auto
      then show ?thesis
        using 1(1) [OF r [symmetric] n(2) True eff(1)] True eff step by auto
    next
      case False
      then show ?thesis
        using step eff by auto
    qed
  qed
qed

section \<open>Properties\<close>

text \<open>
  C33. A performance report partitions the requests it selects. Its totals count the selected rows, each in
  one outcome class; bucket \<open>i\<close> describes the rows that started in its interval, the buckets add up to
  the totals, the bars of the histogram add up to the successes with a duration, and a range of up to
  288 days has at most 288 buckets.
\<close>

theorem performance_report_partitions:
  assumes "perf_report faults f t = Inr rep" "fl_start_ms f < fl_end_ms f"
  defines "rows \<equiv> filter (where_filter f) t"
  shows "po_counts rep = counts_of rows \<and>
    pk_completed (po_counts rep) = int (length rows) \<and>
    pk_completed (po_counts rep) = pk_success (po_counts rep) + pk_error (po_counts rep) +
      pk_aborted (po_counts rep) + pk_unknown (po_counts rep) \<and>
    sum_counts (map pb_counts (po_buckets rep)) = po_counts rep \<and>
    (\<forall>i < length (po_buckets rep).
       pb_start_ms (po_buckets rep ! i) = fl_start_ms f + int i * po_bucket_ms rep \<and>
       pb_counts (po_buckets rep ! i) = counts_of (bucket_rows f (po_bucket_ms rep) i rows)) \<and>
    sum_list (map ph_duration_count (po_histogram rep)) =
      count_where (\<lambda>r. pr_outcome r = ''success'' \<and> in_bar 0 (2 ^ 63 - 1) (pr_duration_ms r)) rows \<and>
    (fl_end_ms f - fl_start_ms f \<le> 288 * 86400000 \<longrightarrow> length (po_buckets rep) \<le> 288)"
proof -
  note rb = report_buckets [OF assms(1,2)] and rc = report_counts [OF assms(1)]
  have "fl_end_ms f - fl_start_ms f \<le> 288 * 86400000 \<longrightarrow> length (po_buckets rep) \<le> 288"
    using bucket_size_few [of "fl_end_ms f - fl_start_ms f"] assms(2) rb(2) by (simp add: nat_le_iff)
  moreover have "pk_completed (counts_of rows) = int (length rows)"
    by (simp add: counts_of_def)
  ultimately show ?thesis
    using rb rc counts_add_up [of rows] report_bucket_sums [OF assms(1,2)] histogram_adds_up [of rows]
    unfolding rows_def by simp
qed

text \<open>
  Percentiles are nearest ranks. When a report has a successful request with a duration, its
  median, 95th and 99th percentile are each a sample with that share of the samples up to it, and
  no smaller sample has it.
\<close>

theorem report_percentiles_nearest:
  assumes "perf_report faults f t = Inr rep"
    and "samples = success_samples (ms_column pr_duration_ms) (filter (where_filter f) t)" "samples \<noteq> []"
  shows "\<exists>v50 v95 v99. pq_p50 (po_duration rep) = Some v50 \<and> nearest_rank 50 samples v50 \<and>
    pq_p95 (po_duration rep) = Some v95 \<and> nearest_rank 95 samples v95 \<and>
    pq_p99 (po_duration rep) = Some v99 \<and> nearest_rank 99 samples v99 \<and>
    pq_sample_count (po_duration rep) = int (length samples)"
  using rank_value_nearest [OF assms(3), of 50] rank_value_nearest [OF assms(3), of 95]
    rank_value_nearest [OF assms(3), of 99] report_counts(2) [OF assms(1)] assms(2)
  by (auto simp: percentiles_of_def Let_def)


text \<open>
  A completed request is found. An event of a stored batch is read back under its
  identifier while it is within the retention, and storing the batch again, as a retry does, adds
  nothing.
\<close>

theorem completed_request_found:
  assumes "distinct (map pv_request_id es)" "set (map pv_request_id es) \<inter> set (map pr_request_id t) = {}"
    and "perf_insert_batch C None es t = (Inr n, t')" "e \<in> set es"
    and "ec_from_str C (ec_to_string C e) = Inl e'" "min_day \<le> sg_day (timestamp_millis (pv_started_at_utc e))"
  shows "perf_get C None (pv_request_id e) min_day t' = Inr e' \<and> n = length es \<and>
    perf_insert_batch C None es t' = (Inr 0, t')"
proof -
  have t': "t' = t @ map (event_row C) es" and n: "n = length es"
    using assms(3) insert_events_fresh [OF assms(1,2), of C] by (simp_all add: perf_insert_batch_def)
  have "find (\<lambda>r. pr_request_id r = pv_request_id e \<and> pr_sg_day r \<ge> min_day) t' = Some (event_row C e)"
  proof -
    have "find (\<lambda>r. pr_request_id r = pv_request_id e \<and> pr_sg_day r \<ge> min_day) t = None"
      using assms(2,4) by (auto simp: find_None_iff)
    moreover have "find (\<lambda>r. pr_request_id r = pv_request_id e \<and> pr_sg_day r \<ge> min_day) (map (event_row C) es) =
        Some (event_row C e)"
      using assms(1,4,6)
    proof (induction es)
      case (Cons a es)
      then show ?case
        by (cases "a = e") (auto simp: event_row_def)
    qed simp
    ultimately show ?thesis
      by (simp add: t' find_append)
  qed
  then have "perf_get C None (pv_request_id e) min_day t' = Inr e'"
    using assms(5) by (simp add: perf_get_def decode_event_def event_row_def)
  moreover have "perf_insert_batch C None es t' = (Inr 0, t')"
    using insert_rows_known [of es t' C] by (auto simp: perf_insert_batch_def t')
  ultimately show ?thesis
    using n by simp
qed

text \<open>
  The cleanup ends and keeps what is recent. Whatever statements fail, no row within the
  retention is removed and none is added, and without a failure every older row is gone, however
  many batches that takes.
\<close>

theorem cleanup_keeps_recent:
  assumes "distinct (map pr_request_id t)"
  shows "filter (\<lambda>r. pr_sg_day r \<ge> d) (perf_cleanup d faults t) = filter (\<lambda>r. pr_sg_day r \<ge> d) t \<and>
    set (perf_cleanup d faults t) \<subseteq> set t \<and> perf_cleanup d [] t = filter (\<lambda>r. pr_sg_day r \<ge> d) t"
  using cleanup_effect [OF assms, of d faults] cleanup_effect [OF assms, of d "[]"] by simp

text \<open>
  An accepted query is bounded. The range of a query the handler accepts lies within the
  retention and ends at most a second ahead, its offset fits the database, and its report has at
  most 288 buckets.
\<close>

theorem performance_query_bounded:
  assumes "performance_validate now now q = Inr f" "\<bar>timestamp_millis now\<bar> \<le> 8334601228800000"
  shows "timestamp_millis now - 31 * 86400000 < fl_start_ms f \<and> fl_start_ms f < fl_end_ms f \<and>
    fl_end_ms f \<le> timestamp_millis now + 1000 \<and>
    0 \<le> (fl_page f - 1) * fl_page_size f \<and> (fl_page f - 1) * fl_page_size f < 100000000 \<and>
    1 \<le> fl_page_size f \<and> fl_page_size f \<le> 100 \<and>
    (\<forall>faults svc t rep h. overview faults now now q svc t = Inr (rep, h) \<longrightarrow> length (po_buckets rep) \<le> 288)"
proof -
  let ?ms = "timestamp_millis now"
  have day: "sg_day ?ms = (?ms + 28800000) div 86400000"
    using assms(2) by (simp add: sg_day_def i32_wrap_def)
  have v: "retention_day now * 86400000 - 28800000 \<le> fl_start_ms f" "fl_start_ms f < fl_end_ms f"
    "fl_end_ms f \<le> ?ms + 1000"
    and pages: "\<not> is_some_and (qy_page q) (\<lambda>v. \<not> (1 \<le> v \<and> v \<le> 1000000))" "fl_page f = or_value (qy_page q) 1"
    "\<not> is_some_and (qy_page_size q) (\<lambda>v. \<not> (1 \<le> v \<and> v \<le> 100))" "fl_page_size f = or_value (qy_page_size q) 20"
    using assms(1) by (auto simp: performance_validate_def Let_def split: if_splits)
  have p: "1 \<le> fl_page f" "fl_page f \<le> 1000000"
    using pages(1,2) by (cases "qy_page q"; simp add: is_some_and_def or_value_def)+
  have s: "1 \<le> fl_page_size f" "fl_page_size f \<le> 100"
    using pages(3,4) by (cases "qy_page_size q"; simp add: is_some_and_def or_value_def)+
  have lo: "?ms - 31 * 86400000 < fl_start_ms f"
    using v(1) div_mult_mod_eq [of "?ms + 28800000" 86400000] pos_mod_bound [of 86400000 "?ms + 28800000"]
    unfolding retention_day_def day by (simp add: algebra_simps)
  have "(fl_page f - 1) * fl_page_size f \<le> 999999 * 100"
    using p s by (intro mult_mono) auto
  moreover have "length (po_buckets rep) \<le> 288" if "overview faults now now q svc t = Inr (rep, h)" for faults svc t rep h
  proof -
    have "perf_report faults f t = Inr rep"
      using that assms(1) by (cases "perf_report faults f t") (simp_all add: overview_def)
    then show ?thesis
      using report_buckets(2) v(2) bucket_size_few [of "fl_end_ms f - fl_start_ms f"] v(3) lo
      by (simp add: nat_le_iff)
  qed
  ultimately show ?thesis
    using v lo p s by simp
qed

section \<open>One request\<close>

definition done_event :: performance_event where
  "done_event = (new_event ''a'' ''i'' 0)\<lparr>pv_outcome := Some PO_Success, pv_duration_ms := Some 7\<rparr>"

definition one_codec :: event_codec where
  "one_codec = \<lparr>ec_to_string = pv_request_id, ec_from_str = (\<lambda>s. if s = ''a'' then Inl done_event else Inr [])\<rparr>"

definition hour_filter :: performance_filter where
  "hour_filter = \<lparr>fl_start_ms = 0, fl_end_ms = 3600000, fl_account_id = None, fl_api_token_id = None, fl_model = None,
     fl_instance_id = None, fl_outcome = None, fl_is_stream = None, fl_min_duration_ms = None, fl_duration_desc = True,
     fl_page = 1, fl_page_size = 20\<rparr>"

definition open_query :: performance_query where
  "open_query = \<lparr>qy_start_at = None, qy_end_at = None, qy_account_id = None, qy_api_token_id = None, qy_model = None,
     qy_instance_id = None, qy_outcome = None, qy_is_stream = None, qy_min_duration_ms = None, qy_sort = None,
     qy_page = None, qy_page_size = None\<rparr>"

lemma done_event_sel [simp]:
  "pv_request_id done_event = ''a''" "pv_started_at_utc done_event = 0"
  by (simp_all add: done_event_def new_event_def)

lemma one_codec_law: "ec_from_str one_codec (ec_to_string one_codec done_event) = Inl done_event"
  by (simp add: one_codec_def)

lemma done_event_matches: "where_filter hour_filter (event_row one_codec done_event)"
  by (simp add: where_filter_def hour_filter_def event_row_def is_none_or_def timestamp_millis_def sg_day_def i32_wrap_def)

lemma done_event_sample:
  "success_samples (ms_column pr_duration_ms) [event_row one_codec done_event] = [f64_of_int 7]"
  by (simp add: success_samples_def map_filter_simps ms_column_def event_row_def done_event_def new_event_def bound_column_def)

lemma one_report: "\<exists>rep. perf_report (\<lambda>_. None) hour_filter [event_row one_codec done_event] = Inr rep"
  by (simp add: perf_report_def first_fault_def Let_def)

theorem performance_report_partitions_witness:
  "\<exists>rep. perf_report (\<lambda>_. None) hour_filter [event_row one_codec done_event] = Inr rep \<and>
     pk_completed (po_counts rep) = 1 \<and> sum_counts (map pb_counts (po_buckets rep)) = po_counts rep \<and>
     length (po_buckets rep) \<le> 288"
proof -
  obtain rep where r: "perf_report (\<lambda>_. None) hour_filter [event_row one_codec done_event] = Inr rep"
    using one_report by blast
  have "fl_start_ms hour_filter < fl_end_ms hour_filter" "fl_end_ms hour_filter - fl_start_ms hour_filter \<le> 288 * 86400000"
    by (simp_all add: hour_filter_def)
  then show ?thesis
    using performance_report_partitions [OF r] r done_event_matches by auto
qed

theorem report_percentiles_nearest_witness:
  "\<exists>rep v. perf_report (\<lambda>_. None) hour_filter [event_row one_codec done_event] = Inr rep \<and>
     pq_p95 (po_duration rep) = Some v \<and> nearest_rank 95 [f64_of_int 7] v"
proof -
  obtain rep where r: "perf_report (\<lambda>_. None) hour_filter [event_row one_codec done_event] = Inr rep"
    using one_report by blast
  have "[f64_of_int 7] = success_samples (ms_column pr_duration_ms)
      (filter (where_filter hour_filter) [event_row one_codec done_event])"
    using done_event_matches done_event_sample by simp
  then show ?thesis
    using report_percentiles_nearest [OF r] r by blast
qed


theorem completed_request_found_witness:
  "perf_get one_codec None ''a'' 0 [event_row one_codec done_event] = Inr done_event"
proof -
  have "perf_insert_batch one_codec None [done_event] [] = (Inr 1, [event_row one_codec done_event])"
    by (simp add: perf_insert_batch_def)
  then show ?thesis
    using completed_request_found [of "[done_event]" "[]" one_codec 1 "[event_row one_codec done_event]" done_event done_event 0] one_codec_law
    by (simp add: timestamp_millis_def sg_day_def i32_wrap_def)
qed

theorem cleanup_keeps_recent_witness:
  "perf_cleanup 1 [] [event_row one_codec done_event] = []"
  using cleanup_keeps_recent [of "[event_row one_codec done_event]" 1 "[]"]
  by (simp add: event_row_def timestamp_millis_def sg_day_def i32_wrap_def)

theorem performance_query_bounded_witness:
  "\<exists>f. performance_validate (10 ^ 18) (10 ^ 18) open_query = Inr f \<and> fl_end_ms f - fl_start_ms f < 32 * 86400000"
proof -
  obtain f where f: "performance_validate (10 ^ 18) (10 ^ 18) open_query = Inr f"
    by (simp add: performance_validate_def open_query_def Let_def or_value_def is_some_and_def timestamp_millis_def
        retention_day_def sg_day_def i32_wrap_def)
  have "\<bar>timestamp_millis (10 ^ 18)\<bar> \<le> 8334601228800000"
    by (simp add: timestamp_millis_def)
  then show ?thesis
    using performance_query_bounded [OF f] f by (intro exI [of _ f]) simp
qed

end
