(* ===== verification/Pricing_Fetch.thy ===== *)
theory Pricing_Fetch
  imports Pricing
begin

text \<open>
  Fetching the price lists (\<open>fetch_pricing_json\<close> of \<open>src/service/usage_pricing.rs\<close>): the response is read chunk by chunk up to
  a limit. What comes of the request is a parameter: the error of sending it or a reply with its status error, its announced
  length, and its chunks up to the first that cannot be read; \<open>utf8\<close> is the check of the standard library.
\<close>

definition PRICING_RESPONSE_LIMIT :: nat where "PRICING_RESPONSE_LIMIT = 8 * 1024 * 1024"

record pricing_reply =
  pq_status_error :: "string option"
  pq_content_length :: "nat option"
  pq_chunks :: "(string + string) list"

definition saturating_usize :: "nat \<Rightarrow> nat \<Rightarrow> nat" where
  "saturating_usize a b = min (a + b) (2 ^ 64 - 1)"

definition exceeds_error :: string where
  "exceeds_error = ''response exceeds 8 MiB limit''"

fun read_body :: "string \<Rightarrow> (string + string) list \<Rightarrow> string + string" where
  "read_body body [] = Inr body"
| "read_body body (Inl e # chunks) = Inl (''read response: '' @ e)"
| "read_body body (Inr chunk # chunks) =
     (if saturating_usize (length body) (length chunk) > PRICING_RESPONSE_LIMIT then Inl exceeds_error
      else read_body (body @ chunk) chunks)"

definition fetch_pricing_json :: "(string \<Rightarrow> bool) \<Rightarrow> string + pricing_reply \<Rightarrow> string + string" where
  "fetch_pricing_json utf8 response =
     (case response of
        Inl e \<Rightarrow> Inl (''request failed: '' @ e)
      | Inr r \<Rightarrow>
          (case pq_status_error r of
             Some e \<Rightarrow> Inl (''HTTP error: '' @ e)
           | None \<Rightarrow>
               if (case pq_content_length r of Some n \<Rightarrow> n > PRICING_RESPONSE_LIMIT | None \<Rightarrow> False) then Inl exceeds_error
               else case read_body [] (pq_chunks r) of
                      Inl e \<Rightarrow> Inl e
                    | Inr body \<Rightarrow> if utf8 body then Inr body else Inl ''response is not UTF-8 JSON''))"

definition fetch_pricing_json_with_timeout :: "(string \<Rightarrow> bool) \<Rightarrow> bool \<Rightarrow> string + pricing_reply \<Rightarrow> string + string" where
  "fetch_pricing_json_with_timeout utf8 in_time response =
     (if in_time then fetch_pricing_json utf8 response else Inl ''request exceeded 20 second total timeout'')"

text \<open>\<open>fetch_remote_pricing_snapshot\<close>: both lists are fetched at once.\<close>

definition fetch_remote_pricing_snapshot ::
  "serde_lib \<Rightarrow> (string \<Rightarrow> nat list) \<Rightarrow> (jnum \<Rightarrow> string) \<Rightarrow> (string \<Rightarrow> bool) \<Rightarrow> bool \<times> (string + pricing_reply)
     \<Rightarrow> bool \<times> (string + pricing_reply) \<Rightarrow> string + pricing_snapshot" where
  "fetch_remote_pricing_snapshot S sha256 num_text utf8 litellm models_dev =
     remote_pricing_snapshot S sha256 num_text
       (fetch_pricing_json_with_timeout utf8 (fst litellm) (snd litellm))
       (fetch_pricing_json_with_timeout utf8 (fst models_dev) (snd models_dev))"

section \<open>The limit\<close>

lemma saturating_over [simp]: "saturating_usize a b > PRICING_RESPONSE_LIMIT \<longleftrightarrow> a + b > PRICING_RESPONSE_LIMIT"
  by (auto simp: saturating_usize_def PRICING_RESPONSE_LIMIT_def)

lemma read_body_ok:
  "length body \<le> PRICING_RESPONSE_LIMIT \<Longrightarrow>
    read_body body chunks = Inr r \<longleftrightarrow> (\<exists>texts. chunks = map Inr texts \<and> r = body @ concat texts \<and> length r \<le> PRICING_RESPONSE_LIMIT)"
proof (induction body chunks rule: read_body.induct)
  case (3 body chunk chunks)
  show ?case
  proof (cases "length body + length chunk > PRICING_RESPONSE_LIMIT")
    case True
    then show ?thesis by (auto simp: Cons_eq_map_conv)
  next
    case False
    then show ?thesis
      using 3 by (auto simp: Cons_eq_map_conv)
  qed
qed auto

text \<open>
  A fetched list is exactly what was sent, within the limit: the text is returned if and only if the request succeeds in time, no
  longer response is announced, every chunk is read, and together they are valid and at most eight MiB.
\<close>

theorem fetched_text_bounded:
  "fetch_pricing_json_with_timeout utf8 in_time response = Inr body \<longleftrightarrow>
    (\<exists>n_length texts. in_time \<and>
       response = Inr \<lparr>pq_status_error = None, pq_content_length = n_length, pq_chunks = map Inr texts\<rparr> \<and>
       (n_length = None \<or> the n_length \<le> PRICING_RESPONSE_LIMIT) \<and>
       body = concat texts \<and> length body \<le> PRICING_RESPONSE_LIMIT \<and> utf8 body)"
proof (cases response)
  case (Inr r)
  obtain e n chunks where r: "r = \<lparr>pq_status_error = e, pq_content_length = n, pq_chunks = chunks\<rparr>"
    by (cases r) simp
  have "read_body [] chunks = Inr body \<longleftrightarrow> (\<exists>texts. chunks = map Inr texts \<and> body = concat texts \<and> length body \<le> PRICING_RESPONSE_LIMIT)"
    by (simp add: read_body_ok)
  then show ?thesis
    by (cases "read_body [] chunks")
      (auto simp: fetch_pricing_json_with_timeout_def fetch_pricing_json_def Inr r not_le split: option.splits if_splits)
qed (simp add: fetch_pricing_json_with_timeout_def fetch_pricing_json_def)

end
