(* ===== verification/Redis_Store.thy ===== *)
theory Redis_Store
  imports Cache
begin

text \<open>
  The cache in Redis (\<open>src/store/redis.rs\<close>), the second implementation of \<open>CacheStore\<close>.

  The server is a parameter: \<open>redis\<close> has the commands the store sends, each at an instant with
  either an error text or its reply. \<open>redis_laws\<close> states their documented behaviour on the data as
  seen at an instant, a value and the instant it expires at for every key: a command that answers has
  had its effect, one that fails may have had it. The commands of one operation run one after the other at
  one instant; the connection, which reconnects by itself, is not represented.
\<close>

section \<open>The server\<close>

type_synonym redis_view = "string \<Rightarrow> (string \<times> int option) option"

record 'r redis =
  rd_get :: "int \<Rightarrow> string \<Rightarrow> 'r \<Rightarrow> (string + string option) \<times> 'r"
  rd_set_ex :: "int \<Rightarrow> string \<Rightarrow> string \<Rightarrow> int \<Rightarrow> 'r \<Rightarrow> (string + unit) \<times> 'r"
  rd_del :: "int \<Rightarrow> string \<Rightarrow> 'r \<Rightarrow> (string + unit) \<times> 'r"
  rd_incr :: "int \<Rightarrow> string \<Rightarrow> int \<Rightarrow> 'r \<Rightarrow> (string + int) \<times> 'r"
  rd_decr :: "int \<Rightarrow> string \<Rightarrow> int \<Rightarrow> 'r \<Rightarrow> (string + int) \<times> 'r"
  rd_expire :: "int \<Rightarrow> string \<Rightarrow> int \<Rightarrow> 'r \<Rightarrow> (string + unit) \<times> 'r"
  rd_set_nx_ex :: "int \<Rightarrow> string \<Rightarrow> string \<Rightarrow> int \<Rightarrow> 'r \<Rightarrow> (string + string option) \<times> 'r"
  rd_eval :: "int \<Rightarrow> (redis_view \<Rightarrow> redis_view) \<Rightarrow> 'r \<Rightarrow> (string + unit) \<times> 'r"

section \<open>The store\<close>

text \<open>\<open>as_secs\<close> drops the fraction of the second.\<close>

definition as_secs :: "int \<Rightarrow> int" where
  "as_secs ttl = ttl div 10 ^ 9"

definition build_redis_url :: "string \<Rightarrow> nat \<Rightarrow> string \<Rightarrow> int \<Rightarrow> string" where
  "build_redis_url host port password db =
     (if password = [] then ''redis://'' @ host @ '':'' @ nat_to_string port @ ''/'' @ int_to_string db
      else ''redis://:'' @ password @ ''@'' @ host @ '':'' @ nat_to_string port @ ''/'' @ int_to_string db)"

text \<open>The text of the error of \<open>parse::<i64>\<close>, which reads the digits from the left.\<close>

fun scan_error :: "bool \<Rightarrow> int \<Rightarrow> string \<Rightarrow> string" where
  "scan_error negative acc [] = []"
| "scan_error negative acc (c # s) =
     (if \<not> is_ascii_digit c then ''invalid digit found in string''
      else
        let acc = (if negative then acc * 10 - int (digit_val c) else acc * 10 + int (digit_val c))
        in if i64_range acc then scan_error negative acc s
           else if negative then ''number too small to fit in target type''
           else ''number too large to fit in target type'')"

definition parse_i64_error :: "string \<Rightarrow> string" where
  "parse_i64_error s =
     (case s of
        [] \<Rightarrow> ''cannot parse integer from empty string''
      | c # r \<Rightarrow>
          if r = [] \<and> (c = CHR ''+'' \<or> c = CHR ''-'') then ''invalid digit found in string''
          else if c = CHR ''-'' then scan_error True 0 r
          else if c = CHR ''+'' then scan_error False 0 r
          else scan_error False 0 s)"

definition redis_get_session_account_id ::
  "'r redis \<Rightarrow> int \<Rightarrow> string \<Rightarrow> 'r \<Rightarrow> (app_error + int option) \<times> 'r" where
  "redis_get_session_account_id R now session_hash c =
     (case rd_get R now (session_key session_hash) c of
        (Inl e, c) \<Rightarrow> (Inl (Internal (''redis get: '' @ e)), c)
      | (Inr None, c) \<Rightarrow> (Inr None, c)
      | (Inr (Some s), c) \<Rightarrow>
          (case parse_i64 s of
             Some i \<Rightarrow> (Inr (Some i), c)
           | None \<Rightarrow> (Inl (Internal (''redis parse: '' @ parse_i64_error s)), c)))"

definition redis_set_session_account_id ::
  "'r redis \<Rightarrow> int \<Rightarrow> string \<Rightarrow> int \<Rightarrow> int \<Rightarrow> 'r \<Rightarrow> (app_error + unit) \<times> 'r" where
  "redis_set_session_account_id R now session_hash account_id ttl c =
     (case rd_set_ex R now (session_key session_hash) (int_to_string account_id) (as_secs ttl) c of
        (Inl e, c) \<Rightarrow> (Inl (Internal (''redis set: '' @ e)), c)
      | (Inr _, c) \<Rightarrow> (Inr (), c))"

definition redis_delete_session :: "'r redis \<Rightarrow> int \<Rightarrow> string \<Rightarrow> 'r \<Rightarrow> (app_error + unit) \<times> 'r" where
  "redis_delete_session R now session_hash c =
     (case rd_del R now (session_key session_hash) c of
        (Inl e, c) \<Rightarrow> (Inl (Internal (''redis del: '' @ e)), c)
      | (Inr _, c) \<Rightarrow> (Inr (), c))"

text \<open>The errors of \<open>EXPIRE\<close> and of the two \<open>DECR\<close> are ignored.\<close>

definition redis_acquire_slot ::
  "'r redis \<Rightarrow> int \<Rightarrow> string \<Rightarrow> int \<Rightarrow> int \<Rightarrow> 'r \<Rightarrow> (app_error + bool) \<times> 'r" where
  "redis_acquire_slot R now key mx ttl c =
     (case rd_incr R now key 1 c of
        (Inl e, c) \<Rightarrow> (Inl (Internal (''redis incr: '' @ e)), c)
      | (Inr val, c) \<Rightarrow>
          (let c = (if val = 1 then snd (rd_expire R now key (as_secs ttl) c) else c)
           in if val > mx then (Inr False, snd (rd_decr R now key 1 c)) else (Inr True, c)))"

definition redis_release_slot :: "'r redis \<Rightarrow> int \<Rightarrow> string \<Rightarrow> 'r \<Rightarrow> 'r" where
  "redis_release_slot R now key c = snd (rd_decr R now key 1 c)"

definition redis_acquire_lock ::
  "'r redis \<Rightarrow> int \<Rightarrow> string \<Rightarrow> string \<Rightarrow> int \<Rightarrow> 'r \<Rightarrow> (app_error + bool) \<times> 'r" where
  "redis_acquire_lock R now key owner ttl c =
     (case rd_set_nx_ex R now key owner (max (as_secs ttl) 1) c of
        (Inl e, c) \<Rightarrow> (Inl (Internal (''redis lock set: '' @ e)), c)
      | (Inr r, c) \<Rightarrow> (Inr (r \<noteq> None), c))"

text \<open>The script runs on the server as one step.\<close>

definition release_script :: "string \<Rightarrow> string \<Rightarrow> redis_view \<Rightarrow> redis_view" where
  "release_script key owner m = (if map_option fst (m key) = Some owner then m(key := None) else m)"

definition redis_release_lock :: "'r redis \<Rightarrow> int \<Rightarrow> string \<Rightarrow> string \<Rightarrow> 'r \<Rightarrow> 'r" where
  "redis_release_lock R now key owner c = snd (rd_eval R now (release_script key owner) c)"

definition redis_cache :: "'r redis \<Rightarrow> 'r cache_ops" where
  "redis_cache R =
     \<lparr>co_get_session_account_id = redis_get_session_account_id R,
      co_set_session_account_id = redis_set_session_account_id R,
      co_delete_session = redis_delete_session R,
      co_acquire_slot = redis_acquire_slot R,
      co_release_slot = redis_release_slot R,
      co_acquire_lock = redis_acquire_lock R,
      co_release_lock = redis_release_lock R\<rparr>"

section \<open>What the server promises\<close>

text \<open>\<open>performs\<close>: the effect of a command on the data at its instant, and its reply.\<close>

definition performs ::
  "('r \<Rightarrow> redis_view) \<Rightarrow> ('r \<Rightarrow> (string + 'a) \<times> 'r) \<Rightarrow> (redis_view \<Rightarrow> redis_view) \<Rightarrow> (redis_view \<Rightarrow> 'a \<Rightarrow> bool) \<Rightarrow> 'r \<Rightarrow> bool" where
  "performs view cmd eff reply c \<longleftrightarrow>
     (case cmd c of
        (Inr r, c') \<Rightarrow> view c' = eff (view c) \<and> reply (view c) r
      | (Inl _, c') \<Rightarrow> view c' = view c \<or> view c' = eff (view c))"

definition expires :: "int \<Rightarrow> int \<Rightarrow> int option" where
  "expires now secs = Some (now + secs * 10 ^ 9)"

text \<open>A missing counter is zero and gets no expiry; a text that is no integer is an error.\<close>

definition counter :: "redis_view \<Rightarrow> string \<Rightarrow> int option" where
  "counter m k = (case m k of None \<Rightarrow> Some 0 | Some (s, _) \<Rightarrow> parse_i64 s)"

definition add_to :: "string \<Rightarrow> int \<Rightarrow> redis_view \<Rightarrow> redis_view" where
  "add_to k n m =
     (case counter m k of
        Some x \<Rightarrow> if i64_range (x + n) then m(k \<mapsto> (int_to_string (x + n), Option.bind (m k) snd)) else m
      | None \<Rightarrow> m)"

definition added :: "string \<Rightarrow> int \<Rightarrow> redis_view \<Rightarrow> int \<Rightarrow> bool" where
  "added k n m r \<longleftrightarrow> (\<exists>x. counter m k = Some x \<and> i64_range (x + n) \<and> r = x + n)"

definition set_new :: "string \<Rightarrow> string \<times> int option \<Rightarrow> redis_view \<Rightarrow> redis_view" where
  "set_new k v m = (if m k = None then m(k \<mapsto> v) else m)"

definition expired_view :: "int \<Rightarrow> redis_view \<Rightarrow> redis_view" where
  "expired_view t m k =
     (case m k of Some (v, Some e) \<Rightarrow> if t \<le> e then Some (v, Some e) else None | x \<Rightarrow> x)"

definition redis_laws :: "'r redis \<Rightarrow> (int \<Rightarrow> 'r \<Rightarrow> redis_view) \<Rightarrow> bool" where
  "redis_laws R view \<longleftrightarrow>
     (\<forall>t t' c. t \<le> t' \<longrightarrow> view t' c = expired_view t' (view t c)) \<and>
     (\<forall>t k c. performs (view t) (rd_get R t k) id (\<lambda>m r. r = map_option fst (m k)) c) \<and>
     (\<forall>t k v n c. 0 < n \<longrightarrow> performs (view t) (rd_set_ex R t k v n) (\<lambda>m. m(k \<mapsto> (v, expires t n))) (\<lambda>m r. True) c) \<and>
     (\<forall>t k c. performs (view t) (rd_del R t k) (\<lambda>m. m(k := None)) (\<lambda>m r. True) c) \<and>
     (\<forall>t k n c. performs (view t) (rd_incr R t k n) (add_to k n) (added k n) c) \<and>
     (\<forall>t k n c. performs (view t) (rd_decr R t k n) (add_to k (- n)) (added k (- n)) c) \<and>
     (\<forall>t k n c. 0 < n \<longrightarrow> performs (view t) (rd_expire R t k n)
        (\<lambda>m. m(k := map_option (\<lambda>(v, _). (v, expires t n)) (m k))) (\<lambda>m r. True) c) \<and>
     (\<forall>t k v n c. 0 < n \<longrightarrow> performs (view t) (rd_set_nx_ex R t k v n) (set_new k (v, expires t n))
        (\<lambda>m r. (r \<noteq> None) = (m k = None)) c) \<and>
     (\<forall>t k u c. performs (view t) (rd_eval R t (release_script k u)) (release_script k u) (\<lambda>m r. True) c)"

text \<open>No command on a counter fails unless it has to.\<close>

definition redis_up :: "'r redis \<Rightarrow> (int \<Rightarrow> 'r \<Rightarrow> redis_view) \<Rightarrow> bool" where
  "redis_up R view \<longleftrightarrow>
     (\<forall>t k n c x. counter (view t c) k = Some x \<and> i64_range (x + n) \<longrightarrow> \<not> isl (fst (rd_incr R t k n c))) \<and>
     (\<forall>t k n c x. counter (view t c) k = Some x \<and> i64_range (x - n) \<longrightarrow> \<not> isl (fst (rd_decr R t k n c))) \<and>
     (\<forall>t k n c. 0 < n \<longrightarrow> \<not> isl (fst (rd_expire R t k n c)))"

end
