(* ===== verification/Redis_Facts.thy ===== *)
theory Redis_Facts
  imports Redis_Store
begin

text \<open>
  What the Redis cache (\<open>src/store/redis.rs\<close>) keeps of the contract of the cache, for every server
  that behaves as documented: sessions and locks; and where its slot counter departs from it.
\<close>

section \<open>Numbers as text\<close>

lemma parse_i64_int_to_string [simp]: "i64_range i \<Longrightarrow> parse_i64 (int_to_string i) = Some i"
proof -
  assume r: "i64_range i"
  show ?thesis
  proof (cases "i < 0")
    case True
    then show ?thesis
      using r nat_to_string_digits [of "nat (- i)"]
      by (simp add: parse_i64_def parse_signed_def int_to_string_def parse_digits_def digits_value_nat_to_string i64_checked_def)
  next
    case False
    obtain d s where s: "nat_to_string (nat i) = d # s"
      using nat_to_string_digits [of "nat i"] by (cases "nat_to_string (nat i)") auto
    have "is_ascii_digit d" "list_all is_ascii_digit (d # s)"
      using nat_to_string_digits [of "nat i"] by (simp_all add: s)
    moreover from this have "d \<noteq> CHR ''-''" "d \<noteq> CHR ''+''"
      by (auto simp: is_ascii_digit_def)
    ultimately show ?thesis
      using r False s digits_value_nat_to_string [of "nat i"]
      by (simp add: parse_i64_def parse_signed_def int_to_string_def parse_digits_def i64_checked_def)
  qed
qed

section \<open>The laws, one command at a time\<close>

lemma redis_time: "redis_laws R view \<Longrightarrow> t \<le> t' \<Longrightarrow> view t' c = expired_view t' (view t c)"
  by (simp add: redis_laws_def)

lemma performs_Inr: "performs v cmd eff reply c \<Longrightarrow> cmd c = (Inr r, c') \<Longrightarrow> v c' = eff (v c) \<and> reply (v c) r"
  by (simp add: performs_def)

lemma performs_any: "performs v cmd eff reply c \<Longrightarrow> v (snd (cmd c)) = v c \<or> v (snd (cmd c)) = eff (v c)"
  by (auto simp: performs_def split: prod.splits sum.splits)

lemma performs_keeps: "performs v cmd eff reply c \<Longrightarrow> P (v c) \<Longrightarrow> P (eff (v c)) \<Longrightarrow> P (v (snd (cmd c)))"
  by (metis performs_any)

lemma redis_commands:
  assumes "redis_laws R view"
  shows "performs (view t) (rd_get R t k) id (\<lambda>m r. r = map_option fst (m k)) c"
    and "0 < n \<Longrightarrow> performs (view t) (rd_set_ex R t k v n) (\<lambda>m. m(k \<mapsto> (v, expires t n))) (\<lambda>m r. True) c"
    and "performs (view t) (rd_del R t k) (\<lambda>m. m(k := None)) (\<lambda>m r. True) c"
    and "performs (view t) (rd_incr R t k n) (add_to k n) (added k n) c"
    and "performs (view t) (rd_decr R t k n) (add_to k (- n)) (added k (- n)) c"
    and "0 < n \<Longrightarrow> performs (view t) (rd_expire R t k n) (\<lambda>m. m(k := map_option (\<lambda>(v, _). (v, expires t n)) (m k))) (\<lambda>m r. True) c"
    and "0 < n \<Longrightarrow> performs (view t) (rd_set_nx_ex R t k v n) (set_new k (v, expires t n)) (\<lambda>m r. (r \<noteq> None) = (m k = None)) c"
    and "performs (view t) (rd_eval R t (release_script k u)) (release_script k u) (\<lambda>m r. True) c"
  using assms unfolding redis_laws_def by simp_all

section \<open>Sessions\<close>

text \<open>
  A binding is read back. What the store was given for a session it answers for the whole seconds of
  the lifetime, and no account afterwards.
\<close>

theorem redis_session_read_back:
  assumes "redis_laws R view" "i64_range a" "10 ^ 9 \<le> ttl" "now \<le> t"
    and "redis_set_session_account_id R now h a ttl c = (Inr (), c')"
    and "redis_get_session_account_id R t h c' = (Inr r, c'')"
  shows "r = (if t \<le> now + as_secs ttl * 10 ^ 9 then Some a else None)"
proof -
  have secs: "0 < as_secs ttl"
    using assms(3) by (simp add: as_secs_def pos_imp_zdiv_pos_iff)
  have "rd_set_ex R now (session_key h) (int_to_string a) (as_secs ttl) c = (Inr (), c')"
    using assms(5) by (auto simp: redis_set_session_account_id_def split: prod.splits sum.splits)
  from performs_Inr [OF redis_commands(2) [OF assms(1) secs] this]
  have "view now c' (session_key h) = Some (int_to_string a, expires now (as_secs ttl))"
    by simp
  then have seen: "view t c' (session_key h) =
      (if t \<le> now + as_secs ttl * 10 ^ 9 then Some (int_to_string a, expires now (as_secs ttl)) else None)"
    using redis_time [OF assms(1,4), of c'] by (simp add: expired_view_def expires_def)
  obtain x where x: "rd_get R t (session_key h) c' = (Inr x, c'')"
    "case x of None \<Rightarrow> r = None | Some s \<Rightarrow> r = parse_i64 s"
    using assms(6) by (auto simp: redis_get_session_account_id_def split: prod.splits sum.splits option.splits)
  have "x = map_option fst (view t c' (session_key h))"
    using performs_Inr [OF redis_commands(1) [OF assms(1)] x(1)] by simp
  then show ?thesis
    using x(2) seen assms(2) by (simp split: if_splits)
qed

section \<open>Locks\<close>

definition locked_until :: "redis_view \<Rightarrow> string \<Rightarrow> string \<Rightarrow> int \<Rightarrow> bool" where
  "locked_until m k v e \<longleftrightarrow> m k = Some (v, Some e)"

text \<open>Calls that use the key of the lock for something else, or release it.\<close>

definition disturbs_lock :: "string \<Rightarrow> string \<Rightarrow> cache_call \<Rightarrow> bool" where
  "disturbs_lock k v call =
     (case call of
        GetSession _ h \<Rightarrow> False
      | SetSession _ h _ ttl \<Rightarrow> session_key h = k \<or> as_secs ttl \<le> 0
      | DeleteSession _ h \<Rightarrow> session_key h = k
      | AcquireSlot _ k' _ ttl \<Rightarrow> k' = k \<or> as_secs ttl \<le> 0
      | ReleaseSlot _ k' \<Rightarrow> k' = k
      | AcquireLock _ _ _ _ \<Rightarrow> False
      | ReleaseLock _ k' u \<Rightarrow> k' = k \<and> u = v)"

lemma add_to_other: "k' \<noteq> k \<Longrightarrow> add_to k' n m k = m k"
  by (simp add: add_to_def split: option.splits)

lemma snd_redis_ops:
  "snd (redis_get_session_account_id R t h c) = snd (rd_get R t (session_key h) c)"
  "snd (redis_set_session_account_id R t h a ttl c) = snd (rd_set_ex R t (session_key h) (int_to_string a) (as_secs ttl) c)"
  "snd (redis_delete_session R t h c) = snd (rd_del R t (session_key h) c)"
  "snd (redis_acquire_lock R t k u ttl c) = snd (rd_set_nx_ex R t k u (max (as_secs ttl) 1) c)"
  by (auto simp: redis_get_session_account_id_def redis_set_session_account_id_def redis_delete_session_def
      redis_acquire_lock_def split: prod.splits sum.splits option.splits)

lemma slot_other_key:
  assumes "redis_laws R view" "k' \<noteq> k" "0 < as_secs ttl"
  shows "view t (snd (redis_acquire_slot R t k' mx ttl c)) k = view t c k"
proof -
  obtain r c1 where i: "rd_incr R t k' 1 c = (r, c1)"
    by (cases "rd_incr R t k' 1 c")
  have c1: "view t c1 k = view t c k"
    using performs_keeps [OF redis_commands(4) [OF assms(1), of t k' 1 c], of "\<lambda>m. m k = view t c k"] assms(2)
    by (simp add: i add_to_other)
  have ex: "view t (snd (rd_expire R t k' (as_secs ttl) c')) k = view t c' k" for c'
    using performs_keeps [OF redis_commands(6) [OF assms(1,3), of t k' c'], of "\<lambda>m. m k = view t c' k"] assms(2) by simp
  have de: "view t (snd (rd_decr R t k' 1 c')) k = view t c' k" for c'
    using performs_keeps [OF redis_commands(5) [OF assms(1), of t k' 1 c'], of "\<lambda>m. m k = view t c' k"] assms(2)
    by (simp add: add_to_other)
  show ?thesis
    by (cases r) (simp_all add: redis_acquire_slot_def i Let_def ex de c1)
qed

lemma lock_survives_redis_call:
  assumes "redis_laws R view" "view t c k = Some (v, Some e)" "t \<le> call_time call" "call_time call \<le> e"
    and "\<not> disturbs_lock k v call"
  shows "view (call_time call) (cache_exec (redis_cache R) call c) k = Some (v, Some e)"
proof -
  let ?t = "call_time call"
  have now: "view ?t c k = Some (v, Some e)"
    using redis_time [OF assms(1,3), of c] assms(2,4) by (simp add: expired_view_def)
  note cmd = performs_keeps [where v = "view ?t" and c = c and P = "\<lambda>m. m k = Some (v, Some e)", OF _ now]
  show ?thesis
  proof (cases call)
    case (GetSession t' h)
    then show ?thesis
      using cmd [OF redis_commands(1) [OF assms(1)]] now by (simp add: redis_cache_def snd_redis_ops)
  next
    case (SetSession t' h a ttl)
    then have call: "0 < as_secs ttl" "session_key h \<noteq> k"
      using assms(5) by (simp_all add: disturbs_lock_def)
    show ?thesis
      using cmd [OF redis_commands(2) [OF assms(1) call(1)]] now call(2) SetSession by (simp add: redis_cache_def snd_redis_ops)
  next
    case (DeleteSession t' h)
    then show ?thesis
      using cmd [OF redis_commands(3) [OF assms(1)]] now assms(5) by (simp add: redis_cache_def snd_redis_ops disturbs_lock_def)
  next
    case (AcquireSlot t' k' mx ttl)
    then show ?thesis
      using slot_other_key [OF assms(1), of k' k ttl t' mx c] now assms(5) by (simp add: redis_cache_def disturbs_lock_def)
  next
    case (ReleaseSlot t' k')
    then show ?thesis
      using cmd [OF redis_commands(5) [OF assms(1)]] now assms(5)
      by (simp add: redis_cache_def redis_release_slot_def disturbs_lock_def add_to_other)
  next
    case (AcquireLock t' k' u ttl)
    have "set_new k' w (view t' c) k = Some (v, Some e)" for w
      using now AcquireLock by (auto simp: set_new_def)
    then show ?thesis
      using cmd [OF redis_commands(7) [OF assms(1)]] AcquireLock by (simp add: redis_cache_def snd_redis_ops)
  next
    case (ReleaseLock t' k' u)
    then have "release_script k' u (view ?t c) k = Some (v, Some e)"
      using now assms(5) by (auto simp: release_script_def disturbs_lock_def)
    then show ?thesis
      using cmd [OF redis_commands(8) [OF assms(1)]] ReleaseLock by (simp add: redis_cache_def redis_release_lock_def)
  qed
qed

lemma lock_survives_redis_calls:
  assumes "redis_laws R view" "view t c k = Some (v, Some e)"
    and "sorted (t # map call_time calls)" "\<forall>call \<in> set calls. call_time call \<le> e \<and> \<not> disturbs_lock k v call"
  shows "view (last (t # map call_time calls)) (cache_run (redis_cache R) calls c) k = Some (v, Some e)"
  using assms(2-4)
proof (induction calls arbitrary: t c)
  case (Cons call calls)
  have "view (call_time call) (cache_exec (redis_cache R) call c) k = Some (v, Some e)"
    using lock_survives_redis_call [OF assms(1) Cons(2)] Cons(3,4) by simp
  from Cons(1) [OF this] Cons(3,4) show ?case
    by (simp add: cache_run_def)
qed (simp add: cache_run_def)

text \<open>
  C38. The refresh lock excludes. Once a lock is granted, and whatever other calls reach the cache in
  order of time, failing ones included, nobody is granted it before it expires unless its owner releases it.
\<close>

theorem redis_lock_excludes:
  assumes "redis_laws R view" "co_acquire_lock (redis_cache R) now k v ttl c = (Inr True, c')"
    and "sorted (now # map call_time calls @ [t])" "t \<le> now + max (as_secs ttl) 1 * 10 ^ 9"
    and "\<forall>call \<in> set calls. \<not> disturbs_lock k v call"
  shows "fst (co_acquire_lock (redis_cache R) t k u ttl' (cache_run (redis_cache R) calls c')) \<noteq> Inr True"
proof -
  let ?e = "now + max (as_secs ttl) 1 * 10 ^ 9"
  obtain r where r: "rd_set_nx_ex R now k v (max (as_secs ttl) 1) c = (Inr (Some r), c')"
    using assms(2) by (auto simp: redis_cache_def redis_acquire_lock_def split: prod.splits sum.splits)
  have pos: "0 < max (as_secs ttl) 1" for ttl :: int
    by simp
  have "view now c' k = Some (v, Some ?e)"
    using performs_Inr [OF redis_commands(7) [OF assms(1) pos] r] by (simp add: set_new_def expires_def)
  moreover have "sorted (now # map call_time calls)" "\<forall>call \<in> set calls. call_time call \<le> ?e"
    "last (now # map call_time calls) \<le> t"
    using assms(3,4) last_in_set [of "now # map call_time calls"] by (auto simp: sorted_append simp del: last_in_set)
  ultimately have "view (last (now # map call_time calls)) (cache_run (redis_cache R) calls c') k = Some (v, Some ?e)"
    using lock_survives_redis_calls [OF assms(1), of now c' k v ?e calls] assms(5) by simp
  then have held: "view t (cache_run (redis_cache R) calls c') k = Some (v, Some ?e)"
    using redis_time [OF assms(1) \<open>last (now # map call_time calls) \<le> t\<close>] assms(4) by (simp add: expired_view_def)
  obtain x c'' where x: "rd_set_nx_ex R t k u (max (as_secs ttl') 1) (cache_run (redis_cache R) calls c') = (x, c'')"
    by (cases "rd_set_nx_ex R t k u (max (as_secs ttl') 1) (cache_run (redis_cache R) calls c')")
  have "y = None" if "x = Inr y" for y
    using performs_Inr [OF redis_commands(7) [OF assms(1) pos] x [unfolded that]] held by simp
  then show ?thesis
    using x by (cases x) (auto simp: redis_cache_def redis_acquire_lock_def)
qed


section \<open>Slots\<close>

definition slot_value :: "redis_view \<Rightarrow> string \<Rightarrow> int \<Rightarrow> int \<Rightarrow> bool" where
  "slot_value m k x t \<longleftrightarrow> (\<exists>e. m k = Some (int_to_string x, e) \<and> (\<forall>d. e = Some d \<longrightarrow> t \<le> d))"

lemma counted:
  assumes "redis_laws R view" "redis_up R view" "counter (view t c) k = Some x" "i64_range (x + 1)"
  obtains c' where "rd_incr R t k 1 c = (Inr (x + 1), c')"
    "view t c' k = Some (int_to_string (x + 1), Option.bind (view t c k) snd)"
proof -
  obtain r c' where i: "rd_incr R t k 1 c = (r, c')"
    by (cases "rd_incr R t k 1 c")
  have "\<not> isl r"
    using assms(2-4) i unfolding redis_up_def by (metis fst_conv)
  then obtain y where y: "r = Inr y"
    by (cases r) auto
  have "view t c' = add_to k 1 (view t c) \<and> added k 1 (view t c) y"
    using performs_Inr [OF redis_commands(4) [OF assms(1)] i [unfolded y]] .
  then show ?thesis
    using that i y assms(3,4) by (auto simp: add_to_def added_def)
qed

lemma granted:
  assumes "redis_laws R view" "redis_up R view" "counter (view t c) k = Some x" "i64_range (x + 1)" "x < mx"
    and "0 < as_secs ttl" "\<forall>s d. view t c k = Some (s, Some d) \<longrightarrow> t \<le> d"
  shows "fst (redis_acquire_slot R t k mx ttl c) = Inr True"
    and "slot_value (view t (snd (redis_acquire_slot R t k mx ttl c))) k (x + 1) t"
    and "x \<noteq> 0 \<Longrightarrow> view t (snd (redis_acquire_slot R t k mx ttl c)) k = Some (int_to_string (x + 1), Option.bind (view t c k) snd)"
    and "x = 0 \<Longrightarrow> view t (snd (redis_acquire_slot R t k mx ttl c)) k = Some (int_to_string 1, expires t (as_secs ttl))"
proof -
  obtain c' where i: "rd_incr R t k 1 c = (Inr (x + 1), c')"
    "view t c' k = Some (int_to_string (x + 1), Option.bind (view t c k) snd)"
    using counted [OF assms(1-4)] by blast
  obtain r c'' where ex: "rd_expire R t k (as_secs ttl) c' = (r, c'')"
    by (cases "rd_expire R t k (as_secs ttl) c'")
  have "\<not> isl r"
    using assms(2,6) ex unfolding redis_up_def by (metis fst_conv)
  then obtain y where y: "r = Inr y"
    by (cases r) auto
  have c'': "view t c'' k = Some (int_to_string (x + 1), expires t (as_secs ttl))"
    using performs_Inr [OF redis_commands(6) [OF assms(1,6)] ex [unfolded y]] i(2) by simp
  have run: "redis_acquire_slot R t k mx ttl c = (Inr True, if x = 0 then c'' else c')"
    using assms(5) ex i(1) by (simp add: redis_acquire_slot_def Let_def)
  show "fst (redis_acquire_slot R t k mx ttl c) = Inr True"
    by (simp add: run)
  show "x \<noteq> 0 \<Longrightarrow> view t (snd (redis_acquire_slot R t k mx ttl c)) k = Some (int_to_string (x + 1), Option.bind (view t c k) snd)"
    "x = 0 \<Longrightarrow> view t (snd (redis_acquire_slot R t k mx ttl c)) k = Some (int_to_string 1, expires t (as_secs ttl))"
    using i(2) c'' by (simp_all add: run)
  show "slot_value (view t (snd (redis_acquire_slot R t k mx ttl c))) k (x + 1) t"
    using i(2) c'' assms(6,7)
    by (cases "view t c k") (auto simp: run slot_value_def expires_def)
qed

lemma granted_again:
  assumes "redis_laws R view" "redis_up R view" "0 < as_secs ttl" "slot_value (view t c) k x t"
    and "- (2 ^ 63) \<le> x" "mx < 2 ^ 63"
  shows "\<forall>n. x + int n < mx \<longrightarrow>
    fst (redis_acquire_slot R t k mx ttl (((\<lambda>c. snd (redis_acquire_slot R t k mx ttl c)) ^^ n) c)) = Inr True"
proof -
  let ?c = "\<lambda>n. ((\<lambda>c. snd (redis_acquire_slot R t k mx ttl c)) ^^ n) c"
  have cnt: "counter (view t c') k = Some y \<and> (\<forall>s d. view t c' k = Some (s, Some d) \<longrightarrow> t \<le> d)"
    if "slot_value (view t c') k y t" "i64_range y" for c' y
    using that by (auto simp: slot_value_def counter_def)
  have step: "slot_value (view t (?c n)) k (x + int n) t" if "x + int n \<le> mx" for n
    using that
  proof (induction n)
    case (Suc n)
    have "i64_range (x + int n)" "i64_range (x + int n + 1)"
      using Suc(2) assms(5,6) by (auto simp: i64_range_def)
    then show ?case
      using granted(2) [OF assms(1,2) _ _ _ assms(3), of t "?c n" k "x + int n" mx] Suc cnt by (simp add: ac_simps)
  qed (use assms(4) in simp)
  have "fst (redis_acquire_slot R t k mx ttl (?c n)) = Inr True" if "x + int n < mx" for n
  proof -
    have r: "i64_range (x + int n)" "i64_range (x + int n + 1)" "x + int n \<le> mx"
      using that assms(5,6) by (auto simp: i64_range_def)
    then show ?thesis
      using cnt [OF step [OF r(3)] r(1)] by (intro granted(1) [OF assms(1,2) _ r(2) that assms(3)]) simp_all
  qed
  then show ?thesis by blast
qed

text \<open>
  A slot released after its counter expired is counted twice. When the counter of an idle account
  expires while a slot is held, the release leaves it at minus one, and from then on one request more
  than the limit is admitted at the same time.
\<close>

theorem redis_late_release_overcommits:
  assumes "redis_laws R view" "redis_up R view" "view t0 c k = None" "10 ^ 9 \<le> ttl" "0 < mx" "mx < 2 ^ 31"
    and "t0 + as_secs ttl * 10 ^ 9 < t1" "t1 \<le> t2"
    and "redis_acquire_slot R t0 k mx ttl c = (r, c1)"
  shows "r = Inr True \<and>
    (\<forall>n. int n \<le> mx \<longrightarrow> fst (redis_acquire_slot R t2 k mx ttl
       (((\<lambda>c. snd (redis_acquire_slot R t2 k mx ttl c)) ^^ n) (redis_release_slot R t1 k c1))) = Inr True)"
proof -
  have secs: "0 < as_secs ttl"
    using assms(4) by (simp add: as_secs_def pos_imp_zdiv_pos_iff)
  have zero: "counter (view t0 c) k = Some 0"
    by (simp add: counter_def assms(3))
  have "r = Inr True" "view t0 c1 k = Some (int_to_string 1, expires t0 (as_secs ttl))"
    using granted [OF assms(1,2) zero _ assms(5) secs] assms(3,9) by (simp_all add: i64_range_def)
  moreover have "0 < as_secs ttl * 10 ^ 9"
    using secs by simp
  then have "t0 \<le> t1"
    using assms(7) by linarith
  ultimately have gone: "view t1 c1 k = None"
    using redis_time [OF assms(1), of t0 t1 c1] assms(7) by (simp add: expired_view_def expires_def)
  obtain x c2 where d: "rd_decr R t1 k 1 c1 = (x, c2)"
    by (cases "rd_decr R t1 k 1 c1")
  have zero1: "counter (view t1 c1) k = Some 0" "i64_range (0 - 1)"
    by (simp_all add: counter_def gone i64_range_def)
  then have "\<not> isl x"
    using assms(2) d unfolding redis_up_def by (metis fst_conv)
  then obtain y where y: "x = Inr y"
    by (cases x) auto
  have "view t1 c2 k = Some (int_to_string (- 1), None)"
    using performs_Inr [OF redis_commands(5) [OF assms(1)] d [unfolded y]] zero1 gone by (simp add: add_to_def)
  then have "view t2 (redis_release_slot R t1 k c1) k = Some (int_to_string (- 1), None)"
    using redis_time [OF assms(1,8), of c2] d by (simp add: redis_release_slot_def expired_view_def)
  then have "slot_value (view t2 (redis_release_slot R t1 k c1)) k (- 1) t2"
    by (simp add: slot_value_def)
  from granted_again [OF assms(1,2) secs this, of mx] assms(6) \<open>r = Inr True\<close> show ?thesis
    by auto
qed

section \<open>A server\<close>

text \<open>A server that keeps the data as a function and never fails.\<close>

definition map_redis :: "redis_view redis" where
  "map_redis =
     \<lparr>rd_get = (\<lambda>t k m. (Inr (map_option fst (expired_view t m k)), m)),
      rd_set_ex = (\<lambda>t k v n m. if 0 < n then (Inr (), (expired_view t m)(k \<mapsto> (v, expires t n))) else (Inl ''ERR invalid expire time'', m)),
      rd_del = (\<lambda>t k m. (Inr (), (expired_view t m)(k := None))),
      rd_incr = (\<lambda>t k n m. case counter (expired_view t m) k of
         Some x \<Rightarrow> if i64_range (x + n) then (Inr (x + n), add_to k n (expired_view t m)) else (Inl ''ERR overflow'', m)
       | None \<Rightarrow> (Inl ''ERR not an integer'', m)),
      rd_decr = (\<lambda>t k n m. case counter (expired_view t m) k of
         Some x \<Rightarrow> if i64_range (x - n) then (Inr (x - n), add_to k (- n) (expired_view t m)) else (Inl ''ERR overflow'', m)
       | None \<Rightarrow> (Inl ''ERR not an integer'', m)),
      rd_expire = (\<lambda>t k n m. (Inr (), (expired_view t m)(k := map_option (\<lambda>(v, _). (v, expires t n)) (expired_view t m k)))),
      rd_set_nx_ex = (\<lambda>t k v n m. (Inr (if expired_view t m k = None then Some ''OK'' else None), set_new k (v, expires t n) (expired_view t m))),
      rd_eval = (\<lambda>t f m. (Inr (), f (expired_view t m)))\<rparr>"

lemma expired_twice [simp]: "t \<le> t' \<Longrightarrow> expired_view t' (expired_view t m) = expired_view t' m"
  by (rule ext) (auto simp: expired_view_def split: option.splits prod.splits)


lemma expired_upd [simp]:
  "expired_view t ((expired_view t m)(k \<mapsto> (v, None))) = (expired_view t m)(k \<mapsto> (v, None))"
  "t \<le> e \<Longrightarrow> expired_view t ((expired_view t m)(k \<mapsto> (v, Some e))) = (expired_view t m)(k \<mapsto> (v, Some e))"
  "expired_view t ((expired_view t m)(k := None)) = (expired_view t m)(k := None)"
  by (rule ext, auto simp: expired_view_def split: option.splits prod.splits)+

lemma alive: "expired_view t m k = Some (v, Some e) \<Longrightarrow> t \<le> e"
  by (auto simp: expired_view_def split: option.splits prod.splits if_splits)

lemma expired_add: "expired_view t (add_to k n (expired_view t m)) = add_to k n (expired_view t m)"
proof (cases "expired_view t m k")
  case (Some p)
  obtain v e where "p = (v, e)" by (cases p)
  then show ?thesis
    using Some alive [of t m k v] by (cases e) (auto simp: add_to_def split: option.splits)
qed (auto simp: add_to_def split: option.splits)

lemma map_redis_laws: "redis_laws map_redis expired_view"
proof -
  have exp: "0 < n \<Longrightarrow> expires t n = Some (t + n * 10 ^ 9) \<and> t \<le> t + n * 10 ^ 9" for t n :: int
    by (simp add: expires_def)
  show ?thesis
    unfolding redis_laws_def
  proof (intro conjI allI impI)
    fix t n :: int and k c assume n: "0 < n"
    show "performs (expired_view t) (rd_expire map_redis t k n)
        (\<lambda>m. m(k := map_option (\<lambda>(v, _). (v, expires t n)) (m k))) (\<lambda>m r. True) c"
      using exp [OF n, of t] by (cases "expired_view t c k") (auto simp: map_redis_def performs_def)
  next
    fix t n :: int and k v c assume n: "0 < n"
    show "performs (expired_view t) (rd_set_nx_ex map_redis t k v n) (set_new k (v, expires t n))
        (\<lambda>m r. (r \<noteq> None) = (m k = None)) c"
      using exp [OF n, of t] by (auto simp: map_redis_def performs_def set_new_def)
  next
    fix t k u c
    show "performs (expired_view t) (rd_eval map_redis t (release_script k u)) (release_script k u) (\<lambda>m r. True) c"
      by (auto simp: map_redis_def performs_def release_script_def)
  next
    fix t k n c
    show "performs (expired_view t) (rd_incr map_redis t k n) (add_to k n) (added k n) c"
      "performs (expired_view t) (rd_decr map_redis t k n) (add_to k (- n)) (added k (- n)) c"
      by (auto simp: map_redis_def performs_def expired_add added_def split: option.splits)
  qed (use exp in \<open>auto simp: map_redis_def performs_def\<close>)
qed

lemma map_redis_up: "redis_up map_redis expired_view"
  by (auto simp: redis_up_def map_redis_def)

theorem redis_session_read_back_witness:
  "map_prod id (\<lambda>_. ()) (redis_get_session_account_id map_redis 60000000000 ''h''
      (snd (redis_set_session_account_id map_redis 0 ''h'' 7 60000000000 Map.empty))) = (Inr (Some 7), ())"
proof -
  obtain c' where c': "redis_set_session_account_id map_redis 0 ''h'' 7 60000000000 Map.empty = (Inr (), c')"
    by (simp add: redis_set_session_account_id_def map_redis_def as_secs_def)
  obtain r c'' where g: "redis_get_session_account_id map_redis 60000000000 ''h'' c' = (r, c'')"
    by (cases "redis_get_session_account_id map_redis 60000000000 ''h'' c'")
  have "isl r = False"
    using g c' by (auto simp: redis_get_session_account_id_def redis_set_session_account_id_def map_redis_def as_secs_def
        expires_def expired_view_def i64_range_def split: option.splits)
  then obtain x where x: "r = Inr x"
    by (cases r) auto
  show ?thesis
    using redis_session_read_back [OF map_redis_laws _ _ _ c' g [unfolded x]] by (simp add: c' g x as_secs_def i64_range_def)
qed

theorem redis_lock_excludes_witness:
  "fst (co_acquire_lock (redis_cache map_redis) 9 ''l'' ''you'' 1
      (cache_run (redis_cache map_redis) [AcquireLock 3 ''l'' ''he'' 1, ReleaseLock 4 ''l'' ''he'']
        (snd (co_acquire_lock (redis_cache map_redis) 0 ''l'' ''me'' 5 Map.empty)))) \<noteq> Inr True"
proof -
  obtain c' where c': "co_acquire_lock (redis_cache map_redis) 0 ''l'' ''me'' 5 Map.empty = (Inr True, c')"
    by (simp add: redis_cache_def redis_acquire_lock_def map_redis_def expired_view_def)
  show ?thesis
    using redis_lock_excludes [OF map_redis_laws c', of "[AcquireLock 3 ''l'' ''he'' 1, ReleaseLock 4 ''l'' ''he'']" 9 "''you''" 1]
    by (simp add: c' disturbs_lock_def as_secs_def)
qed

theorem redis_late_release_overcommits_witness:
  "fst (redis_acquire_slot map_redis 400000000000 ''s'' 1 300000000000
     (snd (redis_acquire_slot map_redis 400000000000 ''s'' 1 300000000000
       (redis_release_slot map_redis 301000000000 ''s''
         (snd (redis_acquire_slot map_redis 0 ''s'' 1 300000000000 Map.empty)))))) = Inr True"
proof -
  obtain r c1 where a: "redis_acquire_slot map_redis 0 ''s'' 1 300000000000 Map.empty = (r, c1)"
    by (cases "redis_acquire_slot map_redis 0 ''s'' 1 300000000000 Map.empty")
  have "expired_view 0 Map.empty ''s'' = None"
    by (simp add: expired_view_def)
  from redis_late_release_overcommits [OF map_redis_laws map_redis_up this _ _ _ _ _ a, of 301000000000 400000000000]
  have "\<forall>n. int n \<le> 1 \<longrightarrow> fst (redis_acquire_slot map_redis 400000000000 ''s'' 1 300000000000
       (((\<lambda>c. snd (redis_acquire_slot map_redis 400000000000 ''s'' 1 300000000000 c)) ^^ n) (redis_release_slot map_redis 301000000000 ''s'' c1))) = Inr True"
    by (simp add: as_secs_def)
  from this [rule_format, of 1] show ?thesis
    by (simp add: a)
qed

end
