(* ===== verification/Gateway.thy ===== *)
theory Gateway
  imports Account_Service Usage_Service Token_Store
begin

text \<open>
  The path of a request (\<open>src/service/gateway.rs\<close>): from the client's request to the selected
  account, its concurrency slot and token, the upstream's answer, what the service learns from it and
  the response the client gets.

  What the source does to the request on its way to the upstream (the rewriter of headers and body,
  the answers to telemetry paths, the filter of response headers) is the parameter \<open>rewriting\<close>, and
  the telemetry sessions and the audit are left out; none of the properties depends on them. The
  upstream is a function of the outgoing request. Clocks, random draws and database errors are in
  \<open>gw_env\<close>: \<open>ge_inst\<close> has the readings of the monotonic clock in the order they are made.
\<close>

section \<open>Headers\<close>

text \<open>A header map with its repetitions, in its order, names in lower case.\<close>

type_synonym headers = "(string \<times> string) list"

definition to_str :: "string \<Rightarrow> string option" where
  "to_str v =
     (if list_all (\<lambda>c. 32 \<le> (of_char c :: nat) \<and> (of_char c :: nat) \<le> 126 \<or> (of_char c :: nat) = 9) v
      then Some v else None)"

definition text_headers :: "headers \<Rightarrow> header_map" where
  "text_headers hs = (\<lambda>name. Option.bind (map_of hs name) to_str)"

definition extract_headers :: "headers \<Rightarrow> (string, string) hash_map" where
  "extract_headers hs =
     fold (\<lambda>(k, v) m. case to_str v of Some s \<Rightarrow> AList.update k s m | None \<Rightarrow> m) hs []"

definition upstream_request_id :: "headers \<Rightarrow> string option" where
  "upstream_request_id hs =
     (case Option.bind (case map_of hs ''request-id'' of Some v \<Rightarrow> Some v | None \<Rightarrow> map_of hs ''x-request-id'') to_str of
        Some v \<Rightarrow> if trim v \<noteq> [] then Some (trim v) else None
      | None \<Rightarrow> None)"

definition usage_response_is_stream :: "headers \<Rightarrow> bool \<Rightarrow> bool" where
  "usage_response_is_stream hs request_is_stream =
     (case Option.bind (map_of hs ''content-type'') to_str of
        Some ct \<Rightarrow> eq_ignore_ascii_case (trim (hd (split_by (\<lambda>c. c = CHR '';'') ct))) ''text/event-stream''
      | None \<Rightarrow> request_is_stream)"

definition usage_content_encoding_of :: "headers \<Rightarrow> usage_content_encoding" where
  "usage_content_encoding_of hs =
     (case filter (\<lambda>(k, v). k = ''content-encoding'') hs of
        [] \<Rightarrow> CE_Identity
      | [(k, v)] \<Rightarrow> (case to_str v of Some s \<Rightarrow> encoding_parse (Some s) | None \<Rightarrow> CE_Unsupported)
      | _ \<Rightarrow> CE_Unsupported)"

section \<open>Requests and responses\<close>

record gw_request =
  gq_method :: string
  gq_path :: string
  gq_query :: "string option"
  gq_headers :: headers
  gq_body :: "string + string"

text \<open>
  A response body: a value, a text, nothing, or the upstream's stream with the usage attempt that
  observes it and the slot it holds.
\<close>

datatype gw_body =
    GB_Json json
  | GB_Text string
  | GB_Empty
  | GB_Stream "usage_attempt option" slot_holder

record gw_response =
  gr_status :: nat
  gr_headers :: headers
  gr_body :: gw_body

record outgoing =
  og_method :: string
  og_proxy :: string
  og_url :: string
  og_headers :: headers
  og_body :: string

datatype upstream_answer = UA_Failed bool | UA_Response nat headers

record rewriting =
  rw_body :: "string \<Rightarrow> string \<Rightarrow> account \<Rightarrow> client_type \<Rightarrow> string"
  rw_headers :: "(string, string) hash_map \<Rightarrow> account \<Rightarrow> client_type \<Rightarrow> string \<Rightarrow> json \<Rightarrow> (string, string) hash_map"
  rw_intercepts :: "string \<Rightarrow> json option"
  rw_hides :: "string \<Rightarrow> bool"

record gw_env =
  ge_now :: int
  ge_inst :: "nat \<Rightarrow> int"
  ge_uuid :: string
  ge_draw :: "nat \<Rightarrow> nat"
  ge_get_fault :: "sqlx_error option"
  ge_list_fault :: "sqlx_error option"
  ge_disable_fault :: "sqlx_error option"
  ge_oauth :: oauth_env
  ge_sha256 :: "string \<Rightarrow> nat list"
  ge_upstream :: "outgoing \<Rightarrow> upstream_answer"

text \<open>
  The service: \<open>gw_releases\<close>, \<open>gw_flushes\<close> and \<open>gw_drains\<close> are the tasks it spawned, in order (the
  keys to release, the accounts to flush, the refused responses still read for their usage).
\<close>

record 'c gateway =
  gw_svc :: "'c account_service"
  gw_releases :: "string list"
  gw_flushes :: "int list"
  gw_drains :: "usage_attempt list"

definition drop_slot :: "slot_holder \<Rightarrow> 'c gateway \<Rightarrow> 'c gateway" where
  "drop_slot h g =
     (case slot_holder_drop True h of
        Some key \<Rightarrow> g\<lparr>gw_releases := gw_releases g @ [key]\<rparr>
      | None \<Rightarrow> g)"

definition drop_body :: "gw_body \<Rightarrow> 'c gateway \<Rightarrow> 'c gateway" where
  "drop_body b g = (case b of GB_Stream a h \<Rightarrow> drop_slot h g | _ \<Rightarrow> g)"

definition on_svc :: "('c account_service \<Rightarrow> 'c account_service) \<Rightarrow> 'c gateway \<Rightarrow> 'c gateway" where
  "on_svc f g = g\<lparr>gw_svc := f (gw_svc g)\<rparr>"

section \<open>Small decisions\<close>

datatype message_endpoint = ME_Inference | ME_CountTokens | ME_Other

definition classify_message_endpoint :: "string \<Rightarrow> message_endpoint" where
  "classify_message_endpoint path =
     (if path = ''/v1/messages'' then ME_Inference
      else if path = ''/v1/messages/count_tokens'' then ME_CountTokens else ME_Other)"

definition detect_client_type :: "string \<Rightarrow> json \<Rightarrow> client_type" where
  "detect_client_type user_agent body =
     (let ua = to_ascii_lowercase user_agent
      in if prefix ''claude-code/'' ua \<or> prefix ''claude-cli/'' ua then ClaudeCode
         else case Option.bind (jget body ''metadata'') as_object of
                Some metadata \<Rightarrow> if map_of metadata ''user_id'' \<noteq> None then ClaudeCode else API
              | None \<Rightarrow> API)"

definition clean_session_id_from_body :: "json \<Rightarrow> json" where
  "clean_session_id_from_body body =
     (case jget body ''metadata'' of
        Some (JObj m) \<Rightarrow> jinsert ''metadata'' (jremove ''_session_id'' (JObj m)) body
      | _ \<Rightarrow> body)"

definition UPSTREAM_BASE :: string where "UPSTREAM_BASE = ''https://api.anthropic.com''"

definition target_url :: "string \<Rightarrow> string \<Rightarrow> string" where
  "target_url path query =
     (if query \<noteq> [] then
        UPSTREAM_BASE @ path @ ''?'' @ (if str_contains ''beta=true'' query then query else query @ ''&beta=true'')
      else UPSTREAM_BASE @ path @ ''?beta=true'')"

definition outgoing_method :: "string \<Rightarrow> string" where
  "outgoing_method m = (if m \<in> {''GET'', ''POST'', ''PUT'', ''DELETE'', ''PATCH''} then m else ''POST'')"

definition body_model :: "json \<Rightarrow> string option" where
  "body_model v = Option.bind (jget v ''model'') as_str"

definition body_stream :: "json \<Rightarrow> bool" where
  "body_stream v = (case Option.bind (jget v ''stream'') as_bool of Some b \<Rightarrow> b | None \<Rightarrow> False)"

definition parse_body :: "serde_lib \<Rightarrow> string \<Rightarrow> json" where
  "parse_body S bytes =
     (if bytes = [] then JObj [] else case sj_from_str S bytes of Some v \<Rightarrow> v | None \<Rightarrow> JObj [])"

section \<open>Wrapped refusals\<close>

definition generic_429_body :: string where
  "generic_429_body = ''{\"type\":\"error\",\"error\":{\"type\":\"rate_limit_error\",'' @
     ''\"message\":\"Rate limit reached, please retry shortly.\"}}''"

definition generic_5xx_body :: string where
  "generic_5xx_body = ''{\"type\":\"error\",\"error\":{\"type\":\"api_error\",'' @
     ''\"message\":\"Upstream error, please retry shortly.\"}}''"

definition stale_body_headers :: "string set" where
  "stale_body_headers = {''content-length'', ''content-type'', ''content-encoding''}"

definition tracing_headers :: "string set" where
  "tracing_headers = {''x-request-id'', ''request-id'', ''cf-ray'', ''server'', ''via''}"

definition wrap_429_response :: "gw_response \<Rightarrow> 'c gateway \<Rightarrow> gw_response \<times> 'c gateway" where
  "wrap_429_response resp g =
     (resp\<lparr>gr_headers := filter (\<lambda>(k, v). k \<notin> stale_body_headers) (gr_headers resp) @ [(''content-type'', ''application/json'')],
           gr_body := GB_Text generic_429_body\<rparr>,
      drop_body (gr_body resp) g)"

definition wrap_5xx_response :: "gw_response \<Rightarrow> 'c gateway \<Rightarrow> gw_response \<times> 'c gateway" where
  "wrap_5xx_response resp g =
     (resp\<lparr>gr_headers := filter (\<lambda>(k, v). to_ascii_lowercase k \<notin> stale_body_headers \<and> to_ascii_lowercase k \<notin> tracing_headers)
             (gr_headers resp) @ [(''content-type'', ''application/json'')],
           gr_body := GB_Text generic_5xx_body\<rparr>,
      drop_body (gr_body resp) g)"

section \<open>Forwarding\<close>

definition auth_failed_reason :: string where
  "auth_failed_reason = ''403 '' @
     [CHR 0xE8, CHR 0xAE, CHR 0xA4, CHR 0xE8, CHR 0xAF, CHR 0x81, CHR 0xE5, CHR 0xA4, CHR 0xB1,
      CHR 0xE8, CHR 0xB4, CHR 0xA5]"

text \<open>What \<open>forward_request\<close> sends: the method, the URL, the headers with the host, the body.\<close>

definition upstream_request ::
  "gw_request \<Rightarrow> (string, string) hash_map \<Rightarrow> string \<Rightarrow> account \<Rightarrow> outgoing" where
  "upstream_request req hs body account =
     \<lparr>og_method = outgoing_method (gq_method req), og_proxy = acc_proxy_url account,
      og_url = target_url (gq_path req) (case gq_query req of Some q \<Rightarrow> q | None \<Rightarrow> []),
      og_headers = hs @ [(''Host'', ''api.anthropic.com'')], og_body = body\<rparr>"

text \<open>The attempt after the response headers are known.\<close>

definition attempt_answered :: "nat \<Rightarrow> headers \<Rightarrow> usage_attempt \<Rightarrow> usage_attempt" where
  "attempt_answered status hs a =
     complete_response status (upstream_request_id hs) (usage_content_encoding_of hs)
       (a\<lparr>ua_is_stream := usage_response_is_stream hs (ua_is_stream a)\<rparr>)"

definition disable_if_403 :: "gw_env \<Rightarrow> nat \<Rightarrow> account \<Rightarrow> 'c gateway \<Rightarrow> 'c gateway" where
  "disable_if_403 E status account g =
     (if status = 403
      then on_svc (\<lambda>svc. svc\<lparr>svc_store := snd (disable_account (ge_now E) (ge_disable_fault E) (acc_id account)
             AS_Disabled auth_failed_reason None (svc_store svc))\<rparr>) g
      else g)"

definition wrapped_error :: "nat \<Rightarrow> bool" where
  "wrapped_error status \<longleftrightarrow> status = 429 \<or> 500 \<le> status \<and> status \<le> 599"

text \<open>From the absorbed headers to the response: an attempt of a wrapped refusal is drained by a task.\<close>

definition forward_body ::
  "nat \<Rightarrow> usage_attempt option \<Rightarrow> slot_holder \<Rightarrow> 'c gateway \<Rightarrow> gw_body \<times> 'c gateway" where
  "forward_body status attempt slot g =
     (case attempt of
        Some a \<Rightarrow>
          if wrapped_error status
          then (GB_Empty, (drop_slot slot g)\<lparr>gw_drains := gw_drains g @ [a]\<rparr>)
          else (GB_Stream (Some a) slot, g)
      | None \<Rightarrow> (GB_Stream None slot, g))"

definition forward_request ::
  "rewriting \<Rightarrow> lib \<Rightarrow> gw_env \<Rightarrow> gw_request \<Rightarrow> (string, string) hash_map \<Rightarrow> string \<Rightarrow> account \<Rightarrow> slot_holder \<Rightarrow> model_class \<Rightarrow> usage_attempt option
     \<Rightarrow> perf_cell \<Rightarrow> 'c gateway \<Rightarrow> (app_error + gw_response) outcome \<times> perf_cell \<times> 'c gateway" where
  "forward_request W L E req hs_out body_out account slot mc attempt cell g =
     (let cell = map_option (handle_phase ''waiting_upstream'' (ge_inst E 7)) cell
      in case ge_upstream E (upstream_request req hs_out body_out account) of
           UA_Failed timeout \<Rightarrow>
             (Done (Inl (BadGateway ''upstream request failed'')),
              map_option (handle_failure (if timeout then PO_SendTimeout else PO_SendError) (ge_inst E 8)) cell,
              drop_slot slot g)
         | UA_Response status hs \<Rightarrow>
             (let is_stream = usage_response_is_stream hs (case attempt of Some a \<Rightarrow> ua_is_stream a | None \<Rightarrow> False);
                  cell = map_option (handle_stage ''upstream_headers'' (elapsed (ge_inst E 8) (ge_inst E 7)) (ge_inst E 8)) cell;
                  cell = map_option (handle_upstream status (upstream_request_id hs) is_stream (ge_inst E 8)) cell;
                  attempt = map_option (attempt_answered status hs) attempt;
                  g = disable_if_403 E status account g;
                  (flush, ls) = absorb_headers L (ge_now E) (ge_inst E 9) (svc_limit (gw_svc g)) (acc_id account) mc status (text_headers hs);
                  g = on_svc (\<lambda>svc. svc\<lparr>svc_limit := ls\<rparr>) g
              in case flush of
                   Panic \<Rightarrow> (Panic, cell, drop_slot slot g)
                 | Done should_flush \<Rightarrow>
                     (let g = (if should_flush then g\<lparr>gw_flushes := gw_flushes g @ [acc_id account]\<rparr> else g);
                          (body, g) = forward_body status attempt slot g
                      in (Done (Inr \<lparr>gr_status = status, gr_headers = filter (\<lambda>(k, v). \<not> rw_hides W k) hs, gr_body = body\<rparr>),
                          cell, g))))"

section \<open>The request\<close>

definition stage_mark :: "gw_env \<Rightarrow> string \<Rightarrow> nat \<Rightarrow> perf_cell \<Rightarrow> perf_cell" where
  "stage_mark E name i cell =
     map_option (handle_stage name (elapsed (ge_inst E i) (ge_inst E (i - 1))) (ge_inst E i)) cell"

definition usage_attempt_for ::
  "gw_env \<Rightarrow> string \<Rightarrow> account \<Rightarrow> api_token option \<Rightarrow> string \<Rightarrow> bool \<Rightarrow> usage_attempt option" where
  "usage_attempt_for E path account token final_model is_stream =
     (if classify_message_endpoint path = ME_Inference
      then map_option (\<lambda>t. (attempt_begin (ge_uuid E) (ge_now E) (ge_inst E 6) (acc_id account) (tok_id t) final_model is_stream)
             \<lparr>ua_telemetry_enabled := acc_auto_telemetry account\<rparr>) token
      else None)"

text \<open>With an account and its slot: rewrite, resolve the token, forward, wrap.\<close>

definition rewritten_request ::
  "rewriting \<Rightarrow> serde_lib \<Rightarrow> gw_request \<Rightarrow> string \<Rightarrow> json \<Rightarrow> client_type \<Rightarrow> account
     \<Rightarrow> (string, string) hash_map \<times> string \<times> string \<times> bool" where
  "rewritten_request W S req bytes body_map ct account =
     (let model_id = (case body_model body_map of Some m \<Rightarrow> m | None \<Rightarrow> []);
          rewritten = rw_body W bytes (gq_path req) account ct;
          rewritten_map = (case sj_from_str S rewritten of Some v \<Rightarrow> v | None \<Rightarrow> JObj []);
          hs = rw_headers W (extract_headers (gq_headers req)) account ct model_id rewritten_map;
          cleaned = (if ct = API then clean_session_id_from_body rewritten_map else rewritten_map);
          final_body = (if ct = API then sj_to_string S cleaned else rewritten);
          final_model = (case body_model cleaned of Some m \<Rightarrow> m | None \<Rightarrow> model_id)
      in (hs, final_body, final_model, body_stream cleaned))"

definition wrap_refusal :: "gw_response \<Rightarrow> 'c gateway \<Rightarrow> gw_response \<times> 'c gateway" where
  "wrap_refusal resp g =
     (if 500 \<le> gr_status resp \<and> gr_status resp \<le> 599 then wrap_5xx_response resp g
      else if gr_status resp \<noteq> 429 then (resp, g)
      else wrap_429_response resp g)"

definition with_slot ::
  "rewriting \<Rightarrow> serde_lib \<Rightarrow> lib \<Rightarrow> 'c cache_ops \<Rightarrow> gw_env \<Rightarrow> gw_request \<Rightarrow> string \<Rightarrow> json \<Rightarrow> client_type \<Rightarrow> model_class
     \<Rightarrow> api_token option \<Rightarrow> account \<Rightarrow> perf_cell \<Rightarrow> 'c gateway
     \<Rightarrow> (app_error + gw_response) outcome \<times> perf_cell \<times> 'c gateway" where
  "with_slot W S L ops E req bytes body_map ct mc token account cell g =
     (let slot = slot_holder_for (acc_id account);
          (hs, final_body, final_model, is_stream) = rewritten_request W S req bytes body_map ct account;
          cell = stage_mark E ''rewrite'' 5 cell;
          (resolved, svc) = resolve_upstream_token_with S ops (ge_oauth E) account (gw_svc g);
          g = g\<lparr>gw_svc := svc\<rparr>
      in case resolved of
           Inl e \<Rightarrow> (Done (Inl e), cell, drop_slot slot g)
         | Inr upstream_token \<Rightarrow>
             (let attempt = usage_attempt_for E (gq_path req) account token final_model is_stream;
                  cell = stage_mark E ''resolve_token'' 6 cell;
                  (r, cell, g) = forward_request W L E req (AList.update ''authorization'' (''Bearer '' @ upstream_token) hs)
                      final_body account slot mc attempt cell g
              in case r of
                   Panic \<Rightarrow> (Panic, cell, g)
                 | Done (Inl e) \<Rightarrow> (Done (Inl e), cell, g)
                 | Done (Inr resp) \<Rightarrow>
                     (let (resp, g) = wrap_refusal resp g
                      in (Done (Inr resp), map_option (handle_stage ''forward_done'' (elapsed (ge_inst E 10) (ge_inst E 6)) (ge_inst E 10)) cell, g))))"

definition slot_unavailable :: app_error where
  "slot_unavailable = TooManyRequests ''concurrency slot unavailable''"

text \<open>With an account: telemetry paths are answered at once, anything else takes a slot.\<close>

definition with_account ::
  "rewriting \<Rightarrow> serde_lib \<Rightarrow> lib \<Rightarrow> 'c cache_ops \<Rightarrow> gw_env \<Rightarrow> gw_request \<Rightarrow> string \<Rightarrow> json \<Rightarrow> client_type \<Rightarrow> model_class
     \<Rightarrow> api_token option \<Rightarrow> account \<Rightarrow> perf_cell \<Rightarrow> 'c gateway
     \<Rightarrow> (app_error + gw_response) outcome \<times> perf_cell \<times> 'c gateway" where
  "with_account W S L ops E req bytes body_map ct mc token account cell g =
     (case (if acc_auto_telemetry account then rw_intercepts W (gq_path req) else None) of
        Some v \<Rightarrow>
          (Done (Inr \<lparr>gr_status = 200, gr_headers = [(''content-type'', ''application/json'')], gr_body = GB_Json v\<rparr>), cell, g)
      | None \<Rightarrow>
          (let (acquired, svc) = svc_acquire_slot ops (ge_inst E 3) (acc_id account) (acc_concurrency account) (gw_svc g);
               g = g\<lparr>gw_svc := svc\<rparr>
           in if acquired = Inr True
              then with_slot W S L ops E req bytes body_map ct mc token account (stage_mark E ''slot_acquire'' 4 cell) g
              else (Done (Inl slot_unavailable), cell, g)))"

text \<open>Selecting the account of a request, from its session, its token's lists and its model.\<close>

definition request_user_agent :: "gw_request \<Rightarrow> string" where
  "request_user_agent req =
     (let hs = extract_headers (gq_headers req)
      in case (case map_of hs ''User-Agent'' of Some v \<Rightarrow> Some v | None \<Rightarrow> map_of hs ''user-agent'') of
           Some v \<Rightarrow> v | None \<Rightarrow> [])"

definition request_model_class :: "json \<Rightarrow> model_class" where
  "request_model_class body_map = from_model_id (case body_model body_map of Some m \<Rightarrow> m | None \<Rightarrow> [])"

definition route_request ::
  "serde_lib \<Rightarrow> lib \<Rightarrow> 'c cache_ops \<Rightarrow> gw_env \<Rightarrow> string \<Rightarrow> json \<Rightarrow> client_type \<Rightarrow> api_token option \<Rightarrow> 'c account_service
     \<Rightarrow> (app_error + account) outcome \<times> 'c account_service" where
  "route_request S L ops E ua body_map ct token svc =
     (let session_hash = generate_session_hash S (ge_sha256 E) ua body_map ct;
          (allowed_ids, blocked_ids) =
            (case token of Some t \<Rightarrow> (allowed_account_ids t, blocked_account_ids t) | None \<Rightarrow> ([], []))
      in select_account S L ops (ge_now E) (ge_inst E 2) (ge_get_fault E) (ge_list_fault E) (ge_draw E)
           session_hash blocked_ids allowed_ids (request_model_class body_map) svc)"

definition handle_request_inner ::
  "rewriting \<Rightarrow> serde_lib \<Rightarrow> lib \<Rightarrow> 'c cache_ops \<Rightarrow> gw_env \<Rightarrow> gw_request \<Rightarrow> api_token option \<Rightarrow> perf_cell \<Rightarrow> 'c gateway
     \<Rightarrow> (app_error + gw_response) outcome \<times> perf_cell \<times> 'c gateway" where
  "handle_request_inner W S L ops E req token cell g =
     (case gq_body req of
        Inl msg \<Rightarrow> (Done (Inl (BadRequest (''failed to read body: '' @ msg))), cell, g)
      | Inr bytes \<Rightarrow>
          (let ua = request_user_agent req;
               cell = stage_mark E ''body_read'' 1 cell;
               body_map = parse_body S bytes;
               cell = map_option (Performance.handle_request (body_model body_map) (body_stream body_map) (ge_inst E 1)) cell;
               ct = detect_client_type ua body_map;
               cell = stage_mark E ''session_hash'' 2 cell;
               (selected, svc) = route_request S L ops E ua body_map ct token (gw_svc g);
               g = g\<lparr>gw_svc := svc\<rparr>
           in case selected of
                Panic \<Rightarrow> (Panic, cell, g)
              | Done (Inl e) \<Rightarrow>
                  (Done (Inl (ServiceUnavailable (''no available account: '' @ app_error_to_string e))), cell, g)
              | Done (Inr account) \<Rightarrow>
                  with_account W S L ops E req bytes body_map ct (request_model_class body_map) token account
                    (stage_mark E ''routing'' 3 (map_option (handle_account (acc_id account) (ge_inst E 3)) cell)) g))"

definition error_response :: "app_error \<Rightarrow> gw_response" where
  "error_response e =
     (let (status, v) = app_error_into_response e
      in \<lparr>gr_status = status, gr_headers = [(''content-type'', ''application/json'')], gr_body = GB_Json v\<rparr>)"

definition gateway_handle_request ::
  "rewriting \<Rightarrow> serde_lib \<Rightarrow> lib \<Rightarrow> 'c cache_ops \<Rightarrow> gw_env \<Rightarrow> gw_request \<Rightarrow> api_token option \<Rightarrow> perf_cell \<Rightarrow> 'c gateway
     \<Rightarrow> gw_response outcome \<times> perf_cell \<times> 'c gateway" where
  "gateway_handle_request W S L ops E req token cell g =
     (case handle_request_inner W S L ops E req token cell g of
        (Panic, cell, g) \<Rightarrow> (Panic, cell, g)
      | (Done (Inl e), cell, g) \<Rightarrow> (Done (error_response e), cell, g)
      | (Done (Inr resp), cell, g) \<Rightarrow> (Done resp, cell, g))"

text \<open>\<open>gateway_authenticated\<close> of the router: the token first.\<close>

fun gateway_authenticated ::
  "rewriting \<Rightarrow> serde_lib \<Rightarrow> lib \<Rightarrow> 'c cache_ops \<Rightarrow> gw_env \<Rightarrow> sqlx_error option \<Rightarrow> int \<times> int \<Rightarrow> gw_request \<Rightarrow> token_store \<Rightarrow> perf_cell
     \<Rightarrow> 'c gateway \<Rightarrow> gw_response outcome \<times> perf_cell \<times> 'c gateway" where
  "gateway_authenticated W S L ops E token_fault (auth_start, auth_end) req tokens cell g =
     (let cell = map_option (handle_stage ''auth'' (elapsed auth_end auth_start) auth_end) cell
      in case authenticate token_fault (text_headers (gq_headers req)) tokens of
           Inl (status, msg) \<Rightarrow>
             (Done \<lparr>gr_status = status, gr_headers = [(''content-type'', ''application/json'')],
                    gr_body = GB_Json (JObj [(''error'', JStr msg)])\<rparr>, cell, g)
         | Inr t \<Rightarrow>
             gateway_handle_request W S L ops E req (Some t) (map_option (handle_token (tok_id t) auth_end) cell) g)"

text \<open>
  \<open>gateway_fallback\<close>: a message request is given a guard first, and its response passes through it.
  The request's cell belongs to this handler until the response is built. \<open>is_end_stream\<close> holds of
  the empty body only. A panic unwinds through the guard, which completes the request as aborted.
\<close>

record fallback_env =
  fe_uuid :: string
  fe_begin_now :: int
  fe_begin_inst :: int
  fe_token_fault :: "sqlx_error option"
  fe_auth_clock :: "int \<times> int"
  fe_end_now :: int
  fe_end_inst :: int
  fe_sent :: bool

definition body_ended :: "gw_body \<Rightarrow> bool" where
  "body_ended b = (case b of GB_Empty \<Rightarrow> True | _ \<Rightarrow> False)"

definition gateway_fallback ::
  "rewriting \<Rightarrow> serde_lib \<Rightarrow> lib \<Rightarrow> 'c cache_ops \<Rightarrow> gw_env \<Rightarrow> fallback_env \<Rightarrow> gw_request \<Rightarrow> token_store
     \<Rightarrow> performance_service \<Rightarrow> 'c gateway
     \<Rightarrow> gw_response outcome \<times> performance_guard option \<times> performance_service \<times> 'c gateway" where
  "gateway_fallback W S L ops E F req tokens psvc g =
     (let (guard, psvc) =
            (if classify_message_endpoint (gq_path req) = ME_Inference
             then performance_begin (fe_uuid F) (fe_begin_now F) (fe_begin_inst F) psvc else (None, psvc));
          cell = map_option (\<lambda>h. pf_cells psvc ! pg_handle h) guard;
          (r, cell, g) = gateway_authenticated W S L ops E (fe_token_fault F) (fe_auth_clock F) req tokens cell g
      in case (guard, cell) of
           (Some h, Some c) \<Rightarrow>
             (let psvc = on_cell (pg_handle h) (\<lambda>_. c) psvc
              in case r of
                   Done resp \<Rightarrow>
                     (let (held, psvc) = guard_response (gr_status resp) (body_ended (gr_body resp))
                            (fe_end_now F) (fe_end_inst F) (fe_sent F) h psvc
                      in (r, held, psvc, g))
                 | Panic \<Rightarrow> (r, None, guard_drop (fe_end_now F) (fe_end_inst F) (fe_sent F) h psvc, g))
         | _ \<Rightarrow> (r, None, psvc, g))"

end
