(* ===== verification/Gateway_Facts.thy ===== *)
theory Gateway_Facts
  imports Gateway Selection
begin

text \<open>
  Properties of the request path: every slot a request takes has one owner when the handler is
  through, and a refusal of the upstream reaches the client as the generic answer only.
\<close>

section \<open>Who owns the slot\<close>

definition body_slot :: "gw_body \<Rightarrow> string option" where
  "body_slot b = (case b of GB_Stream a h \<Rightarrow> slot_holder_drop True h | _ \<Rightarrow> None)"

fun result_slot :: "(app_error + gw_response) outcome \<Rightarrow> string option" where
  "result_slot (Done (Inr resp)) = body_slot (gr_body resp)"
| "result_slot _ = None"

definition response_slot :: "gw_response outcome \<Rightarrow> string option" where
  "response_slot r = (case r of Done resp \<Rightarrow> body_slot (gr_body resp) | Panic \<Rightarrow> None)"

text \<open>A slot of key \<open>k\<close> was passed on: to a spawned release, or to the body of the response.\<close>

definition hands_on :: "string \<Rightarrow> string option \<Rightarrow> 'c gateway \<Rightarrow> 'c gateway \<Rightarrow> bool" where
  "hands_on k held g g' \<longleftrightarrow>
     gw_releases g' = gw_releases g @ [k] \<and> held = None \<or> gw_releases g' = gw_releases g \<and> held = Some k"

lemma slot_holder_for_drop [simp]: "slot_holder_drop True (slot_holder_for i) = Some (slot_key i)"
  by (simp add: slot_holder_drop_def slot_holder_for_def slot_holder_new_def)

lemma drop_slot_for [simp]:
  "drop_slot (slot_holder_for i) g = g\<lparr>gw_releases := gw_releases g @ [slot_key i]\<rparr>"
  by (simp add: drop_slot_def)

lemma drop_body_releases:
  "gw_releases (drop_body b g) = gw_releases g @ (case body_slot b of None \<Rightarrow> [] | Some k \<Rightarrow> [k])"
  "gw_svc (drop_body b g) = gw_svc g"
  by (simp_all add: drop_body_def body_slot_def drop_slot_def split: gw_body.split option.split)

lemma disable_if_403_keeps [simp]:
  "gw_releases (disable_if_403 E status a g) = gw_releases g"
  "svc_cache (gw_svc (disable_if_403 E status a g)) = svc_cache (gw_svc g)"
  by (simp_all add: disable_if_403_def on_svc_def)

lemma forward_body_slot:
  assumes "forward_body status attempt (slot_holder_for i) g = (body, g')"
  shows "hands_on (slot_key i) (body_slot body) g g' \<and> gw_svc g' = gw_svc g"
  using assms by (auto simp: forward_body_def hands_on_def body_slot_def split: option.splits if_splits)

lemma forward_request_slot:
  assumes "forward_request W L E req hs b account (slot_holder_for i) mc attempt cell g = (r, cell', g')"
  shows "hands_on (slot_key i) (result_slot r) g g' \<and> svc_cache (gw_svc g') = svc_cache (gw_svc g)"
  using assms
  by (auto simp: forward_request_def Let_def on_svc_def hands_on_def dest!: forward_body_slot
      split: upstream_answer.splits outcome.splits prod.splits if_splits)

lemma wrap_refusal_slot:
  assumes "wrap_refusal resp g1 = (resp', g')" "hands_on k (body_slot (gr_body resp)) g g1"
  shows "hands_on k (body_slot (gr_body resp')) g g' \<and> gw_svc g' = gw_svc g1"
  using assms
  by (auto simp: wrap_refusal_def wrap_429_response_def wrap_5xx_response_def hands_on_def
      drop_body_releases body_slot_def split: if_splits)

lemma with_slot_cases:
  assumes "with_slot W S L ops E req bytes body_map ct mc token account cell g = (r, cell', g')"
  obtains (unresolved) e svc where
      "resolve_upstream_token_with S ops (ge_oauth E) account (gw_svc g) = (Inl e, svc)"
      "r = Done (Inl e)" "g' = drop_slot (slot_holder_for (acc_id account)) (g\<lparr>gw_svc := svc\<rparr>)"
  | (failed) tok svc hs b attempt cell1 where
      "resolve_upstream_token_with S ops (ge_oauth E) account (gw_svc g) = (Inr tok, svc)"
      "forward_request W L E req hs b account (slot_holder_for (acc_id account)) mc attempt cell1 (g\<lparr>gw_svc := svc\<rparr>) =
         (r, cell', g')"
      "r = Panic \<or> (\<exists>e. r = Done (Inl e))"
  | (answered) tok svc hs b attempt cell1 resp1 cell2 g1 resp where
      "resolve_upstream_token_with S ops (ge_oauth E) account (gw_svc g) = (Inr tok, svc)"
      "forward_request W L E req hs b account (slot_holder_for (acc_id account)) mc attempt cell1 (g\<lparr>gw_svc := svc\<rparr>) =
         (Done (Inr resp1), cell2, g1)"
      "wrap_refusal resp1 g1 = (resp, g')" "r = Done (Inr resp)"
proof -
  obtain hs fb fm st where o: "rewritten_request W S req bytes body_map ct account = (hs, fb, fm, st)"
    by (cases "rewritten_request W S req bytes body_map ct account")
  obtain t svc where t: "resolve_upstream_token_with S ops (ge_oauth E) account (gw_svc g) = (t, svc)"
    by (cases "resolve_upstream_token_with S ops (ge_oauth E) account (gw_svc g)")
  show thesis
  proof (cases t)
    case (Inl e)
    then show thesis
      using assms o t unresolved by (simp add: with_slot_def)
  next
    case (Inr tok)
    define fwd where "fwd = forward_request W L E req (AList.update ''authorization'' (''Bearer '' @ tok) hs)
        fb account (slot_holder_for (acc_id account)) mc (usage_attempt_for E (gq_path req) account token fm st)
        (stage_mark E ''resolve_token'' 6 (stage_mark E ''rewrite'' 5 cell)) (g\<lparr>gw_svc := svc\<rparr>)"
    obtain r1 cell1 g1 where fwd: "fwd = (r1, cell1, g1)"
      by (cases fwd)
    note f = fwd [unfolded fwd_def]
    note def = with_slot_def [of W S L ops E req bytes body_map ct mc token account cell g]
    consider (panic) "r1 = Panic" | (err) e where "r1 = Done (Inl e)" | (ok) resp where "r1 = Done (Inr resp)"
      by (cases r1) (auto split: sum.splits elim: sumE)
    then show thesis
    proof cases
      case ok
      obtain resp' g2 where w: "wrap_refusal resp g1 = (resp', g2)"
        by (cases "wrap_refusal resp g1")
      have "r = Done (Inr resp')" "g' = g2"
        using assms o t Inr f ok w by (simp_all add: def)
      then show thesis
        using t Inr f ok w by (intro answered [OF _ f [unfolded ok]]) simp_all
    next
      case panic
      then have "(r, cell', g') = (r1, cell1, g1)"
        using assms o t Inr f by (simp add: def)
      then show thesis
        using t Inr f panic by (intro failed) (simp_all add: fwd_def)
    next
      case err
      then have "(r, cell', g') = (r1, cell1, g1)"
        using assms o t Inr f by (simp add: def)
      then show thesis
        using t Inr f err by (intro failed) (simp_all add: fwd_def)
    qed
  qed
qed

context cache_contract
begin

lemma sticky_account_slots:
  assumes "sticky_account S L ops now inst gf h ex al mc svc = (r, svc')"
  shows "slot_count (svc_cache svc') = slot_count (svc_cache svc)"
proof -
  obtain b c where b: "co_get_session_account_id ops inst h (svc_cache svc) = (b, c)"
    by (cases "co_get_session_account_id ops inst h (svc_cache svc)")
  have "slot_count c = slot_count (svc_cache svc)"
    using slot_frame(1) [of inst h "svc_cache svc"] b by simp
  then show ?thesis
    using assms b
    by (auto simp: sticky_account_def Let_def slot_frame
        split: if_splits sum.splits option.splits outcome.splits)
qed

lemma select_account_slots:
  assumes "select_account S L ops now inst gf lf draw h ex al mc svc = (r, svc')"
  shows "slot_count (svc_cache svc') = slot_count (svc_cache svc)"
proof -
  obtain b svc1 where b: "sticky_account S L ops now inst gf h ex al mc svc = (b, svc1)"
    by (cases "sticky_account S L ops now inst gf h ex al mc svc")
  show ?thesis
    using assms b sticky_account_slots [OF b]
    by (auto simp: select_account_def Let_def slot_frame
        split: if_splits prod.splits sum.splits option.splits outcome.splits)
qed

lemma resolve_slots:
  assumes "resolve_upstream_token_with S ops E account svc = (r, svc')"
  shows "slot_count (svc_cache svc') = slot_count (svc_cache svc)"
proof -
  obtain b c where b: "co_acquire_lock ops (oe_inst E) (lock_key (acc_id account)) (oe_owner E) OAUTH_LOCK_TTL (svc_cache svc) = (b, c)"
    by (cases "co_acquire_lock ops (oe_inst E) (lock_key (acc_id account)) (oe_owner E) OAUTH_LOCK_TTL (svc_cache svc)")
  have "slot_count c = slot_count (svc_cache svc)"
    using slot_frame(4) [of "oe_inst E" "lock_key (acc_id account)" "oe_owner E" OAUTH_LOCK_TTL "svc_cache svc"] b by simp
  then show ?thesis
    using assms b
    by (auto simp: resolve_upstream_token_with_def resolve_oauth_access_token_def Let_def slot_frame
        split: account_auth_type.splits if_splits sum.splits prod.splits bool.splits)
qed

lemma with_slot_slots:
  assumes "with_slot W S L ops E req bytes body_map ct mc token account cell g = (r, cell', g')"
  shows "hands_on (slot_key (acc_id account)) (result_slot r) g g' \<and>
    slot_count (svc_cache (gw_svc g')) = slot_count (svc_cache (gw_svc g))"
  using assms
proof (cases rule: with_slot_cases)
  case (unresolved e svc)
  then show ?thesis
    using resolve_slots [OF unresolved(1)] by (simp add: hands_on_def)
next
  case (failed tok svc hs b attempt cell1)
  then show ?thesis
    using resolve_slots [OF failed(1)] forward_request_slot [OF failed(2)] by (simp add: hands_on_def)
next
  case (answered tok svc hs b attempt cell1 resp1 cell2 g1 resp)
  then show ?thesis
    using resolve_slots [OF answered(1)] forward_request_slot [OF answered(2)]
      wrap_refusal_slot [OF answered(3), of "slot_key (acc_id account)" g]
    by (simp add: hands_on_def)
qed

text \<open>
  What a request does to the slots: it takes none, or one of the account \<open>a\<close>, below its limit,
  and then hands it on.
\<close>

definition slot_effect :: "account option \<Rightarrow> string option \<Rightarrow> 'c gateway \<Rightarrow> 'c gateway \<Rightarrow> bool" where
  "slot_effect a held g g' \<longleftrightarrow>
     gw_releases g' = gw_releases g \<and> held = None \<and>
       slot_count (svc_cache (gw_svc g')) = slot_count (svc_cache (gw_svc g))
     \<or> (\<exists>b k. a = Some b \<and> k = slot_key (acc_id b) \<and>
          slot_count (svc_cache (gw_svc g)) k < acc_concurrency b \<and>
          slot_count (svc_cache (gw_svc g')) =
            (slot_count (svc_cache (gw_svc g)))(k := slot_count (svc_cache (gw_svc g)) k + 1) \<and>
          hands_on k held g g')"

lemma with_account_slots:
  assumes "with_account W S L ops E req bytes body_map ct mc token account cell g = (r, cell', g')"
  shows "slot_effect (Some account) (result_slot r) g g'"
proof (cases "if acc_auto_telemetry account then rw_intercepts W (gq_path req) else None")
  case (Some v)
  then show ?thesis
    using assms by (auto simp: with_account_def slot_effect_def body_slot_def)
next
  case None
  obtain b c where b: "co_acquire_slot ops (ge_inst E 3) (slot_key (acc_id account)) (acc_concurrency account)
      SLOT_TTL (svc_cache (gw_svc g)) = (b, c)"
    by (cases "co_acquire_slot ops (ge_inst E 3) (slot_key (acc_id account)) (acc_concurrency account)
      SLOT_TTL (svc_cache (gw_svc g))")
  show ?thesis
  proof (cases "b = Inr True")
    case True
    then have w: "with_slot W S L ops E req bytes body_map ct mc token account (stage_mark E ''slot_acquire'' 4 cell)
        (g\<lparr>gw_svc := (gw_svc g)\<lparr>svc_cache := c\<rparr>\<rparr>) = (r, cell', g')"
      using assms None b by (simp add: with_account_def svc_acquire_slot_def)
    show ?thesis
      using with_slot_slots [OF w] slot_admit b True by (simp add: slot_effect_def hands_on_def)
  next
    case False
    then have "slot_count c = slot_count (svc_cache (gw_svc g))"
      using b slot_refuse slot_error by (cases b) auto
    then show ?thesis
      using assms None b False by (auto simp: with_account_def svc_acquire_slot_def slot_effect_def)
  qed
qed

end

text \<open>The account a request is routed to.\<close>

definition routed_account ::
  "serde_lib \<Rightarrow> lib \<Rightarrow> 'c cache_ops \<Rightarrow> gw_env \<Rightarrow> gw_request \<Rightarrow> api_token option \<Rightarrow> 'c gateway \<Rightarrow> account option" where
  "routed_account S L ops E req token g =
     (case gq_body req of
        Inl _ \<Rightarrow> None
      | Inr bytes \<Rightarrow>
          (let ua = request_user_agent req; body_map = parse_body S bytes
           in case fst (route_request S L ops E ua body_map (detect_client_type ua body_map) token (gw_svc g)) of
                Done (Inr a) \<Rightarrow> Some a | _ \<Rightarrow> None))"

lemma handle_request_inner_cases:
  assumes "handle_request_inner W S L ops E req token cell g = (r, cell', g')"
  obtains (unread) msg where "gq_body req = Inl msg" "r = Done (Inl (BadRequest (''failed to read body: '' @ msg)))" "g' = g"
  | (unrouted) s svc bytes where "gq_body req = Inr bytes" "routed_account S L ops E req token g = None"
      "route_request S L ops E (request_user_agent req) (parse_body S bytes)
         (detect_client_type (request_user_agent req) (parse_body S bytes)) token (gw_svc g) = (s, svc)"
      "g' = g\<lparr>gw_svc := svc\<rparr>" "r = Panic \<or> (\<exists>m. r = Done (Inl (ServiceUnavailable m)))"
  | (routed) bytes a svc ct cell1 where "gq_body req = Inr bytes" "routed_account S L ops E req token g = Some a"
      "route_request S L ops E (request_user_agent req) (parse_body S bytes)
         (detect_client_type (request_user_agent req) (parse_body S bytes)) token (gw_svc g) = (Done (Inr a), svc)"
      "with_account W S L ops E req bytes (parse_body S bytes) ct (request_model_class (parse_body S bytes)) token a
         cell1 (g\<lparr>gw_svc := svc\<rparr>) = (r, cell', g')"
proof (cases "gq_body req")
  case (Inl msg)
  then show thesis
    using assms unread by (simp add: handle_request_inner_def)
next
  case (Inr bytes)
  obtain s svc where s: "route_request S L ops E (request_user_agent req) (parse_body S bytes)
      (detect_client_type (request_user_agent req) (parse_body S bytes)) token (gw_svc g) = (s, svc)"
    by (cases "route_request S L ops E (request_user_agent req) (parse_body S bytes)
      (detect_client_type (request_user_agent req) (parse_body S bytes)) token (gw_svc g)")
  consider (panic) "s = Panic" | (err) e where "s = Done (Inl e)" | (ok) a where "s = Done (Inr a)"
    by (cases s) (auto split: sum.splits elim: sumE)
  then show thesis
  proof cases
    case ok
    then show thesis
      using assms Inr s routed by (simp add: handle_request_inner_def routed_account_def Let_def)
  qed (rule unrouted [OF Inr _ s];
       use assms Inr s in \<open>auto simp add: handle_request_inner_def routed_account_def Let_def\<close>)+
qed

context cache_contract
begin

lemma route_request_slots:
  assumes "route_request S L ops E ua body_map ct token svc = (s, svc')"
  shows "slot_count (svc_cache svc') = slot_count (svc_cache svc)"
  using assms by (auto simp: route_request_def Let_def dest: select_account_slots split: prod.splits)

lemma inner_slots:
  assumes "handle_request_inner W S L ops E req token cell g = (r, cell', g')"
  shows "slot_effect (routed_account S L ops E req token g) (result_slot r) g g'"
  using assms
proof (cases rule: handle_request_inner_cases)
  case (unrouted s svc bytes)
  then show ?thesis
    using route_request_slots [OF unrouted(3)] by (auto simp: slot_effect_def)
next
  case (routed bytes a svc ct cell1)
  then show ?thesis
    using with_account_slots [OF routed(4)] route_request_slots [OF routed(3)]
    by (simp add: slot_effect_def hands_on_def)
qed (simp add: slot_effect_def)

lemma request_slots:
  assumes "gateway_handle_request W S L ops E req token cell g = (r, cell', g')"
  shows "slot_effect (routed_account S L ops E req token g) (response_slot r) g g'"
proof -
  obtain r1 cell1 g1 where i: "handle_request_inner W S L ops E req token cell g = (r1, cell1, g1)"
    by (cases "handle_request_inner W S L ops E req token cell g")
  consider (panic) "r1 = Panic" | (err) e where "r1 = Done (Inl e)" | (ok) resp where "r1 = Done (Inr resp)"
    by (cases r1) (auto split: sum.splits elim: sumE)
  then show ?thesis
    using assms i inner_slots [OF i]
    by cases (auto simp: gateway_handle_request_def response_slot_def error_response_def body_slot_def Let_def
        split: prod.splits)
qed

end

section \<open>What the client sees of a refusal\<close>

definition header_values :: "string \<Rightarrow> gw_response \<Rightarrow> string list" where
  "header_values name resp = map snd (filter (\<lambda>(k, v). k = name) (gr_headers resp))"

definition generic_refusal :: "gw_response \<Rightarrow> bool" where
  "generic_refusal resp \<longleftrightarrow>
     gr_body resp = GB_Text (if gr_status resp = 429 then generic_429_body else generic_5xx_body) \<and>
     header_values ''content-type'' resp = [''application/json''] \<and>
     header_values ''content-length'' resp = [] \<and> header_values ''content-encoding'' resp = [] \<and>
     (gr_status resp \<noteq> 429 \<longrightarrow> (\<forall>name \<in> tracing_headers. header_values name resp = []))"

lemma lowercase_names:
  "n \<in> {''content-length'', ''content-type'', ''content-encoding''} \<union> tracing_headers \<Longrightarrow> to_ascii_lowercase n = n"
  unfolding tracing_headers_def by (elim UnE insertE emptyE) (simp_all, code_simp+)

lemma wrap_refusal_generic:
  assumes "wrap_refusal resp1 g1 = (resp, g')" "wrapped_error (gr_status resp)"
  shows "generic_refusal resp"
proof -
  have st: "gr_status resp = gr_status resp1"
    using assms(1) by (auto simp: wrap_refusal_def wrap_429_response_def wrap_5xx_response_def split: if_splits)
  show ?thesis
  proof (cases "gr_status resp1 = 429")
    case True
    then have "resp = fst (wrap_429_response resp1 g1)"
      using assms(1) by (simp add: wrap_refusal_def)
    then show ?thesis
      using True by (auto simp: wrap_429_response_def generic_refusal_def header_values_def stale_body_headers_def
          filter_empty_conv)
  next
    case False
    then have "resp = fst (wrap_5xx_response resp1 g1)"
      using assms st by (auto simp: wrap_refusal_def wrapped_error_def split: if_splits)
    then have "gr_headers resp = filter (\<lambda>(k, v). to_ascii_lowercase k \<notin> stale_body_headers \<and>
        to_ascii_lowercase k \<notin> tracing_headers) (gr_headers resp1) @ [(''content-type'', ''application/json'')]"
      and b: "gr_body resp = GB_Text generic_5xx_body"
      by (simp_all add: wrap_5xx_response_def)
    moreover have "filter (\<lambda>(k, v). k = name) (filter (\<lambda>(k, v). to_ascii_lowercase k \<notin> stale_body_headers \<and>
        to_ascii_lowercase k \<notin> tracing_headers) (gr_headers resp1)) = []"
      if "name \<in> {''content-length'', ''content-type'', ''content-encoding''} \<union> tracing_headers" for name
      using lowercase_names [OF that] that by (auto simp: filter_empty_conv stale_body_headers_def)
    moreover have "''content-type'' \<notin> tracing_headers"
      by (simp add: tracing_headers_def)
    ultimately show ?thesis
      using False st by (auto simp: generic_refusal_def header_values_def)
  qed
qed

lemma with_account_result:
  assumes "with_account W S L ops E req bytes body_map ct mc token account cell g = (Done (Inr resp), cell', g')"
  obtains (intercepted) v where "gr_status resp = 200" "gr_body resp = GB_Json v" "g' = g"
  | (served) cell1 c where
      "co_acquire_slot ops (ge_inst E 3) (slot_key (acc_id account)) (acc_concurrency account) SLOT_TTL
         (svc_cache (gw_svc g)) = (Inr True, c)"
      "with_slot W S L ops E req bytes body_map ct mc token account cell1
         (g\<lparr>gw_svc := (gw_svc g)\<lparr>svc_cache := c\<rparr>\<rparr>) = (Done (Inr resp), cell', g')"
  using assms
  by (auto simp: with_account_def svc_acquire_slot_def Let_def split: if_splits option.splits prod.splits)

lemma with_account_refusal:
  assumes "with_account W S L ops E req bytes body_map ct mc token account cell g = (Done (Inr resp), cell', g')"
    and "wrapped_error (gr_status resp)"
  shows "generic_refusal resp"
  using assms(1)
proof (cases rule: with_account_result)
  case (intercepted v)
  then show ?thesis
    using assms(2) by (simp add: wrapped_error_def)
next
  case (served cell1 c)
  from served(2) show ?thesis
    by (cases rule: with_slot_cases) (use wrap_refusal_generic assms(2) in auto)
qed

lemma inner_refusal:
  assumes "handle_request_inner W S L ops E req token cell g = (Done (Inr resp), cell', g')"
    and "wrapped_error (gr_status resp)"
  shows "generic_refusal resp"
  using assms(1) by (cases rule: handle_request_inner_cases) (use with_account_refusal assms(2) in auto)

lemma handle_request_result:
  assumes "gateway_handle_request W S L ops E req token cell g = (Done resp, cell', g')"
  obtains (error) e where "handle_request_inner W S L ops E req token cell g = (Done (Inl e), cell', g')"
      "resp = error_response e"
  | (answer) "handle_request_inner W S L ops E req token cell g = (Done (Inr resp), cell', g')"
  using assms by (auto simp: gateway_handle_request_def split: prod.splits outcome.splits sum.splits)

section \<open>What the service learns\<close>

lemma forward_request_answer:
  assumes "forward_request W L E req hs b account slot mc attempt cell g = (Done (Inr resp), cell', g')"
  shows "\<exists>og ans. ge_upstream E og = UA_Response (gr_status resp) ans \<and>
    svc_store (gw_svc g') = svc_store (gw_svc (disable_if_403 E (gr_status resp) account g)) \<and>
    svc_limit (gw_svc g') = snd (absorb_headers L (ge_now E) (ge_inst E 9) (svc_limit (gw_svc g)) (acc_id account) mc
      (gr_status resp) (text_headers ans))"
proof (cases "ge_upstream E (upstream_request req hs b account)")
  case (UA_Response status ans)
  have kept: "gw_svc g2 = gw_svc g1" if "forward_body status a slot g1 = (body, g2)" for a body and g1 g2 :: "'a gateway"
    using that by (auto simp: forward_body_def drop_slot_def split: option.splits if_splits)
  have lim: "svc_limit (gw_svc (disable_if_403 E status account g)) = svc_limit (gw_svc g)"
    by (simp add: disable_if_403_def on_svc_def)
  have "gr_status resp = status"
    using assms UA_Response
    by (auto simp: forward_request_def Let_def split: outcome.splits prod.splits)
  moreover have "svc_store (gw_svc g') = svc_store (gw_svc (disable_if_403 E status account g)) \<and>
    svc_limit (gw_svc g') = snd (absorb_headers L (ge_now E) (ge_inst E 9) (svc_limit (gw_svc g)) (acc_id account) mc
      status (text_headers ans))"
    using assms UA_Response lim
    by (auto simp: forward_request_def Let_def on_svc_def dest!: kept split: outcome.splits prod.splits if_splits)
  ultimately show ?thesis
    using UA_Response by blast
qed (use assms in \<open>simp add: forward_request_def\<close>)

text \<open>The account store after some calls; other tasks only reach it through its operations.\<close>

definition store_reaches :: "serde_lib \<Rightarrow> account_store \<Rightarrow> account_store \<Rightarrow> bool" where
  "store_reaches S st st' \<longleftrightarrow> (\<exists>calls. st' = store_run S calls st)"

definition others_use_store :: "serde_lib \<Rightarrow> oauth_env \<Rightarrow> bool" where
  "others_use_store S E \<longleftrightarrow> (\<forall>i st. store_reaches S st (oe_others E i st))"

lemma store_reaches_refl [simp]: "store_reaches S st st"
  unfolding store_reaches_def by (rule exI [of _ "[]"]) (simp add: store_run_def)

lemma store_reaches_exec [intro]: "store_reaches S st (store_exec S call st)"
  unfolding store_reaches_def by (rule exI [of _ "[call]"]) (simp add: store_run_def)

lemma store_reaches_trans [trans]: "store_reaches S st st1 \<Longrightarrow> store_reaches S st1 st2 \<Longrightarrow> store_reaches S st st2"
  unfolding store_reaches_def store_run_def by (metis comp_apply fold_append)

lemmas store_reaches_calls =
  store_reaches_exec [where call = "ListSchedulable inst f", simplified]
  store_reaches_exec [where call = "UpdateAuthError now f i msg", simplified]
  store_reaches_exec [where call = "UpdateOauthTokens now f i acc ref ex", simplified] for inst f now i msg acc ref ex

lemma select_account_store:
  assumes "select_account S L ops now inst gf lf draw h ex al mc svc = (r, svc')"
  shows "store_reaches S (svc_store svc) (svc_store svc') \<and> svc_limit svc' = svc_limit svc"
proof -
  obtain b svc1 where b: "sticky_account S L ops now inst gf h ex al mc svc = (b, svc1)"
    by (cases "sticky_account S L ops now inst gf h ex al mc svc")
  have st: "store_reaches S (svc_store svc) st'" if "list_schedulable S inst lf (svc_store svc) = (l, st')" for l st'
    using store_reaches_calls(1) [of S "svc_store svc" inst lf] that by simp
  show ?thesis
    using assms b sticky_account_keeps [OF b] st
    by (auto simp: select_account_def Let_def
        split: if_splits prod.splits sum.splits option.splits outcome.splits)
qed

lemma refresh_store:
  assumes "refresh_oauth_access_token S E aid st = (r, st')"
  shows "store_reaches S st st'"
proof -
  have u: "store_reaches S st st1"
    if "update_oauth_tokens now f aid acc ref ex st = (x, st1)" for now f acc ref ex x st1
    using store_reaches_calls(3) [of S st now f aid acc ref ex] that by simp
  show ?thesis
    using assms
    by (auto simp: refresh_oauth_access_token_def Let_def intro: store_reaches_calls(2) dest!: u
        split: sum.splits if_splits prod.splits option.splits)
qed

lemma wait_store:
  assumes "others_use_store S E" "wait_for_token S E aid i n st = (r, st')"
  shows "store_reaches S st st'"
  using assms(2)
proof (induction n arbitrary: i st)
  case (Suc n)
  have o: "store_reaches S st (oe_others E i st)"
    using assms(1) by (simp add: others_use_store_def)
  show ?case
    using Suc.prems o Suc.IH [of "Suc i" "oe_others E i st"]
    by (auto simp: Let_def intro: store_reaches_trans [OF o] split: sum.splits if_splits)
qed simp

lemma resolve_store:
  assumes "others_use_store S E" "resolve_upstream_token_with S ops E account svc = (r, svc')"
  shows "store_reaches S (svc_store svc) (svc_store svc') \<and> svc_limit svc' = svc_limit svc"
  using assms
  by (auto simp: resolve_upstream_token_with_def resolve_oauth_access_token_def Let_def
      intro: store_reaches_calls(2) dest: refresh_store wait_store
      split: account_auth_type.splits if_splits sum.splits prod.splits bool.splits)

lemma wrap_refusal_keeps:
  assumes "wrap_refusal resp1 g1 = (resp, g')"
  shows "gr_status resp = gr_status resp1 \<and> gw_svc g' = gw_svc g1"
  using assms
  by (auto simp: wrap_refusal_def wrap_429_response_def wrap_5xx_response_def drop_body_releases split: if_splits)

lemma route_request_store:
  assumes "route_request S L ops E ua body_map ct token svc = (r, svc')"
  shows "store_reaches S (svc_store svc) (svc_store svc') \<and> svc_limit svc' = svc_limit svc"
  using assms by (auto simp: route_request_def Let_def dest: select_account_store split: prod.splits)

definition request_class :: "serde_lib \<Rightarrow> gw_request \<Rightarrow> model_class" where
  "request_class S req = request_model_class (parse_body S (case gq_body req of Inr b \<Rightarrow> b | Inl _ \<Rightarrow> []))"

lemma upstream_body_shape:
  assumes "wrap_refusal resp1 g1 = (resp, g')"
    and "forward_request W L E req hs b account slot mc attempt cell g = (Done (Inr resp1), cell', g1)"
  shows "gr_body resp \<noteq> GB_Json v"
  using assms
  by (auto simp: wrap_refusal_def wrap_429_response_def wrap_5xx_response_def forward_request_def forward_body_def
      Let_def split: if_splits upstream_answer.splits outcome.splits option.splits prod.splits)

text \<open>A response that is the upstream's, wrapped or not: what it was and what it left behind.\<close>

lemma upstream_effect:
  assumes "gateway_handle_request W S L ops E req token cell g = (Done resp, cell', g')"
    and "others_use_store S (ge_oauth E)" "\<And>v. gr_body resp \<noteq> GB_Json v"
    and "routed_account S L ops E req token g = Some a"
  obtains og ans st where "ge_upstream E og = UA_Response (gr_status resp) ans"
    "store_reaches S (svc_store (gw_svc g)) st"
    "svc_store (gw_svc g') = (if gr_status resp = 403
       then snd (disable_account (ge_now E) (ge_disable_fault E) (acc_id a) AS_Disabled auth_failed_reason None st) else st)"
    "svc_limit (gw_svc g') = snd (absorb_headers L (ge_now E) (ge_inst E 9) (svc_limit (gw_svc g)) (acc_id a)
       (request_class S req) (gr_status resp) (text_headers ans))"
proof -
  from assms(1) have "handle_request_inner W S L ops E req token cell g = (Done (Inr resp), cell', g')"
    by (cases rule: handle_request_result) (use assms(3) in \<open>auto simp: error_response_def Let_def split: prod.splits\<close>)
  then obtain bytes svc ct cell1 where r: "gq_body req = Inr bytes"
    "route_request S L ops E (request_user_agent req) (parse_body S bytes)
         (detect_client_type (request_user_agent req) (parse_body S bytes)) token (gw_svc g) = (Done (Inr a), svc)"
    "with_account W S L ops E req bytes (parse_body S bytes) ct (request_class S req) token a
         cell1 (g\<lparr>gw_svc := svc\<rparr>) = (Done (Inr resp), cell', g')"
    by (cases rule: handle_request_inner_cases) (use assms(4) in \<open>auto simp: request_class_def\<close>)
  note routed = route_request_store [OF r(2)]
  from r(3) show thesis
  proof (cases rule: with_account_result)
    case (intercepted v)
    then show thesis
      using assms(3) by blast
  next
    case (served cell2 c)
    from served(2) show thesis
    proof (cases rule: with_slot_cases)
      case (answered tok svc2 hs b attempt cell3 resp1 cell4 g1 resp2)
      note resolved = resolve_store [OF assms(2) answered(1)]
      obtain og ans where f: "ge_upstream E og = UA_Response (gr_status resp1) ans"
        "svc_store (gw_svc g1) = svc_store (gw_svc (disable_if_403 E (gr_status resp1) a (g\<lparr>gw_svc := svc2\<rparr>)))"
        "svc_limit (gw_svc g1) = snd (absorb_headers L (ge_now E) (ge_inst E 9) (svc_limit svc2) (acc_id a)
           (request_class S req) (gr_status resp1) (text_headers ans))"
        using forward_request_answer [OF answered(2)] by (auto simp: disable_if_403_def on_svc_def)
      have w: "gr_status resp = gr_status resp1" "gw_svc g' = gw_svc g1"
        using wrap_refusal_keeps [OF answered(3)] answered(4) by simp_all
      have st: "store_reaches S (svc_store (gw_svc g)) (svc_store svc2)" and lim: "svc_limit svc2 = svc_limit (gw_svc g)"
        using routed resolved store_reaches_trans by auto
      show thesis
        by (rule that [OF _ st]) (use f w lim in \<open>auto simp: disable_if_403_def on_svc_def\<close>)
    qed auto
  qed
qed

lemma routed_selected:
  assumes "routed_account S L ops E req token g = Some a"
  shows "\<exists>h ex al svc'. select_account S L ops (ge_now E) (ge_inst E 2) (ge_get_fault E) (ge_list_fault E) (ge_draw E)
    h ex al (request_class S req) (gw_svc g) = (Done (Inr a), svc')"
  using assms
  by (auto simp: routed_account_def route_request_def request_class_def Let_def
      split: sum.splits outcome.splits prod.splits; metis prod.collapse)

lemma json_not_403:
  assumes "gateway_handle_request W S L ops E req token cell g = (Done resp, cell', g')" "gr_status resp = 403"
  shows "gr_body resp \<noteq> GB_Json v"
  using assms(1)
proof (cases rule: handle_request_result)
  case (error e)
  then show ?thesis
    using assms(2) by (cases e) (simp_all add: error_response_def app_error_into_response_def Let_def)
next
  case answer
  then show ?thesis
  proof (cases rule: handle_request_inner_cases)
    case (routed bytes a svc ct cell1)
    from routed(4) show ?thesis
    proof (cases rule: with_account_result)
      case (served cell1 c)
      from served(2) show ?thesis
      proof (cases rule: with_slot_cases)
        case (answered tok svc2 hs b attempt cell3 resp1 cell4 g1 resp2)
        then show ?thesis
          using upstream_body_shape [OF answered(3,2)] by simp
      qed auto
    qed (use assms(2) in simp)
  qed auto
qed

section \<open>Properties\<close>

text \<open>
  C11. Every slot has one owner. With the in-memory cache, a request either leaves the slot counts
  as they are, or takes one slot of the account it is routed to, below that account's concurrency,
  and when the handler is through, in error, by a panic or with a response, exactly one of a spawned
  release task and the body of the response holds that slot.
\<close>

theorem request_slot_owned:
  "case gateway_handle_request W S L memory_cache E req token cell g of (r, cell', g') \<Rightarrow>
     let n = mem_slot_count (svc_cache (gw_svc g)); n' = mem_slot_count (svc_cache (gw_svc g'))
     in gw_releases g' = gw_releases g \<and> response_slot r = None \<and> n' = n
        \<or> (\<exists>a. routed_account S L memory_cache E req token g = Some a \<and>
             n (slot_key (acc_id a)) < acc_concurrency a \<and>
             n' = n(slot_key (acc_id a) := n (slot_key (acc_id a)) + 1) \<and>
             (gw_releases g' = gw_releases g @ [slot_key (acc_id a)] \<and> response_slot r = None \<or>
              gw_releases g' = gw_releases g \<and> response_slot r = Some (slot_key (acc_id a))))"
proof -
  obtain r cell' g' where h: "gateway_handle_request W S L memory_cache E req token cell g = (r, cell', g')"
    by (cases "gateway_handle_request W S L memory_cache E req token cell g")
  show ?thesis
    using mem.request_slots [OF h] unfolding mem.slot_effect_def hands_on_def by (simp add: h Let_def)
qed

text \<open>
  C12. A refusal is generic. Whatever the upstream answers, a response with status 429 or 5xx carries
  the fixed body, one content type and neither the length nor the encoding of the upstream's body,
  and with status 5xx none of the tracing headers; or it is an error of the gateway itself.
\<close>

theorem refusals_generic:
  assumes "gateway_handle_request W S L ops E req token cell g = (Done resp, cell', g')"
    and "wrapped_error (gr_status resp)"
  shows "generic_refusal resp \<or> (\<exists>e. resp = error_response e)"
  using assms(1) by (cases rule: handle_request_result) (use inner_refusal assms(2) in blast)+

text \<open>
  C13. An account the upstream forbids is retired. When a request ends with status 403 and the
  database took the update, no later request is routed to its account, whatever calls reach the
  account store meanwhile, until one of them makes it active again.
\<close>

theorem forbidden_account_retired:
  assumes "gateway_handle_request W S L ops E req token cell g = (Done resp, cell', g')" "gr_status resp = 403"
    and "routed_account S L ops E req token g = Some a"
    and "ge_disable_fault E = None" "others_use_store S (ge_oauth E)"
    and "cache_coherent S (svc_store (gw_svc g))" "acc_id a < ast_next_id (svc_store (gw_svc g))"
    and "svc_store (gw_svc g2) = store_run S calls (svc_store (gw_svc g'))"
    and "\<forall>call \<in> set calls. \<not> reactivates (acc_id a) call"
    and "\<not> lst_poisoned (svc_limit (gw_svc g2))" "valid_draw (ge_draw E2)"
  shows "map_option acc_id (routed_account S L ops E2 req2 token2 g2) \<noteq> Some (acc_id a)"
proof -
  have "acc_id b \<noteq> acc_id a" if "routed_account S L ops E2 req2 token2 g2 = Some b" for b
  proof -
    from that obtain h ex al svc' where sel: "select_account S L ops (ge_now E2) (ge_inst E2 2) (ge_get_fault E2)
        (ge_list_fault E2) (ge_draw E2) h ex al (request_class S req2) (gw_svc g2) = (Done (Inr b), svc')"
      using routed_selected by blast
    have "gr_body resp \<noteq> GB_Json v" for v
      using assms(1,2) json_not_403 by blast
    then obtain st where st: "store_reaches S (svc_store (gw_svc g)) st"
      "svc_store (gw_svc g') = snd (disable_account (ge_now E) None (acc_id a) AS_Disabled auth_failed_reason None st)"
      using upstream_effect [OF assms(1,5) _ assms(3)] assms(2,4) by metis
    have "acc_id a < ast_next_id st" "cache_coherent S st"
      using st(1) assms(6,7) store_run_next_id [of "svc_store (gw_svc g)" S] store_run_coherent
      by (auto simp: store_reaches_def) (metis order_less_le_trans)
    then show ?thesis
      using retired_not_selected [OF assms(8) [unfolded st(2)] _ _ _ assms(9-11) sel] by simp
  qed
  then show ?thesis
    by (cases "routed_account S L ops E2 req2 token2 g2") auto
qed

text \<open>
  C14. An account the upstream refuses sits the ban out. When a request is answered with a 429 that
  has no quota headers, no request for the same model class is routed to its account before the end
  of the ban, which the \<open>retry-after\<close> header sets, as long as nothing else is absorbed.
\<close>

theorem refused_account_sits_out:
  assumes "gateway_handle_request W S L ops E req token cell g = (Done resp, cell', g')"
    and "gr_status resp = 429" "gr_body resp = GB_Text generic_429_body"
    and "routed_account S L ops E req token g = Some a"
    and "ge_upstream E = (\<lambda>_. UA_Response 429 ans)" "others_use_store S (ge_oauth E)"
    and "limit_reachable L (svc_limit (gw_svc g))" "\<not> lst_poisoned (svc_limit (gw_svc g))"
    and "parse_unified_headers L (text_headers ans) = None" "parse_rpm_tpm_headers L (text_headers ans) = None"
    and "now_plus L (ge_now E) (case parse_retry_after (text_headers ans) of None \<Rightarrow> DEFAULT_429_BAN | Some d \<Rightarrow> d) =
      Done until"
    and "svc_limit (gw_svc g2) = svc_limit (gw_svc g')" "request_class S req2 = request_class S req"
    and "ge_now E2 < until" "valid_draw (ge_draw E2)"
  shows "map_option acc_id (routed_account S L ops E2 req2 token2 g2) \<noteq> Some (acc_id a)"
proof -
  have "acc_id b \<noteq> acc_id a" if "routed_account S L ops E2 req2 token2 g2 = Some b" for b
  proof -
    from that obtain h ex al svc' where sel: "select_account S L ops (ge_now E2) (ge_inst E2 2) (ge_get_fault E2)
        (ge_list_fault E2) (ge_draw E2) h ex al (request_class S req) (gw_svc g2) = (Done (Inr b), svc')"
      using routed_selected assms(13) by metis
    obtain og ans' where "ge_upstream E og = UA_Response 429 ans'"
      and lim: "svc_limit (gw_svc g') = snd (absorb_headers L (ge_now E) (ge_inst E 9) (svc_limit (gw_svc g)) (acc_id a)
          (request_class S req) 429 (text_headers ans'))"
      using upstream_effect [OF assms(1,6) _ assms(4)] assms(2,3) by (metis gw_body.distinct(1))
    then have "ans' = ans"
      using assms(5) by simp
    note ban = absorbed_429 [OF assms(7-11) lim [unfolded this]]
    have "\<not> lst_poisoned (svc_limit (gw_svc g2))"
      using ban(1) assms(12) by simp
    then have "eligible L (ge_now E2) (svc_limit (gw_svc g2)) (request_class S req) ex al b"
      using selected_eligible assms(15) sel by (metis fst_conv)
    then show ?thesis
      using ban(2) [OF assms(14)] assms(12) by (auto simp: eligible_def)
  qed
  then show ?thesis
    by (cases "routed_account S L ops E2 req2 token2 g2") auto
qed

text \<open>
  C17. Only an active token gets a request served. A request is either answered by the gateway for an
  active token of the table whose secret it carries, or refused with 401 (500 on a database error)
  with the gateway as it was.
\<close>

theorem only_tokens_served:
  "(\<exists>r \<in> set (ts_rows tokens). tr_token r = extract_key (text_headers (gq_headers req)) \<and> tr_status r = ''active'' \<and>
      (\<exists>cell1. gateway_authenticated W S L ops E fault clock req tokens cell g =
         gateway_handle_request W S L ops E req (Some (row_to_token r)) cell1 g))
   \<or> (\<exists>resp cell1. gateway_authenticated W S L ops E fault clock req tokens cell g = (Done resp, cell1, g) \<and>
        gr_status resp = (if extract_key (text_headers (gq_headers req)) \<noteq> [] \<and> fault \<noteq> None then 500 else 401))"
proof (cases "authenticate fault (text_headers (gq_headers req)) tokens")
  case (Inl e)
  then show ?thesis
    by (cases clock) (auto simp: authenticate_def get_by_token_def Let_def split: if_splits option.splits)
next
  case (Inr t)
  then obtain r where "r \<in> set (ts_rows tokens)" "tr_token r = extract_key (text_headers (gq_headers req))"
    "tr_status r = ''active''" "t = row_to_token r"
    by (auto simp: authenticate_def get_by_token_def Let_def dest!: find_mem split: if_splits option.splits)
  then show ?thesis
    using Inr by (cases clock) (auto simp: Let_def)
qed

section \<open>A request served\<close>

definition plain_rewriting :: rewriting where
  "plain_rewriting = \<lparr>rw_body = (\<lambda>b _ _ _. b), rw_headers = (\<lambda>h _ _ _ _. h), rw_intercepts = (\<lambda>_. None), rw_hides = (\<lambda>_. False)\<rparr>"

definition answering_env :: "nat \<Rightarrow> gw_env" where
  "answering_env status =
     \<lparr>ge_now = 0, ge_inst = (\<lambda>_. 0), ge_uuid = ''u'', ge_draw = (\<lambda>_. 0), ge_get_fault = None, ge_list_fault = None,
      ge_disable_fault = None, ge_oauth = issuing_env, ge_sha256 = (\<lambda>_. []),
      ge_upstream = (\<lambda>_. UA_Response status [(''content-length'', ''9'')])\<rparr>"

definition plain_request :: gw_request where
  "plain_request = \<lparr>gq_method = ''POST'', gq_path = ''/v1/messages'', gq_query = None, gq_headers = [], gq_body = Inr []\<rparr>"

definition example_gateway :: "memory_store gateway" where
  "example_gateway = \<lparr>gw_svc = example_svc, gw_releases = [], gw_flushes = [], gw_drains = []\<rparr>"

definition served :: "nat \<Rightarrow> gw_response outcome \<times> perf_cell \<times> memory_store gateway" where
  "served status = gateway_handle_request plain_rewriting example_serde example_lib memory_cache (answering_env status)
     plain_request None None example_gateway"

lemma served_403: "case fst (served 403) of Panic \<Rightarrow> False | Done resp \<Rightarrow> gr_status resp = 403"
  by code_simp

lemma served_429: "case fst (served 429) of Panic \<Rightarrow> False | Done resp \<Rightarrow>
    gr_status resp = 429 \<and> (case gr_body resp of GB_Text t \<Rightarrow> t = generic_429_body | _ \<Rightarrow> False)"
  by code_simp

lemma routed_403:
  "map_option acc_id (routed_account example_serde example_lib memory_cache (answering_env 403) plain_request None
     example_gateway) = Some 4"
  by code_simp

lemma routed_429:
  "map_option acc_id (routed_account example_serde example_lib memory_cache (answering_env 429) plain_request None
     example_gateway) = Some 4"
  by code_simp

lemma example_env_sel [simp]:
  "ge_disable_fault (answering_env n) = None" "ge_oauth (answering_env n) = issuing_env"
  "ge_draw (answering_env n) = (\<lambda>_. 0)" "ge_now (answering_env n) = 0"
  "ge_upstream (answering_env n) = (\<lambda>_. UA_Response n [(''content-length'', ''9'')])"
  by (simp_all add: answering_env_def)

lemma issuing_others [simp]: "others_use_store S issuing_env"
  by (simp add: others_use_store_def issuing_env_def)

lemma example_gateway_svc [simp]: "gw_svc example_gateway = example_svc"
  by (simp add: example_gateway_def)

theorem refusals_generic_witness:
  "\<exists>resp. fst (served 429) = Done resp \<and> gr_status resp = 429 \<and> (generic_refusal resp \<or> (\<exists>e. resp = error_response e))"
proof -
  obtain resp cell' g' where s: "served 429 = (Done resp, cell', g')" "gr_status resp = 429"
    using served_429 by (cases "served 429") (auto split: outcome.splits)
  then show ?thesis
    using refusals_generic [OF s(1) [unfolded served_def]] by (auto simp: wrapped_error_def)
qed

theorem forbidden_account_retired_witness:
  "map_option acc_id (routed_account example_serde example_lib memory_cache (answering_env 200) plain_request None
      (example_gateway\<lparr>gw_svc := example_svc\<lparr>svc_store := svc_store (gw_svc (snd (snd (served 403))))\<rparr>\<rparr>)) \<noteq> Some 4"
proof -
  obtain resp cell' g' where s: "served 403 = (Done resp, cell', g')" "gr_status resp = 403"
    using served_403 by (cases "served 403") (auto split: outcome.splits)
  obtain a where a: "routed_account example_serde example_lib memory_cache (answering_env 403) plain_request None
      example_gateway = Some a" "acc_id a = 4"
    using routed_403 by auto
  have "map_option acc_id (routed_account example_serde example_lib memory_cache (answering_env 200) plain_request None
      (example_gateway\<lparr>gw_svc := example_svc\<lparr>svc_store := svc_store (gw_svc g')\<rparr>\<rparr>)) \<noteq> Some (acc_id a)"
    by (rule forbidden_account_retired [where calls = "[]", OF s(1) [unfolded served_def] s(2) a(1)])
       (simp_all add: a(2) cache_coherent_def account_store_new_def store_run_def valid_draw_def)
  then show ?thesis
    using s(1) a(2) by simp
qed

theorem refused_account_sits_out_witness:
  "map_option acc_id (routed_account example_serde example_lib memory_cache ((answering_env 200)\<lparr>ge_now := 59999999999\<rparr>) plain_request None
      (snd (snd (served 429)))) \<noteq> Some 4"
proof -
  obtain resp cell' g' where s: "served 429 = (Done resp, cell', g')" "gr_status resp = 429"
    "gr_body resp = GB_Text generic_429_body"
    using served_429 by (cases "served 429") (auto split: outcome.splits gw_body.splits)
  obtain a where a: "routed_account example_serde example_lib memory_cache (answering_env 429) plain_request None
      example_gateway = Some a" "acc_id a = 4"
    using routed_429 by auto
  let ?h = "text_headers [(''content-length'', ''9'')]"
  have h: "parse_unified_headers example_lib ?h = None" "parse_rpm_tpm_headers example_lib ?h = None"
    "parse_retry_after ?h = None"
    by code_simp+
  have "map_option acc_id (routed_account example_serde example_lib memory_cache ((answering_env 200)\<lparr>ge_now := 59999999999\<rparr>) plain_request None
      g') \<noteq> Some (acc_id a)"
    by (rule refused_account_sits_out [where until = 60000000000 and ans = "[(''content-length'', ''9'')]", OF s(1) [unfolded served_def] s(2,3) a(1)])
       (simp_all add: h limit_reachable.start DEFAULT_429_BAN_def example_now_plus valid_draw_def)
  then show ?thesis
    using s(1) a(2) by simp
qed

end
