(* ===== verification/Gateway_Performance.thy ===== *)
theory Gateway_Performance
  imports Gateway_Facts
begin

text \<open>
  The request path against the performance service (\<open>src/service/performance.rs\<close>): what the gateway
  reports about a request is a sequence of the service's own updates, so the accounting proved of
  the service holds of the requests of the gateway.
\<close>

section \<open>What a request reports\<close>

definition reports :: "perf_cell \<Rightarrow> perf_cell \<Rightarrow> bool" where
  "reports cell cell' \<longleftrightarrow> (\<exists>ops. cell' = map_option (perf_run ops) cell)"

lemma reports_refl [simp, intro]: "reports cell cell"
  unfolding reports_def by (rule exI [of _ "[]"]) (simp add: perf_run_def option.map_id0 [unfolded id_def] cong: map_option_cong)

lemma reports_exec:
  assumes "reports cell c"
  shows "reports cell (map_option (perf_exec op t) c)"
proof -
  obtain ops where "c = map_option (perf_run ops) cell"
    using assms by (auto simp: reports_def)
  then have "map_option (perf_exec op t) c = map_option (perf_run (ops @ [(t, op)])) cell"
    by (cases cell) (simp_all add: perf_run_def)
  then show ?thesis
    by (auto simp: reports_def)
qed

lemma reports_ops [intro!]:
  assumes "reports cell c"
  shows "reports cell (map_option (handle_stage name d t) c)" "reports cell (map_option (handle_phase p t) c)"
    "reports cell (map_option (handle_token i t) c)" "reports cell (map_option (handle_account i t) c)"
    "reports cell (map_option (Performance.handle_request m b t) c)"
    "reports cell (map_option (handle_upstream st rid b t) c)" "reports cell (map_option (handle_failure oc t) c)"
    "reports cell (stage_mark E name j c)"
  using reports_exec [OF assms, where op = "Op_Stage name d" and t = t]
    reports_exec [OF assms, where op = "Op_Phase p" and t = t] reports_exec [OF assms, where op = "Op_Token i" and t = t]
    reports_exec [OF assms, where op = "Op_Account i" and t = t] reports_exec [OF assms, where op = "Op_Request m b" and t = t]
    reports_exec [OF assms, where op = "Op_Upstream st rid b" and t = t] reports_exec [OF assms, where op = "Op_Failure oc" and t = t]
    reports_exec [OF assms, where op = "Op_Stage name (elapsed (ge_inst E j) (ge_inst E (j - 1)))" and t = "ge_inst E j"]
  by (simp_all add: stage_mark_def)

lemma forward_request_reports:
  assumes "forward_request W L E req hs b account slot mc attempt c g = (r, c', g')" "reports cell c"
  shows "reports cell c'"
  using assms
  by (auto simp: forward_request_def Let_def simp del: map_option.compositionality
      split: upstream_answer.splits outcome.splits prod.splits)

lemma with_slot_reports:
  assumes "with_slot W S L ops E req bytes body_map ct mc token account c g = (r, c', g')" "reports cell c"
  shows "reports cell c'"
  using assms
  by (auto simp: with_slot_def Let_def dest!: forward_request_reports [where cell = cell]
      split: prod.splits sum.splits outcome.splits)

lemma with_account_reports:
  assumes "with_account W S L ops E req bytes body_map ct mc token account c g = (r, c', g')" "reports cell c"
  shows "reports cell c'"
  using assms
  by (auto simp: with_account_def Let_def dest!: with_slot_reports [where cell = cell]
      split: prod.splits option.splits if_splits)

lemma inner_reports:
  assumes "handle_request_inner W S L ops E req token c g = (r, c', g')" "reports cell c"
  shows "reports cell c'"
  using assms
  by (auto simp: handle_request_inner_def Let_def dest!: with_account_reports [where cell = cell]
      split: prod.splits outcome.splits sum.splits)

lemma authenticated_reports:
  assumes "gateway_authenticated W S L ops E fault clock req tokens cell g = (r, cell', g')"
  shows "reports cell cell'"
proof -
  have h: "reports cell c'" if "gateway_handle_request W S L ops E req token c g = (r, c', g')" "reports cell c"
    for token c c'
    using that by (auto simp: gateway_handle_request_def dest!: inner_reports [where cell = cell]
        split: prod.splits outcome.splits sum.splits)
  show ?thesis
    using assms by (cases clock) (auto simp: Let_def dest!: h split: sum.splits)
qed

text \<open>The updates of a request are steps of the performance service.\<close>

lemma noted_steps:
  assumes "h < length (pf_cells (py_svc s))"
  shows "perf_step\<^sup>*\<^sup>* s (s\<lparr>py_svc := on_cell h (perf_run ops) (py_svc s)\<rparr>)"
  using assms
proof (induction ops arbitrary: s)
  case Nil
  then show ?case
    by (simp add: perf_run_def on_cell_def)
next
  case (Cons p ops)
  obtain t op where p: "p = (t, op)"
    by (cases p)
  let ?s = "s\<lparr>py_svc := on_cell h (perf_exec op t) (py_svc s)\<rparr>"
  have "perf_step s ?s"
    using Cons.prems by (rule perf_step.noted)
  moreover have "perf_step\<^sup>*\<^sup>* ?s (?s\<lparr>py_svc := on_cell h (perf_run ops) (py_svc ?s)\<rparr>)"
    using Cons.IH [of ?s] Cons.prems by simp
  moreover have "on_cell h (perf_run ops) (py_svc ?s) = on_cell h (perf_run (p # ops)) (py_svc s)"
    using Cons.prems by (simp add: on_cell_def perf_run_def p)
  ultimately show ?case
    by (simp add: converse_rtranclp_into_rtranclp)
qed

lemma guard_of_begin:
  assumes "performance_begin uuid now inst svc = (Some h, svc')"
  shows "pg_handle h < length (pf_cells svc')" "pf_enabled svc"
  using assms by (auto simp: performance_begin_def Let_def on_counters_def split: if_splits)

lemma begin_none:
  assumes "performance_begin uuid now inst svc = (None, svc')"
  shows "\<not> pf_enabled svc" "svc' = svc"
  using assms by (auto simp: performance_begin_def Let_def split: if_splits)

lemma on_cell_const: "on_cell h (\<lambda>_. f (pf_cells svc ! h)) svc = on_cell h f svc"
  by (simp add: on_cell_def)

text \<open>
  C18. A message request is one request of the performance service. From any state of the
  service, what the gateway does to it for one request is a sequence of its steps, after which the
  guard of the response body is the only one more in flight, and one more request has begun exactly
  when the path is the message endpoint and the collection is enabled. So the accounting of the service covers every
  request of the gateway, refused, failed or panicked.
\<close>

theorem fallback_refines_performance:
  assumes "fe_uuid F \<notin> set (request_ids (py_svc s))"
    and "gateway_fallback W S L ops E F req tokens (py_svc s) g = (r, held, psvc, g')"
  shows "\<exists>s'. perf_step\<^sup>*\<^sup>* s s' \<and> py_svc s' = psvc \<and> py_guards s' = py_guards s + guard_mset held \<and>
    py_begun s' = py_begun s +
      (if classify_message_endpoint (gq_path req) = ME_Inference \<and> pf_enabled (py_svc s) then 1 else 0)"
proof -
  let ?start = "if classify_message_endpoint (gq_path req) = ME_Inference
      then performance_begin (fe_uuid F) (fe_begin_now F) (fe_begin_inst F) (py_svc s) else (None, py_svc s)"
  obtain guard svc1 where b: "?start = (guard, svc1)"
    by (cases ?start)
  obtain r1 cell1 g1 where auth: "gateway_authenticated W S L ops E (fe_token_fault F) (fe_auth_clock F) req tokens
      (map_option (\<lambda>h. pf_cells svc1 ! pg_handle h) guard) g = (r1, cell1, g1)"
    by (cases "gateway_authenticated W S L ops E (fe_token_fault F) (fe_auth_clock F) req tokens
      (map_option (\<lambda>h. pf_cells svc1 ! pg_handle h) guard) g")
  obtain prs where prs: "cell1 = map_option (perf_run prs) (map_option (\<lambda>h. pf_cells svc1 ! pg_handle h) guard)"
    using authenticated_reports [OF auth] by (auto simp: reports_def)
  note def = gateway_fallback_def [of W S L ops E F req tokens "py_svc s" g]
  show ?thesis
  proof (cases guard)
    case None
    then have "svc1 = py_svc s" "\<not> (classify_message_endpoint (gq_path req) = ME_Inference \<and> pf_enabled (py_svc s))"
      using b begin_none by (auto split: if_splits)
    moreover have "psvc = svc1" "held = None"
      using assms(2) b auth None by (simp_all add: def)
    ultimately show ?thesis
      by (intro exI [of _ s]) (simp add: guard_mset_def)
  next
    case (Some h)
    then have begun: "performance_begin (fe_uuid F) (fe_begin_now F) (fe_begin_inst F) (py_svc s) = (Some h, svc1)"
      and inf: "classify_message_endpoint (gq_path req) = ME_Inference"
      using b by (auto split: if_splits)
    let ?s1 = "s\<lparr>py_svc := svc1, py_guards := add_mset h (py_guards s), py_begun := py_begun s + 1\<rparr>"
    let ?s2 = "?s1\<lparr>py_svc := on_cell (pg_handle h) (perf_run prs) svc1\<rparr>"
    have s1: "perf_step s ?s1"
      using begun assms(1) by (rule perf_step.start)
    have s2: "perf_step\<^sup>*\<^sup>* ?s1 ?s2"
      using noted_steps [of "pg_handle h" ?s1 prs] guard_of_begin(1) [OF begun] by simp
    have cell: "on_cell (pg_handle h) (\<lambda>_. perf_run prs (pf_cells svc1 ! pg_handle h)) svc1 = py_svc ?s2"
      by (simp add: on_cell_const)
    have "\<exists>s3. perf_step ?s2 s3 \<and> py_svc s3 = psvc \<and> py_guards s3 = py_guards s + guard_mset held \<and>
        py_begun s3 = py_begun s + 1"
    proof (cases r1)
      case Panic
      then have "psvc = guard_drop (fe_end_now F) (fe_end_inst F) (fe_sent F) h (py_svc ?s2)" "held = None"
        using assms(2) b auth Some prs cell by (simp_all add: def)
      then show ?thesis
        using perf_step.dropped [of h ?s2 "fe_end_now F" "fe_end_inst F" "fe_sent F"] by (auto simp: guard_mset_def)
    next
      case (Done resp)
      then have "guard_response (gr_status resp) (body_ended (gr_body resp)) (fe_end_now F) (fe_end_inst F) (fe_sent F) h
          (py_svc ?s2) = (held, psvc)"
        using assms(2) b auth Some prs cell by (auto simp: def Let_def split: prod.splits)
      then show ?thesis
        using perf_step.respond [of h ?s2] by fastforce
    qed
    then show ?thesis
      using s1 s2 inf guard_of_begin(2) [OF begun]
      by (auto intro: converse_rtranclp_into_rtranclp rtranclp.rtrancl_into_rtrancl)
  qed
qed

definition plain_fallback :: fallback_env where
  "plain_fallback = \<lparr>fe_uuid = ''q'', fe_begin_now = 0, fe_begin_inst = 0, fe_token_fault = None, fe_auth_clock = (0, 0),
     fe_end_now = 0, fe_end_inst = 0, fe_sent = True\<rparr>"

theorem fallback_refines_performance_witness:
  "\<exists>s'. perf_step\<^sup>*\<^sup>* \<lparr>py_svc = performance_start True ''i'' 0, py_guards = {#}, py_begun = 0, py_written = 0\<rparr> s' \<and>
     py_svc s' = fst (snd (snd (gateway_fallback plain_rewriting example_serde example_lib memory_cache (answering_env 200)
       plain_fallback plain_request one_token (performance_start True ''i'' 0) example_gateway))) \<and> py_begun s' = 1"
proof -
  let ?s = "\<lparr>py_svc = performance_start True ''i'' 0, py_guards = {#}, py_begun = 0, py_written = 0\<rparr>"
  obtain r held psvc g' where f: "gateway_fallback plain_rewriting example_serde example_lib memory_cache (answering_env 200)
      plain_fallback plain_request one_token (py_svc ?s) example_gateway = (r, held, psvc, g')"
    by (cases "gateway_fallback plain_rewriting example_serde example_lib memory_cache (answering_env 200)
      plain_fallback plain_request one_token (py_svc ?s) example_gateway")
  have fresh: "fe_uuid plain_fallback \<notin> set (request_ids (py_svc ?s))"
    by (simp add: request_ids_def performance_start_def)
  have one: "classify_message_endpoint (gq_path plain_request) = ME_Inference \<and> pf_enabled (py_svc ?s)"
    by (simp add: plain_request_def classify_message_endpoint_def performance_start_def)
  show ?thesis
    using fallback_refines_performance [OF fresh f] f one by auto
qed

end
