(* ===== verification/Router.thy ===== *)
theory Router
  imports Gateway_Performance Admin Performance_Store OAuth_Flow
begin

text \<open>
  The routes (\<open>src/handler/router.rs\<close>): the pages of the frontend, the endpoints of the administrator behind
  the password, and everything else through the gateway; and the state of the application the handlers share.

  The router and the extractors of \<open>axum\<close> are parameters: whether a path matches a pattern, and what a request
  has as identifier, query or body, or the refusal when it has none. The embedded files of the frontend are a map.
\<close>

section \<open>The frontend\<close>

datatype frontend = FE_Page | FE_Asset

definition spa_handler :: "(string \<Rightarrow> string option) \<Rightarrow> gw_response" where
  "spa_handler assets =
     (case assets ''index.html'' of
        Some d \<Rightarrow> \<lparr>gr_status = 200, gr_headers = [(''content-type'', ''text/html'')], gr_body = GB_Text d\<rparr>
      | None \<Rightarrow> \<lparr>gr_status = 404, gr_headers = [], gr_body = GB_Text ''frontend not built''\<rparr>)"

text \<open>\<open>rsplit('.').next()\<close>: what follows the last dot, or everything.\<close>

definition after_last_dot :: "string \<Rightarrow> string" where
  "after_last_dot path = rev (takeWhile (\<lambda>c. c \<noteq> CHR ''.'') (rev path))"

definition mime_from_path :: "string \<Rightarrow> string" where
  "mime_from_path path =
     (case map_of
        [(''html'', ''text/html''), (''css'', ''text/css''), (''js'', ''application/javascript''),
         (''json'', ''application/json''), (''png'', ''image/png''), (''jpg'', ''image/jpeg''), (''jpeg'', ''image/jpeg''),
         (''svg'', ''image/svg+xml''), (''ico'', ''image/x-icon''), (''woff'', ''font/woff''), (''woff2'', ''font/woff2''),
         (''ttf'', ''font/ttf'')] (after_last_dot path) of
        Some m \<Rightarrow> m | None \<Rightarrow> ''application/octet-stream'')"

definition asset_handler :: "(string \<Rightarrow> string option) \<Rightarrow> string \<Rightarrow> gw_response" where
  "asset_handler assets uri_path =
     (let path = dropWhile (\<lambda>c. c = CHR ''/'') uri_path
      in case assets path of
           Some d \<Rightarrow> \<lparr>gr_status = 200, gr_headers = [(''content-type'', mime_from_path path)], gr_body = GB_Text d\<rparr>
         | None \<Rightarrow> \<lparr>gr_status = 404, gr_headers = [], gr_body = GB_Text ''not found''\<rparr>)"

section \<open>The routes\<close>

datatype endpoint =
    EP_List_Accounts | EP_Create_Account | EP_Update_Account | EP_Delete_Account | EP_Test_Account | EP_Refresh_Usage
  | EP_List_Tokens | EP_Create_Token | EP_Update_Token | EP_Delete_Token | EP_Dashboard
  | EP_Performance | EP_Active | EP_Requests | EP_Detail | EP_Dimensions | EP_Usage | EP_Usage_Dimensions
  | EP_Auth_Url | EP_Setup_Token_Url | EP_Exchange_Code | EP_Exchange_Setup_Token

type_synonym 'e route_table = "(string \<times> (string \<times> 'e) list) list"

definition frontend_routes :: "frontend route_table" where
  "frontend_routes =
     [(''/'', [(''GET'', FE_Page)]), (''/login'', [(''GET'', FE_Page)]), (''/tokens'', [(''GET'', FE_Page)]),
      (''/usage'', [(''GET'', FE_Page)]), (''/performance'', [(''GET'', FE_Page)]),
      (''/assets/*rest'', [(''GET'', FE_Asset)]), (''/favicon.svg'', [(''GET'', FE_Asset)])]"

definition admin_routes :: "endpoint route_table" where
  "admin_routes =
     [(''/admin/accounts'', [(''GET'', EP_List_Accounts), (''POST'', EP_Create_Account)]),
      (''/admin/accounts/:id'', [(''PUT'', EP_Update_Account), (''DELETE'', EP_Delete_Account)]),
      (''/admin/accounts/:id/test'', [(''POST'', EP_Test_Account)]),
      (''/admin/accounts/:id/usage'', [(''POST'', EP_Refresh_Usage)]),
      (''/admin/tokens'', [(''GET'', EP_List_Tokens), (''POST'', EP_Create_Token)]),
      (''/admin/tokens/:id'', [(''PUT'', EP_Update_Token), (''DELETE'', EP_Delete_Token)]),
      (''/admin/dashboard'', [(''GET'', EP_Dashboard)]),
      (''/admin/performance'', [(''GET'', EP_Performance)]),
      (''/admin/performance/active'', [(''GET'', EP_Active)]),
      (''/admin/performance/requests'', [(''GET'', EP_Requests)]),
      (''/admin/performance/requests/:request_id'', [(''GET'', EP_Detail)]),
      (''/admin/performance/dimensions'', [(''GET'', EP_Dimensions)]),
      (''/admin/usage'', [(''GET'', EP_Usage)]),
      (''/admin/usage/dimensions'', [(''GET'', EP_Usage_Dimensions)]),
      (''/admin/oauth/generate-auth-url'', [(''POST'', EP_Auth_Url)]),
      (''/admin/oauth/generate-setup-token-url'', [(''POST'', EP_Setup_Token_Url)]),
      (''/admin/oauth/exchange-code'', [(''POST'', EP_Exchange_Code)]),
      (''/admin/oauth/exchange-setup-token-code'', [(''POST'', EP_Exchange_Setup_Token)])]"

datatype 'e routed = Found 'e | No_Method | No_Route

text \<open>A \<open>HEAD\<close> request is served by the handler of \<open>GET\<close>.\<close>

definition routed_to :: "(string \<Rightarrow> string \<Rightarrow> bool) \<Rightarrow> 'e route_table \<Rightarrow> gw_request \<Rightarrow> 'e routed" where
  "routed_to matches routes req =
     (case find (\<lambda>(pattern, hs). matches pattern (gq_path req)) routes of
        None \<Rightarrow> No_Route
      | Some (pattern, hs) \<Rightarrow>
          (case map_of hs (if gq_method req = ''HEAD'' then ''GET'' else gq_method req) of
             None \<Rightarrow> No_Method | Some h \<Rightarrow> Found h))"

text \<open>The layer with the password wraps every route of the administrator, also for other methods.\<close>

datatype target =
    To_Frontend frontend
  | To_Endpoint endpoint
  | To_Refusal refusal
  | To_No_Method
  | To_Gateway

definition dispatch :: "(string \<Rightarrow> string \<Rightarrow> bool) \<Rightarrow> string \<Rightarrow> gw_request \<Rightarrow> target" where
  "dispatch matches password req =
     (case routed_to matches frontend_routes req of
        Found f \<Rightarrow> To_Frontend f
      | No_Method \<Rightarrow> To_No_Method
      | No_Route \<Rightarrow>
          (case routed_to matches admin_routes req of
             No_Route \<Rightarrow> To_Gateway
           | r \<Rightarrow>
               (case admin_auth password (text_headers (gq_headers req)) of
                  Inl e \<Rightarrow> To_Refusal e
                | Inr _ \<Rightarrow> (case r of Found e \<Rightarrow> To_Endpoint e | _ \<Rightarrow> To_No_Method))))"

section \<open>The application\<close>

text \<open>
  A response body that is still sent (\<open>SlotHeldStream\<close> of \<open>src/service/gateway.rs\<close> inside \<open>PerformanceBody\<close> of
  \<open>src/service/performance.rs\<close>), or a refused response that a task still reads for its usage: the observer of the upstream's stream,
  the slot, the guard, the address of the request's cell if the observer reports to it, and whether the body is a stream.
\<close>

record 'd in_flight =
  if_observer :: "'d response_observer option"
  if_slot :: "slot_holder option"
  if_guard :: "performance_guard option"
  if_cell :: "nat option"
  if_streamed :: bool

record ('c, 'd) app =
  app_gateway :: "'c gateway"
  app_tokens :: token_store
  app_sessions :: session_store
  app_perf :: performance_service
  app_perf_table :: perf_table
  app_usage :: usage_service
  app_usage_store :: usage_store
  app_bodies :: "'d in_flight list"

definition app_accounts :: "('c, 'd) app \<Rightarrow> account_store" where
  "app_accounts app = svc_store (gw_svc (app_gateway app))"

definition put_svc :: "'c account_service \<Rightarrow> ('c, 'd) app \<Rightarrow> ('c, 'd) app" where
  "put_svc svc app = app\<lparr>app_gateway := (app_gateway app)\<lparr>gw_svc := svc\<rparr>\<rparr>"

text \<open>What the extractors read from a request.\<close>

record extractors =
  xt_id :: "gw_request \<Rightarrow> refusal + int"
  xt_request_id :: "gw_request \<Rightarrow> refusal + string"
  xt_page :: "gw_request \<Rightarrow> refusal + int option \<times> int option"
  xt_json :: "gw_request \<Rightarrow> refusal + json"
  xt_account :: "gw_request \<Rightarrow> refusal + create_account_request"
  xt_token :: "gw_request \<Rightarrow> refusal + create_token_request"
  xt_usage :: "gw_request \<Rightarrow> refusal + usage_query"
  xt_performance :: "gw_request \<Rightarrow> refusal + performance_query"
  xt_proxy :: "gw_request \<Rightarrow> refusal + string option"
  xt_code :: "gw_request \<Rightarrow> refusal + string \<times> string"

text \<open>
  What the handling of one request reads from outside: the libraries, the clocks, the errors of its statements, its
  draws, the answers of the endpoints (\<open>ev_fetch\<close> the usage, \<open>ev_post\<close> the tokens, \<open>ev_tester\<close> the connection test).
\<close>

record app_env =
  ev_matches :: "string \<Rightarrow> string \<Rightarrow> bool"
  ev_extract :: extractors
  ev_assets :: "string \<Rightarrow> string option"
  ev_client :: client_lib
  ev_lib :: lib
  ev_calendar :: calendar
  ev_flow :: flow_lib
  ev_codec :: event_codec
  ev_is_uuid :: "string \<Rightarrow> bool"
  ev_pg :: bool
  ev_now :: int
  ev_day_now :: int
  ev_generated :: int
  ev_inst :: int
  ev_fault :: "nat \<Rightarrow> sqlx_error option"
  ev_bytes :: "nat list"
  ev_pick :: nat
  ev_draw :: "nat \<Rightarrow> nat"
  ev_flow_draw :: flow_draw
  ev_oauth :: oauth_env
  ev_fetch :: "string \<Rightarrow> string \<Rightarrow> app_error + json"
  ev_post :: token_endpoint
  ev_tester :: "string \<Rightarrow> string \<Rightarrow> json \<Rightarrow> app_error + unit"
  ev_rewriting :: rewriting
  ev_gateway :: gw_env
  ev_fallback :: fallback_env

datatype answer =
    AN_Refused refusal
  | AN_Error app_error
  | AN_Account account
  | AN_Accounts account_page
  | AN_Json json
  | AN_Token api_token
  | AN_Tokens token_page
  | AN_Dashboard dashboard
  | AN_Report "performance_report \<times> performance_health"
  | AN_Active active_performance
  | AN_Events "performance_event performance_page"
  | AN_Event performance_event
  | AN_Dimensions performance_dimensions
  | AN_Usage "usage_report \<times> usage_health"
  | AN_Usage_Dimensions usage_dimensions
  | AN_Url auth_url_response
  | AN_Exchanged exchange_code_response

definition answered :: "('a \<Rightarrow> answer) \<Rightarrow> app_error + 'a \<Rightarrow> answer" where
  "answered f r = (case r of Inl e \<Rightarrow> AN_Error e | Inr x \<Rightarrow> f x)"

definition error_message :: "app_error \<Rightarrow> json" where
  "error_message e = JObj [(''status'', JStr ''error''), (''message'', JStr (app_error_to_string e))]"

text \<open>\<open>test_account\<close>: the account, its token, and the test with both.\<close>

definition test_account ::
  "serde_lib \<Rightarrow> 'c cache_ops \<Rightarrow> oauth_env \<Rightarrow> sqlx_error option \<Rightarrow> sqlx_error option
     \<Rightarrow> (string \<Rightarrow> string \<Rightarrow> json \<Rightarrow> app_error + unit) \<Rightarrow> int \<Rightarrow> 'c account_service
     \<Rightarrow> (app_error + json) \<times> 'c account_service" where
  "test_account S ops E get_fault get_fault2 tester i svc =
     (case get_by_id S get_fault i (svc_store svc) of
        Inl e \<Rightarrow> (Inl e, svc)
      | Inr account \<Rightarrow>
          (case resolve_upstream_token S ops E get_fault2 i svc of
             (Inl e, svc) \<Rightarrow> (Inr (error_message e), svc)
           | (Inr token, svc) \<Rightarrow>
               (Inr (case tester token (acc_proxy_url account) (acc_canonical_env account) of
                       Inr _ \<Rightarrow> JObj [(''status'', JStr ''ok'')]
                     | Inl e \<Rightarrow> error_message e), svc)))"

text \<open>The handler of an endpoint after its arguments are extracted.\<close>

definition with_arg ::
  "(gw_request \<Rightarrow> refusal + 'a) \<Rightarrow> gw_request \<Rightarrow> ('a \<Rightarrow> answer outcome \<times> ('c, 'd) app) \<Rightarrow> ('c, 'd) app
     \<Rightarrow> answer outcome \<times> ('c, 'd) app" where
  "with_arg x req k app = (case x req of Inl e \<Rightarrow> (Done (AN_Refused e), app) | Inr v \<Rightarrow> k v)"

definition on_accounts ::
  "('a \<Rightarrow> answer) \<Rightarrow> (app_error + 'a) \<times> 'c account_service \<Rightarrow> ('c, 'd) app \<Rightarrow> answer outcome \<times> ('c, 'd) app" where
  "on_accounts f r app = (Done (answered f (fst r)), put_svc (snd r) app)"

definition on_tokens :: "('a \<Rightarrow> answer) \<Rightarrow> (app_error + 'a) \<times> token_store \<Rightarrow> ('c, 'd) app \<Rightarrow> answer outcome \<times> ('c, 'd) app" where
  "on_tokens f r app = (Done (answered f (fst r)), app\<lparr>app_tokens := snd r\<rparr>)"

definition on_sessions ::
  "('a \<Rightarrow> answer) \<Rightarrow> (app_error + 'a) \<times> session_store \<Rightarrow> ('c, 'd) app \<Rightarrow> answer outcome \<times> ('c, 'd) app" where
  "on_sessions f r app = (Done (answered f (fst r)), app\<lparr>app_sessions := snd r\<rparr>)"

fun serve ::
  "serde_lib \<Rightarrow> 'c cache_ops \<Rightarrow> app_env \<Rightarrow> endpoint \<Rightarrow> gw_request \<Rightarrow> ('c, 'd) app \<Rightarrow> answer outcome \<times> ('c, 'd) app" where
  "serve S ops V EP_List_Accounts req app =
     with_arg (xt_page (ev_extract V)) req (\<lambda>(page, page_size).
       (Done (answered AN_Accounts (list_accounts S (ev_fault V 0) (ev_fault V 1) page page_size (gw_svc (app_gateway app)))), app)) app"
| "serve S ops V EP_Create_Account req app =
     with_arg (xt_account (ev_extract V)) req (\<lambda>r.
       case admin_create_account (ev_client V) S (ev_bytes V) (ev_pick V) (ev_now V) (ev_fault V 0) (ev_fault V 1) r (gw_svc (app_gateway app)) of
         (Panic, svc) \<Rightarrow> (Panic, put_svc svc app)
       | (Done r, svc) \<Rightarrow> on_accounts AN_Account (r, svc) app) app"
| "serve S ops V EP_Update_Account req app =
     with_arg (xt_id (ev_extract V)) req (\<lambda>i. with_arg (xt_json (ev_extract V)) req (\<lambda>updates.
       on_accounts AN_Account (admin_update_account (ev_client V) S (ev_now V) (ev_fault V) i updates (gw_svc (app_gateway app))) app) app) app"
| "serve S ops V EP_Delete_Account req app =
     with_arg (xt_id (ev_extract V)) req (\<lambda>i.
       on_accounts AN_Json (admin_delete_account (ev_fault V 0) i (gw_svc (app_gateway app))) app) app"
| "serve S ops V EP_Test_Account req app =
     with_arg (xt_id (ev_extract V)) req (\<lambda>i.
       on_accounts AN_Json (test_account S ops (ev_oauth V) (ev_fault V 0) (ev_fault V 1) (ev_tester V) i (gw_svc (app_gateway app))) app) app"
| "serve S ops V EP_Refresh_Usage req app =
     with_arg (xt_id (ev_extract V)) req (\<lambda>i.
       case admin_refresh_usage S (ev_lib V) ops (ev_oauth V) (ev_now V) (ev_inst V) (ev_fault V 0) (ev_fault V 1) (ev_fetch V) i
              (gw_svc (app_gateway app)) of
         (Panic, svc) \<Rightarrow> (Panic, put_svc svc app)
       | (Done v, svc) \<Rightarrow> (Done (AN_Json v), put_svc svc app)) app"
| "serve S ops V EP_Dashboard req app =
     (Done (answered AN_Dashboard (get_dashboard S (ev_fault V 0) (ev_fault V 1) (gw_svc (app_gateway app)) (app_tokens app))), app)"
| "serve S ops V EP_List_Tokens req app =
     with_arg (xt_page (ev_extract V)) req (\<lambda>(page, page_size).
       (Done (answered AN_Tokens (list_tokens (ev_fault V 0) (ev_fault V 1) page page_size (app_tokens app))), app)) app"
| "serve S ops V EP_Create_Token req app =
     with_arg (xt_token (ev_extract V)) req (\<lambda>r.
       on_tokens AN_Token (create_token (ev_pg V) (ev_now V) (ev_fault V 0) (ev_draw V) r (app_tokens app)) app) app"
| "serve S ops V EP_Update_Token req app =
     with_arg (xt_id (ev_extract V)) req (\<lambda>i. with_arg (xt_json (ev_extract V)) req (\<lambda>updates.
       on_tokens AN_Token (update_token (ev_now V) (ev_fault V 0) (ev_fault V 1) i updates (app_tokens app)) app) app) app"
| "serve S ops V EP_Delete_Token req app =
     with_arg (xt_id (ev_extract V)) req (\<lambda>i.
       on_tokens (\<lambda>_. AN_Json (JObj [(''status'', JStr ''deleted'')])) (delete_token_handler (ev_fault V 0) i (app_tokens app)) app) app"
| "serve S ops V EP_Performance req app =
     with_arg (xt_performance (ev_extract V)) req (\<lambda>q.
       (Done (answered AN_Report (overview (ev_fault V) (ev_now V) (ev_day_now V) q (app_perf app) (app_perf_table app))), app)) app"
| "serve S ops V EP_Active req app =
     with_arg (xt_performance (ev_extract V)) req (\<lambda>q.
       (Done (answered AN_Active (active_requests (ev_now V) (ev_day_now V) (ev_inst V) (ev_generated V) q (app_perf app))), app)) app"
| "serve S ops V EP_Requests req app =
     with_arg (xt_performance (ev_extract V)) req (\<lambda>q.
       (Done (answered AN_Events (requests (ev_codec V) (ev_pg V) (ev_fault V 0) (ev_fault V 1) (ev_now V) (ev_day_now V) q (app_perf_table app))), app)) app"
| "serve S ops V EP_Detail req app =
     with_arg (xt_request_id (ev_extract V)) req (\<lambda>i.
       (Done (answered AN_Event (request_detail (ev_is_uuid V) (ev_codec V) (ev_fault V 0) (ev_now V) i (app_perf_table app))), app)) app"
| "serve S ops V EP_Dimensions req app =
     (Done (answered AN_Dimensions (request_dimensions (ev_fault V 0) (ev_now V) (account_names (app_accounts app))
        (token_names (app_tokens app)) (app_perf_table app))), app)"
| "serve S ops V EP_Usage req app =
     with_arg (xt_usage (ev_extract V)) req (\<lambda>q.
       (outcome_bind (get_usage (ev_client V) (ev_calendar V) (ev_now V) (ev_fault V 0) (ev_fault V 1) q (app_accounts app)
          (app_tokens app) (app_usage app) (app_usage_store app)) (\<lambda>r. Done (answered AN_Usage r)), app)) app"
| "serve S ops V EP_Usage_Dimensions req app =
     (Done (answered AN_Usage_Dimensions (get_usage_dimensions (ev_now V) (ev_fault V 0) (app_accounts app) (app_tokens app)
        (app_usage_store app))), app)"
| "serve S ops V EP_Auth_Url req app =
     with_arg (xt_proxy (ev_extract V)) req (\<lambda>p.
       on_sessions AN_Url (map_prod Inr id (generate_auth_url (ev_flow V) (ev_inst V) (ev_flow_draw V) p (app_sessions app))) app) app"
| "serve S ops V EP_Setup_Token_Url req app =
     with_arg (xt_proxy (ev_extract V)) req (\<lambda>p.
       on_sessions AN_Url (map_prod Inr id (generate_setup_token_url (ev_flow V) (ev_inst V) (ev_flow_draw V) p (app_sessions app))) app) app"
| "serve S ops V EP_Exchange_Code req app =
     with_arg (xt_code (ev_extract V)) req (\<lambda>(i, code).
       on_sessions AN_Exchanged (exchange_code (ev_post V) (ev_now V) (ev_inst V) i code (app_sessions app)) app) app"
| "serve S ops V EP_Exchange_Setup_Token req app =
     with_arg (xt_code (ev_extract V)) req (\<lambda>(i, code).
       on_sessions AN_Exchanged (exchange_setup_token_code (ev_post V) (ev_now V) (ev_inst V) i code (app_sessions app)) app) app"

text \<open>One request: the reply, with the guard the response of the gateway still holds.\<close>

datatype reply =
    RP_Response gw_response
  | RP_Answer answer
  | RP_Gateway gw_response "performance_guard option"

definition refusal_response :: "refusal \<Rightarrow> gw_response" where
  "refusal_response e =
     \<lparr>gr_status = fst e, gr_headers = [(''content-type'', ''application/json'')], gr_body = GB_Json (JObj [(''error'', JStr (snd e))])\<rparr>"

definition no_method :: gw_response where
  "no_method = \<lparr>gr_status = 405, gr_headers = [], gr_body = GB_Empty\<rparr>"

text \<open>
  What the gateway leaves behind: the body of its response, unless it is empty, and the refused responses its tasks still read.
  The observer of a stream reports to the request's cell when there is a guard; a refused response is observed without one.
\<close>

definition body_in_flight :: "'d codec_lib \<Rightarrow> gw_body \<Rightarrow> performance_guard option \<Rightarrow> 'd in_flight list" where
  "body_in_flight C body held =
     (case body of
        GB_Empty \<Rightarrow> []
      | GB_Stream attempt slot \<Rightarrow>
          [\<lparr>if_observer = map_option (\<lambda>a. observer_new C a (held \<noteq> None)) attempt, if_slot = Some slot, if_guard = held,
            if_cell = map_option pg_handle held, if_streamed = True\<rparr>]
      | _ \<Rightarrow> [\<lparr>if_observer = None, if_slot = None, if_guard = held, if_cell = None, if_streamed = False\<rparr>])"

definition drain_in_flight :: "'d codec_lib \<Rightarrow> usage_attempt \<Rightarrow> 'd in_flight" where
  "drain_in_flight C a =
     \<lparr>if_observer = Some (observer_new C a False), if_slot = None, if_guard = None, if_cell = None, if_streamed = True\<rparr>"

definition response_bodies ::
  "'d codec_lib \<Rightarrow> gw_response outcome \<Rightarrow> performance_guard option \<Rightarrow> usage_attempt list \<Rightarrow> 'd in_flight list" where
  "response_bodies C r held drains =
     map (drain_in_flight C) drains @ (case r of Done resp \<Rightarrow> body_in_flight C (gr_body resp) held | Panic \<Rightarrow> [])"

definition app_handle ::
  "'d codec_lib \<Rightarrow> serde_lib \<Rightarrow> 'c cache_ops \<Rightarrow> string \<Rightarrow> app_env \<Rightarrow> gw_request \<Rightarrow> ('c, 'd) app \<Rightarrow> reply outcome \<times> ('c, 'd) app" where
  "app_handle C S ops password V req app =
     (case dispatch (ev_matches V) password req of
        To_Frontend FE_Page \<Rightarrow> (Done (RP_Response (spa_handler (ev_assets V))), app)
      | To_Frontend FE_Asset \<Rightarrow> (Done (RP_Response (asset_handler (ev_assets V) (gq_path req))), app)
      | To_Refusal e \<Rightarrow> (Done (RP_Response (refusal_response e)), app)
      | To_No_Method \<Rightarrow> (Done (RP_Response no_method), app)
      | To_Endpoint e \<Rightarrow>
          (case serve S ops V e req app of (r, app) \<Rightarrow> (outcome_bind r (\<lambda>a. Done (RP_Answer a)), app))
      | To_Gateway \<Rightarrow>
          (case gateway_fallback (ev_rewriting V) S (ev_lib V) ops (ev_gateway V) (ev_fallback V) req (app_tokens app)
                  (app_perf app) (app_gateway app) of
             (r, held, psvc, g) \<Rightarrow>
               (outcome_bind r (\<lambda>resp. Done (RP_Gateway resp held)),
                app\<lparr>app_perf := psvc, app_gateway := g\<lparr>gw_drains := []\<rparr>,
                    app_bodies := app_bodies app @ response_bodies C r held (gw_drains g)\<rparr>)))"

end
