(* ===== verification/Application.thy ===== *)
theory Application
  imports Router
begin

text \<open>
  The application as it runs: requests, the bodies of their responses as the clients read or drop them, and the tasks in the
  background, in any order. One step is one request up to its response, one poll or the end of one body, one spawned task
  (a slot given back, limits written to the table), or one round of the writer, the price refresh, the retention of the
  usage service (\<open>src/service/usage.rs\<close>) or of the writer or the cleanup of the performance service
  (\<open>src/service/performance.rs\<close>).

  A step is atomic: the handlers of two requests do not interleave here, but the bodies and the tasks do.
\<close>

section \<open>Response bodies\<close>

text \<open>
  What one poll or drop of a body reads from outside: the context of the observer, whether a read error is a timeout, and for
  the completion of the request its two clocks and the answer of the channel.
\<close>

record body_ctx =
  bx_obs :: obs_ctx
  bx_timeout :: bool
  bx_now :: int
  bx_inst :: int
  bx_sent :: bool

text \<open>A stream never says that it has ended with its last item; any other body is one frame and says so with it.\<close>

definition frame_of :: "bool \<Rightarrow> stream_poll \<Rightarrow> frame_poll" where
  "frame_of streamed item =
     (case item of SP_Data _ \<Rightarrow> FrameData (\<not> streamed) | SP_Error \<Rightarrow> FrameError | SP_End \<Rightarrow> FrameEnd | SP_Pending \<Rightarrow> FramePending)"

text \<open>An error of the upstream's stream is noted before the observer sees it.\<close>

definition read_failure :: "body_ctx \<Rightarrow> stream_poll \<Rightarrow> perf_cell \<Rightarrow> perf_cell" where
  "read_failure B item cell =
     (case item of
        SP_Error \<Rightarrow> map_option (handle_failure (if bx_timeout B then PO_ReadTimeout else PO_StreamError) (cx_inst (bx_obs B))) cell
      | _ \<Rightarrow> cell)"

definition cell_of :: "'d in_flight \<Rightarrow> performance_service \<Rightarrow> perf_cell" where
  "cell_of b psvc = map_option (\<lambda>h. pf_cells psvc ! h) (if_cell b)"

definition put_cell :: "'d in_flight \<Rightarrow> perf_cell \<Rightarrow> performance_service \<Rightarrow> performance_service" where
  "put_cell b cell psvc = (case (if_cell b, cell) of (Some h, Some c) \<Rightarrow> on_cell h (\<lambda>_. c) psvc | _ \<Rightarrow> psvc)"

text \<open>One poll: the observed stream inside, then the body that completes the request. A decoder that never returns is \<open>None\<close>.\<close>

definition poll_body ::
  "'d codec_lib \<Rightarrow> serde_lib \<Rightarrow> body_ctx \<Rightarrow> stream_poll \<Rightarrow> 'd in_flight \<Rightarrow> performance_service \<Rightarrow> usage_service
     \<Rightarrow> ('d in_flight \<times> performance_service \<times> usage_service) option" where
  "poll_body C S B item b psvc usvc =
     (case stream_poll_next C S (bx_obs B) item (if_observer b, read_failure B item (cell_of b psvc), usvc) of
        None \<Rightarrow> None
      | Some (out, observer, cell, usvc) \<Rightarrow>
          (let (held, psvc) = body_poll (frame_of (if_streamed b) out) (bx_now B) (bx_inst B) (bx_sent B) (if_guard b)
                 (put_cell b cell psvc)
           in Some (b\<lparr>if_observer := observer, if_guard := held\<rparr>, psvc, usvc)))"

text \<open>A body is dropped from inside: its observer, its slot, its guard.\<close>

definition drop_in_flight ::
  "'d codec_lib \<Rightarrow> serde_lib \<Rightarrow> body_ctx \<Rightarrow> 'd in_flight \<Rightarrow> performance_service \<Rightarrow> usage_service \<Rightarrow> 'c gateway
     \<Rightarrow> performance_service \<times> usage_service \<times> 'c gateway" where
  "drop_in_flight C S B b psvc usvc g =
     (let (_, cell, usvc) = stream_drop C S (bx_obs B) (if_observer b, cell_of b psvc, usvc);
          psvc = put_cell b cell psvc;
          g = (case if_slot b of Some h \<Rightarrow> drop_slot h g | None \<Rightarrow> g);
          psvc = (case if_guard b of Some h \<Rightarrow> guard_drop (bx_now B) (bx_inst B) (bx_sent B) h psvc | None \<Rightarrow> psvc)
      in (psvc, usvc, g))"

section \<open>The writer of the performance service\<close>

text \<open>The attempts left to store the events: the answers, and the table.\<close>

fun stored_attempts ::
  "event_codec \<Rightarrow> nat \<Rightarrow> sqlx_error option list \<Rightarrow> performance_event list \<Rightarrow> perf_table \<Rightarrow> nat option list \<times> perf_table" where
  "stored_attempts C 0 faults es t = ([], t)"
| "stored_attempts C (Suc n) faults es t =
     (case perf_insert_batch C (next_fault faults) es t of
        (Inr k, t) \<Rightarrow> ([Some k], t)
      | (Inl _, t) \<Rightarrow> (let (answers, t) = stored_attempts C n (tl faults) es t in (None # answers, t)))"

definition perf_write_round ::
  "event_codec \<Rightarrow> int \<Rightarrow> nat \<Rightarrow> sqlx_error option list \<Rightarrow> performance_service \<Rightarrow> perf_table \<Rightarrow> performance_service \<times> perf_table" where
  "perf_write_round C now n faults psvc t =
     (let n = min n 128;
          kept = batch_kept now n psvc;
          (answers, t) = (if kept = [] then ([], t) else stored_attempts C 3 faults kept t)
      in (perf_writer_batch now answers n psvc, t))"

section \<open>Steps\<close>

datatype app_step =
    AS_Request app_env gw_request
  | AS_Poll nat body_ctx stream_poll
  | AS_Drop nat body_ctx
  | AS_Release nat int
  | AS_Flush nat lib int "sqlx_error option" "sqlx_error option"
  | AS_Usage_Writer nat "sqlx_error option list"
  | AS_Backfill "sqlx_error option list"
  | AS_Prices "string + pricing_snapshot" int "sqlx_error option list"
  | AS_Retention int "sqlx_error option list"
  | AS_Perf_Writer event_codec int nat "sqlx_error option list"
  | AS_Perf_Cleanup int "sqlx_error option list"

definition remove_nth :: "nat \<Rightarrow> 'a list \<Rightarrow> 'a list" where
  "remove_nth i xs = take i xs @ drop (Suc i) xs"

text \<open>The tasks the gateway spawned.\<close>

definition run_release :: "'c cache_ops \<Rightarrow> nat \<Rightarrow> int \<Rightarrow> 'c gateway \<Rightarrow> 'c gateway" where
  "run_release ops i inst g =
     (if i < length (gw_releases g)
      then (on_svc (\<lambda>svc. svc\<lparr>svc_cache := co_release_slot ops inst (gw_releases g ! i) (svc_cache svc)\<rparr>) g)
             \<lparr>gw_releases := remove_nth i (gw_releases g)\<rparr>
      else g)"

definition run_flush ::
  "serde_lib \<Rightarrow> nat \<Rightarrow> lib \<Rightarrow> int \<Rightarrow> sqlx_error option \<Rightarrow> sqlx_error option \<Rightarrow> 'c gateway \<Rightarrow> 'c gateway" where
  "run_flush S i L now usage_fault limit_fault g =
     (if i < length (gw_flushes g)
      then (on_svc (\<lambda>svc. svc\<lparr>svc_store := snd (flush_to_db S L now usage_fault limit_fault (gw_flushes g ! i)
              (svc_limit svc) (svc_store svc))\<rparr>) g)\<lparr>gw_flushes := remove_nth i (gw_flushes g)\<rparr>
      else g)"

text \<open>A task that panics, or a poll that never returns, leaves the rest of the application as it was.\<close>

definition on_usage :: "(usage_service \<times> usage_store \<Rightarrow> usage_service \<times> usage_store) \<Rightarrow> ('c, 'd) app \<Rightarrow> ('c, 'd) app" where
  "on_usage f app = (case f (app_usage app, app_usage_store app) of (svc, st) \<Rightarrow> app\<lparr>app_usage := svc, app_usage_store := st\<rparr>)"

definition app_poll ::
  "'d codec_lib \<Rightarrow> serde_lib \<Rightarrow> nat \<Rightarrow> body_ctx \<Rightarrow> stream_poll \<Rightarrow> ('c, 'd) app \<Rightarrow> ('c, 'd) app" where
  "app_poll C S i B item app =
     (if i < length (app_bodies app)
      then case poll_body C S B item (app_bodies app ! i) (app_perf app) (app_usage app) of
             None \<Rightarrow> app
           | Some (b, psvc, usvc) \<Rightarrow> app\<lparr>app_bodies := (app_bodies app)[i := b], app_perf := psvc, app_usage := usvc\<rparr>
      else app)"

definition app_drop ::
  "'d codec_lib \<Rightarrow> serde_lib \<Rightarrow> nat \<Rightarrow> body_ctx \<Rightarrow> ('c, 'd) app \<Rightarrow> ('c, 'd) app" where
  "app_drop C S i B app =
     (if i < length (app_bodies app)
      then case drop_in_flight C S B (app_bodies app ! i) (app_perf app) (app_usage app) (app_gateway app) of
             (psvc, usvc, g) \<Rightarrow>
               app\<lparr>app_bodies := remove_nth i (app_bodies app), app_perf := psvc, app_usage := usvc, app_gateway := g\<rparr>
      else app)"

fun app_exec ::
  "'d codec_lib \<Rightarrow> serde_lib \<Rightarrow> 'c cache_ops \<Rightarrow> string \<Rightarrow> app_step \<Rightarrow> ('c, 'd) app \<Rightarrow> ('c, 'd) app" where
  "app_exec C S ops password (AS_Request V req) app = snd (app_handle C S ops password V req app)"
| "app_exec C S ops password (AS_Poll i B item) app = app_poll C S i B item app"
| "app_exec C S ops password (AS_Drop i B) app = app_drop C S i B app"
| "app_exec C S ops password (AS_Release i inst) app = app\<lparr>app_gateway := run_release ops i inst (app_gateway app)\<rparr>"
| "app_exec C S ops password (AS_Flush i L now f f') app = app\<lparr>app_gateway := run_flush S i L now f f' (app_gateway app)\<rparr>"
| "app_exec C S ops password (AS_Usage_Writer n faults) app = on_usage (usage_writer_batch n faults) app"
| "app_exec C S ops password (AS_Backfill faults) app = on_usage (pricing_refresh_start faults) app"
| "app_exec C S ops password (AS_Prices fetched now faults) app =
     on_usage (\<lambda>sv. case pricing_refresh_round S fetched now faults sv of Panic \<Rightarrow> sv | Done sv \<Rightarrow> sv) app"
| "app_exec C S ops password (AS_Retention now faults) app = app\<lparr>app_usage_store := retention_round now faults (app_usage_store app)\<rparr>"
| "app_exec C S ops password (AS_Perf_Writer E now n faults) app =
     (case perf_write_round E now n faults (app_perf app) (app_perf_table app) of
        (psvc, t) \<Rightarrow> app\<lparr>app_perf := psvc, app_perf_table := t\<rparr>)"
| "app_exec C S ops password (AS_Perf_Cleanup now faults) app =
     app\<lparr>app_perf_table := perf_cleanup (retention_day now) faults (app_perf_table app)\<rparr>"

definition app_run ::
  "'d codec_lib \<Rightarrow> serde_lib \<Rightarrow> 'c cache_ops \<Rightarrow> string \<Rightarrow> app_step list \<Rightarrow> ('c, 'd) app \<Rightarrow> ('c, 'd) app" where
  "app_run C S ops password steps app = fold (app_exec C S ops password) steps app"

end
