(* ===== verification/Usage_Parser_Facts.thy ===== *)
theory Usage_Parser_Facts
  imports Usage_Parser
begin

text \<open>
  Correctness of the usage parsers: chunk boundaries do not matter, the event-stream parser
  computes what a line-by-line reading of the whole response computes, the buffers are bounded,
  and a compressed response is read as its decoded bytes.
\<close>

section \<open>The reference reading\<close>

definition LF :: char where "LF = CHR 0x0A"

definition sse_lines :: "string \<Rightarrow> string list" where
  "sse_lines bytes = split_by (\<lambda>c. c = LF) bytes"

text \<open>
  What a line of a response means to the reference: an event, a \<open>data:\<close> line that is not JSON, or a line over the
  limit, whatever it says.
\<close>

datatype sse_item = SI_Event json | SI_Malformed | SI_Oversize

definition line_item :: "serde_lib \<Rightarrow> string \<Rightarrow> sse_item option" where
  "line_item S l =
     (if length l > SSE_LINE_LIMIT then Some SI_Oversize
      else map_option (\<lambda>d. case sj_from_str S d of Some v \<Rightarrow> SI_Event v | None \<Rightarrow> SI_Malformed) (line_data l))"

definition sse_items :: "serde_lib \<Rightarrow> string \<Rightarrow> sse_item list" where
  "sse_items S bytes = List.map_filter (line_item S) (sse_lines bytes)"

definition run_item :: "sse_item \<Rightarrow> sse_parser \<Rightarrow> sse_parser" where
  "run_item e p =
     (case e of
        SI_Event v \<Rightarrow> process_event v p
      | SI_Malformed \<Rightarrow> p\<lparr>sp_invalid := True\<rparr>
      | SI_Oversize \<Rightarrow> p\<lparr>sp_invalid := True, sp_oversize := True\<rparr>)"

fun run_items :: "sse_item list \<Rightarrow> sse_parser \<Rightarrow> sse_parser" where
  "run_items [] p = p"
| "run_items (e # es) p = (if sse_stopped p then p else run_items es (run_item e p))"

section \<open>Chunks\<close>

lemma sse_bytes_append:
  "\<not> sse_stopped (fst pc) \<Longrightarrow> sse_bytes S inst (xs @ ys) pc = sse_feed S inst ys (sse_bytes S inst xs pc)"
proof (induction S inst xs pc rule: sse_bytes.induct)
  case (1 S inst pc)
  then show ?case by (simp add: sse_feed_def)
next
  case (2 S inst b bs p c)
  show ?case
  proof (cases "b = CHR 0x0A")
    case True
    then show ?thesis
      using 2 by (auto simp: sse_feed_def split: prod.split)
  next
    case False
    then show ?thesis
      using 2 by (auto simp: sse_feed_def sse_stopped_def)
  qed
qed

lemma sse_feed_append: "sse_feed S inst (xs @ ys) pc = sse_feed S inst ys (sse_feed S inst xs pc)"
  by (simp add: sse_feed_def sse_bytes_append)

lemma process_line_parser: "fst (process_line S i (p, c)) = fst (process_line S j (p, d))"
  by (simp add: process_line_def split: option.split)

lemma clear_line_fst: "fst (clear_line pc) = (fst pc)\<lparr>sp_line := []\<rparr>"
  by (simp add: clear_line_def)

lemma sse_bytes_parser: "fst (sse_bytes S i bs (p, c)) = fst (sse_bytes S j bs (p, d))"
proof (induction bs arbitrary: p c d)
  case (Cons b bs)
  obtain p1 c1 where 1: "clear_line (process_line S i (p, c)) = (p1, c1)" by fastforce
  obtain p2 c2 where 2: "clear_line (process_line S j (p, d)) = (p2, c2)" by fastforce
  have "p1 = p2"
    using 1 2 process_line_parser clear_line_fst by (metis fst_conv)
  then show ?case
    using Cons 1 2 by simp
qed simp

lemma sse_finish_parser: "fst (sse_finish S i (p, c)) = fst (sse_finish S j (p, d))"
  by (simp add: sse_finish_def clear_line_fst process_line_parser [of S i p c j d])

text \<open>The parser alone.\<close>

definition sse_pure :: "serde_lib \<Rightarrow> string \<Rightarrow> sse_parser \<Rightarrow> sse_parser" where
  "sse_pure S bytes p = fst (sse_feed S 0 bytes (p, None))"

definition sse_end :: "serde_lib \<Rightarrow> sse_parser \<Rightarrow> sse_parser" where
  "sse_end S p = fst (sse_finish S 0 (p, None))"

lemma sse_feed_parser: "fst (sse_feed S t bytes (p, c)) = sse_pure S bytes p"
  using sse_bytes_parser [of S t bytes p c 0 None] by (simp add: sse_pure_def sse_feed_def)

lemma sse_finish_pure: "fst (sse_finish S t (p, c)) = sse_end S p"
  by (simp add: sse_end_def sse_finish_parser [of S t p c 0 None])

lemma sse_pure_append: "sse_pure S (xs @ ys) p = sse_pure S ys (sse_pure S xs p)"
  by (simp add: sse_pure_def sse_feed_append) (metis prod.collapse sse_feed_parser sse_pure_def)

lemma sse_pure_Nil [simp]: "sse_pure S [] p = p"
  by (simp add: sse_pure_def sse_feed_def)

lemma sse_pure_stopped: "sse_stopped p \<Longrightarrow> sse_pure S bs p = p"
  by (simp add: sse_pure_def sse_feed_def)

section \<open>Lines\<close>

lemma process_event_line: "process_event v (p\<lparr>sp_line := l\<rparr>) = (process_event v p)\<lparr>sp_line := l\<rparr>"
  by (simp add: process_event_def apply_usage_def Let_def split: option.split)

lemma run_item_line: "run_item e (p\<lparr>sp_line := l\<rparr>) = (run_item e p)\<lparr>sp_line := l\<rparr>"
  by (simp add: run_item_def process_event_line split: sse_item.split)

lemma run_item_keeps_line: "sp_line (run_item e p) = sp_line p"
  by (simp add: run_item_def process_event_def apply_usage_def Let_def split: option.split sse_item.split)

lemma sse_lines_Cons:
  "LF \<notin> set l \<Longrightarrow> sse_lines (l @ LF # bs) = l # sse_lines bs"
  "LF \<notin> set l \<Longrightarrow> sse_lines l = [l]"
  unfolding sse_lines_def by (induction l) auto

lemma sse_lines_head:
  assumes "LF \<notin> set l" shows "\<exists>w ws. sse_lines (l @ bs) = w # ws \<and> length l \<le> length w"
  using assms unfolding sse_lines_def
proof (induction l)
  case Nil
  then show ?case by (simp add: neq_Nil_conv [symmetric])
next
  case (Cons c l)
  then show ?case by (auto split: list.splits)
qed

lemma process_line_item:
  assumes "length (sp_line p) \<le> SSE_LINE_LIMIT"
  shows "(fst (process_line S i (p, c)))\<lparr>sp_line := []\<rparr> =
     (case line_item S (sp_line p) of None \<Rightarrow> p\<lparr>sp_line := []\<rparr> | Some e \<Rightarrow> run_item e (p\<lparr>sp_line := []\<rparr>))"
  using assms by (simp add: process_line_def line_item_def run_item_def process_event_line split: option.split)

lemma line_data_Nil [simp]: "line_data [] = None"
  by (simp add: line_data_def strip_suffix_def strip_prefix_def Let_def)

lemma sse_end_item:
  assumes "\<not> sse_stopped p" "LF \<notin> set (sp_line p)" "length (sp_line p) \<le> SSE_LINE_LIMIT"
  shows "sse_end S p = run_items (sse_items S (sp_line p)) (p\<lparr>sp_line := []\<rparr>)"
proof (cases "sp_line p = []")
  case True
  then have "p\<lparr>sp_line := []\<rparr> = p" by (simp add: sse_parser.equality)
  then show ?thesis
    using True assms
    by (simp add: sse_end_def sse_finish_def sse_items_def sse_lines_def line_item_def List.map_filter_simps)
next
  case False
  then have "sse_end S p = (fst (process_line S 0 (p, None)))\<lparr>sp_line := []\<rparr>"
    using assms(1) by (simp add: sse_end_def sse_finish_def sse_stopped_def clear_line_fst)
  then show ?thesis
    using assms unfolding process_line_item [OF assms(3)]
    by (simp add: sse_items_def sse_lines_Cons(2) List.map_filter_simps sse_stopped_def split: option.split)
qed

lemma sse_end_stopped: "sse_stopped p \<Longrightarrow> sse_end S p = p"
  by (auto simp: sse_end_def sse_finish_def sse_stopped_def)

lemma run_items_stopped: "sse_stopped p \<Longrightarrow> run_items es p = p"
  by (cases es) simp_all

lemma sse_pure_Cons:
  assumes "\<not> sse_stopped p"
  shows "sse_pure S (b # bs) p =
    (if b = LF then sse_pure S bs ((fst (process_line S 0 (p, None)))\<lparr>sp_line := []\<rparr>)
     else if length (sp_line p) \<ge> SSE_LINE_LIMIT
     then p\<lparr>sp_line := [], sp_invalid := True, sp_oversize := True\<rparr>
     else sse_pure S bs (p\<lparr>sp_line := sp_line p @ [b]\<rparr>))"
proof -
  obtain q d where q: "process_line S 0 (p, None) = (q, d)" by fastforce
  have ns: "\<not> sse_stopped (p\<lparr>sp_line := l\<rparr>)" for l
    using assms by (simp add: sse_stopped_def)
  show ?thesis
    using assms ns sse_bytes_parser [of S 0 bs "q\<lparr>sp_line := []\<rparr>" d 0 None]
    by (auto simp: sse_pure_def sse_feed_def q clear_line_def LF_def)
qed

text \<open>The parser fed with the rest of a response computes the reference reading.\<close>

lemma sse_reference:
  assumes "\<not> sse_stopped p" "LF \<notin> set (sp_line p)" "length (sp_line p) \<le> SSE_LINE_LIMIT"
  shows "sse_end S (sse_pure S bs p) = run_items (sse_items S (sp_line p @ bs)) (p\<lparr>sp_line := []\<rparr>)"
  using assms
proof (induction bs arbitrary: p)
  case Nil
  then show ?case by (simp add: sse_end_item)
next
  case (Cons b bs)
  let ?p0 = "p\<lparr>sp_line := []\<rparr>"
  have p0: "\<not> sse_stopped ?p0"
    using Cons.prems(1) by (simp add: sse_stopped_def)
  consider (line) "b = LF" | (long) "b \<noteq> LF" "length (sp_line p) = SSE_LINE_LIMIT"
    | (byte) "b \<noteq> LF" "length (sp_line p) < SSE_LINE_LIMIT"
    using Cons.prems(3) by linarith
  then show ?case
  proof cases
    case line
    let ?q = "case line_item S (sp_line p) of None \<Rightarrow> ?p0 | Some e \<Rightarrow> run_item e ?p0"
    have q0: "sp_line ?q = []"
      by (simp add: run_item_keeps_line split: option.split)
    have q1: "?q\<lparr>sp_line := []\<rparr> = ?q"
      using q0 by (simp add: sse_parser.equality)
    have lines: "sse_lines (sp_line p @ b # bs) = sp_line p # sse_lines bs"
      using Cons.prems(2) line by (simp add: sse_lines_Cons)
    have step: "sse_pure S (b # bs) p = sse_pure S bs ?q"
      using Cons.prems(1,3) line by (simp add: sse_pure_Cons process_line_item)
    have ref: "run_items (sse_items S (sp_line p @ b # bs)) ?p0 = run_items (sse_items S bs) ?q"
      using p0 lines by (simp add: sse_items_def List.map_filter_simps split: option.split)
    show ?thesis
    proof (cases "sse_stopped ?q")
      case True
      then show ?thesis
        using step ref by (simp add: sse_pure_stopped sse_end_stopped run_items_stopped)
    next
      case False
      then show ?thesis
        using Cons.IH [OF False] q0 q1 step ref by simp
    qed
  next
    case long
    let ?q = "p\<lparr>sp_line := [], sp_invalid := True, sp_oversize := True\<rparr>"
    have stop: "sse_stopped ?q"
      by (simp add: sse_stopped_def)
    have "sse_pure S (b # bs) p = ?q"
      using Cons.prems(1) long by (simp add: sse_pure_Cons)
    then have run: "sse_end S (sse_pure S (b # bs) p) = ?q"
      using stop by (simp add: sse_end_stopped)
    have "LF \<notin> set (sp_line p @ [b])"
      using Cons.prems(2) long(1) by auto
    then obtain w ws where w: "sse_lines ((sp_line p @ [b]) @ bs) = w # ws" "length (sp_line p @ [b]) \<le> length w"
      using sse_lines_head by blast
    then have "line_item S w = Some SI_Oversize"
      using long(2) by (simp add: line_item_def)
    then have "run_items (sse_items S (sp_line p @ b # bs)) ?p0 = run_items (List.map_filter (line_item S) ws) ?q"
      using w(1) p0 by (simp add: sse_items_def List.map_filter_simps run_item_def)
    then show ?thesis
      using run stop by (simp add: run_items_stopped)
  next
    case byte
    let ?q = "p\<lparr>sp_line := sp_line p @ [b]\<rparr>"
    have q: "\<not> sse_stopped ?q" "LF \<notin> set (sp_line ?q)" "length (sp_line ?q) \<le> SSE_LINE_LIMIT"
      using Cons.prems(1,2) byte by (auto simp: sse_stopped_def)
    have "sse_pure S (b # bs) p = sse_pure S bs ?q"
      using Cons.prems(1) byte by (simp add: sse_pure_Cons)
    then show ?thesis
      using Cons.IH [OF q] by simp
  qed
qed

section \<open>Through the decoders\<close>

fun encoded_run ::
  "'d codec_lib \<Rightarrow> serde_lib \<Rightarrow> (int \<times> string) list \<Rightarrow> 'd encoded_parser \<times> perf_cell
     \<Rightarrow> ('d encoded_parser \<times> perf_cell) option" where
  "encoded_run C S [] ec = Some ec"
| "encoded_run C S ((t, bytes) # chunks) ec =
     Option.bind (encoded_feed C S t bytes ec) (encoded_run C S chunks)"

text \<open>What a sound transport decodes to; \<open>None\<close> when the library reports an error.\<close>

fun decode_run :: "'d codec_lib \<Rightarrow> string list \<Rightarrow> 'd \<Rightarrow> string option" where
  "decode_run C [] d = (let ((ps, sound), d) = cl_finish C d in if sound then Some (concat ps) else None)"
| "decode_run C (b # bs) d =
     (if b = [] then decode_run C bs d
      else let ((ps, sound), d) = cl_write C b d
           in if sound then map_option (\<lambda>r. concat ps @ r) (decode_run C bs d) else None)"

text \<open>Deflate: the first two bytes, in whatever chunks they come, choose between the two formats.\<close>

fun deflate_run :: "'d codec_lib \<Rightarrow> string list \<Rightarrow> string \<Rightarrow> string option" where
  "deflate_run C [] pfx = None"
| "deflate_run C (b # bs) pfx =
     (let n = min (2 - length pfx) (length b); pfx = pfx @ take n b
      in if length pfx < 2 then deflate_run C bs pfx
         else decode_run C (pfx # drop n b # bs) (if is_zlib_header (pfx ! 0) (pfx ! 1) then cl_zlib C else cl_raw C))"

fun rest_decoded :: "'d codec_lib \<Rightarrow> 'd decoder \<Rightarrow> string list \<Rightarrow> string option" where
  "rest_decoded C D_Identity chunks = Some (concat chunks)"
| "rest_decoded C (D_Gzip d) chunks = decode_run C chunks d"
| "rest_decoded C (D_Brotli d) chunks = decode_run C chunks d"
| "rest_decoded C (D_Deflate (DS_Pending pfx)) chunks = deflate_run C chunks pfx"
| "rest_decoded C (D_Deflate (DS_Zlib d)) chunks = decode_run C chunks d"
| "rest_decoded C (D_Deflate (DS_Raw d)) chunks = decode_run C chunks d"
| "rest_decoded C _ chunks = None"

lemma sink_write_sse:
  assumes "\<not> sp_invalid p"
  shows "\<exists>c'. sink_write S t b (RP_Sse p, c) = (\<not> sp_invalid (sse_pure S b p), RP_Sse (sse_pure S b p), c')"
proof -
  obtain q c' where "sse_feed S t b (p, c) = (q, c')" by fastforce
  then show ?thesis
    using assms sse_feed_parser [of S t b p c] by (auto simp: sink_write_def)
qed

lemma sink_pieces_sse:
  "\<not> sp_invalid p \<Longrightarrow> \<exists>c'. sink_pieces S t ps (RP_Sse p, c) =
     (\<not> sp_invalid (sse_pure S (concat ps) p), RP_Sse (sse_pure S (concat ps) p), c')"
proof (induction ps arbitrary: p c)
  case (Cons b ps)
  obtain c' where w: "sink_write S t b (RP_Sse p, c) = (\<not> sp_invalid (sse_pure S b p), RP_Sse (sse_pure S b p), c')"
    using sink_write_sse [OF Cons.prems] by blast
  show ?case
  proof (cases "sp_invalid (sse_pure S b p)")
    case True
    then show ?thesis
      using w by (simp add: sse_pure_append sse_pure_stopped sse_stopped_def)
  next
    case False
    then show ?thesis
      using Cons.IH [OF False, of c'] w by (simp add: sse_pure_append)
  qed
qed simp

text \<open>One write and the end of a transport, for the decoders the reference covers.\<close>

lemma codec_write_sse:
  assumes "\<not> sp_invalid p" "decode_run C (b # bs) d = Some bytes"
  obtains d' ps c' r where "codec_write C S t b (d, (RP_Sse p, c)) =
      (\<not> sp_invalid (sse_pure S ps p), d', (RP_Sse (sse_pure S ps p), c'))" "decode_run C bs d' = Some r" "bytes = ps @ r"
proof (cases "b = []")
  case True
  then show ?thesis
    using assms by (intro that [of "[]" d c bytes]) (simp_all add: codec_write_def)
next
  case False
  obtain ps sound d' where w: "cl_write C b d = ((ps, sound), d')"
    by (metis surj_pair)
  obtain c' where "sink_pieces S t ps (RP_Sse p, c) =
      (\<not> sp_invalid (sse_pure S (concat ps) p), RP_Sse (sse_pure S (concat ps) p), c')"
    using sink_pieces_sse [OF assms(1)] by blast
  moreover obtain r where "sound" "decode_run C bs d' = Some r" "bytes = concat ps @ r"
    using assms(2) w False by (auto split: if_splits)
  ultimately show ?thesis
    using w False by (intro that [of "concat ps" d' c' r]) (simp_all add: codec_write_def)
qed

lemma deflate_feed_sse:
  assumes "\<not> sp_invalid p" "deflate_run C (b # bs) pfx = Some bytes"
  shows "\<exists>st' ps r c'. deflate_feed C S t b (DS_Pending pfx, (RP_Sse p, c)) =
      (\<not> sp_invalid (sse_pure S ps p), st', (RP_Sse (sse_pure S ps p), c')) \<and>
    (sp_invalid (sse_pure S ps p) \<or> rest_decoded C (D_Deflate st') bs = Some r) \<and> bytes = ps @ r"
proof -
  let ?n = "min (2 - length pfx) (length b)"
  let ?pfx = "pfx @ take ?n b"
  show ?thesis
  proof (cases "length ?pfx < 2")
    case True
    then have "deflate_feed C S t b (DS_Pending pfx, (RP_Sse p, c)) = (True, DS_Pending ?pfx, (RP_Sse p, c))"
      by (simp only: deflate_feed.simps Let_def if_True)
    moreover have "deflate_run C bs ?pfx = Some bytes"
      using assms(2) True by (simp only: deflate_run.simps Let_def if_True)
    ultimately show ?thesis
      using assms(1) by (intro exI [of _ "DS_Pending ?pfx"] exI [of _ "[]"] exI [of _ bytes] exI [of _ c]) simp
  next
    case False
    let ?z = "is_zlib_header (?pfx ! 0) (?pfx ! 1)"
    let ?mk = "\<lambda>d. if ?z then DS_Zlib d else DS_Raw d"
    let ?d = "if ?z then cl_zlib C else cl_raw C"
    have mk: "(if ?z then DS_Zlib (cl_zlib C) else DS_Raw (cl_raw C)) = ?mk ?d"
      by simp
    have wr: "deflate_write C S t x (?mk d, k) = (case codec_write C S t x (d, k) of (ok, d, k) \<Rightarrow> (ok, ?mk d, k))" for x d k
      by (simp add: Let_def split: prod.split)
    have feed: "deflate_feed C S t b (DS_Pending pfx, (RP_Sse p, c)) =
        (case deflate_write C S t ?pfx (?mk ?d, (RP_Sse p, c)) of
           (ok, st, k) \<Rightarrow> if ok then deflate_write C S t (drop ?n b) (st, k) else (False, st, k))"
      unfolding mk [symmetric] by (simp only: deflate_feed.simps Let_def False if_False)
    have run: "decode_run C (?pfx # drop ?n b # bs) ?d = Some bytes"
      using assms(2) False by (simp only: deflate_run.simps Let_def if_False)
    obtain d1 ps1 c1 r1 where w1: "codec_write C S t ?pfx (?d, (RP_Sse p, c)) =
        (\<not> sp_invalid (sse_pure S ps1 p), d1, (RP_Sse (sse_pure S ps1 p), c1))"
      "decode_run C (drop ?n b # bs) d1 = Some r1" "bytes = ps1 @ r1"
      using codec_write_sse [OF assms(1) run] .
    show ?thesis
    proof (cases "sp_invalid (sse_pure S ps1 p)")
      case True
      then show ?thesis
        unfolding feed wr w1(1) using w1(3)
        by (intro exI [of _ "?mk d1"] exI [of _ ps1] exI [of _ r1] exI [of _ c1]) simp
    next
      case ok: False
      obtain d2 ps2 c2 r2 where w2: "codec_write C S t (drop ?n b) (d1, (RP_Sse (sse_pure S ps1 p), c1)) =
          (\<not> sp_invalid (sse_pure S ps2 (sse_pure S ps1 p)), d2, (RP_Sse (sse_pure S ps2 (sse_pure S ps1 p)), c2))"
        "decode_run C bs d2 = Some r2" "r1 = ps2 @ r2"
        using codec_write_sse [OF ok w1(2)] .
      have "rest_decoded C (D_Deflate (?mk d2)) bs = Some r2"
        using w2(2) by simp
      then show ?thesis
        unfolding feed wr w1(1) using ok w1(3) w2(3)
        by (intro exI [of _ "?mk d2"] exI [of _ "ps1 @ ps2"] exI [of _ r2] exI [of _ c2])
          (simp add: wr w2(1) sse_pure_append)
    qed
  qed
qed

lemma decoder_feed_sse:
  assumes "\<not> sp_invalid p" "rest_decoded C dec (b # bs) = Some bytes"
  shows "\<exists>dec' ps r c'. decoder_feed C S t b (dec, (RP_Sse p, c)) =
      Some (\<not> sp_invalid (sse_pure S ps p), dec', (RP_Sse (sse_pure S ps p), c')) \<and>
    (sp_invalid (sse_pure S ps p) \<or> rest_decoded C dec' bs = Some r) \<and> bytes = ps @ r"
proof -
  have codec: "\<exists>d' ps r c'. codec_write C S t b (d, (RP_Sse p, c)) =
        (\<not> sp_invalid (sse_pure S ps p), d', (RP_Sse (sse_pure S ps p), c')) \<and>
      decode_run C bs d' = Some r \<and> bytes = ps @ r" if "decode_run C (b # bs) d = Some bytes" for d
    using codec_write_sse [OF assms(1) that, of S t c] by metis
  show ?thesis
  proof (cases dec)
    case D_Identity
    obtain c' where "sink_write S t b (RP_Sse p, c) = (\<not> sp_invalid (sse_pure S b p), RP_Sse (sse_pure S b p), c')"
      using sink_write_sse [OF assms(1)] by blast
    then show ?thesis
      using D_Identity assms(2) by (intro exI [of _ D_Identity] exI [of _ b] exI [of _ "concat bs"] exI [of _ c']) simp
  next
    case (D_Gzip d)
    then obtain d' ps r c' where "codec_write C S t b (d, (RP_Sse p, c)) =
        (\<not> sp_invalid (sse_pure S ps p), d', (RP_Sse (sse_pure S ps p), c'))" "decode_run C bs d' = Some r" "bytes = ps @ r"
      using codec [of d] assms(2) by auto
    then show ?thesis
      using D_Gzip by (intro exI [of _ "D_Gzip d'"]) auto
  next
    case (D_Brotli d)
    then obtain d' ps r c' where "codec_write C S t b (d, (RP_Sse p, c)) =
        (\<not> sp_invalid (sse_pure S ps p), d', (RP_Sse (sse_pure S ps p), c'))" "decode_run C bs d' = Some r" "bytes = ps @ r"
      using codec [of d] assms(2) by auto
    then show ?thesis
      using D_Brotli by (intro exI [of _ "D_Brotli d'"]) auto
  next
    case (D_Deflate st)
    show ?thesis
    proof (cases st)
      case (DS_Pending pfx)
      then obtain st' ps r c' where "deflate_feed C S t b (DS_Pending pfx, (RP_Sse p, c)) =
          (\<not> sp_invalid (sse_pure S ps p), st', (RP_Sse (sse_pure S ps p), c'))"
        "sp_invalid (sse_pure S ps p) \<or> rest_decoded C (D_Deflate st') bs = Some r" "bytes = ps @ r"
        using deflate_feed_sse [OF assms(1), of C b bs pfx bytes S t c] D_Deflate assms(2) by auto
      then show ?thesis
        using D_Deflate DS_Pending by (intro exI [of _ "D_Deflate st'"]) (auto simp del: deflate_feed.simps)
    next
      case (DS_Zlib d)
      then obtain d' ps r c' where "codec_write C S t b (d, (RP_Sse p, c)) =
          (\<not> sp_invalid (sse_pure S ps p), d', (RP_Sse (sse_pure S ps p), c'))" "decode_run C bs d' = Some r" "bytes = ps @ r"
        using codec [of d] D_Deflate assms(2) by auto
      then show ?thesis
        using D_Deflate DS_Zlib by (intro exI [of _ "D_Deflate (DS_Zlib d')"]) auto
    next
      case (DS_Raw d)
      then obtain d' ps r c' where "codec_write C S t b (d, (RP_Sse p, c)) =
          (\<not> sp_invalid (sse_pure S ps p), d', (RP_Sse (sse_pure S ps p), c'))" "decode_run C bs d' = Some r" "bytes = ps @ r"
        using codec [of d] D_Deflate assms(2) by auto
      then show ?thesis
        using D_Deflate DS_Raw by (intro exI [of _ "D_Deflate (DS_Raw d')"]) auto
    qed
  qed (use assms in simp_all)
qed

lemma decoder_finish_sse:
  assumes "\<not> sp_invalid p" "rest_decoded C dec [] = Some bytes"
  shows "\<exists>ok dec' c'. decoder_finish C S t (dec, (RP_Sse p, c)) = (ok, dec', (RP_Sse (sse_pure S bytes p), c')) \<and>
    (\<not> ok \<longrightarrow> sp_invalid (sse_pure S bytes p))"
proof -
  have codec: "\<exists>ok d' c'. codec_finish C S t (d, (RP_Sse p, c)) = (ok, d', (RP_Sse (sse_pure S bytes p), c')) \<and>
      (\<not> ok \<longrightarrow> sp_invalid (sse_pure S bytes p))"
    if dec: "decode_run C [] d = Some bytes" for d
  proof -
    obtain ps sound d' where w: "cl_finish C d = ((ps, sound), d')"
      by (metis surj_pair)
    obtain c' where "sink_pieces S t ps (RP_Sse p, c) =
        (\<not> sp_invalid (sse_pure S (concat ps) p), RP_Sse (sse_pure S (concat ps) p), c')"
      using sink_pieces_sse [OF assms(1)] by blast
    then show ?thesis
      using dec w by (auto simp: codec_finish_def split: if_splits)
  qed
  show ?thesis
  proof (cases dec)
    case (D_Deflate st)
    then show ?thesis
      using assms(2) codec by (cases st) (fastforce split: prod.split)+
  qed (use assms(2) codec in \<open>fastforce split: prod.split\<close>)+
qed

lemma encoded_finish_sse:
  assumes "ep_parser ep = RP_Sse p" "ep_decode_failed ep = sp_invalid p"
    and "rest_decoded C (ep_decoder ep) [] = Some bytes"
  shows "ep_parser (fst (encoded_finish C S t dropped (ep, c))) = RP_Sse (sse_end S (sse_pure S bytes p)) \<and>
    encoded_is_invalid (fst (encoded_finish C S t dropped (ep, c))) = sp_invalid (sse_end S (sse_pure S bytes p))"
proof (cases "sp_invalid p")
  case True
  then show ?thesis
    using assms(1,2)
    by (simp add: encoded_finish_def encoded_is_invalid_def sse_pure_stopped sse_end_stopped sse_stopped_def)
next
  case False
  let ?q = "sse_pure S bytes p"
  obtain ok dec' c' where f: "decoder_finish C S t (ep_decoder ep, (RP_Sse p, c)) = (ok, dec', (RP_Sse ?q, c'))"
    "\<not> ok \<longrightarrow> sp_invalid ?q"
    using decoder_finish_sse [OF False assms(3)] by blast
  have fin: "\<exists>c2. rp_finish S t (RP_Sse ?q, c') = (RP_Sse (sse_end S ?q), c2)"
    using sse_finish_pure [of S t ?q c'] by (cases "sse_finish S t (?q, c')") auto
  have inv: "sp_invalid ?q \<Longrightarrow> sse_end S ?q = ?q"
    by (simp add: sse_end_stopped sse_stopped_def)
  show ?thesis
    using False assms(1,2) f fin inv by (auto simp: encoded_finish_def encoded_is_invalid_def Let_def)
qed

lemma encoded_run_sse:
  assumes "ep_parser ep = RP_Sse p" "ep_decode_failed ep = sp_invalid p"
    and "sp_invalid p \<or> rest_decoded C (ep_decoder ep) (map snd chunks) = Some bytes"
  shows "\<exists>ep' c'. encoded_run C S chunks (ep, c) = Some (ep', c') \<and>
    ep_parser (fst (encoded_finish C S t dropped (ep', c'))) = RP_Sse (sse_end S (sse_pure S bytes p)) \<and>
    encoded_is_invalid (fst (encoded_finish C S t dropped (ep', c'))) = sp_invalid (sse_end S (sse_pure S bytes p))"
  using assms
proof (induction chunks arbitrary: ep p c bytes)
  case Nil
  show ?case
  proof (cases "sp_invalid p")
    case True
    then show ?thesis
      using Nil.prems by (simp add: encoded_finish_def encoded_is_invalid_def sse_pure_stopped sse_end_stopped sse_stopped_def)
  next
    case False
    then show ?thesis
      using encoded_finish_sse [OF Nil.prems(1,2)] Nil.prems(3) by simp
  qed
next
  case (Cons x chunks)
  obtain u b where x: "x = (u, b)" by fastforce
  show ?case
  proof (cases "sp_invalid p")
    case True
    have "encoded_run C S cs (ep, c) = Some (ep, c)" for cs
      using True Cons.prems(2) by (induction cs) (auto simp: encoded_feed_def)
    then show ?thesis
      using True Cons.prems
      by (simp add: encoded_finish_def encoded_is_invalid_def sse_pure_stopped sse_end_stopped sse_stopped_def)
  next
    case False
    obtain dec' ps r c' where f: "decoder_feed C S u b (ep_decoder ep, (RP_Sse p, c)) =
        Some (\<not> sp_invalid (sse_pure S ps p), dec', (RP_Sse (sse_pure S ps p), c'))"
      "sp_invalid (sse_pure S ps p) \<or> rest_decoded C dec' (map snd chunks) = Some r" "bytes = ps @ r"
      using decoder_feed_sse [OF False, of C "ep_decoder ep" b "map snd chunks" bytes S u c] Cons.prems(3) False x by auto
    let ?ep = "ep\<lparr>ep_decoder := dec', ep_parser := RP_Sse (sse_pure S ps p),
        ep_decode_failed := sp_invalid (sse_pure S ps p)\<rparr>"
    have "encoded_feed C S u b (ep, c) = Some (?ep, c')"
      using False Cons.prems f(1) by (simp add: encoded_feed_def)
    then show ?thesis
      using Cons.IH [of ?ep "sse_pure S ps p" r c'] f(2,3) x by (simp add: sse_pure_append)
  qed
qed

section \<open>Bounds\<close>

text \<open>What every parser state satisfies: a bounded buffer and counters that are not negative.\<close>

definition tokens_nonneg :: "usage_tokens \<Rightarrow> bool" where
  "tokens_nonneg t \<longleftrightarrow> 0 \<le> ut_input t \<and> 0 \<le> ut_output t \<and> 0 \<le> ut_cache_creation_5m t \<and>
     0 \<le> ut_cache_creation_1h t \<and> 0 \<le> ut_cache_read t"

definition sse_ok :: "sse_parser \<Rightarrow> bool" where
  "sse_ok p \<longleftrightarrow> length (sp_line p) \<le> SSE_LINE_LIMIT \<and> tokens_nonneg (sp_tokens p)"

fun rp_ok :: "response_parser \<Rightarrow> bool" where
  "rp_ok (RP_Json p) \<longleftrightarrow> length (jp_buffer p) \<le> JSON_LIMIT \<and>
     (\<forall>u. jp_parsed p = Some u \<longrightarrow> tokens_nonneg (pr_tokens u))"
| "rp_ok (RP_Sse p) \<longleftrightarrow> sse_ok p"

lemma optional_token_nonneg: "optional_token v = Some (Some n) \<Longrightarrow> 0 \<le> n"
  by (auto simp: optional_token_def split: option.splits json.splits if_splits)

lemma patch_nonneg:
  assumes "parse_usage_patch u = Some patch" "tokens_nonneg t"
  shows "tokens_nonneg (patch_apply patch t)"
proof -
  have ov: "0 \<le> over v x" if "0 \<le> x" "\<And>n. v = Some n \<Longrightarrow> 0 \<le> n" for v x
    using that by (auto simp: over_def split: option.split)
  have "\<And>n. up_input patch = Some n \<Longrightarrow> 0 \<le> n" "\<And>n. up_output patch = Some n \<Longrightarrow> 0 \<le> n"
    "\<And>n. up_cache_read patch = Some n \<Longrightarrow> 0 \<le> n" "\<And>n. up_cache_creation_5m patch = Some n \<Longrightarrow> 0 \<le> n"
    "\<And>n. up_cache_creation_1h patch = Some n \<Longrightarrow> 0 \<le> n"
    using assms(1)
    by (auto simp: parse_usage_patch_def Option.bind_eq_Some_conv dest!: optional_token_nonneg split: option.splits)
  then show ?thesis
    using assms(2) unfolding tokens_nonneg_def patch_apply_def by (auto intro!: ov)
qed

lemma default_tokens_nonneg [simp]: "tokens_nonneg default_tokens"
  by (simp add: tokens_nonneg_def default_tokens_def)

lemma apply_usage_ok: "sse_ok p \<Longrightarrow> sse_ok (apply_usage u p)"
  by (auto simp: apply_usage_def sse_ok_def patch_nonneg split: option.split)

lemma process_event_ok: "sse_ok p \<Longrightarrow> sse_ok (process_event v p)"
proof -
  have frame: "sse_ok (p\<lparr>sp_invalid := a\<rparr>) = sse_ok p" "sse_ok (p\<lparr>sp_complete := b\<rparr>) = sse_ok p"
    "sse_ok (p\<lparr>sp_stop_reason := c\<rparr>) = sse_ok p" "sse_ok (p\<lparr>sp_message_id := d, sp_model := e\<rparr>) = sse_ok p"
    for a b c d e p
    by (simp_all add: sse_ok_def)
  assume "sse_ok p"
  then show ?thesis
    by (simp add: process_event_def frame apply_usage_ok Let_def split: option.split)
qed

lemma process_line_ok: "sse_ok p \<Longrightarrow> sse_ok (fst (process_line S t (p, c)))"
  by (auto simp: process_line_def process_event_ok split: option.split) (simp add: sse_ok_def)

lemma clear_line_ok: "sse_ok (fst pc) \<Longrightarrow> sse_ok (fst (clear_line pc))"
  by (simp add: clear_line_def sse_ok_def)

lemma sse_bytes_ok: "sse_ok (fst pc) \<Longrightarrow> sse_ok (fst (sse_bytes S t bs pc))"
proof (induction S t bs pc rule: sse_bytes.induct)
  case (2 S t b bs p c)
  have line: "sse_ok (fst (clear_line (process_line S t (p, c))))"
    using 2(3) by (simp add: clear_line_ok process_line_ok)
  show ?case
  proof (cases "b = CHR 0x0A")
    case True
    then show ?thesis
      using 2(1) line by (auto split: prod.split)
  next
    case False
    then show ?thesis
      using 2(2,3) by (auto simp: sse_ok_def)
  qed
qed simp

lemma rp_feed_ok: "rp_ok (fst k) \<Longrightarrow> rp_ok (fst (rp_feed S t bs k))"
proof -
  assume ok: "rp_ok (fst k)"
  obtain rp c where k: "k = (rp, c)" by fastforce
  show "rp_ok (fst (rp_feed S t bs k))"
    using ok sse_bytes_ok [of _ S t bs] unfolding k
    by (cases rp) (auto simp: json_feed_def sse_feed_def)
qed

lemma parse_json_response_nonneg: "parse_json_response v = Some u \<Longrightarrow> tokens_nonneg (pr_tokens u)"
  by (auto simp: parse_json_response_def Option.bind_eq_Some_conv patch_nonneg split: option.splits)
     (simp add: patch_apply_def default_patch_def over_def tokens_nonneg_def default_tokens_def)

lemma rp_finish_ok: "rp_ok (fst k) \<Longrightarrow> rp_ok (fst (rp_finish S t k))"
proof -
  assume ok: "rp_ok (fst k)"
  obtain rp c where k: "k = (rp, c)" by fastforce
  show "rp_ok (fst (rp_finish S t k))"
  proof (cases rp)
    case (RP_Json p)
    then show ?thesis
      using ok k by (auto simp: json_finish_def parse_json_response_nonneg split: option.split)
  next
    case (RP_Sse p)
    then show ?thesis
      using ok k by (auto simp: sse_finish_def clear_line_ok process_line_ok)
  qed
qed

lemma sink_write_ok: "rp_ok (fst k) \<Longrightarrow> rp_ok (fst (snd (sink_write S t b k)))"
  by (simp add: sink_write_def rp_feed_ok Let_def)

lemma sink_pieces_ok: "rp_ok (fst k) \<Longrightarrow> rp_ok (fst (snd (sink_pieces S t ps k)))"
proof (induction ps arbitrary: k)
  case (Cons b ps)
  then show ?case
    using sink_write_ok [OF Cons.prems, of S t b] by (auto split: prod.split)
qed simp

lemma codec_write_ok: "rp_ok (fst k) \<Longrightarrow> rp_ok (fst (snd (snd (codec_write C S t b (d, k)))))"
  using sink_pieces_ok [of k S t "fst (fst (cl_write C b d))"] by (auto simp: codec_write_def split: prod.split)

lemma codec_finish_ok: "rp_ok (fst k) \<Longrightarrow> rp_ok (fst (snd (snd (codec_finish C S t (d, k)))))"
  using sink_pieces_ok [of k S t "fst (fst (cl_finish C d))"] by (auto simp: codec_finish_def split: prod.split)

lemma zstd_loop_ok:
  assumes "zstd_loop C S t b df k = Some y" shows "rp_ok (fst k) \<longrightarrow> rp_ok (fst (snd (snd y)))"
proof (rule zstd_loop.raw_induct [OF _ assms])
  fix loop :: "'a codec_lib \<Rightarrow> serde_lib \<Rightarrow> int \<Rightarrow> char list \<Rightarrow> 'a \<times> bool \<Rightarrow> sink \<Rightarrow> (bool \<times> ('a \<times> bool) \<times> sink) option"
  fix C :: "'a codec_lib" and S inst bytes df k y
  assume IH: "\<And>C S inst bytes df k y. loop C S inst bytes df k = Some y \<Longrightarrow> rp_ok (fst k) \<longrightarrow> rp_ok (fst (snd (snd y)))"
    and run: "(case cl_zstd_run C bytes (fst df) of
        None \<Rightarrow> Some (False, df, k)
      | Some (status, d) \<Rightarrow>
          (case sink_write S inst (zs_written status) k of
             (ok, k) \<Rightarrow>
               (let bytes = drop (zs_read status) bytes;
                    frame_complete = (zs_remaining status = 0)
                in if \<not> ok then Some (False, (d, snd df), k)
                   else if frame_complete \<and> bytes \<noteq> [] then
                     (case cl_zstd_reinit C d of
                        None \<Rightarrow> Some (False, (d, frame_complete), k)
                      | Some d \<Rightarrow> loop C S inst bytes (d, False) k)
                   else if bytes = [] then
                     (if length (zs_written status) = DECODE_BUFFER_SIZE
                      then loop C S inst bytes (d, frame_complete) k
                      else Some (True, (d, frame_complete), k))
                   else if zs_read status = 0 \<and> zs_written status = []
                   then Some (False, (d, frame_complete), k)
                   else loop C S inst bytes (d, frame_complete) k))) = Some y"
  show "rp_ok (fst k) \<longrightarrow> rp_ok (fst (snd (snd y)))"
  proof
    assume k: "rp_ok (fst k)"
    show "rp_ok (fst (snd (snd y)))"
    proof (cases "cl_zstd_run C bytes (fst df)")
      case None
      then show ?thesis using run k by auto
    next
      case (Some st)
      obtain ok k2 where w: "sink_write S inst (zs_written (fst st)) k = (ok, k2)" by (metis surj_pair)
      then have "rp_ok (fst k2)" using sink_write_ok [OF k, of S inst "zs_written (fst st)"] by simp
      then show ?thesis
        using run Some w IH by (auto simp: Let_def split: prod.splits if_splits option.splits)
    qed
  qed
qed

lemma decoder_feed_ok:
  assumes "decoder_feed C S t b (dec, k) = Some (r, dec', k')" "rp_ok (fst k)"
  shows "rp_ok (fst k')"
proof -
  have dw: "rp_ok (fst (snd (snd (deflate_write C S t b x))))" if "rp_ok (fst (snd x))" for x b
    using codec_write_ok [OF that, of C S t b] that
    by (cases x; cases "fst x") (simp_all add: split_beta Let_def)
  have df: "rp_ok (fst (snd (snd (deflate_feed C S t b (st, k)))))" for st
  proof (cases st)
    case (DS_Pending pfx)
    then show ?thesis
      using assms(2) by (simp add: Let_def split_beta dw del: deflate_write.simps)
  qed (use dw [of "(st, k)" b] assms(2) in \<open>simp_all del: deflate_write.simps\<close>)
  show ?thesis
  proof (cases dec)
    case D_Identity
    then show ?thesis
      using assms sink_write_ok [OF assms(2), of S t b] by (auto split: prod.splits)
  next
    case (D_Gzip d)
    then show ?thesis
      using assms(1) codec_write_ok [OF assms(2), of C S t b d] by (auto split: prod.splits)
  next
    case (D_Deflate st)
    then show ?thesis
      using assms(1) df [of st] by (auto split: prod.splits)
  next
    case (D_Brotli d)
    then show ?thesis
      using assms(1) codec_write_ok [OF assms(2), of C S t b d] by (auto split: prod.splits)
  next
    case (D_Zstd p)
    then obtain y where y: "zstd_feed C S t b p k = Some y" "k' = snd (snd y)"
      using assms(1) by auto
    then have "rp_ok (fst (snd (snd y)))"
      using assms(2) zstd_loop_ok [of C S t b _ k y]
      by (auto simp: zstd_feed_def split: if_splits option.splits)
    then show ?thesis
      using y by simp
  qed
qed

lemma decoder_finish_ok:
  assumes "rp_ok (fst k)" shows "rp_ok (fst (snd (snd (decoder_finish C S t (dec, k)))))"
proof (cases dec)
  case (D_Deflate st)
  then show ?thesis
    using assms codec_finish_ok [OF assms, of C S t] by (cases st) (simp_all add: split_beta Let_def)
next
  case (D_Gzip d)
  then show ?thesis
    using codec_finish_ok [OF assms, of C S t d] by (auto split: prod.split)
next
  case (D_Brotli d)
  then show ?thesis
    using codec_finish_ok [OF assms, of C S t d] by (auto split: prod.split)
qed (use assms in simp_all)

lemma encoded_feed_ok:
  "encoded_feed C S t b (ep, c) = Some (ep', c') \<Longrightarrow> rp_ok (ep_parser ep) \<Longrightarrow> rp_ok (ep_parser ep')"
  by (fastforce simp: encoded_feed_def dest: decoder_feed_ok split: if_splits)

lemma encoded_run_ok:
  "encoded_run C S chunks (ep, c) = Some (ep', c') \<Longrightarrow> rp_ok (ep_parser ep) \<Longrightarrow> rp_ok (ep_parser ep')"
proof (induction chunks arbitrary: ep c)
  case (Cons x chunks)
  obtain t b where "x = (t, b)" by fastforce
  then show ?case
    using Cons by (auto simp: Option.bind_eq_Some_conv dest: encoded_feed_ok)
qed simp

lemma encoded_finish_ok:
  assumes "rp_ok (ep_parser ep)" shows "rp_ok (ep_parser (fst (encoded_finish C S t dropped (ep, c))))"
proof -
  obtain ok d k where f: "decoder_finish C S t (ep_decoder ep, (ep_parser ep, c)) = (ok, d, k)"
    by (metis surj_pair)
  have k: "rp_ok (fst k)"
    using decoder_finish_ok [of "(ep_parser ep, c)" C S t "ep_decoder ep"] assms f by simp
  have k2: "rp_ok (fst (rp_finish S t k2))" if "rp_ok (fst k2)" for k2
    using that by (rule rp_finish_ok)
  show ?thesis
    using assms f k k2 [of k] k2 [of "(ep_parser ep, c)"]
    by (cases k) (auto simp: encoded_finish_def Let_def split: prod.split)
qed

section \<open>Properties\<close>

definition transport_decode :: "'d codec_lib \<Rightarrow> usage_content_encoding \<Rightarrow> string list \<Rightarrow> string option" where
  "transport_decode C enc chunks =
     (case enc of
        CE_Identity \<Rightarrow> Some (concat chunks)
      | CE_Gzip \<Rightarrow> decode_run C chunks (cl_gzip C)
      | CE_Deflate \<Rightarrow> deflate_run C chunks []
      | CE_Brotli \<Rightarrow> decode_run C chunks (cl_brotli C)
      | _ \<Rightarrow> None)"

lemma encoded_new_sse:
  assumes "transport_decode C enc chunks = Some bytes"
  shows "ep_parser (encoded_parser_new C (RP_Sse sse_parser_default) enc) = RP_Sse sse_parser_default"
    and "ep_decode_failed (encoded_parser_new C (RP_Sse sse_parser_default) enc) = sp_invalid sse_parser_default"
    and "sp_invalid sse_parser_default \<or>
      rest_decoded C (ep_decoder (encoded_parser_new C (RP_Sse sse_parser_default) enc)) chunks = Some bytes"
  using assms by (cases enc; simp add: transport_decode_def encoded_parser_new_def sse_parser_default_def)+

text \<open>
  C7. The streaming parser implements the line-by-line reading of the response. For a plain, gzip,
  deflate or brotli response that the decoding library accepts, in whatever chunks it arrives, and whether or not
  the client stays to the end, the usage found is that of the reference: split the decoded bytes into lines, read the
  \<open>data:\<close> lines as events and apply them in order up to the first \<open>message_stop\<close>, the first malformed
  event or the first line of more than 256 KiB. The response is rejected exactly when the reference meets a malformed
  event or such a line, and as oversize exactly in the latter case.
\<close>

theorem sse_usage_refines_events:
  assumes "transport_decode C enc (map snd chunks) = Some bytes"
    and "ref = run_items (sse_items S bytes) sse_parser_default"
  shows "\<exists>ep c'. encoded_run C S chunks (encoded_parser_new C (RP_Sse sse_parser_default) enc, c) = Some (ep, c') \<and>
    encoded_parsed (fst (encoded_finish C S t dropped (ep, c'))) = sse_parsed ref \<and>
    encoded_is_invalid (fst (encoded_finish C S t dropped (ep, c'))) = sp_invalid ref \<and>
    encoded_is_oversize (fst (encoded_finish C S t dropped (ep, c'))) = sp_oversize ref"
proof -
  have "sse_end S (sse_pure S bytes sse_parser_default) =
      run_items (sse_items S (sp_line sse_parser_default @ bytes)) (sse_parser_default\<lparr>sp_line := []\<rparr>)"
    by (rule sse_reference) (simp_all add: sse_parser_default_def sse_stopped_def)
  then have ref: "sse_end S (sse_pure S bytes sse_parser_default) = ref"
    using assms(2) by (simp add: sse_parser_default_def)
  show ?thesis
    using encoded_run_sse [OF encoded_new_sse [OF assms(1)], of S c t dropped] unfolding ref
    by (auto simp: encoded_parsed_def encoded_is_oversize_def)
qed

definition delta_serde :: serde_lib where
  "delta_serde = \<lparr>sj_to_string = (\<lambda>_. []), sj_from_str = (\<lambda>s. if s = ''D'' then
     Some (JObj [(''type'', JStr ''message_delta''), (''usage'', JObj [(''output_tokens'', JNum (PosInt 7))])])
     else None)\<rparr>"

definition plain_codec :: "unit codec_lib" where
  "plain_codec = \<lparr>cl_gzip = (), cl_zlib = (), cl_raw = (), cl_brotli = (),
     cl_write = (\<lambda>b d. (([b], True), d)), cl_finish = (\<lambda>d. (([], True), d)), cl_zstd = None,
     cl_zstd_reinit = (\<lambda>d. None), cl_zstd_run = (\<lambda>b d. None)\<rparr>"

definition delta_bytes :: string where
  "delta_bytes = ''data: D'' @ [CHR 0x0D, CHR 0x0A]"

definition split_chunks :: "(int \<times> string) list" where
  "split_chunks = [(1, ''da''), (2, ''ta: D'' @ [CHR 0x0D, CHR 0x0A])]"

lemma split_chunks_decode:
  "transport_decode plain_codec CE_Deflate (map snd split_chunks) = Some delta_bytes"
  "sse_lines delta_bytes = [''data: D'' @ [CHR 0x0D], []]"
  "map_option (sj_from_str delta_serde) (line_data (''data: D'' @ [CHR 0x0D])) =
     Some (Some (JObj [(''type'', JStr ''message_delta''), (''usage'', JObj [(''output_tokens'', JNum (PosInt 7))])]))"
  by code_simp+

lemma split_chunks_items:
  "sse_items delta_serde delta_bytes =
     [SI_Event (JObj [(''type'', JStr ''message_delta''), (''usage'', JObj [(''output_tokens'', JNum (PosInt 7))])])]"
proof -
  have "line_item delta_serde (''data: D'' @ [CHR 0x0D]) =
      Some (SI_Event (JObj [(''type'', JStr ''message_delta''), (''usage'', JObj [(''output_tokens'', JNum (PosInt 7))])]))"
    using split_chunks_decode(3) by (auto simp: line_item_def SSE_LINE_LIMIT_def)
  then show ?thesis
    by (simp add: sse_items_def split_chunks_decode(2) List.map_filter_simps line_item_def [of _ "[]"])
qed

lemma split_chunks_events:
  "sse_parsed (run_items (sse_items delta_serde delta_bytes) sse_parser_default) =
     Some \<lparr>pr_message_id = None, pr_model = None, pr_tokens = default_tokens\<lparr>ut_output := 7\<rparr>,
       pr_stop_reason = None, pr_has_usage = True\<rparr>"
  unfolding split_chunks_items by code_simp

theorem sse_usage_refines_events_witness:
  "\<exists>ep c'. encoded_run plain_codec delta_serde split_chunks
       (encoded_parser_new plain_codec (RP_Sse sse_parser_default) CE_Deflate, None) = Some (ep, c') \<and>
     encoded_parsed (fst (encoded_finish plain_codec delta_serde 3 False (ep, c'))) =
       Some \<lparr>pr_message_id = None, pr_model = None, pr_tokens = default_tokens\<lparr>ut_output := 7\<rparr>,
         pr_stop_reason = None, pr_has_usage = True\<rparr>"
  using sse_usage_refines_events [OF split_chunks_decode(1) refl, of delta_serde None 3 False]
  by (auto simp: split_chunks_events)

text \<open>
  C32. The parser's memory is bounded. Whatever arrives in whatever encoding, the line or document
  buffered stays within its limit, and no counter it reports is negative, before and after the end of
  the response.
\<close>

theorem parser_bounded:
  assumes "rp = RP_Json json_parser_default \<or> rp = RP_Sse sse_parser_default"
    and "encoded_run C S chunks (encoded_parser_new C rp enc, c) = Some (ep, c')"
    and "q \<in> {ep_parser ep, ep_parser (fst (encoded_finish C S t dropped (ep, c')))}"
  shows "(case q of RP_Json p \<Rightarrow> length (jp_buffer p) \<le> 16777216 | RP_Sse p \<Rightarrow> length (sp_line p) \<le> 262144) \<and>
    (\<forall>u. rp_parsed q = Some u \<longrightarrow> tokens_nonneg (pr_tokens u))"
proof -
  have "rp_ok rp" "rp_ok (RP_Json json_parser_default)"
    using assms(1) by (auto simp: json_parser_default_def sse_parser_default_def sse_ok_def)
  then have "rp_ok (ep_parser (encoded_parser_new C rp enc))"
    by (cases enc) (auto simp: encoded_parser_new_def split: option.split)
  then have "rp_ok (ep_parser ep)"
    using encoded_run_ok [OF assms(2)] by simp
  then have "rp_ok q"
    using assms(3) encoded_finish_ok by auto
  then show ?thesis
    by (cases q) (auto simp: sse_ok_def sse_parsed_def JSON_LIMIT_def SSE_LINE_LIMIT_def)
qed

theorem parser_bounded_witness:
  "\<exists>ep c'. encoded_run plain_codec delta_serde split_chunks
       (encoded_parser_new plain_codec (RP_Sse sse_parser_default) CE_Deflate, None) = Some (ep, c') \<and>
     (case ep_parser ep of RP_Json p \<Rightarrow> length (jp_buffer p) \<le> 16777216 | RP_Sse p \<Rightarrow> length (sp_line p) \<le> 262144)"
proof -
  obtain ep c' where "encoded_run plain_codec delta_serde split_chunks
       (encoded_parser_new plain_codec (RP_Sse sse_parser_default) CE_Deflate, None) = Some (ep, c')"
    using encoded_run_sse [OF encoded_new_sse [OF split_chunks_decode(1)]] by blast
  then show ?thesis
    using parser_bounded [OF disjI2 [OF refl]] by blast
qed

end
