(* ===== verification/Pricing_Facts.thy ===== *)
theory Pricing_Facts
  imports Pricing
begin

text \<open>
  What holds of the pricing code: decimal texts are read exactly and the two readers agree, costs
  are rounded products that never overflow the intermediate width, every engine that can be built
  has non-negative rates, dated model names find their base rule, snapshots survive their JSON
  form, and rules read from the remote lists always validate.
\<close>


section \<open>Characters\<close>

lemma leading_seq_removed:
  "c \<in> set (take (leading_seq seqs s) s) \<Longrightarrow> \<exists>w \<in> set seqs. c \<in> set w"
proof -
  assume c: "c \<in> set (take (leading_seq seqs s) s)"
  show ?thesis
  proof (cases "find (\<lambda>w. prefix w s) seqs")
    case None
    then show ?thesis using c by (simp add: leading_seq_def)
  next
    case (Some w)
    then have "w \<in> set seqs" "prefix w s"
      by (auto simp: find_Some_iff)
    then show ?thesis
      using c Some by (auto simp: leading_seq_def prefix_def)
  qed
qed

lemma trim_leading_keeps:
  "c \<in> set s \<Longrightarrow> \<forall>w \<in> set seqs. c \<notin> set w \<Longrightarrow> c \<in> set (trim_leading seqs s)"
proof (induction seqs s rule: trim_leading.induct)
  case (1 seqs s)
  show ?case
  proof (cases "leading_seq seqs s = 0 \<or> s = []")
    case True
    then show ?thesis using 1 by (simp add: trim_leading.simps)
  next
    case False
    have "c \<notin> set (take (leading_seq seqs s) s)"
      using leading_seq_removed 1(3) by blast
    then have "c \<in> set (drop (leading_seq seqs s) s)"
      using 1(2) by (metis append_take_drop_id set_append UnE)
    then show ?thesis
      using 1 False by (simp add: trim_leading.simps [of seqs s])
  qed
qed

lemma trim_keeps:
  assumes "c \<in> set s" "\<forall>w \<in> set white_space_seqs. c \<notin> set w"
  shows "c \<in> set (trim s)"
  using trim_leading_keeps [of c s white_space_seqs]
    trim_leading_keeps [of c "rev (trim_leading white_space_seqs s)" "map rev white_space_seqs"] assms
  by (simp add: trim_def trim_end_def trim_start_def)

lemma letter_not_white:
  "\<forall>w \<in> set white_space_seqs. CHR ''c'' \<notin> set w" "\<forall>w \<in> set white_space_seqs. CHR ''a'' \<notin> set w"
  by (simp_all add: white_space_seqs_def)

section \<open>Decimals\<close>

lemma parse_signed_digits:
  assumes "s \<noteq> []" "list_all is_ascii_digit s"
  shows "parse_signed chk s = chk (int (digits_value s))"
proof -
  obtain c r where s: "s = c # r"
    using assms(1) by (cases s) auto
  have "c \<noteq> CHR ''-''" "c \<noteq> CHR ''+''"
    using assms(2) by (auto simp: s is_ascii_digit_def)
  then show ?thesis
    using assms by (simp add: s parse_signed_def parse_digits_def)
qed

lemma parse_i128_digits:
  "s \<noteq> [] \<Longrightarrow> list_all is_ascii_digit s \<Longrightarrow> parse_i128 s = i128_checked (int (digits_value s))"
  by (simp add: parse_i128_def parse_signed_digits)

lemma split_once_char_Some:
  "split_once_char c s = Some (a, b) \<Longrightarrow> s = a @ c # b"
  by (induction s arbitrary: a b) (auto split: if_splits)

lemma split_fraction_cases:
  assumes "split_fraction s = (w, f)"
  shows "s = w @ CHR ''.'' # f \<or> s = w \<and> f = []"
  using assms split_once_char_Some [of "CHR ''.''" s]
  by (auto simp: split_fraction_def split: option.splits)

lemma digit_not_exponent: "is_ascii_digit c \<Longrightarrow> \<not> is_exponent_mark c"
  by (auto simp: is_ascii_digit_def is_exponent_mark_def)

lemma split_exponent_plain:
  assumes "split_fraction s = (w, f)" "list_all is_ascii_digit w" "list_all is_ascii_digit f"
  shows "split_exponent s = Some (s, 0)"
proof -
  have "\<not> is_exponent_mark (CHR ''.'')"
    by (simp add: is_exponent_mark_def)
  then have "\<forall>c \<in> set s. \<not> is_exponent_mark c"
    using split_fraction_cases [OF assms(1)] assms(2,3) digit_not_exponent
    by (auto simp: list_all_iff)
  then show ?thesis
    by (simp add: split_exponent_def)
qed

text \<open>What an accepted rate text is made of.\<close>

lemma parse_usd_Inr:
  assumes "parse_usd_per_million v = Inr n"
  obtains w f where "split_fraction (trim v) = (w, f)" "trim v \<noteq> []" "\<not> starts_with_sign (trim v)"
    "w \<noteq> []" "list_all is_ascii_digit w" "list_all is_ascii_digit f" "length f \<le> 9"
    "n = int (digits_value w) * 10 ^ 9 + int (digits_value f) * 10 ^ (9 - length f)" "i64_range n"
proof -
  obtain w f where wf: "split_fraction (trim v) = (w, f)"
    by (cases "split_fraction (trim v)")
  have cond: "trim v \<noteq> []" "\<not> starts_with_sign (trim v)" "length f \<le> 9"
    "list_all is_ascii_digit w" "list_all is_ascii_digit f"
    using assms by (auto simp: parse_usd_per_million_def Let_def wf split: if_splits)
  have w: "w \<noteq> []"
    using assms cond by (auto simp: parse_usd_per_million_def Let_def wf parse_i128_def parse_signed_def
        split: if_splits)
  have "n = int (digits_value w) * 10 ^ 9 + int (digits_value f) * 10 ^ (9 - length f) \<and> i64_range n"
    using assms cond w
    by (cases "f = []")
       (auto simp: parse_usd_per_million_def Let_def wf parse_i128_digits digits_value_def
         Option.bind_eq_Some_conv split: option.splits)
  then show thesis
    using that wf cond w by blast
qed

lemma parse_usd_nonneg: "parse_usd_per_million v = Inr n \<Longrightarrow> 0 \<le> n \<and> i64_range n"
  by (erule parse_usd_Inr) simp

lemma usd_text_scaled:
  assumes "parse_usd_per_million v = Inr n"
  shows "parse_decimal_scaled v 9 = Inr n"
proof -
  from assms obtain w f where v: "split_fraction (trim v) = (w, f)" "trim v \<noteq> []" "\<not> starts_with_sign (trim v)"
    "w \<noteq> []" "list_all is_ascii_digit w" "list_all is_ascii_digit f" "length f \<le> 9"
    "n = int (digits_value w) * 10 ^ 9 + int (digits_value f) * 10 ^ (9 - length f)" "i64_range n"
    by (rule parse_usd_Inr)
  let ?d = "int (digits_value (w @ f))" and ?p = "9 - length f"
  have d: "?d = int (digits_value w) * 10 ^ length f + int (digits_value f)"
    by (simp add: digits_value_append)
  have n: "n = ?d * 10 ^ ?p"
    using v(7,8) by (simp add: d distrib_right mult.assoc flip: power_add)
  moreover have "?d \<le> ?d * 10 ^ ?p"
    by (simp add: mult_le_cancel_left1)
  ultimately have range: "i128_range ?d" "i128_range n"
    using v(9) by (auto simp: i128_range_def i64_range_def)
  have i32: "i32_range 9" "i32_range (9 - int (length f))"
    using v(7) by (auto simp: i32_range_def)
  have "scale_digits ?d (9 - int (length f)) = Some n"
    using v(7) range n by (simp add: scale_digits_def checked_pow10_def nat_diff_distrib')
  then show ?thesis
    using v range i32
    by (simp add: parse_decimal_scaled_def Let_def split_exponent_plain parse_i128_digits i128_checked_def
        i32_checked_def i64_checked_def)
qed

lemma scale_digits_nonneg: "0 \<le> d \<Longrightarrow> scale_digits d p = Some n \<Longrightarrow> 0 \<le> n"
  by (auto simp: scale_digits_def checked_pow10_def Option.bind_eq_Some_conv pos_imp_zdiv_nonneg_iff
      split: if_splits)

lemma parse_i128_digits_nonneg:
  "list_all is_ascii_digit s \<Longrightarrow> parse_i128 s = Some d \<Longrightarrow> 0 \<le> d"
  by (cases "s = []") (auto simp: parse_i128_digits, simp add: parse_i128_def parse_signed_def)

lemma parse_decimal_nonneg: "parse_decimal_scaled v k = Inr n \<Longrightarrow> 0 \<le> n \<and> i64_range n"
  by (auto simp: parse_decimal_scaled_def Let_def Option.bind_eq_Some_conv
      dest!: parse_i128_digits_nonneg [rotated] intro: scale_digits_nonneg
      split: if_splits option.splits prod.splits)

lemma multiply_rate_nonneg:
  "multiply_rate r a b = Some n \<Longrightarrow> 0 \<le> r \<Longrightarrow> 0 \<le> a \<Longrightarrow> 0 < b \<Longrightarrow> 0 \<le> n \<and> i64_range n"
  by (auto simp: multiply_rate_def Option.bind_eq_Some_conv pos_imp_zdiv_nonneg_iff split: if_splits)

section \<open>Costs\<close>

lemma component_cost_exact:
  assumes "0 < t" "i64_range t" "0 \<le> r" "i64_range r"
  shows "component_cost t (Some r) = i64_checked ((t * r + 500000) div 1000000)"
proof -
  have "t * r \<le> 2 ^ 63 * 2 ^ 63"
    using assms by (intro mult_mono) (auto simp: i64_range_def)
  moreover have nn: "0 \<le> t * r"
    using assms by simp
  ultimately have "i128_range (t * r)" "i128_range (t * r + 500000)"
    by (auto simp: i128_range_def)
  then show ?thesis
    using assms nn by (simp add: component_cost_def i128_checked_def)
qed

lemma component_cost_nonneg:
  "component_cost t r = Some c \<Longrightarrow> (\<forall>x. r = Some x \<longrightarrow> 0 \<le> x) \<Longrightarrow> 0 \<le> c \<and> i64_range c"
  by (auto simp: component_cost_def Option.bind_eq_Some_conv i64_range_def pos_imp_zdiv_nonneg_iff
      split: if_splits)

lemma foldl_saturating_exact:
  "\<forall>x \<in> set xs. 0 \<le> x \<Longrightarrow> 0 \<le> a \<Longrightarrow> a < 2 ^ 63 \<Longrightarrow>
   foldl i64_saturating_add a xs = min (2 ^ 63 - 1) (a + sum_list xs)"
proof (induction xs arbitrary: a)
  case (Cons x xs)
  have "0 \<le> sum_list xs"
    using Cons.prems(1) by (intro sum_list_nonneg) simp
  moreover have "i64_saturating_add a x = min (2 ^ 63 - 1) (a + x)"
    using Cons.prems by (simp add: i64_saturating_add_def)
  ultimately show ?case
    using Cons by (simp add: min_def)
qed simp

lemma sum_saturating_exact:
  "\<forall>x \<in> set xs. 0 \<le> x \<Longrightarrow> sum_saturating xs = min (2 ^ 63 - 1) (sum_list xs)"
  by (simp add: sum_saturating_def foldl_saturating_exact)

text \<open>Engines whose rates are all non-negative.\<close>

definition rates_ok :: "'a rates_scheme \<Rightarrow> bool" where
  "rates_ok r \<longleftrightarrow> (\<forall>x \<in> set (rate_list r). 0 \<le> x)"

definition rule_ok :: "pricing_rule \<Rightarrow> bool" where
  "rule_ok r \<longleftrightarrow> rates_ok r \<and>
     (case pr_long_context r of None \<Rightarrow> True | Some t \<Rightarrow> 0 < lc_threshold t \<and> rates_ok t)"

definition rules_ok :: "(string, pricing_rule) hash_map \<Rightarrow> bool" where
  "rules_ok m \<longleftrightarrow> (\<forall>(k, r) \<in> set m. rule_ok r)"

definition engine_ok :: "pricing_engine \<Rightarrow> bool" where
  "engine_ok pe \<longleftrightarrow> rules_ok (pe_rules pe) \<and> rules_ok (pe_overrides pe)"

lemma rates_ok_iff:
  "rates_ok r \<longleftrightarrow>
     (\<forall>o_rate \<in> {rt_input r, rt_output r, rt_cache_creation_5m r, rt_cache_creation_1h r, rt_cache_read r}.
        \<forall>x. o_rate = Some x \<longrightarrow> 0 \<le> x)"
  by (auto simp: rates_ok_def rate_list_def List.map_filter_def split: if_splits)

lemma rates_ok_truncate [simp]: "rates_ok (rates.truncate r) = rates_ok r"
  by (simp add: rates_ok_iff rates.defs)

lemma map_of_ok: "rules_ok m \<Longrightarrow> map_of m k = Some r \<Longrightarrow> rule_ok r"
  by (auto simp: rules_ok_def dest: map_of_SomeD)

lemma longest_key_mem: "longest_key es = Some e \<Longrightarrow> e \<in> set es"
  by (induction es arbitrary: e) (auto split: option.splits if_splits)

lemma find_rule_ok:
  assumes "engine_ok pe" "find_rule pe model = Some r"
  shows "rule_ok r"
  using assms
  by (auto simp: engine_ok_def find_rule_def Let_def map_of_ok rules_ok_def
      dest!: longest_key_mem split: option.splits)

lemma rates_for_ok: "rule_ok r \<Longrightarrow> rates_ok (rates_for r t)"
  by (auto simp: rates_for_def rule_ok_def split: option.splits)

lemma no_rates_ok: "rates_ok no_rates"
  by (simp add: rates_ok_iff no_rates_def)

definition cost_list :: "usage_costs \<Rightarrow> int option list" where
  "cost_list c = [uc_input c, uc_output c, uc_cache_creation_5m c, uc_cache_creation_1h c, uc_cache_read c]"

definition count_list :: "usage_tokens \<Rightarrow> int list" where
  "count_list t = [ut_input t, ut_output t, ut_cache_creation_5m t, ut_cache_creation_1h t, ut_cache_read t]"

lemma price_components:
  fixes pe model t
  defines "c \<equiv> pu_costs (price pe model t)"
  shows "\<exists>r :: rates. (engine_ok pe \<longrightarrow> rates_ok r) \<and>
    cost_list c = [component_cost (ut_input t) (rt_input r), component_cost (ut_output t) (rt_output r),
      component_cost (ut_cache_creation_5m t) (rt_cache_creation_5m r),
      component_cost (ut_cache_creation_1h t) (rt_cache_creation_1h r),
      component_cost (ut_cache_read t) (rt_cache_read r)]"
    and "uc_known_nano_usd c = sum_saturating (List.map_filter (\<lambda>x. x) (cost_list c))"
    and "uc_unpriced_tokens c = sum_saturating (List.map_filter
      (\<lambda>(n, x). if 0 < n \<and> x = None then Some n else None) (zip (count_list t) (cost_list c)))"
    and "uc_complete c \<longleftrightarrow> uc_unpriced_tokens c = 0"
proof -
  let ?r = "case find_rule pe model of Some rl \<Rightarrow> rates_for rl t | None \<Rightarrow> no_rates"
  have "engine_ok pe \<longrightarrow> rates_ok ?r"
    by (auto simp: no_rates_ok rates_for_ok find_rule_ok split: option.split)
  then show "\<exists>r :: rates. (engine_ok pe \<longrightarrow> rates_ok r) \<and>
    cost_list c = [component_cost (ut_input t) (rt_input r), component_cost (ut_output t) (rt_output r),
      component_cost (ut_cache_creation_5m t) (rt_cache_creation_5m r),
      component_cost (ut_cache_creation_1h t) (rt_cache_creation_1h r),
      component_cost (ut_cache_read t) (rt_cache_read r)]"
    by (intro exI [of _ ?r]) (simp add: c_def price_def Let_def cost_list_def)
qed (simp_all add: c_def price_def Let_def cost_list_def count_list_def)

lemma sum_list_pos_zero:
  "\<forall>x \<in> set xs. 0 < (x :: int) \<Longrightarrow> sum_list xs = 0 \<longleftrightarrow> xs = []"
  by (induction xs) (auto simp: add_nonneg_eq_0_iff sum_list_nonneg order.strict_implies_order)

lemma price_costs:
  fixes pe model t
  assumes "engine_ok pe"
  defines "c \<equiv> pu_costs (price pe model t)"
  shows "\<forall>x. Some x \<in> set (cost_list c) \<longrightarrow> 0 \<le> x \<and> i64_range x"
    and "uc_known_nano_usd c = min (2 ^ 63 - 1) (sum_list (List.map_filter (\<lambda>x. x) (cost_list c)))"
proof -
  obtain r :: rates where r: "rates_ok r"
    "cost_list c = [component_cost (ut_input t) (rt_input r), component_cost (ut_output t) (rt_output r),
      component_cost (ut_cache_creation_5m t) (rt_cache_creation_5m r),
      component_cost (ut_cache_creation_1h t) (rt_cache_creation_1h r),
      component_cost (ut_cache_read t) (rt_cache_read r)]"
    using price_components(1) [of pe model t] assms by auto
  show nn: "\<forall>x. Some x \<in> set (cost_list c) \<longrightarrow> 0 \<le> x \<and> i64_range x"
    using r by (auto simp: rates_ok_iff dest!: sym [of "Some _"] component_cost_nonneg)
  have "\<forall>x \<in> set (List.map_filter (\<lambda>x. x) (cost_list c)). 0 \<le> x"
    using nn by (force simp: List.map_filter_def)
  then show "uc_known_nano_usd c = min (2 ^ 63 - 1) (sum_list (List.map_filter (\<lambda>x. x) (cost_list c)))"
    using price_components(2) [of pe model t] by (simp add: c_def sum_saturating_exact)
qed

lemma price_complete_iff:
  fixes pe model t
  defines "c \<equiv> pu_costs (price pe model t)"
  shows "uc_complete c \<longleftrightarrow> (\<forall>(n, x) \<in> set (zip (count_list t) (cost_list c)). 0 < n \<longrightarrow> x \<noteq> None)"
proof -
  let ?f = "\<lambda>(n, x). if 0 < n \<and> x = None then Some n else None"
  let ?u = "List.map_filter ?f (zip (count_list t) (cost_list c))"
  have pos: "\<forall>x \<in> set ?u. 0 < x"
    by (auto simp: List.map_filter_def split: if_splits)
  then have "uc_unpriced_tokens c = min (2 ^ 63 - 1) (sum_list ?u)"
    using price_components(3) [of pe model t]
    by (simp add: c_def sum_saturating_exact order.strict_implies_order)
  then have "uc_unpriced_tokens c = 0 \<longleftrightarrow> ?u = []"
    using sum_list_pos_zero [OF pos] by (auto simp: min_def)
  also have "?u = [] \<longleftrightarrow> (\<forall>(n, x) \<in> set (zip (count_list t) (cost_list c)). 0 < n \<longrightarrow> x \<noteq> None)"
    by (auto simp: List.map_filter_def filter_empty_conv split: if_splits)
  finally show ?thesis
    using price_components(4) [of pe model t] by (simp add: c_def)
qed

section \<open>Where engines come from\<close>

lemma expect_rate_nonneg: "expect_rate v = Done n \<Longrightarrow> 0 \<le> n"
  by (auto simp: expect_rate_def dest: parse_usd_nonneg split: sum.splits)

lemma rule_builtin_ok: "rule k i out c5 c1 cr = Done r \<Longrightarrow> rule_ok r \<and> pr_model_key r = k"
  by (auto simp: rule_def rule_ok_def rates_ok_iff outcome_bind_Done_iff dest: expect_rate_nonneg)

lemma collect_rules_ok: "collect_rules rows = Done m \<Longrightarrow> rules_ok m \<and> map fst m = map fst rows"
  by (induction rows arbitrary: m rule: collect_rules.induct)
     (auto simp: outcome_bind_Done_iff rules_ok_def dest: rule_builtin_ok)

lemma builtin_long_context_ok:
  "builtin_long_context = Done t \<Longrightarrow> 0 < lc_threshold t \<and> rates_ok t"
  by (auto simp: builtin_long_context_def outcome_bind_Done_iff rates_ok_iff dest: expect_rate_nonneg)

lemma rule_ok_tier:
  "rule_ok r \<Longrightarrow> (case tier of None \<Rightarrow> True | Some t \<Rightarrow> 0 < lc_threshold t \<and> rates_ok t) \<Longrightarrow>
   rule_ok (r\<lparr>pr_long_context := tier\<rparr>)"
  by (simp add: rule_ok_def rates_ok_iff)

lemma builtin_rules_ok:
  assumes "builtin_rules = Done m"
  shows "rules_ok m"
proof -
  obtain m0 t where m0: "collect_rules builtin_rows = Done m0" "builtin_long_context = Done t"
    and m: "m = map (\<lambda>(k, r).
       (k, if k \<in> {''claude-sonnet-4'', ''claude-sonnet-4-5'', ''claude-sonnet-4-6''}
           then r\<lparr>pr_long_context := Some t\<rparr> else r)) m0"
    using assms by (auto simp: builtin_rules_def outcome_bind_Done_iff)
  have "rule_ok (r\<lparr>pr_long_context := Some t\<rparr>)" if "rule_ok r" for r
    using that builtin_long_context_ok [OF m0(2)] by (simp add: rule_ok_tier)
  then show ?thesis
    using collect_rules_ok [OF m0(1)] by (auto simp: rules_ok_def m)
qed

lemma builtin_texts:
  "list_all (\<lambda>v. case expect_rate v of Panic \<Rightarrow> False | Done _ \<Rightarrow> True)
     [''5'', ''25'', ''6.25'', ''10'', ''0.5'', ''15'', ''75'', ''18.75'', ''30'', ''1.5'', ''3'', ''3.75'', ''6'', ''0.3'', ''2'',
      ''2.5'', ''4'', ''0.2'', ''50'', ''12.5'', ''20'', ''1'', ''1.25'', ''0.1'', ''0.8'', ''1.6'', ''0.08'', ''0.25'', ''0.03'',
      ''22.5'', ''7.5'', ''12'', ''0.6'']"
  by code_simp

lemma rule_no_panic:
  "\<lbrakk>expect_rate i \<noteq> Panic; expect_rate out \<noteq> Panic; expect_rate c5 \<noteq> Panic; expect_rate c1 \<noteq> Panic;
    expect_rate cr \<noteq> Panic\<rbrakk> \<Longrightarrow> rule k i out c5 c1 cr \<noteq> Panic"
  by (auto simp: rule_def outcome_bind_Panic_iff)

lemma collect_rules_no_panic:
  "\<forall>(k, i, out, c5, c1, cr) \<in> set rows. expect_rate i \<noteq> Panic \<and> expect_rate out \<noteq> Panic \<and>
     expect_rate c5 \<noteq> Panic \<and> expect_rate c1 \<noteq> Panic \<and> expect_rate cr \<noteq> Panic
   \<Longrightarrow> collect_rules rows \<noteq> Panic"
  by (induction rows rule: collect_rules.induct) (auto simp: outcome_bind_Panic_iff rule_no_panic)

lemma builtin_rules_no_panic: "builtin_rules \<noteq> Panic"
proof -
  have ok: "expect_rate v \<noteq> Panic" if "v \<in> set [''5'', ''25'', ''6.25'', ''10'', ''0.5'', ''15'', ''75'', ''18.75'', ''30'',
      ''1.5'', ''3'', ''3.75'', ''6'', ''0.3'', ''2'', ''2.5'', ''4'', ''0.2'', ''50'', ''12.5'', ''20'', ''1'', ''1.25'', ''0.1'', ''0.8'',
      ''1.6'', ''0.08'', ''0.25'', ''0.03'', ''22.5'', ''7.5'', ''12'', ''0.6'']" for v
    using builtin_texts that unfolding list_all_iff by (auto split: outcome.splits)
  have "collect_rules builtin_rows \<noteq> Panic"
    by (rule collect_rules_no_panic) (simp add: builtin_rows_def ok)
  moreover have "builtin_long_context \<noteq> Panic"
    by (simp add: builtin_long_context_def outcome_bind_Panic_iff ok)
  ultimately show ?thesis
    by (auto simp: builtin_rules_def outcome_bind_Panic_iff)
qed

lemma parse_optional_rate_nonneg:
  "parse_optional_rate v = Inr (Some n) \<Longrightarrow> 0 \<le> n"
  by (auto simp: parse_optional_rate_def sum_bind_def dest: parse_usd_nonneg split: option.splits sum.splits)

lemma sum_bind_Inr_iff: "sum_bind r f = Inr y \<longleftrightarrow> (\<exists>x. r = Inr x \<and> f x = Inr y)"
  by (auto simp: sum_bind_def split: sum.splits)

lemma parse_override_rates_ok: "parse_override_rates x = Inr r \<Longrightarrow> rates_ok r"
  by (auto simp: parse_override_rates_def sum_bind_Inr_iff rates_ok_iff dest: parse_optional_rate_nonneg)

lemma rates_ok_extend [simp]:
  "rates_ok (rates.extend r (long_context_pricing.fields t)) = rates_ok r"
  "rates_ok (rates.extend r (pricing_rule.fields k tier)) = rates_ok r"
  by (simp_all add: rates_ok_iff rates.defs long_context_pricing.defs pricing_rule.defs)

lemma rates_extend_sel [simp]:
  "lc_threshold (rates.extend r (long_context_pricing.fields t)) = t"
  "pr_model_key (rates.extend r (pricing_rule.fields k tier)) = k"
  "pr_long_context (rates.extend r (pricing_rule.fields k tier)) = tier"
  by (simp_all add: rates.defs long_context_pricing.defs pricing_rule.defs)

lemma parse_override_tier_ok: "parse_override_tier x = Inr t \<Longrightarrow> 0 < lc_threshold t \<and> rates_ok t"
  by (auto simp: parse_override_tier_def sum_bind_Inr_iff dest: parse_override_rates_ok split: if_splits)

lemma parse_override_rule_ok: "parse_override_rule k x = Inr r \<Longrightarrow> rule_ok r"
  by (auto simp: parse_override_rule_def sum_bind_Inr_iff rule_ok_def
      dest: parse_override_rates_ok parse_override_tier_ok split: option.splits)

lemma rules_ok_update: "rules_ok m \<Longrightarrow> rule_ok r \<Longrightarrow> rules_ok (AList.update k r m)"
  by (induction m) (auto simp: rules_ok_def)

lemma collect_overrides_ok:
  "rules_ok m \<Longrightarrow> collect_overrides es m = Inr m' \<Longrightarrow> rules_ok m'"
  by (induction es m rule: collect_overrides.induct)
     (auto simp: Let_def sum_bind_Inr_iff dest: parse_override_rule_ok intro: rules_ok_update
       split: if_splits)

lemma from_override_json_cases:
  assumes "from_override_json S sha o_json = Done (Inr pe)"
  shows "builtin_rules = Done (pe_rules pe) \<and>
    (pe_overrides pe = [] \<or> (\<exists>es. collect_overrides es [] = Inr (pe_overrides pe)))"
proof -
  obtain rules where r: "builtin_rules = Done rules"
    using builtin_rules_no_panic by (cases builtin_rules) auto
  show ?thesis
  proof (cases o_json)
    case None
    then show ?thesis
      using assms by (auto simp: from_override_json_def Let_def r)
  next
    case (Some tx)
    define raw where "raw = trim tx"
    show ?thesis
    proof (cases "raw = []")
      case True
      then show ?thesis
        using assms Some by (auto simp: from_override_json_def Let_def raw_def r)
    next
      case False
      then obtain doc es ov where "sj_from_str S raw = Some doc"
        "Option.bind (as_object doc) (de_entries de_override_rule) = Some es"
        "collect_overrides (sort_key fst es) [] = Inr ov" "pe_overrides pe = ov" "pe_rules pe = rules"
        using assms Some
        by (cases "sj_from_str S raw";
            cases "Option.bind (as_object (the (sj_from_str S raw))) (de_entries de_override_rule)")
           (auto simp: from_override_json_def Let_def sum_bind_Inr_iff raw_def r)
      then show ?thesis
        using r by blast
    qed
  qed
qed

lemma rules_ok_Nil [simp]: "rules_ok []"
  by (simp add: rules_ok_def)

lemma from_override_json_ok:
  assumes "from_override_json S sha o_json = Done (Inr pe)"
  shows "engine_ok pe"
  using from_override_json_cases [OF assms] builtin_rules_ok collect_overrides_ok [of "[]"]
  by (auto simp: engine_ok_def)

lemma validate_rules_Cons:
  "validate_rules ((k, r) # rest) = Inr () \<longleftrightarrow>
     (trim k \<noteq> [] \<and> pr_model_key r = k \<and> rule_ok r) \<and> validate_rules rest = Inr ()"
proof -
  have neg: "list_ex (\<lambda>x. x < 0) l \<longleftrightarrow> \<not> (\<forall>x \<in> set l. 0 \<le> x)" for l :: "int list"
    by (auto simp: list_ex_iff not_le)
  show ?thesis
    by (cases "pr_long_context r") (auto simp: rule_ok_def rates_ok_def neg simp del: ball_simps)
qed

lemma validate_rules_ok:
  "validate_rules es = Inr () \<longleftrightarrow> (\<forall>(k, r) \<in> set es. trim k \<noteq> [] \<and> pr_model_key r = k \<and> rule_ok r)"
  by (induction es) (auto simp: validate_rules_Cons simp del: validate_rules.simps(2))

lemma validate_ok:
  "validate snap = Inr () \<longleftrightarrow> trim (ps_version snap) \<noteq> [] \<and> ps_rules snap \<noteq> [] \<and>
     (\<forall>(k, r) \<in> set (ps_rules snap). trim k \<noteq> [] \<and> pr_model_key r = k \<and> rule_ok r)"
  by (auto simp: validate_def validate_rules_ok)

lemma merge_snapshot_ok:
  "\<forall>(k, r) \<in> set es. rule_ok r \<Longrightarrow> rules_ok m \<Longrightarrow> rules_ok (merge_snapshot es m)"
proof (induction es arbitrary: m)
  case (Cons e es)
  obtain key r where e: "e = (key, r)"
    by (cases e)
  have "case Option.bind (map_of m key) pr_long_context of None \<Rightarrow> True
      | Some t \<Rightarrow> 0 < lc_threshold t \<and> rates_ok t"
    using map_of_ok [OF Cons.prems(2), of key]
    by (cases "map_of m key") (simp_all add: rule_ok_def)
  then have "rule_ok (r\<lparr>pr_long_context := Option.bind (map_of m key) pr_long_context\<rparr>)" "rule_ok r"
    using Cons.prems(1) e by (simp_all add: rule_ok_tier)
  then have "rules_ok (AList.update key (if pr_long_context r = None
      then r\<lparr>pr_long_context := Option.bind (map_of m key) pr_long_context\<rparr> else r) m)"
    using Cons.prems(2) by (simp add: rules_ok_update)
  then show ?case
    using Cons by (simp add: e Let_def)
qed simp

lemma with_snapshot_ok:
  assumes "engine_ok pe" "with_snapshot pe snap = Done (Inr pe')"
  shows "engine_ok pe'"
proof -
  obtain m where "builtin_rules = Done m" "validate snap = Inr ()"
    "pe_rules pe' = merge_snapshot (sort_key fst (ps_rules snap)) m" "pe_overrides pe' = pe_overrides pe"
    using assms(2) by (auto simp: with_snapshot_def outcome_bind_Done_iff split: sum.splits)
  then show ?thesis
    using assms(1) builtin_rules_ok
    by (auto simp: engine_ok_def validate_ok intro!: merge_snapshot_ok)
qed

section \<open>Dated model names\<close>

lemma model_key_matches_dated:
  assumes "model_key_matches m k" "m \<noteq> k"
  shows "k = take (length m - 9) m"
proof -
  obtain suf where suf: "strip_prefix k m = Some suf" "prefix ''-'' suf" "length (drop 1 suf) = 8"
    using assms by (auto simp: model_key_matches_def split: option.splits)
  then have "m = k @ suf"
    by (auto simp: strip_prefix_def prefix_def split: if_splits)
  moreover have "length suf = 9"
    using suf(2,3) by (auto simp: prefix_def)
  ultimately show ?thesis
    by simp
qed

lemma filter_unique_key:
  assumes "distinct (map fst m)" "(k, v) \<in> set m" "p (k, v)" "\<And>e. e \<in> set m \<Longrightarrow> p e \<Longrightarrow> fst e = k"
  shows "filter p m = [(k, v)]"
  using assms
proof (induction m)
  case (Cons e m)
  show ?case
  proof (cases "e = (k, v)")
    case True
    then have "filter p m = []"
      using Cons.prems by (force simp: filter_empty_conv)
    then show ?thesis
      using True Cons.prems by simp
  next
    case False
    then have mem: "(k, v) \<in> set m"
      using Cons.prems by auto
    have "\<not> p e"
    proof
      assume "p e"
      then have "fst e = k"
        using Cons.prems(4) [of e] by simp
      then show False
        using mem Cons.prems(1) by (metis distinct.simps(2) fst_conv image_eqI list.set_map list.simps(9))
    qed
    then show ?thesis
      using Cons mem by simp
  qed
qed simp

lemma dated_lookup:
  assumes "hm_wf (pe_rules pe)" "map_of (pe_overrides pe) (to_ascii_lowercase (trim model)) = None"
    and "normalize_model_key model = k @ CHR ''-'' # d" "length d = 8" "list_all is_ascii_digit d"
    and "map_of (pe_rules pe) (normalize_model_key model) = None" "map_of (pe_rules pe) k = Some r"
  shows "find_rule pe model = Some r"
proof -
  let ?n = "normalize_model_key model"
  have match: "model_key_matches ?n k"
    using assms(3-5) by (simp add: model_key_matches_def strip_prefix_def)
  have only: "key = k" if "(key, x) \<in> set (pe_rules pe)" "model_key_matches ?n key" for key x
  proof -
    have "?n \<noteq> key"
      using that(1) assms(6) by (force simp: map_of_eq_None_iff)
    then have "key = take (length ?n - 9) ?n"
      using that(2) by (rule model_key_matches_dated [rotated])
    then show ?thesis
      using assms(3,4) by simp
  qed
  have mem: "(k, r) \<in> set (pe_rules pe)" and dist: "distinct (map fst (pe_rules pe))"
    using assms(1) map_of_SomeD [OF assms(7)] by (simp_all add: hm_wf_def)
  have "filter (\<lambda>(key, _). model_key_matches ?n key) (pe_rules pe) = [(k, r)]"
    by (rule filter_unique_key [OF dist mem]) (use match only in \<open>auto\<close>)
  then show ?thesis
    using assms(2,6) by (simp add: find_rule_def normalize_model_key_def Let_def)
qed

section \<open>Snapshots: round trip\<close>

definition rates_i64 :: "'a rates_scheme \<Rightarrow> bool" where
  "rates_i64 r \<longleftrightarrow> (\<forall>x \<in> set (rate_list r). i64_range x)"

definition rule_i64 :: "pricing_rule \<Rightarrow> bool" where
  "rule_i64 r \<longleftrightarrow> rates_i64 r \<and>
     (case pr_long_context r of None \<Rightarrow> True | Some t \<Rightarrow> i64_range (lc_threshold t) \<and> rates_i64 t)"

lemma as_i64_json: "i64_range i \<Longrightarrow> as_i64 (json_of_i64 i) = Some i"
  by (simp add: json_of_i64_def i64_checked_def)

lemma json_of_i64_not_null [simp]: "json_of_i64 i \<noteq> JNull"
  by (simp add: json_of_i64_def)

lemma optional_i64:
  assumes "jget j k = Some (json_of_opt_i64 v)" "\<forall>x. v = Some x \<longrightarrow> i64_range x"
  shows "optional_field as_i64 j k = Some v"
  using assms by (cases v) (simp_all add: optional_field_def json_of_opt_i64_def as_i64_json)

lemma rates_i64_iff:
  "rates_i64 r \<longleftrightarrow>
     (\<forall>o_rate \<in> {rt_input r, rt_output r, rt_cache_creation_5m r, rt_cache_creation_1h r, rt_cache_read r}.
        \<forall>x. o_rate = Some x \<longrightarrow> i64_range x)"
  by (auto simp: rates_i64_def rate_list_def List.map_filter_def split: if_splits)

lemma de_rates_ok:
  assumes "rates_i64 r" "\<And>k v. map_of (rates_fields r) k = Some v \<Longrightarrow> jget j k = Some v"
  shows "de_rates j = Some (rates.truncate r)"
proof -
  have f: "optional_field as_i64 j ''input'' = Some (rt_input r)"
    "optional_field as_i64 j ''output'' = Some (rt_output r)"
    "optional_field as_i64 j ''cache_creation_5m'' = Some (rt_cache_creation_5m r)"
    "optional_field as_i64 j ''cache_creation_1h'' = Some (rt_cache_creation_1h r)"
    "optional_field as_i64 j ''cache_read'' = Some (rt_cache_read r)"
    by (rule optional_i64 [OF assms(2)];
        use assms(1) in \<open>simp add: rates_fields_def rates_i64_iff\<close>)+
  show ?thesis
    by (simp add: de_rates_def f rates.defs)
qed

lemma de_tier_ok:
  assumes "rates_i64 t" "i64_range (lc_threshold t)"
  shows "de_tier (tier_to_value t) = Some t"
proof -
  have "de_rates (tier_to_value t) = Some (rates.truncate t)"
    by (rule de_rates_ok [OF assms(1)]) (auto simp: tier_to_value_def rates_fields_def split: if_splits)
  then show ?thesis
    using assms(2)
    by (cases t) (simp add: de_tier_def required_field_def tier_to_value_def as_i64_json rates.defs
        long_context_pricing.defs)
qed

lemma de_rule_ok:
  assumes "rule_i64 r"
  shows "de_rule (rule_to_value r) = Some r"
proof -
  have rates: "de_rates (rule_to_value r) = Some (rates.truncate r)"
    using assms by (intro de_rates_ok)
      (auto simp: rule_i64_def rule_to_value_def rates_fields_def split: if_splits)
  have tier: "optional_field de_tier (rule_to_value r) ''long_context'' = Some (pr_long_context r)"
    using assms by (cases "pr_long_context r")
      (auto simp: rule_i64_def optional_field_def rule_to_value_def rates_fields_def de_tier_ok,
       simp_all add: tier_to_value_def)
  have "as_object (rule_to_value r) \<noteq> None" "required_field as_str (rule_to_value r) ''model_key'' = Some (pr_model_key r)"
    by (simp_all add: rule_to_value_def required_field_def)
  then show ?thesis
    using rates tier by (cases r) (auto simp: de_rule_def rates.defs pricing_rule.defs)
qed

lemma de_entries_ok:
  "\<forall>(k, r) \<in> set es. rule_i64 r \<Longrightarrow>
   de_entries de_rule (map (\<lambda>(k, r). (k, rule_to_value r)) es) = Some es"
  by (induction es) (auto simp: de_rule_ok)

section \<open>Remote price lists\<close>

lemma json_rate_nonneg: "json_rate nt v k = Inr (Some x) \<Longrightarrow> 0 \<le> x"
  by (auto simp: json_rate_def sum_bind_Inr_iff dest: parse_decimal_nonneg
      split: option.splits json.splits)

lemma normalize_key_nonblank:
  assumes "CHR ''c'' \<in> set model"
  shows "trim (normalize_model_key model) \<noteq> []"
proof -
  have "CHR ''c'' \<in> set (trim model)"
    using assms letter_not_white(1) by (rule trim_keeps)
  moreover have "char_to_ascii_lowercase (CHR ''c'') = CHR ''c''"
    by (simp add: char_to_ascii_lowercase_def is_ascii_upper_def)
  ultimately have "CHR ''c'' \<in> set (to_ascii_lowercase (trim model))"
    unfolding to_ascii_lowercase_def by (metis image_eqI list.set_map)
  then have "CHR ''c'' \<in> set (normalize_model_key model)"
    by (force simp: normalize_model_key_def replace_char_def)
  then have "CHR ''c'' \<in> set (trim (normalize_model_key model))"
    using letter_not_white(1) by (rule trim_keeps)
  then show ?thesis by auto
qed

definition nonneg_opt :: "int option \<Rightarrow> bool" where
  "nonneg_opt v \<longleftrightarrow> (\<forall>x. v = Some x \<longrightarrow> 0 \<le> x)"

lemma nonneg_opt_intros:
  "nonneg_opt None" "0 \<le> x \<Longrightarrow> nonneg_opt (Some x)"
  "nonneg_opt a \<Longrightarrow> nonneg_opt b \<Longrightarrow> nonneg_opt (or_else a b)"
  "0 \<le> r \<Longrightarrow> 0 \<le> n \<Longrightarrow> 0 < d \<Longrightarrow> nonneg_opt (multiply_rate r n d)"
  "nonneg_opt a \<Longrightarrow> nonneg_opt (Option.bind a (\<lambda>x. multiply_rate x 2 1))"
  by (auto simp: nonneg_opt_def or_else_def Option.bind_eq_Some_conv dest: multiply_rate_nonneg
      split: option.splits)

lemma nonneg_opt_json_rate: "json_rate nt v k = Inr x \<Longrightarrow> nonneg_opt x"
  by (cases x) (auto simp: nonneg_opt_def dest: json_rate_nonneg)

lemma rates_ok_opt:
  "rates_ok r \<longleftrightarrow> nonneg_opt (rt_input r) \<and> nonneg_opt (rt_output r) \<and>
     nonneg_opt (rt_cache_creation_5m r) \<and> nonneg_opt (rt_cache_creation_1h r) \<and>
     nonneg_opt (rt_cache_read r)"
  by (auto simp: rates_ok_iff nonneg_opt_def)

lemma claude_prefix_c: "prefix ''claude-'' s \<Longrightarrow> CHR ''c'' \<in> set s"
  by (auto simp: prefix_def)

text \<open>Consequences of a successful chain of fallible steps, step by step.\<close>

definition yields :: "('e + 'a) \<Rightarrow> ('a \<Rightarrow> bool) \<Rightarrow> bool" where
  "yields r P \<longleftrightarrow> (\<forall>y. r = Inr y \<longrightarrow> P y)"

lemma yields_intros:
  "P x \<Longrightarrow> yields (Inr x) P"
  "(\<And>x. r = Inr x \<Longrightarrow> yields (f x) P) \<Longrightarrow> yields (sum_bind r f) P"
  "(b \<Longrightarrow> yields t P) \<Longrightarrow> (\<not> b \<Longrightarrow> yields u P) \<Longrightarrow> yields (if b then t else u) P"
  "(v = None \<Longrightarrow> yields t P) \<Longrightarrow> (\<And>x. v = Some x \<Longrightarrow> yields (g x) P) \<Longrightarrow>
   yields (case v of None \<Rightarrow> t | Some x \<Rightarrow> g x) P"
  by (auto simp: yields_def sum_bind_Inr_iff split: option.split)

lemma litellm_rule_ok:
  assumes "litellm_rule nt model v = Inr (Some r)"
  shows "rule_ok r \<and> trim (pr_model_key r) \<noteq> []"
proof -
  have key: "trim (normalize_model_key model) \<noteq> []" if "prefix ''claude-'' model"
    using normalize_key_nonblank [OF claude_prefix_c [OF that]] .
  have "yields (litellm_rule nt model v)
      (\<lambda>y. case y of None \<Rightarrow> True | Some r \<Rightarrow> rule_ok r \<and> trim (pr_model_key r) \<noteq> [])"
    unfolding litellm_rule_def Let_def
    by (intro yields_intros)
       (auto simp: rule_ok_def rates_ok_opt key dest!: nonneg_opt_json_rate
         intro!: nonneg_opt_intros simp: nonneg_opt_def [of "Some _"])
  then show ?thesis
    using assms by (auto simp: yields_def)
qed

lemma models_dev_rule_ok:
  assumes "models_dev_rule nt key v = Inr (Some r)"
  shows "rule_ok r \<and> trim (pr_model_key r) \<noteq> []"
proof -
  have key: "trim k \<noteq> []" if "prefix ''claude-'' k" for k
    using trim_keeps [OF claude_prefix_c [OF that] letter_not_white(1)] by auto
  have "yields (models_dev_rule nt key v)
      (\<lambda>y. case y of None \<Rightarrow> True | Some r \<Rightarrow> rule_ok r \<and> trim (pr_model_key r) \<noteq> [])"
    unfolding models_dev_rule_def Let_def
    by (intro yields_intros)
       (auto simp: rule_ok_def rates_ok_opt key dest!: nonneg_opt_json_rate
         intro!: nonneg_opt_intros simp: nonneg_opt_def [of "Some _"])
  then show ?thesis
    using assms by (auto simp: yields_def)
qed

definition parsed_ok :: "(string, pricing_rule) hash_map \<Rightarrow> bool" where
  "parsed_ok m \<longleftrightarrow> (\<forall>(k, r) \<in> set m. trim k \<noteq> [] \<and> pr_model_key r = k \<and> rule_ok r)"

lemma parsed_ok_Nil [simp]: "parsed_ok []"
  by (simp add: parsed_ok_def)

lemma parsed_ok_update:
  "parsed_ok m \<Longrightarrow> trim k \<noteq> [] \<Longrightarrow> pr_model_key r = k \<Longrightarrow> rule_ok r \<Longrightarrow> parsed_ok (AList.update k r m)"
  by (induction m) (auto simp: parsed_ok_def)

lemma collect_parsed_ok:
  assumes "\<And>k v r. parse k v = Inr (Some r) \<Longrightarrow> rule_ok r \<and> trim (pr_model_key r) \<noteq> []"
  shows "parsed_ok m \<Longrightarrow> collect_parsed parse es m = Inr m' \<Longrightarrow> parsed_ok m'"
proof (induction es arbitrary: m)
  case (Cons e es)
  obtain k v where e: "e = (k, v)"
    by (cases e)
  obtain x where x: "parse k v = Inr x"
    "collect_parsed parse es (case x of None \<Rightarrow> m | Some r \<Rightarrow> AList.update (pr_model_key r) r m) = Inr m'"
    using Cons.prems(2) by (auto simp: e sum_bind_Inr_iff)
  have "parsed_ok (case x of None \<Rightarrow> m | Some r \<Rightarrow> AList.update (pr_model_key r) r m)"
    using Cons.prems(1) assms x(1) by (auto intro: parsed_ok_update split: option.split)
  then show ?case
    using Cons.IH x(2) by blast
qed simp

lemma collect_litellm_ok: "collect_parsed (litellm_rule nt) es [] = Inr m \<Longrightarrow> parsed_ok m"
  by (rule collect_parsed_ok [OF litellm_rule_ok parsed_ok_Nil])

lemma collect_models_dev_ok: "collect_parsed (models_dev_rule nt) es [] = Inr m \<Longrightarrow> parsed_ok m"
  by (rule collect_parsed_ok [OF models_dev_rule_ok parsed_ok_Nil])

lemma sort_key_Nil_iff [simp]: "sort_key f xs = [] \<longleftrightarrow> xs = []"
  by (metis length_0_conv length_sort)

lemma parse_litellm_ok: "parse_litellm_snapshot S nt txt0 = Inr m \<Longrightarrow> parsed_ok m \<and> m \<noteq> []"
  by (auto simp: parse_litellm_snapshot_def sum_bind_Inr_iff
      dest: collect_litellm_ok
      split: option.splits if_splits)

lemma parse_models_dev_ok: "parse_models_dev_snapshot S nt txt0 = Inr m \<Longrightarrow> parsed_ok m \<and> m \<noteq> []"
  by (auto simp: parse_models_dev_snapshot_def sum_bind_Inr_iff
      dest: collect_models_dev_ok
      split: option.splits if_splits)

lemma fold_or_insert_ok:
  "parsed_ok m \<Longrightarrow> parsed_ok es \<Longrightarrow> parsed_ok (fold (\<lambda>(k, r) m. hm_or_insert k r m) es m)"
proof (induction es arbitrary: m)
  case (Cons e es)
  obtain k r where e: "e = (k, r)"
    by (cases e)
  have es: "parsed_ok es" "trim k \<noteq> [] \<and> pr_model_key r = k \<and> rule_ok r"
    using Cons.prems(2) by (simp_all add: e parsed_ok_def)
  then have "parsed_ok (hm_or_insert k r m)"
    using Cons.prems(1) by (cases "map_of m k") (simp_all add: hm_or_insert_def parsed_ok_update)
  then show ?case
    using Cons.IH es(1) by (simp add: e)
qed simp

lemma fold_or_insert_nonempty:
  "m \<noteq> [] \<or> es \<noteq> [] \<Longrightarrow> fold (\<lambda>(k, r) m. hm_or_insert k r m) es m \<noteq> []"
proof (induction es arbitrary: m)
  case (Cons e es)
  have "hm_or_insert (fst e) (snd e) m \<noteq> []"
    by (cases m) (auto simp: hm_or_insert_def split: option.split)
  then show ?case
    using Cons.IH by (simp add: split_beta)
qed simp

lemma parsed_ok_sort [simp]: "parsed_ok (sort_key fst m) = parsed_ok m"
  by (simp add: parsed_ok_def)

lemma auto_version_nonblank: "trim (''auto-'' @ s) \<noteq> []"
  using trim_keeps [of "CHR ''a''" "''auto-'' @ s"] letter_not_white(2) by auto

lemma remote_snapshot_complete:
  assumes "sum_bind litellm (parse_litellm_snapshot S nt) = Inr m \<or>
    sum_bind models_dev (parse_models_dev_snapshot S nt) = Inr m"
  shows "\<exists>snap. remote_pricing_snapshot S sha nt litellm models_dev = Inr snap \<and> validate snap = Inr ()"
proof -
  let ?a = "sum_bind litellm (parse_litellm_snapshot S nt)"
  let ?b = "sum_bind models_dev (parse_models_dev_snapshot S nt)"
  have a: "parsed_ok x \<and> x \<noteq> []" if "?a = Inr x" for x
    using that parse_litellm_ok by (auto simp: sum_bind_Inr_iff)
  have b: "parsed_ok x \<and> x \<noteq> []" if "?b = Inr x" for x
    using that parse_models_dev_ok by (auto simp: sum_bind_Inr_iff)
  define r1 where "r1 = (case ?a of Inr p \<Rightarrow> p | Inl _ \<Rightarrow> [])"
  define rules where "rules = (case ?b of
      Inr p \<Rightarrow> fold (\<lambda>(k, r) m. hm_or_insert k r m) (sort_key fst p) r1 | Inl _ \<Rightarrow> r1)"
  have r1: "parsed_ok r1"
    using a by (cases ?a) (simp_all add: r1_def)
  then have ok: "parsed_ok rules"
    using b by (cases ?b) (simp_all add: rules_def fold_or_insert_ok)
  have ne: "rules \<noteq> []"
    using assms a b
    by (cases ?a; cases ?b) (simp_all add: rules_def r1_def fold_or_insert_nonempty)
  obtain src where "remote_pricing_snapshot S sha nt litellm models_dev =
      (let snap = \<lparr>ps_version = ''auto-'' @ src, ps_rules = rules\<rparr> in sum_bind (validate snap) (\<lambda>_. Inr snap))"
    using ne by (cases ?a; cases ?b) (simp_all add: remote_pricing_snapshot_def rules_def r1_def Let_def)
  moreover have "validate \<lparr>ps_version = ''auto-'' @ src, ps_rules = rules\<rparr> = Inr ()"
    using ok ne auto_version_nonblank [of src] by (simp add: validate_ok parsed_ok_def)
  ultimately show ?thesis
    by (simp add: sum_bind_def Let_def)
qed

section \<open>Properties\<close>

text \<open>
  Costs are exact up to rounding. For every \<open>i64\<close> token count and rate the \<open>i128\<close> intermediate
  results do not overflow: the cost is the product divided by a million, rounded half up, and
  so within half a nano-dollar of the exact amount; there is no cost only when it exceeds \<open>i64\<close>.
\<close>

theorem component_cost_rounds:
  assumes "0 < t" "i64_range t" "0 \<le> r" "i64_range r"
  shows "case component_cost t (Some r) of
      Some c \<Rightarrow> 0 \<le> c \<and> 2 * \<bar>c * 1000000 - t * r\<bar> \<le> 1000000
    | None \<Rightarrow> 2 ^ 63 \<le> (t * r + 500000) div 1000000"
proof -
  let ?c = "(t * r + 500000) div 1000000"
  have pos: "0 \<le> ?c"
    using assms by (simp add: pos_imp_zdiv_nonneg_iff)
  have "?c * 1000000 + (t * r + 500000) mod 1000000 = t * r + 500000"
    by (rule div_mult_mod_eq)
  moreover have "0 \<le> (t * r + 500000) mod 1000000" "(t * r + 500000) mod 1000000 < 1000000"
    by simp_all
  ultimately have "- 500000 \<le> ?c * 1000000 - t * r" "?c * 1000000 - t * r \<le> 500000"
    by linarith+
  then have near: "2 * \<bar>?c * 1000000 - t * r\<bar> \<le> 1000000"
    by (simp add: abs_if)
  show ?thesis
    unfolding component_cost_exact [OF assms] i64_checked_def
    using pos near by (auto simp: i64_range_def)
qed

theorem component_cost_rounds_witness:
  "case component_cost 1234567 (Some 6250000000) of
      Some c \<Rightarrow> 0 \<le> c \<and> 2 * \<bar>c * 1000000 - 1234567 * 6250000000\<bar> \<le> 1000000
    | None \<Rightarrow> 2 ^ 63 \<le> (1234567 * 6250000000 + 500000) div (1000000 :: int)"
  by (rule component_cost_rounds) (simp_all add: i64_range_def)

text \<open>
  The two rate parsers agree. A price text that the override parser accepts is read by the
  general decimal parser, at nine decimal places, as the same amount; and that amount is the
  exact decimal value of the text in nano-dollars.
\<close>

theorem rate_parsers_agree:
  assumes "parse_usd_per_million v = Inr n"
  shows "parse_decimal_scaled v 9 = Inr n \<and> 0 \<le> n \<and> n < 2 ^ 63 \<and>
    (\<exists>w f. split_fraction (trim v) = (w, f) \<and> length f \<le> 9 \<and>
       n * 10 ^ length f = int (digits_value (w @ f)) * 10 ^ 9)"
proof -
  from assms obtain w f where wf: "split_fraction (trim v) = (w, f)" "length f \<le> 9"
    "n = int (digits_value w) * 10 ^ 9 + int (digits_value f) * 10 ^ (9 - length f)"
    by (rule parse_usd_Inr)
  have p: "10 ^ (9 - length f) * 10 ^ length f = (10 ^ 9 :: int)"
    using wf(2) by (simp flip: power_add)
  have "n * 10 ^ length f = int (digits_value w) * 10 ^ 9 * 10 ^ length f +
      int (digits_value f) * (10 ^ (9 - length f) * 10 ^ length f)"
    by (simp only: wf(3) distrib_right mult.assoc)
  also have "\<dots> = int (digits_value (w @ f)) * 10 ^ 9"
    unfolding p by (simp add: digits_value_append algebra_simps)
  finally show ?thesis
    using usd_text_scaled [OF assms] parse_usd_nonneg [OF assms] wf by (auto simp: i64_range_def)
qed

theorem rate_parsers_agree_witness: "parse_decimal_scaled ''18.75'' 9 = Inr 18750000000"
proof -
  have "parse_usd_per_million ''18.75'' = Inr 18750000000"
    by code_simp
  then show ?thesis
    using rate_parsers_agree by blast
qed

text \<open>
  Prices are never negative. Starting from any accepted override text and applying any
  accepted snapshots, the built-in table is read without a panic and every engine so obtained
  prices every request with non-negative components that fit \<open>i64\<close>; the known cost is their sum,
  capped at the largest \<open>i64\<close>.
\<close>

inductive engine_reachable :: "serde_lib \<Rightarrow> (string \<Rightarrow> nat list) \<Rightarrow> pricing_engine \<Rightarrow> bool" for S sha where
  initial: "from_override_json S sha o_json = Done (Inr pe) \<Longrightarrow> engine_reachable S sha pe"
| refreshed: "engine_reachable S sha pe \<Longrightarrow> with_snapshot pe snap = Done (Inr pe') \<Longrightarrow>
    engine_reachable S sha pe'"

lemma engine_reachable_ok: "engine_reachable S sha pe \<Longrightarrow> engine_ok pe"
  by (induction rule: engine_reachable.induct) (auto dest: from_override_json_ok with_snapshot_ok)

theorem prices_nonnegative:
  assumes "engine_reachable S sha pe" "c = pu_costs (price pe model t)"
  shows "builtin_rules \<noteq> Panic \<and>
    (\<forall>x. Some x \<in> set (cost_list c) \<longrightarrow> 0 \<le> x \<and> x < 2 ^ 63) \<and>
    uc_known_nano_usd c = min (2 ^ 63 - 1) (sum_list (List.map_filter (\<lambda>x. x) (cost_list c)))"
  using price_costs [OF engine_reachable_ok [OF assms(1)], of model t] assms(2) builtin_rules_no_panic
  by (simp add: i64_range_def)

lemma default_engine: "\<exists>pe. from_override_json S sha None = Done (Inr pe)"
proof -
  obtain rules where r: "builtin_rules = Done rules"
    using builtin_rules_no_panic by (cases builtin_rules) auto
  show ?thesis
    by (simp add: from_override_json_def Let_def r)
qed

theorem prices_nonnegative_witness:
  "\<exists>pe. engine_reachable \<lparr>sj_to_string = (\<lambda>_. []), sj_from_str = (\<lambda>_. None)\<rparr> (\<lambda>_. []) pe \<and>
     builtin_rules \<noteq> Panic \<and>
     (\<forall>x. Some x \<in> set (cost_list (pu_costs (price pe ''claude-opus-5'' default_tokens))) \<longrightarrow> 0 \<le> x \<and> x < 2 ^ 63)"
proof -
  obtain pe where pe: "engine_reachable \<lparr>sj_to_string = (\<lambda>_. []), sj_from_str = (\<lambda>_. None)\<rparr> (\<lambda>_. []) pe"
    using default_engine engine_reachable.initial by metis
  then show ?thesis
    using prices_nonnegative [OF pe refl, of "''claude-opus-5''" default_tokens] by blast
qed

text \<open>
  Completeness is reported truthfully. A request is marked completely priced exactly when
  every counter that is positive has a cost.
\<close>

theorem price_complete:
  "uc_complete (pu_costs (price pe model t)) \<longleftrightarrow>
     list_all (\<lambda>(n, x). 0 < n \<longrightarrow> x \<noteq> None) (zip (count_list t) (cost_list (pu_costs (price pe model t))))"
  using price_complete_iff [of pe model t] by (simp add: list_all_iff)

theorem price_complete_witness:
  "uc_complete (pu_costs (price \<lparr>pe_rules = [], pe_overrides = [], pe_version = [],
      pe_override_version_suffix = []\<rparr> ''m'' default_tokens))"
  using price_complete [of "\<lparr>pe_rules = [], pe_overrides = [], pe_version = [],
      pe_override_version_suffix = []\<rparr>" "''m''" default_tokens]
  by (simp add: price_def default_tokens_def count_list_def cost_list_def component_cost_def Let_def)

text \<open>
  A dated release is priced as its model. A model name that is a known key followed by a dash
  and eight digits, and is neither overridden nor a key itself, is priced by the rule of that
  key; no other key can match it.
\<close>

theorem dated_model_uses_base_rule:
  assumes "hm_wf (pe_rules pe)" "map_of (pe_overrides pe) (to_ascii_lowercase (trim model)) = None"
    and "normalize_model_key model = k @ CHR ''-'' # d" "length d = 8" "list_all is_ascii_digit d"
    and "map_of (pe_rules pe) (normalize_model_key model) = None" "map_of (pe_rules pe) k = Some r"
  shows "find_rule pe model = Some r \<and>
    (\<forall>key. map_of (pe_rules pe) key \<noteq> None \<and> model_key_matches (normalize_model_key model) key \<longrightarrow> key = k)"
proof -
  have "key = k" if "map_of (pe_rules pe) key \<noteq> None" "model_key_matches (normalize_model_key model) key" for key
  proof -
    have "normalize_model_key model \<noteq> key"
      using that(1) assms(6) by auto
    then show ?thesis
      using model_key_matches_dated [OF that(2)] assms(3,4) by simp
  qed
  then show ?thesis
    using dated_lookup [OF assms] by blast
qed

theorem dated_model_uses_base_rule_witness:
  "\<exists>r. find_rule \<lparr>pe_rules = [(''claude-opus-4'', r)], pe_overrides = [], pe_version = [],
      pe_override_version_suffix = []\<rparr> '' Claude-Opus-4-20250514'' = Some r"
proof -
  let ?r = "\<lparr>rt_input = None, rt_output = None, rt_cache_creation_5m = None, rt_cache_creation_1h = None,
      rt_cache_read = None, pr_model_key = ''claude-opus-4'', pr_long_context = None\<rparr>"
  have n: "normalize_model_key '' Claude-Opus-4-20250514'' = ''claude-opus-4'' @ CHR ''-'' # ''20250514''"
    by code_simp
  show ?thesis
    using dated_model_uses_base_rule [of "\<lparr>pe_rules = [(''claude-opus-4'', ?r)], pe_overrides = [],
        pe_version = [], pe_override_version_suffix = []\<rparr>" "'' Claude-Opus-4-20250514''" "''claude-opus-4''"
        "''20250514''" ?r] n
    by (auto simp: hm_wf_def is_ascii_digit_def)
qed

text \<open>
  A cached snapshot survives storage. A valid snapshot written as JSON and read back is
  accepted and is the same snapshot, its rules in key order.
\<close>

theorem snapshot_json_roundtrip:
  assumes "validate snap = Inr ()" "\<forall>(k, r) \<in> set (ps_rules snap). rule_i64 r"
    and "serde_ok S (snapshot_to_value snap)"
  shows "sum_bind (snapshot_to_json S snap) (snapshot_from_json S) =
    Inr (snap\<lparr>ps_rules := sort_key fst (ps_rules snap)\<rparr>)"
proof -
  have "de_snapshot (snapshot_to_value snap) = Some (snap\<lparr>ps_rules := sort_key fst (ps_rules snap)\<rparr>)"
    using assms(2) de_entries_ok [of "sort_key fst (ps_rules snap)"]
    by (simp add: de_snapshot_def snapshot_to_value_def required_field_def rules_to_value_def)
  moreover have "validate (snap\<lparr>ps_rules := sort_key fst (ps_rules snap)\<rparr>) = Inr ()"
    using assms(1) by (simp add: validate_ok)
  ultimately show ?thesis
    using assms(3) by (simp add: sum_bind_def snapshot_to_json_def snapshot_from_json_def serde_ok_def)
qed

definition example_snapshot :: pricing_snapshot where
  "example_snapshot = \<lparr>ps_version = ''auto-x'', ps_rules = [(''claude-x'',
     \<lparr>rt_input = Some 5, rt_output = Some 7, rt_cache_creation_5m = None, rt_cache_creation_1h = None,
      rt_cache_read = None, pr_model_key = ''claude-x'', pr_long_context = None\<rparr>)]\<rparr>"

theorem snapshot_json_roundtrip_witness:
  "\<exists>S. sum_bind (snapshot_to_json S example_snapshot) (snapshot_from_json S) = Inr example_snapshot"
proof -
  let ?S = "\<lparr>sj_to_string = (\<lambda>_. []), sj_from_str = (\<lambda>_. Some (snapshot_to_value example_snapshot))\<rparr>"
  have t: "trim ''auto-x'' \<noteq> []" "trim ''claude-x'' \<noteq> []"
    by code_simp+
  have "validate example_snapshot = Inr ()"
    using t by (simp add: validate_ok example_snapshot_def rule_ok_def rates_ok_iff)
  then show ?thesis
    using snapshot_json_roundtrip [of example_snapshot ?S]
    by (auto simp: serde_ok_def example_snapshot_def rule_i64_def rates_i64_iff i64_range_def)
qed

text \<open>
  A refresh succeeds when a source does. Whenever at least one of the two remote lists
  arrives and contains a usable rule, a valid snapshot comes out: a rule taken from either list
  never fails the validation of the snapshot, so one bad source cannot block the other.
\<close>

theorem remote_refresh_succeeds:
  assumes "sum_bind litellm (parse_litellm_snapshot S nt) = Inr m \<or>
    sum_bind models_dev (parse_models_dev_snapshot S nt) = Inr m"
  shows "\<exists>snap. remote_pricing_snapshot S sha nt litellm models_dev = Inr snap \<and> validate snap = Inr ()"
  using assms by (rule remote_snapshot_complete)

definition models_dev_doc :: json where
  "models_dev_doc = JObj [(''anthropic'', JObj [(''models'', JObj [(''claude-x'', JObj [(''cost'',
     JObj [(''input'', JStr ''3''), (''output'', JStr ''15'')])])])])]"

theorem remote_refresh_succeeds_witness:
  "\<exists>snap. remote_pricing_snapshot \<lparr>sj_to_string = (\<lambda>_. []), sj_from_str = (\<lambda>_. Some models_dev_doc)\<rparr> (\<lambda>_. [])
      (\<lambda>_. []) (Inl ''request failed'') (Inr []) = Inr snap \<and> validate snap = Inr ()"
proof -
  let ?S = "\<lparr>sj_to_string = (\<lambda>_. []), sj_from_str = (\<lambda>_. Some models_dev_doc)\<rparr>"
  have r: "parse_decimal_scaled ''3'' 9 = Inr 3000000000" "parse_decimal_scaled ''15'' 9 = Inr 15000000000"
    "normalize_model_key ''claude-x'' = ''claude-x''"
    by code_simp+
  have "\<exists>m. parse_models_dev_snapshot ?S (\<lambda>_. []) [] = Inr m"
    by (simp add: parse_models_dev_snapshot_def models_dev_doc_def models_dev_rule_def json_rate_def
        sum_bind_def r Let_def)
  then show ?thesis
    using remote_refresh_succeeds [of "Inl ''request failed''" ?S "\<lambda>_. []" _ "Inr []" "\<lambda>_. []"]
    by (auto simp: sum_bind_def)
qed

end
