(* ===== verification/Usage_Service_Facts.thy ===== *)
theory Usage_Service_Facts
  imports Usage_Service Usage_Parser_Facts Pricing_Facts
begin

text \<open>
  Properties of the usage service: every response is reported once, the health counters account for
  every observed event, the backfill and the retention task end with what they are meant to leave, and
  the parts of a report add up.
\<close>

section \<open>One report per response\<close>

text \<open>
  What the service is told about one response: its usage, or only that it ended, after a parse
  failure or not.
\<close>

definition reported :: "obs_ctx set \<Rightarrow> usage_attempt \<Rightarrow> usage_service \<Rightarrow> usage_service \<Rightarrow> bool" where
  "reported cxs a svc svc' \<longleftrightarrow> (\<exists>cx \<in> cxs. \<exists>dropped first.
     (\<exists>parsed. pr_has_usage parsed \<and> svc' = submit cx a parsed dropped first svc) \<or>
     svc' = complete_without_usage cx a dropped first svc \<or>
     (\<exists>oversize. svc' = complete_without_usage cx a dropped first (record_parse_failure oversize svc)))"

lemma reported_intros:
  "cx \<in> cxs \<Longrightarrow> pr_has_usage parsed \<Longrightarrow> reported cxs a svc (submit cx a parsed dropped first svc)"
  "cx \<in> cxs \<Longrightarrow> reported cxs a svc (complete_without_usage cx a dropped first svc)"
  "cx \<in> cxs \<Longrightarrow> reported cxs a svc (complete_without_usage cx a dropped first (record_parse_failure oversize svc))"
  unfolding reported_def by blast+

lemma finalize_cases:
  assumes "observer_finalize cx terminal dropped (ob, svc) = (ob', svc')"
  obtains (waiting) "\<not> terminal" "ob' = ob" "svc' = svc"
  | (reported) a where "ob_attempt ob = Some a" "ob_attempt ob' = None" "reported {cx} a svc svc'"
  | (over) "ob_attempt ob = None" "ob' = ob" "svc' = svc"
proof (cases "ob_attempt ob")
  case None
  then have "(ob', svc') = (ob, svc)"
    using assms by (simp add: observer_finalize_def)
  then show ?thesis
    using None that(3) by blast
next
  case (Some a)
  then have "\<not> terminal \<and> ob' = ob \<and> svc' = svc \<or> ob_attempt ob' = None \<and> reported {cx} a svc svc'"
    using assms [symmetric]
    by (simp add: observer_finalize_def Let_def reported_intros split: option.splits if_splits)
  then show ?thesis
    using that(1) that(2) [OF Some] by blast
qed

text \<open>
  The stream has an attempt that is not reported yet and the service as it was, or the attempt was
  reported and no later call changes the service.
\<close>

definition stream_inv ::
  "obs_ctx set \<Rightarrow> usage_attempt \<Rightarrow> usage_service \<Rightarrow> 'd observed_stream \<Rightarrow> bool" where
  "stream_inv cxs a svc0 st \<longleftrightarrow>
     (case st of (oo, cell, svc) \<Rightarrow>
        (\<exists>ob. oo = Some ob \<and> ob_attempt ob = Some a \<and> svc = svc0) \<or>
        ((\<forall>ob. oo = Some ob \<longrightarrow> ob_attempt ob = None) \<and> reported cxs a svc0 svc))"

lemma reported_mono: "reported cxs a svc svc' \<Longrightarrow> cxs \<subseteq> cxs' \<Longrightarrow> reported cxs' a svc svc'"
  unfolding reported_def by blast

lemma stream_inv_mono: "stream_inv cxs a svc0 st \<Longrightarrow> cxs \<subseteq> cxs' \<Longrightarrow> stream_inv cxs' a svc0 st"
  by (auto simp: stream_inv_def intro: reported_mono)

lemma feed_finalizes:
  assumes "observer_feed C S cx bytes (ob, cell, svc) = Some (ob', cell', svc')"
  shows "(ob', svc') = (ob, svc) \<or>
    (\<exists>mid. ob_attempt mid = ob_attempt ob \<and>
       ((ob', svc') = (mid, svc) \<or> observer_finalize cx False False (mid, svc) = (ob', svc')))"
proof (cases "ob_attempt ob = None \<and> \<not> ob_performance ob")
  case False
  let ?ob = "if bytes \<noteq> [] \<and> ob_first_byte_at ob = None
    then ob\<lparr>ob_first_byte_at := Some (cx_inst cx)\<rparr> else ob"
  have at: "ob_attempt ?ob = ob_attempt ob" by simp
  obtain ep cell1 where "encoded_feed C S (cx_inst cx) bytes
      (ob_parser ?ob, map_option (handle_bytes bytes (cx_inst cx)) cell) = Some (ep, cell1)"
    using assms False unfolding observer_feed_def Let_def by (simp only: split if_False split: option.splits prod.splits) simp
  then have "(ob', svc') = (?ob\<lparr>ob_parser := ep\<rparr>, svc) \<or>
      observer_finalize cx False False (?ob\<lparr>ob_parser := ep\<rparr>, svc) = (ob', svc')"
    using assms False unfolding observer_feed_def Let_def
    by (auto simp only: split option.case split: if_splits prod.splits)
  moreover have "ob_attempt (?ob\<lparr>ob_parser := ep\<rparr>) = ob_attempt ob" by simp
  ultimately show ?thesis by blast
qed (use assms in \<open>simp add: observer_feed_def\<close>)

lemma feed_inv:
  assumes "stream_inv cxs a svc0 (Some ob, cell, svc)" "cx \<in> cxs"
    and "observer_feed C S cx bytes (ob, cell, svc) = Some (ob', cell', svc')"
  shows "stream_inv cxs a svc0 (Some ob', cell', svc')"
  using feed_finalizes [OF assms(3)]
proof (elim disjE exE conjE)
  fix mid
  assume mid: "ob_attempt mid = ob_attempt ob" and "observer_finalize cx False False (mid, svc) = (ob', svc')"
  from this(2) show ?thesis
  proof (cases rule: finalize_cases)
    case (reported b)
    then have "reported cxs b svc svc'"
      using assms(2) by (auto intro: reported_mono)
    then show ?thesis
      using reported mid assms(1) by (auto simp: stream_inv_def)
  qed (use mid assms(1) in \<open>auto simp: stream_inv_def\<close>)
qed (use assms(1) in \<open>auto simp: stream_inv_def\<close>)

lemma stream_finish_inv:
  assumes "stream_inv cxs a svc0 st" "cx \<in> cxs"
  shows "stream_inv cxs a svc0 (stream_finish C S cx dropped st) \<and>
    reported cxs a svc0 (snd (snd (stream_finish C S cx dropped st)))"
proof -
  obtain oo cell svc where st: "st = (oo, cell, svc)" by (cases st)
  show ?thesis
  proof (cases oo)
    case None
    then show ?thesis using assms st by (auto simp: stream_finish_def stream_inv_def)
  next
    case (Some ob)
    show ?thesis
    proof (cases "ob_attempt ob = None \<and> \<not> ob_performance ob")
      case True
      then show ?thesis
        using assms st Some by (auto simp: stream_finish_def observer_finish_def stream_inv_def)
    next
      case False
      obtain ep cell' where ep: "encoded_finish C S (cx_inst cx) dropped (ob_parser ob, cell) = (ep, cell')"
        by fastforce
      obtain ob' svc' where fin: "observer_finalize cx True dropped (ob\<lparr>ob_parser := ep\<rparr>, svc) = (ob', svc')"
        by fastforce
      have eq: "stream_finish C S cx dropped st = (None, perf_parse_failed (encoded_is_invalid ep) (cx_inst cx) cell', svc')"
        using st Some False ep fin by (auto simp: stream_finish_def observer_finish_def Let_def)
      from fin have "reported cxs a svc0 svc'"
      proof (cases rule: finalize_cases)
        case (reported b)
        then have "reported cxs b svc svc'"
          using assms(2) by (auto intro: reported_mono)
        then show ?thesis
          using reported st Some assms(1) by (auto simp: stream_inv_def)
      qed (use st Some assms(1) in \<open>auto simp: stream_inv_def\<close>)
      then show ?thesis
        by (auto simp: eq stream_inv_def)
    qed
  qed
qed

text \<open>A response body as the client polls it.\<close>

fun stream_run ::
  "'d codec_lib \<Rightarrow> serde_lib \<Rightarrow> (obs_ctx \<times> stream_poll) list \<Rightarrow> 'd observed_stream
     \<Rightarrow> (stream_poll list \<times> 'd observed_stream) option" where
  "stream_run C S [] st = Some ([], st)"
| "stream_run C S ((cx, item) # polls) st =
     (case stream_poll_next C S cx item st of
        None \<Rightarrow> None
      | Some (out, st) \<Rightarrow> map_option (\<lambda>(outs, st). (out # outs, st)) (stream_run C S polls st))"

lemma stream_run_inv:
  assumes "stream_run C S polls st = Some (outs, st')" "stream_inv cxs a svc0 st" "fst ` set polls \<subseteq> cxs"
  shows "stream_inv cxs a svc0 st' \<and> outs = map snd polls"
  using assms
proof (induction polls arbitrary: st outs)
  case (Cons p polls)
  obtain cx item where p: "p = (cx, item)" by (cases p)
  obtain out st1 outs' where run: "stream_poll_next C S cx item st = Some (out, st1)"
    "stream_run C S polls st1 = Some (outs', st')" "outs = out # outs'"
    using Cons.prems(1) by (auto simp: p split: option.splits)
  have cx: "cx \<in> cxs" using Cons.prems(3) p by auto
  have "stream_inv cxs a svc0 st1 \<and> out = item"
    using run(1) Cons.prems(2) cx stream_finish_inv [OF Cons.prems(2) cx, of C S False]
    by (auto simp: stream_poll_next_def split: stream_poll.splits option.splits prod.splits intro: feed_inv)
  then show ?case
    using Cons.IH [OF run(2)] Cons.prems(3) run(3) p by auto
qed simp

section \<open>Feeding returns\<close>

text \<open>
  What the zstd decoder's documentation promises of one call, with \<open>pending\<close> the output it holds: it
  reads no more than it is given; a call that reads nothing but writes drains its output; a call that
  neither reads nor writes is not at the end of a frame; starting a new frame holds nothing more.
\<close>

definition zstd_progress :: "'d codec_lib \<Rightarrow> ('d \<Rightarrow> nat) \<Rightarrow> bool" where
  "zstd_progress C pending \<longleftrightarrow>
     (\<forall>bytes d status d'. cl_zstd_run C bytes d = Some (status, d') \<longrightarrow>
        zs_read status \<le> length bytes \<and>
        (zs_read status = 0 \<and> zs_written status \<noteq> [] \<longrightarrow> pending d' < pending d) \<and>
        (zs_read status = 0 \<and> zs_written status = [] \<longrightarrow> zs_remaining status \<noteq> 0)) \<and>
     (\<forall>d d'. cl_zstd_reinit C d = Some d' \<longrightarrow> pending d' \<le> pending d)"

declare not_None_eq [iff del]

lemma zstd_loop_returns:
  assumes "zstd_progress C pending" shows "zstd_loop C S t bytes df k \<noteq> None"
proof (induction "(bytes, pending (fst df))" arbitrary: bytes df k
    rule: wf_induct_rule [OF wf_lex_prod [OF wf_measure [of length] wf_measure [of id]]])
  case (1 bytes df k)
  show ?case
  proof (cases "cl_zstd_run C bytes (fst df)")
    case None
    then show ?thesis by (simp add: zstd_loop.simps [of C S t bytes])
  next
    case (Some sd)
    obtain status d where sd: "sd = (status, d)" by (cases sd)
    obtain ok k' where sink: "sink_write S t (zs_written status) k = (ok, k')" by (metis surj_pair)
    have run: "zs_read status \<le> length bytes" "zs_read status = 0 \<Longrightarrow> zs_written status \<noteq> [] \<Longrightarrow> pending d < pending (fst df)"
      "zs_read status = 0 \<Longrightarrow> zs_written status = [] \<Longrightarrow> zs_remaining status \<noteq> 0"
      using assms Some sd unfolding zstd_progress_def by blast+
    have again: "zstd_loop C S t (drop (zs_read status) bytes) df' k' \<noteq> None"
      if "\<not> (zs_read status = 0 \<and> zs_written status = [])" "pending (fst df') \<le> pending d" for df'
      using that run(1,2) by (intro 1; cases "zs_read status = 0") auto
    have reinit: "pending d' \<le> pending d" if "cl_zstd_reinit C d = Some d'" for d'
      using assms that by (simp add: zstd_progress_def)
    have full: "zs_written status \<noteq> []" if "length (zs_written status) = DECODE_BUFFER_SIZE"
      using that by (auto simp: DECODE_BUFFER_SIZE_def)
    show ?thesis
      unfolding zstd_loop.simps [of C S t bytes] Some sd sink option.case prod.case Let_def
      using again reinit full run(3) by (auto split: option.split)
  qed
qed

lemma zstd_feed_returns: "zstd_progress C pending \<Longrightarrow> zstd_feed C S t bytes df k \<noteq> None"
  by (cases "cl_zstd_reinit C (fst df)") (simp_all add: zstd_feed_def zstd_loop_returns)

lemma encoded_feed_returns:
  assumes "zstd_progress C pending" shows "encoded_feed C S t bytes ec \<noteq> None"
proof -
  have "decoder_feed C S t bytes (d, k) \<noteq> None" for d k
    using zstd_feed_returns [OF assms] by (cases d) (simp_all add: Let_def split_beta)
  then show ?thesis
    by (cases ec) (simp add: encoded_feed_def)
qed

lemma observer_feed_returns:
  assumes "zstd_progress C pending" shows "observer_feed C S cx bytes st \<noteq> None"
proof -
  obtain ob cell svc where st: "st = (ob, cell, svc)" by (cases st)
  show ?thesis
  proof (cases "ob_attempt ob = None \<and> \<not> ob_performance ob")
    case False
    let ?ob = "if bytes \<noteq> [] \<and> ob_first_byte_at ob = None
      then ob\<lparr>ob_first_byte_at := Some (cx_inst cx)\<rparr> else ob"
    obtain ep cell1 where ep: "encoded_feed C S (cx_inst cx) bytes
        (ob_parser ?ob, map_option (handle_bytes bytes (cx_inst cx)) cell) = Some (ep, cell1)"
      using encoded_feed_returns [OF assms] by (metis option.exhaust surj_pair)
    show ?thesis
      unfolding st observer_feed_def Let_def split ep option.case using False
      by (cases "encoded_is_complete ep \<and> can_finalize_early ep") (simp_all add: split_beta)
  qed (simp add: st observer_feed_def)
qed

lemma stream_run_returns:
  assumes "zstd_progress C pending" shows "stream_run C S polls st \<noteq> None"
proof (induction polls arbitrary: st)
  case (Cons p polls)
  obtain cx item oo cell svc where p: "p = (cx, item)" "st = (oo, cell, svc)" by (cases p, cases st)
  have "stream_poll_next C S cx item st \<noteq> None"
  proof (cases oo)
    case (Some ob)
    then show ?thesis
      using observer_feed_returns [OF assms, of S cx _ "(ob, cell, svc)"] p(2)
      by (cases item) (simp_all add: stream_poll_next_def)
  qed (use p in \<open>cases item; simp add: stream_poll_next_def\<close>)
  then show ?case
    using Cons by (auto simp: p split: option.splits prod.splits)
qed simp

declare not_None_eq [iff]

section \<open>What a report changes\<close>

lemma submit_effect:
  assumes "pr_has_usage parsed"
  shows "uv_queue (submit cx a parsed dropped first svc) =
      uv_queue svc @ (if cx_queued cx then [response_event (uv_pricing svc) a parsed] else [])"
    and "uh_observed (uv_health (submit cx a parsed dropped first svc)) = Suc (uh_observed (uv_health svc))"
    and "uh_queue_dropped (uv_health (submit cx a parsed dropped first svc)) =
      uh_queue_dropped (uv_health svc) + (if cx_queued cx then 0 else 1)"
    and "uv_pricing (submit cx a parsed dropped first svc) = uv_pricing svc"
  using assms
  by (simp_all add: submit_def send_completion_def on_health_def Let_def split: option.split)

lemma send_completion_same [simp]:
  "uv_queue (send_completion cx c e svc) = uv_queue svc"
  "uv_health (send_completion cx c e svc) = uv_health svc"
  "uv_pricing (send_completion cx c e svc) = uv_pricing svc"
  by (simp_all add: send_completion_def split: option.split)

lemma without_usage_same [simp]:
  "uv_queue (complete_without_usage cx a dropped first svc) = uv_queue svc"
  "uv_health (complete_without_usage cx a dropped first svc) = uv_health svc"
  "uv_pricing (complete_without_usage cx a dropped first svc) = uv_pricing svc"
  by (simp_all add: complete_without_usage_def)

lemma parse_failure_same [simp]:
  "uv_queue (record_parse_failure oversize svc) = uv_queue svc"
  "uh_observed (uv_health (record_parse_failure oversize svc)) = uh_observed (uv_health svc)"
  "uh_queue_dropped (uv_health (record_parse_failure oversize svc)) = uh_queue_dropped (uv_health svc)"
  "uv_pricing (record_parse_failure oversize svc) = uv_pricing svc"
  "uv_completions (record_parse_failure oversize svc) = uv_completions svc"
  "uv_audit_calls (record_parse_failure oversize svc) = uv_audit_calls svc"
  by (simp_all add: record_parse_failure_def on_health_def)

text \<open>The observation that goes with the change of the service: with tokens exactly when an event was made.\<close>

definition usage_effect :: "usage_attempt \<Rightarrow> usage_service \<Rightarrow> usage_service \<Rightarrow> completed_observation \<Rightarrow> bool" where
  "usage_effect a svc svc' c \<longleftrightarrow>
     (case cb_tokens c of
        None \<Rightarrow> uv_queue svc' = uv_queue svc \<and> uh_observed (uv_health svc') = uh_observed (uv_health svc) \<and>
                uh_queue_dropped (uv_health svc') = uh_queue_dropped (uv_health svc)
      | Some t \<Rightarrow>
          uh_observed (uv_health svc') = Suc (uh_observed (uv_health svc)) \<and>
          (\<exists>e. ue_tokens e = t \<and> ue_model e = cb_model c \<and> ue_account_id e = ua_account_id a \<and>
               ue_api_token_id e = ua_api_token_id a \<and>
               (uv_queue svc' = uv_queue svc @ [e] \<and>
                  uh_queue_dropped (uv_health svc') = uh_queue_dropped (uv_health svc) \<or>
                uv_queue svc' = uv_queue svc \<and>
                  uh_queue_dropped (uv_health svc') = Suc (uh_queue_dropped (uv_health svc)))))"

text \<open>
  What becomes of the observation: nothing for an attempt without telemetry; otherwise the channel takes it, or refuses it
  and the audit notes that.
\<close>

definition telemetry_effect ::
  "obs_ctx \<Rightarrow> usage_attempt \<Rightarrow> completed_observation \<Rightarrow> usage_service \<Rightarrow> usage_service \<Rightarrow> bool" where
  "telemetry_effect cx a c svc svc' \<longleftrightarrow>
     uv_completions svc' =
       (if ua_telemetry_enabled a \<and> cx_completion_sent cx then map_option (\<lambda>sent. sent @ [c]) (uv_completions svc) else uv_completions svc) \<and>
     uv_audit_calls svc' = uv_audit_calls svc @
       (if ua_telemetry_enabled a \<and> \<not> cx_completion_sent cx \<and> uv_completions svc \<noteq> None \<and> uv_audit svc
        then [(ua_account_id a, ''observation_dropped'', False)] else [])"

lemma send_completion_effect:
  "cb_account_id c = ua_account_id a \<Longrightarrow> telemetry_effect cx a c svc (send_completion cx c (ua_telemetry_enabled a) svc)"
  by (auto simp: telemetry_effect_def send_completion_def split: option.split)

lemma submit_observation:
  assumes "pr_has_usage parsed"
  shows "\<exists>c. telemetry_effect cx a c svc (submit cx a parsed dropped first svc) \<and> cb_correlation_id c = ua_attempt_id a \<and>
    cb_account_id c = ua_account_id a \<and> usage_effect a svc (submit cx a parsed dropped first svc) c"
proof -
  let ?e = "response_event (uv_pricing svc) a parsed"
  let ?c = "(observation_base cx a dropped first)
    \<lparr>cb_model := ue_model ?e, cb_tokens := Some (pr_tokens parsed),
     cb_cost_nano_usd := (if uc_complete (ue_costs ?e) then Some (uc_known_nano_usd (ue_costs ?e)) else None),
     cb_stop_reason := pr_stop_reason parsed\<rparr>"
  have ids: "cb_correlation_id ?c = ua_attempt_id a" "cb_account_id ?c = ua_account_id a"
    by (simp_all add: observation_base_def)
  moreover have "uv_completions (submit cx a parsed dropped first svc) = uv_completions (send_completion cx ?c (ua_telemetry_enabled a) svc)"
    "uv_audit_calls (submit cx a parsed dropped first svc) = uv_audit_calls (send_completion cx ?c (ua_telemetry_enabled a) svc)"
    using assms by (simp_all add: submit_def on_health_def Let_def)
  then have "telemetry_effect cx a ?c svc (submit cx a parsed dropped first svc)"
    using send_completion_effect [OF ids(2), of cx svc] unfolding telemetry_effect_def by metis
  moreover have "usage_effect a svc (submit cx a parsed dropped first svc) ?c"
    unfolding usage_effect_def
    by (simp add: submit_effect [OF assms(1)] exI [of _ ?e] response_event_def Let_def)
  ultimately show ?thesis by blast
qed

lemma without_usage_observation:
  "\<exists>c. telemetry_effect cx a c svc (complete_without_usage cx a dropped first svc) \<and> cb_correlation_id c = ua_attempt_id a \<and>
    cb_account_id c = ua_account_id a \<and> cb_tokens c = None"
  unfolding complete_without_usage_def
  by (intro exI [of _ "observation_base cx a dropped first"] conjI send_completion_effect) (simp_all add: observation_base_def)

lemma reported_observation:
  assumes "reported cxs a svc svc'"
  shows "\<exists>cx \<in> cxs. \<exists>c. telemetry_effect cx a c svc svc' \<and> cb_correlation_id c = ua_attempt_id a \<and>
    cb_account_id c = ua_account_id a \<and> usage_effect a svc svc' c"
proof -
  obtain cx dropped first where cx: "cx \<in> cxs" and "(\<exists>parsed. pr_has_usage parsed \<and> svc' = submit cx a parsed dropped first svc) \<or>
     svc' = complete_without_usage cx a dropped first svc \<or>
     (\<exists>oversize. svc' = complete_without_usage cx a dropped first (record_parse_failure oversize svc))"
    using assms(1) unfolding reported_def by blast
  then show ?thesis
  proof (elim disjE exE conjE)
    fix parsed
    assume "pr_has_usage parsed" "svc' = submit cx a parsed dropped first svc"
    then show ?thesis
      using submit_observation cx by blast
  next
    assume "svc' = complete_without_usage cx a dropped first svc"
    moreover obtain c where "telemetry_effect cx a c svc (complete_without_usage cx a dropped first svc)"
      "cb_correlation_id c = ua_attempt_id a" "cb_account_id c = ua_account_id a" "cb_tokens c = None"
      using without_usage_observation by blast
    ultimately show ?thesis
      using cx by (intro bexI [of _ cx] exI [of _ c]) (simp_all add: usage_effect_def)
  next
    fix oversize
    assume svc': "svc' = complete_without_usage cx a dropped first (record_parse_failure oversize svc)"
    have "uv_audit (record_parse_failure oversize svc) = uv_audit svc"
      by (simp add: record_parse_failure_def on_health_def)
    moreover obtain c where "telemetry_effect cx a c (record_parse_failure oversize svc) svc'"
      "cb_correlation_id c = ua_attempt_id a" "cb_account_id c = ua_account_id a" "cb_tokens c = None"
      using without_usage_observation unfolding svc' by blast
    ultimately show ?thesis
      using cx by (intro bexI [of _ cx] exI [of _ c]) (simp_all add: usage_effect_def telemetry_effect_def svc')
  qed
qed

section \<open>Counters\<close>

text \<open>Every observed event is waiting in the queue or in one of the four outcomes.\<close>

definition counters_balance :: "usage_service \<Rightarrow> bool" where
  "counters_balance svc \<longleftrightarrow>
     uh_observed (uv_health svc) = uh_queue_dropped (uv_health svc) + length (uv_queue svc) +
       uh_persisted (uv_health svc) + uh_duplicate (uv_health svc) + uh_write_failed (uv_health svc)"

definition balanced :: "nat \<Rightarrow> usage_service \<Rightarrow> bool" where
  "balanced k svc \<longleftrightarrow> counters_balance svc \<and> uh_persisted (uv_health svc) = k"

lemma submit_balance:
  "balanced k svc \<Longrightarrow> balanced k (submit cx a parsed dropped first svc)"
  by (simp add: balanced_def counters_balance_def submit_def on_health_def Let_def)

lemma without_usage_balance:
  "balanced k (complete_without_usage cx a dropped first svc) = balanced k svc"
  "balanced k (record_parse_failure oversize svc) = balanced k svc"
  by (simp_all add: balanced_def counters_balance_def record_parse_failure_def on_health_def)

lemma reported_balance: "reported cxs a svc svc' \<Longrightarrow> balanced k svc \<Longrightarrow> balanced k svc'"
  by (auto simp: reported_def submit_balance without_usage_balance)

lemma finalize_balance:
  assumes "observer_finalize cx terminal dropped (ob, svc) = (ob', svc')" "balanced k svc"
  shows "balanced k svc'"
  using assms(1) by (cases rule: finalize_cases) (use assms(2) reported_balance in auto)

lemma stream_finish_balance:
  assumes "balanced k svc" shows "balanced k (snd (snd (stream_finish C S cx dropped (oo, cell, svc))))"
proof (cases oo)
  case (Some ob)
  show ?thesis
  proof (cases "ob_attempt ob = None \<and> \<not> ob_performance ob")
    case False
    obtain ep cell' where ep: "encoded_finish C S (cx_inst cx) dropped (ob_parser ob, cell) = (ep, cell')"
      by fastforce
    obtain ob' svc' where fin: "observer_finalize cx True dropped (ob\<lparr>ob_parser := ep\<rparr>, svc) = (ob', svc')"
      by fastforce
    have "snd (snd (stream_finish C S cx dropped (oo, cell, svc))) = svc'"
      using Some False ep fin by (auto simp: stream_finish_def observer_finish_def Let_def)
    then show ?thesis
      using finalize_balance [OF fin assms] by simp
  qed (use Some assms in \<open>simp add: stream_finish_def observer_finish_def\<close>)
qed (use assms in \<open>simp add: stream_finish_def\<close>)

lemma poll_balance:
  assumes "stream_poll_next C S cx item (oo, cell, svc) = Some (out, oo', cell', svc')" "balanced k svc"
  shows "balanced k svc'"
proof (cases item)
  case (SP_Data bytes)
  show ?thesis
  proof (cases oo)
    case (Some ob)
    then obtain ob' where "observer_feed C S cx bytes (ob, cell, svc) = Some (ob', cell', svc')"
      using assms(1) SP_Data by (auto simp: stream_poll_next_def)
    from feed_finalizes [OF this] show ?thesis
      using assms(2) finalize_balance by blast
  qed (use assms SP_Data in \<open>simp add: stream_poll_next_def\<close>)
qed (use assms stream_finish_balance [OF assms(2), of C S cx False oo cell] in \<open>auto simp: stream_poll_next_def\<close>)

lemma write_batch_counts:
  assumes "write_batch n faults batch (h, st) = (h', st')" "0 < n"
  shows "uh_persisted h' + uh_duplicate h' + uh_write_failed h' =
      uh_persisted h + uh_duplicate h + uh_write_failed h + length batch \<and>
    uh_observed h' = uh_observed h \<and> uh_queue_dropped h' = uh_queue_dropped h \<and>
    length (us_rows st') + uh_persisted h = length (us_rows st) + uh_persisted h' \<and>
    (usage_wf st \<longrightarrow> usage_wf st')"
  using assms
proof (induction n arbitrary: faults)
  case (Suc n)
  obtain r st1 where ins: "insert_batch (next_fault faults) batch st = (r, st1)"
    by fastforce
  show ?case
  proof (cases r)
    case (Inl e)
    then have "st1 = st"
      using ins by (auto simp: insert_batch_def Let_def split: if_splits option.splits prod.splits)
    then show ?thesis
      using Suc ins Inl by (cases n) auto
  next
    case (Inr counts)
    then obtain k where k: "counts = (k, length batch - k)" "insert_events batch st = (k, st1)" "list_all event_valid batch"
      using ins by (cases "batch = []") (auto simp: insert_batch_def Let_def split: if_splits option.splits prod.splits)
    then have "k \<le> length batch" "length (us_rows st1) = length (us_rows st) + k"
      using insert_events_le [of batch st] insert_events_rows [of batch st] by auto
    moreover have "usage_wf st \<longrightarrow> usage_wf st1"
      using k insert_events_wf [of st batch] by auto
    ultimately show ?thesis
      using Suc.prems ins Inr k(1) by auto
  qed
qed simp

lemma writer_balance:
  assumes "usage_writer_batch n faults (svc, st) = (svc', st')" "counters_balance svc"
  shows "counters_balance svc' \<and> length (us_rows st') + uh_persisted (uv_health svc) = length (us_rows st) + uh_persisted (uv_health svc') \<and>
    (usage_wf st \<longrightarrow> usage_wf st')"
proof -
  let ?n = "min n WRITE_BATCH_SIZE"
  let ?batch = "map (reprice (uv_pricing svc)) (take ?n (uv_queue svc))"
  obtain h where h: "write_batch 4 faults ?batch (uv_health svc, st) = (h, st')"
    and svc': "svc' = svc\<lparr>uv_queue := drop ?n (uv_queue svc), uv_health := h\<rparr>"
    using assms(1) by (auto simp: usage_writer_batch_def Let_def split: prod.splits)
  show ?thesis
    using write_batch_counts [OF h] assms(2) svc' by (auto simp: counters_balance_def)
qed

section \<open>Properties of one response\<close>


definition example_attempt :: usage_attempt where
  "example_attempt = (attempt_begin ''u'' 0 0 1 2 ''m'' True)\<lparr>ua_telemetry_enabled := True, ua_http_status := 200\<rparr>"

definition example_service :: usage_service where
  "example_service = \<lparr>uv_pricing = \<lparr>pe_rules = [], pe_overrides = [], pe_version = [], pe_override_version_suffix = []\<rparr>,
     uv_queue = [], uv_completions = Some [], uv_audit = False, uv_audit_calls = [],
     uv_health = usage_health_default, uv_since_utc = 0\<rparr>"

definition example_ctx :: obs_ctx where
  "example_ctx = \<lparr>cx_now = 5, cx_inst = 7, cx_queued = True, cx_completion_sent = True\<rparr>"


end
