(* ===== verification/Usage_Tasks.thy ===== *)
theory Usage_Tasks
  imports Usage_Service_Facts
begin

text \<open>
  The background tasks of the usage service beside the responses: the writer, the backfill of missing
  prices and the retention task. The batched backfill and the batched deletion are compared with what
  one pass over the table would do, and the health counters with what the tasks did.
\<close>

section \<open>The backfill as one pass\<close>

definition unpriced_of :: "usage_row \<Rightarrow> unpriced_usage_event" where
  "unpriced_of r = \<lparr>un_id = ur_id r, un_model = ue_model (ur_event r), un_tokens = ue_tokens (ur_event r)\<rparr>"

definition backfilled :: "pricing_engine \<Rightarrow> usage_row \<Rightarrow> usage_row" where
  "backfilled pe r = (case pricing_update pe (unpriced_of r) of Some u \<Rightarrow> price_row u r | None \<Rightarrow> r)"

lemma price_row_id [simp]: "ur_id (price_row u r) = ur_id r"
  by (simp add: price_row_def)

lemma backfilled_id [simp]: "ur_id (backfilled pe r) = ur_id r"
  by (simp add: backfilled_def split: option.split)

lemma backfilled_complete: "uc_complete (ue_costs (ur_event r)) \<Longrightarrow> backfilled pe r = r"
  by (simp add: backfilled_def price_row_def split: option.split)

lemma pricing_update_id: "pricing_update pe e = Some u \<Longrightarrow> pu_id u = un_id e"
  by (auto simp: pricing_update_def Let_def split: if_splits)

lemma pricing_update_valid:
  assumes "engine_ok pe" "pricing_update pe e = Some u" shows "costs_valid (pu_new_costs u)"
proof -
  let ?c = "pu_costs (price pe (un_model e) (un_tokens e))"
  have u: "pu_new_costs u = ?c"
    using assms(2) by (auto simp: pricing_update_def Let_def split: if_splits)
  have nn: "x \<in> set (cost_list ?c) \<Longrightarrow> cost_check x" for x
    using price_costs(1) [OF assms(1), of "un_model e" "un_tokens e"]
    by (cases x) (auto simp: cost_check_def)
  have "0 \<le> sum_list (List.map_filter (\<lambda>x. x) (cost_list ?c))"
    using price_costs(1) [OF assms(1), of "un_model e" "un_tokens e"]
    by (intro sum_list_nonneg) (force simp: List.map_filter_def)
  then have "0 \<le> uc_known_nano_usd ?c"
    using price_costs(2) [OF assms(1), of "un_model e" "un_tokens e"] by simp
  then show ?thesis
    using nn unfolding u costs_valid_def by (simp add: cost_list_def)
qed

lemma apply_updates_rows:
  "snd (apply_updates us st) = st\<lparr>us_rows := map (\<lambda>r. fold price_row us r) (us_rows st)\<rparr>"
  by (induction us arbitrary: st) (simp_all add: apply_update_def split_beta comp_def)

lemma fold_price_row:
  "distinct (map pu_id us) \<Longrightarrow>
   fold price_row us r = (case find (\<lambda>u. pu_id u = ur_id r) us of Some u \<Rightarrow> price_row u r | None \<Rightarrow> r)"
proof (induction us arbitrary: r)
  case (Cons u us)
  have "find (\<lambda>v. pu_id v = pu_id u) us = None"
    using Cons.prems by (auto simp: find_None_iff image_iff)
  moreover have "price_row u r = r" if "pu_id u \<noteq> ur_id r"
    using that by (simp add: price_row_def)
  ultimately show ?case
    using Cons by (cases "pu_id u = ur_id r") (auto cong: option.case_cong)
qed simp

lemma map_filter_update_ids:
  assumes "distinct (map un_id es)"
  shows "distinct (map pu_id (List.map_filter (pricing_update pe) es))"
    and "u \<in> set (List.map_filter (pricing_update pe) es) \<Longrightarrow> pu_id u \<in> un_id ` set es"
proof -
  have sub: "u \<in> set (List.map_filter (pricing_update pe) xs) \<Longrightarrow> pu_id u \<in> un_id ` set xs" for u xs
    by (force simp: List.map_filter_def dest: pricing_update_id)
  then show "u \<in> set (List.map_filter (pricing_update pe) es) \<Longrightarrow> pu_id u \<in> un_id ` set es" .
  show "distinct (map pu_id (List.map_filter (pricing_update pe) es))"
    using assms
  proof (induction es)
    case (Cons x es)
    then show ?case
      using sub [of _ es] by (auto dest!: pricing_update_id split: option.split) metis
  qed simp
qed

lemma find_update:
  assumes "distinct (map un_id es)" "e \<in> set es"
  shows "find (\<lambda>u. pu_id u = un_id e) (List.map_filter (pricing_update pe) es) = pricing_update pe e"
  using assms
proof (induction es)
  case (Cons x es)
  have other: "find (\<lambda>u. pu_id u = un_id x) (List.map_filter (pricing_update pe) es) = None"
    using Cons.prems(1) map_filter_update_ids(2) [of es _ pe] unfolding find_None_iff by (simp, metis)
  show ?case
  proof (cases "e = x")
    case True
    then show ?thesis
      using other by (auto simp: dest: pricing_update_id split: option.split)
  next
    case False
    then have "un_id x \<noteq> un_id e"
      using Cons.prems by force
    then show ?thesis
      using Cons False by (auto simp: dest: pricing_update_id split: option.split)
  qed
qed simp

lemma sorted_le_last: "sorted ys \<Longrightarrow> y \<in> set ys \<Longrightarrow> y \<le> last ys"
  by (induction ys) auto

lemma take_until_last:
  assumes "sorted_wrt (<) (map f xs)" "take n xs \<noteq> []" "x \<in> set xs"
  shows "x \<in> set (take n xs) \<longleftrightarrow> (f x :: int) \<le> f (last (take n xs))"
proof -
  have sorted: "sorted_wrt (<) (map f (take n xs) @ map f (drop n xs))"
    using assms(1) by (metis append_take_drop_id map_append)
  have l: "last (take n xs) \<in> set (take n xs)"
    using assms(2) by simp
  have "f x \<le> f (last (take n xs))" if "x \<in> set (take n xs)"
  proof -
    have "sorted (map f (take n xs))"
      using sorted by (metis sorted_wrt_append strict_sorted_imp_sorted)
    then have "f x \<le> last (map f (take n xs))"
      using that by (intro sorted_le_last) auto
    then show ?thesis
      using assms(2) by (simp add: last_map)
  qed
  moreover have "f (last (take n xs)) < f x" if "x \<in> set (drop n xs)"
    using sorted l that by (auto simp: sorted_wrt_append)
  moreover have "x \<in> set (take n xs) \<or> x \<in> set (drop n xs)"
    using assms(3) by (metis Un_iff append_take_drop_id set_append)
  ultimately show ?thesis
    by auto
qed

text \<open>One batch prices the rows between the last identifier seen and the last of the batch.\<close>

definition incomplete_after :: "int \<Rightarrow> usage_row \<Rightarrow> bool" where
  "incomplete_after after r \<longleftrightarrow> \<not> uc_complete (ue_costs (ur_event r)) \<and> after < ur_id r"

lemma unpriced_rows:
  assumes "sorted_wrt (<) (map ur_id (us_rows st))"
  shows "unpriced_events_after None after n st = Inr (map unpriced_of (take n (filter (incomplete_after after) (us_rows st))))"
proof -
  have "sort_key ur_id (filter (incomplete_after after) (us_rows st)) = filter (incomplete_after after) (us_rows st)"
    using assms by (intro sort_key_id_if_sorted sorted_filter strict_sorted_imp_sorted)
  then show ?thesis
    by (simp add: unpriced_events_after_def incomplete_after_def [abs_def] unpriced_of_def [abs_def])
qed

lemma backfill_batch:
  assumes sorted: "sorted_wrt (<) (map ur_id (us_rows st))"
    and ok: "engine_ok pe"
    and batch: "batch = take n (filter (incomplete_after after) (us_rows st))" "batch \<noteq> []"
  shows "\<exists>k. apply_pricing_updates None (List.map_filter (pricing_update pe) (map unpriced_of batch)) st =
    (Inr k, st\<lparr>us_rows := map (\<lambda>r. if after < ur_id r \<and> ur_id r \<le> ur_id (last batch) then backfilled pe r else r) (us_rows st)\<rparr>)"
proof -
  let ?es = "map unpriced_of batch"
  let ?us = "List.map_filter (pricing_update pe) ?es"
  let ?rows = "filter (incomplete_after after) (us_rows st)"
  have sf: "sorted_wrt (<) (map ur_id ?rows)"
    using sorted by (induction "us_rows st" arbitrary: st) (simp, metis sorted_wrt_map sorted_wrt_filter)
  have ids: "distinct (map un_id ?es)"
    using sf unfolding batch(1)
    by (simp add: comp_def unpriced_of_def) (metis distinct_take strict_sorted_iff take_map)
  have dist: "distinct (map ur_id (us_rows st))"
    using sorted by (simp add: strict_sorted_iff)
  have row: "fold price_row ?us r = (if after < ur_id r \<and> ur_id r \<le> ur_id (last batch) then backfilled pe r else r)"
    if r: "r \<in> set (us_rows st)" for r
  proof (cases "r \<in> set batch")
    case True
    then have "find (\<lambda>u. pu_id u = ur_id r) ?us = pricing_update pe (unpriced_of r)"
      using find_update [OF ids, of "unpriced_of r" pe] by (simp add: unpriced_of_def)
    moreover have "after < ur_id r" "ur_id r \<le> ur_id (last batch)"
      using True take_until_last [OF sf, of n r] batch set_take_subset [of n ?rows]
      by (auto simp: incomplete_after_def)
    ultimately show ?thesis
      using fold_price_row [OF map_filter_update_ids(1) [OF ids]] by (simp add: backfilled_def)
  next
    case False
    have "ur_id r \<notin> un_id ` set ?es"
    proof
      assume "ur_id r \<in> un_id ` set ?es"
      then obtain r' where "r' \<in> set batch" "ur_id r' = ur_id r"
        by (auto simp: unpriced_of_def)
      moreover have "set batch \<subseteq> set (us_rows st)"
        using batch(1) set_take_subset [of n ?rows] by auto
      ultimately show False
        using dist r False by (metis inj_onD distinct_map subsetD)
    qed
    then have "find (\<lambda>u. pu_id u = ur_id r) ?us = None"
      using map_filter_update_ids(2) [OF ids, of _ pe] unfolding find_None_iff by metis
    moreover have "backfilled pe r = r" if "after < ur_id r" "ur_id r \<le> ur_id (last batch)"
      using take_until_last [OF sf, of n r] batch False r that
      by (intro backfilled_complete) (auto simp: incomplete_after_def)
    ultimately show ?thesis
      using fold_price_row [OF map_filter_update_ids(1) [OF ids]] by simp
  qed
  have valid: "list_all (\<lambda>u. costs_valid (pu_new_costs u)) ?us"
    using pricing_update_valid [OF ok] by (auto simp: list_all_iff List.map_filter_def)
  have rows: "map (\<lambda>r. fold price_row ?us r) (us_rows st) =
      map (\<lambda>r. if after < ur_id r \<and> ur_id r \<le> ur_id (last batch) then backfilled pe r else r) (us_rows st)"
    using row by (intro map_cong) auto
  show ?thesis
  proof (cases "?us = []")
    case True
    then have "us_rows st = map (\<lambda>r. if after < ur_id r \<and> ur_id r \<le> ur_id (last batch) then backfilled pe r else r) (us_rows st)"
      using rows by simp
    then show ?thesis
      using True by (simp add: apply_pricing_updates_def)
  next
    case False
    then show ?thesis
      using valid apply_updates_rows [of ?us st] rows
      by (cases "apply_updates ?us st") (simp add: apply_pricing_updates_def)
  qed
qed

lemma backfill_loop_rows:
  assumes "sorted_wrt (<) (map ur_id (us_rows st))" "engine_ok pe"
  shows "\<exists>n'. backfill_loop pe [] after n st =
    (Inr n', st\<lparr>us_rows := map (\<lambda>r. if after < ur_id r then backfilled pe r else r) (us_rows st)\<rparr>)"
  using assms(1)
proof (induction "rows_after after st" arbitrary: after n st rule: less_induct)
  case less
  let ?all = "filter (incomplete_after after) (us_rows st)"
  let ?batch = "take PRICING_BACKFILL_BATCH_SIZE ?all"
  have un: "unpriced_events_after (next_fault []) after PRICING_BACKFILL_BATCH_SIZE st = Inr (map unpriced_of ?batch)"
    using unpriced_rows [OF less.prems] by (simp add: next_fault_def)
  show ?case
  proof (cases "?batch = []")
    case True
    then have "?all = []"
      by (auto simp: PRICING_BACKFILL_BATCH_SIZE_def)
    then have "map (\<lambda>r. if after < ur_id r then backfilled pe r else r) (us_rows st) = us_rows st"
      by (intro map_idI) (auto simp: filter_empty_conv incomplete_after_def backfilled_complete)
    then show ?thesis
      using un True by (simp add: backfill_loop.simps [of pe "[]" after])
  next
    case False
    let ?f = "\<lambda>r. if after < ur_id r \<and> ur_id r \<le> ur_id (last ?batch) then backfilled pe r else r"
    let ?st = "st\<lparr>us_rows := map ?f (us_rows st)\<rparr>"
    obtain k where k: "apply_pricing_updates (next_fault (tl [])) (List.map_filter (pricing_update pe) (map unpriced_of ?batch)) st = (Inr k, ?st)"
      using backfill_batch [OF less.prems assms(2) refl False] by (auto simp: next_fault_def)
    have ids: "map ur_id (us_rows ?st) = map ur_id (us_rows st)"
      by simp
    have last: "un_id (last (map unpriced_of ?batch)) = ur_id (last ?batch)"
      using False by (simp add: last_map unpriced_of_def)
    have step: "backfill_loop pe [] after n st =
        backfill_loop pe [] (ur_id (last ?batch)) (min (2 ^ 64 - 1) (n + k)) ?st"
      using un k False last by (simp add: backfill_loop.simps [of pe "[]" after])
    have "rows_after (ur_id (last ?batch)) ?st = rows_after (ur_id (last ?batch)) st"
      unfolding rows_after_def ids ..
    then have less_rows: "rows_after (ur_id (last ?batch)) ?st < rows_after after st"
      using unpriced_last [OF un] False rows_after_less [of after "ur_id (last ?batch)" st] last by simp
    have "sorted_wrt (<) (map ur_id (us_rows ?st))"
      unfolding ids by (rule less.prems)
    from less.hyps [OF less_rows this, of "min (2 ^ 64 - 1) (n + k)"] obtain n' where
      "backfill_loop pe [] (ur_id (last ?batch)) (min (2 ^ 64 - 1) (n + k)) ?st =
        (Inr n', ?st\<lparr>us_rows := map (\<lambda>r. if ur_id (last ?batch) < ur_id r then backfilled pe r else r) (us_rows ?st)\<rparr>)"
      by blast
    moreover have "map (\<lambda>r. if ur_id (last ?batch) < ur_id r then backfilled pe r else r) (us_rows ?st) =
        map (\<lambda>r. if after < ur_id r then backfilled pe r else r) (us_rows st)"
      using unpriced_last(1) [OF un] False last by auto
    ultimately show ?thesis
      using step by simp
  qed
qed

section \<open>Retention as one pass\<close>

definition recent :: "int \<Rightarrow> usage_row \<Rightarrow> bool" where
  "recent min_sg_day r \<longleftrightarrow> min_sg_day \<le> ue_sg_day (ur_event r)"

lemma delete_before_rows:
  assumes "distinct (map ur_id (us_rows st))" "delete_before fault d n st = (Inr k, st')"
  shows "filter (recent d) (us_rows st') = filter (recent d) (us_rows st)"
    and "distinct (map ur_id (us_rows st'))" "st' = st\<lparr>us_rows := us_rows st'\<rparr>"
    and "set (us_rows st') \<subseteq> set (us_rows st)"
    and "k = 0 \<Longrightarrow> 0 < n \<Longrightarrow> list_all (recent d) (us_rows st) \<and> st' = st"
proof -
  let ?old = "sort_key ur_id (filter (\<lambda>r. ue_sg_day (ur_event r) < d) (us_rows st))"
  let ?doomed = "map ur_id (take (nat n) ?old)"
  have st': "st' = st\<lparr>us_rows := filter (\<lambda>r. ur_id r \<notin> set ?doomed) (us_rows st)\<rparr>" and k: "k = length ?doomed"
    using assms(2) by (auto simp: delete_before_def Let_def split: option.splits)
  have "\<not> recent d r" if r: "r \<in> set (us_rows st)" "ur_id r \<in> set ?doomed" for r
  proof -
    obtain r' where r': "r' \<in> set (take (nat n) ?old)" "ur_id r' = ur_id r"
      using r(2) by auto
    then have "r' \<in> set (us_rows st)" "ue_sg_day (ur_event r') < d"
      using set_take_subset by fastforce+
    moreover have "r' = r"
      using assms(1) r(1) r'(2) calculation(1) by (metis distinct_map inj_onD)
    ultimately show ?thesis
      by (simp add: recent_def)
  qed
  then show "filter (recent d) (us_rows st') = filter (recent d) (us_rows st)"
    unfolding st' by (auto intro!: filter_cong)
  show "distinct (map ur_id (us_rows st'))"
    using assms(1) unfolding st' by (simp add: distinct_map_filter)
  show "st' = st\<lparr>us_rows := us_rows st'\<rparr>" "set (us_rows st') \<subseteq> set (us_rows st)"
    unfolding st' by auto
  assume "k = 0" "0 < n"
  then have "length ?old = 0"
    using k by (simp add: min_def split: if_splits)
  then have "filter (\<lambda>r. ue_sg_day (ur_event r) < d) (us_rows st) = []"
    by simp
  then show "list_all (recent d) (us_rows st) \<and> st' = st"
    unfolding st' by (auto simp: list_all_iff recent_def filter_empty_conv)
qed

lemma delete_before_fault: "delete_before fault d n st = (Inl e, st') \<Longrightarrow> st' = st"
  by (auto simp: delete_before_def Let_def split: option.splits)

lemma retention_loop_rows:
  assumes "distinct (map ur_id (us_rows st))"
  shows "filter (recent d) (us_rows (retention_loop d faults st)) = filter (recent d) (us_rows st) \<and>
    distinct (map ur_id (us_rows (retention_loop d faults st))) \<and>
    retention_loop d faults st = st\<lparr>us_rows := us_rows (retention_loop d faults st)\<rparr> \<and>
    set (us_rows (retention_loop d faults st)) \<subseteq> set (us_rows st) \<and>
    (faults = [] \<longrightarrow> list_all (recent d) (us_rows (retention_loop d faults st)))"
  using assms
proof (induction d faults st rule: retention_loop.induct)
  case (1 d faults st)
  obtain r st' where del: "delete_before (next_fault faults) d RETENTION_BATCH_SIZE st = (r, st')"
    by fastforce
  show ?case
  proof (cases r)
    case (Inl e)
    then have "retention_loop d faults st = st" "faults \<noteq> []"
      using del delete_before_fault
      by (auto simp: retention_loop.simps [of d faults] next_fault_def delete_before_def Let_def)
    then show ?thesis
      using 1(2) by simp
  next
    case (Inr k)
    note facts = delete_before_rows [OF 1(2) del [unfolded Inr]]
    show ?thesis
    proof (cases "k = 0")
      case True
      then have "retention_loop d faults st = st" "list_all (recent d) (us_rows st)"
        using del Inr facts(5) by (auto simp: retention_loop.simps [of d faults] RETENTION_BATCH_SIZE_def)
      then show ?thesis
        using 1(2) by auto
    next
      case False
      then have eq: "retention_loop d faults st = retention_loop d (tl faults) st'"
        using del Inr by (simp add: retention_loop.simps [of d faults])
      have "st\<lparr>us_rows := rows\<rparr> = st'\<lparr>us_rows := rows\<rparr>" for rows
        using facts(3) by (metis usage_store.fold_congs(1) usage_store.unfold_congs(1) usage_store.update_convs(1) usage_store.surjective)
      then show ?thesis
        using 1(1) [OF del [symmetric] Inr False facts(2)] facts(1,4) eq by auto
    qed
  qed
qed

lemma retention_loop_all:
  assumes "distinct (map ur_id (us_rows st))"
  shows "retention_loop d [] st = st\<lparr>us_rows := filter (recent d) (us_rows st)\<rparr>"
proof -
  have "us_rows (retention_loop d [] st) = filter (recent d) (us_rows st)"
    using retention_loop_rows [OF assms, of d "[]"] by (metis filter_id_conv list_all_iff)
  then show ?thesis
    using retention_loop_rows [OF assms, of d "[]"] by metis
qed

section \<open>The service with its tasks\<close>

text \<open>
  One poll or drop of any response body, and one round of each task, on the service and the table.
  The answers of the channels and the database's errors are arbitrary.
\<close>

inductive usage_step ::
  "'d codec_lib \<Rightarrow> serde_lib \<Rightarrow> usage_service \<times> usage_store \<Rightarrow> usage_service \<times> usage_store \<Rightarrow> bool"
  for C :: "'d codec_lib" and S :: serde_lib where
  poll: "stream_poll_next C S cx item (oo, cell, svc) = Some (out, oo', cell', svc') \<Longrightarrow>
    usage_step C S (svc, st) (svc', st)"
| drop: "stream_drop C S cx (oo, cell, svc) = (oo', cell', svc') \<Longrightarrow> usage_step C S (svc, st) (svc', st)"
| writer: "usage_step C S sv (usage_writer_batch n faults sv)"
| refresh_start: "usage_step C S sv (pricing_refresh_start faults sv)"
| refresh: "pricing_refresh_round S fetched now faults sv = Done sv' \<Longrightarrow> usage_step C S sv sv'"
| retention: "usage_step C S (svc, st) (svc, retention_round now faults st)"

definition usage_inv :: "nat \<Rightarrow> usage_service \<times> usage_store \<Rightarrow> bool" where
  "usage_inv n sv \<longleftrightarrow> counters_balance (fst sv) \<and> usage_wf (snd sv) \<and>
     length (us_rows (snd sv)) \<le> n + uh_persisted (uv_health (fst sv))"

lemma price_row_wf:
  assumes "costs_valid (pu_new_costs u)" "usage_wf st"
  shows "usage_wf (st\<lparr>us_rows := map (price_row u) (us_rows st)\<rparr>)"
proof -
  have same: "row_key (price_row u r) = row_key r" "event_valid (ur_event r) \<Longrightarrow> event_valid (ur_event (price_row u r))" for r
    using assms(1) by (simp_all add: price_row_def row_key_def event_valid_def)
  then show ?thesis
    using assms(2) by (simp add: usage_wf_def comp_def)
qed

lemma apply_pricing_updates_wf:
  assumes "usage_wf st" shows "usage_wf (snd (apply_pricing_updates fault us st))"
proof -
  have "usage_wf (snd (apply_updates us st))" if "list_all (\<lambda>u. costs_valid (pu_new_costs u)) us" "usage_wf st" for st
    using that
  proof (induction us arbitrary: st)
    case (Cons u us)
    then show ?case
      using price_row_wf [of u st] by (simp add: apply_update_def split_beta)
  qed simp
  then show ?thesis
    using assms by (auto simp: apply_pricing_updates_def split_beta split: option.split)
qed

lemma backfill_loop_wf:
  "usage_wf st \<Longrightarrow> usage_wf (snd (backfill_loop pe faults after n st)) \<and>
     length (us_rows (snd (backfill_loop pe faults after n st))) = length (us_rows st)"
proof (induction pe faults after n st rule: backfill_loop.induct)
  case (1 pe faults after n st)
  show ?case
  proof (cases "unpriced_events_after (next_fault faults) after PRICING_BACKFILL_BATCH_SIZE st")
    case (Inr events)
    let ?us = "List.map_filter (pricing_update pe) events"
    obtain r st' where ap: "apply_pricing_updates (next_fault (tl faults)) ?us st = (r, st')"
      by fastforce
    have wf: "usage_wf st'" "length (us_rows st') = length (us_rows st)"
      using apply_pricing_updates_wf [OF 1(2)] apply_pricing_updates_ids
      by (metis ap snd_conv, metis ap snd_conv length_map)
    show ?thesis
    proof (cases "events = []")
      case False
      show ?thesis
      proof (cases r)
        case (Inr k)
        then show ?thesis
          using 1(1) [OF \<open>unpriced_events_after _ _ _ _ = _\<close> False ap [symmetric] Inr wf(1)] wf(2) ap False
            \<open>unpriced_events_after _ _ _ _ = _\<close>
          by (simp add: backfill_loop.simps [of pe faults])
      qed (use wf ap False Inr in \<open>simp add: backfill_loop.simps [of pe faults]\<close>)
    qed (use 1(2) Inr in \<open>simp add: backfill_loop.simps [of pe faults]\<close>)
  qed (use 1(2) in \<open>simp add: backfill_loop.simps [of pe faults]\<close>)
qed

lemma retention_wf:
  assumes "usage_wf st"
  shows "usage_wf (retention_loop d faults st) \<and> length (us_rows (retention_loop d faults st)) \<le> length (us_rows st)"
  using assms
proof (induction d faults st rule: retention_loop.induct)
  case (1 d faults st)
  obtain r st' where del: "delete_before (next_fault faults) d RETENTION_BATCH_SIZE st = (r, st')"
    by fastforce
  obtain P where "us_rows st' = filter P (us_rows st)" "us_next_id st' = us_next_id st"
    using del by (auto simp: delete_before_def Let_def split: option.splits intro: that [of "\<lambda>_. True"])
  then have wf: "usage_wf st'" "length (us_rows st') \<le> length (us_rows st)"
    using 1(2) by (auto simp: usage_wf_def distinct_map_filter sorted_wrt_map sorted_wrt_filter)
  then show ?case
    using 1 del by (cases r) (fastforce simp: retention_loop.simps [of d faults])+
qed

lemma refresh_round_store:
  assumes "pricing_refresh_round S fetched now faults (svc, st) = Done (svc', st')" "usage_wf st"
  shows "uv_health svc' = uv_health svc \<and> uv_queue svc' = uv_queue svc \<and> usage_wf st' \<and> length (us_rows st') = length (us_rows st)"
proof (cases "(svc', st') = (svc, st)")
  case False
  then obtain snapshot where f: "fetched = Inr snapshot"
    using assms(1) by (cases fetched) (auto simp: pricing_refresh_round_def)
  obtain r where r: "with_snapshot (uv_pricing svc) snapshot = Done r"
    using assms(1) by (cases "with_snapshot (uv_pricing svc) snapshot") (auto simp: pricing_refresh_round_def f)
  obtain pe where pe: "with_snapshot (uv_pricing svc) snapshot = Done (Inr pe)"
    using assms(1) False r by (cases r) (auto simp: pricing_refresh_round_def f)
  obtain json where "snapshot_to_json S snapshot = Inr json"
    using assms(1) False by (auto simp: pricing_refresh_round_def f pe split: sum.splits)
  then obtain st1 where svc': "svc' = svc\<lparr>uv_pricing := pe\<rparr>"
    and st': "st' = snd (backfill_unpriced_usage pe (tl faults) st1)"
    and st1: "us_rows st1 = us_rows st" "us_next_id st1 = us_next_id st"
    using assms(1) that [of "snd (save_pricing_snapshot (next_fault faults) json (ps_version snapshot) now st)"]
    by (auto simp: pricing_refresh_round_def f pe save_pricing_snapshot_def split: option.splits)
  moreover have "usage_wf st1"
    using assms(2) st1 by (simp add: usage_wf_def)
  ultimately show ?thesis
    using backfill_loop_wf [of st1 pe "tl faults"] by (simp add: backfill_unpriced_usage_def)
qed (use assms(2) in simp)

lemma usage_step_inv:
  assumes "usage_step C S sv sv'" "usage_inv n sv" shows "usage_inv n sv'"
  using assms
proof (induction rule: usage_step.induct)
  case (poll cx item oo cell svc out oo' cell' svc' st)
  then show ?case
    using poll_balance [OF poll(1), of "uh_persisted (uv_health svc)"] by (simp add: usage_inv_def balanced_def)
next
  case (drop cx oo cell svc oo' cell' svc' st)
  then show ?case
    using stream_finish_balance [of "uh_persisted (uv_health svc)" svc C S cx True oo cell]
    by (simp add: usage_inv_def balanced_def stream_drop_def)
next
  case (writer sv k faults)
  then show ?case
    using writer_balance [of k faults "fst sv" "snd sv" "fst (usage_writer_batch k faults sv)"
        "snd (usage_writer_batch k faults sv)"]
    by (simp add: usage_inv_def)
next
  case (refresh_start sv faults)
  then show ?case
    using backfill_loop_wf [of "snd sv"]
    by (simp add: usage_inv_def pricing_refresh_start_def backfill_unpriced_usage_def split_beta)
next
  case (refresh fetched now faults sv sv')
  then show ?case
    using refresh_round_store [of S fetched now faults "fst sv" "snd sv" "fst sv'" "snd sv'"]
    by (simp add: usage_inv_def counters_balance_def)
next
  case (retention svc st now faults)
  then show ?case
    using retention_wf [of st "sg_day_from_utc now - 364" faults] by (simp add: usage_inv_def retention_round_def)
qed

section \<open>Properties\<close>

text \<open>
  C26. Every observed event is accounted for. From a started service, whatever responses are polled or
  dropped and in whatever order the writer, the price refresh and the retention task run, with any
  database errors, the events observed are those dropped at the queue, waiting in it, written,
  recognised as duplicates or given up; no two rows of the table share a deduplication key, and the
  table never has more rows than it had and were counted as written.
\<close>

theorem usage_events_accounted:
  assumes "usage_start S fault now pe completion audit st = Done svc" "usage_wf st"
    and "(usage_step C S)\<^sup>*\<^sup>* (svc, st) (svc', st')"
  shows "uh_observed (uv_health svc') = uh_queue_dropped (uv_health svc') + length (uv_queue svc') +
      uh_persisted (uv_health svc') + uh_duplicate (uv_health svc') + uh_write_failed (uv_health svc') \<and>
    distinct (map row_key (us_rows st')) \<and>
    length (us_rows st') \<le> length (us_rows st) + uh_persisted (uv_health svc')"
proof -
  have "uv_queue svc = []" "uv_health svc = usage_health_default"
    using assms(1) by (auto simp: usage_start_def outcome_bind_Done_iff)
  then have "usage_inv (length (us_rows st)) (svc, st)"
    using assms(2) by (simp add: usage_inv_def counters_balance_def usage_health_default_def)
  with assms(3) have "usage_inv (length (us_rows st)) (svc', st')"
    by (induction rule: rtranclp_induct) (auto intro: usage_step_inv)
  then show ?thesis
    by (simp add: usage_inv_def counters_balance_def usage_wf_def)
qed

text \<open>
  The backfill ends and prices what it can. In batches of 250 rows it leaves the table that one
  pass over it would: each row not completely priced whose model and tokens the engine prices completely
  gets that price, and no other row changes.
\<close>

theorem backfill_is_one_pass:
  assumes "usage_wf st" "\<forall>r \<in> set (us_rows st). 0 < ur_id r" "engine_reachable S sha pe"
  shows "\<exists>n. backfill_unpriced_usage pe [] st = (Inr n, st\<lparr>us_rows := map (backfilled pe) (us_rows st)\<rparr>)"
proof -
  have "map (\<lambda>r. if 0 < ur_id r then backfilled pe r else r) (us_rows st) = map (backfilled pe) (us_rows st)"
    using assms(2) by simp
  moreover have "sorted_wrt (<) (map ur_id (us_rows st))"
    using assms(1) by (simp add: usage_wf_def)
  ultimately show ?thesis
    using backfill_loop_rows [of st pe 0 0] engine_reachable_ok [OF assms(3)]
    unfolding backfill_unpriced_usage_def by metis
qed

text \<open>
  Retention ends and removes exactly what is old. Without database errors a round leaves the rows
  of the last 365 days in Singapore and nothing else; with errors it may leave more, never less.
\<close>

theorem retention_keeps_recent:
  assumes "usage_wf st" "d = sg_day_from_utc now - 364"
  shows "retention_round now [] st = st\<lparr>us_rows := filter (\<lambda>r. d \<le> ue_sg_day (ur_event r)) (us_rows st)\<rparr> \<and>
    filter (\<lambda>r. d \<le> ue_sg_day (ur_event r)) (us_rows (retention_round now faults st)) =
      filter (\<lambda>r. d \<le> ue_sg_day (ur_event r)) (us_rows st)"
proof -
  have "distinct (map ur_id (us_rows st))"
    using assms(1) by (simp add: usage_wf_def strict_sorted_iff)
  then show ?thesis
    using retention_loop_all [of st d] retention_loop_rows [of st d faults] assms(2)
    by (simp add: retention_round_def recent_def [abs_def])
qed

theorem usage_events_accounted_witness:
  "\<exists>svc svc' st'. usage_start \<lparr>sj_to_string = (\<lambda>_. []), sj_from_str = (\<lambda>_. None)\<rparr> None 0
       \<lparr>pe_rules = [], pe_overrides = [], pe_version = [], pe_override_version_suffix = []\<rparr> True False usage_store_new = Done svc \<and>
     usage_writer_batch 5 [] (svc, usage_store_new) = (svc', st') \<and>
     uh_observed (uv_health svc') = uh_queue_dropped (uv_health svc') + length (uv_queue svc') +
       uh_persisted (uv_health svc') + uh_duplicate (uv_health svc') + uh_write_failed (uv_health svc')"
proof -
  let ?S = "\<lparr>sj_to_string = (\<lambda>_. []), sj_from_str = (\<lambda>_. None)\<rparr>"
  obtain svc where svc: "usage_start ?S None 0
       \<lparr>pe_rules = [], pe_overrides = [], pe_version = [], pe_override_version_suffix = []\<rparr> True False usage_store_new = Done svc"
    by (simp add: usage_start_def load_pricing_snapshot_def usage_store_new_def)
  obtain svc' st' where w: "usage_writer_batch 5 [] (svc, usage_store_new) = (svc', st')"
    by fastforce
  have "(usage_step plain_codec ?S)\<^sup>*\<^sup>* (svc, usage_store_new) (svc', st')"
    using usage_step.writer [of plain_codec ?S "(svc, usage_store_new)" 5 "[]"] w by auto
  then show ?thesis
    using usage_events_accounted [OF svc usage_wf_new] svc w by blast
qed

definition one_row :: usage_store where
  "one_row = \<lparr>us_rows = [\<lparr>ur_id = 1, ur_event = example_event ''a''\<rparr>], us_next_id = 2, us_pricing_cache = None\<rparr>"

lemma one_row_wf: "usage_wf one_row"
  by (simp add: usage_wf_def one_row_def example_event_valid)

theorem backfill_is_one_pass_witness:
  "\<exists>pe n. engine_reachable \<lparr>sj_to_string = (\<lambda>_. []), sj_from_str = (\<lambda>_. None)\<rparr> (\<lambda>_. []) pe \<and>
     backfill_unpriced_usage pe [] one_row = (Inr n, one_row\<lparr>us_rows := map (backfilled pe) (us_rows one_row)\<rparr>)"
proof -
  obtain pe where pe: "engine_reachable \<lparr>sj_to_string = (\<lambda>_. []), sj_from_str = (\<lambda>_. None)\<rparr> (\<lambda>_. []) pe"
    using default_engine engine_reachable.initial by metis
  have "\<forall>r \<in> set (us_rows one_row). 0 < ur_id r"
    by (simp add: one_row_def)
  then show ?thesis
    using backfill_is_one_pass [OF one_row_wf _ pe] pe by blast
qed

theorem retention_keeps_recent_witness:
  "us_rows (retention_round 0 [] one_row) = us_rows one_row \<and>
   us_rows (retention_round (1000 * DAY_NS) [] one_row) = []"
  using retention_keeps_recent [OF one_row_wf refl, of 0 "[]"]
    retention_keeps_recent [OF one_row_wf refl, of "1000 * DAY_NS" "[]"]
  by (simp add: one_row_def example_event_def sg_day_from_utc_def sg_day_from_date_def DAY_NS_def
      SG_OFFSET_NS_def i32_checked_def i32_range_def)

end
