(* ===== verification/Router_Facts.thy ===== *)
theory Router_Facts
  imports Application Usage_Tasks
begin

text \<open>
  What the steps make of the application: every change of the account table is a sequence of calls of the account store,
  nothing the administrator configures changes without the password, whatever usage is recorded then belongs to an active token,
  and the tables stay consistent over any sequence of requests, bodies and tasks.
\<close>

section \<open>Changes of the account table\<close>

definition reaches :: "serde_lib \<Rightarrow> (store_call \<Rightarrow> bool) \<Rightarrow> account_store \<Rightarrow> account_store \<Rightarrow> bool" where
  "reaches S P st st' \<longleftrightarrow> (\<exists>calls. (\<forall>c \<in> set calls. P c) \<and> st' = store_run S calls st)"

lemma reaches_refl [simp, intro]: "reaches S P st st"
  unfolding reaches_def by (intro exI [of _ "[]"]) (simp add: store_run_def)

lemma reaches_trans [trans]: "reaches S P a b \<Longrightarrow> reaches S P b c \<Longrightarrow> reaches S P a c"
proof -
  assume "reaches S P a b" "reaches S P b c"
  then obtain xs ys where "\<forall>c \<in> set xs. P c" "b = store_run S xs a" "\<forall>c \<in> set ys. P c" "c = store_run S ys b"
    by (auto simp: reaches_def)
  then show ?thesis
    unfolding reaches_def by (intro exI [of _ "xs @ ys"]) (auto simp: store_run_def)
qed

lemma reaches_call: "P c \<Longrightarrow> st' = store_exec S c st \<Longrightarrow> reaches S P st st'"
  unfolding reaches_def by (intro exI [of _ "[c]"]) (simp add: store_run_def)

lemma reaches_mono: "reaches S P a b \<Longrightarrow> (\<And>c. P c \<Longrightarrow> Q c) \<Longrightarrow> reaches S Q a b"
  by (auto simp: reaches_def)

text \<open>The calls that are not the administrator's.\<close>

fun background_call :: "store_call \<Rightarrow> bool" where
  "background_call (Create _ _ _ _) = False"
| "background_call (Update _ _ _) = False"
| "background_call (UpdateStatus _ _ _ _) = False"
| "background_call (EnableAccount _ _ _) = False"
| "background_call (Delete _ _) = False"
| "background_call _ = True"

abbreviation "background S \<equiv> reaches S background_call"

lemma background_any: "background S a b \<Longrightarrow> reaches S (\<lambda>_. True) a b"
  by (auto simp: reaches_def)

named_theorems store_effects "the store after a single statement"

lemma list_schedulable_reaches [store_effects]: "background S st (snd (list_schedulable S inst f st))"
  by (rule reaches_call [of _ "ListSchedulable inst f"]) simp_all

lemma update_oauth_tokens_reaches [store_effects]: "background S st (snd (update_oauth_tokens now f i acc ref ex st))"
  by (rule reaches_call [of _ "UpdateOauthTokens now f i acc ref ex"]) simp_all

lemma update_auth_error_reaches [store_effects]: "background S st (snd (update_auth_error now f i msg st))"
  by (rule reaches_call [of _ "UpdateAuthError now f i msg"]) simp_all

lemma disable_account_reaches [store_effects]: "background S st (snd (disable_account now f i s r t st))"
  by (rule reaches_call [of _ "DisableAccount now f i s r t"]) simp_all

lemma update_usage_reaches [store_effects]: "background S st (snd (update_usage now f i u st))"
  by (rule reaches_call [of _ "UpdateUsage now f i u"]) simp_all

lemma set_rate_limit_reaches [store_effects]: "background S st (snd (set_rate_limit now f i t st))"
  by (rule reaches_call [of _ "SetRateLimit now f i t"]) simp_all

lemma clear_rate_limit_reaches [store_effects]: "background S st (snd (clear_rate_limit now f i st))"
  by (rule reaches_call [of _ "ClearRateLimit now f i"]) simp_all

lemma flush_reaches: "background S st (snd (flush_to_db S L now f f' i ls st))"
proof -
  have used: "background S st b" if "update_usage now f i u st = (a, b)" for u a b
    using update_usage_reaches [of S st now f i u] that by simp
  have limited: "background S b b'" if "set_rate_limit now f' i t b = (a, b') \<or> clear_rate_limit now f' i b = (a, b')" for t a b b'
    using set_rate_limit_reaches [of S b now f' i t] clear_rate_limit_reaches [of S b now f' i] that by auto
  show ?thesis
    by (auto simp: flush_to_db_def Let_def split: option.splits sum.splits prod.splits intro: used reaches_trans [OF used limited])
qed

section \<open>The account service\<close>

text \<open>The other tasks an environment lets run while a request waits for a token.\<close>

definition others_in_background :: "serde_lib \<Rightarrow> oauth_env \<Rightarrow> bool" where
  "others_in_background S E \<longleftrightarrow> (\<forall>i st. background S st (oe_others E i st))"

lemma wait_for_token_reaches:
  assumes "others_in_background S E"
  shows "background S st (snd (wait_for_token S E aid i n st))"
proof (induction n arbitrary: i st)
  case (Suc n)
  have "background S st (oe_others E i st)"
    using assms by (simp add: others_in_background_def)
  then show ?case
    using Suc reaches_trans by (auto simp: Let_def split: sum.splits)
qed simp

lemma refresh_reaches: "background S st (snd (refresh_oauth_access_token S E aid st))"
proof -
  have pair: "background S st b" if "update_oauth_tokens now f i acc ref ex st = (a, b)" for now f i acc ref ex a b
    using update_oauth_tokens_reaches [of S st now f i acc ref ex] that by simp
  show ?thesis
    by (auto simp: refresh_oauth_access_token_def Let_def store_effects split: sum.splits prod.splits dest: pair)
qed

lemma resolve_reaches:
  assumes "others_in_background S E"
  shows "background S (svc_store svc) (svc_store (snd (resolve_oauth_access_token S ops E account svc)))"
proof -
  have pair: "background S st b" if "wait_for_token S E aid i n st = (a, b)" for aid i n st a b
    using wait_for_token_reaches [OF assms, of st aid i n] that by simp
  have pair2: "background S st b" if "refresh_oauth_access_token S E aid st = (a, b)" for aid st a b
    using refresh_reaches [of S st E aid] that by simp
  show ?thesis
    by (auto simp: resolve_oauth_access_token_def Let_def store_effects split: sum.splits prod.splits bool.splits dest: pair pair2)
qed

lemma resolve_with_reaches:
  "others_in_background S E \<Longrightarrow> background S (svc_store svc) (svc_store (snd (resolve_upstream_token_with S ops E account svc)))"
  by (simp add: resolve_upstream_token_with_def resolve_reaches split: account_auth_type.splits)

lemma sticky_store: "svc_store (snd (sticky_account S L ops now inst gf h ex al mc svc)) = svc_store svc"
  by (auto simp: sticky_account_def Let_def split: prod.splits sum.splits option.splits outcome.splits)

lemma select_reaches:
  "background S (svc_store svc) (svc_store (snd (select_account S L ops now inst gf lf draw h ex al mc svc)))"
proof -
  obtain r svc1 where s: "sticky_account S L ops now inst gf h ex al mc svc = (r, svc1)"
    by (cases "sticky_account S L ops now inst gf h ex al mc svc")
  then have e: "svc_store svc1 = svc_store svc"
    using sticky_store [of S L ops now inst gf h ex al mc svc] by simp
  have pair: "background S st b" if "list_schedulable S inst lf st = (a, b)" for st a b
    using list_schedulable_reaches [of S st inst lf] that by simp
  show ?thesis
    using s e by (auto simp: select_account_def Let_def split: prod.splits sum.splits option.splits outcome.splits dest!: pair)
qed

section \<open>The gateway\<close>

abbreviation "gw_store g \<equiv> svc_store (gw_svc g)"

lemma drop_slot_store [simp]: "gw_store (drop_slot h g) = gw_store g"
  by (simp add: drop_slot_def split: option.splits)

lemma drop_body_store [simp]: "gw_store (drop_body b g) = gw_store g"
  by (simp add: drop_body_def split: gw_body.splits)

lemma wrap_refusal_store [simp]: "gw_store (snd (wrap_refusal resp g)) = gw_store g"
  by (simp add: wrap_refusal_def wrap_5xx_response_def wrap_429_response_def)

lemma forward_body_store [simp]: "gw_store (snd (forward_body status a slot g)) = gw_store g"
  by (auto simp: forward_body_def split: option.splits)

lemma disable_if_403_reaches: "background S (gw_store g) (gw_store (disable_if_403 E status account g))"
  by (simp add: disable_if_403_def on_svc_def store_effects)

lemma forward_body_pair: "forward_body status a slot g = (b, g') \<Longrightarrow> gw_store g' = gw_store g"
  using forward_body_store [of status a slot g] by simp

lemma forward_reaches:
  "background S (gw_store g) (gw_store (snd (snd (forward_request W L E req hs b account slot mc attempt cell g))))"
  using disable_if_403_reaches [of S g E _ account]
  by (auto simp: forward_request_def Let_def on_svc_def split: upstream_answer.splits prod.splits outcome.splits
      dest!: forward_body_pair)

lemma with_slot_reaches:
  assumes "others_in_background S (ge_oauth E)"
  shows "background S (gw_store g) (gw_store (snd (snd (with_slot W S L ops E req bytes body ct mc token account cell g))))"
proof -
  obtain hs fb fm st where rw: "rewritten_request W S req bytes body ct account = (hs, fb, fm, st)"
    by (cases "rewritten_request W S req bytes body ct account") auto
  obtain resolved svc where res: "resolve_upstream_token_with S ops (ge_oauth E) account (gw_svc g) = (resolved, svc)"
    by (cases "resolve_upstream_token_with S ops (ge_oauth E) account (gw_svc g)")
  have one: "background S (gw_store g) (svc_store svc)"
    using resolve_with_reaches [OF assms, of "gw_svc g" ops account] res by simp
  have two: "background S (svc_store svc) (gw_store g2)"
    if "forward_request W L E req h b account slot mc a c (g\<lparr>gw_svc := svc\<rparr>) = (r, c', g2)" for h b slot a c r c' g2
    using forward_reaches [of S "g\<lparr>gw_svc := svc\<rparr>" W L E req h b account slot mc a c] that by simp
  have wrap: "gw_store g3 = gw_store g2" if "wrap_refusal resp g2 = (r, g3)" for resp g2 r g3
    using wrap_refusal_store [of resp g2] that by simp
  show ?thesis
    using reaches_trans [OF one two] one
    by (auto simp: with_slot_def rw res Let_def split: sum.splits prod.splits outcome.splits dest!: wrap)
qed

lemma with_account_reaches:
  assumes "others_in_background S (ge_oauth E)"
  shows "background S (gw_store g) (gw_store (snd (snd (with_account W S L ops E req bytes body ct mc token account cell g))))"
proof -
  obtain acquired svc where ac: "svc_acquire_slot ops (ge_inst E 3) (acc_id account) (acc_concurrency account) (gw_svc g) = (acquired, svc)"
    by (cases "svc_acquire_slot ops (ge_inst E 3) (acc_id account) (acc_concurrency account) (gw_svc g)")
  then have "svc_store svc = gw_store g"
    by (auto simp: svc_acquire_slot_def split: prod.splits)
  then show ?thesis
    using with_slot_reaches [OF assms, of "g\<lparr>gw_svc := svc\<rparr>"] ac
    by (simp add: with_account_def Let_def split: option.splits)
qed

lemma route_reaches: "background S (svc_store svc) (svc_store (snd (route_request S L ops E ua b ct token svc)))"
  by (simp add: route_request_def Let_def select_reaches split: prod.splits option.splits)

lemma gateway_reaches:
  assumes "others_in_background S (ge_oauth E)"
  shows "background S (gw_store g) (gw_store (snd (snd (gateway_handle_request W S L ops E req token cell g))))"
proof (cases "gq_body req")
  case (Inl msg)
  then show ?thesis
    by (simp add: gateway_handle_request_def handle_request_inner_def)
next
  case (Inr bytes)
  let ?b = "parse_body S bytes"
  let ?ct = "detect_client_type (request_user_agent req) ?b"
  obtain selected svc where route: "route_request S L ops E (request_user_agent req) ?b ?ct token (gw_svc g) = (selected, svc)"
    by (cases "route_request S L ops E (request_user_agent req) ?b ?ct token (gw_svc g)")
  have one: "background S (gw_store g) (svc_store svc)"
    using route_reaches [of S "gw_svc g" L ops E "request_user_agent req" ?b ?ct token] route by simp
  have two: "background S (svc_store svc) (gw_store g2)"
    if "with_account W S L ops E req bytes ?b ?ct mc token account c (g\<lparr>gw_svc := svc\<rparr>) = (r, c', g2)" for mc account c r c' g2
    using with_account_reaches [OF assms, of "g\<lparr>gw_svc := svc\<rparr>" W L ops req bytes ?b ?ct mc token account c] that by simp
  show ?thesis
    using reaches_trans [OF one two] one
    by (auto simp: gateway_handle_request_def handle_request_inner_def Inr route Let_def split: sum.splits prod.splits outcome.splits)
qed

lemma fallback_reaches:
  assumes "others_in_background S (ge_oauth E)"
  shows "background S (gw_store g) (gw_store (snd (snd (snd (gateway_fallback W S L ops E F req tokens psvc g)))))"
proof -
  obtain a b where clock: "fe_auth_clock F = (a, b)"
    by (cases "fe_auth_clock F")
  have "background S (gw_store g) (gw_store (snd (snd (gateway_authenticated W S L ops E f (a, b) req tokens cell g))))" for f cell
    by (simp add: Let_def gateway_reaches [OF assms] split: sum.splits prod.splits)
  then have auth: "background S (gw_store g) (gw_store g2)"
    if "gateway_authenticated W S L ops E f (a, b) req tokens cell g = (r, c, g2)" for f cell r c g2
    using that by (metis snd_conv)
  show ?thesis
    by (auto simp: gateway_fallback_def clock Let_def simp del: gateway_authenticated.simps dest!: auth
        split: prod.splits option.splits outcome.splits)
qed

section \<open>The endpoints\<close>

abbreviation "changes S \<equiv> reaches S (\<lambda>_. True)"

lemma put_svc_accounts [simp]: "app_accounts (put_svc svc app) = svc_store svc"
  by (simp add: app_accounts_def put_svc_def)

lemma create_account_changes:
  "changes S (svc_store svc) (svc_store (snd (create_account S bytes pick now cf f a svc)))"
proof -
  have "changes S st st'" if "create S now cf f a st = (r, st')" for a st r st'
    using that by (intro reaches_call [of _ "Create now cf f a"]) simp_all
  then show ?thesis
    by (auto simp: create_account_def Let_def split: outcome.splits prod.splits sum.splits)
qed

lemma update_account_changes: "changes S (svc_store svc) (svc_store (snd (update_account S now f a svc)))"
proof -
  have "changes S st st'" if "update S now f a st = (r, st')" for a st r st'
    using that by (intro reaches_call [of _ "Update now f a"]) simp_all
  then show ?thesis
    by (auto simp: update_account_def Let_def split: prod.splits sum.splits)
qed

lemma status_answer_store [simp]: "svc_store (snd (status_answer S gf i r svc)) = snd r"
  by (simp add: status_answer_def Let_def split: sum.splits)

lemma admin_update_changes:
  "changes S (svc_store svc) (svc_store (snd (admin_update_account C S now faults i updates svc)))"
proof -
  have enable: "changes S st (snd (enable_account now f i st))" for f st
    by (rule reaches_call [of _ "EnableAccount now f i"]) simp_all
  have update: "changes S (svc_store svc) (svc_store svc')" if "update_account S now f a svc = (r, svc')" for f a r svc'
    using update_account_changes [of S svc now f a] that by simp
  show ?thesis
    by (auto simp: admin_update_account_def Let_def enable background_any [OF disable_account_reaches]
        split: sum.splits prod.splits dest: update)
qed

lemma admin_delete_changes: "changes S (svc_store svc) (svc_store (snd (admin_delete_account f i svc)))"
proof -
  have "changes S st st'" if "delete f i st = (r, st')" for st r st'
    using that by (intro reaches_call [of _ "Delete f i"]) simp_all
  then show ?thesis
    by (auto simp: admin_delete_account_def split: prod.splits sum.splits)
qed

lemma resolve_upstream_reaches:
  "others_in_background S E \<Longrightarrow> background S (svc_store svc) (svc_store (snd (resolve_upstream_token S ops E f i svc)))"
  by (simp add: resolve_upstream_token_def resolve_with_reaches split: sum.splits)

lemma test_account_reaches:
  assumes "others_in_background S E"
  shows "background S (svc_store svc) (svc_store (snd (test_account S ops E f f2 tester i svc)))"
proof -
  have "background S (svc_store svc) (svc_store svc')" if "resolve_upstream_token S ops E f2 i svc = (r, svc')" for r svc'
    using resolve_upstream_reaches [OF assms, of svc ops f2 i] that by simp
  then show ?thesis
    by (auto simp: test_account_def split: prod.splits sum.splits)
qed

lemma refresh_usage_reaches:
  assumes "others_in_background S E"
  shows "background S (svc_store svc) (svc_store (snd (refresh_usage S L ops E now inst gf sf fetch i svc)))"
proof (cases "get_by_id S gf i (svc_store svc)")
  case (Inl e)
  then show ?thesis by (simp add: refresh_usage_def)
next
  case (Inr account)
  obtain cooling svc1 where cool: "usage_in_cooldown inst i svc = (cooling, svc1)"
    by (cases "usage_in_cooldown inst i svc")
  then have "svc_store svc1 = svc_store svc"
    by (auto simp: usage_in_cooldown_def split: option.splits if_splits)
  moreover obtain token svc2 where resolve: "resolve_oauth_access_token S ops E account svc1 = (token, svc2)"
    by (cases "resolve_oauth_access_token S ops E account svc1")
  ultimately have two: "background S (svc_store svc) (svc_store svc2)"
    using resolve_reaches [OF assms, of svc1 ops account] by simp
  have save: "background S (svc_store svc) st'" if "update_usage now sf i u (svc_store svc2) = (r, st')" for u r st'
    using reaches_trans [OF two update_usage_reaches [of S "svc_store svc2" now sf i u]] that by simp
  have mark: "svc_store (mark_usage_cooldown inst i svc2) = svc_store svc2"
    by (simp add: mark_usage_cooldown_def)
  show ?thesis
    using two \<open>svc_store svc1 = svc_store svc\<close>
    by (auto simp: refresh_usage_def Inr cool resolve mark Let_def split: sum.splits prod.splits outcome.splits app_error.splits dest: save)
qed

lemma admin_refresh_reaches:
  assumes "others_in_background S E"
  shows "background S (svc_store svc) (svc_store (snd (admin_refresh_usage S L ops E now inst gf sf fetch i svc)))"
  using refresh_usage_reaches [OF assms, of svc L ops now inst gf sf fetch i]
  by (auto simp: admin_refresh_usage_def split: prod.splits outcome.splits)

definition others_ok :: "serde_lib \<Rightarrow> app_env \<Rightarrow> bool" where
  "others_ok S V \<longleftrightarrow> others_in_background S (ev_oauth V) \<and> others_in_background S (ge_oauth (ev_gateway V))"

lemma with_arg_accounts:
  "(\<And>v. changes S (app_accounts app) (app_accounts (snd (k v)))) \<Longrightarrow> changes S (app_accounts app) (app_accounts (snd (with_arg x req k app)))"
  by (simp add: with_arg_def split: sum.splits)

lemma on_accounts_store [simp]: "app_accounts (snd (on_accounts f r app)) = svc_store (snd r)"
  by (simp add: on_accounts_def)

lemma tokens_sessions_accounts [simp]:
  "app_accounts (app\<lparr>app_tokens := t\<rparr>) = app_accounts app" "app_accounts (app\<lparr>app_sessions := u\<rparr>) = app_accounts app"
  "app_accounts (snd (on_tokens f r app)) = app_accounts app" "app_accounts (snd (on_sessions g q app)) = app_accounts app"
  by (simp_all add: app_accounts_def on_tokens_def on_sessions_def)

lemma serve_changes:
  assumes "others_ok S V"
  shows "changes S (app_accounts app) (app_accounts (snd (serve S ops V e req app)))"
proof -
  have svc: "app_accounts app = svc_store (gw_svc (app_gateway app))"
    by (simp add: app_accounts_def)
  have others: "others_in_background S (ev_oauth V)"
    using assms by (simp add: others_ok_def)
  have create: "changes S (svc_store svc) (svc_store svc')" if "admin_create_account C S b p now f f' r svc = (x, svc')" for C b p now f f' r svc x svc'
    using that create_account_changes [of S svc b p now f f' "requested_account C now r"]
    by (auto simp: admin_create_account_def split: if_splits)
  have usage: "changes S (svc_store svc) (svc_store svc')"
    if "admin_refresh_usage S L ops (ev_oauth V) now inst gf sf fetch i svc = (x, svc')" for L now inst gf sf fetch i svc x svc'
    using background_any [OF admin_refresh_reaches [OF others, of svc L ops now inst gf sf fetch i]] that by simp
  show ?thesis
  proof (cases e)
    case EP_Create_Account
    then show ?thesis
      by (auto simp: svc with_arg_def split: sum.splits prod.splits outcome.splits dest: create)
  next
    case EP_Refresh_Usage
    then show ?thesis
      by (auto simp: svc with_arg_def split: sum.splits prod.splits outcome.splits dest: usage)
  next
    case EP_Test_Account
    then show ?thesis
      by (simp only: serve.simps) (rule with_arg_accounts, simp add: svc background_any [OF test_account_reaches [OF others]])
  next
    case EP_Update_Account
    then show ?thesis
      by (simp only: serve.simps) (intro with_arg_accounts, simp add: svc admin_update_changes)
  next
    case EP_Delete_Account
    then show ?thesis
      by (simp only: serve.simps) (rule with_arg_accounts, simp add: svc admin_delete_changes)
  qed (auto simp: with_arg_def split: sum.splits prod.splits)
qed

lemma gateway_accounts:
  assumes "others_ok S V" "dispatch (ev_matches V) password req = To_Gateway"
  shows "background S (app_accounts app) (app_accounts (snd (app_handle C S ops password V req app)))"
  using assms fallback_reaches [of S "ev_gateway V" "app_gateway app" "ev_rewriting V" "ev_lib V" ops "ev_fallback V" req "app_tokens app" "app_perf app"]
  by (auto simp: app_handle_def app_accounts_def others_ok_def split: prod.splits)

lemma handle_changes:
  assumes "others_ok S V"
  shows "changes S (app_accounts app) (app_accounts (snd (app_handle C S ops password V req app)))"
proof (cases "dispatch (ev_matches V) password req")
  case (To_Frontend f)
  then show ?thesis by (cases f) (simp_all add: app_handle_def)
next
  case (To_Endpoint e)
  then show ?thesis
    using serve_changes [OF assms, of app ops e req] by (auto simp: app_handle_def split: prod.splits)
next
  case To_Gateway
  show ?thesis
    by (rule background_any [OF gateway_accounts [OF assms To_Gateway]])
qed (simp_all add: app_handle_def)

section \<open>The usage of a request belongs to its token\<close>

text \<open>The attempts, events and responses whose token is one of \<open>T\<close>.\<close>

definition attempts_in :: "int set \<Rightarrow> usage_attempt list \<Rightarrow> bool" where
  "attempts_in T as \<longleftrightarrow> (\<forall>a \<in> set as. ua_api_token_id a \<in> T)"

definition body_attempt :: "gw_body \<Rightarrow> usage_attempt list" where
  "body_attempt b = (case b of GB_Stream (Some a) _ \<Rightarrow> [a] | _ \<Rightarrow> [])"

lemma body_attempt_simps [simp]:
  "body_attempt (GB_Json v) = []" "body_attempt (GB_Text t) = []" "body_attempt GB_Empty = []"
  "body_attempt (GB_Stream None h) = []" "body_attempt (GB_Stream (Some a) h) = [a]"
  by (simp_all add: body_attempt_def)

lemma attempts_in_simps [simp]:
  "attempts_in T []" "attempts_in T (a # as) \<longleftrightarrow> ua_api_token_id a \<in> T \<and> attempts_in T as"
  "attempts_in T (as @ bs) \<longleftrightarrow> attempts_in T as \<and> attempts_in T bs"
  by (auto simp: attempts_in_def)

text \<open>The attempts a response and a gateway have.\<close>

abbreviation response_in :: "int set \<Rightarrow> (app_error + gw_response) outcome \<Rightarrow> bool" where
  "response_in T r \<equiv> (\<forall>resp. r = Done (Inr resp) \<longrightarrow> attempts_in T (body_attempt (gr_body resp)))"

lemma drop_drains [simp]: "gw_drains (drop_slot h g) = gw_drains g" "gw_drains (drop_body b g) = gw_drains g"
  by (simp_all add: drop_slot_def drop_body_def split: option.splits gw_body.splits)

lemma attempt_answered_token [simp]: "ua_api_token_id (attempt_answered status hs a) = ua_api_token_id a"
  by (simp add: attempt_answered_def complete_response_def)

lemma forward_body_tokens:
  assumes "forward_body status attempt slot g = (b, g')" "attempts_in T (case attempt of Some a \<Rightarrow> [a] | None \<Rightarrow> [])" "attempts_in T (gw_drains g)"
  shows "attempts_in T (body_attempt b) \<and> attempts_in T (gw_drains g')"
  using assms by (auto simp: forward_body_def split: option.splits if_splits)

lemma disable_drains [simp]: "gw_drains (disable_if_403 E status account g) = gw_drains g"
  by (simp add: disable_if_403_def on_svc_def)

lemma forward_tokens:
  assumes "forward_request W L E req hs b account slot mc attempt c g = (r, c', g')"
    and "attempts_in T (case attempt of Some a \<Rightarrow> [a] | None \<Rightarrow> [])" "attempts_in T (gw_drains g)"
  shows "response_in T r \<and> attempts_in T (gw_drains g')"
proof -
  have answered: "attempts_in T (case map_option (attempt_answered status hs) attempt of Some a \<Rightarrow> [a] | None \<Rightarrow> [])" for status hs
    using assms(2) by (cases attempt) simp_all
  show ?thesis
    using assms(1,3)
    by (auto simp: forward_request_def Let_def on_svc_def split: upstream_answer.splits outcome.splits prod.splits if_splits
        dest!: forward_body_tokens [OF _ answered])
qed

lemma attempt_for_token: "attempts_in {tok_id t} (case usage_attempt_for E path account (Some t) m s of Some a \<Rightarrow> [a] | None \<Rightarrow> [])"
  by (simp add: usage_attempt_for_def attempt_begin_def)

lemma wrap_refusal_tokens:
  "wrap_refusal resp g = (resp', g') \<Longrightarrow> attempts_in T (body_attempt (gr_body resp)) \<Longrightarrow>
    attempts_in T (body_attempt (gr_body resp')) \<and> gw_drains g' = gw_drains g"
  by (auto simp: wrap_refusal_def wrap_5xx_response_def wrap_429_response_def split: if_splits)

lemma with_slot_tokens:
  assumes "with_slot W S L ops E req bytes body ct mc (Some t) account c g = (r, c', g')" "tok_id t \<in> T" "attempts_in T (gw_drains g)"
  shows "response_in T r \<and> attempts_in T (gw_drains g')"
proof -
  have begun: "attempts_in T (case usage_attempt_for E path account (Some t) m s of Some a \<Rightarrow> [a] | None \<Rightarrow> [])" for path m s
    using attempt_for_token [of t E path account m s] assms(2) by (auto simp: attempts_in_def)
  show ?thesis
    using assms(1,3)
    by (auto simp: with_slot_def Let_def split: prod.splits sum.splits outcome.splits
        dest!: forward_tokens [OF _ begun] wrap_refusal_tokens)
qed

lemma with_account_tokens:
  assumes "with_account W S L ops E req bytes body ct mc (Some t) account c g = (r, c', g')" "tok_id t \<in> T" "attempts_in T (gw_drains g)"
  shows "response_in T r \<and> attempts_in T (gw_drains g')"
  using assms(1,3)
  by (auto simp: with_account_def Let_def split: prod.splits option.splits if_splits dest!: with_slot_tokens [OF _ assms(2)])

lemma gateway_request_tokens:
  assumes "gateway_handle_request W S L ops E req (Some t) c g = (r, c', g')" "tok_id t \<in> T" "attempts_in T (gw_drains g)"
  shows "(\<forall>resp. r = Done resp \<longrightarrow> attempts_in T (body_attempt (gr_body resp))) \<and> attempts_in T (gw_drains g')"
proof -
  obtain r1 c1 g1 where inner: "handle_request_inner W S L ops E req (Some t) c g = (r1, c1, g1)"
    by (cases "handle_request_inner W S L ops E req (Some t) c g")
  then have "response_in T r1 \<and> attempts_in T (gw_drains g1)"
    using assms(3)
    by (auto simp: handle_request_inner_def Let_def split: prod.splits outcome.splits sum.splits
        dest!: with_account_tokens [OF _ assms(2)])
  then show ?thesis
    using assms(1) inner
    by (auto simp: gateway_handle_request_def error_response_def split_beta split: outcome.splits sum.splits)
qed

text \<open>The identifiers of the active tokens; only they are served.\<close>

definition active_tokens :: "token_store \<Rightarrow> int set" where
  "active_tokens st = tr_id ` {r \<in> set (ts_rows st). tr_status r = ''active''}"

lemma authenticate_active:
  assumes "authenticate fault headers st = Inr t"
  shows "tok_id t \<in> active_tokens st"
proof -
  obtain r where "find (\<lambda>r. tr_token r = extract_key headers \<and> tr_status r = ''active'') (ts_rows st) = Some r" "t = row_to_token r"
    using assms by (auto simp: authenticate_def get_by_token_def Let_def split: if_splits sum.splits option.splits)
  then show ?thesis
    using find_mem by (fastforce simp: active_tokens_def row_to_token_def)
qed

lemma authenticated_tokens:
  assumes "gateway_authenticated W S L ops E fault clock req tokens c g = (r, c', g')" "active_tokens tokens \<subseteq> T" "attempts_in T (gw_drains g)"
  shows "(\<forall>resp. r = Done resp \<longrightarrow> attempts_in T (body_attempt (gr_body resp))) \<and> attempts_in T (gw_drains g')"
proof (cases "authenticate fault (text_headers (gq_headers req)) tokens")
  case (Inl e)
  then show ?thesis
    using assms by (cases clock; cases e) auto
next
  case (Inr t)
  then have "tok_id t \<in> T"
    using authenticate_active assms(2) by blast
  then show ?thesis
    using assms(1,3) Inr gateway_request_tokens by (cases clock) (force simp: Let_def)
qed

lemma fallback_tokens:
  assumes "gateway_fallback W S L ops E F req tokens psvc g = (r, held, psvc', g')" "active_tokens tokens \<subseteq> T" "attempts_in T (gw_drains g)"
  shows "(\<forall>resp. r = Done resp \<longrightarrow> attempts_in T (body_attempt (gr_body resp))) \<and> attempts_in T (gw_drains g')"
proof -
  obtain r1 c1 c0 where auth: "gateway_authenticated W S L ops E (fe_token_fault F) (fe_auth_clock F) req tokens c0 g = (r1, c1, g')" "r = r1"
    using assms(1) by (auto simp: gateway_fallback_def Let_def simp del: gateway_authenticated.simps
        split: prod.splits option.splits outcome.splits)
  show ?thesis
    using authenticated_tokens [OF auth(1) assms(2,3)] auth(2) by simp
qed

section \<open>What bodies and tasks make of the usage\<close>

text \<open>The attempt an observer has not reported yet.\<close>

definition observed_attempt :: "'d response_observer option \<Rightarrow> usage_attempt list" where
  "observed_attempt oo = (case oo of Some ob \<Rightarrow> (case ob_attempt ob of Some a \<Rightarrow> [a] | None \<Rightarrow> []) | None \<Rightarrow> [])"

lemma observed_attempt_simps [simp]:
  "observed_attempt None = []" "ob_attempt ob = None \<Longrightarrow> observed_attempt (Some ob) = []"
  "ob_attempt ob = Some a \<Longrightarrow> observed_attempt (Some ob) = [a]"
  by (simp_all add: observed_attempt_def)

lemma observed_attempt_cong: "ob_attempt mid = ob_attempt ob \<Longrightarrow> observed_attempt (Some mid) = observed_attempt (Some ob)"
  by (simp add: observed_attempt_def)

definition events_in :: "int set \<Rightarrow> usage_event list \<Rightarrow> bool" where
  "events_in T es \<longleftrightarrow> (\<forall>e \<in> set es. ue_api_token_id e \<in> T)"

abbreviation observed_in :: "int set \<Rightarrow> 'd response_observer option \<Rightarrow> usage_service \<Rightarrow> bool" where
  "observed_in T oo svc \<equiv> attempts_in T (observed_attempt oo) \<and> events_in T (uv_queue svc)"

lemma reported_events:
  assumes "reported cxs a svc svc'" "ua_api_token_id a \<in> T" "events_in T (uv_queue svc)"
  shows "events_in T (uv_queue svc')"
proof -
  have event: "ue_api_token_id (response_event pe a parsed) = ua_api_token_id a" for pe parsed
    by (simp add: response_event_def Let_def)
  show ?thesis
    using assms by (auto simp: reported_def events_in_def submit_effect event)
qed

lemma finalize_events:
  assumes "observer_finalize cx terminal dropped (ob, svc) = (ob', svc')" "observed_in T (Some ob) svc"
  shows "observed_in T (Some ob') svc'"
  using assms(1)
proof (cases rule: finalize_cases)
  case (reported a)
  then show ?thesis
    using assms(2) reported_events [of "{cx}" a svc svc' T] by simp
qed (use assms(2) in auto)

lemma feed_events:
  assumes "observer_feed C S cx bytes (ob, cell, svc) = Some (ob', cell', svc')" "observed_in T (Some ob) svc"
  shows "observed_in T (Some ob') svc'"
  using feed_finalizes [OF assms(1)]
proof (elim disjE exE conjE)
  fix mid
  assume mid: "ob_attempt mid = ob_attempt ob" and "observer_finalize cx False False (mid, svc) = (ob', svc')"
  then show ?thesis
    using finalize_events [of cx False False mid svc ob' svc' T] assms(2) observed_attempt_cong [OF mid] by simp
next
  fix mid
  assume "ob_attempt mid = ob_attempt ob" "(ob', svc') = (mid, svc)"
  then show ?thesis
    using assms(2) observed_attempt_cong [of mid ob] by simp
qed (use assms(2) in simp)

lemma finish_events:
  assumes "stream_finish C S cx dropped (oo, cell, svc) = (oo', cell', svc')" "observed_in T oo svc"
  shows "observed_in T oo' svc'"
proof (cases oo)
  case None
  then show ?thesis
    using assms by (simp add: stream_finish_def)
next
  case (Some ob)
  show ?thesis
  proof (cases "ob_attempt ob = None \<and> \<not> ob_performance ob")
    case True
    then show ?thesis
      using assms Some by (auto simp: stream_finish_def observer_finish_def)
  next
    case False
    obtain ep cell1 where ep: "encoded_finish C S (cx_inst cx) dropped (ob_parser ob, cell) = (ep, cell1)"
      by fastforce
    obtain ob1 svc1 where fin: "observer_finalize cx True dropped (ob\<lparr>ob_parser := ep\<rparr>, svc) = (ob1, svc1)"
      by fastforce
    have "observed_in T (Some ob1) svc1"
      using finalize_events [OF fin] assms(2) Some observed_attempt_cong [of "ob\<lparr>ob_parser := ep\<rparr>" ob] by simp
    moreover have "oo' = None" "svc' = svc1"
      using assms(1) Some False ep fin by (auto simp: stream_finish_def observer_finish_def Let_def)
    ultimately show ?thesis by simp
  qed
qed

lemma poll_events:
  assumes "stream_poll_next C S cx item (oo, cell, svc) = Some (out, oo', cell', svc')" "observed_in T oo svc"
  shows "observed_in T oo' svc'"
proof (cases item)
  case (SP_Data bytes)
  show ?thesis
  proof (cases oo)
    case (Some ob)
    then obtain ob' where "observer_feed C S cx bytes (ob, cell, svc) = Some (ob', cell', svc')" "oo' = Some ob'"
      using assms(1) SP_Data by (auto simp: stream_poll_next_def)
    then show ?thesis
      using feed_events assms(2) Some by blast
  qed (use assms SP_Data in \<open>simp add: stream_poll_next_def\<close>)
next
  case SP_Error
  then show ?thesis
    using assms finish_events [of C S cx False oo cell svc oo' cell' svc' T] by (simp add: stream_poll_next_def)
next
  case SP_End
  then show ?thesis
    using assms finish_events [of C S cx False oo cell svc oo' cell' svc' T] by (simp add: stream_poll_next_def)
qed (use assms in \<open>simp add: stream_poll_next_def\<close>)

text \<open>What a row says of the use of a token; only its price is computed later.\<close>

definition recorded :: "usage_row \<Rightarrow> int \<times> string \<times> int \<times> int \<times> int \<times> string \<times> usage_tokens" where
  "recorded r =
     (let e = ur_event r
      in (ur_id r, ue_dedup_key e, ue_occurred_at_utc e, ue_account_id e, ue_api_token_id e, ue_model e, ue_tokens e))"

definition rows_in :: "int set \<Rightarrow> usage_row list \<Rightarrow> usage_store \<Rightarrow> bool" where
  "rows_in T old st \<longleftrightarrow> (\<forall>r \<in> set (us_rows st). recorded r \<in> recorded ` set old \<or> ue_api_token_id (ur_event r) \<in> T)"

lemma rows_in_cong:
  assumes "rows_in T old st" "recorded ` set (us_rows st') \<subseteq> recorded ` set (us_rows st)"
  shows "rows_in T old st'"
  unfolding rows_in_def
proof
  fix r
  assume "r \<in> set (us_rows st')"
  then obtain r0 where r0: "r0 \<in> set (us_rows st)" "recorded r = recorded r0"
    using assms(2) by blast
  then have "ue_api_token_id (ur_event r) = ue_api_token_id (ur_event r0)"
    by (simp add: recorded_def Let_def)
  then show "recorded r \<in> recorded ` set old \<or> ue_api_token_id (ur_event r) \<in> T"
    using assms(1) r0 by (auto simp: rows_in_def)
qed

lemma insert_event_in:
  "rows_in T old st \<Longrightarrow> ue_api_token_id e \<in> T \<Longrightarrow> rows_in T old (snd (insert_event e st))"
  by (auto simp: insert_event_def rows_in_def)

lemma insert_events_in: "rows_in T old st \<Longrightarrow> events_in T es \<Longrightarrow> rows_in T old (snd (insert_events es st))"
proof (induction es arbitrary: st)
  case (Cons e es)
  then show ?case
    using insert_event_in [of T old st e] by (simp add: events_in_def split_beta)
qed simp

lemma insert_batch_in: "rows_in T old st \<Longrightarrow> events_in T es \<Longrightarrow> rows_in T old (snd (insert_batch fault es st))"
  using insert_events_in [of T old st es] by (simp add: insert_batch_def split_beta split: option.split)

lemma write_batch_in: "rows_in T old st \<Longrightarrow> events_in T es \<Longrightarrow> rows_in T old (snd (write_batch n faults es (h, st)))"
proof (induction n arbitrary: faults h st)
  case (Suc n)
  obtain r st' where ins: "insert_batch (next_fault faults) es st = (r, st')"
    by fastforce
  then have "rows_in T old st'"
    using insert_batch_in [OF Suc.prems, of "next_fault faults"] by simp
  then show ?case
    using ins Suc by (auto split: sum.split prod.split)
qed simp

lemma reprice_token [simp]: "ue_api_token_id (reprice pe e) = ue_api_token_id e"
  by (simp add: reprice_def Let_def)

lemma writer_in:
  assumes "usage_writer_batch n faults (svc, st) = (svc', st')" "rows_in T old st" "events_in T (uv_queue svc)"
  shows "rows_in T old st' \<and> events_in T (uv_queue svc')"
proof -
  let ?n = "min n WRITE_BATCH_SIZE"
  let ?batch = "map (reprice (uv_pricing svc)) (take ?n (uv_queue svc))"
  have "events_in T ?batch" "events_in T (drop ?n (uv_queue svc))"
    using assms(3) set_take_subset [of ?n "uv_queue svc"] set_drop_subset [of ?n "uv_queue svc"] by (auto simp: events_in_def)
  moreover have "st' = snd (write_batch 4 faults ?batch (uv_health svc, st))" "uv_queue svc' = drop ?n (uv_queue svc)"
    using assms(1) by (auto simp: usage_writer_batch_def Let_def split_beta)
  ultimately show ?thesis
    using write_batch_in [OF assms(2)] by simp
qed

lemma price_row_recorded: "recorded (price_row u r) = recorded r"
  by (simp add: price_row_def recorded_def Let_def)

lemma apply_updates_recorded: "map recorded (us_rows (snd (apply_updates us st))) = map recorded (us_rows st)"
  by (induction us arbitrary: st) (simp_all add: apply_update_def split_beta comp_def price_row_recorded)

lemma apply_pricing_recorded: "map recorded (us_rows (snd (apply_pricing_updates f us st))) = map recorded (us_rows st)"
  using apply_updates_recorded [of us st] by (simp add: apply_pricing_updates_def split_beta split: option.split)

lemma backfill_recorded: "map recorded (us_rows (snd (backfill_loop pe faults after n st))) = map recorded (us_rows st)"
proof (induction pe faults after n st rule: backfill_loop.induct)
  case (1 pe faults after n st)
  show ?case
  proof (cases "unpriced_events_after (next_fault faults) after PRICING_BACKFILL_BATCH_SIZE st")
    case (Inr events)
    let ?us = "List.map_filter (pricing_update pe) events"
    obtain r st' where ap: "apply_pricing_updates (next_fault (tl faults)) ?us st = (r, st')"
      by fastforce
    then have rows: "map recorded (us_rows st') = map recorded (us_rows st)"
      using apply_pricing_recorded [of "next_fault (tl faults)" ?us st] by simp
    show ?thesis
    proof (cases "events = []")
      case False
      show ?thesis
      proof (cases r)
        case r: (Inr k)
        then show ?thesis
          using 1 [OF Inr False ap [symmetric] r] rows ap False Inr by (simp add: backfill_loop.simps [of pe faults])
      qed (use rows ap False Inr in \<open>simp add: backfill_loop.simps [of pe faults]\<close>)
    qed (use Inr in \<open>simp add: backfill_loop.simps [of pe faults]\<close>)
  qed (simp add: backfill_loop.simps [of pe faults])
qed

lemma retention_rows: "set (us_rows (retention_loop d faults st)) \<subseteq> set (us_rows st)"
proof (induction d faults st rule: retention_loop.induct)
  case (1 d faults st)
  obtain r st' where del: "delete_before (next_fault faults) d RETENTION_BATCH_SIZE st = (r, st')"
    by fastforce
  then have less: "set (us_rows st') \<subseteq> set (us_rows st)"
    by (auto simp: delete_before_def Let_def split: option.splits)
  show ?case
  proof (cases r)
    case (Inr n)
    show ?thesis
    proof (cases "n = 0")
      case False
      have "set (us_rows (retention_loop d (tl faults) st')) \<subseteq> set (us_rows st')"
        using 1 [OF del [symmetric] Inr False] .
      then show ?thesis
        using less del Inr False by (simp add: retention_loop.simps [of d faults st])
    qed (use less del Inr in \<open>simp add: retention_loop.simps [of d faults st]\<close>)
  qed (use less del in \<open>simp add: retention_loop.simps [of d faults st]\<close>)
qed

lemma backfilled_recorded: "map recorded (us_rows (snd (backfill_unpriced_usage pe fs st))) = map recorded (us_rows st)"
  by (simp add: backfill_unpriced_usage_def backfill_recorded)

lemma saved_rows: "us_rows (snd (save_pricing_snapshot f j v t st)) = us_rows st"
  by (simp add: save_pricing_snapshot_def split: option.split)

lemma refresh_round_recorded:
  assumes "pricing_refresh_round S fetched now faults (svc, st) = Done (svc', st')"
  shows "uv_queue svc' = uv_queue svc \<and> map recorded (us_rows st') = map recorded (us_rows st)"
proof (cases "fetched")
  case (Inr snapshot)
  obtain x where x: "with_snapshot (uv_pricing svc) snapshot = Done x"
    using assms Inr by (auto simp: pricing_refresh_round_def outcome_bind_Done_iff)
  show ?thesis
  proof (cases x)
    case pe: (Inr pe)
    then show ?thesis
      using assms Inr x
      by (cases "snapshot_to_json S snapshot") (auto simp: pricing_refresh_round_def Let_def backfilled_recorded saved_rows)
  qed (use assms Inr x in \<open>simp add: pricing_refresh_round_def\<close>)
qed (use assms in \<open>simp add: pricing_refresh_round_def\<close>)

section \<open>Steps of the application\<close>

text \<open>The tasks that run while a request waits for a token call the account store in the background.\<close>

definition step_ok :: "serde_lib \<Rightarrow> app_step \<Rightarrow> bool" where
  "step_ok S step = (case step of AS_Request V req \<Rightarrow> others_ok S V | _ \<Rightarrow> True)"

definition runs_ok :: "serde_lib \<Rightarrow> app_step list \<Rightarrow> bool" where
  "runs_ok S steps \<longleftrightarrow> list_all (step_ok S) steps"

lemma app_run_simps [simp]:
  "app_run C S ops password [] app = app"
  "app_run C S ops password (s # steps) app = app_run C S ops password steps (app_exec C S ops password s app)"
  by (simp_all add: app_run_def)

lemma runs_ok_simps [simp]: "runs_ok S []" "runs_ok S (s # steps) \<longleftrightarrow> step_ok S s \<and> runs_ok S steps"
  by (simp_all add: runs_ok_def)

lemma drop_in_flight_store:
  "drop_in_flight C S B b psvc usvc g = (psvc', usvc', g') \<Longrightarrow> gw_svc g' = gw_svc g \<and> gw_drains g' = gw_drains g"
  by (auto simp: drop_in_flight_def Let_def drop_slot_def split: prod.splits option.splits)

text \<open>A step that is no request calls the account store in the background and leaves tokens and sessions alone.\<close>

lemma task_effect:
  assumes "\<And>V req. step \<noteq> AS_Request V req"
  shows "background S (app_accounts app) (app_accounts (app_exec C S ops password step app)) \<and>
    app_tokens (app_exec C S ops password step app) = app_tokens app \<and>
    app_sessions (app_exec C S ops password step app) = app_sessions app"
proof (cases step)
  case (AS_Poll i B item)
  then show ?thesis
    by (auto simp: app_poll_def app_accounts_def split: option.splits)
next
  case (AS_Drop i B)
  then show ?thesis
    by (auto simp: app_drop_def app_accounts_def split: prod.splits dest!: drop_in_flight_store)
next
  case (AS_Flush i L now f f')
  then show ?thesis
    by (simp add: run_flush_def app_accounts_def on_svc_def flush_reaches)
qed (use assms in \<open>simp_all add: app_accounts_def run_release_def on_svc_def on_usage_def split: prod.split\<close>)

lemma exec_changes:
  assumes "step_ok S step"
  shows "changes S (app_accounts app) (app_accounts (app_exec C S ops password step app))"
proof (cases "\<exists>V req. step = AS_Request V req")
  case True
  then show ?thesis
    using assms handle_changes by (auto simp: step_ok_def)
next
  case False
  then show ?thesis
    using background_any task_effect [of step S app C ops password] by blast
qed

lemma run_changes: "runs_ok S steps \<Longrightarrow> changes S (app_accounts app) (app_accounts (app_run C S ops password steps app))"
proof (induction steps arbitrary: app)
  case (Cons step steps)
  have "changes S (app_accounts app) (app_accounts (app_exec C S ops password step app))"
    using Cons(2) by (intro exec_changes) simp
  then show ?case
    using Cons reaches_trans by fastforce
qed simp

lemma on_tokens_tokens [simp]: "app_tokens (snd (on_tokens f r app)) = snd r"
  by (simp add: on_tokens_def)

lemma on_others_tokens [simp]:
  "app_tokens (snd (on_accounts f q app)) = app_tokens app" "app_tokens (snd (on_sessions g u app)) = app_tokens app"
  "app_tokens (put_svc svc app) = app_tokens app"
  by (simp_all add: on_accounts_def on_sessions_def put_svc_def)

lemma serve_tokens: "\<exists>calls. app_tokens (snd (serve S ops V e req app)) = token_run calls (app_tokens app)"
proof -
  have none: ?thesis if "app_tokens (snd (serve S ops V e req app)) = app_tokens app"
    using that by (intro exI [of _ "[]"]) (simp add: token_run_def)
  show ?thesis
  proof (cases e)
    case EP_Create_Token
    show ?thesis
    proof (cases "xt_token (ev_extract V) req")
      case (Inr r)
      then show ?thesis
        using EP_Create_Token
        by (intro exI [of _ "[CreateToken (ev_pg V) (ev_now V) (ev_fault V 0) (ev_draw V) r]"]) (simp add: token_run_def with_arg_def)
    qed (use EP_Create_Token none in \<open>simp add: with_arg_def\<close>)
  next
    case EP_Update_Token
    show ?thesis
    proof (cases "xt_id (ev_extract V) req"; cases "xt_json (ev_extract V) req")
      fix i updates
      assume "xt_id (ev_extract V) req = Inr i" "xt_json (ev_extract V) req = Inr updates"
      then show ?thesis
        using EP_Update_Token
        by (intro exI [of _ "[UpdateToken (ev_now V) (ev_fault V 0) (ev_fault V 1) i updates]"]) (simp add: token_run_def with_arg_def)
    qed (use EP_Update_Token none in \<open>simp_all add: with_arg_def\<close>)
  next
    case EP_Delete_Token
    show ?thesis
    proof (cases "xt_id (ev_extract V) req")
      case (Inr i)
      then show ?thesis
        using EP_Delete_Token
        by (intro exI [of _ "[DeleteToken (ev_fault V 0) i]"]) (simp add: token_run_def with_arg_def)
    qed (use EP_Delete_Token none in \<open>simp add: with_arg_def\<close>)
  qed ((rule none; auto simp: with_arg_def split: sum.splits prod.splits outcome.splits)+)
qed

lemma handle_tokens: "\<exists>calls. app_tokens (snd (app_handle C S ops password V req app)) = token_run calls (app_tokens app)"
proof -
  have none: "\<exists>calls. app_tokens app = token_run calls (app_tokens app)"
    by (intro exI [of _ "[]"]) (simp add: token_run_def)
  show ?thesis
  proof (cases "dispatch (ev_matches V) password req")
    case (To_Frontend f)
    then show ?thesis using none by (cases f) (simp_all add: app_handle_def)
  next
    case (To_Endpoint e)
    then show ?thesis
      using serve_tokens [of S ops V e req app] by (auto simp: app_handle_def split: prod.splits)
  qed (use none in \<open>auto simp: app_handle_def split: prod.splits\<close>)
qed

lemma exec_tokens: "\<exists>calls. app_tokens (app_exec C S ops password step app) = token_run calls (app_tokens app)"
proof (cases "\<exists>V req. step = AS_Request V req")
  case True
  then show ?thesis
    using handle_tokens by auto
next
  case False
  then show ?thesis
    using task_effect [of step S app C ops password] by (intro exI [of _ "[]"]) (simp add: token_run_def)
qed

lemma run_tokens: "\<exists>calls. app_tokens (app_run C S ops password steps app) = token_run calls (app_tokens app)"
proof (induction steps arbitrary: app)
  case Nil
  show ?case by (intro exI [of _ "[]"]) (simp add: token_run_def)
next
  case (Cons step steps)
  obtain xs ys where "app_tokens (app_exec C S ops password step app) = token_run xs (app_tokens app)"
    "app_tokens (app_run C S ops password steps (app_exec C S ops password step app)) =
      token_run ys (app_tokens (app_exec C S ops password step app))"
    using exec_tokens [of C S ops password step app] Cons [of "app_exec C S ops password step app"] by auto
  then show ?case
    by (intro exI [of _ "xs @ ys"]) (simp add: token_run_def)
qed

section \<open>Properties\<close>

text \<open>
  C2. The application refines its tables: whatever requests arrive, from the administrator or through the gateway, however
  the bodies of their responses are read and in whatever order the tasks run,
  the account table is the result of a sequence of calls of the account store, and the token table of calls of the token
  store. So the list of schedulable accounts stays in agreement with the table, and token identifiers and
  texts stay unique.
\<close>

theorem requests_refine_tables:
  assumes "runs_ok S rs"
  shows "(\<exists>calls. app_accounts (app_run C S ops password rs app) = store_run S calls (app_accounts app)) \<and>
    (\<exists>calls. app_tokens (app_run C S ops password rs app) = token_run calls (app_tokens app)) \<and>
    (cache_coherent S (app_accounts app) \<longrightarrow> cache_coherent S (app_accounts (app_run C S ops password rs app))) \<and>
    (token_wf (app_tokens app) \<longrightarrow> token_wf (app_tokens (app_run C S ops password rs app)))"
proof -
  obtain calls where "app_accounts (app_run C S ops password rs app) = store_run S calls (app_accounts app)"
    using run_changes [OF assms, of app C ops password] by (auto simp: reaches_def)
  moreover obtain tcalls where "app_tokens (app_run C S ops password rs app) = token_run tcalls (app_tokens app)"
    using run_tokens by blast
  ultimately show ?thesis
    using store_run_coherent token_run_wf by metis
qed

text \<open>What the administrator configures of an account.\<close>

definition configured :: "account_row \<Rightarrow> account_row" where
  "configured r =
     r\<lparr>row_status := [], row_access_token := [], row_refresh_token := [], row_oauth_expires_at := None,
       row_oauth_refreshed_at := None, row_auth_error := [], row_rate_limited_at := None, row_rate_limit_reset_at := None,
       row_disable_reason := [], row_telemetry_count := 0, row_usage_data := [], row_usage_fetched_at := None, row_updated_at := 0\<rparr>"

lemma configured_update [simp]:
  "configured (r\<lparr>row_status := v0\<rparr>) = configured r"
  "configured (r\<lparr>row_access_token := v1\<rparr>) = configured r"
  "configured (r\<lparr>row_refresh_token := v2\<rparr>) = configured r"
  "configured (r\<lparr>row_oauth_expires_at := v3\<rparr>) = configured r"
  "configured (r\<lparr>row_oauth_refreshed_at := v4\<rparr>) = configured r"
  "configured (r\<lparr>row_auth_error := v5\<rparr>) = configured r"
  "configured (r\<lparr>row_rate_limited_at := v6\<rparr>) = configured r"
  "configured (r\<lparr>row_rate_limit_reset_at := v7\<rparr>) = configured r"
  "configured (r\<lparr>row_disable_reason := v8\<rparr>) = configured r"
  "configured (r\<lparr>row_telemetry_count := v9\<rparr>) = configured r"
  "configured (r\<lparr>row_usage_data := v10\<rparr>) = configured r"
  "configured (r\<lparr>row_usage_fetched_at := v11\<rparr>) = configured r"
  "configured (r\<lparr>row_updated_at := v12\<rparr>) = configured r"
  by (simp_all add: configured_def)

lemma exec_update_configured:
  assumes "\<And>r. configured (f r) = configured r"
  shows "map configured (ast_rows (snd (exec_update fault p f st))) = map configured (ast_rows st)"
  using assms by (simp add: exec_update_def split: option.splits)

lemma then_invalidate_rows [simp]: "ast_rows (snd (then_invalidate r)) = ast_rows (snd r)"
  by (cases r rule: then_invalidate.cases) (simp_all add: invalidate_schedulable_cache_def)

lemma background_configured:
  assumes "background_call c"
  shows "map configured (ast_rows (store_exec S c st)) = map configured (ast_rows st)"
  using assms
  by (cases c) (simp_all add: loud_updates quiet_updates list_schedulable_def store_schedulable_def Let_def
      exec_update_configured split: option.splits)

lemma background_run_configured: "background S st st' \<Longrightarrow> map configured (ast_rows st') = map configured (ast_rows st)"
proof -
  assume "background S st st'"
  then obtain calls where "\<forall>c \<in> set calls. background_call c" "st' = store_run S calls st"
    by (auto simp: reaches_def)
  moreover have "\<forall>c \<in> set calls. background_call c \<Longrightarrow> map configured (ast_rows (store_run S calls st)) = map configured (ast_rows st)" for st
    by (induction calls arbitrary: st) (simp_all add: store_run_def background_configured)
  ultimately show ?thesis by simp
qed

text \<open>Steps without the password: its requests do not carry it.\<close>

definition no_password :: "string \<Rightarrow> app_step list \<Rightarrow> bool" where
  "no_password password steps \<longleftrightarrow>
     list_all (\<lambda>step. case step of
        AS_Request V req \<Rightarrow> admin_auth password (text_headers (gq_headers req)) \<noteq> Inr () | _ \<Rightarrow> True) steps"

lemma no_password_target:
  assumes "admin_auth password (text_headers (gq_headers req)) \<noteq> Inr ()"
  shows "dispatch matches password req \<noteq> To_Endpoint e"
  using assms by (auto simp: dispatch_def split: routed.splits sum.splits)

text \<open>
  The tokens whose usage may still be recorded: the active ones, and those of the responses that are still read and of the events
  that are queued.
\<close>

definition tokens_in_use :: "('c, 'd) app \<Rightarrow> int set" where
  "tokens_in_use app =
     active_tokens (app_tokens app) \<union>
     ua_api_token_id ` set (gw_drains (app_gateway app) @ concat (map (\<lambda>b. observed_attempt (if_observer b)) (app_bodies app))) \<union>
     ue_api_token_id ` set (uv_queue (app_usage app))"

definition usage_in :: "int set \<Rightarrow> usage_row list \<Rightarrow> ('c, 'd) app \<Rightarrow> bool" where
  "usage_in T old app \<longleftrightarrow>
     attempts_in T (gw_drains (app_gateway app)) \<and>
     (\<forall>b \<in> set (app_bodies app). attempts_in T (observed_attempt (if_observer b))) \<and>
     events_in T (uv_queue (app_usage app)) \<and> rows_in T old (app_usage_store app)"

lemma usage_in_start: "usage_in (tokens_in_use app) (us_rows (app_usage_store app)) app"
  by (auto simp: usage_in_def tokens_in_use_def attempts_in_def events_in_def rows_in_def)

lemma body_in_flight_attempt:
  "b \<in> set (body_in_flight C body held) \<Longrightarrow> observed_attempt (if_observer b) = body_attempt body"
  by (cases body) (auto simp: body_in_flight_def observer_new_def body_attempt_def observed_attempt_def split: option.split)

lemma drain_in_flight_attempt: "observed_attempt (if_observer (drain_in_flight C a)) = [a]"
  by (simp add: drain_in_flight_def observer_new_def)

lemma response_bodies_in:
  assumes "attempts_in T drains" "\<forall>resp. r = Done resp \<longrightarrow> attempts_in T (body_attempt (gr_body resp))"
    and "b \<in> set (response_bodies C r held drains)"
  shows "attempts_in T (observed_attempt (if_observer b))"
proof (cases "b \<in> drain_in_flight C ` set drains")
  case True
  then obtain a where "a \<in> set drains" "b = drain_in_flight C a"
    by blast
  then show ?thesis
    using assms(1) drain_in_flight_attempt [of C a] by (simp add: attempts_in_def)
next
  case False
  then obtain resp where "r = Done resp" "b \<in> set (body_in_flight C (gr_body resp) held)"
    using assms(3) by (auto simp: response_bodies_def split: outcome.splits)
  then show ?thesis
    using assms(2) body_in_flight_attempt by metis
qed

text \<open>What a request without the password may change.\<close>

lemma request_effect:
  assumes "others_ok S V" "admin_auth password (text_headers (gq_headers req)) \<noteq> Inr ()"
    and "active_tokens (app_tokens app) \<subseteq> T" "usage_in T old app"
    and app'_def: "app' = snd (app_handle C S ops password V req app)"
  shows "background S (app_accounts app) (app_accounts app') \<and> app_tokens app' = app_tokens app \<and>
    app_sessions app' = app_sessions app \<and> usage_in T old app'"
proof (cases "dispatch (ev_matches V) password req")
  case (To_Frontend f)
  then show ?thesis
    using assms by (cases f) (simp_all add: app_handle_def)
next
  case (To_Endpoint e)
  then show ?thesis using no_password_target [OF assms(2)] by simp
next
  case To_Gateway
  obtain r held psvc g where gw: "gateway_fallback (ev_rewriting V) S (ev_lib V) ops (ev_gateway V) (ev_fallback V) req
      (app_tokens app) (app_perf app) (app_gateway app) = (r, held, psvc, g)"
    by (cases "gateway_fallback (ev_rewriting V) S (ev_lib V) ops (ev_gateway V) (ev_fallback V) req
      (app_tokens app) (app_perf app) (app_gateway app)")
  have app': "app' = app\<lparr>app_perf := psvc, app_gateway := g\<lparr>gw_drains := []\<rparr>,
      app_bodies := app_bodies app @ response_bodies C r held (gw_drains g)\<rparr>"
    using To_Gateway gw by (simp add: app'_def app_handle_def)
  have "(\<forall>resp. r = Done resp \<longrightarrow> attempts_in T (body_attempt (gr_body resp))) \<and> attempts_in T (gw_drains g)"
    using fallback_tokens [OF gw assms(3)] assms(4) by (simp add: usage_in_def)
  then have "usage_in T old app'"
    using assms(4) response_bodies_in [of T "gw_drains g" r _ C held] unfolding app' by (auto simp: usage_in_def)
  then show ?thesis
    using gateway_accounts [OF assms(1) To_Gateway, of app C ops] by (simp add: app'_def [symmetric]) (simp add: app')
qed (use assms in \<open>simp_all add: app_handle_def\<close>)

lemma poll_usage:
  assumes "usage_in T old app"
  shows "usage_in T old (app_poll C S i B item app)"
proof (cases "poll_body C S B item (app_bodies app ! i) (app_perf app) (app_usage app)")
  case None
  then show ?thesis
    using assms by (simp add: app_poll_def)
next
  case (Some res)
  obtain b psvc usvc where res: "res = (b, psvc, usvc)"
    by (cases res)
  let ?b = "app_bodies app ! i"
  show ?thesis
  proof (cases "i < length (app_bodies app)")
    case True
    obtain out oo cell where "stream_poll_next C S (bx_obs B) item (if_observer ?b, read_failure B item (cell_of ?b (app_perf app)), app_usage app) =
        Some (out, oo, cell, usvc)" "if_observer b = oo"
      using Some res by (auto simp: poll_body_def Let_def split: option.splits prod.splits)
    moreover have "observed_in T (if_observer ?b) (app_usage app)"
      using assms True by (simp add: usage_in_def)
    ultimately have "observed_in T (if_observer b) usvc"
      using poll_events by blast
    then show ?thesis
      using assms Some res True by (auto simp: usage_in_def app_poll_def dest!: set_update_subset_insert [THEN subsetD])
  qed (use assms in \<open>simp add: app_poll_def\<close>)
qed

lemma drop_usage:
  assumes "usage_in T old app"
  shows "usage_in T old (app_drop C S i B app)"
proof (cases "i < length (app_bodies app)")
  case True
  let ?b = "app_bodies app ! i"
  obtain psvc usvc g where res: "drop_in_flight C S B ?b (app_perf app) (app_usage app) (app_gateway app) = (psvc, usvc, g)"
    by (cases "drop_in_flight C S B ?b (app_perf app) (app_usage app) (app_gateway app)")
  obtain oo cell where "stream_finish C S (bx_obs B) True (if_observer ?b, cell_of ?b (app_perf app), app_usage app) = (oo, cell, usvc)"
    using res by (auto simp: drop_in_flight_def stream_drop_def Let_def split: prod.splits)
  moreover have "observed_in T (if_observer ?b) (app_usage app)"
    using assms True by (simp add: usage_in_def)
  ultimately have "events_in T (uv_queue usvc)"
    using finish_events by blast
  moreover have "set (remove_nth i (app_bodies app)) \<subseteq> set (app_bodies app)"
    using set_take_subset set_drop_subset by (fastforce simp: remove_nth_def)
  ultimately show ?thesis
    using assms res True drop_in_flight_store [OF res] by (auto simp: usage_in_def app_drop_def)
qed (use assms in \<open>simp add: app_drop_def\<close>)

lemma task_usage:
  assumes "\<And>V req. step \<noteq> AS_Request V req" "usage_in T old app"
  shows "usage_in T old (app_exec C S ops password step app)"
proof (cases step)
  case (AS_Poll i B item)
  then show ?thesis using poll_usage assms(2) by simp
next
  case (AS_Drop i B)
  then show ?thesis using drop_usage assms(2) by simp
next
  case (AS_Usage_Writer n faults)
  obtain svc st where w: "usage_writer_batch n faults (app_usage app, app_usage_store app) = (svc, st)"
    by fastforce
  then show ?thesis
    using AS_Usage_Writer assms(2) writer_in [OF w, of T old] by (simp add: on_usage_def usage_in_def)
next
  case (AS_Backfill faults)
  have "recorded ` set (us_rows (snd (backfill_unpriced_usage pe faults (app_usage_store app)))) = recorded ` set (us_rows (app_usage_store app))"
    for pe
    by (metis backfilled_recorded list.set_map)
  then show ?thesis
    using AS_Backfill assms(2) rows_in_cong [of T old "app_usage_store app"]
    by (simp add: on_usage_def usage_in_def pricing_refresh_start_def)
next
  case (AS_Prices fetched now faults)
  show ?thesis
  proof (cases "pricing_refresh_round S fetched now faults (app_usage app, app_usage_store app)")
    case (Done sv)
    obtain svc st where sv: "sv = (svc, st)" by (cases sv)
    have q: "uv_queue svc = uv_queue (app_usage app)" "map recorded (us_rows st) = map recorded (us_rows (app_usage_store app))"
      using refresh_round_recorded [OF Done [unfolded sv]] by simp_all
    then have "recorded ` set (us_rows st) \<subseteq> recorded ` set (us_rows (app_usage_store app))"
      by (metis list.set_map order_refl)
    then show ?thesis
      using AS_Prices assms(2) Done sv q(1) rows_in_cong [of T old "app_usage_store app" st] by (simp add: on_usage_def usage_in_def)
  qed (use AS_Prices assms(2) in \<open>simp add: on_usage_def\<close>)
next
  case (AS_Retention now faults)
  have "recorded ` set (us_rows (retention_round now faults (app_usage_store app))) \<subseteq> recorded ` set (us_rows (app_usage_store app))"
    unfolding retention_round_def by (rule image_mono [OF retention_rows])
  then show ?thesis
    using AS_Retention assms(2) rows_in_cong [of T old "app_usage_store app"] by (simp add: usage_in_def)
qed (use assms in \<open>simp_all add: usage_in_def run_release_def run_flush_def on_svc_def split: prod.split\<close>)

text \<open>
  C1. The administration is behind the password: whatever requests arrive without it, however their responses are
  read and whatever tasks run meanwhile, no account is added, removed or configured anew, no token changes, and no sign-in
  session is made or used. Requests through the gateway add rows to the usage table, but only in the name of tokens: each row is one
  from before, of which at most the price is new, or belongs to a token that is active or was used for a response or an event still under way.
\<close>

theorem administration_needs_password:
  assumes "runs_ok S rs" "no_password password rs"
  shows "map configured (ast_rows (app_accounts (app_run C S ops password rs app))) = map configured (ast_rows (app_accounts app)) \<and>
    app_tokens (app_run C S ops password rs app) = app_tokens app \<and>
    app_sessions (app_run C S ops password rs app) = app_sessions app \<and>
    (\<forall>r \<in> set (us_rows (app_usage_store (app_run C S ops password rs app))).
       recorded r \<in> recorded ` set (us_rows (app_usage_store app)) \<or> ue_api_token_id (ur_event r) \<in> tokens_in_use app)"
proof -
  define T where "T = tokens_in_use app"
  define old where "old = us_rows (app_usage_store app)"
  have "active_tokens (app_tokens app) \<subseteq> T" "usage_in T old app"
    using usage_in_start by (auto simp: T_def old_def tokens_in_use_def)
  with assms have "map configured (ast_rows (app_accounts (app_run C S ops password rs app))) = map configured (ast_rows (app_accounts app)) \<and>
    app_tokens (app_run C S ops password rs app) = app_tokens app \<and>
    app_sessions (app_run C S ops password rs app) = app_sessions app \<and> usage_in T old (app_run C S ops password rs app)"
  proof (induction rs arbitrary: app)
    case (Cons step rs)
    let ?app = "app_exec C S ops password step app"
    have one: "background S (app_accounts app) (app_accounts ?app) \<and> app_tokens ?app = app_tokens app \<and>
        app_sessions ?app = app_sessions app \<and> usage_in T old ?app"
    proof (cases "\<exists>V req. step = AS_Request V req")
      case True
      then show ?thesis
        using Cons.prems request_effect [OF _ _ Cons.prems(3,4) refl] by (auto simp: step_ok_def no_password_def)
    next
      case False
      then show ?thesis
        using task_effect [of step S app C ops password] task_usage [OF _ Cons.prems(4), of step C S ops password] by blast
    qed
    have "no_password password rs" "runs_ok S rs"
      using Cons.prems by (simp_all add: no_password_def)
    then show ?case
      using Cons.IH [of ?app] Cons.prems(3) one background_run_configured [of S "app_accounts app" "app_accounts ?app"] by simp
  qed simp
  then show ?thesis
    by (auto simp: usage_in_def rows_in_def T_def old_def)
qed

section \<open>Witnesses\<close>

definition calm :: "app_env \<Rightarrow> app_env" where
  "calm V = V\<lparr>ev_matches := (\<lambda>pattern path. pattern = ''/admin/accounts/:id''), ev_oauth := issuing_env,
     ev_gateway := (ev_gateway V)\<lparr>ge_oauth := issuing_env\<rparr>\<rparr>"

lemma calm_others: "others_ok S (calm V)"
  by (simp add: others_ok_def calm_def others_in_background_def issuing_env_def)

text \<open>The request to delete an account, with the password and without it.\<close>

definition delete_request :: "headers \<Rightarrow> gw_request" where
  "delete_request hs = \<lparr>gq_method = ''DELETE'', gq_path = ''/admin/accounts/4'', gq_query = None, gq_headers = hs, gq_body = Inr []\<rparr>"

definition priced_event :: usage_event where
  "priced_event = (example_event ''a'')\<lparr>ue_costs := (ue_costs (example_event ''a''))\<lparr>uc_complete := True\<rparr>\<rparr>"

lemma priced_event_valid: "event_valid priced_event" "reprice pe priced_event = priced_event"
  by (simp_all add: priced_event_def example_event_def event_valid_def costs_valid_def cost_check_def default_tokens_def reprice_def)

text \<open>One account, no token, and the usage of one response in the queue of the writer.\<close>

definition one_account :: "(memory_store, unit) app \<Rightarrow> (memory_store, unit) app" where
  "one_account app = (put_svc oauth_svc app)\<lparr>app_tokens := token_store_new, app_bodies := [],
     app_usage := example_service\<lparr>uv_queue := [priced_event]\<rparr>, app_usage_store := usage_store_new\<rparr>"

lemma one_account_sel: "app_accounts (one_account app) = account_store_new [oauth_row] 5" "app_tokens (one_account app) = token_store_new"
  by (simp_all add: one_account_def app_accounts_def put_svc_def)

lemma requests_refine_tables_witness:
  "\<forall>V app. cache_coherent example_serde (app_accounts (app_run plain_codec example_serde memory_cache ''secret''
        [AS_Request (calm V) (delete_request [(''x-api-key'', ''secret'')]), AS_Usage_Writer 1 [], AS_Request (calm V) (delete_request [])]
        (one_account app))) \<and>
    token_wf (app_tokens (app_run plain_codec example_serde memory_cache ''secret''
        [AS_Request (calm V) (delete_request [(''x-api-key'', ''secret'')]), AS_Usage_Writer 1 [], AS_Request (calm V) (delete_request [])]
        (one_account app)))"
proof (intro allI)
  fix V app
  have "runs_ok example_serde [AS_Request (calm V) (delete_request [(''x-api-key'', ''secret'')]), AS_Usage_Writer 1 [],
      AS_Request (calm V) (delete_request [])]"
    by (simp add: step_ok_def calm_others)
  from requests_refine_tables [OF this, of plain_codec memory_cache "''secret''" "one_account app"]
  show "cache_coherent example_serde (app_accounts (app_run plain_codec example_serde memory_cache ''secret''
        [AS_Request (calm V) (delete_request [(''x-api-key'', ''secret'')]), AS_Usage_Writer 1 [], AS_Request (calm V) (delete_request [])]
        (one_account app))) \<and>
    token_wf (app_tokens (app_run plain_codec example_serde memory_cache ''secret''
        [AS_Request (calm V) (delete_request [(''x-api-key'', ''secret'')]), AS_Usage_Writer 1 [], AS_Request (calm V) (delete_request [])]
        (one_account app)))"
    unfolding one_account_sel using coherent_new token_wf_new by blast
qed

text \<open>Without the password the account stays, and the row the writer adds is in the name of a token in use.\<close>

lemma refused_delete: "snd (app_handle C S ops ''secret'' (calm V) (delete_request []) app) = app"
  by (simp add: app_handle_def dispatch_def routed_to_def frontend_routes_def admin_routes_def calm_def delete_request_def
      admin_auth_def extract_key_def text_headers_def Let_def)

lemma administration_needs_password_witness:
  "\<forall>V app. map configured (ast_rows (app_accounts (app_run plain_codec example_serde memory_cache ''secret''
      [AS_Request (calm V) (delete_request []), AS_Usage_Writer 1 []] (one_account app)))) = [configured oauth_row] \<and>
    (\<exists>r. us_rows (app_usage_store (app_run plain_codec example_serde memory_cache ''secret''
      [AS_Request (calm V) (delete_request []), AS_Usage_Writer 1 []] (one_account app))) = [r] \<and>
      ue_api_token_id (ur_event r) \<in> tokens_in_use (one_account app))"
proof (intro allI)
  fix V app
  let ?steps = "[AS_Request (calm V) (delete_request []), AS_Usage_Writer 1 []]"
  let ?app = "app_run plain_codec example_serde memory_cache ''secret'' ?steps (one_account app)"
  have "runs_ok example_serde ?steps" "no_password ''secret'' ?steps"
    by (simp_all add: step_ok_def calm_others no_password_def admin_auth_def delete_request_def extract_key_def text_headers_def Let_def)
  note password = administration_needs_password [OF this, of plain_codec memory_cache "one_account app"]
  have "\<exists>r. us_rows (app_usage_store ?app) = [r]"
    by (simp add: refused_delete priced_event_valid on_usage_def one_account_def usage_writer_batch_def WRITE_BATCH_SIZE_def eval_nat_numeral insert_batch_def
        insert_event_def usage_store_new_def next_fault_def example_service_def)
  then obtain r where "us_rows (app_usage_store ?app) = [r]" by blast
  then show "map configured (ast_rows (app_accounts ?app)) = [configured oauth_row] \<and>
      (\<exists>r. us_rows (app_usage_store ?app) = [r] \<and> ue_api_token_id (ur_event r) \<in> tokens_in_use (one_account app))"
    using password by (simp add: one_account_sel account_store_new_def) (simp add: one_account_def usage_store_new_def)
qed

end
