(* ===== verification/Schema_Facts.thy ===== *)
theory Schema_Facts
  imports Database_Facts
begin

text \<open>
  What the statements of the stores need of the schema, and that a migration that succeeds leaves it, also when
  statements met errors on the way.
\<close>

section \<open>The columns the statements use\<close>

text \<open>
  Every table with the columns it is created with, which are the ones the statements of the stores name; the names are
  the same for both databases. A schema that has them all serves the application.
\<close>

definition created_tables :: "ddl list \<Rightarrow> (string \<times> string set) list" where
  "created_tables ds = List.map_filter (\<lambda>d. case d of Create_Table t cols \<Rightarrow> Some (t, fst ` set cols) | _ \<Rightarrow> None) ds"

definition required_tables :: "(string \<times> string set) list" where
  "required_tables = created_tables (accounts_schema True @ tokens_schema True @ usage_schema True @ performance_schema)"

definition serves :: "db_schema \<Rightarrow> bool" where
  "serves s \<longleftrightarrow> (\<forall>(t, names) \<in> set required_tables. has_columns s t names)"

text \<open>
  The databases a start is meant for: one that serves the application already; or one without a completed migration, whose
  tables are complete or do not exist yet. The columns that were added to the accounts over time may be missing when no statement meets an error.
\<close>

definition added_later :: "string set" where
  "added_later = fst ` set (pending_columns True)"

definition fit_to_migrate :: "conn \<Rightarrow> bool" where
  "fit_to_migrate c \<longleftrightarrow>
     serves (cn_schema c) \<or>
     \<not> stamped (cn_schema c) \<and>
     (\<forall>(t, names) \<in> set required_tables.
        compatible (cn_schema c) t (if cn_faults c = [] \<and> t = ''accounts'' then names - added_later else names))"

text \<open>A list of statements creates a table with these columns at least, whenever it creates it.\<close>

definition covers :: "ddl list \<Rightarrow> string \<Rightarrow> string set \<Rightarrow> bool" where
  "covers ds t names \<longleftrightarrow> (\<forall>cols. Create_Table t cols \<in> set ds \<longrightarrow> names \<subseteq> fst ` set cols)"

lemma covers_simps [simp]:
  "covers [] t names" "covers (d # ds) t names \<longleftrightarrow> covers [d] t names \<and> covers ds t names"
  "covers (a @ b) t names \<longleftrightarrow> covers a t names \<and> covers b t names"
  by (auto simp: covers_def)

lemma ddl_keeps:
  assumes "ddl_effect d s = Some s'"
  shows "has_columns s t names \<Longrightarrow> has_columns s' t names"
    and "covers [d] t names \<Longrightarrow> compatible s t names \<Longrightarrow> compatible s' t names"
    and "d = Create_Table t cols \<Longrightarrow> names \<subseteq> fst ` set cols \<Longrightarrow> compatible s t names \<Longrightarrow> has_columns s' t names"
  using assms
  by (cases d; force simp: has_columns_def compatible_def covers_def map_lookup split: option.splits if_splits)+

lemma execute_schema:
  "cn_schema (snd (execute err d c)) = cn_schema c \<or> ddl_effect d (cn_schema c) = Some (cn_schema (snd (execute err d c)))"
  by (auto simp: execute_def dest: next_fault_pair split: prod.splits option.splits)

lemma execute_keeps:
  "has_columns (cn_schema c) t names \<Longrightarrow> has_columns (cn_schema (snd (execute err d c))) t names"
  using execute_schema [of err d c] by (metis ddl_keeps(1))

lemma execute_compatible:
  "covers [d] t names \<Longrightarrow> compatible (cn_schema c) t names \<Longrightarrow> compatible (cn_schema (snd (execute err d c))) t names"
  using execute_schema [of err d c] by (metis ddl_keeps(2))

lemma execute_all_step:
  "execute_all err (d # ds) c = (r, c') \<Longrightarrow>
    c' = snd (execute err d c) \<and> r \<noteq> Inr () \<or>
    fst (execute err d c) = Inr () \<and> execute_all err ds (snd (execute err d c)) = (r, c')"
  by (auto split: prod.splits sum.splits)

lemma execute_all_keeps:
  "execute_all err ds c = (r, c') \<Longrightarrow> has_columns (cn_schema c) t names \<Longrightarrow> has_columns (cn_schema c') t names"
proof (induction ds arbitrary: c)
  case (Cons d ds)
  then show ?case
    using execute_keeps [OF Cons.prems(2), of err d] execute_all_step [OF Cons.prems(1)] by blast
qed simp

lemma execute_all_compatible:
  "execute_all err ds c = (r, c') \<Longrightarrow> covers ds t names \<Longrightarrow> compatible (cn_schema c) t names \<Longrightarrow> compatible (cn_schema c') t names"
proof (induction ds arbitrary: c)
  case (Cons d ds)
  have cov: "covers [d] t names" "covers ds t names"
    using Cons.prems(2) by (auto simp: covers_def)
  then show ?case
    using Cons.IH execute_compatible [OF cov(1) Cons.prems(3), of err] execute_all_step [OF Cons.prems(1)] by blast
qed simp

text \<open>Statements that all succeed leave every table they create, with the columns it was created with.\<close>

lemma execute_all_creates:
  assumes "execute_all err ds c = (Inr (), c')" "Create_Table t cols \<in> set ds" "covers ds t names" "compatible (cn_schema c) t names"
  shows "has_columns (cn_schema c') t names"
  using assms
proof (induction ds arbitrary: c)
  case (Cons d ds)
  have cov: "covers [d] t names" "covers ds t names"
    using Cons.prems(3) by (auto simp: covers_def)
  have run: "fst (execute err d c) = Inr ()" "execute_all err ds (snd (execute err d c)) = (Inr (), c')"
    using execute_all_step [OF Cons.prems(1)] by auto
  show ?case
  proof (cases "d = Create_Table t cols")
    case True
    have "ddl_effect d (cn_schema c) = Some (cn_schema (snd (execute err d c)))"
      using run(1) by (auto simp: execute_def dest: next_fault_pair split: prod.splits option.splits)
    then have "has_columns (cn_schema (snd (execute err d c))) t names"
      using ddl_keeps(3) [OF _ True _ Cons.prems(4)] cov(1) True by (auto simp: covers_def)
    then show ?thesis
      using execute_all_keeps [OF run(2)] by blast
  next
    case False
    then show ?thesis
      using Cons.IH [OF run(2) _ cov(2) execute_compatible [OF cov(1) Cons.prems(4)]] Cons.prems(2) by simp
  qed
qed simp

lemma execute_ok_keeps:
  "has_columns (cn_schema c) t names \<Longrightarrow> has_columns (cn_schema (execute_ok err ds c)) t names"
  by (induction ds arbitrary: c) (simp_all add: execute_keeps)

lemma execute_ok_compatible:
  "covers ds t names \<Longrightarrow> compatible (cn_schema c) t names \<Longrightarrow> compatible (cn_schema (execute_ok err ds c)) t names"
proof (induction ds arbitrary: c)
  case (Cons d ds)
  then have cov: "covers [d] t names" "covers ds t names"
    by (auto simp: covers_def)
  show ?case
    using Cons.IH [OF cov(2) execute_compatible [OF cov(1) Cons.prems(2), of err]] by simp
qed simp

lemma alter_keeps:
  "has_columns (cn_schema c) t names \<Longrightarrow> has_columns (cn_schema (alter_accounts err b c)) t names"
  "compatible (cn_schema c) t names \<Longrightarrow> compatible (cn_schema (alter_accounts err b c)) t names"
proof -
  have none: "covers (map (\<lambda>(n, ty). Add_Column u n ty) ps) t names" "covers (map (\<lambda>(n, ty). Alter_Type u n ty) ps) t names" for u ps
    by (auto simp: covers_def)
  obtain cols c1 where e: "existing_columns ''accounts'' c = (cols, c1)"
    by (cases "existing_columns ''accounts'' c")
  let ?c2 = "execute_ok err (map (\<lambda>(n, ty). Add_Column ''accounts'' n ty) (filter (\<lambda>p. fst p \<notin> set cols) (pending_columns b))) c1"
  obtain types c3 where y: "column_types ''accounts'' ?c2 = (types, c3)"
    by (cases "column_types ''accounts'' ?c2")
  have q: "cn_schema c1 = cn_schema c" "cn_schema c3 = cn_schema ?c2"
    using queries_schema(1) [of "''accounts''" c] queries_schema(2) [of "''accounts''" ?c2] e y by simp_all
  have altered: "alter_accounts err b c =
      (if b then ?c2 else execute_ok err (map (\<lambda>(n, ty). Alter_Type ''accounts'' n ty) (filter (needs_type types) retyped_columns)) c3)"
    using y by (cases b) (simp_all add: alter_accounts_def e Let_def)
  show "has_columns (cn_schema (alter_accounts err b c)) t names" if "has_columns (cn_schema c) t names"
  proof -
    have "has_columns (cn_schema ?c2) t names"
      by (rule execute_ok_keeps) (simp add: q that)
    then show ?thesis
      using q(2) execute_ok_keeps [of c3] unfolding altered by (cases b) simp_all
  qed
  show "compatible (cn_schema (alter_accounts err b c)) t names" if "compatible (cn_schema c) t names"
  proof -
    have "compatible (cn_schema ?c2) t names"
      by (rule execute_ok_compatible [OF none(1)]) (simp add: q that)
    then show ?thesis
      using q(2) execute_ok_compatible [OF none(2), of c3] unfolding altered by (cases b) simp_all
  qed
qed

section \<open>What a migration leaves\<close>

text \<open>The parts of a migration that succeeds and is not skipped.\<close>

lemma migrate_parts:
  assumes "migrate err driver c = (Inr (), c')"
  obtains (skipped) c1 where "snd (execute err Create_Versions c) = c1" "cn_schema c' = cn_schema c1" "stamped (cn_schema c1)"
  | (ran) c1 c2 c3 where "cn_schema c1 = cn_schema (snd (execute err Create_Versions c))"
    "execute_all err (accounts_schema (driver = ''sqlite'') @ tokens_schema (driver = ''sqlite'') @ usage_schema (driver = ''sqlite'')) c1 = (Inr (), c2)"
    "execute_all err performance_schema (alter_accounts err (driver = ''sqlite'') c2) = (Inr (), c3)"
    "execute_all err [Insert_Version SCHEMA_VERSION] c3 = (Inr (), c')"
proof -
  let ?b = "driver = ''sqlite''"
  obtain r c0 where cv: "execute err Create_Versions c = (r, c0)"
    by (cases "execute err Create_Versions c")
  obtain n c1 where n: "applied_versions c0 = (n, c1)"
    by (cases "applied_versions c0")
  have same: "cn_schema c1 = cn_schema c0"
    using queries_schema(3) [of c0] n by simp
  show thesis
  proof (cases "0 < n")
    case True
    then have "cn_schema c' = cn_schema c0"
      using assms cv n same by (auto simp: migrate_def split: sum.splits)
    then show thesis
      using that(1) [of c0] cv applied_stamped [OF n True] same by simp
  next
    case False
    then show thesis
      using assms cv n same that(2) [of c1]
      by (auto simp: migrate_def Let_def execute_all_append split: sum.splits prod.splits)
  qed
qed

lemma migrate_keeps:
  assumes "migrate err driver c = (Inr (), c')" "has_columns (cn_schema c) t names"
  shows "has_columns (cn_schema c') t names"
proof -
  note start = execute_keeps [OF assms(2), of err Create_Versions]
  from assms(1) show ?thesis
  proof (cases rule: migrate_parts)
    case (skipped c1)
    then show ?thesis using start by simp
  next
    case (ran c1 c2 c3)
    have "has_columns (cn_schema c2) t names"
      using execute_all_keeps [OF ran(2)] start ran(1) by simp
    then have "has_columns (cn_schema c3) t names"
      by (intro execute_all_keeps [OF ran(3)] alter_keeps)
    then show ?thesis
      by (rule execute_all_keeps [OF ran(4)])
  qed
qed

text \<open>The required tables are those both databases create.\<close>

definition creates :: "string \<Rightarrow> ddl \<Rightarrow> bool" where
  "creates t d = (case d of Create_Table u cols \<Rightarrow> u = t | _ \<Rightarrow> False)"

definition creates_fully :: "string \<Rightarrow> string set \<Rightarrow> ddl \<Rightarrow> bool" where
  "creates_fully t names d = (case d of Create_Table u cols \<Rightarrow> u = t \<longrightarrow> names \<subseteq> fst ` set cols | _ \<Rightarrow> True)"

definition created_by :: "ddl list \<Rightarrow> bool" where
  "created_by ds = list_all (\<lambda>(t, names). list_ex (creates t) ds \<and> list_all (creates_fully t names) ds) required_tables"

lemma created_by_both:
  "created_by (accounts_schema True @ tokens_schema True @ usage_schema True @ performance_schema)"
  "created_by (accounts_schema False @ tokens_schema False @ usage_schema False @ performance_schema)"
  by code_simp+

lemma required_created:
  assumes "(t, names) \<in> set required_tables"
  shows "(\<exists>cols. Create_Table t cols \<in> set (accounts_schema b @ tokens_schema b @ usage_schema b @ performance_schema)) \<and>
    covers (accounts_schema b @ tokens_schema b @ usage_schema b @ performance_schema) t names"
proof -
  let ?ds = "accounts_schema b @ tokens_schema b @ usage_schema b @ performance_schema"
  have "created_by ?ds"
    using created_by_both by (cases b) simp_all
  then have "list_ex (creates t) ?ds" "list_all (creates_fully t names) ?ds"
    using assms unfolding created_by_def list_all_iff by blast+
  then show ?thesis
    unfolding covers_def list_ex_iff list_all_iff by (force simp: creates_def creates_fully_def split: ddl.splits)
qed

lemma migrate_creates:
  assumes "migrate err driver c = (Inr (), c')" "\<not> stamped (cn_schema c)"
    and "(t, all_names) \<in> set required_tables" "names \<subseteq> all_names" "compatible (cn_schema c) t names"
  shows "has_columns (cn_schema c') t names"
proof -
  let ?b = "driver = ''sqlite''"
  let ?base = "accounts_schema ?b @ tokens_schema ?b @ usage_schema ?b"
  have cov: "covers ?base t names" "covers performance_schema t names"
    using required_created [OF assms(3), of ?b] assms(4) by (auto simp: covers_def)
  obtain cols where cols: "Create_Table t cols \<in> set ?base \<or> Create_Table t cols \<in> set performance_schema"
    using required_created [OF assms(3), of ?b] by auto
  have start: "compatible (cn_schema (snd (execute err Create_Versions c))) t names"
    by (rule execute_compatible) (simp_all add: covers_def assms(5))
  from assms(1) show ?thesis
  proof (cases rule: migrate_parts)
    case (skipped c1)
    then show ?thesis
      using assms(2) execute_stamped [of Create_Versions err c] by simp
  next
    case (ran c1 c2 c3)
    have "has_columns (cn_schema c3) t names"
    proof (cases "Create_Table t cols \<in> set ?base")
      case True
      have "has_columns (cn_schema c2) t names"
        using execute_all_creates [OF ran(2) True cov(1)] start ran(1) by simp
      then show ?thesis
        by (intro execute_all_keeps [OF ran(3)] alter_keeps)
    next
      case False
      have "compatible (cn_schema c2) t names"
        using execute_all_compatible [OF ran(2) cov(1)] start ran(1) by simp
      then show ?thesis
        using execute_all_creates [OF ran(3) _ cov(2)] cols False alter_keeps(2) by blast
    qed
    then show ?thesis
      by (rule execute_all_keeps [OF ran(4)])
  qed
qed

lemma added_later_names: "fst ` set (pending_columns b) = added_later"
  by (simp add: pending_columns_def added_later_def)

lemma required_indexed:
  "\<exists>names. (''usage_events'', names) \<in> set required_tables \<and> usage_index_columns \<subseteq> names"
  "\<exists>names. (''request_performance_events'', names) \<in> set required_tables \<and> performance_index_columns \<subseteq> names"
proof -
  have "list_ex (\<lambda>(t, names). t = ''usage_events'' \<and> usage_index_columns \<subseteq> names) required_tables"
    "list_ex (\<lambda>(t, names). t = ''request_performance_events'' \<and> performance_index_columns \<subseteq> names) required_tables"
    by code_simp+
  then show "\<exists>names. (''usage_events'', names) \<in> set required_tables \<and> usage_index_columns \<subseteq> names"
    "\<exists>names. (''request_performance_events'', names) \<in> set required_tables \<and> performance_index_columns \<subseteq> names"
    unfolding list_ex_iff by blast+
qed

lemma compatible_mono: "compatible s t a \<Longrightarrow> b \<subseteq> a \<Longrightarrow> compatible s t b"
  by (auto simp: compatible_def intro: has_columns_mono)

lemma fit_migrated:
  assumes "migrate err driver c = (Inr (), c')" "fit_to_migrate c"
  shows "serves (cn_schema c')"
proof (cases "serves (cn_schema c)")
  case True
  then show ?thesis
    using migrate_keeps [OF assms(1)] by (auto simp: serves_def)
next
  case False
  then have un: "\<not> stamped (cn_schema c)"
    and fit: "(t, names) \<in> set required_tables \<Longrightarrow>
      compatible (cn_schema c) t (if cn_faults c = [] \<and> t = ''accounts'' then names - added_later else names)" for t names
    using assms(2) by (auto simp: fit_to_migrate_def)
  have "has_columns (cn_schema c') t names" if req: "(t, names) \<in> set required_tables" for t names
  proof (cases "cn_faults c = [] \<and> t = ''accounts''")
    case False
    then show ?thesis
      using migrate_creates [OF assms(1) un req order_refl] fit [OF req] by auto
  next
    case True
    have old: "has_columns (cn_schema c') ''accounts'' (names - added_later)"
      using migrate_creates [OF assms(1) un req Diff_subset] fit [OF req] True by simp
    obtain u p where u: "(''usage_events'', u) \<in> set required_tables" "usage_index_columns \<subseteq> u"
      and p: "(''request_performance_events'', p) \<in> set required_tables" "performance_index_columns \<subseteq> p"
      using required_indexed by blast
    have idx: "compatible (cn_schema c) ''usage_events'' usage_index_columns"
      "compatible (cn_schema c) ''request_performance_events'' performance_index_columns"
      using compatible_mono [OF _ u(2)] compatible_mono [OF _ p(2)] fit [OF u(1)] fit [OF p(1)] by simp_all
    obtain c2 where "migrate err driver c = (Inr (), c2)"
      "has_columns (cn_schema c2) ''accounts'' (fst ` set (pending_columns (driver = ''sqlite'')))"
      by (rule migrate_run [OF conjunct1 [OF True] un idx, of err driver]) (rule that)
    then have "has_columns (cn_schema c') ''accounts'' added_later"
      using assms(1) by (simp add: added_later_names)
    moreover have "names \<subseteq> (names - added_later) \<union> added_later"
      by blast
    ultimately show ?thesis
      using old True unfolding has_columns_def by fastforce
  qed
  then show ?thesis
    by (auto simp: serves_def)
qed

end
