(* ===== verification/Startup.thy ===== *)
theory Startup
  imports Router_Facts Schema_Facts Redis_Store
begin

text \<open>
  Starting the gateway (\<open>src/main.rs\<close>, \<open>init_db\<close> of \<open>src/store/db.rs\<close>): the configuration, the database with its migration, the
  cache, the prices, the clearing of stale limits, and the application that serves requests from then on.

  The logs, the listener, the audit and the telemetry service are left out.
\<close>

section \<open>Starting\<close>

definition pool_url :: "string \<Rightarrow> string \<Rightarrow> string" where
  "pool_url driver dsn = (if driver = ''sqlite'' then ''sqlite:'' @ dsn @ ''?mode=rwc'' else dsn)"

text \<open>
  What the start meets: the environment, the PostgreSQL server (as for \<open>ensure_postgres_database\<close>), the database behind a URL or the
  error of opening it, the Redis server behind a URL or the error of connecting, the tables as they are stored, and the
  errors of the two statements whose errors are only logged.
\<close>

record 'r startup_env =
  su_docker :: bool
  su_env :: environment
  su_compose :: "string + bool \<times> string \<times> string"
  su_ready :: "nat \<Rightarrow> string option"
  su_spent :: "nat \<Rightarrow> nat"
  su_admin_fault :: "string option"
  su_check_fault :: "string option"
  su_create_fault :: "string option"
  su_databases :: "string list"
  su_open :: "string list \<Rightarrow> string \<Rightarrow> sqlx_error + conn"
  su_ddl_error :: "ddl \<Rightarrow> sqlx_error"
  su_redis :: "string \<Rightarrow> string + 'r"
  su_rows :: "account_row list"
  su_next_id :: int
  su_usage_store :: usage_store
  su_sha256 :: "string \<Rightarrow> nat list"
  su_now :: int
  su_uuid :: string
  su_snapshot_fault :: "sqlx_error option"
  su_stale_fault :: "sqlx_error option"

datatype 'r cache_choice = Use_Redis 'r | Use_Memory memory_store

text \<open>Redis when it is configured and answers, and memory otherwise.\<close>

definition choose_cache :: "redis_config option \<Rightarrow> (string \<Rightarrow> string + 'r) \<Rightarrow> 'r cache_choice" where
  "choose_cache cfg connect =
     (case cfg of
        None \<Rightarrow> Use_Memory memory_store_new
      | Some c \<Rightarrow>
          (case connect (build_redis_url (rc_host c) (rc_port c) (rc_password c) (rc_db c)) of
             Inl _ \<Rightarrow> Use_Memory memory_store_new
           | Inr r \<Rightarrow> Use_Redis r))"

record 'r started =
  sd_config :: config
  sd_conn :: conn
  sd_cache :: "'r cache_choice"
  sd_accounts :: account_store
  sd_usage :: usage_service
  sd_perf :: performance_service

definition start_services ::
  "serde_lib \<Rightarrow> 'r startup_env \<Rightarrow> config \<Rightarrow> conn \<Rightarrow> 'r started outcome" where
  "start_services S E cfg c =
     outcome_bind (from_override_json S (su_sha256 E) (cf_usage_pricing_overrides_json cfg)) (\<lambda>r.
       case r of
         Inl _ \<Rightarrow> Panic
       | Inr pricing \<Rightarrow>
           outcome_bind (usage_start S (su_snapshot_fault E) (su_now E) pricing True True (su_usage_store E)) (\<lambda>usage.
             Done \<lparr>sd_config = cfg, sd_conn = c, sd_cache = choose_cache (cf_redis cfg) (su_redis E),
                   sd_accounts = snd (clear_stale_rate_limit_fields (su_now E) (su_stale_fault E)
                     (account_store_new (su_rows E) (su_next_id E))),
                   sd_usage = usage,
                   sd_perf = performance_start (cf_performance_monitoring_enabled cfg) (su_uuid E) (su_now E)\<rparr>))"

text \<open>Every \<open>expect\<close> panics: the database that cannot be prepared, opened or migrated, and the prices that cannot be read.\<close>

definition start :: "serde_lib \<Rightarrow> 'r startup_env \<Rightarrow> 'r started outcome" where
  "start S E =
     (let cfg = load_config (su_docker E) (su_env E);
          db = cf_database cfg;
          driver = db_driver db
      in case ensure_postgres_database (su_docker E) (su_compose E) (su_ready E) (su_spent E) (su_admin_fault E)
                (su_check_fault E) (su_create_fault E) db (su_databases E) of
           (Inl _, _) \<Rightarrow> Panic
         | (Inr _, dbs) \<Rightarrow>
             (case su_open E dbs (pool_url driver (db_dsn db)) of
                Inl _ \<Rightarrow> Panic
              | Inr c \<Rightarrow>
                  (case migrate (su_ddl_error E) driver c of
                     (Inl _, _) \<Rightarrow> Panic
                   | (Inr _, c) \<Rightarrow> start_services S E cfg c)))"

text \<open>The application over the cache that was chosen, with the tokens and the completed requests as they are stored.\<close>

definition started_app :: "'c \<Rightarrow> token_store \<Rightarrow> perf_table \<Rightarrow> usage_store \<Rightarrow> 'r started \<Rightarrow> ('c, 'd) app" where
  "started_app c tokens table ust s =
     \<lparr>app_gateway = \<lparr>gw_svc = account_service_new (sd_accounts s) c limit_store_new, gw_releases = [], gw_flushes = [], gw_drains = []\<rparr>,
      app_tokens = tokens, app_sessions = session_store_new, app_perf = sd_perf s, app_perf_table = table, app_usage = sd_usage s,
      app_usage_store = ust, app_bodies = []\<rparr>"

section \<open>What a start establishes\<close>

lemma usage_start_engine:
  assumes "usage_start S f now pricing cm au st = Done svc" "engine_ok pricing"
  shows "engine_ok (uv_pricing svc)"
proof -
  obtain pe where pe: "(case load_pricing_snapshot f st of
          Inr (Some json) \<Rightarrow>
            (case snapshot_from_json S json of
               Inl _ \<Rightarrow> Done pricing
             | Inr snapshot \<Rightarrow>
                 outcome_bind (with_snapshot pricing snapshot)
                   (\<lambda>r. Done (case r of Inr cached \<Rightarrow> cached | Inl _ \<Rightarrow> pricing)))
        | _ \<Rightarrow> Done pricing) = Done pe" "uv_pricing svc = pe"
    using assms(1) unfolding usage_start_def outcome_bind_Done_iff by auto
  have "engine_ok pe"
  proof (cases "load_pricing_snapshot f st")
    case (Inr found)
    show ?thesis
    proof (cases found)
      case (Some json)
      show ?thesis
      proof (cases "snapshot_from_json S json")
        case snap: (Inr snap)
        have run: "outcome_bind (with_snapshot pricing snap) (\<lambda>r. Done (case r of Inr cached \<Rightarrow> cached | Inl _ \<Rightarrow> pricing)) = Done pe"
          using pe(1) Inr Some snap by simp
        then obtain r where r: "with_snapshot pricing snap = Done r"
          by (cases "with_snapshot pricing snap") simp_all
        then show ?thesis
          using run assms(2) with_snapshot_ok [OF assms(2)] by (cases r) simp_all
      qed (use pe(1) assms(2) Inr Some in simp)
    qed (use pe(1) assms(2) Inr in simp)
  qed (use pe(1) assms(2) in simp)
  then show ?thesis
    using pe(2) by simp
qed

lemma clear_stale_rows:
  assumes "r \<in> set (ast_rows (snd (clear_stale_rate_limit_fields now None st)))" "row_status r = ''active''"
  shows "row_rate_limited_at r = None"
  using assms by (auto simp: clear_stale_rate_limit_fields_def exec_update_def split: if_splits)

lemma start_cases:
  assumes "start S E = Done s"
  obtains dbs c c' where "ensure_postgres_database (su_docker E) (su_compose E) (su_ready E) (su_spent E) (su_admin_fault E)
        (su_check_fault E) (su_create_fault E) (cf_database (load_config (su_docker E) (su_env E))) (su_databases E) = (Inr (), dbs)"
    "su_open E dbs (pool_url (db_driver (cf_database (load_config (su_docker E) (su_env E))))
        (db_dsn (cf_database (load_config (su_docker E) (su_env E))))) = Inr c"
    "migrate (su_ddl_error E) (db_driver (cf_database (load_config (su_docker E) (su_env E)))) c = (Inr (), c')"
    "start_services S E (load_config (su_docker E) (su_env E)) c' = Done s"
  using assms by (auto simp: start_def Let_def split: prod.splits sum.splits)

lemma start_services_sel:
  assumes "start_services S E cfg c = Done s"
  shows "sd_conn s = c" "sd_config s = cfg" "engine_ok (uv_pricing (sd_usage s))"
    "sd_cache s = choose_cache (cf_redis cfg) (su_redis E)"
    "sd_accounts s = snd (clear_stale_rate_limit_fields (su_now E) (su_stale_fault E) (account_store_new (su_rows E) (su_next_id E)))"
proof -
  obtain pricing where p: "from_override_json S (su_sha256 E) (cf_usage_pricing_overrides_json cfg) = Done (Inr pricing)"
    using assms by (cases "from_override_json S (su_sha256 E) (cf_usage_pricing_overrides_json cfg)")
      (auto simp: start_services_def split: sum.splits)
  obtain usage where u: "usage_start S (su_snapshot_fault E) (su_now E) pricing True True (su_usage_store E) = Done usage"
    using assms p by (cases "usage_start S (su_snapshot_fault E) (su_now E) pricing True True (su_usage_store E)")
      (auto simp: start_services_def)
  show "sd_conn s = c" "sd_config s = cfg" "sd_cache s = choose_cache (cf_redis cfg) (su_redis E)"
    "sd_accounts s = snd (clear_stale_rate_limit_fields (su_now E) (su_stale_fault E) (account_store_new (su_rows E) (su_next_id E)))"
    using assms p u by (auto simp: start_services_def)
  have "sd_usage s = usage"
    using assms p u by (auto simp: start_services_def)
  then show "engine_ok (uv_pricing (sd_usage s))"
    using usage_start_engine [OF u from_override_json_ok [OF p]] by simp
qed

section \<open>The prices while the application runs\<close>

lemma reported_pricing: "reported cxs a svc svc' \<Longrightarrow> uv_pricing svc' = uv_pricing svc"
  by (auto simp: reported_def submit_effect)

lemma finalize_pricing:
  "observer_finalize cx terminal dropped (ob, svc) = (ob', svc') \<Longrightarrow> uv_pricing svc' = uv_pricing svc"
  by (erule finalize_cases) (auto dest: reported_pricing)

lemma finish_pricing:
  assumes "stream_finish C S cx dropped (oo, cell, svc) = (oo', cell', svc')"
  shows "uv_pricing svc' = uv_pricing svc"
proof (cases oo)
  case (Some ob)
  obtain ep cell1 where ep: "encoded_finish C S (cx_inst cx) dropped (ob_parser ob, cell) = (ep, cell1)"
    by fastforce
  obtain ob1 svc1 where fin: "observer_finalize cx True dropped (ob\<lparr>ob_parser := ep\<rparr>, svc) = (ob1, svc1)"
    by fastforce
  have "svc' = svc \<or> svc' = svc1"
    using assms Some ep fin by (auto simp: stream_finish_def observer_finish_def Let_def split: if_splits)
  then show ?thesis
    using finalize_pricing [OF fin] by auto
qed (use assms in \<open>simp add: stream_finish_def\<close>)

lemma poll_pricing:
  assumes "stream_poll_next C S cx item (oo, cell, svc) = Some (out, oo', cell', svc')"
  shows "uv_pricing svc' = uv_pricing svc"
proof (cases item)
  case (SP_Data bytes)
  show ?thesis
  proof (cases oo)
    case (Some ob)
    then obtain ob' where "observer_feed C S cx bytes (ob, cell, svc) = Some (ob', cell', svc')"
      using assms SP_Data by (auto simp: stream_poll_next_def)
    then show ?thesis
      using feed_finalizes [of C S cx bytes ob cell svc ob' cell' svc'] finalize_pricing by fastforce
  qed (use assms SP_Data in \<open>simp add: stream_poll_next_def\<close>)
next
  case SP_Error
  then show ?thesis
    using assms finish_pricing [of C S cx False oo cell svc oo' cell' svc'] by (simp add: stream_poll_next_def)
next
  case SP_End
  then show ?thesis
    using assms finish_pricing [of C S cx False oo cell svc oo' cell' svc'] by (simp add: stream_poll_next_def)
qed (use assms in \<open>simp add: stream_poll_next_def\<close>)

lemma serve_usage: "app_usage (snd (serve S ops V e req app)) = app_usage app"
  by (cases e)
     (auto simp: with_arg_def on_accounts_def on_tokens_def on_sessions_def put_svc_def split: sum.splits prod.splits outcome.splits)

lemma handle_usage: "app_usage (snd (app_handle C S ops password V req app)) = app_usage app"
proof (cases "dispatch (ev_matches V) password req")
  case (To_Frontend f)
  then show ?thesis by (cases f) (simp_all add: app_handle_def)
next
  case (To_Endpoint e)
  then show ?thesis
    using serve_usage [of S ops V e req app] by (simp add: app_handle_def split_beta)
qed (auto simp: app_handle_def split: prod.splits)

lemma refresh_engine:
  assumes "pricing_refresh_round S fetched now faults (svc, st) = Done (svc', st')" "engine_ok (uv_pricing svc)"
  shows "engine_ok (uv_pricing svc')"
proof (cases fetched)
  case (Inr snapshot)
  obtain x where x: "with_snapshot (uv_pricing svc) snapshot = Done x"
    using assms(1) Inr by (auto simp: pricing_refresh_round_def outcome_bind_Done_iff)
  show ?thesis
  proof (cases x)
    case pe: (Inr pe)
    have "engine_ok pe"
      using with_snapshot_ok [OF assms(2)] x pe by blast
    then show ?thesis
      using assms Inr x pe by (cases "snapshot_to_json S snapshot") (auto simp: pricing_refresh_round_def Let_def)
  qed (use assms Inr x in \<open>simp add: pricing_refresh_round_def\<close>)
qed (use assms in \<open>simp add: pricing_refresh_round_def\<close>)

lemma exec_engine:
  assumes "engine_ok (uv_pricing (app_usage app))"
  shows "engine_ok (uv_pricing (app_usage (app_exec C S ops password step app)))"
proof (cases step)
  case (AS_Request V req)
  then show ?thesis using assms by (simp add: handle_usage)
next
  case (AS_Poll i B item)
  then show ?thesis
    using assms
    by (auto simp: app_poll_def poll_body_def Let_def split: option.splits prod.splits dest!: poll_pricing)
next
  case (AS_Drop i B)
  then show ?thesis
    using assms
    by (auto simp: app_drop_def drop_in_flight_def stream_drop_def Let_def split: prod.splits dest!: finish_pricing)
next
  case (AS_Prices fetched now faults)
  then show ?thesis
    using assms refresh_engine [of S fetched now faults "app_usage app" "app_usage_store app"]
    by (auto simp: on_usage_def split: prod.splits outcome.splits)
qed (use assms in \<open>simp_all add: on_usage_def usage_writer_batch_def pricing_refresh_start_def Let_def split: prod.split\<close>)

lemma run_engine:
  "engine_ok (uv_pricing (app_usage app)) \<Longrightarrow> engine_ok (uv_pricing (app_usage (app_run C S ops password steps app)))"
proof (induction steps arbitrary: app)
  case (Cons step steps)
  then show ?case
    using exec_engine [OF Cons.prems, of C S ops password step] by simp
qed simp

section \<open>Properties\<close>


section \<open>A first start\<close>

text \<open>No variable is set, the database file is new, and the table has one account with the rest of a limit.\<close>

definition first_start :: "unit startup_env" where
  "first_start =
     \<lparr>su_docker = False, su_env = (\<lambda>_. None), su_compose = Inl ''no docker'', su_ready = (\<lambda>_. None), su_spent = (\<lambda>_. 0),
      su_admin_fault = None, su_check_fault = None, su_create_fault = None, su_databases = [],
      su_open = (\<lambda>_ _. Inr new_database), su_ddl_error = (\<lambda>_. RowNotFound), su_redis = (\<lambda>_. Inl ''refused''),
      su_rows = [oauth_row\<lparr>row_rate_limited_at := Some 0\<rparr>], su_next_id = 5, su_usage_store = usage_store_new,
      su_sha256 = (\<lambda>_. []), su_now = 10 ^ 9, su_uuid = ''i'', su_snapshot_fault = None, su_stale_fault = None\<rparr>"

lemma first_start_returns: "\<exists>s. start example_serde first_start = Done s"
proof -
  let ?cfg = "load_config False (\<lambda>_. None)"
  have cfg: "db_driver (cf_database ?cfg) = ''sqlite''" "cf_usage_pricing_overrides_json ?cfg = None"
    by (simp_all add: load_config_def db_driver_def not_blank_def)
  have n: "cn_faults new_database = []" "\<not> stamped (cn_schema new_database)"
    "compatible (cn_schema new_database) t names" for t names
    by (simp_all add: new_database_def stamped_def compatible_def)
  obtain c where m: "migrate (\<lambda>_. RowNotFound) ''sqlite'' new_database = (Inr (), c)"
    by (rule migrate_run [OF n(1,2) n(3) n(3), of "\<lambda>_. RowNotFound" "''sqlite''"]) (rule that)
  obtain rules where rules: "builtin_rules = Done rules"
    using builtin_rules_no_panic by (cases builtin_rules) auto
  obtain pricing where p: "from_override_json example_serde (\<lambda>_. []) None = Done (Inr pricing)"
    unfolding from_override_json_def rules outcome_bind.simps Let_def by simp
  show ?thesis
    using m p by (simp add: start_def first_start_def Let_def ensure_postgres_database_def cfg start_services_def usage_start_def
        load_pricing_snapshot_def usage_store_new_def)
qed

lemma new_database_fit: "fit_to_migrate new_database"
  by (simp add: fit_to_migrate_def new_database_def stamped_def compatible_def)


end
