(* ===== verification/Spec2Isabelle.thy ===== *)
theory Spec2Isabelle
  imports Admin_Facts Database_Facts OAuth_Client OAuth_Facts Performance_Store_Facts Pricing_Fetch Redis_Facts Startup Usage_Tasks
begin

text \<open>
  cc-bridge: a gateway that serves the holders of its API tokens from a pool of upstream accounts.

  \<^bold>\<open>The program.\<close> A request to the gateway passes the routes (\<open>src/handler/router.rs\<close>). A path of the
  frontend or of the administration is answered there; everything else is a request to the upstream and
  goes to the gateway (\<open>src/service/gateway.rs\<close>). The gateway authenticates the API token
  (\<open>src/middleware/auth.rs\<close>, \<open>src/store/token_store.rs\<close>), lets the account service choose an account
  (\<open>src/service/account.rs\<close>), takes one of its concurrency slots and a usable access token, forwards the
  request, and hands the response on while it observes it. The answer's rate-limit headers go to the limit
  store (\<open>src/service/limit.rs\<close>), its token counts to the usage service (\<open>src/service/usage.rs\<close>), its timing
  to the performance service (\<open>src/service/performance.rs\<close>). The account service selects among the
  accounts of the account store (\<open>src/store/account_store.rs\<close>) which the limit store finds available; its
  sticky sessions, slots and refresh locks are in a cache (\<open>src/store/cache.rs\<close>), in memory or in Redis. The
  tables are in a database prepared at every start (\<open>src/store/db.rs\<close>, \<open>src/main.rs\<close>).

  \<^bold>\<open>The theories\<close> follow these parts, each importing what its part calls.

  \<^item> \<open>Prelude\<close>, \<open>F64\<close>, \<open>Json\<close>: what the sources use of the language and of its JSON values. \<open>outcome\<close> is a
    value or a panic, \<open>'a + 'b\<close> an error or a value; integers are \<open>int\<close> with their width written out where it
    matters; an \<open>f64\<close> is the rational it denotes, an infinity or not a number, and every operation rounds to nearest,
    ties to even. The collections \<open>rust_std\<close> and \<open>map_lookup\<close> carry the proofs over library operations and maps.
  \<^item> \<open>Account_Model\<close>: \<open>src/error.rs\<close>, \<open>src/model/account.rs\<close>, \<open>src/model/api_token.rs\<close>,
    \<open>src/model/identity.rs\<close>. Records have the fields of the structs, datatypes the cases of the enumerations.
  \<^item> \<open>Limit\<close>, \<open>Limit_Facts\<close>: \<open>src/service/limit.rs\<close>, from the headers and the usage document to the availability
    of an account. \<open>account_blocked\<close> and \<open>scoped_blocked\<close> are the specification of the judgement;
    \<open>limit_reachable\<close> are the stores any sequence of its operations makes.
  \<^item> \<open>Cache\<close>, \<open>Redis_Store\<close>, \<open>Redis_Facts\<close>: the cache as a record of operations (the trait \<open>CacheStore\<close>), its
    two implementations (\<open>src/store/memory.rs\<close>, \<open>src/store/redis.rs\<close>), the guard of a slot, and \<open>slot_step\<close>, the
    interleaving of requests that acquire slots, drop their guards and run the spawned releases.
  \<^item> \<open>Account_Store\<close>, \<open>Account_Service\<close>, \<open>Selection\<close>: the account table with its cached list of schedulable
    accounts; selection, sticky sessions, tokens and their refresh, usage queries, the flush of limits to the
    database; and how selection depends on both the limits and the table.
  \<^item> \<open>Token_Store\<close>: the token table, the key of a request and its authentication, the token handlers.
  \<^item> \<open>Pricing\<close>, \<open>Pricing_Facts\<close>, \<open>Pricing_Fetch\<close>: \<open>src/model/usage.rs\<close> and \<open>src/service/usage_pricing.rs\<close>,
    exact decimal prices, the lookup of a rule, costs, overrides, snapshots, and the download with its limit.
  \<^item> \<open>Usage_Parser\<close>, \<open>Usage_Parser_Facts\<close>: the JSON and event-stream parsers with the decoders in front of them;
    the reference is a reading of the whole response line by line (plain, gzip, deflate or brotli; not zstd, whose decoder
    is driven by a loop of its own), with a line beyond the limit as one of its errors.
  \<^item> \<open>Usage_Store\<close>, \<open>Usage_Service\<close>, \<open>Usage_Service_Facts\<close>, \<open>Usage_Tasks\<close>, \<open>Usage_Report\<close>: the table of usage events
    (\<open>src/store/usage_store.rs\<close>), the observer of a response, the writer, the backfill of prices and the retention
    task, the step relation \<open>usage_step\<close> over all of them, and the report with its sums. A round of the writer is one step, and
    a commit whose answer is lost is not represented.
  \<^item> \<open>Performance\<close>, \<open>Performance_Store\<close>, \<open>Performance_Store_Facts\<close>: the record of one request and the service that counts
    active requests (\<open>perf_step\<close>: the steps of any number of requests), the table of completed requests
    (\<open>src/store/performance_store.rs\<close>), its report and pages, and their handlers with the health of the service
    (\<open>src/handler/performance.rs\<close>).
  \<^item> \<open>Gateway\<close>, \<open>Gateway_Facts\<close>, \<open>Gateway_Performance\<close>: the path of a request with all its early returns.
  \<^item> \<open>Admin\<close>, \<open>Admin_Facts\<close>, \<open>OAuth_Flow\<close>, \<open>OAuth_Facts\<close>, \<open>OAuth_Client\<close>: the handlers of the administrator, the sign-in of
    accounts (\<open>src/service/oauth_flow.rs\<close>), and the calls of \<open>src/service/oauth.rs\<close> with what the account
    service makes of their answers.
  \<^item> \<open>Config\<close>, \<open>Database\<close>, \<open>Database_Facts\<close>, \<open>Schema_Facts\<close>: \<open>src/config.rs\<close>; the migration with every statement and the errors
    it ignores, waiting for a database server and the creation of its database; the columns the stores need and that a
    migration leaves them.
  \<^item> \<open>Router\<close>, \<open>Application\<close>, \<open>Router_Facts\<close>, \<open>Startup\<close>: the state the handlers share, the endpoint a request reaches and what it
    does there; the bodies in flight and the background tasks, with the runs \<open>app_run\<close> over any sequence of requests, polls and
    drops of bodies and rounds of tasks (a response's usage passes from its body to the queue and from there to the table); and a
    start from the environment to the state that is served (\<open>src/main.rs\<close>).
\<close>

text \<open>
  \<^bold>\<open>Interfaces.\<close> The laws the clients of the cache rely on are locales: \<open>slot_contract\<close> (a slot is given only
  below the limit, a release gives it back), \<open>lock_contract\<close> (one owner until the lock expires),
  \<open>session_contract\<close> (a binding is read until it expires) and \<open>cache_contract\<close>, which joins them. Conservation of slots,
  mutual exclusion of refreshes and stickiness are proved inside them. The interpretations \<open>mem_slots\<close>, \<open>mem_locks\<close>,
  \<open>mem_sessions\<close> and \<open>mem\<close> discharge the laws for the in-memory store. The Redis store does not satisfy \<open>slot_contract\<close>
  when a counter expires while a slot is held; \<open>Redis_Facts\<close> states what it does satisfy, and the violation.
  \<open>saturating_sum\<close> is the interface of metrics that are added with saturation; \<open>ms\<close> interprets it on the
  metrics of the report, and gives that its parts add up in any order.

  \<^bold>\<open>What the lemmas show.\<close> Over whole runs: requests without the password change nothing the administrator
  configures and add usage for tokens in use only, the tables change by calls of their stores only and stay consistent, and a
  successful start leaves the columns the stores need and prices that stay valid. Of a request: only known tokens are served, the chosen account is available, of the smallest priority
  and sticky for its session, its slot has one owner and is given back once, a refusal of the upstream is passed on only in a
  generic form and takes the account out of the selection. Of the parsers: chunk boundaries do not matter, the
  incremental reading equals the reference, memory is bounded. Of the stores: an event is recorded once, pages list every
  match once, a report partitions what it selects, a cached list agrees with its table. Of the background work: counters
  account for every event, batches compute what one pass computes. Of the errors: every statement and every answer may
  fail, and the lemmas say what is kept then. The places where the code does not do what it means to are lemmas
  too: a concurrency beyond 32 bits closes an account, a rejection has no end in time, a stale list outlives the
  change that invalidates it, a failed upgrade of the schema is never repeated.

  \<^bold>\<open>Recursion, bounds and failures.\<close> Loops are functions with a termination proof: the backfill and retention loops by the
  rows left, the buckets by the distance to the end of the range, the wait for a server by its sixty attempts.
  The loop of the zstd decoder may not end for an arbitrary library; \<open>zstd_loop\<close> is a partial
  function into \<open>option\<close>, and a lemma shows that it returns for every library that makes progress. No
  definition has fuel. Bounds are those of the code: 8 MiB of a price list, 16 MiB of a JSON response, 256 KiB of a line of an event
  stream, the batch sizes, the limits of pages and reports. A database statement takes an
  argument that says whether it fails, at every statement separately.

  \<^bold>\<open>Parameters.\<close> Code outside the repository is an argument: number parsing and printing, times and hashes
  (\<open>serde_lib\<close>, \<open>lib\<close>, \<open>client_lib\<close>, \<open>flow_lib\<close>), the compression libraries (\<open>codec_lib\<close>), calendars and time
  zones (\<open>calendar\<close>), the Redis server (\<open>redis\<close>), the text form of stored events (\<open>event_codec\<close>), the matching of
  paths and extraction of arguments (\<open>extractors\<close>), clocks, random draws, the answers of the upstream and the
  OAuth server. A lemma that needs more of them says so in a hypothesis that states their documented behaviour, and its
  witness uses concrete functions.

  \<^bold>\<open>Not modelled.\<close> Four parts of the sources serve to keep the upstream service from recognising the gateway:
  the rewriting of requests and responses (\<open>src/service/rewriter.rs\<close>, apart from the classification of endpoints
  and clients and the session of a body, which routing uses), the simulated telemetry
  (\<open>src/service/telemetry.rs\<close>), the fingerprint audit (\<open>src/service/fingerprint_audit.rs\<close> and its observations
  in \<open>src/service/gateway.rs\<close>) and the TLS fingerprint client (\<open>src/tlsfp\<close>); with them
  \<open>TokenTester::test_token\<close> of \<open>src/service/oauth.rs\<close> and the request headers there. This development leaves
  them out on purpose. The gateway takes the rewriting as the parameter \<open>rewriting\<close>, and its theorems hold for
  every value of it, so none of them states anything about how a request looks to the upstream.
  Also left out: the log (\<open>src/logging.rs\<close>), opening the connection pools, the text of the SQL where it does not
  decide the result (constraints and defaults of columns, numbering of placeholders, casts), the vendored TLS
  library (\<open>craftls\<close>), the web frontend and the scripts. Concurrency is modelled where the code relies on it: slots, locks, the
  performance and usage services, the bodies of responses, the race of a listing with a change; elsewhere a handler runs in one step.
\<close>

end
